(* ===== verification/SC_Prelude.thy ===== *)
theory SC_Prelude
  imports Main "HOL-Library.Word"
begin

text \<open>
  Shared material of the development: the machine integers and results of the Rust code, the
  string operations of its standard library that the components use, and the generic lemmas on
  lists, results and saturating counters that the component theories rely on.

  A Rust \<open>String\<close> is modelled as the list of its UTF-8 bytes (an Isabelle \<^typ>\<open>char\<close> is an
  8-bit value), so \<open>len()\<close> is \<^const>\<open>length\<close>, and the functions that count or cut
  characters skip continuation bytes.  A \<open>Result<T, E>\<close> is a sum, \<^const>\<open>Inl\<close> for \<open>Err\<close>.
  A \<open>DateTime<Utc>\<close> is the integer number of nanoseconds since the epoch.
\<close>

named_theorems rust_defs "definitions of the modelled standard-library operations"
named_theorems word_bounds "bounds of saturating counters"

section \<open>Types\<close>

type_synonym u8 = "8 word"
type_synonym u16 = "16 word"
type_synonym u32 = "32 word"
type_synonym u64 = "64 word"
type_synonym Id = string
type_synonym Timestamp = int

abbreviation Err :: "'e \<Rightarrow> 'e + 'a" where "Err \<equiv> Inl"
abbreviation Ok :: "'a \<Rightarrow> 'e + 'a" where "Ok \<equiv> Inr"

abbreviation u32_max :: u32 where "u32_max \<equiv> -1"
abbreviation u64_max :: u64 where "u64_max \<equiv> -1"

text \<open>The \<open>?\<close> operator: stop at the first error.\<close>

definition and_then :: "'e + 'a \<Rightarrow> ('a \<Rightarrow> 'e + 'b) \<Rightarrow> 'e + 'b" where
  "and_then r f = (case r of Inl e \<Rightarrow> Inl e | Inr x \<Rightarrow> f x)"

definition ok_or :: "'a option \<Rightarrow> 'e \<Rightarrow> 'e + 'a" where
  "ok_or x e = (case x of None \<Rightarrow> Inl e | Some v \<Rightarrow> Inr v)"

definition is_ok :: "'e + 'a \<Rightarrow> bool" where
  "is_ok r = (case r of Inl _ \<Rightarrow> False | Inr _ \<Rightarrow> True)"

section \<open>Saturating and checked arithmetic\<close>

definition saturating_add :: "'a::len word \<Rightarrow> 'a word \<Rightarrow> 'a word" where
  "saturating_add a b = (if unat a + unat b < 2 ^ LENGTH('a) then a + b else - 1)"

definition saturating_mul :: "'a::len word \<Rightarrow> 'a word \<Rightarrow> 'a word" where
  "saturating_mul a b = (if unat a * unat b < 2 ^ LENGTH('a) then a * b else - 1)"

definition checked_add :: "'a::len word \<Rightarrow> 'a word \<Rightarrow> 'a word option" where
  "checked_add a b = (if unat a + unat b < 2 ^ LENGTH('a) then Some (a + b) else None)"

text \<open>\<open>u32::try_from(n).unwrap_or(u32::MAX)\<close> of a length.\<close>

definition u32_of_len :: "nat \<Rightarrow> u32" where
  "u32_of_len n = (if n < 2 ^ 32 then word_of_nat n else - 1)"

definition u64_of_len :: "nat \<Rightarrow> u64" where
  "u64_of_len n = (if n < 2 ^ 64 then word_of_nat n else - 1)"

text \<open>\<open>a.div_ceil(b)\<close> on sizes.\<close>

definition div_ceil :: "nat \<Rightarrow> nat \<Rightarrow> nat" where
  "div_ceil a b = (a + b - 1) div b"

section \<open>Strings as UTF-8 bytes\<close>

abbreviation byte :: "char \<Rightarrow> nat" where "byte c \<equiv> of_char c"

definition is_ascii_digit :: "char \<Rightarrow> bool" where
  "is_ascii_digit c \<longleftrightarrow> 48 \<le> byte c \<and> byte c \<le> 57"

definition is_ascii_uppercase :: "char \<Rightarrow> bool" where
  "is_ascii_uppercase c \<longleftrightarrow> 65 \<le> byte c \<and> byte c \<le> 90"

definition is_ascii_lowercase :: "char \<Rightarrow> bool" where
  "is_ascii_lowercase c \<longleftrightarrow> 97 \<le> byte c \<and> byte c \<le> 122"

definition is_ascii_alphabetic :: "char \<Rightarrow> bool" where
  "is_ascii_alphabetic c \<longleftrightarrow> is_ascii_uppercase c \<or> is_ascii_lowercase c"

definition is_ascii_alphanumeric :: "char \<Rightarrow> bool" where
  "is_ascii_alphanumeric c \<longleftrightarrow> is_ascii_alphabetic c \<or> is_ascii_digit c"

definition is_ascii_hexdigit :: "char \<Rightarrow> bool" where
  "is_ascii_hexdigit c \<longleftrightarrow>
     is_ascii_digit c \<or> (65 \<le> byte c \<and> byte c \<le> 70) \<or> (97 \<le> byte c \<and> byte c \<le> 102)"

definition ascii_lower :: "char \<Rightarrow> char" where
  "ascii_lower c = (if is_ascii_uppercase c then char_of (byte c + 32) else c)"

definition to_ascii_lowercase :: "string \<Rightarrow> string" where
  "to_ascii_lowercase s = map ascii_lower s"

definition eq_ignore_ascii_case :: "string \<Rightarrow> string \<Rightarrow> bool" where
  "eq_ignore_ascii_case s t \<longleftrightarrow> to_ascii_lowercase s = to_ascii_lowercase t"

definition starts_with :: "string \<Rightarrow> string \<Rightarrow> bool" where
  "starts_with s p \<longleftrightarrow> take (length p) s = p"

definition strip_prefix :: "string \<Rightarrow> string \<Rightarrow> string option" where
  "strip_prefix s p = (if starts_with s p then Some (drop (length p) s) else None)"

definition ends_with :: "string \<Rightarrow> string \<Rightarrow> bool" where
  "ends_with s p \<longleftrightarrow> length p \<le> length s \<and> drop (length s - length p) s = p"

fun str_contains :: "string \<Rightarrow> string \<Rightarrow> bool" where
  "str_contains [] p = (p = [])"
| "str_contains (c # s) p = (starts_with (c # s) p \<or> str_contains s p)"

text \<open>\<open>str::find\<close> with a string pattern: the byte offset of the first match.\<close>

fun str_find :: "string \<Rightarrow> string \<Rightarrow> nat option" where
  "str_find [] p = (if p = [] then Some 0 else None)"
| "str_find (c # s) p =
     (if starts_with (c # s) p then Some 0 else map_option Suc (str_find s p))"

text \<open>The byte length of the white-space character (Unicode \<open>White_Space\<close>) that a string
  starts with, 0 when it starts with none; and the same for a string read from its end.\<close>

definition ws_ascii :: "nat \<Rightarrow> bool" where
  "ws_ascii a \<longleftrightarrow> (9 \<le> a \<and> a \<le> 13) \<or> a = 32"

definition ws_two :: "nat \<Rightarrow> nat \<Rightarrow> bool" where
  "ws_two a b \<longleftrightarrow> a = 0xC2 \<and> (b = 0x85 \<or> b = 0xA0)"

definition ws_three :: "nat \<Rightarrow> nat \<Rightarrow> nat \<Rightarrow> bool" where
  "ws_three a b c \<longleftrightarrow>
     (a = 0xE1 \<and> b = 0x9A \<and> c = 0x80) \<or>
     (a = 0xE2 \<and> b = 0x80 \<and> ((0x80 \<le> c \<and> c \<le> 0x8A) \<or> c = 0xA8 \<or> c = 0xA9 \<or> c = 0xAF)) \<or>
     (a = 0xE2 \<and> b = 0x81 \<and> c = 0x9F) \<or>
     (a = 0xE3 \<and> b = 0x80 \<and> c = 0x80)"

fun trim_start :: "string \<Rightarrow> string" where
  "trim_start (a # b # c # s) =
     (if ws_ascii (byte a) then trim_start (b # c # s)
      else if ws_two (byte a) (byte b) then trim_start (c # s)
      else if ws_three (byte a) (byte b) (byte c) then trim_start s
      else a # b # c # s)"
| "trim_start [a, b] =
     (if ws_ascii (byte a) then trim_start [b]
      else if ws_two (byte a) (byte b) then [] else [a, b])"
| "trim_start [a] = (if ws_ascii (byte a) then [] else [a])"
| "trim_start [] = []"

fun trim_end_rev :: "string \<Rightarrow> string" where
  "trim_end_rev (c # b # a # s) =
     (if ws_ascii (byte c) then trim_end_rev (b # a # s)
      else if ws_two (byte b) (byte c) then trim_end_rev (a # s)
      else if ws_three (byte a) (byte b) (byte c) then trim_end_rev s
      else c # b # a # s)"
| "trim_end_rev [c, b] =
     (if ws_ascii (byte c) then trim_end_rev [b]
      else if ws_two (byte b) (byte c) then [] else [c, b])"
| "trim_end_rev [c] = (if ws_ascii (byte c) then [] else [c])"
| "trim_end_rev [] = []"

definition trim_end :: "string \<Rightarrow> string" where
  "trim_end s = rev (trim_end_rev (rev s))"

definition trim :: "string \<Rightarrow> string" where
  "trim s = trim_end (trim_start s)"

text \<open>\<open>s.trim().is_empty()\<close>.\<close>

definition blank :: "string \<Rightarrow> bool" where
  "blank s \<longleftrightarrow> trim s = []"

definition is_cont_byte :: "char \<Rightarrow> bool" where
  "is_cont_byte c \<longleftrightarrow> 128 \<le> byte c \<and> byte c < 192"

text \<open>\<open>s.chars().count()\<close> and \<open>s.chars().take(n)\<close>.\<close>

definition chars_count :: "string \<Rightarrow> nat" where
  "chars_count s = length (filter (\<lambda>c. \<not> is_cont_byte c) s)"

fun take_chars :: "nat \<Rightarrow> string \<Rightarrow> string" where
  "take_chars n [] = []"
| "take_chars n (c # s) =
     (if is_cont_byte c then c # take_chars n s
      else (case n of 0 \<Rightarrow> [] | Suc m \<Rightarrow> c # take_chars m s))"

text \<open>\<open>split_inclusive\<close> on the line feed.\<close>

fun split_inclusive :: "string \<Rightarrow> string \<Rightarrow> string list" where
  "split_inclusive cur [] = (if cur = [] then [] else [cur])"
| "split_inclusive cur (c # s) =
     (if c = CHR 0x0A then (cur @ [c]) # split_inclusive [] s else split_inclusive (cur @ [c]) s)"

text \<open>\<open>str::lines\<close>: the terminator of a line is a line feed with an optional carriage return.\<close>

definition strip_terminator :: "string \<Rightarrow> string" where
  "strip_terminator line =
     (if ends_with line [CHR 0x0A] then
        (let body = butlast line in if ends_with body [CHR 0x0D] then butlast body else body)
      else line)"

definition str_lines :: "string \<Rightarrow> string list" where
  "str_lines s = map strip_terminator (split_inclusive [] s)"

text \<open>Whether a string has a control character (Unicode \<open>Cc\<close>), in UTF-8.\<close>

fun has_control :: "string \<Rightarrow> bool" where
  "has_control [] = False"
| "has_control (c # s) =
     (byte c < 32 \<or> byte c = 127 \<or> (byte c = 0xC2 \<and> (case s of d # _ \<Rightarrow> byte d < 0xA0 | [] \<Rightarrow> False)) \<or>
      has_control s)"

text \<open>Byte-wise comparison, the order of a \<open>BTreeMap<String, _>\<close>.\<close>

fun str_less :: "string \<Rightarrow> string \<Rightarrow> bool" where
  "str_less _ [] = False"
| "str_less [] (b # t) = True"
| "str_less (a # s) (b # t) = (byte a < byte b \<or> (a = b \<and> str_less s t))"

fun join :: "string \<Rightarrow> string list \<Rightarrow> string" where
  "join sep [] = []"
| "join sep [x] = x"
| "join sep (x # y # ys) = x @ sep @ join sep (y # ys)"

text \<open>The decimal text of a number.\<close>

fun decimal :: "nat \<Rightarrow> string" where
  "decimal n = (if n < 10 then [char_of (48 + n)] else decimal (n div 10) @ [char_of (48 + n mod 10)])"

text \<open>The lower-case hexadecimal text of bytes, \<open>format!("{b:02x}")\<close> byte by byte.\<close>

definition hex_char :: "nat \<Rightarrow> char" where
  "hex_char n = (if n < 10 then char_of (48 + n) else char_of (87 + n))"

definition hex :: "string \<Rightarrow> string" where
  "hex bytes = concat (map (\<lambda>b. [hex_char (byte b div 16), hex_char (byte b mod 16)]) bytes)"

text \<open>\<open>str::from_utf8\<close>: the well-formed byte sequences, without overlong forms, surrogates and values
  beyond the last code point.\<close>

definition utf8_two :: "nat \<Rightarrow> nat \<Rightarrow> bool" where
  "utf8_two a b \<longleftrightarrow> 0xC2 \<le> a \<and> a \<le> 0xDF \<and> 0x80 \<le> b \<and> b \<le> 0xBF"

definition utf8_three :: "nat \<Rightarrow> nat \<Rightarrow> nat \<Rightarrow> bool" where
  "utf8_three a b c \<longleftrightarrow>
     0xE0 \<le> a \<and> a \<le> 0xEF \<and> 0x80 \<le> b \<and> b \<le> 0xBF \<and> 0x80 \<le> c \<and> c \<le> 0xBF \<and>
     (a = 0xE0 \<longrightarrow> 0xA0 \<le> b) \<and> (a = 0xED \<longrightarrow> b \<le> 0x9F)"

definition utf8_four :: "nat \<Rightarrow> nat \<Rightarrow> nat \<Rightarrow> nat \<Rightarrow> bool" where
  "utf8_four a b c d \<longleftrightarrow>
     0xF0 \<le> a \<and> a \<le> 0xF4 \<and> 0x80 \<le> b \<and> b \<le> 0xBF \<and> 0x80 \<le> c \<and> c \<le> 0xBF \<and> 0x80 \<le> d \<and> d \<le> 0xBF \<and>
     (a = 0xF0 \<longrightarrow> 0x90 \<le> b) \<and> (a = 0xF4 \<longrightarrow> b \<le> 0x8F)"

fun valid_utf8 :: "string \<Rightarrow> bool" where
  "valid_utf8 [] = True"
| "valid_utf8 (a # s) =
     (if byte a < 0x80 then valid_utf8 s
      else (case s of
          [] \<Rightarrow> False
        | b # s2 \<Rightarrow>
            if utf8_two (byte a) (byte b) then valid_utf8 s2
            else (case s2 of
                [] \<Rightarrow> False
              | c # s3 \<Rightarrow>
                  if utf8_three (byte a) (byte b) (byte c) then valid_utf8 s3
                  else (case s3 of
                      [] \<Rightarrow> False
                    | d # s4 \<Rightarrow> utf8_four (byte a) (byte b) (byte c) (byte d) \<and> valid_utf8 s4))))"

declare decimal.simps [simp del]

section \<open>Lists\<close>

text \<open>\<open>Iterator::position\<close> and \<open>VecDeque::remove\<close>.\<close>

fun position :: "('a \<Rightarrow> bool) \<Rightarrow> 'a list \<Rightarrow> nat option" where
  "position P [] = None"
| "position P (x # xs) = (if P x then Some 0 else map_option Suc (position P xs))"

fun remove_at :: "nat \<Rightarrow> 'a list \<Rightarrow> ('a \<times> 'a list) option" where
  "remove_at n [] = None"
| "remove_at 0 (x # xs) = Some (x, xs)"
| "remove_at (Suc n) (x # xs) = map_option (\<lambda>(y, ys). (y, x # ys)) (remove_at n xs)"

text \<open>\<open>sort_by\<close>: the stable sort by a total preorder.\<close>

fun insort_by :: "('a \<Rightarrow> 'a \<Rightarrow> bool) \<Rightarrow> 'a \<Rightarrow> 'a list \<Rightarrow> 'a list" where
  "insort_by le x [] = [x]"
| "insort_by le x (y # ys) = (if le x y then x # y # ys else y # insort_by le x ys)"

definition sort_by :: "('a \<Rightarrow> 'a \<Rightarrow> bool) \<Rightarrow> 'a list \<Rightarrow> 'a list" where
  "sort_by le xs = foldr (insort_by le) xs []"

text \<open>A loop whose body may return early with an error.\<close>

fun try_fold :: "('s \<Rightarrow> 'a \<Rightarrow> 'e + 's) \<Rightarrow> 's \<Rightarrow> 'a list \<Rightarrow> 'e + 's" where
  "try_fold f s [] = Inr s"
| "try_fold f s (x # xs) = (case f s x of Inl e \<Rightarrow> Inl e | Inr s' \<Rightarrow> try_fold f s' xs)"

fun try_map :: "('a \<Rightarrow> 'e + 'b) \<Rightarrow> 'a list \<Rightarrow> 'e + 'b list" where
  "try_map f [] = Inr []"
| "try_map f (x # xs) =
     (case f x of Inl e \<Rightarrow> Inl e | Inr y \<Rightarrow> map_sum id (Cons y) (try_map f xs))"

section \<open>Lemmas\<close>

subsection \<open>Results\<close>

lemma and_then_Ok_iff [simp]:
  "and_then r f = Inr y \<longleftrightarrow> (\<exists>x. r = Inr x \<and> f x = Inr y)"
  by (cases r) (auto simp: and_then_def)

lemma and_then_simps [simp]: "and_then (Inr x) f = f x" "and_then (Inl e) f = Inl e"
  by (simp_all add: and_then_def)

lemma and_then_Err_iff:
  "and_then r f = Inl e \<longleftrightarrow> r = Inl e \<or> (\<exists>x. r = Inr x \<and> f x = Inl e)"
  by (cases r) auto

lemma ok_or_Ok_iff [simp]: "ok_or x e = Inr v \<longleftrightarrow> x = Some v"
  by (cases x) (simp_all add: ok_or_def)

lemma ok_or_Err_iff [simp]: "ok_or x e = Inl e' \<longleftrightarrow> x = None \<and> e' = e"
  by (cases x) (auto simp: ok_or_def)

lemma is_ok_simps [simp]: "is_ok (Inr x)" "\<not> is_ok (Inl e)"
  by (simp_all add: is_ok_def)

lemma if_Err_Ok_iff [simp]:
  "(if b then Inl e else r) = Inr x \<longleftrightarrow> \<not> b \<and> r = Inr x"
  by simp

lemma try_fold_append:
  "try_fold f s (xs @ ys) =
     (case try_fold f s xs of Inl e \<Rightarrow> Inl e | Inr s' \<Rightarrow> try_fold f s' ys)"
  by (induction xs arbitrary: s) (auto split: sum.splits)

lemma try_map_Ok_length: "try_map f xs = Inr ys \<Longrightarrow> length ys = length xs"
  by (induction xs arbitrary: ys) (auto split: sum.splits simp: map_sum_def)

lemma try_map_Ok_nth:
  "try_map f xs = Inr ys \<Longrightarrow> list_all2 (\<lambda>x y. f x = Inr y) xs ys"
proof (induction xs arbitrary: ys)
  case Nil
  then show ?case by simp
next
  case (Cons x xs)
  then show ?case
    by (cases "f x"; cases "try_map f xs") auto
qed

subsection \<open>Lists\<close>

lemma position_None_iff: "position P xs = None \<longleftrightarrow> (\<forall>x \<in> set xs. \<not> P x)"
  by (induction xs) auto

lemma position_Some_split:
  "position P xs = Some n \<Longrightarrow>
     n < length xs \<and> P (xs ! n) \<and> (\<forall>x \<in> set (take n xs). \<not> P x)"
  by (induction xs arbitrary: n) (auto split: if_splits)

lemma remove_at_Some:
  "n < length xs \<Longrightarrow> remove_at n xs = Some (xs ! n, take n xs @ drop (Suc n) xs)"
  by (induction n xs rule: remove_at.induct) auto

lemma remove_at_None: "length xs \<le> n \<Longrightarrow> remove_at n xs = None"
  by (induction n xs rule: remove_at.induct) auto

lemma set_insort_by [simp]: "set (insort_by le x xs) = insert x (set xs)"
  by (induction xs) auto

text \<open>The comparison of strings is a strict linear order.\<close>

lemma str_less_irrefl [simp]: "\<not> str_less s s"
  by (induction s) auto

lemma str_less_trans: "str_less s t \<Longrightarrow> str_less t u \<Longrightarrow> str_less s u"
proof (induction s t arbitrary: u rule: str_less.induct)
  case (2 b t)
  then show ?case by (cases u) auto
next
  case (3 a s b t)
  then show ?case by (cases u) auto
qed simp

lemma str_less_linear: "str_less s t \<or> s = t \<or> str_less t s"
proof (induction s t rule: str_less.induct)
  case (1 s)
  then show ?case by (cases s) auto
next
  case (3 a s b t)
  have "byte a < byte b \<or> a = b \<or> byte b < byte a" using linorder_cases [of "byte a" "byte b"] by auto
  with 3 show ?case by auto
qed simp

lemma set_sort_by [simp]: "set (sort_by le xs) = set xs"
  by (induction xs) (auto simp: sort_by_def)

lemma length_insort_by [simp]: "length (insort_by le x xs) = Suc (length xs)"
  by (induction xs) auto

lemma length_sort_by [simp]: "length (sort_by le xs) = length xs"
  by (induction xs) (auto simp: sort_by_def)

lemma sorted_insort_by:
  assumes "\<And>a b. le a b \<or> le b a" and "\<And>a b c. le a b \<Longrightarrow> le b c \<Longrightarrow> le a c"
    and "sorted_wrt le xs"
  shows "sorted_wrt le (insort_by le x xs)"
  using assms(3) by (induction xs) (use assms(1,2) in auto)

lemma sorted_sort_by:
  assumes "\<And>a b. le a b \<or> le b a" and "\<And>a b c. le a b \<Longrightarrow> le b c \<Longrightarrow> le a c"
  shows "sorted_wrt le (sort_by le xs)"
  by (induction xs) (auto simp: sort_by_def intro!: sorted_insort_by assms(1) elim: assms(2))

subsection \<open>Saturating arithmetic\<close>

lemma unat_max: "unat (- 1 :: 'a::len word) = 2 ^ LENGTH('a) - 1"
  by (simp add: unsigned_minus_1_eq_mask mask_eq_exp_minus_1)

lemma unat_le_max: "unat a \<le> 2 ^ LENGTH('a) - 1"
  for a :: "'a::len word"
  using unsigned_less [of a, where 'a = nat] by linarith

lemma unat_saturating_add [word_bounds]:
  "unat (saturating_add a b) = min (unat a + unat b) (2 ^ LENGTH('a) - 1)"
  for a b :: "'a::len word"
proof (cases "unat a + unat b < 2 ^ LENGTH('a)")
  case True
  then have "unat (a + b) = unat a + unat b"
    by (simp add: unat_add_lem [THEN iffD1])
  with True show ?thesis by (simp add: saturating_add_def)
next
  case False
  then show ?thesis by (simp add: saturating_add_def unat_max)
qed

lemma saturating_add_mono: "a \<le> saturating_add a b"
  using unat_le_max [of a] by (simp add: word_le_nat_alt unat_saturating_add)

lemma saturating_add_0 [simp]: "saturating_add a 0 = a"
  using unsigned_less [of a] by (simp add: saturating_add_def)

lemma checked_add_Some_iff:
  "checked_add a b = Some c \<longleftrightarrow> unat a + unat b < 2 ^ LENGTH('a) \<and> c = a + b"
  for a b :: "'a::len word"
  by (auto simp: checked_add_def)

lemma unat_checked_add:
  "checked_add a b = Some c \<Longrightarrow> unat c = unat a + unat b"
  for a b :: "'a::len word"
  by (auto simp: checked_add_def unat_add_lem [THEN iffD1] split: if_splits)

lemma succ_no_overflow: "a \<noteq> - 1 \<Longrightarrow> unat a + 1 < 2 ^ LENGTH('a)"
  for a :: "'a::len word"
proof -
  assume "a \<noteq> - 1"
  then have "unat a \<noteq> 2 ^ LENGTH('a) - 1"
    by (metis unat_max word_unat_eq_iff)
  with unat_le_max [of a] show ?thesis
    by linarith
qed

lemma saturating_succ_less: "a \<noteq> - 1 \<Longrightarrow> saturating_add a 1 = a + 1"
  for a :: "'a::len word"
  using succ_no_overflow [of a] by (simp add: saturating_add_def)

lemma unat_succ: "a \<noteq> - 1 \<Longrightarrow> unat (a + 1) = Suc (unat a)"
  for a :: "'a::len word"
  using succ_no_overflow [of a] unat_add_lem [of a 1] by simp

lemma unat_succ_below: "a \<le> limit \<Longrightarrow> limit \<noteq> - 1 \<Longrightarrow> unat (a + 1) = Suc (unat a)"
  for a limit :: "'a::len word"
  by (rule unat_succ) (use word_order.extremum_uniqueI in blast)

subsection \<open>Strings\<close>

lemma blank_Nil [simp]: "blank []"
  by (simp add: blank_def trim_def trim_end_def)

lemma length_trim_start: "length (trim_start s) \<le> length s"
  by (induction s rule: trim_start.induct) auto

lemma length_trim_end_rev: "length (trim_end_rev s) \<le> length s"
  by (induction s rule: trim_end_rev.induct) auto

lemma length_trim: "length (trim s) \<le> length s"
  using length_trim_start [of s] length_trim_end_rev [of "rev (trim_start s)"]
  by (simp add: trim_def trim_end_def)

lemma not_blank_nonempty: "\<not> blank s \<Longrightarrow> s \<noteq> []"
  by auto

lemma chars_count_le_length: "chars_count s \<le> length s"
  by (simp add: chars_count_def)

lemma chars_count_append [simp]: "chars_count (s @ t) = chars_count s + chars_count t"
  by (simp add: chars_count_def)

lemma chars_count_take_chars: "chars_count (take_chars n s) \<le> n"
proof (induction n s rule: take_chars.induct)
  case (1 n)
  then show ?case by (simp add: chars_count_def)
next
  case (2 n c s)
  then show ?case by (cases n) (auto simp: chars_count_def)
qed

lemma chars_count_replicate [simp]: "\<not> is_cont_byte c \<Longrightarrow> chars_count (replicate n c) = n"
  by (simp add: chars_count_def)

lemma take_chars_replicate [simp]:
  "\<not> is_cont_byte c \<Longrightarrow> take_chars n (replicate m c) = replicate (min n m) c"
  by (induction m arbitrary: n) (auto split: nat.splits)

lemma starts_with_iff: "starts_with s p \<longleftrightarrow> (\<exists>t. s = p @ t)"
  by (metis append_eq_conv_conj append_take_drop_id starts_with_def)

lemma starts_with_append [simp]: "starts_with (p @ t) p"
  by (simp add: starts_with_def)

lemma ends_with_append [simp]: "ends_with (t @ p) p"
  by (simp add: ends_with_def)

lemma strip_prefix_Some_iff: "strip_prefix s p = Some t \<longleftrightarrow> s = p @ t"
  by (auto simp: strip_prefix_def starts_with_def)
     (metis append_take_drop_id)

lemma strip_prefix_append [simp]: "strip_prefix (p @ t) p = Some t"
  by (simp add: strip_prefix_Some_iff)

lemma starts_with_drop: "starts_with (drop i s) p \<longleftrightarrow> take (length p) (drop i s) = p"
  by (simp add: starts_with_def)

lemma str_find_bound: "str_find s p = Some i \<Longrightarrow> i + length p \<le> length s"
proof (induction s arbitrary: i)
  case (Cons c s)
  show ?case
  proof (cases "starts_with (c # s) p")
    case True
    then have "length (take (length p) (c # s)) = length p" by (simp add: starts_with_def)
    with True Cons.prems show ?thesis by (auto split: if_splits)
  qed (use Cons in \<open>auto split: if_splits\<close>)
qed (auto split: if_splits)

lemma str_find_Some:
  "str_find s p = Some i \<Longrightarrow> starts_with (drop i s) p \<and> (\<forall>j<i. \<not> starts_with (drop j s) p)"
proof (induction s arbitrary: i)
  case (Cons c s)
  show ?case
  proof (cases "starts_with (c # s) p")
    case False
    with Cons.prems obtain k where k: "i = Suc k" "str_find s p = Some k" by (auto split: if_splits)
    have "\<not> starts_with (drop j (c # s)) p" if "j < i" for j
      using that False Cons.IH [OF k(2)] k(1) by (cases j) auto
    with Cons.IH [OF k(2)] k(1) show ?thesis by simp
  qed (use Cons.prems in \<open>auto split: if_splits\<close>)
qed (auto simp: starts_with_def split: if_splits)

lemma str_find_None: "str_find s p = None \<Longrightarrow> \<not> starts_with (drop j s) p"
proof (induction s arbitrary: j)
  case (Cons c s)
  then show ?case by (cases j) (auto split: if_splits)
qed (auto simp: starts_with_def split: if_splits)

lemma concat_split_inclusive: "concat (split_inclusive cur s) = cur @ s"
  by (induction cur s rule: split_inclusive.induct) auto

lemma length_hex [simp]: "length (hex xs) = 2 * length xs"
  by (induction xs) (auto simp: hex_def)

lemma valid_utf8_ascii: "list_all (\<lambda>c. byte c < 0x80) s \<Longrightarrow> valid_utf8 s"
  by (induction s) auto

end
