(* ===== verification/Json_Value.thy ===== *)
theory Json_Value
  imports SC_Prelude
begin

text \<open>
  The JSON values (\<open>serde_json::Value\<close>) that the components inspect and build.  An object is
  the list of its entries in the order of its keys, as the sorted map behind
  \<open>serde_json::Map\<close> keeps them; only the constructors and the accessors that the sources
  use are defined here.  Printing and parsing of JSON text are parameters of the definitions
  that call them.  A floating point number is a dyadic rational \<open>m * 2 ^ e\<close>, an infinity or
  not a number.
\<close>

datatype f64 = F64_nan | F64_inf bool | F64_fin int int

definition f64_is_finite :: "f64 \<Rightarrow> bool" where
  "f64_is_finite x = (case x of F64_fin _ _ \<Rightarrow> True | _ \<Rightarrow> False)"

text \<open>\<open>x < 0.0\<close> and \<open>x <= n\<close> for an integral bound (the flag of an infinity is its sign).\<close>

definition f64_negative :: "f64 \<Rightarrow> bool" where
  "f64_negative x = (case x of F64_nan \<Rightarrow> False | F64_inf neg \<Rightarrow> neg | F64_fin m _ \<Rightarrow> m < 0)"

definition f64_le_int :: "f64 \<Rightarrow> int \<Rightarrow> bool" where
  "f64_le_int x n =
     (case x of F64_nan \<Rightarrow> False | F64_inf neg \<Rightarrow> neg
      | F64_fin m e \<Rightarrow> if 0 \<le> e then m * 2 ^ nat e \<le> n else m \<le> n * 2 ^ nat (- e))"

datatype json_number = PosInt u64 | NegInt int | Float f64

datatype json =
    JNull
  | JBool bool
  | JNum json_number
  | JStr string
  | JArr "json list"
  | JObj "(string \<times> json) list"

fun obj_insert :: "string \<Rightarrow> 'v \<Rightarrow> (string \<times> 'v) list \<Rightarrow> (string \<times> 'v) list" where
  "obj_insert k v [] = [(k, v)]"
| "obj_insert k v ((k', v') # m) =
     (if k = k' then (k, v) # m
      else if str_less k k' then (k, v) # (k', v') # m
      else (k', v') # obj_insert k v m)"

text \<open>\<open>json!({ ... })\<close> with literal keys.\<close>

definition jobj :: "(string \<times> json) list \<Rightarrow> json" where
  "jobj kvs = JObj (foldl (\<lambda>m (k, v). obj_insert k v m) [] kvs)"

definition jget :: "json \<Rightarrow> string \<Rightarrow> json option" where
  "jget v k = (case v of JObj m \<Rightarrow> map_of m k | _ \<Rightarrow> None)"

text \<open>\<open>value[key]\<close>: \<open>Null\<close> when the value has no such entry.\<close>

definition jindex :: "json \<Rightarrow> string \<Rightarrow> json" where
  "jindex v k = (case jget v k of Some x \<Rightarrow> x | None \<Rightarrow> JNull)"

text \<open>\<open>value[key] = x\<close> on an object.\<close>

definition jset :: "json \<Rightarrow> string \<Rightarrow> json \<Rightarrow> json" where
  "jset v k x = (case v of JObj m \<Rightarrow> JObj (obj_insert k x m) | _ \<Rightarrow> v)"

definition as_str :: "json \<Rightarrow> string option" where
  "as_str v = (case v of JStr s \<Rightarrow> Some s | _ \<Rightarrow> None)"

definition as_bool :: "json \<Rightarrow> bool option" where
  "as_bool v = (case v of JBool b \<Rightarrow> Some b | _ \<Rightarrow> None)"

definition as_array :: "json \<Rightarrow> json list option" where
  "as_array v = (case v of JArr xs \<Rightarrow> Some xs | _ \<Rightarrow> None)"

definition is_object :: "json \<Rightarrow> bool" where
  "is_object v = (case v of JObj _ \<Rightarrow> True | _ \<Rightarrow> False)"

definition as_i64 :: "json \<Rightarrow> int option" where
  "as_i64 v =
     (case v of
        JNum (PosInt n) \<Rightarrow> if uint n < 2 ^ 63 then Some (uint n) else None
      | JNum (NegInt i) \<Rightarrow> Some i
      | _ \<Rightarrow> None)"

definition jnat32 :: "u32 \<Rightarrow> json" where
  "jnat32 n = JNum (PosInt (ucast n))"

section \<open>Lemmas\<close>

lemma map_of_obj_insert [simp]: "map_of (obj_insert k v m) = (map_of m)(k \<mapsto> v)"
  by (induction k v m rule: obj_insert.induct) (auto simp: fun_eq_iff)

lemma set_obj_insert_subset: "set (obj_insert k v m) \<subseteq> insert (k, v) (set m)"
  by (induction k v m rule: obj_insert.induct) auto

lemma map_of_foldl_obj_insert:
  "map_of (foldl (\<lambda>m (k, v). obj_insert k v m) m0 kvs) = map_of m0 ++ map_of (rev kvs)"
  by (induction kvs arbitrary: m0) (auto simp: map_add_def fun_eq_iff split: option.splits)

lemma jget_jobj: "jget (jobj kvs) k = map_of (rev kvs) k"
  by (simp add: jget_def jobj_def map_of_foldl_obj_insert)

lemma jindex_jobj: "jindex (jobj kvs) k = (case map_of (rev kvs) k of Some x \<Rightarrow> x | None \<Rightarrow> JNull)"
  by (simp add: jindex_def jget_jobj)

lemma is_object_jobj [simp]: "is_object (jobj kvs)"
  by (simp add: is_object_def jobj_def)

lemma jget_jset_same: "is_object v \<Longrightarrow> jget (jset v k x) k = Some x"
  by (cases v) (auto simp: jget_def jset_def is_object_def)

lemma jget_jset_other: "k' \<noteq> k \<Longrightarrow> jget (jset v k x) k' = jget v k'"
  by (cases v) (auto simp: jget_def jset_def)

lemma as_str_simps [simp]:
  "as_str (JStr s) = Some s" "as_str JNull = None" "as_str (JObj m) = None"
  "as_str (JArr xs) = None" "as_str (JBool b) = None" "as_str (JNum n) = None"
  by (simp_all add: as_str_def)

lemma as_bool_simps [simp]:
  "as_bool (JBool b) = Some b" "as_bool JNull = None" "as_bool (JObj m) = None"
  "as_bool (JArr xs) = None" "as_bool (JStr s) = None" "as_bool (JNum n) = None"
  by (simp_all add: as_bool_def)

lemma as_str_Some_iff [simp]: "as_str v = Some s \<longleftrightarrow> v = JStr s"
  by (cases v) auto

lemma jget_Some_is_object: "jget v k = Some x \<Longrightarrow> is_object v"
  by (cases v) (auto simp: jget_def is_object_def)

end
