(* ===== verification/Model_Gateway.thy ===== *)
theory Model_Gateway
  imports Json_Value
begin

text \<open>
  \<open>crates/model-gateway/src/lib.rs\<close>: the messages, events and errors of a model stream, and
  the governed router that tries the endpoints of a routing policy in order.  A provider
  (\<open>dyn ModelProvider\<close>) is a parameter: a function from a request to an error or to the
  finite sequence of results that its stream yields.
\<close>

section \<open>Data\<close>

record ModelMessage =
  mm_role :: string
  mm_content :: json

record ToolMedia =
  tm_media_type :: string
  tm_bytes :: "u8 list"

record ToolDefinition =
  td_name :: string
  td_description :: string
  td_parameters :: json

datatype FallbackReason = FR_RateLimited | FR_Timeout | FR_ProviderUnavailable | FR_ContextOverflow

record ModelRoutingPolicy =
  routing_order :: "string list"
  fallback_reasons :: "FallbackReason list"

type_synonym media_map = "(string \<times> ToolMedia list) list"

record ModelRequest =
  mr_model :: string
  mr_temperature :: f64
  mr_messages :: "ModelMessage list"
  mr_tools :: "ToolDefinition list"
  mr_max_output_tokens :: u32
  mr_routing :: "ModelRoutingPolicy option"
  mr_transient_tool_media :: media_map

datatype ModelEvent =
    TextDelta string
  | ReasoningSummaryDelta string
  | ToolCallDelta u32 "string option" "string option" string "json option"
  | Usage u64 u64
  | EvCompleted "string option"
  | RouteSelected string "string option" "FallbackReason option"
  | RouteFallback string string FallbackReason

datatype GatewayError =
    GE_Credential string
  | GE_Provider string
  | GE_Rejected string
  | GE_RateLimited string
  | GE_Timeout string
  | GE_Unavailable string
  | GE_ContextOverflow string
  | GE_InvalidResponse string

fun fallback_reason :: "GatewayError \<Rightarrow> FallbackReason option" where
  "fallback_reason (GE_RateLimited _) = Some FR_RateLimited"
| "fallback_reason (GE_Timeout _) = Some FR_Timeout"
| "fallback_reason (GE_Unavailable _) = Some FR_ProviderUnavailable"
| "fallback_reason (GE_ContextOverflow _) = Some FR_ContextOverflow"
| "fallback_reason _ = None"

fun request_rejected :: "GatewayError \<Rightarrow> bool" where
  "request_rejected (GE_Rejected _) = True"
| "request_rejected _ = False"

type_synonym ModelStream = "(GatewayError + ModelEvent) list"
type_synonym ModelProvider = "ModelRequest \<Rightarrow> GatewayError + ModelStream"

section \<open>The governed router\<close>

record RoutedModelEndpoint =
  ep_id :: string
  ep_provider_model :: string
  ep_provider :: ModelProvider

record GovernedModelRouter =
  endpoints :: "string \<rightharpoonup> RoutedModelEndpoint"

definition bounded_identifier :: "string \<Rightarrow> bool" where
  "bounded_identifier v \<longleftrightarrow> v \<noteq> [] \<and> length v \<le> 128 \<and>
     list_all (\<lambda>c. is_ascii_alphanumeric c \<or> c \<in> set ''-_./:'') v"

definition router_invalid_endpoint :: GatewayError where
  "router_invalid_endpoint =
     GE_InvalidResponse ''model router endpoint is invalid or duplicated''"

definition router_index_one ::
  "(string \<rightharpoonup> RoutedModelEndpoint) \<Rightarrow> RoutedModelEndpoint
     \<Rightarrow> GatewayError + (string \<rightharpoonup> RoutedModelEndpoint)" where
  "router_index_one indexed ep =
     (if \<not> bounded_identifier (ep_id ep)
         \<or> blank (ep_provider_model ep)
         \<or> length (ep_provider_model ep) > 256
         \<or> indexed (ep_id ep) \<noteq> None
      then Err router_invalid_endpoint
      else Ok (indexed(ep_id ep \<mapsto> ep)))"

definition router_new :: "RoutedModelEndpoint list \<Rightarrow> GatewayError + GovernedModelRouter" where
  "router_new eps =
     (if eps = [] \<or> length eps > 64
      then Err (GE_InvalidResponse ''model router requires 1 to 64 endpoints'')
      else and_then (try_fold router_index_one Map.empty eps)
             (\<lambda>m. Ok \<lparr>endpoints = m\<rparr>))"

definition router_route :: "GovernedModelRouter \<Rightarrow> ModelRequest \<Rightarrow> GatewayError + ModelRoutingPolicy" where
  "router_route r req =
     (let route = (case mr_routing req of
                     Some p \<Rightarrow> p
                   | None \<Rightarrow> \<lparr>routing_order = [mr_model req], fallback_reasons = []\<rparr>);
          unique = set (routing_order route);
          reasons = set (fallback_reasons route)
      in if routing_order route = []
            \<or> length (routing_order route) > 64
            \<or> card unique \<noteq> length (routing_order route)
            \<or> card reasons \<noteq> length (fallback_reasons route)
            \<or> hd (routing_order route) \<noteq> mr_model req
            \<or> (\<exists>m \<in> set (routing_order route). endpoints r m = None)
         then Err (GE_InvalidResponse
                ''model routing policy is invalid or references an unavailable endpoint'')
         else Ok route)"

text \<open>The loop over the routing order.  The outer \<^const>\<open>None\<close> is the panic of
  \<open>expect("validated route")\<close>.\<close>

fun router_attempt ::
  "GovernedModelRouter \<Rightarrow> ModelRequest \<Rightarrow> FallbackReason set \<Rightarrow> string list
     \<Rightarrow> string option \<Rightarrow> FallbackReason option \<Rightarrow> ModelEvent list
     \<Rightarrow> (GatewayError + ModelStream) option" where
  "router_attempt r req allowed [] from reason events =
     Some (Err (GE_InvalidResponse ''model route unexpectedly exhausted''))"
| "router_attempt r req allowed (m # rest) from reason events =
     (case endpoints r m of
        None \<Rightarrow> None
      | Some ep \<Rightarrow>
         (case ep_provider ep
                 (req\<lparr>mr_model := ep_provider_model ep, mr_routing := None\<rparr>) of
            Inr stream \<Rightarrow>
              Some (Ok (map Inr (events @ [RouteSelected m from reason]) @ stream))
          | Inl e \<Rightarrow>
             (case fallback_reason e of
                None \<Rightarrow> Some (Err e)
              | Some why \<Rightarrow>
                  if why \<notin> allowed \<or> rest = [] then Some (Err e)
                  else router_attempt r req allowed rest (Some m) (Some why)
                         (events @ [RouteFallback m (hd rest) why]))))"

definition router_stream ::
  "GovernedModelRouter \<Rightarrow> ModelRequest \<Rightarrow> (GatewayError + ModelStream) option" where
  "router_stream r req =
     (case router_route r req of
        Inl e \<Rightarrow> Some (Err e)
      | Inr route \<Rightarrow>
          router_attempt r req (set (fallback_reasons route)) (routing_order route) None None [])"

section \<open>What the router promises\<close>

text \<open>The attempts that failed before the selected endpoint, as an abstract specification: each
  model with the reason it was left, and the events announcing the moves.\<close>

fun fallback_trace :: "(string \<times> FallbackReason) list \<Rightarrow> string \<Rightarrow> ModelEvent list" where
  "fallback_trace [] m = []"
| "fallback_trace [(a, why)] m = [RouteFallback a m why]"
| "fallback_trace ((a, why) # (b, why') # xs) m =
     RouteFallback a b why # fallback_trace ((b, why') # xs) m"

definition attempt_fails :: "GovernedModelRouter \<Rightarrow> ModelRequest \<Rightarrow> string \<Rightarrow> FallbackReason \<Rightarrow> bool" where
  "attempt_fails r req m why \<longleftrightarrow>
     (\<exists>ep e. endpoints r m = Some ep \<and>
        ep_provider ep (req\<lparr>mr_model := ep_provider_model ep, mr_routing := None\<rparr>) = Inl e \<and>
        fallback_reason e = Some why)"

lemma fallback_trace_snoc:
  "fallback_trace (xs @ [(a, why)]) m =
     (if xs = [] then [] else fallback_trace xs a) @ [RouteFallback a m why]"
  by (induction xs a rule: fallback_trace.induct) auto

lemma router_attempt_Ok:
  assumes "router_attempt r req allowed order from reason events = Some (Inr out)"
  shows "\<exists>failed m rest ep stream.
    order = map fst failed @ m # rest \<and>
    (\<forall>(a, why) \<in> set failed. attempt_fails r req a why \<and> why \<in> allowed) \<and>
    endpoints r m = Some ep \<and>
    ep_provider ep (req\<lparr>mr_model := ep_provider_model ep, mr_routing := None\<rparr>) = Inr stream \<and>
    out = map Inr (events @ fallback_trace failed m
            @ [if failed = [] then RouteSelected m from reason
               else RouteSelected m (Some (fst (last failed))) (Some (snd (last failed)))]) @ stream"
  using assms
proof (induction order arbitrary: "from" reason events)
  case Nil
  then show ?case by simp
next
  case (Cons m rest)
  obtain ep where ep: "endpoints r m = Some ep"
    using Cons.prems by (auto split: option.splits)
  show ?case
  proof (cases "ep_provider ep (req\<lparr>mr_model := ep_provider_model ep, mr_routing := None\<rparr>)")
    case (Inr stream)
    with Cons.prems ep show ?thesis
      by (intro exI [of _ "[]"] exI [of _ m] exI [of _ rest] exI [of _ ep] exI [of _ stream]) auto
  next
    case (Inl e)
    with Cons.prems ep obtain why where why: "fallback_reason e = Some why"
        "why \<in> allowed" "rest \<noteq> []"
        "router_attempt r req allowed rest (Some m) (Some why)
           (events @ [RouteFallback m (hd rest) why]) = Some (Inr out)"
      by (auto split: option.splits if_splits)
    from Cons.IH [OF why(4)] obtain failed m' rest' ep' stream where
      IH: "rest = map fst failed @ m' # rest'"
        "\<forall>(a, why) \<in> set failed. attempt_fails r req a why \<and> why \<in> allowed"
        "endpoints r m' = Some ep'"
        "ep_provider ep' (req\<lparr>mr_model := ep_provider_model ep', mr_routing := None\<rparr>) = Inr stream"
        "out = map Inr ((events @ [RouteFallback m (hd rest) why]) @ fallback_trace failed m'
            @ [if failed = [] then RouteSelected m' (Some m) (Some why)
               else RouteSelected m' (Some (fst (last failed))) (Some (snd (last failed)))]) @ stream"
      by blast
    have "attempt_fails r req m why"
      using ep Inl why(1) by (auto simp: attempt_fails_def)
    moreover have "fallback_trace ((m, why) # failed) m'
        = RouteFallback m (hd rest) why # fallback_trace failed m'"
      using IH(1) by (cases failed) auto
    ultimately show ?thesis
      using IH why(2)
      by (intro exI [of _ "(m, why) # failed"] exI [of _ m'] exI [of _ rest'] exI [of _ ep']
          exI [of _ stream]) auto
  qed
qed

lemma router_attempt_total:
  assumes "order \<noteq> []" and "\<forall>m \<in> set order. endpoints r m \<noteq> None"
  shows "\<exists>res. router_attempt r req allowed order from reason events = Some res"
  using assms
proof (induction order arbitrary: "from" reason events)
  case Nil
  then show ?case by simp
next
  case (Cons m rest)
  then show ?case
    by (cases "rest = []") (auto split: option.splits sum.splits)
qed

text \<open>An error of the loop is the last endpoint's own error, or one that forbids falling back.\<close>

lemma router_attempt_Err:
  assumes "router_attempt r req allowed order from reason events = Some (Inl e)"
    and "order \<noteq> []"
  shows "\<exists>m ep. m \<in> set order \<and> endpoints r m = Some ep \<and>
    ep_provider ep (req\<lparr>mr_model := ep_provider_model ep, mr_routing := None\<rparr>) = Inl e \<and>
    (m = last order \<or> fallback_reason e \<notin> Some ` allowed)"
  using assms
proof (induction order arbitrary: "from" reason events)
  case Nil
  then show ?case by simp
next
  case (Cons m rest)
  obtain ep where ep: "endpoints r m = Some ep"
    using Cons.prems by (auto split: option.splits)
  show ?case
  proof (cases "ep_provider ep (req\<lparr>mr_model := ep_provider_model ep, mr_routing := None\<rparr>)")
    case (Inr stream)
    with Cons.prems ep show ?thesis by simp
  next
    case (Inl e')
    show ?thesis
    proof (cases "fallback_reason e' = None \<or> fallback_reason e' \<notin> Some ` allowed \<or> rest = []")
      case True
      with Cons.prems ep Inl have "e' = e" by (auto split: option.splits if_splits)
      with True ep Inl show ?thesis by auto
    next
      case False
      with Cons.prems ep Inl obtain why where
        "router_attempt r req allowed rest (Some m) (Some why)
           (events @ [RouteFallback m (hd rest) why]) = Some (Inl e)"
        by (auto split: if_splits)
      from Cons.IH [OF this] False show ?thesis by auto
    qed
  qed
qed

lemma router_route_Ok:
  assumes "router_route r req = Inr route"
  shows "routing_order route \<noteq> [] \<and> distinct (routing_order route) \<and>
    hd (routing_order route) = mr_model req \<and>
    (\<forall>m \<in> set (routing_order route). endpoints r m \<noteq> None)"
  using assms
  by (auto simp: router_route_def Let_def card_distinct split: if_splits)

section \<open>Properties\<close>

text \<open>The router never panics and never runs past its route: every request gets a stream or an
  error, and when the route is valid an error is the own error of one endpoint of the route, either
  of the last one or one that does not allow falling back.\<close>

theorem router_stream_total:
  "(\<exists>e. router_route r req = Err e \<and> router_stream r req = Some (Err e)) \<or>
   (\<exists>route. router_route r req = Ok route \<and>
      ((\<exists>stream. router_stream r req = Some (Ok stream)) \<or>
       (\<exists>e m ep. router_stream r req = Some (Err e) \<and> m \<in> set (routing_order route) \<and>
          endpoints r m = Some ep \<and>
          ep_provider ep (req\<lparr>mr_model := ep_provider_model ep, mr_routing := None\<rparr>) = Err e \<and>
          (m = last (routing_order route) \<or> fallback_reason e \<notin> Some ` set (fallback_reasons route)))))"
proof (cases "router_route r req")
  case (Inl e)
  then show ?thesis by (simp add: router_stream_def)
next
  case (Inr route)
  note ok = router_route_Ok [OF Inr]
  obtain res where res: "router_stream r req = Some res"
    using router_attempt_total [of "routing_order route" r req "set (fallback_reasons route)" None None "[]"]
      ok Inr by (auto simp: router_stream_def)
  show ?thesis
  proof (cases res)
    case err: (Inl e)
    with res Inr have "router_attempt r req (set (fallback_reasons route)) (routing_order route) None None [] =
      Some (Inl e)" by (simp add: router_stream_def)
    from router_attempt_Err [OF this] ok err res Inr show ?thesis by blast
  qed (use res Inr in blast)
qed

text \<open>Falling back is governed: a stream that the router returns comes from the first endpoint of
  the route that succeeded, every endpoint before it failed with a reason that the policy allows,
  and the stream starts with one event per fallback, in order, and the event that names the selected
  endpoint.\<close>

theorem router_fallback_governed:
  assumes "router_stream r req = Some (Ok out)"
  shows "\<exists>route failed m rest ep stream.
    router_route r req = Ok route \<and> routing_order route = map fst failed @ m # rest \<and>
    list_all (\<lambda>(a, why). attempt_fails r req a why \<and> why \<in> set (fallback_reasons route)) failed \<and>
    endpoints r m = Some ep \<and>
    ep_provider ep (req\<lparr>mr_model := ep_provider_model ep, mr_routing := None\<rparr>) = Ok stream \<and>
    out = map Inr (fallback_trace failed m
            @ [if failed = [] then RouteSelected m None None
               else RouteSelected m (Some (fst (last failed))) (Some (snd (last failed)))]) @ stream"
proof -
  from assms obtain route where route: "router_route r req = Inr route"
    "router_attempt r req (set (fallback_reasons route)) (routing_order route) None None [] = Some (Inr out)"
    by (auto simp: router_stream_def split: sum.splits)
  from router_attempt_Ok [OF route(2)] route(1) show ?thesis
    by (fastforce simp: list_all_iff)
qed

definition demo_endpoint :: "string \<Rightarrow> ModelProvider \<Rightarrow> RoutedModelEndpoint" where
  "demo_endpoint i p = \<lparr>ep_id = i, ep_provider_model = i, ep_provider = p\<rparr>"

definition demo_router :: GovernedModelRouter where
  "demo_router = \<lparr>endpoints = [''a'' \<mapsto> demo_endpoint ''a'' (\<lambda>_. Err (GE_Timeout ''slow'')),
     ''b'' \<mapsto> demo_endpoint ''b'' (\<lambda>_. Ok [])]\<rparr>"

definition demo_routed_request :: ModelRequest where
  "demo_routed_request = \<lparr>mr_model = ''a'', mr_temperature = F64_fin 0 0, mr_messages = [], mr_tools = [],
     mr_max_output_tokens = 1,
     mr_routing = Some \<lparr>routing_order = [''a'', ''b''], fallback_reasons = [FR_Timeout]\<rparr>,
     mr_transient_tool_media = []\<rparr>"

theorem router_fallback_governed_witness:
  "router_stream demo_router demo_routed_request =
     Some (Ok [Inr (RouteFallback ''a'' ''b'' FR_Timeout), Inr (RouteSelected ''b'' (Some ''a'') (Some FR_Timeout))]) \<and>
   (\<exists>route (failed :: (string \<times> FallbackReason) list) m rest.
      router_route demo_router demo_routed_request = Ok route \<and>
      routing_order route = map fst failed @ m # rest)"
proof -
  have "router_stream demo_router demo_routed_request =
     Some (Inr [Inr (RouteFallback ''a'' ''b'' FR_Timeout), Inr (RouteSelected ''b'' (Some ''a'') (Some FR_Timeout))])"
    by (simp add: router_stream_def router_route_def demo_router_def demo_routed_request_def demo_endpoint_def Let_def)
  moreover from router_fallback_governed [OF this]
  have "\<exists>route (failed :: (string \<times> FallbackReason) list) m rest.
      router_route demo_router demo_routed_request = Inr route \<and> routing_order route = map fst failed @ m # rest"
    by (elim exE conjE) (intro exI conjI)
  ultimately show ?thesis by (rule conjI)
qed

end
