(* ===== verification/Tool_History.thy ===== *)
theory Tool_History
  imports Model_Gateway
begin

text \<open>
  The treatment of tool results in the message history (\<open>crates/agent-core/src/lib.rs\<close>): the
  tool messages, the results of calls that the tool-call limit deferred, the compaction of
  superseded tool details, and the transient media that are only sent beside an intact result.
  A set of message indices or call ids is the list of its members.
\<close>

section \<open>Tool messages\<close>

record CompletedToolCall =
  tc_id :: string
  tc_name :: string
  tc_arguments :: string
  tc_provider_metadata :: "json option"

definition TOOL_CALL_LIMIT_CONTINUATION_KIND :: string where
  "TOOL_CALL_LIMIT_CONTINUATION_KIND = ''tool_call_limit''"

definition RECENT_DETAILED_TOOL_RESULTS :: nat where
  "RECENT_DETAILED_TOOL_RESULTS = 6"

definition tool_message :: "string \<Rightarrow> string \<Rightarrow> json \<Rightarrow> ModelMessage" where
  "tool_message call_id name value =
     \<lparr>mm_role = ''tool'',
      mm_content = jobj [(''tool_call_id'', JStr call_id), (''name'', JStr name), (''result'', value)]\<rparr>"

definition tool_call_limit_result :: json where
  "tool_call_limit_result =
     jobj [(''error'', JStr ''tool call was not executed because the execution segment reached its tool-call limit''),
           (''retryable'', JBool True), (''deferred'', JBool True), (''executed'', JBool False),
           (''deferred_reason'', JStr TOOL_CALL_LIMIT_CONTINUATION_KIND)]"

definition append_tool_call_limit_results ::
  "ModelMessage list \<Rightarrow> CompletedToolCall list \<Rightarrow> ModelMessage list" where
  "append_tool_call_limit_results messages calls =
     messages @ map (\<lambda>c. tool_message (tc_id c) (tc_name c) tool_call_limit_result) calls"

definition is_tool_call_limit_deferred_message :: "ModelMessage \<Rightarrow> bool" where
  "is_tool_call_limit_deferred_message m =
     (let result = jindex (mm_content m) ''result'' in
      mm_role m = ''tool''
      \<and> as_bool (jindex result ''deferred'') = Some True
      \<and> as_bool (jindex result ''executed'') = Some False
      \<and> as_str (jindex result ''deferred_reason'') = Some TOOL_CALL_LIMIT_CONTINUATION_KIND)"

text \<open>\<open>content.get("tool_call_id").and_then(Value::as_str)\<close>.\<close>

definition tool_call_id :: "ModelMessage \<Rightarrow> string option" where
  "tool_call_id m = Option.bind (jget (mm_content m) ''tool_call_id'') as_str"

definition call_ids_of :: "json list \<Rightarrow> string list" where
  "call_ids_of calls = List.map_filter (\<lambda>c. Option.bind (jget c ''id'') as_str) calls"

text \<open>The index of the last element with a property (\<open>Iterator::rposition\<close>).\<close>

definition rposition :: "('a \<Rightarrow> bool) \<Rightarrow> 'a list \<Rightarrow> nat option" where
  "rposition P xs = map_option fst (find (\<lambda>(i, x). P x) (rev (List.enumerate 0 xs)))"

definition protected_tool_call_limit_deferred_results :: "ModelMessage list \<Rightarrow> nat list" where
  "protected_tool_call_limit_deferred_results messages =
     (case rposition (\<lambda>m. mm_role m = ''assistant'') messages of
        None \<Rightarrow> []
      | Some assistant_index \<Rightarrow>
          (case Option.bind (jget (mm_content (messages ! assistant_index)) ''tool_calls'') as_array of
             None \<Rightarrow> []
           | Some calls \<Rightarrow>
               let call_ids = call_ids_of calls in
               map fst (filter (\<lambda>(i, m). is_tool_call_limit_deferred_message m
                                  \<and> (case tool_call_id m of None \<Rightarrow> False | Some call_id \<Rightarrow> call_id \<in> set call_ids))
                          (drop (assistant_index + 1) (List.enumerate 0 messages)))))"

definition is_verifier_result :: "ModelMessage \<Rightarrow> bool" where
  "is_verifier_result m =
     (mm_role m = ''tool'' \<and> \<not> is_tool_call_limit_deferred_message m
      \<and> as_str (jindex (mm_content m) ''name'') = Some ''run_command'')"

definition is_failed_result :: "ModelMessage \<Rightarrow> bool" where
  "is_failed_result m =
     (let result = jindex (mm_content m) ''result'' in
      (case Option.bind (jget result ''exit_code'') as_i64 of None \<Rightarrow> False | Some c \<Rightarrow> c \<noteq> 0)
      \<or> jget result ''error'' \<noteq> None)"

definition latest_failed_verifier_result :: "ModelMessage list \<Rightarrow> nat option" where
  "latest_failed_verifier_result messages =
     (case find (\<lambda>(i, m). is_verifier_result m) (rev (List.enumerate 0 messages)) of
        None \<Rightarrow> None
      | Some (index, m) \<Rightarrow> if is_failed_result m then Some index else None)"

section \<open>Transient media\<close>

definition withdraw_tool_media :: "ModelRequest \<Rightarrow> ModelRequest" where
  "withdraw_tool_media request =
     (let media = mr_transient_tool_media request in
      request\<lparr>mr_transient_tool_media := [],
        mr_messages := map (\<lambda>m.
          if mm_role m = ''tool''
             \<and> (case as_str (jindex (mm_content m) ''tool_call_id'') of
                  None \<Rightarrow> False | Some call_id \<Rightarrow> call_id \<in> set (map fst media))
          then m\<lparr>mm_content := jset (mm_content m) ''result''
                   (jobj [(''error'', JStr ''the model route refused the request while this result's image was attached, so the image was withdrawn; the configured model may not accept image input''),
                          (''retryable'', JBool False)])\<rparr>
          else m) (mr_messages request)\<rparr>)"

definition results_of :: "ModelMessage list \<Rightarrow> string \<Rightarrow> ModelMessage list" where
  "results_of messages call_id =
     filter (\<lambda>m. mm_role m = ''tool''
               \<and> as_str (jindex (mm_content m) ''tool_call_id'') = Some call_id) messages"

definition intact_result :: "ModelMessage \<Rightarrow> bool" where
  "intact_result m =
     (is_object (jindex (mm_content m) ''result'')
      \<and> as_bool (jindex (jindex (mm_content m) ''result'') ''history_compacted'') \<noteq> Some True)"

definition retain_attached_tool_media :: "ModelMessage list \<Rightarrow> media_map \<Rightarrow> media_map" where
  "retain_attached_tool_media messages media =
     filter (\<lambda>(call_id, _).
       case results_of messages call_id of [m] \<Rightarrow> intact_result m | _ \<Rightarrow> False) media"

section \<open>Compaction of superseded details\<close>

definition detailed_tool_messages :: "ModelMessage list \<Rightarrow> (nat \<times> string) list" where
  "detailed_tool_messages messages =
     (let protected_deferred = protected_tool_call_limit_deferred_results messages in
      List.map_filter (\<lambda>(index, m).
        if mm_role m = ''tool'' \<and> index \<notin> set protected_deferred
        then map_option (\<lambda>call_id. (index, call_id)) (tool_call_id m) else None)
      (List.enumerate 0 messages))"

definition older_tool_messages :: "ModelMessage list \<Rightarrow> (nat \<times> string) list" where
  "older_tool_messages messages =
     (let tool_messages = detailed_tool_messages messages;
          pinned_failure = latest_failed_verifier_result messages
      in filter (\<lambda>(index, _). Some index \<noteq> pinned_failure)
           (take (length tool_messages - RECENT_DETAILED_TOOL_RESULTS) tool_messages))"

definition compacted_content :: "string \<Rightarrow> string \<Rightarrow> json" where
  "compacted_content call_id name =
     jobj [(''tool_call_id'', JStr call_id), (''name'', JStr name),
           (''result'', jobj [(''history_compacted'', JBool True),
              (''reason'', JStr ''superseded tool detail omitted; the workspace and recent tool results are authoritative'')])]"

definition compact_result :: "string \<Rightarrow> ModelMessage \<Rightarrow> ModelMessage \<times> nat" where
  "compact_result call_id m =
     (let already_compacted =
            (case as_bool (jindex (jindex (mm_content m) ''result'') ''history_compacted'') of
               Some b \<Rightarrow> b | None \<Rightarrow> False);
          name = (case as_str (jindex (mm_content m) ''name'') of Some n \<Rightarrow> n | None \<Rightarrow> ''tool'')
      in (m\<lparr>mm_content := compacted_content call_id name\<rparr>, if already_compacted then 0 else 1))"

fun compact_results :: "(nat \<times> string) list \<Rightarrow> ModelMessage list \<Rightarrow> nat \<Rightarrow> ModelMessage list \<times> nat" where
  "compact_results [] messages n = (messages, n)"
| "compact_results ((index, call_id) # older) messages n =
     (let (m, k) = compact_result call_id (messages ! index)
      in compact_results older (messages[index := m]) (n + k))"

definition compact_call :: "string list \<Rightarrow> json \<Rightarrow> json" where
  "compact_call older_ids call =
     (case Option.bind (jget call ''id'') as_str of
        None \<Rightarrow> call
      | Some call_id \<Rightarrow>
          if call_id \<notin> set older_ids then call
          else
            let call1 = (case jget call ''function'' of
                   Some (JObj function) \<Rightarrow>
                     jset call ''function''
                       (JObj (obj_insert ''arguments'' (JStr ''{\"history_compacted\":true}'') function))
                 | _ \<Rightarrow> call)
            in jset call1 ''provider_metadata'' JNull)"

definition compact_calls_of :: "string list \<Rightarrow> ModelMessage \<Rightarrow> ModelMessage" where
  "compact_calls_of older_ids m =
     (if mm_role m = ''assistant''
      then (case jget (mm_content m) ''tool_calls'' of
              Some (JArr calls) \<Rightarrow>
                m\<lparr>mm_content := jset (mm_content m) ''tool_calls'' (JArr (map (compact_call older_ids) calls))\<rparr>
            | _ \<Rightarrow> m)
      else m)"

definition compaction_notice :: ModelMessage where
  "compaction_notice =
     \<lparr>mm_role = ''system'',
      mm_content = jobj [(''tool_history_compaction'', JBool True),
        (''instruction'', JStr ''Older completed tool payloads were compacted to control latency and token use. Treat the current workspace and recent tool results as authoritative; re-read a file before editing if its current state is needed.'')]\<rparr>"

definition is_compaction_notice :: "ModelMessage \<Rightarrow> bool" where
  "is_compaction_notice m =
     (Option.bind (jget (mm_content m) ''tool_history_compaction'') as_bool = Some True)"

definition insert_notice :: "ModelMessage list \<Rightarrow> ModelMessage list" where
  "insert_notice messages =
     (let insertion = length (takeWhile (\<lambda>m. mm_role m = ''system'') messages)
      in take insertion messages @ compaction_notice # drop insertion messages)"

definition compact_superseded_tool_history :: "ModelMessage list \<Rightarrow> ModelMessage list \<times> nat" where
  "compact_superseded_tool_history messages =
     (if length (detailed_tool_messages messages) \<le> RECENT_DETAILED_TOOL_RESULTS then (messages, 0)
      else
        let older = older_tool_messages messages;
            older_ids = map snd older;
            (messages1, newly_compacted) = compact_results older messages 0;
            messages2 = map (compact_calls_of older_ids) messages1;
            messages3 = (if newly_compacted > 0 \<and> \<not> list_ex is_compaction_notice messages2
                         then insert_notice messages2 else messages2)
        in (messages3, newly_compacted))"

section \<open>Lemmas\<close>

lemma find_enumerate_rev:
  assumes "find P (rev (List.enumerate 0 xs)) = Some (i, x)"
  shows "i < length xs \<and> x = xs ! i \<and> P (i, x)"
proof -
  from assms obtain k where k: "k < length (rev (List.enumerate 0 xs))"
    "P (rev (List.enumerate 0 xs) ! k)" "(i, x) = rev (List.enumerate 0 xs) ! k"
    unfolding find_Some_iff by auto
  then have "(i, x) \<in> set (List.enumerate 0 xs)" by (metis nth_mem set_rev)
  moreover have "P (i, x)" using k by simp
  ultimately show ?thesis by (auto simp: in_set_enumerate_eq)
qed

lemma detailed_tool_messages_in:
  assumes "(i, c) \<in> set (detailed_tool_messages ms)"
  shows "i < length ms \<and> mm_role (ms ! i) = ''tool'' \<and> tool_call_id (ms ! i) = Some c \<and>
    i \<notin> set (protected_tool_call_limit_deferred_results ms)"
  using assms
  by (auto simp: detailed_tool_messages_def Let_def map_filter_def in_set_enumerate_eq
      split: if_splits)

lemma map_fst_map_filter_enumerate:
  "map fst (List.map_filter (\<lambda>(i, m). if P i m then map_option (\<lambda>c. (i, c)) (f m) else None)
     (List.enumerate n ms)) =
   map fst (filter (\<lambda>(i, m). P i m \<and> f m \<noteq> None) (List.enumerate n ms))"
  by (induction ms arbitrary: n) (auto simp: map_filter_simps split: option.splits)

lemma distinct_detailed_tool_messages: "distinct (map fst (detailed_tool_messages ms))"
proof -
  have "distinct (map fst (filter Q (List.enumerate n xs)))" for Q n and xs :: "ModelMessage list"
    by (rule distinct_map_filter) simp
  then show ?thesis
    unfolding detailed_tool_messages_def Let_def map_fst_map_filter_enumerate by blast
qed

lemma older_tool_messages_in:
  "set (older_tool_messages ms) \<subseteq> set (detailed_tool_messages ms)"
  by (auto simp: older_tool_messages_def Let_def dest: in_set_takeD)

lemma distinct_older_tool_messages: "distinct (map fst (older_tool_messages ms))"
  unfolding older_tool_messages_def Let_def
  by (intro distinct_map_filter) (simp add: distinct_detailed_tool_messages distinct_take flip: take_map)

text \<open>The messages whose details the compaction must keep: the most recent tool results, the
  protected results of a deferred batch and the pinned verifier failure.\<close>

definition kept_details :: "ModelMessage list \<Rightarrow> nat list" where
  "kept_details ms =
     map fst (drop (length (detailed_tool_messages ms) - RECENT_DETAILED_TOOL_RESULTS)
                (detailed_tool_messages ms)) @
     protected_tool_call_limit_deferred_results ms @
     (case latest_failed_verifier_result ms of None \<Rightarrow> [] | Some i \<Rightarrow> [i])"

lemma kept_details_not_older:
  assumes "i \<in> set (kept_details ms)"
  shows "i \<notin> fst ` set (older_tool_messages ms)"
proof
  assume old: "i \<in> fst ` set (older_tool_messages ms)"
  let ?d = "detailed_tool_messages ms" and ?n = "length (detailed_tool_messages ms) - RECENT_DETAILED_TOOL_RESULTS"
  from old have t: "i \<in> set (map fst (take ?n ?d))" and p: "Some i \<noteq> latest_failed_verifier_result ms"
    by (auto simp: older_tool_messages_def Let_def)
  have "i \<notin> set (protected_tool_call_limit_deferred_results ms)"
    using old older_tool_messages_in detailed_tool_messages_in by fastforce
  moreover have "i \<notin> set (map fst (drop ?n ?d))"
  proof -
    have "distinct (map fst (take ?n ?d) @ map fst (drop ?n ?d))"
      using distinct_detailed_tool_messages [of ms] by (simp flip: map_append)
    with t show ?thesis by auto
  qed
  ultimately show False
    using assms p by (auto simp: kept_details_def split: option.splits)
qed

lemma protected_in:
  assumes "i \<in> set (protected_tool_call_limit_deferred_results ms)"
  shows "i < length ms \<and> mm_role (ms ! i) = ''tool''"
proof -
  have "\<exists>a m. (i, m) \<in> set (drop a (List.enumerate 0 ms)) \<and> is_tool_call_limit_deferred_message m"
    using assms unfolding protected_tool_call_limit_deferred_results_def Let_def
    by (fastforce split: option.splits)
  then obtain m where "(i, m) \<in> set (List.enumerate 0 ms)" "is_tool_call_limit_deferred_message m"
    by (meson in_set_dropD)
  then show ?thesis
    by (auto simp: is_tool_call_limit_deferred_message_def Let_def in_set_enumerate_eq)
qed

lemma latest_failed_in:
  assumes "latest_failed_verifier_result ms = Some i"
  shows "i < length ms \<and> mm_role (ms ! i) = ''tool''"
proof -
  from assms obtain m where
    "find (\<lambda>(i, m). is_verifier_result m) (rev (List.enumerate 0 ms)) = Some (i, m)"
    by (auto simp: latest_failed_verifier_result_def split: option.splits if_splits)
  from find_enumerate_rev [OF this] show ?thesis by (auto simp: is_verifier_result_def)
qed

lemma kept_details_are_tool_messages:
  assumes "i \<in> set (kept_details ms)"
  shows "i < length ms \<and> mm_role (ms ! i) = ''tool''"
proof -
  have recent: "i < length ms \<and> mm_role (ms ! i) = ''tool''"
    if "i \<in> fst ` set (drop n (detailed_tool_messages ms))" for n
    using that detailed_tool_messages_in by (fastforce dest: in_set_dropD)
  show ?thesis
    using assms recent protected_in [of i ms] latest_failed_in [of ms i]
    by (auto simp: kept_details_def split: option.splits)
qed

lemma compact_results_nth:
  assumes "compact_results older ms n = (ms', n')" and "distinct (map fst older)"
    and "\<forall>(i, c) \<in> set older. i < length ms"
  shows "length ms' = length ms \<and> n \<le> n' \<and> n' \<le> n + length older \<and>
    (\<forall>j < length ms. ms' ! j =
       (case map_of older j of None \<Rightarrow> ms ! j | Some c \<Rightarrow> fst (compact_result c (ms ! j))))"
  using assms
proof (induction older ms n rule: compact_results.induct)
  case (1 ms n)
  then show ?case by simp
next
  case (2 i c older ms n)
  obtain m k where mk: "compact_result c (ms ! i) = (m, k)" by (cases "compact_result c (ms ! i)")
  then have k: "k \<le> 1" by (auto simp: compact_result_def Let_def split: if_splits)
  from 2 mk have IH: "length ms' = length ms \<and> n + k \<le> n' \<and> n' \<le> n + k + length older \<and>
    (\<forall>j < length ms. ms' ! j = (case map_of older j of None \<Rightarrow> ms[i := m] ! j
       | Some c \<Rightarrow> fst (compact_result c (ms[i := m] ! j))))"
    by (auto simp: case_prod_beta)
  have "map_of older i = None" using 2 by (auto simp: map_of_eq_None_iff image_iff)
  with IH k mk show ?case
    by (auto simp: nth_list_update split: option.splits)
qed

definition assistant_call_ids :: "ModelMessage \<Rightarrow> string list" where
  "assistant_call_ids m =
     (case Option.bind (jget (mm_content m) ''tool_calls'') as_array of
        None \<Rightarrow> [] | Some calls \<Rightarrow> call_ids_of calls)"

lemma compact_call_id:
  "Option.bind (jget (compact_call ids c) ''id'') as_str = Option.bind (jget c ''id'') as_str"
  by (auto simp: compact_call_def jget_jset_other Let_def split: option.splits json.splits)

lemma call_ids_of_compact: "call_ids_of (map (compact_call ids) cs) = call_ids_of cs"
  by (induction cs) (simp_all add: call_ids_of_def map_filter_simps compact_call_id split: option.splits)

lemma compact_calls_of_simps:
  "mm_role (compact_calls_of ids m) = mm_role m"
  "tool_call_id (compact_calls_of ids m) = tool_call_id m"
  "assistant_call_ids (compact_calls_of ids m) = assistant_call_ids m"
  "mm_role m \<noteq> ''assistant'' \<Longrightarrow> compact_calls_of ids m = m"
  by (auto simp: compact_calls_of_def tool_call_id_def assistant_call_ids_def as_array_def
      jget_jset_other jget_jset_same jget_Some_is_object call_ids_of_compact
      split: option.splits json.splits)

lemma compact_result_simps:
  "mm_role (fst (compact_result c m)) = mm_role m"
  "tool_call_id (fst (compact_result c m)) = Some c"
  "\<not> intact_result (fst (compact_result c m))"
  by (simp_all add: compact_result_def Let_def compacted_content_def tool_call_id_def jget_jobj
      intact_result_def jindex_jobj)

text \<open>The messages after the two passes, before the notice.\<close>

definition compacted_base :: "ModelMessage list \<Rightarrow> ModelMessage list" where
  "compacted_base ms =
     (if length (detailed_tool_messages ms) \<le> RECENT_DETAILED_TOOL_RESULTS then ms
      else map (compact_calls_of (map snd (older_tool_messages ms)))
             (fst (compact_results (older_tool_messages ms) ms 0)))"

lemma compact_superseded_base:
  "fst (compact_superseded_tool_history ms) \<in> {compacted_base ms, insert_notice (compacted_base ms)}"
  by (auto simp: compact_superseded_tool_history_def compacted_base_def Let_def case_prod_beta)

lemma older_empty_when_few:
  "length (detailed_tool_messages ms) \<le> RECENT_DETAILED_TOOL_RESULTS \<Longrightarrow> older_tool_messages ms = []"
  by (simp add: older_tool_messages_def Let_def)

lemma compact_results_older:
  obtains ms' n where "compact_results (older_tool_messages ms) ms 0 = (ms', n)"
    and "length ms' = length ms" and "n \<le> length (older_tool_messages ms)"
    and "\<And>j. j < length ms \<Longrightarrow> ms' ! j =
       (case map_of (older_tool_messages ms) j of
          None \<Rightarrow> ms ! j | Some c \<Rightarrow> fst (compact_result c (ms ! j)))"
proof -
  obtain ms' n where r: "compact_results (older_tool_messages ms) ms 0 = (ms', n)"
    by (cases "compact_results (older_tool_messages ms) ms 0")
  have "\<forall>(i, c) \<in> set (older_tool_messages ms). i < length ms"
    using older_tool_messages_in detailed_tool_messages_in by fast
  from compact_results_nth [OF r distinct_older_tool_messages this] r that show thesis by auto
qed

lemma compacted_base_nth:
  assumes "j < length ms" and "RECENT_DETAILED_TOOL_RESULTS < length (detailed_tool_messages ms)"
  shows "compacted_base ms ! j = compact_calls_of (map snd (older_tool_messages ms))
    (case map_of (older_tool_messages ms) j of
       None \<Rightarrow> ms ! j | Some c \<Rightarrow> fst (compact_result c (ms ! j)))"
  using assms by (cases rule: compact_results_older [of ms]) (simp add: compacted_base_def)

lemma length_compacted_base [simp]: "length (compacted_base ms) = length ms"
  by (cases rule: compact_results_older [of ms]) (simp add: compacted_base_def)

lemma older_message:
  assumes "map_of (older_tool_messages ms) j = Some c"
  shows "mm_role (ms ! j) = ''tool'' \<and> tool_call_id (ms ! j) = Some c"
  using map_of_SomeD [OF assms] older_tool_messages_in detailed_tool_messages_in by fast

lemma compacted_base_protocol:
  assumes "j < length ms"
  shows "mm_role (compacted_base ms ! j) = mm_role (ms ! j) \<and>
    tool_call_id (compacted_base ms ! j) = tool_call_id (ms ! j) \<and>
    (mm_role (ms ! j) = ''assistant'' \<longrightarrow>
       assistant_call_ids (compacted_base ms ! j) = assistant_call_ids (ms ! j))"
proof (cases "RECENT_DETAILED_TOOL_RESULTS < length (detailed_tool_messages ms)")
  case True
  then show ?thesis
    using assms older_message [of ms j]
    by (auto simp: compacted_base_nth compact_calls_of_simps compact_result_simps split: option.splits)
next
  case False
  then show ?thesis by (simp add: compacted_base_def)
qed

lemma compacted_base_kept:
  assumes "j \<in> set (kept_details ms)"
  shows "compacted_base ms ! j = ms ! j"
proof (cases "RECENT_DETAILED_TOOL_RESULTS < length (detailed_tool_messages ms)")
  case True
  have "map_of (older_tool_messages ms) j = None"
    using kept_details_not_older [OF assms] by (simp add: map_of_eq_None_iff)
  with True kept_details_are_tool_messages [OF assms] show ?thesis
    by (simp add: compacted_base_nth compact_calls_of_simps)
next
  case False
  then show ?thesis by (simp add: compacted_base_def)
qed

lemma compacted_base_older:
  assumes "j \<in> fst ` set (older_tool_messages ms)"
  shows "\<not> intact_result (compacted_base ms ! j)"
proof -
  from assms have many: "RECENT_DETAILED_TOOL_RESULTS < length (detailed_tool_messages ms)"
    using older_empty_when_few [of ms] by force
  from assms obtain c where "(j, c) \<in> set (older_tool_messages ms)" by auto
  then have j: "j < length ms"
    using older_tool_messages_in [of ms] detailed_tool_messages_in [of j c ms] by blast
  from assms obtain c where c: "map_of (older_tool_messages ms) j = Some c"
    by (metis map_of_eq_None_iff not_None_eq)
  with many j older_message [OF c] show ?thesis
    by (simp add: compacted_base_nth compact_calls_of_simps compact_result_simps)
qed

section \<open>Properties\<close>

text \<open>Compacting superseded tool details keeps the protocol intact: apart from at most one notice
  inserted after the leading system messages, the messages keep their number, order, roles and
  tool-call ids, and assistant messages keep the ids of the calls they made; the six most recent
  tool results, the results of a still pending deferred batch and the latest failed verifier result
  keep their content; and every other tool result loses its detail.\<close>

theorem compaction_keeps_protocol_and_recent_details:
  "\<exists>base. fst (compact_superseded_tool_history ms) \<in> {base, insert_notice base} \<and>
     map mm_role base = map mm_role ms \<and>
     map tool_call_id base = map tool_call_id ms \<and>
     map assistant_call_ids (filter (\<lambda>m. mm_role m = ''assistant'') base) =
       map assistant_call_ids (filter (\<lambda>m. mm_role m = ''assistant'') ms) \<and>
     map ((!) base) (kept_details ms) = map ((!) ms) (kept_details ms) \<and>
     list_all (\<lambda>j. \<not> intact_result (base ! j)) (map fst (older_tool_messages ms))"
proof (intro exI conjI)
  let ?b = "compacted_base ms"
  show "fst (compact_superseded_tool_history ms) \<in> {?b, insert_notice ?b}"
    by (rule compact_superseded_base)
  show "map mm_role ?b = map mm_role ms" "map tool_call_id ?b = map tool_call_id ms"
    by (simp_all add: list_eq_iff_nth_eq compacted_base_protocol)
  have "list_all2 (\<lambda>m m'. mm_role m = mm_role m' \<and>
      (mm_role m' = ''assistant'' \<longrightarrow> assistant_call_ids m = assistant_call_ids m')) ?b ms"
    by (simp add: list_all2_conv_all_nth compacted_base_protocol)
  then show "map assistant_call_ids (filter (\<lambda>m. mm_role m = ''assistant'') ?b) =
      map assistant_call_ids (filter (\<lambda>m. mm_role m = ''assistant'') ms)"
    by (induction rule: list_all2_induct) auto
  show "map ((!) ?b) (kept_details ms) = map ((!) ms) (kept_details ms)"
    by (simp add: compacted_base_kept)
  show "list_all (\<lambda>j. \<not> intact_result (?b ! j)) (map fst (older_tool_messages ms))"
    by (simp add: list_all_iff compacted_base_older)
qed

text \<open>Transient media stay attached: a media entry survives exactly when the history holds one
  tool result for its call, and that result is an object that was not compacted away.\<close>

theorem retained_media_attached:
  "(c, media) \<in> set (retain_attached_tool_media ms attached) \<longleftrightarrow>
     (c, media) \<in> set attached \<and>
     (\<exists>m. results_of ms c = [m] \<and> is_object (jindex (mm_content m) ''result'') \<and>
        as_bool (jindex (jindex (mm_content m) ''result'') ''history_compacted'') \<noteq> Some True)"
  by (auto simp: retain_attached_tool_media_def intact_result_def split: list.splits)

text \<open>The pin of an unresolved verifier failure does not survive a deferred verifier call: when
  a \<open>run_command\<close> call that was never executed is itself compacted, it counts as the latest
  verifier result from then on, and the next compaction drops the failure although no verifier has
  succeeded since.\<close>

definition pinned_failure_example :: "ModelMessage list" where
  "pinned_failure_example =
     tool_message ''f'' ''run_command'' (jobj [(''exit_code'', JNum (PosInt 1))]) #
     tool_message ''d'' ''run_command'' tool_call_limit_result #
     map (\<lambda>c. tool_message [c] ''read_file'' (jobj [])) ''abcghi''"

theorem deferred_verifier_unpins_failure:
  "let once = fst (compact_superseded_tool_history pinned_failure_example);
       twice = fst (compact_superseded_tool_history once)
   in latest_failed_verifier_result pinned_failure_example = Some 0 \<and>
      pinned_failure_example ! 0 \<in> set once \<and>
      latest_failed_verifier_result once = None \<and>
      pinned_failure_example ! 0 \<notin> set twice"
  by code_simp

end
