(* ===== verification/Context_Pack.thy ===== *)
theory Context_Pack
  imports Model_Gateway "HOL-Library.Multiset"
begin

text \<open>
  The context packing of \<open>crates/context-engine/src/lib.rs\<close>: token estimates, truncation, the
  packing of context items into a budget, and the packing of a conversation history.  A size
  (\<open>usize\<close>) is a natural number; the one multiplication that may exceed a machine word
  saturates.  The JSON printer is the parameter \<open>to_string\<close>, the clock the parameter
  \<open>clock\<close> (the reading for the k-th item).
\<close>

section \<open>Data\<close>

datatype ContextKind =
    CK_System | CK_ProjectInstructions | CK_Skill | CK_TeamKnowledge | CK_Conversation | CK_File
  | CK_Selection | CK_Diagnostic | CK_ToolResult | CK_Compaction

record Provenance =
  pv_source_uri :: string
  pv_owner_team_id :: "string option"
  pv_version :: "string option"
  pv_trust_level :: string
  pv_valid_until :: "Timestamp option"

record ContextItem =
  ci_id :: string
  ci_kind :: ContextKind
  ci_content :: string
  ci_priority :: u16
  ci_pinned :: bool
  ci_provenance :: Provenance

record ContextBudget =
  cb_max_input_tokens :: nat
  cb_reserved_output_tokens :: nat
  cb_per_item_tokens :: nat

definition ContextBudget_default :: ContextBudget where
  "ContextBudget_default =
     \<lparr>cb_max_input_tokens = 64000, cb_reserved_output_tokens = 8000, cb_per_item_tokens = 16000\<rparr>"

record PackedContext =
  pc_items :: "ContextItem list"
  pc_estimated_tokens :: nat
  pc_omitted_ids :: "string list"
  pc_truncated_ids :: "string list"

record ConversationMessage =
  cm_id :: string
  cm_role :: string
  cm_content :: json

record PackedConversation =
  pk_messages :: "ConversationMessage list"
  pk_compaction :: "ContextItem option"
  pk_estimated_tokens :: nat
  pk_omitted_ids :: "string list"
  pk_truncated_ids :: "string list"

section \<open>Estimates and truncation\<close>

abbreviation usize_max :: nat where "usize_max \<equiv> 2 ^ 64 - 1"

definition usize_mul :: "nat \<Rightarrow> nat \<Rightarrow> nat" where
  "usize_mul a b = min (a * b) usize_max"

definition estimate_tokens :: "string \<Rightarrow> nat" where
  "estimate_tokens content = max (div_ceil (chars_count content) 4) 1"

text \<open>The character U+2026 in UTF-8.\<close>

definition ellipsis :: string where
  "ellipsis = [CHR 0xE2, CHR 0x80, CHR 0xA6]"

definition truncate_chars :: "string \<Rightarrow> nat \<Rightarrow> string" where
  "truncate_chars value limit =
     (if chars_count value \<le> limit then value else take_chars (limit - 1) value @ ellipsis)"

section \<open>Packing of context items\<close>

definition item_valid :: "Timestamp \<Rightarrow> ContextItem \<Rightarrow> bool" where
  "item_valid now item =
     (case pv_valid_until (ci_provenance item) of None \<Rightarrow> True | Some expiry \<Rightarrow> expiry > now)"

text \<open>Pinned items first, then by falling priority, then by id.\<close>

definition item_le :: "ContextItem \<Rightarrow> ContextItem \<Rightarrow> bool" where
  "item_le l r =
     (if ci_pinned l \<noteq> ci_pinned r then ci_pinned l
      else if ci_priority l \<noteq> ci_priority r then ci_priority r < ci_priority l
      else \<not> str_less (ci_id r) (ci_id l))"

definition pack_step :: "ContextBudget \<Rightarrow> nat \<Rightarrow> PackedContext \<Rightarrow> ContextItem \<Rightarrow> PackedContext" where
  "pack_step budget available p item =
     (let remaining = available - pc_estimated_tokens p in
      if remaining = 0 then p\<lparr>pc_omitted_ids := pc_omitted_ids p @ [ci_id item]\<rparr>
      else
        let allowance = min remaining (cb_per_item_tokens budget);
            tokens = estimate_tokens (ci_content item)
        in if tokens > allowance
           then
             if ci_pinned item \<or> allowance \<ge> 64
             then let item' = item\<lparr>ci_content := truncate_chars (ci_content item) (usize_mul allowance 4)\<rparr>
                  in p\<lparr>pc_truncated_ids := pc_truncated_ids p @ [ci_id item],
                       pc_estimated_tokens := pc_estimated_tokens p + estimate_tokens (ci_content item'),
                       pc_items := pc_items p @ [item']\<rparr>
             else p\<lparr>pc_omitted_ids := pc_omitted_ids p @ [ci_id item]\<rparr>
           else p\<lparr>pc_estimated_tokens := pc_estimated_tokens p + tokens,
                  pc_items := pc_items p @ [item]\<rparr>)"

definition valid_items :: "(nat \<Rightarrow> Timestamp) \<Rightarrow> ContextItem list \<Rightarrow> ContextItem list" where
  "valid_items clock items =
     map snd (filter (\<lambda>(k, item). item_valid (clock k) item) (List.enumerate 0 items))"

definition pack_init :: PackedContext where
  "pack_init = \<lparr>pc_items = [], pc_estimated_tokens = 0, pc_omitted_ids = [], pc_truncated_ids = []\<rparr>"

definition pack :: "(nat \<Rightarrow> Timestamp) \<Rightarrow> ContextItem list \<Rightarrow> ContextBudget \<Rightarrow> PackedContext" where
  "pack clock items budget =
     foldl (pack_step budget (cb_max_input_tokens budget - cb_reserved_output_tokens budget))
       pack_init (sort_by item_le (valid_items clock items))"

section \<open>Packing of a conversation\<close>

definition compaction_item :: "string \<Rightarrow> string \<Rightarrow> ContextItem" where
  "compaction_item item_id content =
     \<lparr>ci_id = item_id, ci_kind = CK_Compaction, ci_content = content, ci_priority = 700,
      ci_pinned = True,
      ci_provenance = \<lparr>pv_source_uri = ''internal://conversation-compaction'', pv_owner_team_id = None,
        pv_version = Some ''1'', pv_trust_level = ''derived-untrusted'', pv_valid_until = None\<rparr>\<rparr>"

definition newlines_to_spaces :: "string \<Rightarrow> string" where
  "newlines_to_spaces s = map (\<lambda>c. if c = CHR 0x0A then CHR '' '' else c) s"

definition compact_conversation ::
  "ContextItem list \<Rightarrow> nat \<Rightarrow> nat \<Rightarrow> ContextItem option \<times> ContextItem list" where
  "compact_conversation messages retain_recent max_summary_tokens =
     (if length messages \<le> retain_recent then (None, messages)
      else
        let split = length messages - retain_recent;
            summary = ''Earlier conversation summary (untrusted conversation data):'' @ [CHR 0x0A] @
              concat (map (\<lambda>item. ''- ['' @ ci_id item @ ''] '' @
                  truncate_chars (newlines_to_spaces (ci_content item)) 400 @ [CHR 0x0A])
                (take split messages));
            summary = truncate_chars summary (usize_mul max_summary_tokens 4)
        in (Some (compaction_item (''compaction:'' @ decimal split) summary), drop split messages))"

definition estimate_conversation_tokens :: "(json \<Rightarrow> string) \<Rightarrow> ConversationMessage list \<Rightarrow> nat" where
  "estimate_conversation_tokens to_string messages =
     sum_list (map (\<lambda>m. estimate_tokens (cm_role m) + estimate_tokens (to_string (cm_content m)) + 4) messages)"

definition tool_call_ids :: "ConversationMessage \<Rightarrow> string list" where
  "tool_call_ids m =
     (if cm_role m \<noteq> ''assistant'' then []
      else (case Option.bind (jget (cm_content m) ''tool_calls'') as_array of
              None \<Rightarrow> []
            | Some calls \<Rightarrow> List.map_filter (\<lambda>c. Option.bind (jget c ''id'') as_str) calls))"

text \<open>One message of the normalising loop; the flag tells whether it was truncated.\<close>

definition normalize_message ::
  "(json \<Rightarrow> string) \<Rightarrow> nat \<Rightarrow> ConversationMessage \<Rightarrow> ConversationMessage \<times> bool" where
  "normalize_message to_string per_message_tokens m =
     (if estimate_tokens (to_string (cm_content m)) > per_message_tokens
      then
        if cm_role m = ''tool'' \<and> is_object (cm_content m)
        then let encoded = truncate_chars (to_string (jindex (cm_content m) ''result''))
                             (usize_mul per_message_tokens 4)
             in (m\<lparr>cm_content := jset (cm_content m) ''result''
                     (JStr (''[tool result truncated to context budget] '' @ encoded))\<rparr>, True)
        else if tool_call_ids m = []
        then let encoded = truncate_chars (to_string (cm_content m)) (usize_mul per_message_tokens 4)
             in (m\<lparr>cm_content := JStr (''[message truncated to context budget] '' @ encoded)\<rparr>, True)
        else (m, False)
      else (m, False))"

definition belongs_to :: "string list \<Rightarrow> ConversationMessage \<Rightarrow> bool" where
  "belongs_to call_ids m =
     (cm_role m = ''tool'' \<and>
      (case Option.bind (jget (cm_content m) ''tool_call_id'') as_str of
         None \<Rightarrow> False | Some call_id \<Rightarrow> call_id \<in> set call_ids))"

function atomic_groups_from :: "nat \<Rightarrow> ConversationMessage list \<Rightarrow> (nat \<times> nat) list" where
  "atomic_groups_from start [] = []"
| "atomic_groups_from start (m # ms) =
     (let call_ids = tool_call_ids m;
          results = (if call_ids = [] then 0 else length (takeWhile (belongs_to call_ids) ms));
          stop = start + 1 + results
      in (start, stop) # atomic_groups_from stop (drop results ms))"
  by pat_completeness auto
termination
  by (relation "measure (length \<circ> snd)") auto

definition conversation_atomic_groups :: "ConversationMessage list \<Rightarrow> (nat \<times> nat) list" where
  "conversation_atomic_groups messages = atomic_groups_from 0 messages"

definition group_slice :: "'a list \<Rightarrow> nat \<times> nat \<Rightarrow> 'a list" where
  "group_slice xs r = take (snd r - fst r) (drop (fst r) xs)"

text \<open>The loop over the groups, newest first: (recent tokens, split).\<close>

fun recent_loop ::
  "(json \<Rightarrow> string) \<Rightarrow> ConversationMessage list \<Rightarrow> nat \<Rightarrow> (nat \<times> nat) list \<Rightarrow> nat \<times> nat \<Rightarrow> nat \<times> nat" where
  "recent_loop to_string normalized recent_budget [] (recent_tokens, split) = (recent_tokens, split)"
| "recent_loop to_string normalized recent_budget (g # gs) (recent_tokens, split) =
     (let tokens = estimate_conversation_tokens to_string (group_slice normalized g) in
      if recent_tokens + tokens > recent_budget then (recent_tokens, split)
      else recent_loop to_string normalized recent_budget gs (recent_tokens + tokens, fst g))"

definition conversation_summary :: "(json \<Rightarrow> string) \<Rightarrow> ConversationMessage list \<Rightarrow> string" where
  "conversation_summary to_string omitted =
     ''Earlier conversation summary (derived from untrusted conversation data):'' @ [CHR 0x0A] @
     concat (map (\<lambda>m. ''- ['' @ cm_id m @ '':'' @ cm_role m @ ''] '' @
         truncate_chars (newlines_to_spaces (to_string (cm_content m))) 240 @ [CHR 0x0A]) omitted)"

definition pack_conversation_history ::
  "(json \<Rightarrow> string) \<Rightarrow> ConversationMessage list \<Rightarrow> nat \<Rightarrow> nat \<Rightarrow> nat \<Rightarrow> PackedConversation" where
  "pack_conversation_history to_string messages max_tokens per_message_tokens max_summary_tokens =
     (if messages = [] \<or> max_tokens = 0
      then \<lparr>pk_messages = [], pk_compaction = None, pk_estimated_tokens = 0,
            pk_omitted_ids = map cm_id messages, pk_truncated_ids = []\<rparr>
      else
        let results = map (normalize_message to_string per_message_tokens) messages;
            normalized = map fst results;
            truncated_ids = map (cm_id \<circ> fst) (filter snd results)
        in if estimate_conversation_tokens to_string normalized \<le> max_tokens
           then \<lparr>pk_messages = normalized, pk_compaction = None,
                 pk_estimated_tokens = estimate_conversation_tokens to_string normalized,
                 pk_omitted_ids = [], pk_truncated_ids = truncated_ids\<rparr>
           else
             let summary_budget = min max_summary_tokens (max_tokens div 4);
                 recent_budget = max_tokens - summary_budget;
                 (recent_tokens, split) = recent_loop to_string normalized recent_budget
                   (rev (conversation_atomic_groups normalized)) (0, length normalized);
                 recent = drop split normalized;
                 omitted = take split normalized;
                 compaction =
                   (if omitted = [] \<or> summary_budget = 0 then None
                    else Some (compaction_item (''conversation-compaction:'' @ decimal split)
                           (truncate_chars (conversation_summary to_string omitted)
                              (usize_mul summary_budget 4))));
                 summary_tokens =
                   (case compaction of None \<Rightarrow> 0 | Some item \<Rightarrow> estimate_tokens (ci_content item))
             in \<lparr>pk_messages = recent, pk_compaction = compaction,
                 pk_estimated_tokens = recent_tokens + summary_tokens,
                 pk_omitted_ids = map cm_id omitted, pk_truncated_ids = truncated_ids\<rparr>)"

section \<open>Lemmas\<close>

lemma div_ceil_4_le: "c \<le> 4 * n \<Longrightarrow> div_ceil c 4 \<le> n"
  by (simp add: div_ceil_def)

lemma chars_count_ellipsis [simp]: "chars_count ellipsis = 1"
  by (simp add: chars_count_def ellipsis_def is_cont_byte_def)

lemma chars_count_truncate: "chars_count (truncate_chars v l) \<le> max l 1"
  using chars_count_take_chars [of "l - 1" v] by (auto simp: truncate_chars_def)

lemma estimate_truncate_le: "0 < r \<Longrightarrow> a \<le> r \<Longrightarrow> estimate_tokens (truncate_chars v (usize_mul a 4)) \<le> r"
proof -
  assume r: "0 < r" "a \<le> r"
  have "usize_mul a 4 \<le> 4 * r" using r by (simp add: usize_mul_def min_def)
  then have "chars_count (truncate_chars v (usize_mul a 4)) \<le> 4 * r"
    using chars_count_truncate [of v "usize_mul a 4"] r by linarith
  then show ?thesis using r by (simp add: estimate_tokens_def div_ceil_4_le)
qed

lemma estimate_conversation_append [simp]:
  "estimate_conversation_tokens ts (xs @ ys) =
     estimate_conversation_tokens ts xs + estimate_conversation_tokens ts ys"
  by (simp add: estimate_conversation_tokens_def)

lemma estimate_conversation_Nil [simp]: "estimate_conversation_tokens ts [] = 0"
  by (simp add: estimate_conversation_tokens_def)

subsection \<open>The packing loop\<close>

definition pack_ok :: "nat \<Rightarrow> PackedContext \<Rightarrow> bool" where
  "pack_ok available p =
     (pc_estimated_tokens p \<le> available \<and>
      pc_estimated_tokens p = sum_list (map (estimate_tokens \<circ> ci_content) (pc_items p)))"

lemma pack_step_ok:
  assumes "pack_ok available p"
  shows "pack_ok available (pack_step budget available p item)"
  using assms estimate_truncate_le [of "available - pc_estimated_tokens p"
      "min (available - pc_estimated_tokens p) (cb_per_item_tokens budget)" "ci_content item"]
  by (auto simp: pack_step_def Let_def pack_ok_def)

lemma pack_step_partition:
  "mset (map ci_id (pc_items (pack_step budget available p item)))
     + mset (pc_omitted_ids (pack_step budget available p item)) =
   mset (map ci_id (pc_items p)) + mset (pc_omitted_ids p) + {#ci_id item#}"
  by (simp add: pack_step_def Let_def)

lemma pack_step_keeps:
  "ci_id ` set (pc_items p) \<subseteq> ci_id ` set (pc_items (pack_step budget available p item))"
  "pc_estimated_tokens p \<le> pc_estimated_tokens (pack_step budget available p item)"
  by (auto simp: pack_step_def Let_def)

lemma pack_step_pinned:
  assumes "ci_pinned item" and "pc_estimated_tokens p < available"
  shows "ci_id item \<in> ci_id ` set (pc_items (pack_step budget available p item))"
  using assms by (simp add: pack_step_def Let_def)

lemma pack_fold_ok:
  "pack_ok available p \<Longrightarrow> pack_ok available (foldl (pack_step budget available) p items)"
  by (induction items arbitrary: p) (simp_all add: pack_step_ok)

lemma pack_fold_partition:
  "mset (map ci_id (pc_items (foldl (pack_step budget available) p items)))
     + mset (pc_omitted_ids (foldl (pack_step budget available) p items)) =
   mset (map ci_id (pc_items p)) + mset (pc_omitted_ids p) + mset (map ci_id items)"
  by (induction items arbitrary: p) (simp_all add: pack_step_partition [simplified])

lemma pack_fold_keeps:
  "ci_id ` set (pc_items p) \<subseteq> ci_id ` set (pc_items (foldl (pack_step budget available) p items)) \<and>
   pc_estimated_tokens p \<le> pc_estimated_tokens (foldl (pack_step budget available) p items)"
proof (induction items arbitrary: p)
  case (Cons x items)
  then show ?case using pack_step_keeps [of p budget available x] by (fastforce intro: order_trans)
qed simp

lemma pack_fold_pinned:
  assumes "pc_estimated_tokens (foldl (pack_step budget available) p items) < available"
    and "item \<in> set items" and "ci_pinned item"
  shows "ci_id item \<in> ci_id ` set (pc_items (foldl (pack_step budget available) p items))"
proof -
  from assms(2) obtain xs ys where items: "items = xs @ item # ys" by (auto simp: in_set_conv_decomp)
  let ?q = "foldl (pack_step budget available) p xs"
  have "pc_estimated_tokens ?q < available"
    using pack_fold_keeps [of ?q budget available "item # ys"] assms(1) items by simp
  from pack_step_pinned [OF assms(3) this, of budget]
    pack_fold_keeps [of "pack_step budget available ?q item" budget available ys] items
  show ?thesis by auto
qed

lemma mset_insort_by [simp]: "mset (insort_by le x xs) = add_mset x (mset xs)"
  by (induction xs) auto

lemma mset_sort_by [simp]: "mset (sort_by le xs) = mset xs"
  by (induction xs) (auto simp: sort_by_def)

subsection \<open>Groups and the recent suffix\<close>

lemma group_step:
  obtains k where "k \<le> length ms"
    and "atomic_groups_from n (m # ms) = (n, n + 1 + k) # atomic_groups_from (n + 1 + k) (drop k ms)"
proof -
  define k where "k = (if tool_call_ids m = [] then 0
    else length (takeWhile (belongs_to (tool_call_ids m)) ms))"
  have "k \<le> length ms" by (simp add: k_def length_takeWhile_le)
  moreover have "atomic_groups_from n (m # ms) = (n, n + 1 + k) # atomic_groups_from (n + 1 + k) (drop k ms)"
    by (simp add: Let_def k_def)
  ultimately show thesis by (rule that)
qed

lemma groups_slices:
  "concat (map (group_slice (pre @ ms)) (atomic_groups_from (length pre) ms)) = ms"
proof (induction "length ms" arbitrary: pre ms rule: less_induct)
  case less
  show ?case
  proof (cases ms)
    case (Cons m ms')
    obtain k where k: "k \<le> length ms'" "atomic_groups_from (length pre) (m # ms') =
        (length pre, length pre + 1 + k) # atomic_groups_from (length pre + 1 + k) (drop k ms')"
      by (rule group_step)
    let ?pre = "pre @ m # take k ms'"
    have "concat (map (group_slice (?pre @ drop k ms')) (atomic_groups_from (length ?pre) (drop k ms'))) = drop k ms'"
      by (rule less) (simp add: Cons)
    moreover have "group_slice (pre @ m # ms') (length pre, Suc (length pre + k)) = m # take k ms'"
      by (simp add: group_slice_def)
    ultimately show ?thesis using k Cons by (simp add: min_absorb2)
  qed simp
qed

lemma groups_cover: "concat (map (group_slice ms) (conversation_atomic_groups ms)) = ms"
  using groups_slices [of "[]" ms] by (simp add: conversation_atomic_groups_def)

lemma groups_drop:
  "atomic_groups_from (length pre) ms = gs @ h # hs \<Longrightarrow>
     drop (fst h) (pre @ ms) = concat (map (group_slice (pre @ ms)) (h # hs))"
proof (induction gs arbitrary: pre ms)
  case Nil
  then obtain m ms' where "ms = m # ms'" by (cases ms) auto
  with Nil have "fst h = length pre" by (auto simp: Let_def)
  with groups_slices [of pre ms] Nil show ?case by simp
next
  case (Cons g gs)
  then obtain m ms' where ms: "ms = m # ms'" by (cases ms) auto
  obtain k where k: "k \<le> length ms'" "atomic_groups_from (length pre) (m # ms') =
      (length pre, length pre + 1 + k) # atomic_groups_from (length pre + 1 + k) (drop k ms')"
    by (rule group_step)
  let ?pre = "pre @ m # take k ms'"
  have "atomic_groups_from (length ?pre) (drop k ms') = gs @ h # hs"
    using Cons.prems k ms by (simp add: min_absorb2)
  from Cons.IH [OF this] show ?case by (simp add: ms)
qed

lemma recent_loop_spec:
  assumes "recent_loop ts ms B (rev gs) (r, sp) = (r', sp')"
    and "conversation_atomic_groups ms = gs @ hs"
    and "drop sp ms = concat (map (group_slice ms) hs)" and "r = estimate_conversation_tokens ts (drop sp ms)"
    and "r \<le> B"
  shows "\<exists>gs' hs'. conversation_atomic_groups ms = gs' @ hs' \<and>
    drop sp' ms = concat (map (group_slice ms) hs') \<and> r' = estimate_conversation_tokens ts (drop sp' ms) \<and>
    r' \<le> B"
  using assms
proof (induction gs arbitrary: hs r sp rule: rev_induct)
  case Nil
  then show ?case by auto
next
  case (snoc g gs)
  let ?t = "estimate_conversation_tokens ts (group_slice ms g)"
  show ?case
  proof (cases "B < r + ?t")
    case True
    with snoc.prems show ?thesis by (intro exI [of _ "gs @ [g]"] exI [of _ hs]) (auto simp: Let_def)
  next
    case False
    have d: "drop (fst g) ms = concat (map (group_slice ms) (g # hs))"
      using groups_drop [of "[]" ms gs g hs] snoc.prems(2) by (simp add: conversation_atomic_groups_def)
    have "r + ?t = estimate_conversation_tokens ts (drop (fst g) ms)"
      using d snoc.prems(3,4) by simp
    then show ?thesis
      using snoc.IH [of "r + ?t" "fst g" "g # hs"] snoc.prems(1,2) False d by (simp add: Let_def)
  qed
qed

subsection \<open>The packed conversation\<close>

definition normalized_messages ::
  "(json \<Rightarrow> string) \<Rightarrow> nat \<Rightarrow> ConversationMessage list \<Rightarrow> ConversationMessage list" where
  "normalized_messages ts per ms = map (fst \<circ> normalize_message ts per) ms"

lemma normalize_message_identity:
  "cm_id (fst (normalize_message ts per m)) = cm_id m"
  "cm_role (fst (normalize_message ts per m)) = cm_role m"
  "tool_call_ids (fst (normalize_message ts per m)) = tool_call_ids m"
  "belongs_to ids (fst (normalize_message ts per m)) = belongs_to ids m"
proof -
  show "cm_id (fst (normalize_message ts per m)) = cm_id m"
    "cm_role (fst (normalize_message ts per m)) = cm_role m"
    by (simp_all add: normalize_message_def Let_def)
  show "tool_call_ids (fst (normalize_message ts per m)) = tool_call_ids m"
    by (auto simp: normalize_message_def Let_def tool_call_ids_def jget_def)
  show "belongs_to ids (fst (normalize_message ts per m)) = belongs_to ids m"
    by (cases "cm_content m")
      (auto simp: normalize_message_def Let_def belongs_to_def jget_def jset_def is_object_def)
qed

lemma groups_normalized:
  "atomic_groups_from n (normalized_messages ts per ms) = atomic_groups_from n ms"
proof (induction n ms rule: atomic_groups_from.induct)
  case (2 n m ms)
  have tw: "length (takeWhile (belongs_to ids) (normalized_messages ts per ms)) =
      length (takeWhile (belongs_to ids) ms)" for ids
    by (simp add: normalized_messages_def takeWhile_map comp_def normalize_message_identity)
  show ?case
    using "2.IH" [OF refl refl refl] tw [of "tool_call_ids m"]
    by (cases "tool_call_ids m = []")
      (simp_all add: Let_def normalize_message_identity drop_map normalized_messages_def)
qed (simp add: normalized_messages_def)

lemma pack_history_cases:
  assumes "ms \<noteq> []" and "mx \<noteq> 0"
  obtains "estimate_conversation_tokens ts (normalized_messages ts per ms) \<le> mx"
      and "pack_conversation_history ts ms mx per sm =
        \<lparr>pk_messages = normalized_messages ts per ms, pk_compaction = None,
         pk_estimated_tokens = estimate_conversation_tokens ts (normalized_messages ts per ms),
         pk_omitted_ids = [], pk_truncated_ids = map cm_id (filter (snd \<circ> normalize_message ts per) ms)\<rparr>"
    | r sp comp where
        "recent_loop ts (normalized_messages ts per ms) (mx - min sm (mx div 4))
           (rev (conversation_atomic_groups (normalized_messages ts per ms))) (0, length ms) = (r, sp)"
      and "comp = (if take sp (normalized_messages ts per ms) = [] \<or> min sm (mx div 4) = 0 then None
           else Some (compaction_item (''conversation-compaction:'' @ decimal sp)
             (truncate_chars (conversation_summary ts (take sp (normalized_messages ts per ms)))
                (usize_mul (min sm (mx div 4)) 4))))"
      and "pack_conversation_history ts ms mx per sm =
        \<lparr>pk_messages = drop sp (normalized_messages ts per ms), pk_compaction = comp,
         pk_estimated_tokens = r + (case comp of None \<Rightarrow> 0 | Some i \<Rightarrow> estimate_tokens (ci_content i)),
         pk_omitted_ids = map cm_id (take sp (normalized_messages ts per ms)),
         pk_truncated_ids = map cm_id (filter (snd \<circ> normalize_message ts per) ms)\<rparr>"
proof -
  have n: "map fst (map (normalize_message ts per) ms) = normalized_messages ts per ms"
    by (simp add: normalized_messages_def)
  have t: "map (cm_id \<circ> fst) (filter snd (map (normalize_message ts per) ms)) =
      map cm_id (filter (snd \<circ> normalize_message ts per) ms)"
    by (simp add: filter_map comp_def normalize_message_identity)
  obtain r sp where rs: "recent_loop ts (normalized_messages ts per ms) (mx - min sm (mx div 4))
           (rev (conversation_atomic_groups (normalized_messages ts per ms))) (0, length ms) = (r, sp)"
    by fastforce
  have len: "length (normalized_messages ts per ms) = length ms" by (simp add: normalized_messages_def)
  show thesis
  proof (cases "estimate_conversation_tokens ts (normalized_messages ts per ms) \<le> mx")
    case True
    with assms show thesis
      by (intro that(1)) (simp_all add: pack_conversation_history_def Let_def n t del: map_map)
  next
    case False
    show thesis
      by (rule that(2) [OF rs refl])
        (use assms False rs in \<open>simp add: pack_conversation_history_def Let_def n t len del: map_map\<close>)
  qed
qed

lemma pack_history_spec:
  "\<exists>gs hs. conversation_atomic_groups (normalized_messages ts per ms) = gs @ hs \<and>
     pk_messages (pack_conversation_history ts ms mx per sm) =
       concat (map (group_slice (normalized_messages ts per ms)) hs) \<and>
     pk_omitted_ids (pack_conversation_history ts ms mx per sm)
       @ map cm_id (pk_messages (pack_conversation_history ts ms mx per sm)) = map cm_id ms \<and>
     pk_estimated_tokens (pack_conversation_history ts ms mx per sm) =
       estimate_conversation_tokens ts (pk_messages (pack_conversation_history ts ms mx per sm)) +
       (case pk_compaction (pack_conversation_history ts ms mx per sm) of
          None \<Rightarrow> 0 | Some i \<Rightarrow> estimate_tokens (ci_content i)) \<and>
     pk_estimated_tokens (pack_conversation_history ts ms mx per sm) \<le> mx"
proof (cases "ms = [] \<or> mx = 0")
  case True
  then show ?thesis
    by (intro exI [of _ "conversation_atomic_groups (normalized_messages ts per ms)"] exI [of _ "[]"])
      (simp add: pack_conversation_history_def)
next
  case False
  let ?n = "normalized_messages ts per ms"
  have ids: "map cm_id ?n = map cm_id ms" by (simp add: normalized_messages_def normalize_message_identity)
  from False have "ms \<noteq> []" "mx \<noteq> 0" by auto
  then show ?thesis
  proof (cases rule: pack_history_cases [of ms mx ts per sm])
    case 1
    then show ?thesis
      by (intro exI [of _ "[]"] exI [of _ "conversation_atomic_groups ?n"])
        (simp add: groups_cover ids)
  next
    case (2 r sp comp)
    have "length ?n = length ms" by (simp add: normalized_messages_def)
    then obtain gs hs where g: "conversation_atomic_groups ?n = gs @ hs"
      "drop sp ?n = concat (map (group_slice ?n) hs)" "r = estimate_conversation_tokens ts (drop sp ?n)"
      "r \<le> mx - min sm (mx div 4)"
      using recent_loop_spec [OF 2(1), of "[]"] by auto
    have "map cm_id (take sp ?n) @ map cm_id (drop sp ?n) = map cm_id ms"
      using ids by (simp flip: map_append)
    moreover
    have "(case comp of None \<Rightarrow> 0 | Some i \<Rightarrow> estimate_tokens (ci_content i)) \<le> min sm (mx div 4)"
      using estimate_truncate_le [of "min sm (mx div 4)" "min sm (mx div 4)"]
      by (auto simp: 2(2) compaction_item_def)
    then have "r + (case comp of None \<Rightarrow> 0 | Some i \<Rightarrow> estimate_tokens (ci_content i)) \<le> mx"
      using g(4) by linarith
    ultimately show ?thesis
      using g 2(3) by (intro exI [of _ gs] exI [of _ hs]) simp
  qed
qed

section \<open>Properties\<close>

text \<open>Packing stays in budget and loses nothing silently: the estimate is the sum over the packed
  items and never exceeds the input budget minus the output reserve, and every item that is still
  valid is either packed, possibly truncated, or reported as omitted, exactly once.\<close>

theorem pack_within_budget:
  "let p = pack clock items budget in
   pc_estimated_tokens p = sum_list (map (estimate_tokens \<circ> ci_content) (pc_items p)) \<and>
   pc_estimated_tokens p \<le> cb_max_input_tokens budget - cb_reserved_output_tokens budget \<and>
   mset (map ci_id (pc_items p)) + mset (pc_omitted_ids p) = mset (map ci_id (valid_items clock items))"
proof -
  let ?a = "cb_max_input_tokens budget - cb_reserved_output_tokens budget"
  let ?xs = "sort_by item_le (valid_items clock items)"
  have "pack_ok ?a (foldl (pack_step budget ?a) pack_init ?xs)"
    by (rule pack_fold_ok) (simp add: pack_ok_def pack_init_def)
  with pack_fold_partition [of budget ?a pack_init ?xs] show ?thesis
    by (simp add: Let_def pack_def pack_ok_def) (simp add: pack_init_def)
qed

text \<open>Pinned items have precedence: while the budget is not used up, every valid pinned item is
  packed.\<close>

theorem pinned_items_packed:
  assumes "item \<in> set (valid_items clock items)" and "ci_pinned item"
    and "pc_estimated_tokens (pack clock items budget) <
           cb_max_input_tokens budget - cb_reserved_output_tokens budget"
  shows "ci_id item \<in> ci_id ` set (pc_items (pack clock items budget))"
  using assms unfolding pack_def by (intro pack_fold_pinned) auto

definition demo_item :: ContextItem where
  "demo_item = (compaction_item ''i'' ''abcdefgh'')"

theorem pinned_items_packed_witness:
  "ci_id demo_item \<in> ci_id ` set (pc_items (pack (\<lambda>_. 0) [demo_item] ContextBudget_default))"
  by (rule pinned_items_packed)
    (simp_all add: demo_item_def compaction_item_def valid_items_def item_valid_def pack_def sort_by_def
      pack_step_def pack_init_def ContextBudget_default_def Let_def estimate_tokens_def div_ceil_def chars_count_def
      is_cont_byte_def)

text \<open>C30: A packed conversation fits the budget and is a suffix of whole exchanges: the omitted and
  the kept messages are together all messages in their order, the kept ones are whole groups of an
  assistant message with the results of its tool calls, and the reported estimate, which covers the
  kept messages and the summary, is at most the budget.\<close>

theorem packed_conversation_fits:
  "let p = pack_conversation_history to_string messages max_tokens per_message max_summary;
       normalized = normalized_messages to_string per_message messages
   in pk_omitted_ids p @ map cm_id (pk_messages p) = map cm_id messages \<and>
      (\<exists>omitted kept. conversation_atomic_groups messages = omitted @ kept \<and>
         pk_messages p = concat (map (group_slice normalized) kept)) \<and>
      pk_estimated_tokens p = estimate_conversation_tokens to_string (pk_messages p) +
        (case pk_compaction p of None \<Rightarrow> 0 | Some i \<Rightarrow> estimate_tokens (ci_content i)) \<and>
      pk_estimated_tokens p \<le> max_tokens"
  using pack_history_spec [of to_string per_message messages max_tokens max_summary]
  by (auto simp: Let_def conversation_atomic_groups_def groups_normalized)

end
