(* ===== verification/Turn_Machine.thy ===== *)
theory Turn_Machine
  imports SC_Prelude
begin

text \<open>
  The turn state machine of \<open>crates/agent-core/src/lib.rs\<close> (\<open>TurnLimits\<close>, \<open>TurnMachine\<close>,
  \<open>valid\<close>) over the statuses of \<open>crates/protocol/src/lib.rs\<close>.  The unchecked increments of the
  32-bit counters wrap; an \<open>Instant\<close> is a number of nanoseconds and the current instant is an
  argument.
\<close>

section \<open>Statuses, limits and counters\<close>

datatype TurnStatus =
    Idle | PreparingContext | CallingModel | AwaitingInput | AwaitingApproval | RunningTool
  | Completed | Failed | Cancelled

record TurnLimits =
  max_model_calls :: u32
  max_tool_calls :: u32
  max_elapsed_seconds :: u64
  model_stream_idle_seconds :: u64
  max_cost_micros :: u64
  max_total_tokens :: u64

definition TurnLimits_default :: TurnLimits where
  "TurnLimits_default =
     \<lparr>max_model_calls = 48, max_tool_calls = 64, max_elapsed_seconds = 1800,
      model_stream_idle_seconds = 60, max_cost_micros = 5000000, max_total_tokens = 1000000\<rparr>"

datatype TurnError = InvalidTransition TurnStatus TurnStatus | LimitExceeded string

record TurnMachine =
  tm_status :: TurnStatus
  tm_limits :: TurnLimits
  tm_model_calls :: u32
  tm_tool_calls :: u32
  tm_cost_micros :: u64
  tm_total_tokens :: u64
  tm_started_at :: nat

definition TurnMachine_new :: "TurnLimits \<Rightarrow> nat \<Rightarrow> TurnMachine" where
  "TurnMachine_new limits now =
     \<lparr>tm_status = Idle, tm_limits = limits, tm_model_calls = 0, tm_tool_calls = 0,
      tm_cost_micros = 0, tm_total_tokens = 0, tm_started_at = now\<rparr>"

fun valid :: "TurnStatus \<Rightarrow> TurnStatus \<Rightarrow> bool" where
  "valid from Cancelled \<longleftrightarrow>
     from \<in> {Idle, PreparingContext, CallingModel, AwaitingInput, AwaitingApproval, RunningTool}"
| "valid Idle to \<longleftrightarrow> to = PreparingContext"
| "valid PreparingContext to \<longleftrightarrow> to \<in> {CallingModel, Failed}"
| "valid CallingModel to \<longleftrightarrow> to \<in> {AwaitingInput, AwaitingApproval, RunningTool, Completed, Failed}"
| "valid AwaitingInput to \<longleftrightarrow> to \<in> {RunningTool, CallingModel, Failed}"
| "valid AwaitingApproval to \<longleftrightarrow> to \<in> {RunningTool, CallingModel, Failed}"
| "valid RunningTool to \<longleftrightarrow> to \<in> {AwaitingInput, AwaitingApproval, CallingModel, Failed}"
| "valid _ _ \<longleftrightarrow> False"

definition record_model_call :: "u64 \<Rightarrow> TurnMachine \<Rightarrow> (TurnError + unit) \<times> TurnMachine" where
  "record_model_call cost m =
     (let m1 = m\<lparr>tm_model_calls := tm_model_calls m + 1,
                 tm_cost_micros := saturating_add (tm_cost_micros m) cost\<rparr>
      in (if tm_model_calls m1 > max_model_calls (tm_limits m1)
          then Err (LimitExceeded ''model_calls'')
          else if tm_cost_micros m1 > max_cost_micros (tm_limits m1)
          then Err (LimitExceeded ''cost'')
          else Ok (), m1))"

definition record_tool_call :: "TurnMachine \<Rightarrow> (TurnError + unit) \<times> TurnMachine" where
  "record_tool_call m =
     (let m1 = m\<lparr>tm_tool_calls := tm_tool_calls m + 1\<rparr>
      in (if tm_tool_calls m1 > max_tool_calls (tm_limits m1)
          then Err (LimitExceeded ''tool_calls'') else Ok (), m1))"

definition record_usage :: "u64 \<Rightarrow> u64 \<Rightarrow> TurnMachine \<Rightarrow> (TurnError + unit) \<times> TurnMachine" where
  "record_usage input_tokens output_tokens m =
     (let m1 = m\<lparr>tm_total_tokens :=
                   saturating_add (saturating_add (tm_total_tokens m) input_tokens) output_tokens\<rparr>
      in (if tm_total_tokens m1 > max_total_tokens (tm_limits m1)
          then Err (LimitExceeded ''tokens'') else Ok (), m1))"

definition check_elapsed :: "nat \<Rightarrow> TurnMachine \<Rightarrow> TurnError + unit" where
  "check_elapsed now m =
     (if (now - tm_started_at m) div 1000000000 > unat (max_elapsed_seconds (tm_limits m))
      then Err (LimitExceeded ''elapsed_time'') else Ok ())"

definition transition :: "TurnStatus \<Rightarrow> TurnMachine \<Rightarrow> (TurnError + unit) \<times> TurnMachine" where
  "transition to m =
     (if \<not> valid (tm_status m) to then (Err (InvalidTransition (tm_status m) to), m)
      else (Ok (), m\<lparr>tm_status := to\<rparr>))"

section \<open>Histories of a machine\<close>

text \<open>The operations a client can apply, and the machines reached when each of them returned
  \<open>Ok\<close> (the \<open>?\<close> after every call in the runner).\<close>

datatype turn_op =
    ModelCall u64
  | ToolCall
  | TokenUsage u64 u64
  | Elapsed nat
  | Move TurnStatus

fun turn_apply :: "TurnMachine \<Rightarrow> turn_op \<Rightarrow> TurnError + TurnMachine" where
  "turn_apply m (ModelCall cost) = (case record_model_call cost m of (r, m') \<Rightarrow> and_then r (\<lambda>_. Ok m'))"
| "turn_apply m ToolCall = (case record_tool_call m of (r, m') \<Rightarrow> and_then r (\<lambda>_. Ok m'))"
| "turn_apply m (TokenUsage i j) = (case record_usage i j m of (r, m') \<Rightarrow> and_then r (\<lambda>_. Ok m'))"
| "turn_apply m (Elapsed now) = and_then (check_elapsed now m) (\<lambda>_. Ok m)"
| "turn_apply m (Move to) = (case transition to m of (r, m') \<Rightarrow> and_then r (\<lambda>_. Ok m'))"

definition turn_run :: "TurnMachine \<Rightarrow> turn_op list \<Rightarrow> TurnError + TurnMachine" where
  "turn_run m ops = try_fold turn_apply m ops"

definition within_limits :: "TurnMachine \<Rightarrow> bool" where
  "within_limits m \<longleftrightarrow>
     tm_model_calls m \<le> max_model_calls (tm_limits m) \<and>
     tm_tool_calls m \<le> max_tool_calls (tm_limits m) \<and>
     tm_cost_micros m \<le> max_cost_micros (tm_limits m) \<and>
     tm_total_tokens m \<le> max_total_tokens (tm_limits m)"

fun is_model_call :: "turn_op \<Rightarrow> bool" where
  "is_model_call (ModelCall _) = True"
| "is_model_call _ = False"

fun is_tool_call :: "turn_op \<Rightarrow> bool" where
  "is_tool_call ToolCall = True"
| "is_tool_call _ = False"

fun moves :: "turn_op list \<Rightarrow> TurnStatus list" where
  "moves [] = []"
| "moves (Move s # ops) = s # moves ops"
| "moves (_ # ops) = moves ops"

fun status_chain :: "TurnStatus \<Rightarrow> TurnStatus list \<Rightarrow> bool" where
  "status_chain s [] = True"
| "status_chain s (t # ts) = (valid s t \<and> status_chain t ts)"

definition terminal :: "TurnStatus \<Rightarrow> bool" where
  "terminal s \<longleftrightarrow> s \<in> {Completed, Failed, Cancelled}"

lemmas turn_defs = record_model_call_def record_tool_call_def record_usage_def check_elapsed_def
  transition_def Let_def

lemma within_limits_new [simp]: "within_limits (TurnMachine_new limits now)"
  by (simp add: within_limits_def TurnMachine_new_def)

lemma turn_apply_within: "within_limits m \<Longrightarrow> turn_apply m op = Inr m' \<Longrightarrow> within_limits m'"
  by (cases op) (auto simp: within_limits_def turn_defs not_less split: if_splits)

lemma turn_apply_limits: "turn_apply m op = Inr m' \<Longrightarrow> tm_limits m' = tm_limits m"
  by (cases op) (auto simp: turn_defs split: if_splits)

lemma turn_apply_status:
  "turn_apply m op = Inr m' \<Longrightarrow>
     tm_status m' = (case op of Move s \<Rightarrow> s | _ \<Rightarrow> tm_status m) \<and>
     (\<forall>s. op = Move s \<longrightarrow> valid (tm_status m) s)"
  by (cases op) (auto simp: turn_defs split: if_splits)

lemma turn_apply_counts:
  assumes "turn_apply m op = Inr m'" and "within_limits m"
    and "max_model_calls (tm_limits m) \<noteq> u32_max" and "max_tool_calls (tm_limits m) \<noteq> u32_max"
  shows "unat (tm_model_calls m') = unat (tm_model_calls m) + (if is_model_call op then 1 else 0) \<and>
         unat (tm_tool_calls m') = unat (tm_tool_calls m) + (if is_tool_call op then 1 else 0)"
proof -
  have "unat (tm_model_calls m + 1) = Suc (unat (tm_model_calls m))"
    "unat (tm_tool_calls m + 1) = Suc (unat (tm_tool_calls m))"
    using assms(2-4) unat_succ_below by (auto simp: within_limits_def)
  with assms(1) show ?thesis
    by (cases op) (auto simp: turn_defs split: if_splits)
qed

lemma turn_run_counts:
  assumes "turn_run m ops = Inr m'" and "within_limits m"
    and "max_model_calls (tm_limits m) \<noteq> u32_max" and "max_tool_calls (tm_limits m) \<noteq> u32_max"
  shows "within_limits m' \<and> tm_limits m' = tm_limits m \<and>
    unat (tm_model_calls m') = unat (tm_model_calls m) + length (filter is_model_call ops) \<and>
    unat (tm_tool_calls m') = unat (tm_tool_calls m) + length (filter is_tool_call ops) \<and>
    status_chain (tm_status m) (moves ops) \<and> tm_status m' = last (tm_status m # moves ops)"
  using assms
proof (induction ops arbitrary: m)
  case Nil
  then show ?case by (simp add: turn_run_def)
next
  case (Cons op ops)
  from Cons.prems(1) obtain m1 where m1: "turn_apply m op = Inr m1" "turn_run m1 ops = Inr m'"
    by (auto simp: turn_run_def split: sum.splits)
  note step = turn_apply_within [OF Cons.prems(2) m1(1)] turn_apply_limits [OF m1(1)]
    turn_apply_counts [OF m1(1) Cons.prems(2-4)] turn_apply_status [OF m1(1)]
  from Cons.IH [OF m1(2)] step Cons.prems(3,4) show ?case
    by (cases op) auto
qed

lemma valid_not_terminal: "valid s t \<Longrightarrow> \<not> terminal s"
  by (cases s; cases t) (auto simp: terminal_def)

section \<open>Properties\<close>

text \<open>As long as every operation of a new turn machine succeeds, the turn has made at most as
  many model calls and tool calls as its limits allow, its cost and token totals are within their
  limits, and the statuses it went through are connected by valid transitions.\<close>

theorem turn_stays_within_budget:
  assumes "turn_run (TurnMachine_new limits now) ops = Inr m"
    and "max_model_calls limits \<noteq> u32_max" and "max_tool_calls limits \<noteq> u32_max"
  shows "length (filter is_model_call ops) \<le> unat (max_model_calls limits) \<and>
    length (filter is_tool_call ops) \<le> unat (max_tool_calls limits) \<and>
    tm_cost_micros m \<le> max_cost_micros limits \<and>
    tm_total_tokens m \<le> max_total_tokens limits \<and>
    status_chain Idle (moves ops) \<and> tm_status m = last (Idle # moves ops)"
  using turn_run_counts [OF assms(1)] assms(2,3)
  by (auto simp: within_limits_def word_le_nat_alt) (auto simp: TurnMachine_new_def)

theorem turn_stays_within_budget_witness:
  "\<exists>m. turn_run (TurnMachine_new TurnLimits_default 0)
         [Move PreparingContext, Move CallingModel, ModelCall 7, TokenUsage 10 5, Move RunningTool,
          ToolCall, Move CallingModel, ModelCall 7, Move Completed] = Inr m \<and>
       tm_status m = Completed \<and> tm_total_tokens m \<le> 1000000"
proof -
  let ?ops = "[Move PreparingContext, Move CallingModel, ModelCall 7, TokenUsage 10 5, Move RunningTool,
          ToolCall, Move CallingModel, ModelCall 7, Move Completed]"
  let ?m = "\<lparr>tm_status = Completed, tm_limits = TurnLimits_default, tm_model_calls = 2,
      tm_tool_calls = 1, tm_cost_micros = 14, tm_total_tokens = 15, tm_started_at = 0\<rparr>"
  have r: "turn_run (TurnMachine_new TurnLimits_default 0) ?ops = Inr ?m"
    by (simp add: turn_run_def turn_defs TurnMachine_new_def TurnLimits_default_def
        saturating_add_def)
  have "tm_status ?m = last (Idle # moves ?ops)"
    using turn_stays_within_budget [OF r] by (simp add: TurnLimits_default_def)
  with r show ?thesis by (intro exI [of _ ?m]) simp
qed

text \<open>The status machine: a finished turn never moves again, a live turn can always be
  cancelled, a live turn that has started can always fail, and only a turn that is calling the
  model can complete.\<close>

theorem turn_status_discipline:
  "(terminal s \<longleftrightarrow> \<not> (\<exists>t. valid s t)) \<and>
   (valid s Cancelled \<longleftrightarrow> \<not> terminal s) \<and>
   (valid s Failed \<longleftrightarrow> \<not> terminal s \<and> s \<noteq> Idle) \<and>
   (valid s Completed \<longleftrightarrow> s = CallingModel) \<and>
   \<not> valid s Idle"
proof -
  have "\<not> terminal s \<Longrightarrow> valid s Cancelled"
    by (cases s) (auto simp: terminal_def)
  then have "terminal s \<longleftrightarrow> \<not> (\<exists>t. valid s t)"
    using valid_not_terminal [of s] by blast
  moreover have "(valid s Cancelled \<longleftrightarrow> \<not> terminal s) \<and> (valid s Failed \<longleftrightarrow> \<not> terminal s \<and> s \<noteq> Idle)
      \<and> (valid s Completed \<longleftrightarrow> s = CallingModel) \<and> \<not> valid s Idle"
    by (cases s) (auto simp: terminal_def)
  ultimately show ?thesis by blast
qed

end
