(* ===== verification/Model_Call.thy ===== *)
theory Model_Call
  imports Tool_History Context_Pack Turn_Machine
begin

text \<open>
  One model call of the agent runner (\<open>crates/agent-core/src/lib.rs\<close>): the compaction of a
  request that overflowed the context window and the retry loop around the provider.  The provider
  is a parameter: what the \<open>select!\<close> of the k-th attempt yields, and whether the k-th back-off
  sleep is cancelled.  A stream is represented by what the consuming loop will poll from it.
\<close>

section \<open>Errors and polls\<close>

datatype AgentError =
    AE_Turn TurnError
  | AE_Gateway GatewayError
  | AE_InvalidToolCall string
  | AE_InvalidRequest string
  | AE_Cancelled

datatype 'st ProviderPoll = Poll_Cancelled | Poll_Response "GatewayError + 'st"

section \<open>Context overflow\<close>

record OverflowCompaction =
  oc_omitted_messages :: u32
  oc_truncated_messages :: u32
  oc_estimated_tokens :: u64

definition overflow_conversation :: "ModelMessage list \<Rightarrow> ConversationMessage list" where
  "overflow_conversation messages =
     map (\<lambda>(index, m). \<lparr>cm_id = ''overflow-'' @ decimal index, cm_role = mm_role m,
                        cm_content = mm_content m\<rparr>)
       (List.enumerate 0 messages)"

definition overflow_after :: "PackedConversation \<Rightarrow> nat" where
  "overflow_after packed =
     pk_estimated_tokens packed +
     (case pk_compaction packed of
        None \<Rightarrow> 0 | Some summary \<Rightarrow> div_ceil (chars_count (ci_content summary)) 4)"

definition overflow_messages :: "PackedConversation \<Rightarrow> ModelMessage list" where
  "overflow_messages packed =
     (case pk_compaction packed of
        None \<Rightarrow> []
      | Some summary \<Rightarrow>
          [\<lparr>mm_role = ''system'',
            mm_content = jobj [(''context_overflow_summary'', JStr (ci_content summary)),
                               (''trust'', JStr ''derived-untrusted'')]\<rparr>]) @
     map (\<lambda>m. \<lparr>mm_role = cm_role m, mm_content = cm_content m\<rparr>) (pk_messages packed)"

definition overflow_pack :: "(json \<Rightarrow> string) \<Rightarrow> ConversationMessage list \<Rightarrow> nat \<Rightarrow> PackedConversation" where
  "overflow_pack to_string conversation before =
     (let target = usize_mul before 2 div 3
      in pack_conversation_history to_string conversation
           (max target 128) (max (target div 2) 64) (max (target div 4) 64))"

definition compact_overflow_request ::
  "(json \<Rightarrow> string) \<Rightarrow> ModelRequest \<Rightarrow> (OverflowCompaction \<times> ModelRequest) option" where
  "compact_overflow_request to_string request =
     (let conversation = overflow_conversation (mr_messages request);
          before = estimate_conversation_tokens to_string conversation
      in if before < 256 then None
         else
           let packed = overflow_pack to_string conversation before;
               after = overflow_after packed
           in if after \<ge> before \<or> (pk_omitted_ids packed = [] \<and> pk_truncated_ids packed = [])
              then None
              else
                let messages = overflow_messages packed
                in Some (\<lparr>oc_omitted_messages = u32_of_len (length (pk_omitted_ids packed)),
                          oc_truncated_messages = u32_of_len (length (pk_truncated_ids packed)),
                          oc_estimated_tokens = u64_of_len after\<rparr>,
                         request\<lparr>mr_messages := messages,
                           mr_transient_tool_media :=
                             retain_attached_tool_media messages (mr_transient_tool_media request)\<rparr>))"

lemma compact_overflow_request_SomeD:
  assumes "compact_overflow_request ts request = Some (c, request')"
  shows "\<exists>packed. packed = overflow_pack ts (overflow_conversation (mr_messages request))
        (estimate_conversation_tokens ts (overflow_conversation (mr_messages request))) \<and>
      256 \<le> estimate_conversation_tokens ts (overflow_conversation (mr_messages request)) \<and>
      overflow_after packed < estimate_conversation_tokens ts (overflow_conversation (mr_messages request)) \<and>
      oc_estimated_tokens c = u64_of_len (overflow_after packed) \<and>
      request' = request\<lparr>mr_messages := overflow_messages packed,
        mr_transient_tool_media :=
          retain_attached_tool_media (overflow_messages packed) (mr_transient_tool_media request)\<rparr>"
proof -
  define before where
    "before = estimate_conversation_tokens ts (overflow_conversation (mr_messages request))"
  define packed where
    "packed = overflow_pack ts (overflow_conversation (mr_messages request)) before"
  define after where "after = overflow_after packed"
  from assms have "\<not> before < 256" "\<not> after \<ge> before" "oc_estimated_tokens c = u64_of_len after"
    "request' = request\<lparr>mr_messages := overflow_messages packed,
        mr_transient_tool_media :=
          retain_attached_tool_media (overflow_messages packed) (mr_transient_tool_media request)\<rparr>"
    unfolding compact_overflow_request_def Let_def before_def [symmetric] packed_def [symmetric]
      after_def [symmetric]
    by (auto split: if_splits)
  then show ?thesis
    unfolding packed_def after_def before_def by (simp add: not_le not_less)
qed

lemma compact_overflow_request_media:
  assumes "compact_overflow_request ts request = Some (c, request')"
  shows "mr_transient_tool_media request' =
    retain_attached_tool_media (mr_messages request') (mr_transient_tool_media request)"
  using compact_overflow_request_SomeD [OF assms] by force

section \<open>The retry loop\<close>

fun is_context_overflow :: "GatewayError \<Rightarrow> bool" where
  "is_context_overflow (GE_ContextOverflow _) = True"
| "is_context_overflow _ = False"

text \<open>What every round of the loop uses up: attached media, the one compaction, or an attempt.\<close>

definition retry_measure :: "u32 \<Rightarrow> u32 \<Rightarrow> bool \<Rightarrow> ModelRequest \<Rightarrow> nat" where
  "retry_measure max_retries attempt compacted request =
     (unat max_retries - unat attempt) + (if compacted then 0 else 1) +
     (if mr_transient_tool_media request = [] then 0 else 1)"

lemma retry_measure_attempt:
  assumes "attempt < max_retries"
  shows "unat max_retries - unat (attempt + 1) < unat max_retries - unat attempt"
proof -
  have "attempt \<noteq> - 1" using assms word_not_simps(3) by blast
  then have "unat (attempt + 1) = Suc (unat attempt)" by (rule unat_succ)
  with assms show ?thesis by (simp add: word_less_nat_alt)
qed

function stream_with_retry ::
  "(json \<Rightarrow> string) \<Rightarrow> u32 \<Rightarrow> (nat \<Rightarrow> ModelRequest \<Rightarrow> 'st ProviderPoll) \<Rightarrow> (nat \<Rightarrow> bool)
     \<Rightarrow> nat \<Rightarrow> u32 \<Rightarrow> bool \<Rightarrow> ModelRequest \<Rightarrow> (AgentError + 'st) \<times> ModelRequest" where
  "stream_with_retry to_string max_provider_retries poll sleep_cancelled k attempt context_compacted request =
     (case poll k request of
        Poll_Cancelled \<Rightarrow> (Err AE_Cancelled, request)
      | Poll_Response (Inr stream) \<Rightarrow> (Ok stream, request)
      | Poll_Response (Inl error) \<Rightarrow>
          if request_rejected error \<and> mr_transient_tool_media request \<noteq> []
          then stream_with_retry to_string max_provider_retries poll sleep_cancelled (k + 1) attempt
                 context_compacted (withdraw_tool_media request)
          else if is_context_overflow error \<and> \<not> context_compacted
          then (case compact_overflow_request to_string request of
                  None \<Rightarrow> (Err (AE_Gateway error), request)
                | Some (compaction, request') \<Rightarrow>
                    stream_with_retry to_string max_provider_retries poll sleep_cancelled (k + 1) attempt
                      True request')
          else if attempt < max_provider_retries \<and> fallback_reason error \<noteq> None
          then (if sleep_cancelled k then (Err AE_Cancelled, request)
                else stream_with_retry to_string max_provider_retries poll sleep_cancelled (k + 1)
                       (attempt + 1) context_compacted request)
          else (Err (AE_Gateway error), request))"
  by pat_completeness auto

termination
proof (relation "measure (\<lambda>(to_string, m, poll, sl, k, a, c, r). retry_measure m a c r)")
qed (auto simp: retry_measure_attempt retry_measure_def withdraw_tool_media_def
    retain_attached_tool_media_def compact_overflow_request_media split: if_splits)

declare stream_with_retry.simps [simp del]

section \<open>Lemmas\<close>

text \<open>The requests the loop can have sent: only messages and attached media change.\<close>

definition same_call :: "ModelRequest \<Rightarrow> ModelRequest \<Rightarrow> bool" where
  "same_call r r' =
     (mr_model r' = mr_model r \<and> mr_temperature r' = mr_temperature r \<and> mr_tools r' = mr_tools r \<and>
      mr_max_output_tokens r' = mr_max_output_tokens r \<and> mr_routing r' = mr_routing r)"

lemma same_call_trans: "same_call a b \<Longrightarrow> same_call b c \<Longrightarrow> same_call a c"
  by (simp add: same_call_def)

lemma same_call_refl [simp]: "same_call r r"
  by (simp add: same_call_def)

lemma withdraw_same_call [simp]: "same_call r (withdraw_tool_media r)"
  by (simp add: same_call_def withdraw_tool_media_def Let_def)

lemma compact_same_call: "compact_overflow_request ts r = Some (c, r') \<Longrightarrow> same_call r r'"
  using compact_overflow_request_SomeD [of ts r c r'] by (force simp: same_call_def)

text \<open>The rounds of the loop: it ends at once, or goes on with a request of smaller measure.\<close>

lemma stream_with_retry_round:
  obtains (stop) res where
      "\<And>poll' sl'. poll' k r = poll k r \<Longrightarrow> sl' k = sl k \<Longrightarrow>
         stream_with_retry ts mx poll' sl' k a c r = (res, r)"
      and "\<forall>e. res = Inl e \<longrightarrow> e = AE_Cancelled \<or> (\<exists>g. e = AE_Gateway g)"
    | (again) a' c' r' where
      "\<And>poll' sl'. poll' k r = poll k r \<Longrightarrow> sl' k = sl k \<Longrightarrow>
         stream_with_retry ts mx poll' sl' k a c r = stream_with_retry ts mx poll' sl' (k + 1) a' c' r'"
      and "retry_measure mx a' c' r' < retry_measure mx a c r" and "same_call r r'"
proof -
  note step = stream_with_retry.simps [of ts mx _ _ k a _ r]
  consider (ends) "\<not> (\<exists>e. poll k r = Poll_Response (Inl e))" | (error) e where "poll k r = Poll_Response (Inl e)"
    by blast
  then show thesis
  proof cases
    case ends
    show thesis
    proof (cases "poll k r")
      case (Poll_Response x)
      with ends obtain st where "x = Inr st" by (cases x) auto
      with Poll_Response show thesis by (intro stop [of "Inr st"]) (auto simp: step)
    qed (auto intro!: stop [of "Inl AE_Cancelled"] simp: step)
  next
    case error
    show thesis
    proof (cases "request_rejected e \<and> mr_transient_tool_media r \<noteq> []")
      case True
      with error show thesis
        by (intro again [of a c "withdraw_tool_media r"])
          (auto simp: step retry_measure_def withdraw_tool_media_def Let_def same_call_def)
    next
      case not_rejected: False
      show thesis
      proof (cases "is_context_overflow e \<and> \<not> c")
        case True
        show thesis
        proof (cases "compact_overflow_request ts r")
          case None
          with error not_rejected True show thesis
            by (intro stop [of "Inl (AE_Gateway e)"]) (auto simp: step)
        next
          case (Some cr)
          obtain oc r' where cr: "cr = (oc, r')" by (cases cr)
          have "retry_measure mx a True r' < retry_measure mx a c r"
            using True compact_overflow_request_media [OF Some [unfolded cr]]
            by (auto simp: retry_measure_def retain_attached_tool_media_def)
          with error not_rejected True Some cr compact_same_call [OF Some [unfolded cr]]
          show thesis by (intro again [of a True r']) (auto simp: step)
        qed
      next
        case not_overflow: False
        show thesis
        proof (cases "a < mx \<and> fallback_reason e \<noteq> None \<and> \<not> sl k")
          case True
          with error not_rejected not_overflow show thesis
            by (intro again [of "a + 1" c r])
              (auto simp: step retry_measure_def retry_measure_attempt)
        next
          case False
          with error not_rejected not_overflow show thesis
            by (intro stop [of "Inl (if a < mx \<and> fallback_reason e \<noteq> None then AE_Cancelled else AE_Gateway e)"])
              (auto simp: step)
        qed
      qed
    qed
  qed
qed

lemma stream_with_retry_same_call:
  "same_call r (snd (stream_with_retry ts mx poll sl k a c r))"
proof (induction "retry_measure mx a c r" arbitrary: k a c r rule: less_induct)
  case less
  show ?case
  proof (cases rule: stream_with_retry_round [where poll = poll and k = k and r = r and sl = sl and ts = ts and mx = mx and a = a and c = c])
    case (stop res)
    then show ?thesis by simp
  next
    case (again a' c' r')
    with less [of a' c' r' "k + 1"] show ?thesis by (auto intro: same_call_trans)
  qed
qed

lemma stream_with_retry_local:
  assumes "\<forall>i. k \<le> i \<and> i \<le> k + retry_measure mx a c r \<longrightarrow> poll' i = poll i \<and> sl' i = sl i"
  shows "stream_with_retry ts mx poll' sl' k a c r = stream_with_retry ts mx poll sl k a c r"
  using assms
proof (induction "retry_measure mx a c r" arbitrary: k a c r rule: less_induct)
  case less
  have here: "poll' k r = poll k r" "sl' k = sl k" using less.prems by auto
  show ?case
  proof (cases rule: stream_with_retry_round [where poll = poll and k = k and r = r and sl = sl and ts = ts and mx = mx and a = a and c = c])
    case (stop res)
    with here show ?thesis by simp
  next
    case (again a' c' r')
    have "stream_with_retry ts mx poll' sl' (k + 1) a' c' r' = stream_with_retry ts mx poll sl (k + 1) a' c' r'"
      by (rule less.hyps) (use again(2) less.prems in auto)
    with again(1) [of poll' sl'] again(1) [of poll sl] here show ?thesis by simp
  qed
qed

section \<open>Properties\<close>

text \<open>The retry loop asks the provider a bounded number of times, at most the configured number
  of retries plus three (the first attempt, one withdrawal of media, one context compaction): what
  the provider would answer later has no influence.  Whatever it does, model, temperature, tools,
  output limit and routing of the request stay the same.\<close>

theorem model_call_attempts_bounded:
  assumes "\<forall>i < unat max_retries + 3. poll' i = poll i \<and> sleeps' i = sleeps i"
  shows "stream_with_retry to_string max_retries poll' sleeps' 0 0 False request =
      stream_with_retry to_string max_retries poll sleeps 0 0 False request \<and>
    same_call request (snd (stream_with_retry to_string max_retries poll sleeps 0 0 False request))"
  using assms
  by (intro conjI stream_with_retry_local stream_with_retry_same_call)
    (auto simp: retry_measure_def split: if_splits)

definition demo_request :: ModelRequest where
  "demo_request =
     \<lparr>mr_model = ''m'', mr_temperature = F64_fin 0 0,
      mr_messages = [\<lparr>mm_role = ''user'', mm_content = JNull\<rparr>], mr_tools = [],
      mr_max_output_tokens = 10, mr_routing = None, mr_transient_tool_media = []\<rparr>"

theorem model_call_attempts_bounded_witness:
  "stream_with_retry (\<lambda>_. []) 2
       (\<lambda>i r. if i < 5 then Poll_Response (Inl (GE_Timeout ''t'')) else Poll_Response (Inr ''late''))
       (\<lambda>_. False) 0 0 False demo_request =
     stream_with_retry (\<lambda>_. []) 2 (\<lambda>i r. Poll_Response (Inl (GE_Timeout ''t''))) (\<lambda>_. False) 0 0 False demo_request"
  by (rule model_call_attempts_bounded [THEN conjunct1]) auto

text \<open>Compacting an overflowed request makes progress and keeps attribution: the compacted
  request is estimated strictly smaller than the original, only its messages and attached media
  change, and media stay only beside their intact result.\<close>

theorem overflow_compaction_shrinks:
  assumes "compact_overflow_request to_string request = Some (c, request')"
  shows "let before = estimate_conversation_tokens to_string (overflow_conversation (mr_messages request));
      packed = overflow_pack to_string (overflow_conversation (mr_messages request)) before
    in overflow_after packed < before \<and> pk_estimated_tokens packed < before \<and>
       mr_messages request' = overflow_messages packed \<and> same_call request request' \<and>
       mr_transient_tool_media request' =
         retain_attached_tool_media (mr_messages request') (mr_transient_tool_media request)"
  using compact_overflow_request_SomeD [OF assms] compact_same_call [OF assms]
    compact_overflow_request_media [OF assms]
  by (auto simp: Let_def overflow_after_def)

definition demo_to_string :: "json \<Rightarrow> string" where
  "demo_to_string v = (case v of JStr s \<Rightarrow> s | _ \<Rightarrow> replicate 2000 (CHR ''a''))"

lemma demo_overflow_compacts:
  "compact_overflow_request demo_to_string demo_request \<noteq> None"
proof -
  have a: "\<not> is_cont_byte (CHR ''a'')" by (simp add: is_cont_byte_def)
  have b: "estimate_conversation_tokens demo_to_string (overflow_conversation (mr_messages demo_request)) = 505"
    by (simp add: demo_request_def overflow_conversation_def estimate_conversation_tokens_def
        demo_to_string_def estimate_tokens_def div_ceil_def a)
      (simp add: chars_count_def is_cont_byte_def)
  have d: "decimal 0 = ''0''" by code_simp
  have "usize_mul 505 2 = 1010" "usize_mul 168 4 = 672" by (simp_all add: usize_mul_def)
  then have c: "overflow_pack demo_to_string (overflow_conversation (mr_messages demo_request)) 505 =
    \<lparr>pk_messages = [\<lparr>cm_id = ''overflow-0'', cm_role = ''user'', cm_content = JStr
        (''[message truncated to context budget] '' @ replicate 671 (CHR ''a'') @ ellipsis)\<rparr>],
     pk_compaction = None, pk_estimated_tokens = 183, pk_omitted_ids = [],
     pk_truncated_ids = [''overflow-0'']\<rparr>"
    by (simp add: overflow_pack_def pack_conversation_history_def Let_def normalize_message_def
        overflow_conversation_def demo_request_def demo_to_string_def estimate_conversation_tokens_def
        tool_call_ids_def truncate_chars_def estimate_tokens_def div_ceil_def a d)
      (simp add: chars_count_def is_cont_byte_def ellipsis_def)
  show ?thesis
    unfolding compact_overflow_request_def Let_def b c by (simp add: overflow_after_def)
qed

theorem overflow_compaction_shrinks_witness:
  "pk_estimated_tokens (overflow_pack demo_to_string (overflow_conversation (mr_messages demo_request))
      (estimate_conversation_tokens demo_to_string (overflow_conversation (mr_messages demo_request)))) <
   estimate_conversation_tokens demo_to_string (overflow_conversation (mr_messages demo_request))"
proof -
  obtain c r' where "compact_overflow_request demo_to_string demo_request = Some (c, r')"
    using demo_overflow_compacts by fast
  from overflow_compaction_shrinks [OF this] show ?thesis by (simp add: Let_def)
qed

text \<open>The estimate that a context compaction reports counts the summary twice: the packed estimate
  already includes the summary, and the runner adds its size again.\<close>

theorem overflow_estimate_counts_summary_twice:
  "overflow_after (pack_conversation_history to_string messages max_tokens per_message max_summary) =
     (let p = pack_conversation_history to_string messages max_tokens per_message max_summary in
      estimate_conversation_tokens to_string (pk_messages p) +
      (case pk_compaction p of None \<Rightarrow> 0
       | Some i \<Rightarrow> estimate_tokens (ci_content i) + div_ceil (chars_count (ci_content i)) 4))"
  using pack_history_spec [of to_string per_message messages max_tokens max_summary]
  by (auto simp: Let_def overflow_after_def split: option.splits)

end
