(* ===== verification/Wave_Source.thy ===== *)
theory Wave_Source
  imports SC_Prelude "HOL-Library.Multiset"
begin

text \<open>
  The interface that the agent loop relies on when it empties a queue batch by batch: the step
  queue hands out one batch of requests per model call, the tool schedule one wave of calls at a
  time.  A provider promises that it hands out a batch exactly when something is waiting, that a
  batch is never empty and that nothing is lost or duplicated.  From these laws it follows once
  and for all that emptying the queue ends and serves every waiting item exactly once.
\<close>

fun drain_n :: "('q \<Rightarrow> ('b \<times> 'q) option) \<Rightarrow> nat \<Rightarrow> 'q \<Rightarrow> 'b list \<times> 'q" where
  "drain_n take_next 0 q = ([], q)"
| "drain_n take_next (Suc n) q =
     (case take_next q of
        None \<Rightarrow> ([], q)
      | Some (b, q') \<Rightarrow> (let (bs, q'') = drain_n take_next n q' in (b # bs, q'')))"

locale wave_source =
  fixes waiting :: "'q \<Rightarrow> 'r list"
    and take_next :: "'q \<Rightarrow> ('b \<times> 'q) option"
    and contents :: "'b \<Rightarrow> 'r list"
  assumes take_None: "waiting q = [] \<Longrightarrow> take_next q = None"
    and take_Some: "waiting q \<noteq> [] \<Longrightarrow> \<exists>b q'. take_next q = Some (b, q')"
    and take_nonempty: "take_next q = Some (b, q') \<Longrightarrow> contents b \<noteq> []"
    and take_conserves: "take_next q = Some (b, q') \<Longrightarrow>
      mset (waiting q) = mset (contents b) + mset (waiting q')"
begin

lemma take_shrinks:
  assumes "take_next q = Some (b, q')"
  shows "length (waiting q') < length (waiting q)"
proof -
  have "length (waiting q) = length (contents b) + length (waiting q')"
    using take_conserves [OF assms] by (metis size_mset size_union)
  moreover have "0 < length (contents b)"
    using take_nonempty [OF assms] by simp
  ultimately show ?thesis by linarith
qed

lemma drain_serves_all:
  assumes "drain_n take_next n q = (bs, q')" and "length (waiting q) \<le> n"
  shows "waiting q' = [] \<and> mset (waiting q) = mset (concat (map contents bs))"
  using assms
proof (induction n arbitrary: q bs)
  case 0
  then show ?case by simp
next
  case (Suc n)
  show ?case
  proof (cases "take_next q")
    case None
    then have "waiting q = []" using take_Some by force
    with None Suc.prems show ?thesis by simp
  next
    case (Some p)
    obtain b q1 where p: "p = (b, q1)" by (cases p)
    obtain bs1 q2 where d: "drain_n take_next n q1 = (bs1, q2)" by fastforce
    from Suc.prems(1) Some p d have eqs: "bs = b # bs1" "q' = q2" by auto
    have "length (waiting q1) \<le> n"
      using take_shrinks Some p Suc.prems(2) by fastforce
    from Suc.IH [OF d [folded eqs(2)] this] eqs take_conserves [of q b q1] Some p
    show ?thesis by simp
  qed
qed

lemma drain_batches_bound:
  assumes "drain_n take_next n q = (bs, q')"
  shows "length bs \<le> length (waiting q)"
  using assms
proof (induction n arbitrary: q bs)
  case 0
  then show ?case by simp
next
  case (Suc n)
  then show ?case
    by (fastforce split: option.splits prod.splits dest: take_shrinks)
qed

end

end
