(* ===== verification/Step_Queue.thy ===== *)
theory Step_Queue
  imports Model_Gateway Wave_Source
begin

text \<open>
  \<open>crates/agent-core/src/step/request.rs\<close> and \<open>queue.rs\<close>: the requests that drive a model
  step, their admission and lifecycle, and the queue that folds them into batches.  The fresh
  identifier that \<open>StepRequest::new\<close> draws (\<open>Id::new\<close>, a ULID) is an argument.
\<close>

section \<open>Requests\<close>

datatype StepAdmission = NewTurn | ActiveOrNewTurn | ActiveOrNextTurn | ActiveTurnOnly

datatype AdmissionTarget = Target_ActiveTurn | Target_NewTurn | Target_NextTurn

datatype StepAdmissionError = ActiveTurnRequired

fun target :: "StepAdmission \<Rightarrow> bool \<Rightarrow> StepAdmissionError + AdmissionTarget" where
  "target NewTurn _ = Ok Target_NewTurn"
| "target ActiveOrNewTurn False = Ok Target_NewTurn"
| "target ActiveOrNextTurn False = Ok Target_NextTurn"
| "target ActiveTurnOnly False = Err ActiveTurnRequired"
| "target _ True = Ok Target_ActiveTurn"

datatype StepRequestState = Pending | Materialized | Aborted

record StepRequestOptions =
  so_admission :: StepAdmission
  so_mergeable :: bool
  so_turn_scoped :: bool

definition StepRequestOptions_default :: StepRequestOptions where
  "StepRequestOptions_default =
     \<lparr>so_admission = ActiveOrNextTurn, so_mergeable = False, so_turn_scoped = True\<rparr>"

record StepRequest =
  sr_id :: Id
  sr_kind :: string
  sr_admission :: StepAdmission
  sr_mergeable :: bool
  sr_turn_scoped :: bool
  sr_state :: StepRequestState
  sr_messages :: "ModelMessage list"

definition StepRequest_new ::
  "Id \<Rightarrow> string \<Rightarrow> ModelMessage list \<Rightarrow> StepRequestOptions \<Rightarrow> StepRequest" where
  "StepRequest_new i kind msgs opts =
     \<lparr>sr_id = i, sr_kind = kind, sr_admission = so_admission opts,
      sr_mergeable = so_mergeable opts, sr_turn_scoped = so_turn_scoped opts,
      sr_state = Pending, sr_messages = msgs\<rparr>"

definition continuation :: "Id \<Rightarrow> string \<Rightarrow> StepRequest" where
  "continuation i kind =
     StepRequest_new i kind []
       \<lparr>so_admission = ActiveTurnOnly, so_mergeable = False, so_turn_scoped = True\<rparr>"

definition is_aborted :: "StepRequest \<Rightarrow> bool" where
  "is_aborted r \<longleftrightarrow> sr_state r = Aborted"

definition abort :: "StepRequest \<Rightarrow> bool \<times> StepRequest" where
  "abort r = (if sr_state r \<noteq> Pending then (False, r) else (True, r\<lparr>sr_state := Aborted\<rparr>))"

definition materialize :: "StepRequest \<Rightarrow> ModelMessage list \<times> StepRequest" where
  "materialize r =
     (case sr_state r of
        Pending \<Rightarrow> (sr_messages r, r\<lparr>sr_state := Materialized\<rparr>)
      | Materialized \<Rightarrow> (sr_messages r, r)
      | Aborted \<Rightarrow> ([], r))"

section \<open>The queue\<close>

datatype QueuePosition = Head | Tail

record StepRequestBatch =
  driver :: StepRequest
  merged :: "StepRequest list"

definition batch_materialize :: "StepRequestBatch \<Rightarrow> ModelMessage list" where
  "batch_materialize b =
     fst (materialize (driver b)) @ concat (map (\<lambda>r. fst (materialize r)) (merged b))"

record StepRequestQueue =
  sq_items :: "StepRequest list"

definition sq_empty :: StepRequestQueue where
  "sq_empty = \<lparr>sq_items = []\<rparr>"

definition enqueue :: "StepRequest \<Rightarrow> QueuePosition \<Rightarrow> StepRequestQueue \<Rightarrow> StepRequestQueue" where
  "enqueue r pos q =
     (case pos of
        Head \<Rightarrow> q\<lparr>sq_items := r # sq_items q\<rparr>
      | Tail \<Rightarrow> q\<lparr>sq_items := sq_items q @ [r]\<rparr>)"

definition admit ::
  "StepRequest \<Rightarrow> bool \<Rightarrow> QueuePosition \<Rightarrow> StepRequestQueue
     \<Rightarrow> (StepAdmissionError + AdmissionTarget) \<times> StepRequestQueue" where
  "admit r has_active_turn pos q =
     (case target (sr_admission r) has_active_turn of
        Inl e \<Rightarrow> (Err e, q)
      | Inr t \<Rightarrow> (Ok t, enqueue r pos q))"

definition has_pending_requests :: "StepRequestQueue \<Rightarrow> bool" where
  "has_pending_requests q \<longleftrightarrow> list_ex (\<lambda>r. \<not> is_aborted r) (sq_items q)"

definition discard_aborted :: "StepRequestQueue \<Rightarrow> StepRequestQueue" where
  "discard_aborted q = q\<lparr>sq_items := filter (\<lambda>r. \<not> is_aborted r) (sq_items q)\<rparr>"

text \<open>The loop that splits the remaining items, in the order they are popped.\<close>

fun split_mergeable ::
  "StepRequest list \<Rightarrow> StepRequest list \<Rightarrow> StepRequest list
     \<Rightarrow> StepRequest list \<times> StepRequest list" where
  "split_mergeable [] merged_acc rest = (merged_acc, rest)"
| "split_mergeable (r # rs) merged_acc rest =
     (if sr_mergeable r then split_mergeable rs (merged_acc @ [r]) rest
      else split_mergeable rs merged_acc (rest @ [r]))"

definition take_next_batch ::
  "StepRequestQueue \<Rightarrow> StepRequestBatch option \<times> StepRequestQueue" where
  "take_next_batch q0 =
     (let q = discard_aborted q0 in
      if sq_items q = [] then (None, q)
      else
        let driver_index = (case position (\<lambda>r. \<not> sr_mergeable r) (sq_items q) of
                              Some i \<Rightarrow> i | None \<Rightarrow> 0)
        in case remove_at driver_index (sq_items q) of
             None \<Rightarrow> (None, q)
           | Some (d, others) \<Rightarrow>
               let (ms, rest) = split_mergeable others [] []
               in (Some \<lparr>driver = d, merged = ms\<rparr>, q\<lparr>sq_items := rest\<rparr>))"

definition abort_turn_scoped :: "StepRequestQueue \<Rightarrow> StepRequestQueue" where
  "abort_turn_scoped q =
     discard_aborted (q\<lparr>sq_items :=
       map (\<lambda>r. if sr_turn_scoped r then snd (abort r) else r) (sq_items q)\<rparr>)"

definition sq_drain :: "StepRequestQueue \<Rightarrow> StepRequest list \<times> StepRequestQueue" where
  "sq_drain q = (sq_items q, q\<lparr>sq_items := []\<rparr>)"

lemma split_mergeable_filter:
  "split_mergeable rs ms rest =
     (ms @ filter sr_mergeable rs, rest @ filter (\<lambda>r. \<not> sr_mergeable r) rs)"
  by (induction rs ms rest rule: split_mergeable.induct) auto

lemma take_next_batch_shrinks:
  assumes "take_next_batch q = (Some b, q')"
  shows "length (sq_items q') < length (sq_items q)"
proof -
  let ?live = "filter (\<lambda>r. \<not> is_aborted r) (sq_items q)"
  from assms obtain i d others where
    r: "remove_at i ?live = Some (d, others)" and
    q': "sq_items q' = filter (\<lambda>r. \<not> sr_mergeable r) others"
    by (auto simp: take_next_batch_def discard_aborted_def Let_def split_mergeable_filter
        split: if_splits option.splits)
  have "i < length ?live"
    using r remove_at_None [of ?live i] by (cases "i < length ?live") auto
  then have "length others < length ?live"
    using r by (auto simp: remove_at_Some)
  moreover have "length (sq_items q') \<le> length others"
    by (simp add: q')
  moreover have "length ?live \<le> length (sq_items q)"
    by simp
  ultimately show ?thesis by linarith
qed

function drain_materialized_messages ::
  "StepRequestQueue \<Rightarrow> ModelMessage list \<times> StepRequestQueue" where
  "drain_materialized_messages q =
     (case take_next_batch q of
        (None, q') \<Rightarrow> ([], q')
      | (Some b, q') \<Rightarrow>
          let (ms, q'') = drain_materialized_messages q' in (batch_materialize b @ ms, q''))"
  by pat_completeness auto
termination
  by (relation "measure (\<lambda>q. length (sq_items q))") (auto dest: take_next_batch_shrinks [OF sym])

declare drain_materialized_messages.simps [simp del]

section \<open>The reference description of a batch\<close>

definition live :: "StepRequestQueue \<Rightarrow> StepRequest list" where
  "live q = filter (\<lambda>r. \<not> is_aborted r) (sq_items q)"

text \<open>One driver (the first request that cannot be merged, or else the first request) with every
  other mergeable request; the drivers that stay keep their order.\<close>

definition batch_spec ::
  "StepRequest list \<Rightarrow> StepRequestBatch option \<times> StepRequest list" where
  "batch_spec rs =
     (case filter (\<lambda>r. \<not> sr_mergeable r) rs of
        d # ds \<Rightarrow> (Some \<lparr>driver = d, merged = filter sr_mergeable rs\<rparr>, ds)
      | [] \<Rightarrow> (case rs of [] \<Rightarrow> (None, []) | d # ms \<Rightarrow> (Some \<lparr>driver = d, merged = ms\<rparr>, [])))"

definition take_batch :: "StepRequestQueue \<Rightarrow> (StepRequestBatch \<times> StepRequestQueue) option" where
  "take_batch q =
     (case take_next_batch q of (None, _) \<Rightarrow> None | (Some b, q') \<Rightarrow> Some (b, q'))"

abbreviation batch_requests :: "StepRequestBatch \<Rightarrow> StepRequest list" where
  "batch_requests b \<equiv> driver b # merged b"

lemma filter_split_at_first:
  assumes "P x" and "\<forall>y \<in> set xs. \<not> P y"
  shows "filter P (xs @ x # ys) = x # filter P ys"
    and "filter (\<lambda>y. \<not> P y) (xs @ x # ys) = xs @ filter (\<lambda>y. \<not> P y) ys"
  using assms by (auto simp: filter_empty_conv filter_id_conv)

lemma take_next_batch_spec:
  "take_next_batch q = (fst (batch_spec (live q)), q\<lparr>sq_items := snd (batch_spec (live q))\<rparr>)"
proof (cases "position (\<lambda>r. \<not> sr_mergeable r) (live q)")
  case None
  then have all: "\<forall>r \<in> set (live q). sr_mergeable r"
    by (simp add: position_None_iff)
  show ?thesis
  proof (cases "live q")
    case Nil
    then show ?thesis
      by (simp add: take_next_batch_def discard_aborted_def batch_spec_def Let_def
          flip: live_def)
  next
    case (Cons d ms)
    with all None show ?thesis
      by (auto simp: take_next_batch_def discard_aborted_def batch_spec_def Let_def
          split_mergeable_filter filter_id_conv filter_empty_conv simp flip: live_def)
  qed
next
  case (Some i)
  from position_Some_split [OF Some] have i: "i < length (live q)"
      "\<not> sr_mergeable (live q ! i)" "\<forall>r \<in> set (take i (live q)). sr_mergeable r"
    by auto
  have split: "live q = take i (live q) @ live q ! i # drop (Suc i) (live q)"
    using i(1) by (rule id_take_nth_drop)
  have ds: "filter (\<lambda>r. \<not> sr_mergeable r) (live q)
      = live q ! i # filter (\<lambda>r. \<not> sr_mergeable r) (drop (Suc i) (live q))"
    by (subst split) (use i in \<open>simp add: filter_empty_conv\<close>)
  have ms: "filter sr_mergeable (live q)
      = filter sr_mergeable (take i (live q) @ drop (Suc i) (live q))"
    by (subst split) (use i in simp)
  have empty: "filter (\<lambda>r. \<not> sr_mergeable r) (take i (live q)) = []"
    using i(3) by (simp add: filter_empty_conv)
  have ne: "live q \<noteq> []" using i(1) by auto
  show ?thesis
    using Some i(1) ne
    by (simp add: take_next_batch_def discard_aborted_def Let_def split_mergeable_filter
        remove_at_Some batch_spec_def ds ms empty flip: live_def)
qed

lemma batch_spec_conserves:
  assumes "batch_spec rs = (Some b, rest)"
  shows "mset rs = mset (batch_requests b) + mset rest"
proof (cases "filter (\<lambda>r. \<not> sr_mergeable r) rs")
  case Nil
  with assms show ?thesis
    by (auto simp: batch_spec_def split: list.splits)
next
  case (Cons d ds)
  have "mset rs = mset (filter sr_mergeable rs) + mset (filter (\<lambda>r. \<not> sr_mergeable r) rs)"
    by (metis mset_filter multiset_partition)
  with Cons assms show ?thesis by (auto simp: batch_spec_def)
qed

lemma live_after_take:
  assumes "take_next_batch q = (b, q')"
  shows "live q' = snd (batch_spec (live q))"
proof -
  have "set (snd (batch_spec (live q))) \<subseteq> set (live q)"
  proof (cases "filter (\<lambda>r. \<not> sr_mergeable r) (live q)")
    case Nil
    then show ?thesis by (auto simp: batch_spec_def split: list.splits)
  next
    case (Cons d ds)
    then have "set (d # ds) \<subseteq> set (live q)" by (metis filter_is_subset)
    with Cons show ?thesis by (simp add: batch_spec_def)
  qed
  then have kept: "\<forall>r \<in> set (snd (batch_spec (live q))). \<not> is_aborted r"
    unfolding live_def [of q] by auto
  have "sq_items q' = snd (batch_spec (live q))"
    using assms by (auto simp: take_next_batch_spec [of q])
  with kept show ?thesis
    by (simp add: live_def [of q'] filter_id_conv)
qed

interpretation step_queue: wave_source live take_batch batch_requests
proof
  fix q b q'
  show "take_batch q = None" if "live q = []"
    using that by (simp add: take_batch_def take_next_batch_spec batch_spec_def)
  show "\<exists>b q'. take_batch q = Some (b, q')" if "live q \<noteq> []"
    using that by (auto simp: take_batch_def take_next_batch_spec batch_spec_def
        split: list.splits)
  assume t: "take_batch q = Some (b, q')"
  show "batch_requests b \<noteq> []" by simp
  from t have "take_next_batch q = (Some b, q')"
    by (auto simp: take_batch_def split: prod.splits option.splits)
  with live_after_take [of q "Some b" q'] batch_spec_conserves [of "live q" b "live q'"]
  show "mset (live q) = mset (batch_requests b) + mset (live q')"
    by (metis take_next_batch_spec fst_conv prod.collapse)
qed

lemma materialize_live: "\<not> is_aborted r \<Longrightarrow> fst (materialize r) = sr_messages r"
  by (cases "sr_state r") (auto simp: materialize_def is_aborted_def)

lemma batch_materialize_live:
  assumes "take_next_batch q = (Some b, q')"
  shows "batch_materialize b = concat (map sr_messages (batch_requests b))"
proof -
  from assms have "take_batch q = Some (b, q')"
    by (simp add: take_batch_def)
  then have "set (batch_requests b) \<subseteq> set (live q)"
    by (metis Un_upper1 set_mset_mset set_mset_union step_queue.take_conserves)
  then have "\<forall>r \<in> set (batch_requests b). \<not> is_aborted r"
    by (auto simp: live_def)
  then show ?thesis
    by (auto simp: batch_materialize_def materialize_live intro!: arg_cong [where f = concat])
qed

lemma mset_concat_map_cong: "mset xs = mset ys \<Longrightarrow> mset (concat (map f xs)) = mset (concat (map f ys))"
  by (simp add: mset_concat flip: sum_mset_sum_list)

lemma drain_step:
  assumes "take_next_batch q = (Some b, q')"
  shows "mset (concat (map sr_messages (live q))) =
    mset (batch_materialize b) + mset (concat (map sr_messages (live q')))"
proof -
  from assms have "mset (live q) = mset (batch_requests b @ live q')"
    using step_queue.take_conserves [of q b q'] by (simp add: take_batch_def)
  then have "mset (concat (map sr_messages (live q))) =
      mset (concat (map sr_messages (batch_requests b @ live q')))"
    by (rule mset_concat_map_cong)
  then show ?thesis
    by (simp only: batch_materialize_live [OF assms] map_append concat_append mset_append)
qed

lemma abort_scoped_live:
  "is_aborted (snd (abort r)) \<longleftrightarrow> sr_state r = Pending \<or> sr_state r = Aborted"
  by (auto simp: abort_def is_aborted_def)

lemma abort_keeps: "\<not> is_aborted (snd (abort r)) \<Longrightarrow> snd (abort r) = r"
  by (auto simp: abort_def is_aborted_def split: if_splits)

lemma filter_map_kept:
  "(\<And>x. P (f x) \<Longrightarrow> f x = x) \<Longrightarrow> filter P (map f xs) = filter (\<lambda>x. P (f x)) xs"
  by (induction xs) auto

lemma drain_materialized_spec:
  "\<exists>ms q'. drain_materialized_messages q = (ms, q') \<and> sq_items q' = [] \<and>
     mset ms = mset (concat (map sr_messages (live q)))"
proof (induction q rule: drain_materialized_messages.induct)
  case (1 q)
  obtain ob q' where t: "take_next_batch q = (ob, q')" by fastforce
  show ?case
  proof (cases ob)
    case None
    with t have "live q = []" "sq_items q' = []"
      by (auto simp: take_next_batch_spec batch_spec_def split: list.splits)
    with t None show ?thesis
      by (simp add: drain_materialized_messages.simps [of q])
  next
    case (Some b)
    with t have b: "take_next_batch q = (Some b, q')" by simp
    from 1 [OF b [symmetric] refl] obtain ms q'' where
      "drain_materialized_messages q' = (ms, q'')" "sq_items q'' = []"
      "mset ms = mset (concat (map sr_messages (live q')))"
      by auto
    with b drain_step [OF b] show ?thesis
      by (simp add: drain_materialized_messages.simps [of q])
  qed
qed

section \<open>Properties\<close>

text \<open>C27: The next batch is exactly the one the reference description gives: the first request
  that cannot be merged drives it and absorbs every mergeable request in order, the other drivers
  stay queued in first-in first-out order, and aborted requests are dropped.\<close>

theorem take_next_batch_correct:
  "take_next_batch q = (fst (batch_spec (live q)), q\<lparr>sq_items := snd (batch_spec (live q))\<rparr>)"
  by (rule take_next_batch_spec)

text \<open>Draining the queue ends, leaves nothing that could still run, and yields the messages
  of every request that was not aborted exactly once.\<close>

theorem drain_materializes_all:
  "\<exists>ms q'. drain_materialized_messages q = (ms, q') \<and> sq_items q' = [] \<and>
     mset ms = mset (concat (map sr_messages (live q)))"
  by (rule drain_materialized_spec)

text \<open>Cancelling a turn removes exactly the pending requests that belong to the turn (and the
  aborted ones); agent-scoped requests and requests that were already materialized stay, in
  order.\<close>

theorem abort_turn_scoped_keeps:
  "sq_items (abort_turn_scoped q) =
     filter (\<lambda>r. sr_state r = Materialized \<or> (sr_state r = Pending \<and> \<not> sr_turn_scoped r))
       (sq_items q)"
proof -
  let ?f = "\<lambda>r. if sr_turn_scoped r then snd (abort r) else r"
  have "sq_items (abort_turn_scoped q) = filter (\<lambda>r. \<not> is_aborted r) (map ?f (sq_items q))"
    by (simp add: abort_turn_scoped_def discard_aborted_def)
  also have "\<dots> = filter (\<lambda>r. \<not> is_aborted (?f r)) (sq_items q)"
    by (rule filter_map_kept) (auto simp: abort_keeps split: if_splits)
  also have "\<dots> = filter (\<lambda>r. sr_state r = Materialized \<or> (sr_state r = Pending \<and> \<not> sr_turn_scoped r))
      (sq_items q)"
  proof (rule filter_cong [OF refl])
    fix r
    show "(\<not> is_aborted (?f r)) \<longleftrightarrow>
        sr_state r = Materialized \<or> (sr_state r = Pending \<and> \<not> sr_turn_scoped r)"
      by (cases "sr_state r") (auto simp: abort_scoped_live, auto simp: is_aborted_def)
  qed
  finally show ?thesis .
qed

text \<open>Admission is checked before a request enters the queue: a request that needs an active
  turn is refused, with the queue unchanged, exactly when there is none; every other request is
  queued at the requested end.\<close>

theorem admit_outcome:
  "admit r active pos q =
     (if sr_admission r = ActiveTurnOnly \<and> \<not> active then (Err ActiveTurnRequired, q)
      else (Ok (if sr_admission r = NewTurn then Target_NewTurn
                else if active then Target_ActiveTurn
                else if sr_admission r = ActiveOrNewTurn then Target_NewTurn
                else Target_NextTurn),
            enqueue r pos q))"
  by (cases "sr_admission r"; cases active) (simp_all add: admit_def)

end
