(* ===== verification/Rust_Path.thy ===== *)
theory Rust_Path
  imports SC_Prelude
begin

text \<open>
  The components of a path as \<open>std::path::Path::components\<close> lists them on Unix: a leading
  separator is the root, repeated separators and \<open>.\<close> segments are dropped, except for a leading
  \<open>.\<close> of a relative path.
\<close>

datatype path_component = Prefix string | RootDir | CurDir | ParentDir | Normal string

fun split_char :: "char \<Rightarrow> string \<Rightarrow> string list" where
  "split_char d [] = [[]]"
| "split_char d (c # s) =
     (if c = d then [] # split_char d s
      else (case split_char d s of [] \<Rightarrow> [[c]] | x # xs \<Rightarrow> (c # x) # xs))"

definition segment_component :: "string \<Rightarrow> path_component" where
  "segment_component s = (if s = ''..'' then ParentDir else Normal s)"

definition components :: "string \<Rightarrow> path_component list" where
  "components p =
     (let segs = split_char CHR ''/'' p in
      (if starts_with p ''/'' then [RootDir]
       else if hd segs = ''.'' then [CurDir] else [])
      @ map segment_component (filter (\<lambda>s. s \<noteq> [] \<and> s \<noteq> ''.'') segs))"

text \<open>The path prints back a component (\<open>as_os_str\<close>).\<close>

fun component_str :: "path_component \<Rightarrow> string" where
  "component_str (Prefix s) = s"
| "component_str RootDir = ''/''"
| "component_str CurDir = ''.''"
| "component_str ParentDir = ''..''"
| "component_str (Normal s) = s"

lemma split_char_nonempty [simp]: "split_char d s \<noteq> []"
  by (induction s) (auto split: list.splits)

lemma split_char_no_sep: "x \<in> set (split_char d s) \<Longrightarrow> d \<notin> set x"
proof (induction s arbitrary: x)
  case Nil
  then show ?case by simp
next
  case (Cons c s)
  show ?case
  proof (cases "c = d")
    case True
    with Cons show ?thesis by auto
  next
    case False
    obtain y ys where "split_char d s = y # ys"
      by (cases "split_char d s") auto
    with Cons False show ?thesis by auto
  qed
qed

lemma split_char_plain: "d \<notin> set s \<Longrightarrow> split_char d s = [s]"
  by (induction s) auto

lemma split_char_append:
  "d \<notin> set x \<Longrightarrow> split_char d (x @ d # s) = x # split_char d s"
  by (induction x) auto

lemma split_char_join:
  assumes "xs \<noteq> []" and "\<forall>x \<in> set xs. d \<notin> set x"
  shows "split_char d (join [d] xs) = xs"
  using assms
proof (induction xs)
  case Nil
  then show ?case by simp
next
  case (Cons x xs)
  then show ?case
    by (cases xs) (auto simp: split_char_plain split_char_append)
qed

lemma Normal_in_components:
  "Normal s \<in> set (components p) \<Longrightarrow> s \<noteq> [] \<and> s \<noteq> ''.'' \<and> s \<noteq> ''..'' \<and> CHR ''/'' \<notin> set s"
  by (auto simp: components_def Let_def segment_component_def
      dest: split_char_no_sep split: if_splits)

lemma Prefix_notin_components: "Prefix s \<notin> set (components p)"
  by (auto simp: components_def Let_def segment_component_def split: if_splits)

end
