(* ===== verification/Tool_Schedule.thy ===== *)
theory Tool_Schedule
  imports Rust_Path Wave_Source
begin

text \<open>
  \<open>crates/agent-core/src/tool/resource.rs\<close> and \<open>scheduler.rs\<close>: the resources a tool call
  claims, when two claims conflict, and the schedule that releases waves of calls that may run at
  the same time.
\<close>

section \<open>Resource claims\<close>

datatype ResourceMode = Read | Write | ReadWrite | Search

fun writes :: "ResourceMode \<Rightarrow> bool" where
  "writes Write = True"
| "writes ReadWrite = True"
| "writes _ = False"

datatype ResourceNamespace = Workspace | Process | Network | Mcp | Artifact | External | Global

record ResourceClaim =
  rc_namespace :: ResourceNamespace
  rc_key :: string
  rc_mode :: ResourceMode
  rc_recursive :: bool

datatype ResourceClaimError = OutsideWorkspace

definition global_exclusive :: ResourceClaim where
  "global_exclusive =
     \<lparr>rc_namespace = Global, rc_key = ''*'', rc_mode = ReadWrite, rc_recursive = True\<rparr>"

fun workspace_parts :: "path_component list \<Rightarrow> ResourceClaimError + string list" where
  "workspace_parts [] = Ok []"
| "workspace_parts (CurDir # cs) = workspace_parts cs"
| "workspace_parts (Normal s # cs) = and_then (workspace_parts cs) (\<lambda>parts. Ok (s # parts))"
| "workspace_parts (_ # cs) = Err OutsideWorkspace"

definition workspace_claim ::
  "string \<Rightarrow> ResourceMode \<Rightarrow> bool \<Rightarrow> ResourceClaimError + ResourceClaim" where
  "workspace_claim path mode recursive =
     and_then (workspace_parts (components path)) (\<lambda>parts.
       Ok \<lparr>rc_namespace = Workspace, rc_key = (if parts = [] then ''.'' else join ''/'' parts),
            rc_mode = mode, rc_recursive = recursive\<rparr>)"

definition contains_key :: "string \<Rightarrow> string \<Rightarrow> bool" where
  "contains_key parent child \<longleftrightarrow>
     parent = ''.'' \<or>
     (case strip_prefix child parent of None \<Rightarrow> False | Some suffix \<Rightarrow> starts_with suffix ''/'')"

definition keys_overlap :: "ResourceClaim \<Rightarrow> ResourceClaim \<Rightarrow> bool" where
  "keys_overlap left right \<longleftrightarrow>
     rc_key left = rc_key right
     \<or> (rc_recursive left \<and> contains_key (rc_key left) (rc_key right))
     \<or> (rc_recursive right \<and> contains_key (rc_key right) (rc_key left))"

definition conflicts_with :: "ResourceClaim \<Rightarrow> ResourceClaim \<Rightarrow> bool" where
  "conflicts_with a b =
     (if rc_namespace a = Global \<or> rc_namespace b = Global then True
      else if rc_namespace a \<noteq> rc_namespace b \<or> \<not> (writes (rc_mode a) \<or> writes (rc_mode b))
      then False
      else keys_overlap a b)"

section \<open>The schedule\<close>

record 'a ScheduledTool =
  st_value :: 'a
  st_claims :: "ResourceClaim list"

definition normalized_claims :: "ResourceClaim list \<Rightarrow> ResourceClaim list" where
  "normalized_claims claims = (if claims = [] then [global_exclusive] else claims)"

definition ScheduledTool_new :: "'a \<Rightarrow> ResourceClaim list \<Rightarrow> 'a ScheduledTool" where
  "ScheduledTool_new v claims = \<lparr>st_value = v, st_claims = normalized_claims claims\<rparr>"

record 'a ToolSchedule =
  ts_waiting :: "'a ScheduledTool list"

definition ts_empty :: "'a ToolSchedule" where
  "ts_empty = \<lparr>ts_waiting = []\<rparr>"

definition ts_push :: "'a \<Rightarrow> ResourceClaim list \<Rightarrow> 'a ToolSchedule \<Rightarrow> 'a ToolSchedule" where
  "ts_push v claims s = s\<lparr>ts_waiting := ts_waiting s @ [ScheduledTool_new v claims]\<rparr>"

definition ts_is_empty :: "'a ToolSchedule \<Rightarrow> bool" where
  "ts_is_empty s \<longleftrightarrow> ts_waiting s = []"

definition ts_drain :: "'a ToolSchedule \<Rightarrow> 'a ScheduledTool list \<times> 'a ToolSchedule" where
  "ts_drain s = (ts_waiting s, s\<lparr>ts_waiting := []\<rparr>)"

definition tools_conflict :: "'a ScheduledTool \<Rightarrow> 'a ScheduledTool \<Rightarrow> bool" where
  "tools_conflict left right \<longleftrightarrow>
     list_ex (\<lambda>l. list_ex (conflicts_with l) (st_claims right)) (st_claims left)"

fun wave_loop ::
  "'a ScheduledTool list \<Rightarrow> 'a ScheduledTool list \<Rightarrow> 'a ScheduledTool list
     \<Rightarrow> 'a ScheduledTool list \<times> 'a ScheduledTool list" where
  "wave_loop [] ready blocked = (ready, blocked)"
| "wave_loop (c # cs) ready blocked =
     (let conflicts_with_running = list_ex (tools_conflict c) ready;
          passes_conflicting_waiter = list_ex (tools_conflict c) blocked
      in if conflicts_with_running \<or> passes_conflicting_waiter
         then wave_loop cs ready (blocked @ [c])
         else wave_loop cs (ready @ [c]) blocked)"

definition take_ready_wave :: "'a ToolSchedule \<Rightarrow> 'a ScheduledTool list \<times> 'a ToolSchedule" where
  "take_ready_wave s =
     (let (ready, blocked) = wave_loop (ts_waiting s) [] [] in (ready, s\<lparr>ts_waiting := blocked\<rparr>))"

section \<open>Claims: an abstract reading\<close>

text \<open>A claim covers its own key and, when it is recursive, every key below it.\<close>

definition covers :: "ResourceClaim \<Rightarrow> string \<Rightarrow> bool" where
  "covers c p \<longleftrightarrow> p = rc_key c \<or> (rc_recursive c \<and> contains_key (rc_key c) p)"

lemma contains_key_iff: "contains_key a b \<longleftrightarrow> a = ''.'' \<or> (\<exists>t. b = a @ ''/'' @ t)"
proof (cases "strip_prefix b a")
  case None
  then show ?thesis
    using strip_prefix_append [of a] by (auto simp: contains_key_def)
next
  case (Some t)
  then show ?thesis
    by (auto simp: contains_key_def strip_prefix_Some_iff starts_with_iff)
qed

lemma conflicts_with_sym: "conflicts_with a b \<longleftrightarrow> conflicts_with b a"
  by (auto simp: conflicts_with_def keys_overlap_def)

lemma tools_conflict_iff:
  "tools_conflict x y \<longleftrightarrow> (\<exists>a \<in> set (st_claims x). \<exists>b \<in> set (st_claims y). conflicts_with a b)"
  by (auto simp: tools_conflict_def list_ex_iff)

lemma tools_conflict_sym: "tools_conflict x y \<longleftrightarrow> tools_conflict y x"
  unfolding tools_conflict_iff using conflicts_with_sym by blast

text \<open>Two keys that both contain a path are comparable.\<close>

lemma slash_prefix_comparable:
  assumes "a @ ''/'' @ s = b @ ''/'' @ t"
  shows "a = b \<or> (\<exists>u. b = a @ ''/'' @ u) \<or> (\<exists>u. a = b @ ''/'' @ u)"
proof -
  from assms obtain us where "a = b @ us \<and> us @ ''/'' @ s = ''/'' @ t
      \<or> a @ us = b \<and> ''/'' @ s = us @ ''/'' @ t"
    by (auto simp: append_eq_append_conv2)
  then show ?thesis
    by (cases us) auto
qed

lemma keys_overlap_iff_covers: "keys_overlap a b \<longleftrightarrow> (\<exists>p. covers a p \<and> covers b p)"
proof
  assume "keys_overlap a b"
  then show "\<exists>p. covers a p \<and> covers b p"
    by (auto simp: keys_overlap_def covers_def)
next
  assume "\<exists>p. covers a p \<and> covers b p"
  then obtain p where p: "covers a p" "covers b p" by blast
  then consider
      "rc_key a = p \<or> rc_key b = p"
    | "rc_recursive a" "rc_recursive b" "contains_key (rc_key a) p" "contains_key (rc_key b) p"
    by (auto simp: covers_def)
  then show "keys_overlap a b"
  proof cases
    case 1
    with p show ?thesis by (auto simp: covers_def keys_overlap_def)
  next
    case 2
    show ?thesis
    proof (cases "rc_key a = ''.'' \<or> rc_key b = ''.''")
      case True
      with 2 show ?thesis by (auto simp: keys_overlap_def contains_key_def)
    next
      case False
      with 2 obtain s t where "rc_key a @ ''/'' @ s = rc_key b @ ''/'' @ t"
        by (auto simp: contains_key_iff)
      from slash_prefix_comparable [OF this] 2(1,2) show ?thesis
        by (auto simp: keys_overlap_def contains_key_iff)
    qed
  qed
qed

section \<open>Waves: the reference description\<close>

text \<open>The calls that conflict with no earlier waiting call, and the others, in order.\<close>

fun free_of :: "'a ScheduledTool list \<Rightarrow> 'a ScheduledTool list \<Rightarrow> 'a ScheduledTool list" where
  "free_of before [] = []"
| "free_of before (c # cs) =
     (if list_ex (tools_conflict c) before then free_of (before @ [c]) cs
      else c # free_of (before @ [c]) cs)"

fun held_by :: "'a ScheduledTool list \<Rightarrow> 'a ScheduledTool list \<Rightarrow> 'a ScheduledTool list" where
  "held_by before [] = []"
| "held_by before (c # cs) =
     (if list_ex (tools_conflict c) before then c # held_by (before @ [c]) cs
      else held_by (before @ [c]) cs)"

lemma free_of_cong: "set b = set b' \<Longrightarrow> free_of b cs = free_of b' cs"
  by (induction cs arbitrary: b b') (auto simp: list_ex_iff)

lemma held_by_cong: "set b = set b' \<Longrightarrow> held_by b cs = held_by b' cs"
  by (induction cs arbitrary: b b') (auto simp: list_ex_iff)

lemma wave_loop_spec:
  assumes "set b = set ready \<union> set blocked"
  shows "wave_loop cs ready blocked = (ready @ free_of b cs, blocked @ held_by b cs)"
  using assms
proof (induction cs ready blocked arbitrary: b rule: wave_loop.induct)
  case (1 ready blocked)
  then show ?case by simp
next
  case (2 c cs ready blocked)
  have test: "list_ex (tools_conflict c) b \<longleftrightarrow>
      list_ex (tools_conflict c) ready \<or> list_ex (tools_conflict c) blocked"
    using "2.prems" by (auto simp: list_ex_iff)
  show ?case
    using "2.IH" [of _ _ "b @ [c]"] "2.prems" test by (auto simp: Let_def)
qed

lemma take_ready_wave_spec:
  "take_ready_wave s = (free_of [] (ts_waiting s), s\<lparr>ts_waiting := held_by [] (ts_waiting s)\<rparr>)"
  using wave_loop_spec [of "[]" "[]" "[]" "ts_waiting s"] by (simp add: take_ready_wave_def)

lemma mset_free_held: "mset cs = mset (free_of b cs) + mset (held_by b cs)"
  by (induction cs arbitrary: b) auto

lemma set_free_of: "set (free_of b cs) \<subseteq> set cs"
  by (induction b cs rule: free_of.induct) auto

lemma set_held_by: "set (held_by b cs) \<subseteq> set cs"
  by (induction b cs rule: held_by.induct) auto

lemma free_of_no_conflict:
  "x \<in> set (free_of b cs) \<Longrightarrow> y \<in> set b \<Longrightarrow> \<not> tools_conflict x y"
  by (induction b cs rule: free_of.induct) (auto simp: list_ex_iff split: if_splits)

lemma free_of_pairwise:
  "sorted_wrt (\<lambda>x y. \<not> tools_conflict y x) (free_of b cs)"
  by (induction cs arbitrary: b) (auto dest: free_of_no_conflict)

definition take_wave ::
  "'a ToolSchedule \<Rightarrow> ('a ScheduledTool list \<times> 'a ToolSchedule) option" where
  "take_wave s = (if ts_is_empty s then None else Some (take_ready_wave s))"

interpretation tool_schedule: wave_source ts_waiting take_wave "\<lambda>wave. wave"
proof
  fix q :: "'a ToolSchedule" and b q'
  show "take_wave q = None" if "ts_waiting q = []"
    using that by (simp add: take_wave_def ts_is_empty_def)
  show "\<exists>b q'. take_wave q = Some (b, q')" if "ts_waiting q \<noteq> []"
    using that by (auto simp: take_wave_def ts_is_empty_def take_ready_wave_spec)
  assume t: "take_wave q = Some (b, q')"
  show "b \<noteq> []"
    using t by (cases "ts_waiting q")
      (auto simp: take_wave_def ts_is_empty_def take_ready_wave_spec split: if_splits)
  show "mset (ts_waiting q) = mset b + mset (ts_waiting q')"
    using t mset_free_held [of "ts_waiting q" "[]"]
    by (auto simp: take_wave_def take_ready_wave_spec split: if_splits)
qed

lemma free_of_append: "free_of b (xs @ ys) = free_of b xs @ free_of (b @ xs) ys"
  by (induction b xs rule: free_of.induct) auto

lemma held_by_append: "held_by b (xs @ ys) = held_by b xs @ held_by (b @ xs) ys"
  by (induction b xs rule: held_by.induct) auto

lemma distinct_held_by: "distinct cs \<Longrightarrow> distinct (held_by b cs)"
  by (induction b cs rule: held_by.induct) (auto dest: subsetD [OF set_held_by])

lemma free_of_index:
  "free_of b cs =
     map ((!) cs) (filter (\<lambda>j. \<not> list_ex (tools_conflict (cs ! j)) (b @ take j cs)) [0..<length cs])"
proof (induction cs arbitrary: b)
  case Nil
  then show ?case by simp
next
  case (Cons c cs)
  have "[0..<length (c # cs)] = 0 # map Suc [0..<length cs]"
    by (simp add: map_Suc_upt upt_conv_Cons del: upt_Suc)
  then show ?case
    by (simp add: Cons.IH [of "b @ [c]"] filter_map comp_def del: upt_Suc)
qed

text \<open>A later call that conflicts with an earlier one is held back with it or behind it.\<close>

lemma later_conflict_not_free:
  assumes "distinct (us @ x # vs @ y # ws)" and "tools_conflict y x"
  shows "y \<notin> set (free_of [] (us @ x # vs @ y # ws))"
  using assms set_free_of [of _ us] set_free_of [of _ vs] set_free_of [of _ ws]
  by (auto simp: free_of_append dest!: subsetD)

lemma held_keeps_order:
  assumes "tools_conflict y x" and "list_ex (tools_conflict x) us"
  shows "\<exists>us' vs' ws'. held_by [] (us @ x # vs @ y # ws) = us' @ x # vs' @ y # ws'"
  using assms by (auto simp: held_by_append)

lemma first_wave_or_blocked:
  assumes "x \<notin> set (free_of [] (us @ x # zs))"
  shows "list_ex (tools_conflict x) us"
  using assms by (auto simp: free_of_append split: if_splits)

section \<open>Properties\<close>

text \<open>C26: The conflict test is exact: two claims conflict if and only if one of them is global, or
  they are in the same namespace, one of them writes, and there is a key that both cover.\<close>

theorem conflicts_with_exact:
  "conflicts_with a b \<longleftrightarrow>
     rc_namespace a = Global \<or> rc_namespace b = Global \<or>
     (rc_namespace a = rc_namespace b \<and> (writes (rc_mode a) \<or> writes (rc_mode b)) \<and>
      (\<exists>p. covers a p \<and> covers b p))"
  by (auto simp: conflicts_with_def simp flip: keys_overlap_iff_covers)

lemma workspace_parts_Ok:
  "workspace_parts cs = Inr parts \<Longrightarrow>
     (\<forall>s \<in> set parts. Normal s \<in> set cs) \<and> RootDir \<notin> set cs \<and> ParentDir \<notin> set cs"
  by (induction cs arbitrary: parts rule: workspace_parts.induct) auto

lemma workspace_parts_Err:
  "workspace_parts cs = Inl e \<longleftrightarrow>
     list_ex (\<lambda>c. c = RootDir \<or> c = ParentDir \<or> (\<exists>s. c = Prefix s)) cs"
  by (cases e; induction cs rule: workspace_parts.induct) (auto simp: and_then_Err_iff)

text \<open>A workspace claim is refused exactly for an absolute path or one with a parent
  component, and the key of an accepted claim is the workspace itself or a relative path whose
  segments are all proper names.\<close>

theorem workspace_claim_confined:
  "(workspace_claim path mode rec = Err OutsideWorkspace \<longleftrightarrow>
      RootDir \<in> set (components path) \<or> ParentDir \<in> set (components path)) \<and>
   (\<forall>c. workspace_claim path mode rec = Ok c \<longrightarrow>
      rc_namespace c = Workspace \<and> rc_mode c = mode \<and> rc_recursive c = rec \<and>
      (rc_key c = ''.'' \<or> {[], ''.'', ''..''} \<inter> set (split_char CHR ''/'' (rc_key c)) = {}))"
proof (intro conjI allI impI)
  show "workspace_claim path mode rec = Err OutsideWorkspace \<longleftrightarrow>
      RootDir \<in> set (components path) \<or> ParentDir \<in> set (components path)"
    using Prefix_notin_components [of _ path]
    by (auto simp: workspace_claim_def and_then_Err_iff workspace_parts_Err list_ex_iff)
next
  fix c
  assume "workspace_claim path mode rec = Ok c"
  then obtain parts where parts: "workspace_parts (components path) = Inr parts"
    and c: "c = \<lparr>rc_namespace = Workspace, rc_key = (if parts = [] then ''.'' else join ''/'' parts),
                rc_mode = mode, rc_recursive = rec\<rparr>"
    by (auto simp: workspace_claim_def)
  have names: "\<forall>s \<in> set parts. s \<noteq> [] \<and> s \<noteq> ''.'' \<and> s \<noteq> ''..'' \<and> CHR ''/'' \<notin> set s"
    using workspace_parts_Ok [OF parts] Normal_in_components by blast
  show "rc_namespace c = Workspace" "rc_mode c = mode" "rc_recursive c = rec"
    by (simp_all add: c)
  show "rc_key c = ''.'' \<or> {[], ''.'', ''..''} \<inter> set (split_char CHR ''/'' (rc_key c)) = {}"
    using names split_char_join [of parts "CHR ''/''"] by (cases "parts = []") (auto simp: c)
qed

theorem workspace_claim_confined_witness:
  "workspace_claim ''./src/lib.rs'' Write False =
     Ok \<lparr>rc_namespace = Workspace, rc_key = ''src/lib.rs'', rc_mode = Write, rc_recursive = False\<rparr>
   \<and> workspace_claim ''../secret'' Write False = Err OutsideWorkspace
   \<and> {[], ''.'', ''..''} \<inter> set (split_char CHR ''/'' ''src/lib.rs'') = {}"
proof -
  have ok: "workspace_claim ''./src/lib.rs'' Write False =
      Ok \<lparr>rc_namespace = Workspace, rc_key = ''src/lib.rs'', rc_mode = Write, rc_recursive = False\<rparr>"
    by code_simp
  have "ParentDir \<in> set (components ''../secret'')" by code_simp
  with workspace_claim_confined [of "''../secret''" Write False]
    workspace_claim_confined [of "''./src/lib.rs''" Write False] ok
  show ?thesis by auto
qed

text \<open>A wave consists of exactly the waiting calls that conflict with no call queued before
  them, in order, and the calls held back stay queued in order; so no reader overtakes an earlier
  conflicting writer.\<close>

theorem take_ready_wave_exact:
  "take_ready_wave s =
     (let w = ts_waiting s;
          free = (\<lambda>j. \<not> list_ex (tools_conflict (w ! j)) (take j w))
      in (map ((!) w) (filter free [0..<length w]),
          s\<lparr>ts_waiting := held_by [] w\<rparr>)) \<and>
   mset (ts_waiting s) = mset (fst (take_ready_wave s)) + mset (ts_waiting (snd (take_ready_wave s)))"
  using free_of_index [of "[]" "ts_waiting s"] mset_free_held [of "ts_waiting s" "[]"]
  by (simp add: take_ready_wave_spec Let_def)

text \<open>The calls of one wave are pairwise free of conflicts, in either order.\<close>

theorem wave_conflict_free:
  assumes "fst (take_ready_wave s) = us @ x # vs @ y # ws"
  shows "\<not> tools_conflict x y \<and> \<not> tools_conflict y x"
proof -
  have "sorted_wrt (\<lambda>x y. \<not> tools_conflict y x) (us @ x # vs @ y # ws)"
    using free_of_pairwise [of "[]" "ts_waiting s"] assms by (simp add: take_ready_wave_spec)
  then show ?thesis
    by (auto simp: sorted_wrt_append tools_conflict_sym)
qed

theorem wave_conflict_free_witness:
  "let c = (\<lambda>k m. \<lparr>rc_namespace = Workspace, rc_key = k, rc_mode = m, rc_recursive = False\<rparr>);
       s = ts_push (3::nat) [c ''a'' Write] (ts_push 2 [c ''b'' Write] (ts_push 1 [c ''a'' Read] ts_empty));
       w = fst (take_ready_wave s)
   in map st_value w = [1, 2] \<and> \<not> tools_conflict (w ! 0) (w ! 1)"
proof -
  let ?c = "\<lambda>k m. \<lparr>rc_namespace = Workspace, rc_key = k, rc_mode = m, rc_recursive = False\<rparr>"
  let ?s = "ts_push (3::nat) [?c ''a'' Write] (ts_push 2 [?c ''b'' Write] (ts_push 1 [?c ''a'' Read] ts_empty))"
  have w: "fst (take_ready_wave ?s) = [] @ ScheduledTool_new 1 [?c ''a'' Read] # [] @
      ScheduledTool_new 2 [?c ''b'' Write] # []"
    by code_simp
  from wave_conflict_free [OF this] w show ?thesis
    by (simp add: Let_def ScheduledTool_new_def)
qed

text \<open>Running the waves one after the other ends with an empty schedule after at most one wave
  per call and executes every queued call exactly once.\<close>

theorem waves_execute_every_call:
  "\<exists>waves s'. drain_n take_wave (length (ts_waiting s)) s = (waves, s') \<and> ts_waiting s' = [] \<and>
     mset (concat waves) = mset (ts_waiting s) \<and> length waves \<le> length (ts_waiting s)"
proof -
  obtain waves s' where d: "drain_n take_wave (length (ts_waiting s)) s = (waves, s')"
    by fastforce
  with tool_schedule.drain_serves_all [OF d] tool_schedule.drain_batches_bound [OF d]
  show ?thesis by simp
qed

text \<open>C25: Conflicting calls execute in the order the model asked for them: a call runs in a
  strictly later wave than every earlier call it conflicts with.\<close>

theorem conflicting_calls_keep_fifo_order:
  assumes "drain_n take_wave n s = (waves, s')"
    and "distinct (ts_waiting s)" and "ts_waiting s = us @ x # vs @ y # ws"
    and "tools_conflict y x" and "k < length waves" and "y \<in> set (waves ! k)"
  shows "\<exists>i<k. x \<in> set (waves ! i)"
  using assms
proof (induction n arbitrary: s waves k us vs ws)
  case 0
  then show ?case by simp
next
  case (Suc n)
  let ?w = "us @ x # vs @ y # ws"
  let ?s1 = "s\<lparr>ts_waiting := held_by [] ?w\<rparr>"
  have take: "take_wave s = Some (free_of [] ?w, ?s1)"
    using Suc.prems(3) by (simp add: take_wave_def ts_is_empty_def take_ready_wave_spec)
  obtain rest where rest: "drain_n take_wave n ?s1 = (rest, s')" "waves = free_of [] ?w # rest"
    using Suc.prems(1) take by (auto split: prod.splits)
  have "y \<notin> set (free_of [] ?w)"
    using later_conflict_not_free Suc.prems(2-4) by metis
  with Suc.prems(5,6) rest obtain k' where k: "k = Suc k'" "k' < length rest" "y \<in> set (rest ! k')"
    by (cases k) auto
  show ?case
  proof (cases "x \<in> set (free_of [] ?w)")
    case True
    with k rest show ?thesis by (intro exI [of _ 0]) simp
  next
    case False
    from held_keeps_order [OF Suc.prems(4) first_wave_or_blocked [OF False]]
    obtain us' vs' ws' where "held_by [] ?w = us' @ x # vs' @ y # ws'" by blast
    moreover have "distinct (held_by [] ?w)"
      using Suc.prems(2,3) distinct_held_by by metis
    ultimately obtain i where "i < k'" "x \<in> set (rest ! i)"
      using Suc.IH [OF rest(1), of us' vs' ws' k'] Suc.prems(4) k by auto
    with k rest show ?thesis by (intro exI [of _ "Suc i"]) simp
  qed
qed

theorem conflicting_calls_keep_fifo_order_witness:
  "let c = (\<lambda>k m. \<lparr>rc_namespace = Workspace, rc_key = k, rc_mode = m, rc_recursive = False\<rparr>);
       s = ts_push (2::nat) [c ''a'' Read] (ts_push 1 [c ''a'' Write] ts_empty);
       waves = fst (drain_n take_wave 2 s)
   in map (map st_value) waves = [[1], [2]] \<and> (\<exists>i<1. ScheduledTool_new 1 [c ''a'' Write] \<in> set (waves ! i))"
proof -
  let ?c = "\<lambda>k m. \<lparr>rc_namespace = Workspace, rc_key = k, rc_mode = m, rc_recursive = False\<rparr>"
  let ?x = "ScheduledTool_new (1::nat) [?c ''a'' Write]"
  let ?y = "ScheduledTool_new (2::nat) [?c ''a'' Read]"
  let ?s = "ts_push (2::nat) [?c ''a'' Read] (ts_push 1 [?c ''a'' Write] ts_empty)"
  have d: "drain_n take_wave 2 ?s = ([[?x], [?y]], ts_empty)" by code_simp
  have c: "tools_conflict ?y ?x" by code_simp
  have w: "ts_waiting ?s = [] @ ?x # [] @ ?y # []" by code_simp
  have u: "distinct (ts_waiting ?s)" by code_simp
  have "\<exists>i<1. ?x \<in> set ([[?x], [?y]] ! i)"
    by (rule conflicting_calls_keep_fifo_order [OF d u w c]) simp_all
  with d show ?thesis by (simp add: Let_def ScheduledTool_new_def)
qed

end
