(* ===== verification/Sequenced_Log.thy ===== *)
theory Sequenced_Log
  imports SC_Prelude
begin

text \<open>
  The interface of the logs that the program replays or verifies: the operation journal of an
  agent run and the audit chain.  Replaying one entry promises that, below the largest sequence
  number, the entry carries the successor of the last number seen.  From this law: an accepted log
  is contiguous, and removing, repeating or inserting an inner entry makes it unacceptable.
\<close>

locale sequenced_log =
  fixes step :: "'s \<Rightarrow> 'op \<Rightarrow> 'e + 's"
    and last_seq :: "'s \<Rightarrow> nat"
    and op_seq :: "'op \<Rightarrow> nat"
    and bound :: nat
  assumes step_seq: "step s op = Inr s' \<Longrightarrow> last_seq s < bound \<Longrightarrow>
    op_seq op = Suc (last_seq s) \<and> last_seq s' = Suc (last_seq s)"
begin

lemma replay_contiguous:
  assumes "try_fold step s ops = Inr s'" and "last_seq s + length ops \<le> bound"
  shows "map op_seq ops = [Suc (last_seq s)..<Suc (last_seq s + length ops)] \<and>
    last_seq s' = last_seq s + length ops"
  using assms
proof (induction ops arbitrary: s)
  case Nil
  then show ?case by simp
next
  case (Cons op ops)
  from Cons.prems obtain s1 where s1: "step s op = Inr s1" "try_fold step s1 ops = Inr s'"
    by (auto split: sum.splits)
  from step_seq [OF s1(1)] Cons.prems(2) have "op_seq op = Suc (last_seq s)"
    "last_seq s1 = Suc (last_seq s)" by auto
  with Cons.IH [OF s1(2)] Cons.prems(2) show ?case
    by (simp add: upt_conv_Cons del: upt_Suc)
qed

lemma replay_numbers:
  assumes "try_fold step s ops = Inr s'" and "last_seq s + length ops \<le> bound"
    and "i < length ops"
  shows "op_seq (ops ! i) = Suc (last_seq s + i)"
proof -
  have "op_seq (ops ! i) = map op_seq ops ! i" using assms(3) by simp
  also have "\<dots> = Suc (last_seq s + i)"
    using replay_contiguous [OF assms(1,2)] assms(3) by (simp del: upt_Suc)
  finally show ?thesis .
qed

lemma omission_detected:
  assumes "try_fold step s (xs @ x # ys) = Inr s1" and "ys \<noteq> []"
    and "last_seq s + length (xs @ x # ys) \<le> bound"
  shows "\<exists>e. try_fold step s (xs @ ys) = Inl e"
proof (rule ccontr)
  assume "\<not> ?thesis"
  then obtain s2 where s2: "try_fold step s (xs @ ys) = Inr s2"
    by (cases "try_fold step s (xs @ ys)") auto
  obtain y zs where ys: "ys = y # zs" using assms(2) by (cases ys) auto
  have "op_seq y = Suc (last_seq s + Suc (length xs))"
    using replay_numbers [OF assms(1,3), of "Suc (length xs)"] ys by (simp add: nth_append)
  moreover have "op_seq y = Suc (last_seq s + length xs)"
    using replay_numbers [OF s2, of "length xs"] assms(3) ys by (simp add: nth_append)
  ultimately show False by simp
qed

lemma repetition_detected:
  assumes "try_fold step s (xs @ [x]) = Inr s1" and "last_seq s + length xs + 2 \<le> bound"
  shows "\<exists>e. try_fold step s (xs @ [x, x]) = Inl e"
proof (rule ccontr)
  assume "\<not> ?thesis"
  then obtain s2 where s2: "try_fold step s (xs @ [x, x]) = Inr s2"
    by (cases "try_fold step s (xs @ [x, x])") auto
  have "op_seq x = Suc (last_seq s + length xs)"
    using replay_numbers [OF s2, of "length xs"] assms(2) by (simp add: nth_append)
  moreover have "op_seq x = Suc (last_seq s + Suc (length xs))"
    using replay_numbers [OF s2, of "Suc (length xs)"] assms(2) by (simp add: nth_append)
  ultimately show False by simp
qed

end

end
