(* ===== verification/Agent_Journal.thy ===== *)
theory Agent_Journal
  imports Turn_Machine Model_Gateway Sequenced_Log
begin

text \<open>
  The operation journal of an agent run in \<open>crates/agent-core/src/lib.rs\<close>: the operations, the
  projection that replays them, the journal that appends them, and the versioned checkpoint that
  is checked against its own operations.  Deserialization (\<open>serde_json::from_value\<close>) is a
  parameter of \<open>AgentCheckpoint_decode\<close>.
\<close>

section \<open>Operations and their projection\<close>

abbreviation AGENT_OP_SCHEMA_VERSION :: u32 where "AGENT_OP_SCHEMA_VERSION \<equiv> 1"
abbreviation AGENT_CHECKPOINT_SCHEMA_VERSION :: u32 where "AGENT_CHECKPOINT_SCHEMA_VERSION \<equiv> 1"

datatype AgentOperation =
    StatusChanged TurnStatus
  | ModelCallStarted
  | TextAppended string
  | UsageAdded u64 u64
  | ToolCallStarted string string

record AgentOp =
  op_schema_version :: u32
  op_sequence :: u64
  op_operation :: AgentOperation

record AgentProjection =
  pj_last_sequence :: u64
  pj_status :: "TurnStatus option"
  pj_assistant_text :: string
  pj_input_tokens :: u64
  pj_output_tokens :: u64
  pj_model_calls :: u32
  pj_tool_calls :: u32

definition AgentProjection_default :: AgentProjection where
  "AgentProjection_default =
     \<lparr>pj_last_sequence = 0, pj_status = None, pj_assistant_text = [], pj_input_tokens = 0,
      pj_output_tokens = 0, pj_model_calls = 0, pj_tool_calls = 0\<rparr>"

datatype AgentOpError = UnsupportedVersion u32 | SequenceGap u64 u64

fun project :: "AgentOperation \<Rightarrow> AgentProjection \<Rightarrow> AgentProjection" where
  "project (StatusChanged status) p = p\<lparr>pj_status := Some status\<rparr>"
| "project ModelCallStarted p = p\<lparr>pj_model_calls := saturating_add (pj_model_calls p) 1\<rparr>"
| "project (TextAppended text) p = p\<lparr>pj_assistant_text := pj_assistant_text p @ text\<rparr>"
| "project (UsageAdded i j) p =
     p\<lparr>pj_input_tokens := saturating_add (pj_input_tokens p) i,
       pj_output_tokens := saturating_add (pj_output_tokens p) j\<rparr>"
| "project (ToolCallStarted _ _) p = p\<lparr>pj_tool_calls := saturating_add (pj_tool_calls p) 1\<rparr>"

definition AgentProjection_apply :: "AgentProjection \<Rightarrow> AgentOp \<Rightarrow> AgentOpError + AgentProjection" where
  "AgentProjection_apply p op =
     (if op_schema_version op \<noteq> AGENT_OP_SCHEMA_VERSION
      then Err (UnsupportedVersion (op_schema_version op))
      else
        let expected = saturating_add (pj_last_sequence p) 1 in
        if op_sequence op \<noteq> expected then Err (SequenceGap expected (op_sequence op))
        else Ok ((project (op_operation op) p)\<lparr>pj_last_sequence := op_sequence op\<rparr>))"

definition replay_agent_ops :: "AgentOp list \<Rightarrow> AgentOpError + AgentProjection" where
  "replay_agent_ops ops = try_fold AgentProjection_apply AgentProjection_default ops"

record AgentJournal =
  jn_projection :: AgentProjection
  jn_operations :: "AgentOp list"

definition AgentJournal_default :: AgentJournal where
  "AgentJournal_default = \<lparr>jn_projection = AgentProjection_default, jn_operations = []\<rparr>"

text \<open>Appending; \<^const>\<open>None\<close> is the panic of the \<open>expect\<close> on the projection.\<close>

definition journal_append :: "AgentOperation \<Rightarrow> AgentJournal \<Rightarrow> AgentJournal option" where
  "journal_append operation j =
     (let op = \<lparr>op_schema_version = AGENT_OP_SCHEMA_VERSION,
                op_sequence = saturating_add (pj_last_sequence (jn_projection j)) 1,
                op_operation = operation\<rparr>
      in case AgentProjection_apply (jn_projection j) op of
           Inl _ \<Rightarrow> None
         | Inr p \<Rightarrow> Some \<lparr>jn_projection = p, jn_operations = jn_operations j @ [op]\<rparr>)"

section \<open>Results and checkpoints\<close>

datatype AgentRunStatus =
    Run_Completed
  | Run_AwaitingInput json
  | Run_AwaitingApproval json
  | Run_Failed string
  | Run_Cancelled

record AgentRunResult =
  rr_status :: AgentRunStatus
  rr_assistant_text :: string
  rr_messages :: "ModelMessage list"
  rr_input_tokens :: u64
  rr_output_tokens :: u64
  rr_model_calls :: u32
  rr_tool_calls :: u32
  rr_ops :: "AgentOp list"

record AgentCheckpoint =
  cp_schema_version :: u32
  cp_result :: AgentRunResult

datatype AgentCheckpointError = CP_UnsupportedVersion u32 | CP_Invalid string

definition AgentCheckpoint_new :: "AgentRunResult \<Rightarrow> AgentCheckpoint" where
  "AgentCheckpoint_new r = \<lparr>cp_schema_version = AGENT_CHECKPOINT_SCHEMA_VERSION, cp_result = r\<rparr>"

text \<open>Decimal printing, for the messages of the errors.\<close>

fun AgentOpError_string :: "AgentOpError \<Rightarrow> string" where
  "AgentOpError_string (UnsupportedVersion v) =
     ''unsupported Agent operation schema version '' @ decimal (unat v)"
| "AgentOpError_string (SequenceGap expected received) =
     ''Agent operation sequence gap: expected '' @ decimal (unat expected)
       @ '', received '' @ decimal (unat received)"

definition AgentCheckpoint_decode ::
  "(json \<Rightarrow> string + AgentRunResult) \<Rightarrow> (json \<Rightarrow> string + AgentCheckpoint)
     \<Rightarrow> json \<Rightarrow> AgentCheckpointError + AgentCheckpoint" where
  "AgentCheckpoint_decode result_from_value checkpoint_from_value v =
     (if jget v ''schema_version'' = None
      then (case result_from_value v of
              Inl e \<Rightarrow> Err (CP_Invalid e)
            | Inr r \<Rightarrow> Ok (AgentCheckpoint_new r))
      else
        (case checkpoint_from_value v of
           Inl e \<Rightarrow> Err (CP_Invalid e)
         | Inr c \<Rightarrow>
             if cp_schema_version c \<noteq> AGENT_CHECKPOINT_SCHEMA_VERSION
             then Err (CP_UnsupportedVersion (cp_schema_version c))
             else if rr_ops (cp_result c) = [] then Ok c
             else
               (case replay_agent_ops (rr_ops (cp_result c)) of
                  Inl e \<Rightarrow> Err (CP_Invalid (AgentOpError_string e))
                | Inr p \<Rightarrow>
                    if pj_assistant_text p \<noteq> rr_assistant_text (cp_result c)
                       \<or> pj_input_tokens p \<noteq> rr_input_tokens (cp_result c)
                       \<or> pj_output_tokens p \<noteq> rr_output_tokens (cp_result c)
                       \<or> pj_model_calls p \<noteq> rr_model_calls (cp_result c)
                       \<or> pj_tool_calls p \<noteq> rr_tool_calls (cp_result c)
                    then Err (CP_Invalid ''operation replay does not match the stored Agent result'')
                    else Ok c)))"

section \<open>The journal replays to its projection\<close>

definition journal_ok :: "AgentJournal \<Rightarrow> bool" where
  "journal_ok j \<longleftrightarrow> replay_agent_ops (jn_operations j) = Inr (jn_projection j)"

definition result_ok :: "AgentRunResult \<Rightarrow> bool" where
  "result_ok r \<longleftrightarrow>
     (\<exists>p. replay_agent_ops (rr_ops r) = Inr p \<and>
        pj_assistant_text p = rr_assistant_text r \<and> pj_input_tokens p = rr_input_tokens r \<and>
        pj_output_tokens p = rr_output_tokens r \<and> pj_model_calls p = rr_model_calls r \<and>
        pj_tool_calls p = rr_tool_calls r)"

lemma journal_ok_default [simp]: "journal_ok AgentJournal_default"
  by (simp add: journal_ok_def AgentJournal_default_def replay_agent_ops_def)

lemma project_last_sequence [simp]: "pj_last_sequence (project x p) = pj_last_sequence p"
  by (cases x) auto

lemma journal_append_Some:
  "\<exists>j'. journal_append operation j = Some j' \<and>
     jn_projection j' = (project operation (jn_projection j))\<lparr>pj_last_sequence :=
         saturating_add (pj_last_sequence (jn_projection j)) 1\<rparr> \<and>
     jn_operations j' = jn_operations j @
       [\<lparr>op_schema_version = 1, op_sequence = saturating_add (pj_last_sequence (jn_projection j)) 1,
         op_operation = operation\<rparr>]"
  by (auto simp: journal_append_def AgentProjection_apply_def Let_def)

lemma journal_append_ok:
  assumes "journal_ok j" and "journal_append operation j = Some j'"
  shows "journal_ok j'"
  using assms
  by (auto simp: journal_ok_def replay_agent_ops_def journal_append_def Let_def try_fold_append
      split: sum.splits)

interpretation journal: sequenced_log AgentProjection_apply
  "\<lambda>p. unat (pj_last_sequence p)" "\<lambda>op. unat (op_sequence op)" "2 ^ 64 - 1"
proof
  fix p op p'
  assume a: "AgentProjection_apply p op = Inr p'" and b: "unat (pj_last_sequence p) < 2 ^ 64 - 1"
  from b have "pj_last_sequence p \<noteq> - 1"
    by (auto simp: unat_max)
  with a show "unat (op_sequence op) = Suc (unat (pj_last_sequence p)) \<and>
      unat (pj_last_sequence p') = Suc (unat (pj_last_sequence p))"
    by (auto simp: AgentProjection_apply_def Let_def saturating_succ_less unat_succ
        split: if_splits)
qed

section \<open>Properties\<close>

text \<open>C28: Appending to the journal never panics, and the operations of every journal built by
  appending replay to exactly its live projection.\<close>

theorem journal_replays:
  "\<exists>j. foldl (\<lambda>oj operation. Option.bind oj (journal_append operation))
         (Some AgentJournal_default) operations = Some j \<and>
       replay_agent_ops (jn_operations j) = Inr (jn_projection j) \<and>
       map op_operation (jn_operations j) = operations"
proof (induction operations rule: rev_induct)
  case Nil
  then show ?case
    using journal_ok_default by (simp add: journal_ok_def) (simp add: AgentJournal_default_def)
next
  case (snoc operation operations)
  then obtain j where j: "foldl (\<lambda>oj operation. Option.bind oj (journal_append operation))
      (Some AgentJournal_default) operations = Some j"
    "journal_ok j" "map op_operation (jn_operations j) = operations"
    by (auto simp: journal_ok_def)
  obtain j' where "journal_append operation j = Some j'"
    "map op_operation (jn_operations j') = map op_operation (jn_operations j) @ [operation]"
    using journal_append_Some [of operation j] by auto
  with j journal_append_ok [OF j(2)] show ?case
    by (auto simp: journal_ok_def)
qed

text \<open>A list of operations that replays is contiguous from 1 (below the largest sequence
  number), and dropping any operation but the last from it is detected.\<close>

theorem replay_detects_gaps:
  assumes "replay_agent_ops ops = Inr p" and "length ops < 2 ^ 64"
  shows "map (\<lambda>op. unat (op_sequence op)) ops = [1..<Suc (length ops)] \<and>
    (\<forall>xs x ys. ops = xs @ x # ys \<and> ys \<noteq> [] \<longrightarrow> (\<exists>e. replay_agent_ops (xs @ ys) = Inl e))"
proof (intro conjI allI impI)
  have l: "unat (pj_last_sequence AgentProjection_default) + length ops \<le> 2 ^ 64 - 1"
    using assms(2) by (simp add: AgentProjection_default_def)
  show "map (\<lambda>op. unat (op_sequence op)) ops = [1..<Suc (length ops)]"
    using journal.replay_contiguous [OF assms(1) [unfolded replay_agent_ops_def] l]
    by (simp add: AgentProjection_default_def)
  fix xs x ys
  assume "ops = xs @ x # ys \<and> ys \<noteq> []"
  then show "\<exists>e. replay_agent_ops (xs @ ys) = Inl e"
    using journal.omission_detected [of AgentProjection_default xs x ys p] assms(1) l
    by (simp add: replay_agent_ops_def)
qed

theorem replay_detects_gaps_witness:
  "let mk = (\<lambda>n. \<lparr>op_schema_version = 1, op_sequence = n, op_operation = ModelCallStarted\<rparr>)
   in (\<exists>p. replay_agent_ops [mk 1, mk 2, mk 3] = Inr p) \<and>
      (\<exists>e. replay_agent_ops [mk 1, mk 3] = Inl e)"
proof -
  let ?mk = "\<lambda>n. \<lparr>op_schema_version = 1, op_sequence = n, op_operation = ModelCallStarted\<rparr>"
  have "is_ok (replay_agent_ops [?mk 1, ?mk 2, ?mk 3])"
    by (simp add: replay_agent_ops_def AgentProjection_apply_def AgentProjection_default_def
        saturating_add_def)
  then obtain p where p: "replay_agent_ops [?mk 1, ?mk 2, ?mk 3] = Inr p"
    by (cases "replay_agent_ops [?mk 1, ?mk 2, ?mk 3]") auto
  have l: "length [?mk 1, ?mk 2, ?mk 3] < 2 ^ 64" by simp
  have "\<exists>e. replay_agent_ops ([?mk 1] @ [?mk 3]) = Inl e"
    by (rule replay_detects_gaps [OF p l, THEN conjunct2, rule_format, of _ "?mk 2"]) simp
  with p show ?thesis by (simp add: Let_def)
qed



end
