(* ===== verification/Agent_Runner.thy ===== *)
theory Agent_Runner
  imports Model_Call Step_Queue Tool_Schedule Agent_Journal
begin

text \<open>
  The agent loop of \<open>crates/agent-core/src/lib.rs\<close> (\<open>AgentRunner::run_inner\<close> and its helpers).
  The variables of the loop are the record \<open>RunState\<close>; one pass through the outer loop is
  \<open>run_step\<close>.  What the outside world decides during a pass is its input: the requests waiting
  at the step ingress, cancellation, the deadlines, what the provider answers, what the stream
  yields, how the executor prepares and executes calls.  Every \<open>select!\<close> is one poll, whose
  value tells which branch won, so the theorems hold for every interleaving.

  The flow of control is explicit: \<open>Next s\<close> goes on, \<open>Return r\<close> is a \<open>return\<close> (or a failed
  \<open>?\<close>) of \<open>run_inner\<close>, \<open>Panic\<close> is a failed \<open>expect\<close> or a failed \<open>debug_assert_eq\<close>.
  Notifications of the observer do not influence the run and are left out.
\<close>

section \<open>Data\<close>

record AgentRunRequest =
  ag_model :: string
  ag_temperature :: f64
  ag_messages :: "ModelMessage list"
  ag_tools :: "ToolDefinition list"
  ag_max_output_tokens :: u32
  ag_fixed_max_output_tokens :: bool
  ag_routing :: "ModelRoutingPolicy option"
  ag_transient_tool_media :: media_map

definition MODEL_STREAM_IDLE_TIMEOUT_REASON :: string where
  "MODEL_STREAM_IDLE_TIMEOUT_REASON = ''model stream idle timeout''"
definition TURN_ELAPSED_TIMEOUT_REASON :: string where
  "TURN_ELAPSED_TIMEOUT_REASON = ''turn elapsed-time limit exceeded''"
definition EMPTY_MODEL_RESPONSE_REASON :: string where
  "EMPTY_MODEL_RESPONSE_REASON = ''model returned repeated empty responses''"
definition MODEL_CALL_LIMIT_REASON :: string where
  "MODEL_CALL_LIMIT_REASON = ''model-call limit reached''"
definition TOOL_CALL_LIMIT_REASON :: string where
  "TOOL_CALL_LIMIT_REASON = ''tool-call limit reached''"
definition INCOMPLETE_MODEL_RESPONSE_REASON :: string where
  "INCOMPLETE_MODEL_RESPONSE_REASON =
     ''model repeatedly returned truncated output or provider tool markup as text''"

abbreviation MAX_EMPTY_MODEL_RETRIES :: u32 where "MAX_EMPTY_MODEL_RETRIES \<equiv> 2"
abbreviation MAX_INCOMPLETE_MODEL_RETRIES :: u32 where "MAX_INCOMPLETE_MODEL_RETRIES \<equiv> 2"
abbreviation MAX_MODEL_STREAM_RETRIES :: u32 where "MAX_MODEL_STREAM_RETRIES \<equiv> 2"
abbreviation MAX_ADAPTIVE_OUTPUT_TOKENS :: u32 where "MAX_ADAPTIVE_OUTPUT_TOKENS \<equiv> 32768"

definition BUDGET_CONVERGENCE_REMINDER :: string where
  "BUDGET_CONVERGENCE_REMINDER = ''The Turn is approaching its execution budget. If the requested work is already verified, stop using tools and return the verified result. Otherwise perform only the highest-value remaining action, then verify and conclude. Do not weaken tests or claim unobserved success.''"

datatype AgentToolResult =
    TR_Completed json
  | TR_ContextChanged json json "ToolDefinition list" "ModelMessage list"
  | TR_DiscoveredTools json "ToolDefinition list"
  | TR_AwaitingInput json
  | TR_AwaitingApproval json
  | TR_Failed string

record PreparedAgentToolCall =
  pp_arguments :: json
  pp_claims :: "ResourceClaim list"
  pp_may_pause :: bool
  pp_resolved :: "AgentToolResult option"

definition prepared_ready :: "json \<Rightarrow> ResourceClaim list \<Rightarrow> bool \<Rightarrow> PreparedAgentToolCall" where
  "prepared_ready arguments claims may_pause =
     \<lparr>pp_arguments = arguments, pp_claims = claims, pp_may_pause = may_pause, pp_resolved = None\<rparr>"

definition prepared_resolved :: "AgentToolResult \<Rightarrow> PreparedAgentToolCall" where
  "prepared_resolved result =
     \<lparr>pp_arguments = JNull, pp_claims = [global_exclusive], pp_may_pause = False,
      pp_resolved = Some result\<rparr>"

record AgentRunner =
  ar_limits :: TurnLimits
  ar_max_provider_retries :: u32
  ar_repeated_failure_limit :: u32

definition AgentRunner_new :: "TurnLimits \<Rightarrow> AgentRunner" where
  "AgentRunner_new limits =
     \<lparr>ar_limits = limits, ar_max_provider_retries = 2, ar_repeated_failure_limit = 3\<rparr>"

text \<open>The functions of other crates: printing and parsing of JSON (an error is its text), and the
  supply of fresh identifiers.\<close>

record Library =
  lib_to_string :: "json \<Rightarrow> string"
  lib_parse_json :: "string \<Rightarrow> string + json"
  lib_fresh_id :: "nat \<Rightarrow> Id"

record ToolCallBuilder =
  tb_id :: "string option"
  tb_name :: "string option"
  tb_arguments :: string
  tb_provider_metadata :: "json option"

definition ToolCallBuilder_default :: ToolCallBuilder where
  "ToolCallBuilder_default =
     \<lparr>tb_id = None, tb_name = None, tb_arguments = [], tb_provider_metadata = None\<rparr>"

definition complete :: "ToolCallBuilder \<Rightarrow> AgentError + CompletedToolCall" where
  "complete b =
     and_then (ok_or (tb_id b) (AE_InvalidToolCall ''missing call id'')) (\<lambda>call_id.
     and_then (ok_or (tb_name b) (AE_InvalidToolCall ''missing tool name'')) (\<lambda>name.
       Ok \<lparr>tc_id = call_id, tc_name = name, tc_arguments = tb_arguments b,
           tc_provider_metadata = tb_provider_metadata b\<rparr>))"

record PendingToolCall =
  pd_call :: CompletedToolCall
  pd_prepared :: PreparedAgentToolCall
  pd_fingerprint :: string

section \<open>Inputs of a pass\<close>

datatype StreamPoll =
    SP_Cancelled
  | SP_Deadline
  | SP_Idle
  | SP_Step StepRequest
  | SP_IngressClosed
  | SP_Item "GatewayError + ModelEvent"
  | SP_ItemCancelled

datatype StartPoll =
    Start_Cancelled
  | Start_Deadline
  | Start_Idle
  | Start_Stream "nat \<Rightarrow> ModelRequest \<Rightarrow> StreamPoll list ProviderPoll" "nat \<Rightarrow> bool"

datatype PreparePoll = Prepare_Cancelled | Prepare_Deadline | Prepare_Done PreparedAgentToolCall

datatype WavePoll = Wave_Cancelled | Wave_Deadline | Wave_Done "nat \<Rightarrow> AgentToolResult"

record PassInput =
  in_steps :: "StepRequest list"
  in_cancelled :: bool
  in_start :: StartPoll
  in_late_steps :: "StepRequest list"
  in_closing_steps :: "StepRequest list"
  in_prepare :: "nat \<Rightarrow> PreparePoll"
  in_wave :: "nat \<Rightarrow> WavePoll"

section \<open>State and control flow\<close>

record RunState =
  rs_machine :: TurnMachine
  rs_journal :: AgentJournal
  rs_request :: AgentRunRequest
  rs_assistant_text :: string
  rs_input_tokens :: u64
  rs_output_tokens :: u64
  rs_model_calls :: u32
  rs_tool_calls :: u32
  rs_empty_responses :: u32
  rs_incomplete_responses :: u32
  rs_stream_retries :: u32
  rs_reminder_sent :: bool
  rs_failures :: "string \<rightharpoonup> u32"
  rs_queue :: StepRequestQueue
  rs_ingress :: bool
  rs_next_id :: nat

datatype 'a flow = Panic | Return "AgentError + AgentRunResult" | Next 'a

fun flow_bind :: "'a flow \<Rightarrow> ('a \<Rightarrow> 'b flow) \<Rightarrow> 'b flow" where
  "flow_bind (Next s) f = f s"
| "flow_bind (Return r) f = Return r"
| "flow_bind Panic f = Panic"

definition set_messages :: "ModelMessage list \<Rightarrow> RunState \<Rightarrow> RunState" where
  "set_messages ms s = s\<lparr>rs_request := (rs_request s)\<lparr>ag_messages := ms\<rparr>\<rparr>"

definition push_messages :: "ModelMessage list \<Rightarrow> RunState \<Rightarrow> RunState" where
  "push_messages ms s = set_messages (ag_messages (rs_request s) @ ms) s"

text \<open>\<open>machine.transition(..)?\<close>, \<open>journal.append(..)\<close>, \<open>emit_status\<close>, \<open>result\<close>.\<close>

definition move_to :: "TurnStatus \<Rightarrow> RunState \<Rightarrow> RunState flow" where
  "move_to to s =
     (case transition to (rs_machine s) of
        (Inl e, _) \<Rightarrow> Return (Err (AE_Turn e))
      | (Inr _, m) \<Rightarrow> Next (s\<lparr>rs_machine := m\<rparr>))"

definition append_op :: "AgentOperation \<Rightarrow> RunState \<Rightarrow> RunState flow" where
  "append_op operation s =
     (case journal_append operation (rs_journal s) of
        None \<Rightarrow> Panic | Some j \<Rightarrow> Next (s\<lparr>rs_journal := j\<rparr>))"

definition emit_status :: "RunState \<Rightarrow> RunState flow" where
  "emit_status s = append_op (StatusChanged (tm_status (rs_machine s))) s"

definition run_result :: "AgentRunStatus \<Rightarrow> RunState \<Rightarrow> 'a flow" where
  "run_result status s =
     (let p = jn_projection (rs_journal s) in
      if pj_assistant_text p \<noteq> rs_assistant_text s \<or> pj_input_tokens p \<noteq> rs_input_tokens s
         \<or> pj_output_tokens p \<noteq> rs_output_tokens s \<or> pj_model_calls p \<noteq> rs_model_calls s
         \<or> pj_tool_calls p \<noteq> rs_tool_calls s
      then Panic
      else Return (Ok \<lparr>rr_status = status, rr_assistant_text = rs_assistant_text s,
             rr_messages = ag_messages (rs_request s), rr_input_tokens = rs_input_tokens s,
             rr_output_tokens = rs_output_tokens s, rr_model_calls = rs_model_calls s,
             rr_tool_calls = rs_tool_calls s, rr_ops = jn_operations (rs_journal s)\<rparr>))"

definition finish :: "TurnStatus \<Rightarrow> AgentRunStatus \<Rightarrow> RunState \<Rightarrow> 'a flow" where
  "finish to status s =
     flow_bind (move_to to s) (\<lambda>s. flow_bind (emit_status s) (\<lambda>s. run_result status s))"

definition fail_run :: "string \<Rightarrow> RunState \<Rightarrow> 'a flow" where
  "fail_run reason s = finish Failed (Run_Failed reason) s"

section \<open>The step queue of a run\<close>

text \<open>Admission with \<open>expect\<close>; the request draws a fresh identifier.\<close>

definition admit_new ::
  "Library \<Rightarrow> string \<Rightarrow> ModelMessage list \<Rightarrow> StepRequestOptions \<Rightarrow> bool \<Rightarrow> RunState \<Rightarrow> RunState flow" where
  "admit_new lib kind messages options has_active_turn s =
     (let request = StepRequest_new (lib_fresh_id lib (rs_next_id s)) kind messages options
      in case admit request has_active_turn Tail (rs_queue s) of
           (Inl _, _) \<Rightarrow> Panic
         | (Inr _, q) \<Rightarrow> Next (s\<lparr>rs_queue := q, rs_next_id := rs_next_id s + 1\<rparr>))"

definition initial_step_queue :: "Library \<Rightarrow> RunState \<Rightarrow> RunState flow" where
  "initial_step_queue lib s =
     (case rev (ag_messages (rs_request s)) of
        [] \<Rightarrow> admit_new lib ''initial_model_step'' []
                \<lparr>so_admission = ActiveOrNewTurn, so_mergeable = False, so_turn_scoped = True\<rparr> False s
      | message # earlier \<Rightarrow>
          let is_user_input = (mm_role message = ''user'')
          in admit_new lib (if is_user_input then ''user_input'' else ''resume_context'') [message]
               \<lparr>so_admission = (if is_user_input then NewTurn else ActiveOrNewTurn),
                so_mergeable = False, so_turn_scoped = True\<rparr> False (set_messages (rev earlier) s))"

definition enqueue_tool_result :: "Library \<Rightarrow> ModelMessage \<Rightarrow> RunState \<Rightarrow> RunState flow" where
  "enqueue_tool_result lib message s =
     admit_new lib ''tool_result'' [message]
       \<lparr>so_admission = ActiveTurnOnly, so_mergeable = True, so_turn_scoped = False\<rparr> True s"

definition enqueue_empty_model_retry :: "Library \<Rightarrow> RunState \<Rightarrow> RunState flow" where
  "enqueue_empty_model_retry lib s =
     admit_new lib ''empty_model_retry''
       [\<lparr>mm_role = ''user'', mm_content = JStr ''[Harness retry] The previous response was empty. Continue the task: either use the tools needed to make progress or provide a concrete final answer.''\<rparr>]
       \<lparr>so_admission = ActiveTurnOnly, so_mergeable = False, so_turn_scoped = True\<rparr> True s"

definition enqueue_incomplete_model_retry :: "Library \<Rightarrow> RunState \<Rightarrow> RunState flow" where
  "enqueue_incomplete_model_retry lib s =
     admit_new lib ''incomplete_model_retry''
       [\<lparr>mm_role = ''user'', mm_content = JStr ''[Harness retry] The previous response was truncated by the output limit. Continue directly from it without repeating text, verify the result, and then conclude.''\<rparr>]
       \<lparr>so_admission = ActiveTurnOnly, so_mergeable = False, so_turn_scoped = True\<rparr> True s"

definition enqueue_model_stream_retry :: "Library \<Rightarrow> RunState \<Rightarrow> RunState flow" where
  "enqueue_model_stream_retry lib s =
     admit_new lib ''model_stream_retry'' []
       \<lparr>so_admission = ActiveTurnOnly, so_mergeable = False, so_turn_scoped = True\<rparr> True s"

text \<open>The requests that are waiting at the ingress; the same loop reads a closed ingress empty.\<close>

definition drain_external_steps :: "StepRequest list \<Rightarrow> RunState \<Rightarrow> RunState" where
  "drain_external_steps received s =
     (if \<not> rs_ingress s then s
      else s\<lparr>rs_queue := foldl (\<lambda>q r.
               if target (sr_admission r) True = Ok Target_ActiveTurn then enqueue r Tail q else q)
             (rs_queue s) received\<rparr>)"

definition close_and_drain_external_steps :: "StepRequest list \<Rightarrow> RunState \<Rightarrow> RunState" where
  "close_and_drain_external_steps buffered s = drain_external_steps buffered s"

definition materialize_pending_steps :: "RunState \<Rightarrow> RunState" where
  "materialize_pending_steps s =
     (let (ms, q) = drain_materialized_messages (rs_queue s)
      in push_messages ms (s\<lparr>rs_queue := q\<rparr>))"

definition materialize_cancelled_steps :: "RunState \<Rightarrow> RunState" where
  "materialize_cancelled_steps s =
     materialize_pending_steps (s\<lparr>rs_queue := abort_turn_scoped (rs_queue s)\<rparr>)"

definition cancel_run :: "RunState \<Rightarrow> 'a flow" where
  "cancel_run s = finish Cancelled Run_Cancelled (materialize_cancelled_steps s)"

definition fail_pending :: "string \<Rightarrow> RunState \<Rightarrow> 'a flow" where
  "fail_pending reason s = fail_run reason (materialize_pending_steps s)"

definition preserve_partial_model_text :: "string \<Rightarrow> RunState \<Rightarrow> RunState flow" where
  "preserve_partial_model_text text s =
     (if text = [] then Next s
      else flow_bind (append_op (TextAppended text) s) (\<lambda>s.
        Next (push_messages [\<lparr>mm_role = ''assistant'', mm_content = JStr text\<rparr>]
          (s\<lparr>rs_assistant_text := rs_assistant_text s @ text\<rparr>))))"

section \<open>Consuming the stream\<close>

record StreamState =
  ss_text :: string
  ss_calls :: "(u32 \<times> ToolCallBuilder) list"
  ss_call_output_tokens :: u64
  ss_finish_reason :: "string option"

definition StreamState_new :: StreamState where
  "StreamState_new = \<lparr>ss_text = [], ss_calls = [], ss_call_output_tokens = 0, ss_finish_reason = None\<rparr>"

datatype StreamEnd = Stream_Done | Stream_Failure string | Stream_Error GatewayError

text \<open>\<open>calls.entry(index).or_default()\<close> on the map ordered by index.\<close>

fun upsert_call ::
  "u32 \<Rightarrow> (ToolCallBuilder \<Rightarrow> ToolCallBuilder) \<Rightarrow> (u32 \<times> ToolCallBuilder) list
     \<Rightarrow> (u32 \<times> ToolCallBuilder) list" where
  "upsert_call i f [] = [(i, f ToolCallBuilder_default)]"
| "upsert_call i f ((j, b) # calls) =
     (if i = j then (i, f b) # calls
      else if i < j then (i, f ToolCallBuilder_default) # (j, b) # calls
      else (j, b) # upsert_call i f calls)"

definition add_call_delta ::
  "string option \<Rightarrow> string option \<Rightarrow> string \<Rightarrow> json option \<Rightarrow> ToolCallBuilder \<Rightarrow> ToolCallBuilder" where
  "add_call_delta call_id name arguments_delta provider_metadata b =
     b\<lparr>tb_id := (if call_id = None then tb_id b else call_id),
       tb_name := (if name = None then tb_name b else name),
       tb_provider_metadata :=
         (if provider_metadata = None then tb_provider_metadata b else provider_metadata),
       tb_arguments := tb_arguments b @ arguments_delta\<rparr>"

definition record_usage_event :: "u64 \<Rightarrow> u64 \<Rightarrow> RunState \<Rightarrow> RunState flow" where
  "record_usage_event input output s =
     (case record_usage input output (rs_machine s) of
        (Inl e, _) \<Rightarrow> Return (Err (AE_Turn e))
      | (Inr _, m) \<Rightarrow>
          append_op (UsageAdded input output)
            (s\<lparr>rs_machine := m,
               rs_input_tokens := saturating_add (rs_input_tokens s) input,
               rs_output_tokens := saturating_add (rs_output_tokens s) output\<rparr>))"

definition cancel_streaming :: "string \<Rightarrow> RunState \<Rightarrow> 'a flow" where
  "cancel_streaming text s = flow_bind (preserve_partial_model_text text s) cancel_run"

fun stream_loop ::
  "StreamPoll list \<Rightarrow> StreamState \<Rightarrow> RunState \<Rightarrow> (StreamState \<times> StreamEnd \<times> RunState) flow" where
  "stream_loop [] ss s = Next (ss, Stream_Done, s)"
| "stream_loop (SP_Cancelled # polls) ss s = cancel_streaming (ss_text ss) s"
| "stream_loop (SP_Deadline # polls) ss s = Next (ss, Stream_Failure TURN_ELAPSED_TIMEOUT_REASON, s)"
| "stream_loop (SP_Idle # polls) ss s = Next (ss, Stream_Failure MODEL_STREAM_IDLE_TIMEOUT_REASON, s)"
| "stream_loop (SP_Step r # polls) ss s =
     (if \<not> rs_ingress s then stream_loop polls ss s
      else (case admit r True Tail (rs_queue s) of
              (Inl e, _) \<Rightarrow> Return (Err (AE_InvalidRequest ''step request requires an active turn''))
            | (Inr _, q) \<Rightarrow> stream_loop polls ss (s\<lparr>rs_queue := q\<rparr>)))"
| "stream_loop (SP_IngressClosed # polls) ss s = stream_loop polls ss (s\<lparr>rs_ingress := False\<rparr>)"
| "stream_loop (SP_ItemCancelled # polls) ss s = cancel_streaming (ss_text ss) s"
| "stream_loop (SP_Item (Inl error) # polls) ss s = Next (ss, Stream_Error error, s)"
| "stream_loop (SP_Item (Inr event) # polls) ss s =
     (case event of
        TextDelta delta \<Rightarrow> stream_loop polls (ss\<lparr>ss_text := ss_text ss @ delta\<rparr>) s
      | ReasoningSummaryDelta _ \<Rightarrow> stream_loop polls ss s
      | ToolCallDelta index call_id name arguments_delta provider_metadata \<Rightarrow>
          stream_loop polls (ss\<lparr>ss_calls := upsert_call index
            (add_call_delta call_id name arguments_delta provider_metadata) (ss_calls ss)\<rparr>) s
      | Usage input output \<Rightarrow>
          flow_bind (record_usage_event input output s) (\<lambda>s.
            stream_loop polls (ss\<lparr>ss_call_output_tokens := max (ss_call_output_tokens ss) output\<rparr>) s)
      | EvCompleted reason \<Rightarrow> Next (ss\<lparr>ss_finish_reason := reason\<rparr>, Stream_Done, s)
      | RouteSelected _ _ _ \<Rightarrow> stream_loop polls ss s
      | RouteFallback _ _ _ \<Rightarrow> stream_loop polls ss s)"

section \<open>Starting a model call\<close>

definition convergence_threshold :: "u32 \<Rightarrow> nat" where
  "convergence_threshold limit = div_ceil (unat (saturating_mul limit 4)) 5"

definition remind_of_budget :: "AgentRunner \<Rightarrow> RunState \<Rightarrow> RunState" where
  "remind_of_budget ar s =
     (if \<not> rs_reminder_sent s
         \<and> unat (rs_model_calls s) \<ge> convergence_threshold (max_model_calls (ar_limits ar))
      then push_messages [\<lparr>mm_role = ''system'', mm_content = JStr BUDGET_CONVERGENCE_REMINDER\<rparr>]
             (s\<lparr>rs_reminder_sent := True\<rparr>)
      else s)"

definition compact_history :: "RunState \<Rightarrow> RunState" where
  "compact_history s =
     (let ms = fst (compact_superseded_tool_history (ag_messages (rs_request s)))
      in s\<lparr>rs_request := (rs_request s)\<lparr>ag_messages := ms,
             ag_transient_tool_media :=
               retain_attached_tool_media ms (ag_transient_tool_media (rs_request s))\<rparr>\<rparr>)"

definition count_model_call :: "RunState \<Rightarrow> RunState flow" where
  "count_model_call s =
     (case record_model_call 0 (rs_machine s) of
        (Inl e, _) \<Rightarrow> Return (Err (AE_Turn e))
      | (Inr _, m) \<Rightarrow>
          append_op ModelCallStarted (s\<lparr>rs_machine := m, rs_model_calls := rs_model_calls s + 1\<rparr>))"

definition model_request_of :: "AgentRunRequest \<Rightarrow> ModelRequest" where
  "model_request_of r =
     \<lparr>mr_model = ag_model r, mr_temperature = ag_temperature r, mr_messages = ag_messages r,
      mr_tools = ag_tools r, mr_max_output_tokens = ag_max_output_tokens r, mr_routing = ag_routing r,
      mr_transient_tool_media = ag_transient_tool_media r\<rparr>"

definition start_stream ::
  "Library \<Rightarrow> AgentRunner \<Rightarrow> StartPoll \<Rightarrow> RunState \<Rightarrow> (StreamPoll list \<times> RunState) flow" where
  "start_stream lib ar start s =
     (case start of
        Start_Cancelled \<Rightarrow> finish Cancelled Run_Cancelled s
      | Start_Deadline \<Rightarrow> fail_pending TURN_ELAPSED_TIMEOUT_REASON s
      | Start_Idle \<Rightarrow> fail_pending MODEL_STREAM_IDLE_TIMEOUT_REASON s
      | Start_Stream poll sleep_cancelled \<Rightarrow>
          (case stream_with_retry (lib_to_string lib) (ar_max_provider_retries ar) poll sleep_cancelled
                  0 0 False (model_request_of (rs_request s)) of
             (Inl AE_Cancelled, _) \<Rightarrow> finish Cancelled Run_Cancelled s
           | (Inl error, _) \<Rightarrow> Return (Err error)
           | (Inr polls, model_request) \<Rightarrow>
               Next (polls, s\<lparr>rs_request := (rs_request s)\<lparr>ag_messages := mr_messages model_request,
                 ag_transient_tool_media := mr_transient_tool_media model_request\<rparr>\<rparr>)))"

section \<open>After the stream\<close>

definition exhausted_budget :: "StreamState \<Rightarrow> RunState \<Rightarrow> bool" where
  "exhausted_budget ss s =
     ((case ss_finish_reason ss of
         None \<Rightarrow> False | Some r \<Rightarrow> r \<in> {''length'', ''max_tokens'', ''max_output_tokens''})
      \<or> ss_call_output_tokens ss \<ge> ucast (ag_max_output_tokens (rs_request s)))"

definition grow_output_budget :: "bool \<Rightarrow> RunState \<Rightarrow> RunState" where
  "grow_output_budget exhausted s =
     (if exhausted \<and> \<not> ag_fixed_max_output_tokens (rs_request s)
         \<and> ag_max_output_tokens (rs_request s) < MAX_ADAPTIVE_OUTPUT_TOKENS
      then s\<lparr>rs_request := (rs_request s)\<lparr>ag_max_output_tokens :=
               min (saturating_mul (ag_max_output_tokens (rs_request s)) 2) MAX_ADAPTIVE_OUTPUT_TOKENS\<rparr>\<rparr>
      else s)"

datatype StreamVerdict = Verdict_Retry | Verdict_Response

text \<open>The handling of a broken, empty or truncated stream; a retry goes back to the loop head.\<close>

definition handle_stream_end ::
  "Library \<Rightarrow> StreamState \<Rightarrow> StreamEnd \<Rightarrow> RunState \<Rightarrow> (StreamVerdict \<times> RunState) flow" where
  "handle_stream_end lib ss e s =
     (let silent = (ss_text ss = [] \<and> ss_calls ss = [] \<and> rs_stream_retries s < MAX_MODEL_STREAM_RETRIES);
          retry = (\<lambda>s. flow_bind (enqueue_model_stream_retry lib
                    (s\<lparr>rs_stream_retries := rs_stream_retries s + 1\<rparr>)) (\<lambda>s. Next (Verdict_Retry, s)))
      in case e of
           Stream_Error error \<Rightarrow>
             if silent then retry s
             else flow_bind (preserve_partial_model_text (ss_text ss) s)
                    (\<lambda>s. Return (Err (AE_Gateway error)))
         | Stream_Failure reason \<Rightarrow>
             if reason = MODEL_STREAM_IDLE_TIMEOUT_REASON \<and> silent then retry s
             else flow_bind (preserve_partial_model_text (ss_text ss) s) (fail_pending reason)
         | Stream_Done \<Rightarrow> Next (Verdict_Response, s\<lparr>rs_stream_retries := 0\<rparr>))"

definition handle_empty_response :: "Library \<Rightarrow> StreamState \<Rightarrow> RunState \<Rightarrow> (StreamVerdict \<times> RunState) flow" where
  "handle_empty_response lib ss s =
     (if ss_calls ss = [] \<and> blank (ss_text ss)
      then
        if rs_empty_responses s < MAX_EMPTY_MODEL_RETRIES
        then flow_bind (enqueue_empty_model_retry lib
               (grow_output_budget (exhausted_budget ss s)
                  (s\<lparr>rs_empty_responses := rs_empty_responses s + 1\<rparr>)))
               (\<lambda>s. Next (Verdict_Retry, s))
        else fail_pending EMPTY_MODEL_RESPONSE_REASON s
      else Next (Verdict_Response, s\<lparr>rs_empty_responses := 0\<rparr>))"

definition handle_truncated_response :: "Library \<Rightarrow> StreamState \<Rightarrow> RunState \<Rightarrow> (StreamVerdict \<times> RunState) flow" where
  "handle_truncated_response lib ss s =
     (if exhausted_budget ss s
      then
        if rs_incomplete_responses s < MAX_INCOMPLETE_MODEL_RETRIES
        then flow_bind (preserve_partial_model_text (ss_text ss)
                 (s\<lparr>rs_incomplete_responses := rs_incomplete_responses s + 1\<rparr>)) (\<lambda>s.
               flow_bind (enqueue_incomplete_model_retry lib (grow_output_budget True s))
                 (\<lambda>s. Next (Verdict_Retry, s)))
        else flow_bind (preserve_partial_model_text (ss_text ss) s)
               (fail_pending INCOMPLETE_MODEL_RESPONSE_REASON)
      else Next (Verdict_Response, s\<lparr>rs_incomplete_responses := 0\<rparr>))"

definition accept_text :: "string \<Rightarrow> RunState \<Rightarrow> RunState flow" where
  "accept_text text s =
     flow_bind (if text = [] then Next s else append_op (TextAppended text) s)
       (\<lambda>s. Next (s\<lparr>rs_assistant_text := rs_assistant_text s @ text\<rparr>))"

definition answer_without_calls :: "PassInput \<Rightarrow> string \<Rightarrow> RunState \<Rightarrow> RunState flow" where
  "answer_without_calls inp text s =
     (let s1 = drain_external_steps (in_late_steps inp)
                 (push_messages [\<lparr>mm_role = ''assistant'', mm_content = JStr text\<rparr>] s)
      in if has_pending_requests (rs_queue s1) then Next s1
         else
           let s2 = close_and_drain_external_steps (in_closing_steps inp) s1
           in if has_pending_requests (rs_queue s2) then Next s2
              else finish Completed Run_Completed s2)"

section \<open>Running tools\<close>

definition assistant_call_message :: "string \<Rightarrow> CompletedToolCall list \<Rightarrow> ModelMessage" where
  "assistant_call_message text calls =
     \<lparr>mm_role = ''assistant'',
      mm_content = jobj [(''text'', JStr text),
        (''tool_calls'', JArr (map (\<lambda>c. jobj [
           (''id'', JStr (tc_id c)), (''type'', JStr ''function''),
           (''function'', jobj [(''name'', JStr (tc_name c)), (''arguments'', JStr (tc_arguments c))]),
           (''provider_metadata'', case tc_provider_metadata c of None \<Rightarrow> JNull | Some v \<Rightarrow> v)]) calls))]\<rparr>"

definition tool_limit_detail :: "AgentRunner \<Rightarrow> u32 \<Rightarrow> u32 \<Rightarrow> json" where
  "tool_limit_detail ar used deferred =
     jobj [(''kind'', JStr TOOL_CALL_LIMIT_CONTINUATION_KIND), (''reason'', JStr TOOL_CALL_LIMIT_REASON),
           (''limit'', jnat32 (max_tool_calls (ar_limits ar))), (''used'', jnat32 used),
           (''deferred_tool_calls'', jnat32 deferred)]"

definition count_tool_call :: "CompletedToolCall \<Rightarrow> RunState \<Rightarrow> RunState flow" where
  "count_tool_call call s =
     (case record_tool_call (rs_machine s) of
        (Inl e, _) \<Rightarrow> Return (Err (AE_Turn e))
      | (Inr _, m) \<Rightarrow>
          append_op (ToolCallStarted (tc_id call) (tc_name call))
            (s\<lparr>rs_machine := m, rs_tool_calls := rs_tool_calls s + 1\<rparr>))"

definition prepare_call ::
  "Library \<Rightarrow> PreparePoll \<Rightarrow> CompletedToolCall \<Rightarrow> RunState \<Rightarrow> PreparedAgentToolCall flow" where
  "prepare_call lib poll call s =
     (case lib_parse_json lib (tc_arguments call) of
        Inl error \<Rightarrow> Next (prepared_resolved (TR_Failed (''tool arguments are not valid JSON: '' @ error)))
      | Inr arguments \<Rightarrow>
          (case poll of
             Prepare_Cancelled \<Rightarrow> cancel_run s
           | Prepare_Deadline \<Rightarrow> fail_pending TURN_ELAPSED_TIMEOUT_REASON s
           | Prepare_Done prepared \<Rightarrow> Next prepared))"

definition schedule_call ::
  "CompletedToolCall \<Rightarrow> PreparedAgentToolCall \<Rightarrow> PendingToolCall ToolSchedule \<Rightarrow> PendingToolCall ToolSchedule" where
  "schedule_call call prepared schedule =
     (let claims = (if pp_may_pause prepared then [global_exclusive] else pp_claims prepared)
      in ts_push \<lparr>pd_call = call, pd_prepared = prepared,
                  pd_fingerprint = tc_name call @ '':'' @ tc_arguments call\<rparr> claims schedule)"

fun prepare_calls ::
  "Library \<Rightarrow> (nat \<Rightarrow> PreparePoll) \<Rightarrow> nat \<Rightarrow> CompletedToolCall list \<Rightarrow> PendingToolCall ToolSchedule
     \<Rightarrow> RunState \<Rightarrow> (PendingToolCall ToolSchedule \<times> RunState) flow" where
  "prepare_calls lib polls k [] schedule s = Next (schedule, s)"
| "prepare_calls lib polls k (call # calls) schedule s =
     flow_bind (count_tool_call call s) (\<lambda>s.
     flow_bind (prepare_call lib (polls k) call s) (\<lambda>prepared.
       prepare_calls lib polls (k + 1) calls (schedule_call call prepared schedule) s))"

definition change_context ::
  "json \<Rightarrow> ToolDefinition list \<Rightarrow> ModelMessage list \<Rightarrow> AgentRunRequest \<Rightarrow> AgentRunRequest" where
  "change_context retired tools system_messages r =
     r\<lparr>ag_tools := tools,
       ag_messages := system_messages @
         filter (\<lambda>m. mm_role m \<noteq> ''system'' \<or> mm_content m \<noteq> retired) (ag_messages r)\<rparr>"

fun upsert_tool :: "ToolDefinition \<Rightarrow> ToolDefinition list \<Rightarrow> ToolDefinition list" where
  "upsert_tool d [] = [d]"
| "upsert_tool d (t # ts) = (if td_name t = td_name d then d # ts else t # upsert_tool d ts)"

definition discover_tools :: "ToolDefinition list \<Rightarrow> AgentRunRequest \<Rightarrow> AgentRunRequest" where
  "discover_tools tools r = r\<lparr>ag_tools := foldl (\<lambda>ts d. upsert_tool d ts) (ag_tools r) tools\<rparr>"

record WaveState =
  ws_paused :: "AgentRunStatus option"
  ws_repeated_failure :: bool

definition get_or_insert :: "'a \<Rightarrow> 'a option \<Rightarrow> 'a option" where
  "get_or_insert x o' = (case o' of None \<Rightarrow> Some x | Some y \<Rightarrow> Some y)"

definition forget_failure :: "string \<Rightarrow> RunState \<Rightarrow> RunState" where
  "forget_failure fingerprint s = s\<lparr>rs_failures := (rs_failures s)(fingerprint := None)\<rparr>"

definition process_outcome ::
  "Library \<Rightarrow> AgentRunner \<Rightarrow> PendingToolCall \<Rightarrow> AgentToolResult \<Rightarrow> WaveState \<Rightarrow> RunState
     \<Rightarrow> (WaveState \<times> RunState) flow" where
  "process_outcome lib ar pending result ws s =
     (let call = pd_call pending;
          fingerprint = pd_fingerprint pending;
          answer = (\<lambda>value s. flow_bind (enqueue_tool_result lib
                      (tool_message (tc_id call) (tc_name call) value) s) (\<lambda>s. Next (ws, s)))
      in case result of
           TR_Completed value \<Rightarrow> answer value (forget_failure fingerprint s)
         | TR_ContextChanged retired value tools system_messages \<Rightarrow>
             answer value ((forget_failure fingerprint s)\<lparr>rs_request :=
               change_context retired tools system_messages (rs_request s)\<rparr>)
         | TR_DiscoveredTools value tools \<Rightarrow>
             answer value ((forget_failure fingerprint s)\<lparr>rs_request :=
               discover_tools tools (rs_request s)\<rparr>)
         | TR_AwaitingInput detail \<Rightarrow>
             Next (ws\<lparr>ws_paused := get_or_insert (Run_AwaitingInput detail) (ws_paused ws)\<rparr>, s)
         | TR_AwaitingApproval detail \<Rightarrow>
             Next (ws\<lparr>ws_paused := get_or_insert (Run_AwaitingApproval detail) (ws_paused ws)\<rparr>, s)
         | TR_Failed error \<Rightarrow>
             let count = (case rs_failures s fingerprint of None \<Rightarrow> 0 | Some n \<Rightarrow> n) + 1
             in flow_bind (enqueue_tool_result lib (tool_message (tc_id call) (tc_name call)
                    (jobj [(''error'', JStr error), (''retryable'', JBool (count < ar_repeated_failure_limit ar))]))
                  (s\<lparr>rs_failures := (rs_failures s)(fingerprint \<mapsto> count)\<rparr>))
                  (\<lambda>s. Next (ws\<lparr>ws_repeated_failure :=
                    (ws_repeated_failure ws \<or> count \<ge> ar_repeated_failure_limit ar)\<rparr>, s)))"

fun process_outcomes ::
  "Library \<Rightarrow> AgentRunner \<Rightarrow> (nat \<Rightarrow> AgentToolResult) \<Rightarrow> nat \<Rightarrow> PendingToolCall ScheduledTool list
     \<Rightarrow> WaveState \<Rightarrow> RunState \<Rightarrow> (WaveState \<times> RunState) flow" where
  "process_outcomes lib ar outcome k [] ws s = Next (ws, s)"
| "process_outcomes lib ar outcome k (scheduled # wave) ws s =
     flow_bind (process_outcome lib ar (st_value scheduled) (outcome k) ws s) (\<lambda>(ws, s).
       process_outcomes lib ar outcome (k + 1) wave ws s)"

fun defer_pending_tool_calls ::
  "Library \<Rightarrow> PendingToolCall ScheduledTool list \<Rightarrow> RunState \<Rightarrow> RunState flow" where
  "defer_pending_tool_calls lib [] s = Next s"
| "defer_pending_tool_calls lib (scheduled # rest) s =
     (let call = pd_call (st_value scheduled)
      in flow_bind (enqueue_tool_result lib (tool_message (tc_id call) (tc_name call)
           (jobj [(''error'', JStr ''tool call deferred while another call awaits interaction''),
                  (''retryable'', JBool True), (''deferred'', JBool True)])) s)
         (defer_pending_tool_calls lib rest))"

text \<open>The status a pausing result moves the turn to; any other stored status is unreachable.\<close>

fun pause_target :: "AgentRunStatus \<Rightarrow> TurnStatus option" where
  "pause_target (Run_AwaitingInput _) = Some AwaitingInput"
| "pause_target (Run_AwaitingApproval _) = Some AwaitingApproval"
| "pause_target _ = None"

definition after_wave ::
  "Library \<Rightarrow> PendingToolCall ToolSchedule \<Rightarrow> WaveState \<Rightarrow> RunState \<Rightarrow> RunState flow" where
  "after_wave lib schedule ws s =
     (case ws_paused ws of
        Some status \<Rightarrow>
          flow_bind (defer_pending_tool_calls lib (fst (ts_drain schedule)) s) (\<lambda>s.
            case pause_target status of
              None \<Rightarrow> Panic
            | Some to \<Rightarrow> finish to status (materialize_pending_steps s))
      | None \<Rightarrow>
          if ws_repeated_failure ws
          then finish Failed (Run_Failed ''repeated identical tool failure'') (materialize_pending_steps s)
          else Next s)"

lemma ready_wave_shrinks:
  assumes "\<not> ts_is_empty schedule"
  shows "length (ts_waiting (snd (take_ready_wave schedule))) < length (ts_waiting schedule)"
proof -
  have "take_wave schedule = Some (take_ready_wave schedule)"
    using assms by (simp add: take_wave_def ts_is_empty_def split: prod.splits)
  then show ?thesis using tool_schedule.take_shrinks by (metis prod.collapse)
qed

function run_waves ::
  "Library \<Rightarrow> AgentRunner \<Rightarrow> (nat \<Rightarrow> WavePoll) \<Rightarrow> nat \<Rightarrow> PendingToolCall ToolSchedule \<Rightarrow> RunState
     \<Rightarrow> RunState flow" where
  "run_waves lib ar polls k schedule s =
     (if ts_is_empty schedule then Next s
      else
        (case polls k of
           Wave_Cancelled \<Rightarrow> cancel_run s
         | Wave_Deadline \<Rightarrow> fail_pending TURN_ELAPSED_TIMEOUT_REASON s
         | Wave_Done outcome \<Rightarrow>
             flow_bind (process_outcomes lib ar outcome 0 (fst (take_ready_wave schedule))
                 \<lparr>ws_paused = None, ws_repeated_failure = False\<rparr> s) (\<lambda>(ws, s).
             flow_bind (after_wave lib (snd (take_ready_wave schedule)) ws s) (\<lambda>s.
               run_waves lib ar polls (k + 1) (snd (take_ready_wave schedule)) s))))"
  by pat_completeness auto
termination
  by (relation "measure (\<lambda>(lib, ar, polls, k, schedule, s). length (ts_waiting schedule))")
    (auto simp: ready_wave_shrinks)

declare run_waves.simps [simp del]

definition run_tools ::
  "Library \<Rightarrow> AgentRunner \<Rightarrow> PassInput \<Rightarrow> StreamState \<Rightarrow> RunState \<Rightarrow> RunState flow" where
  "run_tools lib ar inp ss s =
     (case try_map complete (map snd (ss_calls ss)) of
        Inl e \<Rightarrow> Return (Err e)
      | Inr calls \<Rightarrow>
          let s = push_messages [assistant_call_message (ss_text ss) calls] s;
              call_count = u32_of_len (length calls)
          in if saturating_add (rs_tool_calls s) call_count > max_tool_calls (ar_limits ar)
             then finish AwaitingInput
                    (Run_AwaitingInput (tool_limit_detail ar (rs_tool_calls s) call_count))
                    (materialize_pending_steps
                      (set_messages (append_tool_call_limit_results (ag_messages (rs_request s)) calls) s))
             else
               flow_bind (move_to RunningTool s) (\<lambda>s.
               flow_bind (emit_status s) (\<lambda>s.
               flow_bind (prepare_calls lib (in_prepare inp) 0 calls ts_empty s) (\<lambda>(schedule, s).
               flow_bind (run_waves lib ar (in_wave inp) 0 schedule s) (\<lambda>s.
               flow_bind (move_to CallingModel s) (\<lambda>s.
               flow_bind (emit_status s) (\<lambda>s.
                 admit_new lib ''tool_results_ready'' []
                   \<lparr>so_admission = ActiveTurnOnly, so_mergeable = False, so_turn_scoped = True\<rparr> True s)))))))"

section \<open>The loop\<close>

definition handle_response ::
  "Library \<Rightarrow> AgentRunner \<Rightarrow> PassInput \<Rightarrow> StreamState \<Rightarrow> StreamEnd \<Rightarrow> RunState \<Rightarrow> RunState flow" where
  "handle_response lib ar inp ss e s =
     flow_bind (handle_stream_end lib ss e s) (\<lambda>(v, s).
       if v = Verdict_Retry then Next s else
       flow_bind (handle_empty_response lib ss s) (\<lambda>(v, s).
         if v = Verdict_Retry then Next s else
         flow_bind (handle_truncated_response lib ss s) (\<lambda>(v, s).
           if v = Verdict_Retry then Next s else
           flow_bind (accept_text (ss_text ss) s) (\<lambda>s.
             if ss_calls ss = [] then answer_without_calls inp (ss_text ss) s
             else run_tools lib ar inp ss s))))"

definition call_model ::
  "Library \<Rightarrow> AgentRunner \<Rightarrow> PassInput \<Rightarrow> RunState \<Rightarrow> RunState flow" where
  "call_model lib ar inp s =
     flow_bind (count_model_call (compact_history (remind_of_budget ar s))) (\<lambda>s.
     flow_bind (start_stream lib ar (in_start inp) s) (\<lambda>(polls, s).
     flow_bind (stream_loop polls StreamState_new s) (\<lambda>(ss, e, s).
       handle_response lib ar inp ss e s)))"

definition run_step :: "Library \<Rightarrow> AgentRunner \<Rightarrow> PassInput \<Rightarrow> RunState \<Rightarrow> RunState flow" where
  "run_step lib ar inp s0 =
     (let s = drain_external_steps (in_steps inp) s0 in
      if in_cancelled inp then cancel_run s
      else
        (case take_next_batch (rs_queue s) of
           (None, q) \<Rightarrow> finish Completed Run_Completed (s\<lparr>rs_queue := q\<rparr>)
         | (Some batch, q) \<Rightarrow>
             let s = push_messages (batch_materialize batch) (s\<lparr>rs_queue := q\<rparr>) in
             if rs_model_calls s \<ge> max_model_calls (ar_limits ar)
             then fail_pending MODEL_CALL_LIMIT_REASON s
             else call_model lib ar inp s))"

fun run_loop :: "Library \<Rightarrow> AgentRunner \<Rightarrow> (nat \<Rightarrow> PassInput) \<Rightarrow> nat \<Rightarrow> nat \<Rightarrow> RunState \<Rightarrow> RunState flow" where
  "run_loop lib ar inputs k 0 s = Next s"
| "run_loop lib ar inputs k (Suc fuel) s =
     flow_bind (run_step lib ar (inputs k) s) (run_loop lib ar inputs (k + 1) fuel)"

definition initial_state :: "AgentRunner \<Rightarrow> AgentRunRequest \<Rightarrow> bool \<Rightarrow> nat \<Rightarrow> RunState" where
  "initial_state ar request ingress now =
     \<lparr>rs_machine = TurnMachine_new (ar_limits ar) now, rs_journal = AgentJournal_default,
      rs_request = request, rs_assistant_text = [], rs_input_tokens = 0, rs_output_tokens = 0,
      rs_model_calls = 0, rs_tool_calls = 0, rs_empty_responses = 0, rs_incomplete_responses = 0,
      rs_stream_retries = 0, rs_reminder_sent = False, rs_failures = Map.empty, rs_queue = sq_empty,
      rs_ingress = ingress, rs_next_id = 0\<rparr>"

definition start_run :: "Library \<Rightarrow> AgentRunner \<Rightarrow> AgentRunRequest \<Rightarrow> bool \<Rightarrow> nat \<Rightarrow> RunState flow" where
  "start_run lib ar request ingress now =
     (if \<not> f64_is_finite (ag_temperature request) \<or> f64_negative (ag_temperature request)
         \<or> \<not> f64_le_int (ag_temperature request) 2
      then Return (Err (AE_InvalidRequest ''temperature must be finite and between 0 and 2''))
      else
        flow_bind (move_to PreparingContext (initial_state ar request ingress now)) (\<lambda>s.
        flow_bind (emit_status s) (\<lambda>s.
        flow_bind (move_to CallingModel s) (\<lambda>s.
        flow_bind (emit_status s) (\<lambda>s.
          initial_step_queue lib s)))))"

text \<open>A run, with at most the given number of passes.\<close>

definition run_inner ::
  "Library \<Rightarrow> AgentRunner \<Rightarrow> AgentRunRequest \<Rightarrow> bool \<Rightarrow> nat \<Rightarrow> (nat \<Rightarrow> PassInput) \<Rightarrow> nat \<Rightarrow> RunState flow" where
  "run_inner lib ar request ingress now inputs fuel =
     flow_bind (start_run lib ar request ingress now) (run_loop lib ar inputs 0 fuel)"

end
