(* ===== verification/Agent_Safety.thy ===== *)
theory Agent_Safety
  imports Agent_Runner
begin

text \<open>
  Safety of the agent loop: an invariant that ties the counters of the run, the turn machine and
  the journal together, its preservation by every part of a pass, and from it the properties of a
  whole run, for every input of the environment.
\<close>

section \<open>Specifications of the control flow\<close>

definition flow_ok :: "('a \<Rightarrow> bool) \<Rightarrow> (AgentError + AgentRunResult \<Rightarrow> bool) \<Rightarrow> 'a flow \<Rightarrow> bool" where
  "flow_ok P Q f = (case f of Panic \<Rightarrow> False | Return r \<Rightarrow> Q r | Next s \<Rightarrow> P s)"

lemma flow_ok_simps [simp]:
  "flow_ok P Q (Next s) = P s" "flow_ok P Q (Return r) = Q r" "\<not> flow_ok P Q Panic"
  by (simp_all add: flow_ok_def)

lemma flow_ok_bind:
  assumes "flow_ok P Q f" and "\<And>s. P s \<Longrightarrow> flow_ok R Q (g s)"
  shows "flow_ok R Q (flow_bind f g)"
  using assms by (cases f) auto

lemma flow_ok_mono:
  assumes "flow_ok P Q f" and "\<And>s. P s \<Longrightarrow> P' s"
  shows "flow_ok P' Q f"
  using assms by (cases f) auto

section \<open>The invariant\<close>

definition synced :: "RunState \<Rightarrow> bool" where
  "synced s \<longleftrightarrow>
     (let p = jn_projection (rs_journal s) in
      journal_ok (rs_journal s) \<and> pj_assistant_text p = rs_assistant_text s \<and>
      pj_input_tokens p = rs_input_tokens s \<and> pj_output_tokens p = rs_output_tokens s \<and>
      pj_model_calls p = rs_model_calls s \<and> pj_tool_calls p = rs_tool_calls s)"

definition machine_inv :: "AgentRunner \<Rightarrow> RunState \<Rightarrow> bool" where
  "machine_inv ar s \<longleftrightarrow>
     (let m = rs_machine s in
      tm_limits m = ar_limits ar \<and> tm_model_calls m = rs_model_calls s \<and>
      tm_tool_calls m = rs_tool_calls s \<and> tm_cost_micros m = 0 \<and>
      rs_model_calls s \<le> max_model_calls (ar_limits ar) \<and>
      rs_tool_calls s \<le> max_tool_calls (ar_limits ar) \<and>
      tm_total_tokens m \<le> max_total_tokens (ar_limits ar))"

definition run_inv :: "AgentRunner \<Rightarrow> TurnStatus \<Rightarrow> RunState \<Rightarrow> bool" where
  "run_inv ar st s \<longleftrightarrow> synced s \<and> machine_inv ar s \<and> tm_status (rs_machine s) = st"

text \<open>The turn status that a result status stands for.\<close>

fun turn_status_of :: "AgentRunStatus \<Rightarrow> TurnStatus" where
  "turn_status_of Run_Completed = Completed"
| "turn_status_of (Run_AwaitingInput _) = AwaitingInput"
| "turn_status_of (Run_AwaitingApproval _) = AwaitingApproval"
| "turn_status_of (Run_Failed _) = Failed"
| "turn_status_of Run_Cancelled = Cancelled"

text \<open>The errors with which a run can end: neither a rejected transition nor an exceeded call limit,
  and never the internal error for cancellation.\<close>

fun run_error :: "AgentError \<Rightarrow> bool" where
  "run_error (AE_Turn e) \<longleftrightarrow> e = LimitExceeded ''tokens''"
| "run_error AE_Cancelled \<longleftrightarrow> False"
| "run_error _ \<longleftrightarrow> True"

definition run_end :: "AgentRunner \<Rightarrow> AgentError + AgentRunResult \<Rightarrow> bool" where
  "run_end ar res \<longleftrightarrow>
     (case res of
        Inl e \<Rightarrow> run_error e
      | Inr r \<Rightarrow>
          result_ok r \<and> rr_model_calls r \<le> max_model_calls (ar_limits ar) \<and>
          rr_tool_calls r \<le> max_tool_calls (ar_limits ar) \<and>
          (\<exists>p. replay_agent_ops (rr_ops r) = Ok p \<and> pj_status p = Some (turn_status_of (rr_status r))))"

subsection \<open>Updates the invariant does not see\<close>

lemma run_inv_frame [simp]:
  "run_inv ar st (s\<lparr>rs_queue := q\<rparr>) = run_inv ar st s"
  "run_inv ar st (s\<lparr>rs_request := r\<rparr>) = run_inv ar st s"
  "run_inv ar st (s\<lparr>rs_next_id := n\<rparr>) = run_inv ar st s"
  "run_inv ar st (s\<lparr>rs_ingress := b\<rparr>) = run_inv ar st s"
  "run_inv ar st (s\<lparr>rs_failures := f\<rparr>) = run_inv ar st s"
  "run_inv ar st (s\<lparr>rs_reminder_sent := b\<rparr>) = run_inv ar st s"
  "run_inv ar st (s\<lparr>rs_empty_responses := k\<rparr>) = run_inv ar st s"
  "run_inv ar st (s\<lparr>rs_incomplete_responses := k\<rparr>) = run_inv ar st s"
  "run_inv ar st (s\<lparr>rs_stream_retries := k\<rparr>) = run_inv ar st s"
  by (simp_all add: run_inv_def synced_def machine_inv_def Let_def)

lemma run_inv_messages [simp]:
  "run_inv ar st (set_messages ms s) = run_inv ar st s"
  "run_inv ar st (push_messages ms s) = run_inv ar st s"
  by (simp_all add: set_messages_def push_messages_def)

lemma run_inv_helpers [simp]:
  "run_inv ar st (drain_external_steps rs s) = run_inv ar st s"
  "run_inv ar st (close_and_drain_external_steps rs s) = run_inv ar st s"
  "run_inv ar st (materialize_pending_steps s) = run_inv ar st s"
  "run_inv ar st (materialize_cancelled_steps s) = run_inv ar st s"
  "run_inv ar st (remind_of_budget ar s) = run_inv ar st s"
  "run_inv ar st (compact_history s) = run_inv ar st s"
  "run_inv ar st (grow_output_budget b s) = run_inv ar st s"
  "run_inv ar st (forget_failure fp s) = run_inv ar st s"
  by (simp_all add: drain_external_steps_def close_and_drain_external_steps_def
      materialize_pending_steps_def materialize_cancelled_steps_def remind_of_budget_def
      compact_history_def grow_output_budget_def forget_failure_def case_prod_beta Let_def)

lemma model_calls_frame [simp]:
  "rs_model_calls (set_messages ms s) = rs_model_calls s"
  "rs_model_calls (push_messages ms s) = rs_model_calls s"
  "rs_model_calls (drain_external_steps rs s) = rs_model_calls s"
  "rs_model_calls (remind_of_budget ar s) = rs_model_calls s"
  "rs_model_calls (compact_history s) = rs_model_calls s"
  by (simp_all add: set_messages_def push_messages_def drain_external_steps_def remind_of_budget_def
      compact_history_def Let_def)

subsection \<open>Journal, machine and results\<close>

lemma append_op_Next:
  assumes "journal_ok (rs_journal s)"
  obtains j where "append_op operation s = Next (s\<lparr>rs_journal := j\<rparr>)" and "journal_ok j"
    and "jn_projection j = (project operation (jn_projection (rs_journal s)))
      \<lparr>pj_last_sequence := saturating_add (pj_last_sequence (jn_projection (rs_journal s))) 1\<rparr>"
  using journal_append_Some [of operation "rs_journal s"] journal_append_ok [OF assms]
  by (auto simp: append_op_def)

lemma emit_status_inv:
  assumes "run_inv ar st s"
  shows "flow_ok (\<lambda>s'. run_inv ar st s' \<and> pj_status (jn_projection (rs_journal s')) = Some st \<and>
      rs_model_calls s' = rs_model_calls s \<and> rs_tool_calls s' = rs_tool_calls s) Q (emit_status s)"
proof -
  from assms have "journal_ok (rs_journal s)" by (simp add: run_inv_def synced_def Let_def)
  then show ?thesis
    by (rule append_op_Next [where operation = "StatusChanged (tm_status (rs_machine s))"])
      (use assms in \<open>auto simp: emit_status_def run_inv_def synced_def machine_inv_def Let_def\<close>)
qed

lemma move_to_inv:
  assumes "run_inv ar st s" and "valid st to"
  shows "flow_ok (\<lambda>s'. run_inv ar to s' \<and> rs_model_calls s' = rs_model_calls s) Q (move_to to s)"
  using assms by (auto simp: move_to_def transition_def run_inv_def synced_def machine_inv_def Let_def)

lemma run_result_end:
  assumes "run_inv ar (turn_status_of status) s"
    and "pj_status (jn_projection (rs_journal s)) = Some (turn_status_of status)"
  shows "flow_ok P (run_end ar) (run_result status s)"
  using assms
  by (auto simp: run_result_def run_inv_def synced_def machine_inv_def run_end_def result_ok_def
      journal_ok_def Let_def)

lemma finish_end:
  assumes "run_inv ar st s" and "valid st to" and "to = turn_status_of status"
  shows "flow_ok P (run_end ar) (finish to status s)"
  unfolding finish_def
  by (rule flow_ok_bind [OF move_to_inv [OF assms(1,2)]], rule flow_ok_bind, rule emit_status_inv)
    (auto simp: assms(3) intro: run_result_end)

lemma cancel_run_end:
  "run_inv ar st s \<Longrightarrow> valid st Cancelled \<Longrightarrow> flow_ok P (run_end ar) (cancel_run s)"
  by (simp add: cancel_run_def finish_end)

lemma fail_run_end:
  "run_inv ar st s \<Longrightarrow> valid st Failed \<Longrightarrow> flow_ok P (run_end ar) (fail_run reason s)"
  by (simp add: fail_run_def finish_end)

lemma fail_pending_end:
  "run_inv ar st s \<Longrightarrow> valid st Failed \<Longrightarrow> flow_ok P (run_end ar) (fail_pending reason s)"
  by (simp add: fail_pending_def fail_run_end)

lemma admit_new_inv:
  assumes "run_inv ar st s" and "has_active_turn \<or> so_admission options \<noteq> ActiveTurnOnly"
  shows "flow_ok (\<lambda>s'. run_inv ar st s' \<and> rs_model_calls s' = rs_model_calls s) Q
    (admit_new lib kind ms options has_active_turn s)"
proof -
  have "\<exists>t. target (so_admission options) has_active_turn = Inr t"
    using assms(2) by (cases "so_admission options"; cases has_active_turn) auto
  with assms(1) show ?thesis
    by (auto simp: admit_new_def admit_def StepRequest_new_def Let_def)
qed

lemma preserve_partial_inv:
  assumes "run_inv ar st s"
  shows "flow_ok (\<lambda>s'. run_inv ar st s' \<and> rs_model_calls s' = rs_model_calls s) Q
    (preserve_partial_model_text text s)"
proof -
  from assms have j: "journal_ok (rs_journal s)" by (simp add: run_inv_def synced_def Let_def)
  show ?thesis
    by (rule append_op_Next [OF j, of "TextAppended text"])
      (use assms in \<open>auto simp: preserve_partial_model_text_def run_inv_def synced_def
        machine_inv_def Let_def push_messages_def set_messages_def\<close>)
qed

lemma accept_text_inv:
  assumes "run_inv ar st s"
  shows "flow_ok (\<lambda>s'. run_inv ar st s' \<and> rs_model_calls s' = rs_model_calls s) Q (accept_text text s)"
proof -
  from assms have j: "journal_ok (rs_journal s)" by (simp add: run_inv_def synced_def Let_def)
  show ?thesis
    by (rule append_op_Next [OF j, of "TextAppended text"])
      (use assms in \<open>auto simp: accept_text_def run_inv_def synced_def machine_inv_def Let_def\<close>)
qed

lemma record_usage_inv:
  assumes "run_inv ar st s"
  shows "flow_ok (\<lambda>s'. run_inv ar st s' \<and> rs_model_calls s' = rs_model_calls s) (run_end ar)
    (record_usage_event i j s)"
proof -
  let ?s = "s\<lparr>rs_machine := snd (record_usage i j (rs_machine s)),
      rs_input_tokens := saturating_add (rs_input_tokens s) i,
      rs_output_tokens := saturating_add (rs_output_tokens s) j\<rparr>"
  from assms have j: "journal_ok (rs_journal ?s)" by (simp add: run_inv_def synced_def Let_def)
  show ?thesis
    by (rule append_op_Next [OF j, of "UsageAdded i j"])
      (use assms in \<open>auto simp: record_usage_event_def record_usage_def run_inv_def synced_def
        machine_inv_def run_end_def Let_def\<close>)
qed

lemma count_model_call_inv:
  assumes "run_inv ar st s" and "rs_model_calls s < max_model_calls (ar_limits ar)"
  shows "flow_ok (\<lambda>s'. run_inv ar st s' \<and> rs_model_calls s' = rs_model_calls s + 1) Q (count_model_call s)"
proof -
  obtain r m where m: "record_model_call 0 (rs_machine s) = (r, m)" by fastforce
  have n: "rs_model_calls s \<noteq> - 1" using assms(2) by auto
  have le: "rs_model_calls s + 1 \<le> max_model_calls (ar_limits ar)"
    using assms(2) by (simp add: inc_le)
  have facts: "r = Inr () \<and> tm_limits m = ar_limits ar \<and> tm_status m = st \<and>
      tm_model_calls m = rs_model_calls s + 1 \<and> tm_tool_calls m = rs_tool_calls s \<and>
      tm_cost_micros m = 0 \<and> tm_total_tokens m = tm_total_tokens (rs_machine s)"
    using m assms(1) le by (auto simp: record_model_call_def run_inv_def machine_inv_def Let_def split: if_splits)
  let ?s = "s\<lparr>rs_machine := m, rs_model_calls := rs_model_calls s + 1\<rparr>"
  from assms have j: "journal_ok (rs_journal ?s)" by (simp add: run_inv_def synced_def Let_def)
  show ?thesis
    by (rule append_op_Next [OF j, of ModelCallStarted])
      (use assms le saturating_succ_less [OF n] facts m in \<open>auto simp: count_model_call_def
        run_inv_def synced_def machine_inv_def Let_def\<close>)
qed

lemma count_tool_call_inv:
  assumes "run_inv ar st s" and "rs_tool_calls s < max_tool_calls (ar_limits ar)"
  shows "flow_ok (\<lambda>s'. run_inv ar st s' \<and> rs_model_calls s' = rs_model_calls s \<and>
      rs_tool_calls s' = rs_tool_calls s + 1) Q (count_tool_call call s)"
proof -
  let ?s = "s\<lparr>rs_machine := snd (record_tool_call (rs_machine s)),
      rs_tool_calls := rs_tool_calls s + 1\<rparr>"
  from assms have j: "journal_ok (rs_journal ?s)" by (simp add: run_inv_def synced_def Let_def)
  have n: "rs_tool_calls s \<noteq> - 1" using assms(2) by auto
  have le: "rs_tool_calls s + 1 \<le> max_tool_calls (ar_limits ar)"
    using assms(2) by (simp add: inc_le)
  show ?thesis
    by (rule append_op_Next [OF j, of "ToolCallStarted (tc_id call) (tc_name call)"])
      (use assms le saturating_succ_less [OF n] in \<open>auto simp: count_tool_call_def record_tool_call_def
        run_inv_def synced_def machine_inv_def Let_def\<close>)
qed

subsection \<open>The stream\<close>

text \<open>The invariant during a pass, which has started a given number of model calls.\<close>

definition pass_inv :: "AgentRunner \<Rightarrow> TurnStatus \<Rightarrow> u32 \<Rightarrow> RunState \<Rightarrow> bool" where
  "pass_inv ar st n s \<longleftrightarrow> run_inv ar st s \<and> rs_model_calls s = n"

lemma pass_inv_frame [simp]:
  "pass_inv ar st n (s\<lparr>rs_queue := q\<rparr>) = pass_inv ar st n s"
  "pass_inv ar st n (s\<lparr>rs_request := r\<rparr>) = pass_inv ar st n s"
  "pass_inv ar st n (s\<lparr>rs_ingress := b\<rparr>) = pass_inv ar st n s"
  "pass_inv ar st n (s\<lparr>rs_failures := f\<rparr>) = pass_inv ar st n s"
  "pass_inv ar st n (s\<lparr>rs_empty_responses := k\<rparr>) = pass_inv ar st n s"
  "pass_inv ar st n (s\<lparr>rs_incomplete_responses := k\<rparr>) = pass_inv ar st n s"
  "pass_inv ar st n (s\<lparr>rs_stream_retries := k\<rparr>) = pass_inv ar st n s"
  "pass_inv ar st n (set_messages ms s) = pass_inv ar st n s"
  "pass_inv ar st n (push_messages ms s) = pass_inv ar st n s"
  "pass_inv ar st n (drain_external_steps rs s) = pass_inv ar st n s"
  "pass_inv ar st n (close_and_drain_external_steps rs s) = pass_inv ar st n s"
  "pass_inv ar st n (materialize_pending_steps s) = pass_inv ar st n s"
  "pass_inv ar st n (grow_output_budget b s) = pass_inv ar st n s"
  "pass_inv ar st n (forget_failure fp s) = pass_inv ar st n s"
  by (simp_all add: pass_inv_def close_and_drain_external_steps_def materialize_pending_steps_def
      grow_output_budget_def forget_failure_def Let_def case_prod_beta)

lemma pass_inv_run: "pass_inv ar st n s \<Longrightarrow> run_inv ar st s"
  by (simp add: pass_inv_def)

lemma pass_ends:
  assumes "pass_inv ar st n s"
  shows "valid st Cancelled \<Longrightarrow> flow_ok P (run_end ar) (cancel_run s)"
    and "valid st Failed \<Longrightarrow> flow_ok P (run_end ar) (fail_pending reason s)"
    and "valid st to \<Longrightarrow> to = turn_status_of status \<Longrightarrow> flow_ok P (run_end ar) (finish to status s)"
  using pass_inv_run [OF assms] by (auto intro: cancel_run_end fail_pending_end finish_end)

lemma admit_new_pass:
  assumes "pass_inv ar st n s" and "has_active_turn \<or> so_admission options \<noteq> ActiveTurnOnly"
  shows "flow_ok (pass_inv ar st n) Q (admit_new lib kind ms options has_active_turn s)"
  by (rule flow_ok_mono [OF admit_new_inv]) (use assms in \<open>auto simp: pass_inv_def\<close>)

lemma preserve_partial_pass:
  assumes "pass_inv ar st n s"
  shows "flow_ok (pass_inv ar st n) Q (preserve_partial_model_text text s)"
  by (rule flow_ok_mono [OF preserve_partial_inv]) (use assms in \<open>auto simp: pass_inv_def\<close>)

lemma accept_text_pass:
  assumes "pass_inv ar st n s"
  shows "flow_ok (pass_inv ar st n) Q (accept_text text s)"
  by (rule flow_ok_mono [OF accept_text_inv]) (use assms in \<open>auto simp: pass_inv_def\<close>)

lemma cancel_streaming_end:
  assumes "pass_inv ar st n s" and "valid st Cancelled"
  shows "flow_ok P (run_end ar) (cancel_streaming text s)"
  unfolding cancel_streaming_def
  by (rule flow_ok_bind [OF preserve_partial_pass [OF assms(1)]]) (use assms(2) pass_ends(1) in blast)

lemma stream_loop_inv:
  assumes "pass_inv ar CallingModel n s"
  shows "flow_ok (\<lambda>(ss, e, s'). pass_inv ar CallingModel n s') (run_end ar) (stream_loop polls ss s)"
  using assms
proof (induction polls ss s rule: stream_loop.induct)
  case (5 r polls ss s)
  have "\<exists>t. target (sr_admission r) True = Inr t" by (cases "sr_admission r") auto
  with 5 show ?case by (auto simp: admit_def)
next
  case (9 event polls ss s)
  show ?case
  proof (cases event)
    case (Usage i j)
    have "flow_ok (\<lambda>(ss, e, s'). pass_inv ar CallingModel n s') (run_end ar)
      (flow_bind (record_usage_event i j s) (\<lambda>s.
        stream_loop polls (ss\<lparr>ss_call_output_tokens := max (ss_call_output_tokens ss) j\<rparr>) s))"
      by (rule flow_ok_bind [OF flow_ok_mono [OF record_usage_inv [OF pass_inv_run [OF 9(7)]]]])
        (use 9 Usage in \<open>auto simp: pass_inv_def\<close>)
    with Usage show ?thesis by simp
  qed (use 9 in auto)
qed (auto intro: cancel_streaming_end)

lemma stream_with_retry_errors:
  assumes "stream_with_retry ts mx poll sl k a c r = (Inl e, r')"
  shows "e = AE_Cancelled \<or> run_error e"
  using assms
proof (induction "retry_measure mx a c r" arbitrary: k a c r rule: less_induct)
  case less
  show ?case
  proof (cases rule: stream_with_retry_round [where poll = poll and k = k and r = r and sl = sl
        and ts = ts and mx = mx and a = a and c = c])
    case (stop res)
    from stop(1) [of poll sl] less.prems have "res = Inl e" by simp
    with stop(2) show ?thesis by auto
  next
    case (again a' c' r'')
    with less.prems less.hyps [OF again(2), of "k + 1"] show ?thesis by simp
  qed
qed

lemma start_stream_inv:
  assumes "pass_inv ar CallingModel n s"
  shows "flow_ok (\<lambda>(polls, s'). pass_inv ar CallingModel n s') (run_end ar) (start_stream lib ar start s)"
proof (cases start)
  case (Start_Stream poll sl)
  obtain res r' where r: "stream_with_retry (lib_to_string lib) (ar_max_provider_retries ar) poll sl 0 0
      False (model_request_of (rs_request s)) = (res, r')" by fastforce
  show ?thesis
  proof (cases res)
    case (Inl e)
    with stream_with_retry_errors [OF r [unfolded Inl]] r Start_Stream assms show ?thesis
      by (cases e) (auto simp: start_stream_def run_end_def intro!: pass_ends)
  qed (use r Start_Stream assms in \<open>auto simp: start_stream_def\<close>)
qed (use assms in \<open>auto simp: start_stream_def intro!: pass_ends\<close>)

subsection \<open>The response\<close>

abbreviation verdict_inv :: "AgentRunner \<Rightarrow> u32 \<Rightarrow> StreamVerdict \<times> RunState \<Rightarrow> bool" where
  "verdict_inv ar n \<equiv> \<lambda>(v, s'). pass_inv ar CallingModel n s'"

lemma retry_inv:
  assumes "flow_ok (pass_inv ar CallingModel n) Q f"
  shows "flow_ok (verdict_inv ar n) Q (flow_bind f (\<lambda>s. Next (v, s)))"
  by (rule flow_ok_bind [OF assms]) simp

lemma handle_stream_end_inv:
  assumes "pass_inv ar CallingModel n s"
  shows "flow_ok (verdict_inv ar n) (run_end ar) (handle_stream_end lib ss e s)"
proof -
  have retry: "flow_ok (verdict_inv ar n) (run_end ar)
      (flow_bind (enqueue_model_stream_retry lib (s\<lparr>rs_stream_retries := rs_stream_retries s + 1\<rparr>))
         (\<lambda>s. Next (Verdict_Retry, s)))"
    unfolding enqueue_model_stream_retry_def
    by (rule retry_inv, rule admit_new_pass) (use assms in auto)
  have preserve: "flow_ok (verdict_inv ar n) (run_end ar)
      (flow_bind (preserve_partial_model_text (ss_text ss) s) g)"
    if "\<And>s'. pass_inv ar CallingModel n s' \<Longrightarrow>
      flow_ok (verdict_inv ar n) (run_end ar) (g s')" for g
    by (rule flow_ok_bind [OF preserve_partial_pass]) (use assms that in auto)
  show ?thesis
  proof (cases e)
    case (Stream_Error error)
    have "run_end ar (Err (AE_Gateway error))" by (simp add: run_end_def)
    with Stream_Error retry preserve [of "\<lambda>s. Return (Err (AE_Gateway error))"] show ?thesis
      by (simp add: handle_stream_end_def Let_def)
  next
    case (Stream_Failure reason)
    with retry preserve [of "fail_pending reason"] show ?thesis
      by (simp add: handle_stream_end_def Let_def pass_ends)
  qed (use assms in \<open>simp add: handle_stream_end_def\<close>)
qed

lemma handle_empty_response_inv:
  assumes "pass_inv ar CallingModel n s"
  shows "flow_ok (verdict_inv ar n) (run_end ar) (handle_empty_response lib ss s)"
proof -
  have "flow_ok (verdict_inv ar n) (run_end ar)
      (flow_bind (enqueue_empty_model_retry lib
        (grow_output_budget b (s\<lparr>rs_empty_responses := k\<rparr>))) (\<lambda>s. Next (Verdict_Retry, s)))" for b k
    unfolding enqueue_empty_model_retry_def
    by (rule retry_inv, rule admit_new_pass) (use assms in auto)
  with assms show ?thesis
    by (simp add: handle_empty_response_def pass_ends)
qed

lemma handle_truncated_response_inv:
  assumes "pass_inv ar CallingModel n s"
  shows "flow_ok (verdict_inv ar n) (run_end ar) (handle_truncated_response lib ss s)"
proof -
  have again: "flow_ok (verdict_inv ar n) (run_end ar)
      (flow_bind (enqueue_incomplete_model_retry lib (grow_output_budget True s'))
        (\<lambda>s. Next (Verdict_Retry, s)))" if "pass_inv ar CallingModel n s'" for s'
    unfolding enqueue_incomplete_model_retry_def
    by (rule retry_inv, rule admit_new_pass) (use that in auto)
  have preserve: "flow_ok (verdict_inv ar n) (run_end ar)
      (flow_bind (preserve_partial_model_text (ss_text ss) s1) g)"
    if "pass_inv ar CallingModel n s1" and "\<And>s'. pass_inv ar CallingModel n s' \<Longrightarrow>
      flow_ok (verdict_inv ar n) (run_end ar) (g s')" for g s1
    by (rule flow_ok_bind [OF preserve_partial_pass]) (use that in auto)
  have "flow_ok (verdict_inv ar n) (run_end ar)
      (flow_bind (preserve_partial_model_text (ss_text ss) s) (fail_pending INCOMPLETE_MODEL_RESPONSE_REASON))"
    by (rule preserve) (use assms in \<open>auto intro: pass_ends\<close>)
  with preserve [OF _ again] assms show ?thesis
    by (simp add: handle_truncated_response_def)
qed

lemma answer_without_calls_inv:
  assumes "pass_inv ar CallingModel n s"
  shows "flow_ok (pass_inv ar CallingModel n) (run_end ar) (answer_without_calls inp text s)"
  using assms
  by (auto simp: answer_without_calls_def Let_def intro!: pass_ends)

subsection \<open>Tools\<close>

lemma enqueue_tool_result_inv:
  assumes "pass_inv ar st n s"
  shows "flow_ok (pass_inv ar st n) Q (enqueue_tool_result lib m s)"
  unfolding enqueue_tool_result_def
  by (rule admit_new_pass) (use assms in auto)

definition paused_ok :: "WaveState \<Rightarrow> bool" where
  "paused_ok ws = (case ws_paused ws of None \<Rightarrow> True | Some x \<Rightarrow> pause_target x \<noteq> None)"

lemma process_outcome_inv:
  assumes "pass_inv ar st n s" and "paused_ok ws"
  shows "flow_ok (\<lambda>(ws', s'). pass_inv ar st n s' \<and> paused_ok ws') Q
    (process_outcome lib ar pending result ws s)"
proof -
  have answer: "flow_ok (\<lambda>(ws', s'). pass_inv ar st n s' \<and> paused_ok ws') Q
      (flow_bind (enqueue_tool_result lib m s') (\<lambda>s. Next (ws', s)))"
    if "pass_inv ar st n s'" and "ws_paused ws' = ws_paused ws" for m s' ws'
    by (rule flow_ok_bind [OF enqueue_tool_result_inv]) (use that assms(2) in \<open>auto simp: paused_ok_def\<close>)
  have keep: "paused_ok ws'" if "ws_paused ws' = ws_paused ws" for ws' :: WaveState
    using that assms(2) by (simp add: paused_ok_def)
  show ?thesis
  proof (cases result)
    case (TR_AwaitingInput d)
    with assms show ?thesis
      by (simp add: process_outcome_def get_or_insert_def paused_ok_def split: option.splits)
  next
    case (TR_AwaitingApproval d)
    with assms show ?thesis
      by (simp add: process_outcome_def get_or_insert_def paused_ok_def split: option.splits)
  qed (use assms in \<open>simp_all add: process_outcome_def Let_def answer keep\<close>)
qed

lemma process_outcomes_inv:
  assumes "pass_inv ar st n s" and "paused_ok ws"
  shows "flow_ok (\<lambda>(ws', s'). pass_inv ar st n s' \<and> paused_ok ws') Q
    (process_outcomes lib ar outcome k wave ws s)"
  using assms
proof (induction wave arbitrary: k ws s)
  case (Cons x wave)
  show ?case
    unfolding process_outcomes.simps
    by (rule flow_ok_bind [OF process_outcome_inv [OF Cons.prems]]) (use Cons.IH in auto)
qed simp

lemma defer_pending_inv:
  assumes "pass_inv ar st n s"
  shows "flow_ok (pass_inv ar st n) Q (defer_pending_tool_calls lib xs s)"
  using assms
proof (induction xs arbitrary: s)
  case (Cons x xs)
  show ?case
    unfolding defer_pending_tool_calls.simps Let_def
    by (rule flow_ok_bind [OF enqueue_tool_result_inv [OF Cons.prems]]) (rule Cons.IH)
qed simp

lemma pause_target_status: "pause_target x = Some to \<Longrightarrow> to = turn_status_of x \<and> valid RunningTool to"
  by (cases x) auto

lemma after_wave_inv:
  assumes "pass_inv ar RunningTool n s"
    and "paused_ok ws"
  shows "flow_ok (pass_inv ar RunningTool n) (run_end ar) (after_wave lib schedule ws s)"
proof (cases "ws_paused ws")
  case None
  with assms(1) show ?thesis by (auto simp: after_wave_def intro!: pass_ends)
next
  case (Some status)
  with assms(2) obtain to where to: "pause_target status = Some to" by (auto simp: paused_ok_def)
  have "flow_ok (pass_inv ar RunningTool n) (run_end ar)
    (flow_bind (defer_pending_tool_calls lib (fst (ts_drain schedule)) s)
      (\<lambda>s. finish to status (materialize_pending_steps s)))"
    by (rule flow_ok_bind [OF defer_pending_inv [OF assms(1)]])
      (use pause_target_status [OF to] in \<open>auto intro!: pass_ends\<close>)
  with Some to show ?thesis by (simp add: after_wave_def)
qed

lemma run_waves_inv:
  assumes "pass_inv ar RunningTool n s"
  shows "flow_ok (pass_inv ar RunningTool n) (run_end ar) (run_waves lib ar polls k schedule s)"
  using assms
proof (induction "length (ts_waiting schedule)" arbitrary: k schedule s rule: less_induct)
  case less
  note step = run_waves.simps [of lib ar polls k schedule s]
  show ?case
  proof (cases "ts_is_empty schedule")
    case False
    show ?thesis
    proof (cases "polls k")
      case (Wave_Done outcome)
      have "flow_ok (pass_inv ar RunningTool n) (run_end ar)
        (flow_bind (process_outcomes lib ar outcome 0 (fst (take_ready_wave schedule))
             \<lparr>ws_paused = None, ws_repeated_failure = False\<rparr> s) (\<lambda>(ws, s).
         flow_bind (after_wave lib (snd (take_ready_wave schedule)) ws s) (\<lambda>s.
           run_waves lib ar polls (k + 1) (snd (take_ready_wave schedule)) s)))"
        by (rule flow_ok_bind [OF process_outcomes_inv [OF less.prems]])
          (use less.hyps ready_wave_shrinks [OF False] in
            \<open>auto simp: paused_ok_def intro!: flow_ok_bind [OF after_wave_inv]\<close>)
      with False Wave_Done show ?thesis by (simp add: step)
    qed (use False less.prems in \<open>auto simp: step intro!: pass_ends\<close>)
  qed (use less.prems in \<open>simp add: step\<close>)
qed

lemma prepare_calls_inv:
  assumes "pass_inv ar RunningTool n s"
    and "unat (rs_tool_calls s) + length calls \<le> unat (max_tool_calls (ar_limits ar))"
  shows "flow_ok (\<lambda>(schedule, s'). pass_inv ar RunningTool n s') (run_end ar)
    (prepare_calls lib polls k calls schedule s)"
  using assms
proof (induction calls arbitrary: k schedule s)
  case (Cons call calls)
  have less: "rs_tool_calls s < max_tool_calls (ar_limits ar)"
    using Cons.prems(2) by (simp add: word_less_nat_alt)
  then have "rs_tool_calls s \<noteq> - 1" by auto
  then have succ: "unat (rs_tool_calls s + 1) = Suc (unat (rs_tool_calls s))" by (rule unat_succ)
  have prep: "flow_ok (\<lambda>_. True) (run_end ar) (prepare_call lib p call s')"
    if "pass_inv ar RunningTool n s'" for p s'
    using that by (auto simp: prepare_call_def intro: pass_ends split: sum.splits PreparePoll.splits)
  have rest: "flow_ok (\<lambda>(schedule, s'). pass_inv ar RunningTool n s') (run_end ar)
      (flow_bind (prepare_call lib (polls k) call s') (\<lambda>prepared.
        prepare_calls lib polls (k + 1) calls (schedule_call call prepared schedule) s'))"
    if "pass_inv ar RunningTool n s' \<and> rs_tool_calls s' = rs_tool_calls s + 1" for s'
    by (rule flow_ok_bind [OF prep]) (use that Cons succ in auto)
  show ?case
    unfolding prepare_calls.simps
    by (rule flow_ok_bind [OF flow_ok_mono [OF count_tool_call_inv [OF pass_inv_run less]]])
      (use Cons.prems(1) rest in \<open>auto simp: pass_inv_def\<close>)
qed simp

lemma move_emit_pass:
  assumes "pass_inv ar st n s" and "valid st to"
    and "\<And>s'. pass_inv ar to n s' \<Longrightarrow> rs_tool_calls s' = rs_tool_calls s \<Longrightarrow> flow_ok P (run_end ar) (g s')"
  shows "flow_ok P (run_end ar) (flow_bind (move_to to s) (\<lambda>s. flow_bind (emit_status s) g))"
proof -
  have m: "move_to to s = Next (s\<lparr>rs_machine := (rs_machine s)\<lparr>tm_status := to\<rparr>\<rparr>)"
    using assms(1,2) by (simp add: move_to_def transition_def pass_inv_def run_inv_def)
  let ?s = "s\<lparr>rs_machine := (rs_machine s)\<lparr>tm_status := to\<rparr>\<rparr>"
  have i: "pass_inv ar to n ?s"
    using assms(1) by (auto simp: pass_inv_def run_inv_def synced_def machine_inv_def Let_def)
  have "flow_ok (\<lambda>s'. pass_inv ar to n s' \<and> rs_tool_calls s' = rs_tool_calls s) (run_end ar) (emit_status ?s)"
    by (rule flow_ok_mono [OF emit_status_inv [OF pass_inv_run [OF i]]])
      (use assms(1) in \<open>auto simp: pass_inv_def\<close>)
  then have "flow_ok P (run_end ar) (flow_bind (emit_status ?s) g)"
    by (rule flow_ok_bind) (use assms(3) in auto)
  with m show ?thesis by simp
qed

lemma tool_limit_room:
  assumes "\<not> saturating_add t (u32_of_len k) > m" and "m \<noteq> u32_max"
  shows "unat t + k \<le> unat m"
proof -
  have "unat m < 2 ^ 32 - 1" using succ_no_overflow [OF assms(2)] by simp
  moreover have "min (unat t + unat (u32_of_len k)) (2 ^ 32 - 1) \<le> unat m"
    using assms(1) by (simp add: word_le_nat_alt not_less unat_saturating_add)
  ultimately have le: "unat t + unat (u32_of_len k) \<le> unat m" by (simp add: min_def split: if_splits)
  have "k < 2 ^ 32"
  proof (rule ccontr)
    assume "\<not> k < 2 ^ 32"
    then have "unat (u32_of_len k) = 2 ^ 32 - 1"
      using unat_max [where 'a = 32] by (simp add: u32_of_len_def)
    with le \<open>unat m < 2 ^ 32 - 1\<close> show False by simp
  qed
  then have "unat (u32_of_len k) = k" by (simp add: u32_of_len_def unsigned_of_nat take_bit_nat_eq_self)
  with le show ?thesis by simp
qed

lemma complete_error: "try_map complete bs = Inl e \<Longrightarrow> run_error e"
proof (induction bs)
  case (Cons b bs)
  show ?case
  proof (cases "complete b")
    case (Inl e')
    then have "run_error e'" by (auto simp: complete_def and_then_Err_iff)
    with Inl Cons.prems show ?thesis by simp
  next
    case (Inr c)
    with Cons show ?thesis by (cases "try_map complete bs") auto
  qed
qed simp

lemma run_tools_inv:
  assumes "pass_inv ar CallingModel n s" and "max_tool_calls (ar_limits ar) \<noteq> u32_max"
  shows "flow_ok (pass_inv ar CallingModel n) (run_end ar) (run_tools lib ar inp ss s)"
proof (cases "try_map complete (map snd (ss_calls ss))")
  case (Inl e)
  with complete_error [OF Inl] show ?thesis by (simp add: run_tools_def run_end_def)
next
  case (Inr calls)
  let ?s = "push_messages [assistant_call_message (ss_text ss) calls] s"
  have i: "pass_inv ar CallingModel n ?s" using assms(1) by simp
  show ?thesis
  proof (cases "saturating_add (rs_tool_calls ?s) (u32_of_len (length calls)) > max_tool_calls (ar_limits ar)")
    case True
    with Inr i show ?thesis
      by (simp add: run_tools_def Let_def) (rule pass_ends, auto)
  next
    case False
    have room: "unat (rs_tool_calls ?s) + length calls \<le> unat (max_tool_calls (ar_limits ar))"
      by (rule tool_limit_room [OF False assms(2)])
    have resume: "flow_ok (pass_inv ar CallingModel n) (run_end ar)
        (flow_bind (run_waves lib ar (in_wave inp) 0 schedule s') (\<lambda>s.
         flow_bind (move_to CallingModel s) (\<lambda>s. flow_bind (emit_status s) (\<lambda>s.
           admit_new lib kind [] \<lparr>so_admission = ActiveTurnOnly, so_mergeable = False,
             so_turn_scoped = True\<rparr> True s))))" if "pass_inv ar RunningTool n s'" for kind schedule s'
      by (rule flow_ok_bind [OF run_waves_inv [OF that]], rule move_emit_pass) (auto intro: admit_new_pass)
    show ?thesis
      using Inr False unfolding run_tools_def Let_def
      by simp (rule move_emit_pass [OF i], simp, rule flow_ok_bind [OF prepare_calls_inv],
        use room resume in auto)
  qed
qed

subsection \<open>Passes and runs\<close>

lemma handle_response_inv:
  assumes "pass_inv ar CallingModel n s" and "max_tool_calls (ar_limits ar) \<noteq> u32_max"
  shows "flow_ok (pass_inv ar CallingModel n) (run_end ar) (handle_response lib ar inp ss e s)"
proof -
  have accepted: "flow_ok (pass_inv ar CallingModel n) (run_end ar)
      (flow_bind (accept_text (ss_text ss) s') (\<lambda>s.
        if ss_calls ss = [] then answer_without_calls inp (ss_text ss) s else run_tools lib ar inp ss s))"
    if "pass_inv ar CallingModel n s'" for s'
    by (rule flow_ok_bind [OF accept_text_pass [OF that]])
      (use assms(2) answer_without_calls_inv run_tools_inv in auto)
  have verdict: "flow_ok (pass_inv ar CallingModel n) (run_end ar)
      (flow_bind f (\<lambda>(v, s). if v = Verdict_Retry then Next s else g s))"
    if "flow_ok (verdict_inv ar n) (run_end ar) f"
      and "\<And>s'. pass_inv ar CallingModel n s' \<Longrightarrow> flow_ok (pass_inv ar CallingModel n) (run_end ar) (g s')"
    for f g
    by (rule flow_ok_bind [OF that(1)]) (use that(2) in auto)
  show ?thesis
    unfolding handle_response_def
    by (intro verdict handle_stream_end_inv handle_empty_response_inv handle_truncated_response_inv
        accepted assms(1))
qed

lemma call_model_inv:
  assumes "pass_inv ar CallingModel n s" and "n < max_model_calls (ar_limits ar)"
    and "max_tool_calls (ar_limits ar) \<noteq> u32_max"
  shows "flow_ok (pass_inv ar CallingModel (n + 1)) (run_end ar) (call_model lib ar inp s)"
proof -
  have stream: "flow_ok (pass_inv ar CallingModel (n + 1)) (run_end ar)
      (flow_bind (stream_loop polls StreamState_new s') (\<lambda>(ss, e, s). handle_response lib ar inp ss e s))"
    if "pass_inv ar CallingModel (n + 1) s'" for polls s'
    by (rule flow_ok_bind [OF stream_loop_inv [OF that]]) (use assms(3) handle_response_inv in auto)
  have start: "flow_ok (pass_inv ar CallingModel (n + 1)) (run_end ar)
      (flow_bind (start_stream lib ar (in_start inp) s') (\<lambda>(polls, s).
        flow_bind (stream_loop polls StreamState_new s) (\<lambda>(ss, e, s). handle_response lib ar inp ss e s)))"
    if "pass_inv ar CallingModel (n + 1) s'" for s'
    by (rule flow_ok_bind [OF start_stream_inv [OF that]]) (use stream in auto)
  let ?s = "compact_history (remind_of_budget ar s)"
  have "run_inv ar CallingModel ?s" "rs_model_calls ?s = n" using assms(1) by (auto simp: pass_inv_def)
  with assms(2) show ?thesis
    unfolding call_model_def
    by (intro flow_ok_bind [OF flow_ok_mono [OF count_model_call_inv [of ar CallingModel ?s]], OF _ _ _ start])
      (auto simp: pass_inv_def)
qed

lemma run_step_inv:
  assumes "pass_inv ar CallingModel n s" and "max_tool_calls (ar_limits ar) \<noteq> u32_max"
  shows "flow_ok (\<lambda>s'. n < max_model_calls (ar_limits ar) \<and> pass_inv ar CallingModel (n + 1) s')
    (run_end ar) (run_step lib ar inp s)"
proof -
  let ?s = "drain_external_steps (in_steps inp) s"
  have i: "pass_inv ar CallingModel n ?s" using assms(1) by simp
  obtain ob q where t: "take_next_batch (rs_queue ?s) = (ob, q)" by fastforce
  show ?thesis
  proof (cases "in_cancelled inp \<or> ob = None")
    case True
    with t i show ?thesis by (auto simp: run_step_def Let_def intro!: pass_ends)
  next
    case False
    then obtain batch where b: "ob = Some batch" by auto
    let ?t = "push_messages (batch_materialize batch) (?s\<lparr>rs_queue := q\<rparr>)"
    have j: "pass_inv ar CallingModel n ?t" using i by simp
    then have calls: "rs_model_calls ?t = n" by (simp add: pass_inv_def)
    show ?thesis
    proof (cases "n < max_model_calls (ar_limits ar)")
      case True
      with call_model_inv [OF j True assms(2), of lib inp] False t b calls show ?thesis
        by (auto simp: run_step_def Let_def not_le flow_ok_def split: flow.splits)
    next
      case lim: False
      with False t b calls j show ?thesis
        by (auto simp: run_step_def Let_def not_less intro!: pass_ends)
    qed
  qed
qed

lemma run_loop_returns:
  assumes "pass_inv ar CallingModel n s" and "max_tool_calls (ar_limits ar) \<noteq> u32_max"
    and "unat (max_model_calls (ar_limits ar)) < unat n + fuel"
  shows "\<exists>r. run_loop lib ar inputs k fuel s = Return r \<and> run_end ar r"
  using assms
proof (induction fuel arbitrary: n s k)
  case 0
  then have "n \<le> max_model_calls (ar_limits ar)" by (auto simp: pass_inv_def run_inv_def machine_inv_def Let_def)
  with 0 show ?case by (simp add: word_le_nat_alt)
next
  case (Suc fuel)
  from run_step_inv [OF Suc.prems(1,2), of lib "inputs k"]
  consider r where "run_step lib ar (inputs k) s = Return r" "run_end ar r"
    | s' where "run_step lib ar (inputs k) s = Next s'" "n < max_model_calls (ar_limits ar)"
        "pass_inv ar CallingModel (n + 1) s'"
    by (auto simp: flow_ok_def split: flow.splits)
  then show ?case
  proof cases
    case (2 s')
    then have "n \<noteq> - 1" by auto
    then have "unat (n + 1) = Suc (unat n)" by (rule unat_succ)
    with Suc.IH [OF 2(3) Suc.prems(2), of "k + 1"] Suc.prems(3) 2(1) show ?thesis by simp
  qed simp
qed

lemma start_run_inv:
  "flow_ok (pass_inv ar CallingModel 0) (run_end ar) (start_run lib ar request ingress now)"
proof -
  have init: "pass_inv ar Idle 0 (initial_state ar request ingress now)"
    by (simp add: pass_inv_def run_inv_def synced_def machine_inv_def initial_state_def TurnMachine_new_def
        Let_def) (simp add: AgentJournal_default_def AgentProjection_default_def)
  have queue: "flow_ok (pass_inv ar CallingModel 0) (run_end ar) (initial_step_queue lib s)"
    if "pass_inv ar CallingModel 0 s" for s
    using that by (auto simp: initial_step_queue_def Let_def intro!: admit_new_pass split: list.splits)
  show ?thesis
    unfolding start_run_def
    by (auto simp: run_end_def intro!: move_emit_pass [OF init] queue elim!: move_emit_pass)
qed

lemma run_inner_returns:
  assumes "max_tool_calls (ar_limits ar) \<noteq> u32_max"
    and "unat (max_model_calls (ar_limits ar)) < fuel"
  shows "\<exists>r. run_inner lib ar request ingress now inputs fuel = Return r \<and> run_end ar r"
proof -
  from start_run_inv [of ar lib request ingress now]
  consider r where "start_run lib ar request ingress now = Return r" "run_end ar r"
    | s where "start_run lib ar request ingress now = Next s" "pass_inv ar CallingModel 0 s"
    by (auto simp: flow_ok_def split: flow.splits)
  then show ?thesis
    using run_loop_returns [OF _ assms(1), of 0] assms(2) by cases (auto simp: run_inner_def)
qed

subsection \<open>Messages of a finished run\<close>

lemma finish_result:
  assumes "run_inv ar st s" and "valid st to" and "to = turn_status_of status"
  shows "\<exists>res. finish to status s = Return (Ok res) \<and> rr_messages res = ag_messages (rs_request s)"
proof -
  let ?s = "s\<lparr>rs_machine := (rs_machine s)\<lparr>tm_status := to\<rparr>\<rparr>"
  have m: "move_to to s = Next ?s"
    using assms(1,2) by (simp add: move_to_def transition_def run_inv_def)
  have j: "journal_ok (rs_journal ?s)" using assms(1) by (simp add: run_inv_def synced_def Let_def)
  show ?thesis
    by (rule append_op_Next [OF j, of "StatusChanged to"])
      (use assms(1) m in \<open>auto simp: finish_def emit_status_def run_result_def run_inv_def synced_def Let_def\<close>)
qed

lemma materialize_pending_messages:
  "mset (ag_messages (rs_request (materialize_pending_steps s))) =
     mset (ag_messages (rs_request s)) + mset (concat (map sr_messages (live (rs_queue s))))"
proof -
  obtain ms q where "drain_materialized_messages (rs_queue s) = (ms, q)"
    "mset ms = mset (concat (map sr_messages (live (rs_queue s))))"
    using drain_materialized_spec [of "rs_queue s"] by auto
  then show ?thesis by (simp add: materialize_pending_steps_def push_messages_def set_messages_def)
qed

lemma materialize_cancelled_messages:
  "mset (ag_messages (rs_request (materialize_cancelled_steps s))) =
     mset (ag_messages (rs_request s)) +
     mset (concat (map sr_messages (live (abort_turn_scoped (rs_queue s)))))"
  by (simp add: materialize_cancelled_steps_def materialize_pending_messages)

subsection \<open>Every executed call is answered\<close>

text \<open>The tool-call ids that a queued request answers.\<close>

definition answered_ids :: "StepRequest \<Rightarrow> string option list" where
  "answered_ids r = map tool_call_id (sr_messages r)"

definition call_id_of :: "PendingToolCall ScheduledTool \<Rightarrow> string" where
  "call_id_of c = tc_id (pd_call (st_value c))"

definition tool_result_request :: "Library \<Rightarrow> nat \<Rightarrow> ModelMessage \<Rightarrow> StepRequest" where
  "tool_result_request lib k m = StepRequest_new (lib_fresh_id lib k) ''tool_result'' [m]
     \<lparr>so_admission = ActiveTurnOnly, so_mergeable = True, so_turn_scoped = False\<rparr>"

lemma enqueue_tool_result_eq:
  "enqueue_tool_result lib m s =
     Next (s\<lparr>rs_queue := \<lparr>sq_items = sq_items (rs_queue s) @ [tool_result_request lib (rs_next_id s) m]\<rparr>,
       rs_next_id := rs_next_id s + 1\<rparr>)"
  by (cases "rs_queue s") (simp add: enqueue_tool_result_def admit_new_def admit_def StepRequest_new_def
      enqueue_def Let_def tool_result_request_def)

lemma answered_ids_request: "answered_ids (tool_result_request lib k m) = [tool_call_id m]"
  by (simp add: answered_ids_def tool_result_request_def StepRequest_new_def)

lemma tool_message_id [simp]: "tool_call_id (tool_message c name v) = Some c"
  by (simp add: tool_call_id_def tool_message_def jget_jobj)

lemma process_outcome_answers:
  assumes "process_outcome lib ar pending result ws s = Next (ws', s')" and "ws_paused ws' = None"
  shows "ws_paused ws = None \<and> (\<exists>r. sq_items (rs_queue s') = sq_items (rs_queue s) @ [r] \<and>
    answered_ids r = [Some (tc_id (pd_call pending))])"
  using assms
  by (cases result) (auto simp: process_outcome_def Let_def get_or_insert_def forget_failure_def
      enqueue_tool_result_eq answered_ids_request split: option.splits)

lemma process_outcomes_answers:
  assumes "process_outcomes lib ar outcome k wave ws s = Next (ws', s')" and "ws_paused ws' = None"
  shows "ws_paused ws = None \<and> (\<exists>rs. sq_items (rs_queue s') = sq_items (rs_queue s) @ rs \<and>
    map answered_ids rs = map (\<lambda>c. [Some (call_id_of c)]) wave)"
  using assms
proof (induction wave arbitrary: k ws s)
  case (Cons x wave)
  from Cons.prems(1) obtain ws1 s1 where
    s1: "process_outcome lib ar (st_value x) (outcome k) ws s = Next (ws1, s1)"
      "process_outcomes lib ar outcome (k + 1) wave ws1 s1 = Next (ws', s')"
    by (cases "process_outcome lib ar (st_value x) (outcome k) ws s") auto
  from Cons.IH [OF s1(2) Cons.prems(2)] obtain rs where
    rs: "ws_paused ws1 = None" "sq_items (rs_queue s') = sq_items (rs_queue s1) @ rs"
      "map answered_ids rs = map (\<lambda>c. [Some (call_id_of c)]) wave" by auto
  from process_outcome_answers [OF s1(1) rs(1)] obtain r where
    "ws_paused ws = None" "sq_items (rs_queue s1) = sq_items (rs_queue s) @ [r]"
    "answered_ids r = [Some (call_id_of x)]" by (auto simp: call_id_of_def)
  with rs show ?case by (intro conjI exI [of _ "r # rs"]) auto
qed auto

lemma after_wave_Next:
  assumes "after_wave lib schedule ws s = Next s'"
  shows "ws_paused ws = None \<and> s' = s"
proof -
  have never: "finish to status x \<noteq> Next y" for to status and x y :: RunState
    by (cases "move_to to x") (auto simp: finish_def run_result_def emit_status_def append_op_def
        move_to_def Let_def split: option.splits prod.splits sum.splits if_splits)
  have "flow_bind (defer_pending_tool_calls lib xs s) (\<lambda>s. case pause_target status of
      None \<Rightarrow> Panic | Some to \<Rightarrow> finish to status (materialize_pending_steps s)) \<noteq> Next s'" for status xs
    using never by (cases "defer_pending_tool_calls lib xs s"; cases "pause_target status") auto
  with assms never show ?thesis
    by (auto simp: after_wave_def split: option.splits if_splits)
qed

lemma run_waves_answers:
  assumes "run_waves lib ar polls k schedule s = Next s'"
  shows "\<exists>rs. sq_items (rs_queue s') = sq_items (rs_queue s) @ rs \<and>
    mset (map answered_ids rs) = mset (map (\<lambda>c. [Some (call_id_of c)]) (ts_waiting schedule))"
  using assms
proof (induction "length (ts_waiting schedule)" arbitrary: k schedule s rule: less_induct)
  case less
  note step = run_waves.simps [of lib ar polls k schedule s]
  show ?case
  proof (cases "ts_is_empty schedule")
    case True
    with less.prems show ?thesis by (simp add: step ts_is_empty_def)
  next
    case False
    obtain wave rest where w: "take_ready_wave schedule = (wave, rest)" by fastforce
    have never: "cancel_run s \<noteq> Next s'" "fail_pending x s \<noteq> Next s'" for x
      by (auto simp: cancel_run_def fail_pending_def fail_run_def finish_def run_result_def emit_status_def
          append_op_def move_to_def Let_def split: option.splits prod.splits sum.splits if_splits)
    with less.prems False w obtain outcome where o: "polls k = Wave_Done outcome"
      by (cases "polls k") (auto simp: step)
    from less.prems False w o obtain ws s1 s2 where
      p: "process_outcomes lib ar outcome 0 wave \<lparr>ws_paused = None, ws_repeated_failure = False\<rparr> s = Next (ws, s1)"
      and a: "after_wave lib rest ws s1 = Next s2"
      and r: "run_waves lib ar polls (k + 1) rest s2 = Next s'"
      by (cases "process_outcomes lib ar outcome 0 wave \<lparr>ws_paused = None, ws_repeated_failure = False\<rparr> s")
        (auto simp: step elim!: flow_bind.elims)
    from after_wave_Next [OF a] have "ws_paused ws = None" "s2 = s1" by auto
    moreover from process_outcomes_answers [OF p this(1)] obtain rs1 where
      rs1: "sq_items (rs_queue s1) = sq_items (rs_queue s) @ rs1"
        "map answered_ids rs1 = map (\<lambda>c. [Some (call_id_of c)]) wave" by auto
    moreover have "mset (map answered_ids rs1) = mset (map (\<lambda>c. [Some (call_id_of c)]) wave)"
      by (simp only: rs1(2))
    moreover have "length (ts_waiting rest) < length (ts_waiting schedule)"
      using ready_wave_shrinks [OF False] w by simp
    from less.hyps [OF this r] obtain rs2 where
      "sq_items (rs_queue s') = sq_items (rs_queue s2) @ rs2"
      "mset (map answered_ids rs2) = mset (map (\<lambda>c. [Some (call_id_of c)]) (ts_waiting rest))" by auto
    moreover have "mset (ts_waiting schedule) = mset wave + mset (ts_waiting rest)"
      using tool_schedule.take_conserves [of schedule wave rest] False w by (simp add: take_wave_def)
    ultimately show ?thesis
      by (intro exI [of _ "rs1 @ rs2"]) simp
  qed
qed

section \<open>Properties\<close>

text \<open>C1: A run always ends, and ends well: whatever the provider, the executor, the step ingress,
  cancellation and the clocks do, after at most one pass more than the model-call limit the run
  returns.  It never panics (no failed admission, no failed journal entry, no failed debug
  assertion).  A result stays within the model-call and tool-call limits, and replaying its own
  operations gives exactly its text, token counts and call counts, with its status as the last
  status.  An error is a gateway error, an incomplete tool call, an invalid request or an exceeded
  token budget: never an invalid transition, an exceeded call limit or the internal error of a
  cancellation.\<close>

theorem run_returns_within_limits:
  assumes "max_tool_calls (ar_limits ar) \<noteq> u32_max"
  shows "\<exists>r. run_inner lib ar request ingress now inputs (unat (max_model_calls (ar_limits ar)) + 1) = Return r \<and>
    (case r of
       Inl e \<Rightarrow> run_error e
     | Inr res \<Rightarrow>
         result_ok res \<and> rr_model_calls res \<le> max_model_calls (ar_limits ar) \<and>
         rr_tool_calls res \<le> max_tool_calls (ar_limits ar) \<and>
         (\<exists>p. replay_agent_ops (rr_ops res) = Ok p \<and> pj_status p = Some (turn_status_of (rr_status res))))"
  using run_inner_returns [OF assms, of "unat (max_model_calls (ar_limits ar)) + 1" lib request ingress now inputs]
  by (simp add: run_end_def)

definition demo_library :: Library where
  "demo_library = \<lparr>lib_to_string = (\<lambda>_. ''x''), lib_parse_json = (\<lambda>_. Inr JNull), lib_fresh_id = (\<lambda>_. ''id'')\<rparr>"

definition demo_run_request :: AgentRunRequest where
  "demo_run_request = \<lparr>ag_model = ''m'', ag_temperature = F64_fin 1 0,
     ag_messages = [\<lparr>mm_role = ''user'', mm_content = JStr ''hi''\<rparr>], ag_tools = [],
     ag_max_output_tokens = 100, ag_fixed_max_output_tokens = False, ag_routing = None,
     ag_transient_tool_media = []\<rparr>"

text \<open>A world in which every stream ends at once without output.\<close>

definition demo_input :: PassInput where
  "demo_input = \<lparr>in_steps = [], in_cancelled = False,
     in_start = Start_Stream (\<lambda>_ _. Poll_Response (Inr [])) (\<lambda>_. False), in_late_steps = [],
     in_closing_steps = [], in_prepare = (\<lambda>_. Prepare_Cancelled), in_wave = (\<lambda>_. Wave_Cancelled)\<rparr>"

theorem run_returns_within_limits_witness:
  "\<exists>r. run_inner demo_library (AgentRunner_new TurnLimits_default) demo_run_request False 0
     (\<lambda>_. demo_input) 49 = Return r"
  using run_returns_within_limits [of "AgentRunner_new TurnLimits_default" demo_library demo_run_request False 0
      "\<lambda>_. demo_input"]
  by (auto simp: AgentRunner_new_def TurnLimits_default_def)

text \<open>C2: When the tool phase of a pass completes, every scheduled call has been answered exactly once:
  the queue has grown by one request per call, each with the result for that call's id.\<close>

theorem tool_phase_answers_every_call:
  assumes "run_waves lib ar polls k schedule s = Next s'"
  shows "\<exists>rs. sq_items (rs_queue s') = sq_items (rs_queue s) @ rs \<and>
    mset (map answered_ids rs) = mset (map (\<lambda>c. [Some (call_id_of c)]) (ts_waiting schedule))"
  by (rule run_waves_answers [OF assms])

definition demo_call :: PendingToolCall where
  "demo_call = \<lparr>pd_call = \<lparr>tc_id = ''c1'', tc_name = ''read'', tc_arguments = ''{}'', tc_provider_metadata = None\<rparr>,
     pd_prepared = prepared_ready JNull [] False, pd_fingerprint = ''read:{}''\<rparr>"

abbreviation demo_runner :: AgentRunner where
  "demo_runner \<equiv> AgentRunner_new TurnLimits_default"

abbreviation demo_state :: RunState where
  "demo_state \<equiv> initial_state demo_runner demo_run_request False 0"

abbreviation demo_schedule :: "PendingToolCall ToolSchedule" where
  "demo_schedule \<equiv> ts_push demo_call [] ts_empty"

lemma demo_schedule_wave:
  "take_ready_wave demo_schedule = ([ScheduledTool_new demo_call []], ts_empty)"
  "\<not> ts_is_empty demo_schedule" "ts_is_empty (ts_empty :: PendingToolCall ToolSchedule)"
  by (simp_all add: take_ready_wave_def ts_push_def ts_empty_def ts_is_empty_def)

lemma mset_single_list: "mset xs = mset [x] \<Longrightarrow> xs = [x]"
  by simp

lemma demo_outcomes:
  "\<exists>s. process_outcomes demo_library demo_runner (\<lambda>_. TR_Completed JNull) 0 [ScheduledTool_new demo_call []] ws demo_state =
     Next (ws, s)"
  by (simp add: process_outcome_def Let_def enqueue_tool_result_eq)

lemma demo_waves:
  "\<exists>s'. run_waves demo_library demo_runner (\<lambda>_. Wave_Done (\<lambda>_. TR_Completed JNull)) 0 demo_schedule demo_state = Next s'"
proof -
  let ?polls = "\<lambda>_::nat. Wave_Done (\<lambda>_. TR_Completed JNull)"
  obtain s where s: "process_outcomes demo_library demo_runner (\<lambda>_. TR_Completed JNull) 0
      [ScheduledTool_new demo_call []] \<lparr>ws_paused = None, ws_repeated_failure = False\<rparr> demo_state =
        Next (\<lparr>ws_paused = None, ws_repeated_failure = False\<rparr>, s)"
    using demo_outcomes by blast
  have "run_waves demo_library demo_runner ?polls k ts_empty s = Next s" for k
    by (subst run_waves.simps) (simp add: demo_schedule_wave)
  then have "run_waves demo_library demo_runner ?polls 0 demo_schedule demo_state = Next s"
    unfolding run_waves.simps [of _ _ _ _ demo_schedule] demo_schedule_wave if_False WavePoll.case fst_conv snd_conv s
    by (simp add: after_wave_def demo_schedule_wave)
  then show ?thesis ..
qed

theorem tool_phase_answers_every_call_witness:
  "\<exists>s'. run_waves demo_library demo_runner (\<lambda>_. Wave_Done (\<lambda>_. TR_Completed JNull)) 0 demo_schedule demo_state = Next s' \<and>
     map answered_ids (sq_items (rs_queue s')) = [[Some ''c1'']]"
proof -
  have q: "sq_items (rs_queue demo_state) = []" by (simp add: initial_state_def sq_empty_def)
  have ids: "map (\<lambda>c. [Some (call_id_of c)]) (ts_waiting demo_schedule) = [[Some ''c1'']]"
    by (simp add: ts_push_def ts_empty_def call_id_of_def ScheduledTool_new_def demo_call_def)
  obtain s' where s': "run_waves demo_library demo_runner (\<lambda>_. Wave_Done (\<lambda>_. TR_Completed JNull)) 0
      demo_schedule demo_state = Next s'"
    using demo_waves by blast
  note answers = tool_phase_answers_every_call [OF s', unfolded q ids append_Nil]
  have "mset (map answered_ids (sq_items (rs_queue s'))) = mset [[Some ''c1'']]"
    using answers by (elim exE conjE) (simp only:)
  then have "map answered_ids (sq_items (rs_queue s')) = [[Some ''c1'']]"
    by (rule mset_single_list)
  with s' show ?thesis by (intro exI conjI)
qed

text \<open>A request for a new turn is treated differently depending on when it arrives at the ingress:
  between two passes it is dropped, while a stream is being consumed it is queued for the active
  turn.\<close>

theorem new_turn_request_dropped_or_queued:
  "let r = req\<lparr>sr_admission := NewTurn\<rparr>; s = st\<lparr>rs_ingress := True\<rparr> in
   drain_external_steps [r] s = s \<and>
   stream_loop [SP_Step r] ss s =
     Next (ss, Stream_Done, s\<lparr>rs_queue := (rs_queue s)\<lparr>sq_items := sq_items (rs_queue s) @ [r]\<rparr>\<rparr>)"
  by (simp add: Let_def drain_external_steps_def admit_def enqueue_def)

text \<open>A cancellation that arrives while the model call is being started loses the queued requests
  that are not bound to the turn: the result has the messages of the run without them, while every
  other cancellation point first adds the messages of exactly those requests.\<close>

theorem cancellation_at_start_drops_queued_requests:
  assumes "run_inv ar CallingModel s"
  shows "(\<exists>res. start_stream lib ar Start_Cancelled s = Return (Ok res) \<and>
      rr_messages res = ag_messages (rs_request s)) \<and>
    (\<exists>res. (cancel_run s :: RunState flow) = Return (Ok res) \<and>
      mset (rr_messages res) = mset (ag_messages (rs_request s)) +
        mset (concat (map sr_messages (live (abort_turn_scoped (rs_queue s))))))"
proof (rule conjI)
  show "\<exists>res. start_stream lib ar Start_Cancelled s = Return (Ok res) \<and>
      rr_messages res = ag_messages (rs_request s)"
    using finish_result [OF assms, of Cancelled Run_Cancelled] by (simp add: start_stream_def)
  have "run_inv ar CallingModel (materialize_cancelled_steps s)" using assms by simp
  from finish_result [OF this, of Cancelled Run_Cancelled] obtain res where
    "(cancel_run s :: RunState flow) = Return (Ok res)"
    "rr_messages res = ag_messages (rs_request (materialize_cancelled_steps s))"
    by (auto simp: cancel_run_def)
  with materialize_cancelled_messages [of s] show "\<exists>res. (cancel_run s :: RunState flow) = Return (Ok res) \<and>
      mset (rr_messages res) = mset (ag_messages (rs_request s)) +
        mset (concat (map sr_messages (live (abort_turn_scoped (rs_queue s)))))"
    by auto
qed

definition demo_notification :: StepRequest where
  "demo_notification = StepRequest_new ''n'' ''notification'' [\<lparr>mm_role = ''user'', mm_content = JStr ''note''\<rparr>]
     \<lparr>so_admission = ActiveOrNextTurn, so_mergeable = True, so_turn_scoped = False\<rparr>"

lemma demo_run_starts:
  "\<exists>s. start_run demo_library demo_runner demo_run_request False 0 = Next s \<and> pass_inv demo_runner CallingModel 0 s"
  using start_run_inv [of demo_runner demo_library demo_run_request False 0]
  by (cases "start_run demo_library demo_runner demo_run_request False 0")
    (auto simp: start_run_def demo_run_request_def f64_is_finite_def f64_negative_def f64_le_int_def
      move_to_def transition_def initial_state_def TurnMachine_new_def emit_status_def append_op_def
      initial_step_queue_def admit_new_def admit_def set_messages_def StepRequest_new_def Let_def
      split: option.splits)

theorem cancellation_at_start_drops_queued_requests_witness:
  "\<exists>s lost kept. sq_items (rs_queue s) = [demo_notification] \<and>
     start_stream demo_library (AgentRunner_new TurnLimits_default) Start_Cancelled s = Return (Ok lost) \<and>
     (cancel_run s :: RunState flow) = Return (Ok kept) \<and>
     length (rr_messages kept) = length (rr_messages lost) + 1"
proof -
  let ?ar = "AgentRunner_new TurnLimits_default"
  obtain s0 where "pass_inv ?ar CallingModel 0 s0" using demo_run_starts by blast
  let ?s = "s0\<lparr>rs_queue := \<lparr>sq_items = [demo_notification]\<rparr>\<rparr>"
  have i: "run_inv ?ar CallingModel ?s" using \<open>pass_inv ?ar CallingModel 0 s0\<close> by (simp add: pass_inv_def)
  have l: "live (abort_turn_scoped (rs_queue ?s)) = [demo_notification]"
    by (simp add: live_def abort_turn_scoped_def discard_aborted_def demo_notification_def StepRequest_new_def
        is_aborted_def)
  from cancellation_at_start_drops_queued_requests [OF i, of demo_library] obtain lost kept where
    "start_stream demo_library ?ar Start_Cancelled ?s = Return (Ok lost)"
    "rr_messages lost = ag_messages (rs_request ?s)"
    "(cancel_run ?s :: RunState flow) = Return (Ok kept)"
    and m: "mset (rr_messages kept) = mset (ag_messages (rs_request ?s)) + mset (sr_messages demo_notification)"
    unfolding l by auto
  moreover have "length (rr_messages kept) = length (ag_messages (rs_request ?s)) + 1"
    using arg_cong [OF m, of size] by (simp add: demo_notification_def StepRequest_new_def)
  ultimately show ?thesis by (intro exI [of _ ?s] exI [of _ lost] exI [of _ kept]) simp
qed

end
