(* ===== verification/Protocol_Types.thy ===== *)
theory Protocol_Types
  imports Json_Value
begin

text \<open>The shared records of \<open>crates/protocol/src/lib.rs\<close> that the policy and audit components
  use.\<close>

record Scope =
  sc_organization_id :: Id
  sc_team_id :: Id
  sc_actor_id :: Id
  sc_goal_id :: "Id option"
  sc_task_id :: "Id option"

datatype PolicyDecision = Allow | Ask | Deny

record ToolRequest =
  tr_parent_tool_call_id :: "Id option"
  tr_id :: Id
  tr_scope :: Scope
  tr_session_id :: Id
  tr_turn_id :: Id
  tr_tool :: string
  tr_arguments :: json
  tr_created_at :: Timestamp

record PolicyResult =
  pr_decision :: PolicyDecision
  pr_policy_id :: string
  pr_policy_version :: string
  pr_reason :: string
  pr_requires_approval :: bool

record Event =
  ev_id :: Id
  ev_sequence :: u64
  ev_timestamp :: Timestamp
  ev_scope :: Scope
  ev_session_id :: "Id option"
  ev_turn_id :: "Id option"
  ev_kind :: string
  ev_payload :: json

datatype GoalStatus = Goal_Planned | Goal_Active | Goal_Achieved | Goal_Cancelled

datatype TeamTaskStatus =
  Task_Ready | Task_InProgress | Task_Blocked | Task_Review | Task_Verified | Task_Cancelled

end
