(* ===== verification/Policy_Bundle.thy ===== *)
theory Policy_Bundle
  imports Protocol_Types
begin

text \<open>
  The rule bundles of \<open>crates/policy/src/lib.rs\<close>: the built-in bundle, the evaluation of one
  bundle, the layering of local controls and a verified central bundle, and the percentage
  rollout.  The SHA-256 digest is a parameter.
\<close>

section \<open>Bundles\<close>

record Rule =
  rule_tool :: string
  rule_decision :: PolicyDecision
  rule_reason :: string

record PolicyBundle =
  pb_id :: string
  pb_version :: string
  pb_rules :: "Rule list"
  pb_default :: PolicyDecision

abbreviation mk_rule :: "string \<Rightarrow> PolicyDecision \<Rightarrow> string \<Rightarrow> Rule" where
  "mk_rule t d r \<equiv> \<lparr>rule_tool = t, rule_decision = d, rule_reason = r\<rparr>"

definition PolicyBundle_default :: PolicyBundle where
  "PolicyBundle_default =
     \<lparr>pb_id = ''builtin-safe-defaults'', pb_version = ''1'',
      pb_rules =
       [mk_rule ''list_files'' Allow ''workspace file listing is allowed'',
        mk_rule ''read_file'' Allow ''workspace reads are allowed'',
        mk_rule ''search_text'' Allow ''workspace search is allowed'',
        mk_rule ''tool_search'' Allow ''content-free extension Tool discovery is allowed'',
        mk_rule ''web_open'' Ask ''each public HTTPS destination requires explicit approval'',
        mk_rule ''pdf_read'' Ask ''each public PDF HTTPS destination requires explicit approval'',
        mk_rule ''pdf_view'' Ask ''each public PDF page HTTPS destination requires explicit approval'',
        mk_rule ''apply_patch'' Ask ''writes require approval'',
        mk_rule ''git_status'' Allow ''repository status is read-only'',
        mk_rule ''git_diff'' Allow ''repository diff is read-only'',
        mk_rule ''git_suggest_reviewers'' Allow ''CODEOWNERS and Team reviewer lookup is read-only'',
        mk_rule ''git_create_branch'' Ask ''isolated branch creation requires approval'',
        mk_rule ''git_commit'' Ask ''commits require approved diff evidence'',
        mk_rule ''git_push'' Ask ''remote writes require approval'',
        mk_rule ''scm_create_draft_pr'' Ask ''external SCM writes require explicit approval'',
        mk_rule ''ticket_write_back'' Ask ''external work-management writes require explicit approval'',
        mk_rule ''servicenow_read_record'' Allow ''bounded service-management record reads are allowed'',
        mk_rule ''servicenow_append_work_note'' Ask ''ServiceNow writes require signed four-eyes and local approval'',
        mk_rule ''chat_notify'' Ask ''external chat notifications require explicit approval'',
        mk_rule ''ci_read_checks'' Allow ''bounded CI status reads are allowed'',
        mk_rule ''siem_export'' Ask ''external SIEM writes require explicit approval'',
        mk_rule ''git_force_push'' Deny ''force push is forbidden''],
      pb_default = Ask\<rparr>"

definition evaluate :: "PolicyBundle \<Rightarrow> ToolRequest \<Rightarrow> PolicyResult" where
  "evaluate b req =
     (let (decision, reason) =
            (case find (\<lambda>r. rule_tool r = tr_tool req) (pb_rules b) of
               Some r \<Rightarrow> (rule_decision r, rule_reason r)
             | None \<Rightarrow> (pb_default b, ''no matching rule; fail to approval''))
      in \<lparr>pr_decision = decision, pr_policy_id = pb_id b, pr_policy_version = pb_version b,
          pr_reason = reason, pr_requires_approval = (decision = Ask)\<rparr>)"

section \<open>Central bundles and layering\<close>

record CentralPolicyPayload =
  cpp_organization_id :: Id
  cpp_team_id :: "Id option"
  cpp_sequence :: u64
  cpp_issued_at :: Timestamp
  cpp_expires_at :: Timestamp
  cpp_bundle :: PolicyBundle
  cpp_rollout_percent :: u8
  cpp_rollout_seed :: string
  cpp_simulate :: bool

record SignedPolicyBundle =
  spb_key_id :: string
  spb_payload :: CentralPolicyPayload
  spb_signature :: string

text \<open>The newtype that only a successful verification builds.\<close>

record VerifiedPolicy =
  vp_payload :: CentralPolicyPayload

definition applies_to_rollout :: "(string \<Rightarrow> string) \<Rightarrow> u8 \<Rightarrow> string \<Rightarrow> Id \<Rightarrow> bool" where
  "applies_to_rollout sha256 percent seed device_id =
     (if percent = 100 then True
      else if percent = 0 then False
      else (case sha256 (seed @ [CHR 0x00] @ device_id) of
              b0 # b1 # _ \<Rightarrow> (byte b0 * 256 + byte b1) mod 100 < unat percent
            | _ \<Rightarrow> False))"

definition applies_to_device :: "(string \<Rightarrow> string) \<Rightarrow> VerifiedPolicy \<Rightarrow> Id \<Rightarrow> bool" where
  "applies_to_device sha256 v device_id =
     applies_to_rollout sha256 (cpp_rollout_percent (vp_payload v)) (cpp_rollout_seed (vp_payload v))
       device_id"

record LayeredPolicyResult =
  lp_effective :: PolicyResult
  lp_simulated :: "PolicyResult option"
  lp_central_applied :: bool

definition evaluate_layered ::
  "(string \<Rightarrow> string) \<Rightarrow> PolicyBundle \<Rightarrow> VerifiedPolicy option \<Rightarrow> Id \<Rightarrow> ToolRequest
     \<Rightarrow> LayeredPolicyResult" where
  "evaluate_layered sha256 local central device_id req =
     (let local_result = evaluate local req in
      if pr_decision local_result = Deny
      then \<lparr>lp_effective = local_result, lp_simulated = None, lp_central_applied = False\<rparr>
      else
        (case central of
           None \<Rightarrow> \<lparr>lp_effective = local_result, lp_simulated = None, lp_central_applied = False\<rparr>
         | Some c \<Rightarrow>
             if \<not> applies_to_device sha256 c device_id
             then \<lparr>lp_effective = local_result, lp_simulated = None, lp_central_applied = False\<rparr>
             else
               let central_result = evaluate (cpp_bundle (vp_payload c)) req in
               if cpp_simulate (vp_payload c)
               then \<lparr>lp_effective = local_result, lp_simulated = Some central_result,
                     lp_central_applied = False\<rparr>
               else \<lparr>lp_effective = central_result, lp_simulated = None,
                     lp_central_applied = True\<rparr>))"

section \<open>Lemmas\<close>

lemma evaluate_decision:
  "pr_decision (evaluate b req) =
     (case find (\<lambda>r. rule_tool r = tr_tool req) (pb_rules b) of
        Some r \<Rightarrow> rule_decision r | None \<Rightarrow> pb_default b)"
  by (simp add: evaluate_def Let_def split: option.splits)

lemma evaluate_requires_approval [simp]:
  "pr_requires_approval (evaluate b req) \<longleftrightarrow> pr_decision (evaluate b req) = Ask"
  by (simp add: evaluate_def Let_def split: option.splits)

section \<open>Properties\<close>

text \<open>The built-in bundle allows exactly the listed read-only tools without approval, denies
  exactly the force push, and asks for approval for every other tool, known or not.\<close>

theorem builtin_policy_decisions:
  "pr_decision (evaluate PolicyBundle_default req) =
     (if tr_tool req \<in> {''list_files'', ''read_file'', ''search_text'', ''tool_search'', ''git_status'',
           ''git_diff'', ''git_suggest_reviewers'', ''servicenow_read_record'', ''ci_read_checks''}
      then Allow else if tr_tool req = ''git_force_push'' then Deny else Ask)"
  by (auto simp: evaluate_decision PolicyBundle_default_def)

text \<open>The first rule for a tool decides, whatever rules follow it; without a rule the bundle's
  default decides; and approval is required exactly for the decision to ask.\<close>

theorem evaluate_first_rule_wins:
  assumes "pb_rules b = rs @ r # rs'" and "rule_tool r = tr_tool req"
    and "\<forall>r' \<in> set rs. rule_tool r' \<noteq> tr_tool req"
  shows "pr_decision (evaluate b req) = rule_decision r \<and> pr_reason (evaluate b req) = rule_reason r \<and>
    (pr_requires_approval (evaluate b req) \<longleftrightarrow> rule_decision r = Ask)"
proof -
  have "find (\<lambda>r. rule_tool r = tr_tool req) (rs @ r # rs') = Some r"
    using assms(2,3) by (induction rs) auto
  with assms(1) show ?thesis
    by (simp add: evaluate_def Let_def)
qed

theorem evaluate_first_rule_wins_witness:
  "\<exists>req. tr_tool req = ''x'' \<and>
     pr_decision (evaluate \<lparr>pb_id = ''b'', pb_version = ''1'',
        pb_rules = [mk_rule ''y'' Ask ''r'', mk_rule ''x'' Deny ''no'', mk_rule ''x'' Allow ''yes''],
        pb_default = Allow\<rparr> req) = Deny"
proof -
  let ?b = "\<lparr>pb_id = ''b'', pb_version = ''1'',
      pb_rules = [mk_rule ''y'' Ask ''r'', mk_rule ''x'' Deny ''no'', mk_rule ''x'' Allow ''yes''],
      pb_default = Allow\<rparr>"
  let ?sc = "\<lparr>sc_organization_id = ''o'', sc_team_id = ''t'', sc_actor_id = ''a'',
      sc_goal_id = None, sc_task_id = None\<rparr>"
  let ?req = "\<lparr>tr_parent_tool_call_id = None, tr_id = ''i'', tr_scope = ?sc, tr_session_id = ''s'',
      tr_turn_id = ''u'', tr_tool = ''x'', tr_arguments = JNull, tr_created_at = 0\<rparr>"
  have "pr_decision (evaluate ?b ?req) = rule_decision (mk_rule ''x'' Deny ''no'')"
    by (rule evaluate_first_rule_wins [of ?b "[mk_rule ''y'' Ask ''r'']" "mk_rule ''x'' Deny ''no''"
          "[mk_rule ''x'' Allow ''yes'']" ?req, THEN conjunct1]) simp_all
  then show ?thesis by (intro exI [of _ ?req]) simp
qed

text \<open>Local controls come first: a local deny stays the effective decision whatever the
  central bundle, its rollout or its simulation flag say; otherwise the central bundle decides
  exactly when it applies to the device and is not simulated, a simulated bundle never changes
  the effective result, and its result is only reported.\<close>

theorem layered_policy_precedence:
  "let res = evaluate_layered sha256 local central device req;
       local_res = evaluate local req
   in if pr_decision local_res = Deny
      then res = \<lparr>lp_effective = local_res, lp_simulated = None, lp_central_applied = False\<rparr>
      else
        (case central of
           None \<Rightarrow> lp_effective res = local_res \<and> lp_simulated res = None \<and> \<not> lp_central_applied res
         | Some c \<Rightarrow>
             (lp_central_applied res \<longleftrightarrow>
                applies_to_device sha256 c device \<and> \<not> cpp_simulate (vp_payload c)) \<and>
             lp_effective res =
               (if lp_central_applied res then evaluate (cpp_bundle (vp_payload c)) req else local_res) \<and>
             lp_simulated res =
               (if applies_to_device sha256 c device \<and> cpp_simulate (vp_payload c)
                then Some (evaluate (cpp_bundle (vp_payload c)) req) else None))"
  by (auto simp: evaluate_layered_def Let_def split: option.splits)

lemma two_byte_prefix:
  assumes "2 \<le> length xs"
  obtains a b ys where "xs = a # b # ys"
proof (cases xs)
  case Nil
  with assms show thesis by simp
next
  case (Cons a zs)
  then obtain b ys where "zs = b # ys" using assms by (cases zs) auto
  with Cons that show thesis by blast
qed

text \<open>The rollout is monotone: a device that is in the rollout at some percentage stays in it
  when the percentage grows; at 0 no device is in it and at 100 every device is.\<close>

theorem rollout_monotone:
  assumes "p \<le> q" and "applies_to_rollout sha256 p seed device"
    and digest_length: "length (sha256 (seed @ [CHR 0x00] @ device)) = 32"
  shows "applies_to_rollout sha256 q seed device \<and>
    applies_to_rollout sha256 100 seed device \<and> \<not> applies_to_rollout sha256 0 seed device"
proof -
  obtain b0 b1 bs where d: "sha256 (seed @ [CHR 0x00] @ device) = b0 # b1 # bs"
    using two_byte_prefix [of "sha256 (seed @ [CHR 0x00] @ device)"] digest_length by auto
  have le: "unat p \<le> unat q" using assms(1) by (simp add: word_le_nat_alt)
  have lt: "(byte b0 * 256 + byte b1) mod 100 < (100::nat)" by simp
  have "p \<noteq> 0" using assms(2) by (auto simp: applies_to_rollout_def)
  with assms(1) have "q \<noteq> 0" by auto
  have "(byte b0 * 256 + byte b1) mod 100 < unat q" if "q \<noteq> 100"
  proof (cases "p = 100")
    case True
    with le lt show ?thesis by simp
  next
    case False
    with assms(2) d \<open>p \<noteq> 0\<close> le show ?thesis by (simp add: applies_to_rollout_def)
  qed
  with d \<open>q \<noteq> 0\<close> show ?thesis by (simp add: applies_to_rollout_def)
qed

theorem rollout_monotone_witness:
  "let sha = (\<lambda>_. CHR 0x00 # CHR 0x1E # replicate 30 (CHR 0x00))
   in applies_to_rollout sha 31 ''seed'' ''dev'' \<and> \<not> applies_to_rollout sha 30 ''seed'' ''dev'' \<and>
      applies_to_rollout sha 60 ''seed'' ''dev''"
proof -
  let ?sha = "\<lambda>_::string. CHR 0x00 # CHR 0x1E # replicate 30 (CHR 0x00)"
  have a: "applies_to_rollout ?sha 31 ''seed'' ''dev''" by (simp add: applies_to_rollout_def)
  have "applies_to_rollout ?sha 60 ''seed'' ''dev''"
    by (rule rollout_monotone [OF _ a, THEN conjunct1]) simp_all
  with a show ?thesis by (simp add: applies_to_rollout_def)
qed

end
