(* ===== verification/Signed_Channel.thy ===== *)
theory Signed_Channel
  imports SC_Prelude
begin

text \<open>
  The interface of a verified channel of sequenced, signed payloads.  The provider is a function
  that verifies an envelope against the sequence number already installed; it promises that an
  accepted payload is the one in the envelope, authentic, inside its validity window and newer
  than the installed one, and that the installed number matters only for that last test.  The
  client installs what it accepts; the lemmas show what an installation history guarantees.
\<close>

fun install_all ::
  "('env \<Rightarrow> u64 option \<Rightarrow> Timestamp \<Rightarrow> 'e + 'p) \<Rightarrow> ('p \<Rightarrow> u64) \<Rightarrow> 'p option
     \<Rightarrow> ('env \<times> Timestamp) list \<Rightarrow> 'p option" where
  "install_all vf seq st [] = st"
| "install_all vf seq st ((env, now) # rest) =
     (case vf env (map_option seq st) now of
        Inl _ \<Rightarrow> install_all vf seq st rest
      | Inr p \<Rightarrow> install_all vf seq (Some p) rest)"

locale signed_channel =
  fixes vf :: "'env \<Rightarrow> u64 option \<Rightarrow> Timestamp \<Rightarrow> 'e + 'p"
    and content :: "'env \<Rightarrow> 'p"
    and seq :: "'p \<Rightarrow> u64"
    and window :: "'p \<Rightarrow> Timestamp \<times> Timestamp"
    and authentic :: "'env \<Rightarrow> bool"
  assumes accept: "vf env installed now = Inr p \<Longrightarrow>
      p = content env \<and> authentic env \<and> fst (window p) \<le> now \<and> now < snd (window p) \<and>
      (case installed of None \<Rightarrow> True | Some s \<Rightarrow> s < seq p)"
    and older_accepts: "vf env installed now = Inr p \<Longrightarrow> vf env None now = Inr p"
begin

lemma installed_grows:
  assumes "install_all vf seq st hist = Some p"
  shows "(st = Some p \<or> (\<exists>(env, now) \<in> set hist. content env = p \<and> authentic env \<and>
            fst (window p) \<le> now \<and> now < snd (window p))) \<and>
         (case st of None \<Rightarrow> True | Some q \<Rightarrow> seq q \<le> seq p)"
  using assms
proof (induction hist arbitrary: st)
  case Nil
  then show ?case by simp
next
  case (Cons x hist)
  obtain env now where x: "x = (env, now)" by (cases x)
  show ?case
  proof (cases "vf env (map_option seq st) now")
    case (Inl e)
    with Cons x show ?thesis by (auto split: option.splits)
  next
    case (Inr q)
    with Cons.prems x have "install_all vf seq (Some q) hist = Some p" by simp
    from Cons.IH [OF this] accept [OF Inr] x show ?thesis
      by (auto split: option.splits)
  qed
qed

lemma stays_installed:
  assumes "st \<noteq> None"
  shows "install_all vf seq st hist \<noteq> None"
  using assms by (induction hist arbitrary: st) (auto split: sum.splits)

lemma replay_rejected:
  assumes acc: "vf env (map_option seq (install_all vf seq st before)) now = Inr p"
    and final: "install_all vf seq st (before @ (env, now) # after) = Some q"
  shows "seq p \<le> seq q \<and> (\<exists>e. vf env (Some (seq q)) now' = Inl e)"
proof -
  have split_hist: "install_all vf seq st (xs @ ys) = install_all vf seq (install_all vf seq st xs) ys"
    for xs ys by (induction xs arbitrary: st) (auto split: sum.splits)
  from final acc have "install_all vf seq (Some p) after = Some q"
    by (simp add: split_hist)
  from installed_grows [OF this] have le: "seq p \<le> seq q" by simp
  have "\<nexists>r. vf env (Some (seq q)) now' = Inr r"
  proof
    assume "\<exists>r. vf env (Some (seq q)) now' = Inr r"
    then obtain r where r: "vf env (Some (seq q)) now' = Inr r" ..
    from accept [OF r] accept [OF acc] le show False by auto
  qed
  with le show ?thesis by (cases "vf env (Some (seq q)) now'") auto
qed

end

end
