(* ===== verification/Policy_Trust.thy ===== *)
theory Policy_Trust
  imports Policy_Bundle Signed_Channel
begin

text \<open>
  The trust store of \<open>crates/policy/src/lib.rs\<close>: the signed envelopes (central policies, team
  configurations, team work snapshots, extension manifests and their security attestations, policy
  exceptions) and the functions that verify them.  Base64, the Ed25519 keys and signatures, and
  the JSON serialisers are parameters: the record \<open>Crypto\<close> and one \<open>to_vec\<close> argument per
  payload type.
\<close>

section \<open>Envelopes\<close>

record TeamAuditContentPolicy =
  tac_kms_key_id :: string
  tac_retention_days :: u16
  tac_residency_region :: string
  tac_content_categories :: "string list"

record TeamRuntimeConfiguration =
  trc_human_available_hours :: f64
  trc_agent_concurrency :: u32
  trc_wip_limit :: u32
  trc_allowed_model_ids :: "Id list"
  trc_model_routing_order :: "Id list"
  trc_model_fallback_reasons :: "string list"
  trc_audit_content_policy :: "TeamAuditContentPolicy option"
  trc_policy_sequence :: u64
  trc_policy_bundle :: PolicyBundle
  trc_policy_rollout_percent :: u8
  trc_policy_rollout_seed :: string
  trc_policy_simulate :: bool
  trc_knowledge_version :: string

record CentralTeamConfigurationPayload =
  ctc_organization_id :: Id
  ctc_team_id :: Id
  ctc_sequence :: u64
  ctc_issued_at :: Timestamp
  ctc_expires_at :: Timestamp
  ctc_configuration :: TeamRuntimeConfiguration

record SignedTeamConfiguration =
  stc_key_id :: string
  stc_payload :: CentralTeamConfigurationPayload
  stc_signature :: string

record ReplicatedTeamGoal =
  rtg_id :: Id
  rtg_title :: string
  rtg_outcome_definition :: string
  rtg_status :: GoalStatus
  rtg_target_date :: "Timestamp option"

record ReplicatedTeamTask =
  rtt_id :: Id
  rtt_goal_id :: "Id option"
  rtt_source :: string
  rtt_title :: string
  rtt_priority :: int
  rtt_assignee_type :: "string option"
  rtt_assignee_id :: "Id option"
  rtt_status :: TeamTaskStatus
  rtt_acceptance_criteria :: "string list"
  rtt_required_evidence :: "string list"
  rtt_blockers :: "string list"

record CentralTeamWorkPayload =
  ctw_organization_id :: Id
  ctw_team_id :: Id
  ctw_sequence :: u64
  ctw_issued_at :: Timestamp
  ctw_expires_at :: Timestamp
  ctw_goals :: "ReplicatedTeamGoal list"
  ctw_tasks :: "ReplicatedTeamTask list"

record SignedTeamWorkSnapshot =
  stw_key_id :: string
  stw_payload :: CentralTeamWorkPayload
  stw_signature :: string

datatype EnterpriseExtensionKind = Plugin | Skill | McpServer | Connector

record EnterpriseExtensionTool =
  eet_name :: string
  eet_input_schema :: json
  eet_output_schema :: json
  eet_data_classification :: string

text \<open>The credential environment is a \<open>BTreeMap\<close>: its entries in key order.\<close>

record EnterpriseExtensionManifest =
  eem_name :: string
  eem_kind :: EnterpriseExtensionKind
  eem_publisher :: string
  eem_version :: string
  eem_digest_sha256 :: string
  eem_source_uri :: string
  eem_artifact_size_bytes :: u64
  eem_artifact_media_type :: string
  eem_runtime_protocol :: string
  eem_runtime_arguments :: "string list"
  eem_credential_environment :: "(string \<times> string) list"
  eem_file_permissions :: "string list"
  eem_network_permissions :: "string list"
  eem_secret_permissions :: "string list"
  eem_tools :: "EnterpriseExtensionTool list"
  eem_supported_clients :: "string list"
  eem_min_daemon_version :: string
  eem_security_review :: string
  eem_install_scope :: string
  eem_auto_update :: bool
  eem_revoked :: bool

datatype EnterpriseExtensionScanDecision = Scan_Approved | Scan_Rejected

record EnterpriseExtensionSecurityAttestationPayload =
  esa_organization_id :: Id
  esa_team_id :: "Id option"
  esa_extension_id :: Id
  esa_extension_sequence :: u64
  esa_artifact_digest_sha256 :: string
  esa_artifact_size_bytes :: u64
  esa_scanner :: string
  esa_scanner_policy_version :: string
  esa_sbom_digest_sha256 :: string
  esa_critical_findings :: u32
  esa_high_findings :: u32
  esa_medium_findings :: u32
  esa_decision :: EnterpriseExtensionScanDecision
  esa_scanned_at :: Timestamp
  esa_expires_at :: Timestamp

record SignedEnterpriseExtensionSecurityAttestation =
  ssa_key_id :: string
  ssa_payload :: EnterpriseExtensionSecurityAttestationPayload
  ssa_signature :: string

record CentralExtensionManifestPayload =
  cem_organization_id :: Id
  cem_team_id :: "Id option"
  cem_extension_id :: Id
  cem_sequence :: u64
  cem_issued_at :: Timestamp
  cem_expires_at :: Timestamp
  cem_manifest :: EnterpriseExtensionManifest

record SignedEnterpriseExtensionManifest =
  sem_key_id :: string
  sem_payload :: CentralExtensionManifestPayload
  sem_signature :: string

record CentralPolicyExceptionPayload =
  cpe_organization_id :: Id
  cpe_team_id :: Id
  cpe_exception_id :: Id
  cpe_sequence :: u64
  cpe_issued_at :: Timestamp
  cpe_expires_at :: Timestamp
  cpe_active :: bool
  cpe_tool :: string
  cpe_actor_id :: "Id option"
  cpe_workspace_uri :: "string option"
  cpe_reason :: string
  cpe_requested_by :: Id
  cpe_approved_by :: Id

record SignedPolicyExceptionGrant =
  spe_key_id :: string
  spe_payload :: CentralPolicyExceptionPayload
  spe_signature :: string

datatype PolicyVerificationError =
    MalformedKey | UnknownKey | MalformedSignature | InvalidSignature | OutsideValidity
  | InvalidRollout | RollbackAttempt | ScopeMismatch | Serialization | InvalidConfiguration

section \<open>The trust store\<close>

text \<open>The operations of the base64 and Ed25519 libraries: decoding, the key of 32 bytes, the
  signature of a byte slice, and the verification of a signature of a message.\<close>

record Crypto =
  b64_decode :: "string \<Rightarrow> string option"
  key_from_bytes :: "string \<Rightarrow> string option"
  signature_from_slice :: "string \<Rightarrow> string option"
  key_verify :: "string \<Rightarrow> string \<Rightarrow> string \<Rightarrow> bool"

record PolicyTrustStore =
  pts_keys :: "string \<rightharpoonup> string"

definition PolicyTrustStore_default :: PolicyTrustStore where
  "PolicyTrustStore_default = \<lparr>pts_keys = Map.empty\<rparr>"

definition trust_insert :: "PolicyTrustStore \<Rightarrow> string \<Rightarrow> string \<Rightarrow> PolicyTrustStore" where
  "trust_insert ts key_id key = ts\<lparr>pts_keys := (pts_keys ts)(key_id \<mapsto> key)\<rparr>"

definition insert_base64 ::
  "Crypto \<Rightarrow> PolicyTrustStore \<Rightarrow> string \<Rightarrow> string \<Rightarrow> PolicyVerificationError + PolicyTrustStore" where
  "insert_base64 cr ts key_id encoded =
     and_then (ok_or (b64_decode cr encoded) MalformedKey) (\<lambda>bytes.
       if length bytes \<noteq> 32 then Err MalformedKey
       else and_then (ok_or (key_from_bytes cr bytes) MalformedKey) (\<lambda>key.
         Ok (trust_insert ts key_id key)))"

text \<open>The tail that every verification function shares: look the key up, decode the signature,
  serialise the payload and verify the signature of those bytes.\<close>

definition check_signature ::
  "Crypto \<Rightarrow> ('p \<Rightarrow> string option) \<Rightarrow> PolicyTrustStore \<Rightarrow> string \<Rightarrow> string \<Rightarrow> 'p
     \<Rightarrow> PolicyVerificationError + 'p" where
  "check_signature cr to_vec ts key_id signature payload =
     and_then (ok_or (pts_keys ts key_id) UnknownKey) (\<lambda>key.
     and_then (ok_or (b64_decode cr signature) MalformedSignature) (\<lambda>signature_bytes.
     and_then (ok_or (signature_from_slice cr signature_bytes) MalformedSignature) (\<lambda>sig.
     and_then (ok_or (to_vec payload) Serialization) (\<lambda>canonical.
       if \<not> key_verify cr key canonical sig then Err InvalidSignature else Ok payload))))"

definition not_newer :: "u64 option \<Rightarrow> u64 \<Rightarrow> bool" where
  "not_newer installed sequence = (case installed of None \<Rightarrow> False | Some s \<Rightarrow> sequence \<le> s)"

definition verify ::
  "Crypto \<Rightarrow> (CentralPolicyPayload \<Rightarrow> string option) \<Rightarrow> PolicyTrustStore \<Rightarrow> SignedPolicyBundle
     \<Rightarrow> Id \<Rightarrow> Id option \<Rightarrow> u64 option \<Rightarrow> Timestamp \<Rightarrow> PolicyVerificationError + VerifiedPolicy" where
  "verify cr to_vec ts envelope organization_id team_id installed_sequence now =
     (let payload = spb_payload envelope in
      if cpp_organization_id payload \<noteq> organization_id \<or> cpp_team_id payload \<noteq> team_id
      then Err ScopeMismatch
      else if cpp_rollout_percent payload > 100 then Err InvalidRollout
      else if now < cpp_issued_at payload \<or> cpp_expires_at payload \<le> now then Err OutsideValidity
      else if not_newer installed_sequence (cpp_sequence payload) then Err RollbackAttempt
      else and_then (check_signature cr to_vec ts (spb_key_id envelope) (spb_signature envelope) payload)
             (\<lambda>p. Ok \<lparr>vp_payload = p\<rparr>))"

definition tac_is_valid :: "TeamAuditContentPolicy \<Rightarrow> bool" where
  "tac_is_valid p =
     (let categories = set (tac_content_categories p) in
      \<not> blank (tac_kms_key_id p)
      \<and> length (tac_kms_key_id p) \<le> 256
      \<and> 1 \<le> tac_retention_days p \<and> tac_retention_days p \<le> 3650
      \<and> tac_residency_region p \<noteq> []
      \<and> length (tac_residency_region p) \<le> 64
      \<and> list_all (\<lambda>b. is_ascii_alphanumeric b \<or> b = CHR ''-'' \<or> b = CHR ''_'') (tac_residency_region p)
      \<and> length (tac_content_categories p) = 1
      \<and> card categories = 1
      \<and> ''audit_event_payload'' \<in> categories)"

definition invalid_team_configuration :: "TeamRuntimeConfiguration \<Rightarrow> bool" where
  "invalid_team_configuration config =
     (let allowed_models = set (trc_allowed_model_ids config);
          routes = set (trc_model_routing_order config);
          fallback_reasons = set (trc_model_fallback_reasons config)
      in \<not> f64_is_finite (trc_human_available_hours config)
         \<or> f64_negative (trc_human_available_hours config)
         \<or> trc_agent_concurrency config > 10000
         \<or> trc_wip_limit config = 0
         \<or> trc_wip_limit config > 100000
         \<or> trc_policy_rollout_percent config > 100
         \<or> blank (trc_policy_rollout_seed config)
         \<or> blank (trc_knowledge_version config)
         \<or> length (trc_allowed_model_ids config) > 64
         \<or> card allowed_models \<noteq> length (trc_allowed_model_ids config)
         \<or> length (trc_model_routing_order config) > 64
         \<or> card routes \<noteq> length (trc_model_routing_order config)
         \<or> list_ex (\<lambda>i. i \<notin> allowed_models) (trc_model_routing_order config)
         \<or> card fallback_reasons \<noteq> length (trc_model_fallback_reasons config)
         \<or> list_ex (\<lambda>r. r \<notin> {''rate_limited'', ''timeout'', ''provider_unavailable'', ''context_overflow''})
              (trc_model_fallback_reasons config)
         \<or> (trc_model_fallback_reasons config \<noteq> [] \<and> length (trc_model_routing_order config) < 2)
         \<or> (case trc_audit_content_policy config of None \<Rightarrow> False | Some p \<Rightarrow> \<not> tac_is_valid p))"

definition verify_team_configuration ::
  "Crypto \<Rightarrow> (CentralTeamConfigurationPayload \<Rightarrow> string option) \<Rightarrow> PolicyTrustStore
     \<Rightarrow> SignedTeamConfiguration \<Rightarrow> Id \<Rightarrow> Id \<Rightarrow> u64 option \<Rightarrow> Timestamp
     \<Rightarrow> PolicyVerificationError + CentralTeamConfigurationPayload" where
  "verify_team_configuration cr to_vec ts envelope organization_id team_id installed_sequence now =
     (let payload = stc_payload envelope in
      if ctc_organization_id payload \<noteq> organization_id \<or> ctc_team_id payload \<noteq> team_id
      then Err ScopeMismatch
      else if now < ctc_issued_at payload \<or> ctc_expires_at payload \<le> now then Err OutsideValidity
      else if not_newer installed_sequence (ctc_sequence payload) then Err RollbackAttempt
      else if invalid_team_configuration (ctc_configuration payload) then Err InvalidConfiguration
      else check_signature cr to_vec ts (stc_key_id envelope) (stc_signature envelope) payload)"

definition invalid_goals :: "ReplicatedTeamGoal list \<Rightarrow> bool" where
  "invalid_goals goals =
     (card (set (map rtg_id goals)) \<noteq> length goals
      \<or> list_ex (\<lambda>g. blank (rtg_id g) \<or> blank (rtg_title g) \<or> blank (rtg_outcome_definition g)
                    \<or> rtg_status g = Goal_Achieved) goals)"

definition invalid_tasks :: "Id set \<Rightarrow> ReplicatedTeamTask list \<Rightarrow> bool" where
  "invalid_tasks goal_ids tasks =
     (card (set (map rtt_id tasks)) \<noteq> length tasks
      \<or> list_ex (\<lambda>t. blank (rtt_id t) \<or> blank (rtt_title t) \<or> blank (rtt_source t)
                    \<or> rtt_status t = Task_Verified
                    \<or> (rtt_status t = Task_Blocked \<and> rtt_blockers t = [])
                    \<or> (case rtt_goal_id t of None \<Rightarrow> False | Some i \<Rightarrow> i \<notin> goal_ids)) tasks)"

definition verify_team_work_snapshot ::
  "Crypto \<Rightarrow> (CentralTeamWorkPayload \<Rightarrow> string option) \<Rightarrow> PolicyTrustStore
     \<Rightarrow> SignedTeamWorkSnapshot \<Rightarrow> Id \<Rightarrow> Id \<Rightarrow> u64 option \<Rightarrow> Timestamp
     \<Rightarrow> PolicyVerificationError + CentralTeamWorkPayload" where
  "verify_team_work_snapshot cr to_vec ts envelope organization_id team_id installed_sequence now =
     (let payload = stw_payload envelope in
      if ctw_organization_id payload \<noteq> organization_id \<or> ctw_team_id payload \<noteq> team_id
      then Err ScopeMismatch
      else if now < ctw_issued_at payload \<or> ctw_expires_at payload \<le> now then Err OutsideValidity
      else if not_newer installed_sequence (ctw_sequence payload) then Err RollbackAttempt
      else if length (ctw_goals payload) > 10000 \<or> length (ctw_tasks payload) > 100000
      then Err InvalidConfiguration
      else if invalid_goals (ctw_goals payload)
              \<or> invalid_tasks (set (map rtg_id (ctw_goals payload))) (ctw_tasks payload)
      then Err InvalidConfiguration
      else check_signature cr to_vec ts (stw_key_id envelope) (stw_signature envelope) payload)"

fun environment_name_from :: "nat \<Rightarrow> string \<Rightarrow> bool" where
  "environment_name_from index [] = True"
| "environment_name_from index (b # bs) =
     ((b = CHR ''_'' \<or> is_ascii_alphabetic b \<or> (index > 0 \<and> is_ascii_digit b))
      \<and> environment_name_from (Suc index) bs)"

definition valid_environment_name :: "string \<Rightarrow> bool" where
  "valid_environment_name value =
     (value \<noteq> [] \<and> length value \<le> 128 \<and> environment_name_from 0 value)"

definition valid_digest :: "string \<Rightarrow> bool" where
  "valid_digest value = (length value = 64 \<and> list_all is_ascii_hexdigit value)"

definition bounded_permissions :: "EnterpriseExtensionManifest \<Rightarrow> bool" where
  "bounded_permissions manifest =
     (length (eem_file_permissions manifest) \<le> 256
      \<and> length (eem_network_permissions manifest) \<le> 256
      \<and> length (eem_secret_permissions manifest) \<le> 256
      \<and> length (eem_tools manifest) \<le> 512
      \<and> length (eem_supported_clients manifest) \<le> 64
      \<and> length (eem_runtime_arguments manifest) \<le> 128
      \<and> list_all (\<lambda>a. length a \<le> 4096 \<and> CHR 0x00 \<notin> set a) (eem_runtime_arguments manifest)
      \<and> length (eem_credential_environment manifest) \<le> 64)"

definition valid_runtime :: "EnterpriseExtensionManifest \<Rightarrow> bool" where
  "valid_runtime manifest =
     (eem_artifact_size_bytes manifest > 0
      \<and> eem_artifact_size_bytes manifest \<le> 512 * 1024 * 1024
      \<and> eem_artifact_media_type manifest = ''application/vnd.s-code.extension-executable.v1''
      \<and> eem_runtime_protocol manifest = ''mcp_stdio_v1''
      \<and> list_all (\<lambda>(name, handle). valid_environment_name name \<and> valid_environment_name handle
                    \<and> handle \<in> set (eem_secret_permissions manifest))
          (eem_credential_environment manifest))"

definition valid_tools :: "EnterpriseExtensionTool list \<Rightarrow> bool" where
  "valid_tools tools =
     list_all (\<lambda>t. \<not> blank (eet_name t) \<and> length (eet_name t) \<le> 256
                 \<and> \<not> blank (eet_data_classification t) \<and> length (eet_data_classification t) \<le> 128
                 \<and> is_object (eet_input_schema t) \<and> is_object (eet_output_schema t)) tools"

definition install_scope_is_valid :: "string \<Rightarrow> Id option \<Rightarrow> bool" where
  "install_scope_is_valid install_scope team_id =
     (if install_scope = ''organization'' then team_id = None
      else if install_scope = ''team''
      then (case team_id of None \<Rightarrow> False | Some team \<Rightarrow> \<not> blank team)
      else False)"

definition invalid_extension_manifest :: "CentralExtensionManifestPayload \<Rightarrow> bool" where
  "invalid_extension_manifest payload =
     (let manifest = cem_manifest payload;
          source_is_valid =
            list_ex (\<lambda>p. starts_with (eem_source_uri manifest) p) [''https://'', ''oci://'']
      in blank (cem_extension_id payload)
         \<or> blank (eem_name manifest)
         \<or> blank (eem_publisher manifest)
         \<or> blank (eem_version manifest)
         \<or> blank (eem_min_daemon_version manifest)
         \<or> blank (eem_security_review manifest)
         \<or> \<not> install_scope_is_valid (eem_install_scope manifest) (cem_team_id payload)
         \<or> \<not> valid_digest (eem_digest_sha256 manifest)
         \<or> \<not> source_is_valid
         \<or> \<not> bounded_permissions manifest
         \<or> \<not> valid_runtime manifest
         \<or> \<not> valid_tools (eem_tools manifest))"

definition verify_extension_manifest ::
  "Crypto \<Rightarrow> (CentralExtensionManifestPayload \<Rightarrow> string option) \<Rightarrow> PolicyTrustStore
     \<Rightarrow> SignedEnterpriseExtensionManifest \<Rightarrow> Id \<Rightarrow> u64 option \<Rightarrow> Timestamp
     \<Rightarrow> PolicyVerificationError + CentralExtensionManifestPayload" where
  "verify_extension_manifest cr to_vec ts envelope organization_id installed_sequence now =
     (let payload = sem_payload envelope in
      if cem_organization_id payload \<noteq> organization_id then Err ScopeMismatch
      else if now < cem_issued_at payload \<or> cem_expires_at payload \<le> now then Err OutsideValidity
      else if not_newer installed_sequence (cem_sequence payload) then Err RollbackAttempt
      else if invalid_extension_manifest payload then Err InvalidConfiguration
      else check_signature cr to_vec ts (sem_key_id envelope) (sem_signature envelope) payload)"

definition days :: "int \<Rightarrow> int" where
  "days n = n * 86400 * 1000000000"

definition verify_extension_security_attestation ::
  "Crypto \<Rightarrow> (EnterpriseExtensionSecurityAttestationPayload \<Rightarrow> string option) \<Rightarrow> PolicyTrustStore
     \<Rightarrow> SignedEnterpriseExtensionSecurityAttestation \<Rightarrow> CentralExtensionManifestPayload \<Rightarrow> Timestamp
     \<Rightarrow> PolicyVerificationError + EnterpriseExtensionSecurityAttestationPayload" where
  "verify_extension_security_attestation cr to_vec ts envelope manifest now =
     (let payload = ssa_payload envelope in
      if esa_organization_id payload \<noteq> cem_organization_id manifest
         \<or> esa_team_id payload \<noteq> cem_team_id manifest
         \<or> esa_extension_id payload \<noteq> cem_extension_id manifest
      then Err ScopeMismatch
      else if esa_extension_sequence payload \<noteq> cem_sequence manifest
         \<or> \<not> eq_ignore_ascii_case (esa_artifact_digest_sha256 payload)
               (eem_digest_sha256 (cem_manifest manifest))
         \<or> esa_artifact_size_bytes payload \<noteq> eem_artifact_size_bytes (cem_manifest manifest)
         \<or> now < esa_scanned_at payload
         \<or> esa_expires_at payload \<le> now
         \<or> esa_expires_at payload - esa_scanned_at payload > days 30
         \<or> blank (esa_scanner payload)
         \<or> length (esa_scanner payload) > 256
         \<or> blank (esa_scanner_policy_version payload)
         \<or> length (esa_scanner_policy_version payload) > 128
         \<or> \<not> valid_digest (esa_artifact_digest_sha256 payload)
         \<or> \<not> valid_digest (esa_sbom_digest_sha256 payload)
         \<or> esa_decision payload \<noteq> Scan_Approved
         \<or> esa_critical_findings payload \<noteq> 0
         \<or> esa_high_findings payload \<noteq> 0
      then Err InvalidConfiguration
      else check_signature cr to_vec ts (ssa_key_id envelope) (ssa_signature envelope) payload)"

definition invalid_policy_exception :: "CentralPolicyExceptionPayload \<Rightarrow> bool" where
  "invalid_policy_exception payload =
     (blank (cpe_exception_id payload)
      \<or> blank (cpe_tool payload)
      \<or> blank (cpe_reason payload)
      \<or> cpe_requested_by payload = cpe_approved_by payload
      \<or> cpe_expires_at payload - cpe_issued_at payload > days 30
      \<or> (case cpe_workspace_uri payload of None \<Rightarrow> False | Some value \<Rightarrow> blank value))"

definition verify_policy_exception ::
  "Crypto \<Rightarrow> (CentralPolicyExceptionPayload \<Rightarrow> string option) \<Rightarrow> PolicyTrustStore
     \<Rightarrow> SignedPolicyExceptionGrant \<Rightarrow> Id \<Rightarrow> Id \<Rightarrow> u64 option \<Rightarrow> Timestamp
     \<Rightarrow> PolicyVerificationError + CentralPolicyExceptionPayload" where
  "verify_policy_exception cr to_vec ts envelope organization_id team_id installed_sequence now =
     (let payload = spe_payload envelope in
      if cpe_organization_id payload \<noteq> organization_id \<or> cpe_team_id payload \<noteq> team_id
      then Err ScopeMismatch
      else if now < cpe_issued_at payload \<or> cpe_expires_at payload \<le> now then Err OutsideValidity
      else if not_newer installed_sequence (cpe_sequence payload) then Err RollbackAttempt
      else if invalid_policy_exception payload then Err InvalidConfiguration
      else check_signature cr to_vec ts (spe_key_id envelope) (spe_signature envelope) payload)"

section \<open>Lemmas\<close>

text \<open>What a checked signature guarantees: a trusted key of that name verifies the signature of
  exactly the serialised payload.\<close>

definition signed_by_trusted_key ::
  "Crypto \<Rightarrow> ('p \<Rightarrow> string option) \<Rightarrow> PolicyTrustStore \<Rightarrow> string \<Rightarrow> string \<Rightarrow> 'p \<Rightarrow> bool" where
  "signed_by_trusted_key cr to_vec ts key_id signature payload =
     (\<exists>key bytes sig canonical.
        pts_keys ts key_id = Some key \<and> b64_decode cr signature = Some bytes \<and>
        signature_from_slice cr bytes = Some sig \<and> to_vec payload = Some canonical \<and>
        key_verify cr key canonical sig)"

lemma check_signature_Ok_iff:
  "check_signature cr to_vec ts key_id signature payload = Inr p \<longleftrightarrow>
     p = payload \<and> signed_by_trusted_key cr to_vec ts key_id signature payload"
  by (auto simp: check_signature_def signed_by_trusted_key_def split: if_splits)

lemma not_newer_False_iff [simp]:
  "\<not> not_newer installed s \<longleftrightarrow> (case installed of None \<Rightarrow> True | Some i \<Rightarrow> i < s)"
  by (auto simp: not_newer_def split: option.splits)

lemma card_set_distinct: "card (set xs) = length xs \<longleftrightarrow> distinct xs"
  by (metis card_distinct distinct_card)

lemma verify_Ok_iff:
  "verify cr to_vec ts env org team installed now = Inr v \<longleftrightarrow>
     v = \<lparr>vp_payload = spb_payload env\<rparr> \<and>
     cpp_organization_id (spb_payload env) = org \<and> cpp_team_id (spb_payload env) = team \<and>
     cpp_rollout_percent (spb_payload env) \<le> 100 \<and>
     cpp_issued_at (spb_payload env) \<le> now \<and> now < cpp_expires_at (spb_payload env) \<and>
     (case installed of None \<Rightarrow> True | Some s \<Rightarrow> s < cpp_sequence (spb_payload env)) \<and>
     signed_by_trusted_key cr to_vec ts (spb_key_id env) (spb_signature env) (spb_payload env)"
  unfolding verify_def Let_def
  by (auto simp: check_signature_Ok_iff not_less not_le simp flip: not_newer_False_iff split: if_splits)

lemma verify_team_configuration_Ok_iff:
  "verify_team_configuration cr to_vec ts env org team installed now = Inr p \<longleftrightarrow>
     p = stc_payload env \<and> ctc_organization_id p = org \<and> ctc_team_id p = team \<and>
     ctc_issued_at p \<le> now \<and> now < ctc_expires_at p \<and>
     (case installed of None \<Rightarrow> True | Some s \<Rightarrow> s < ctc_sequence p) \<and>
     \<not> invalid_team_configuration (ctc_configuration p) \<and>
     signed_by_trusted_key cr to_vec ts (stc_key_id env) (stc_signature env) p"
  unfolding verify_team_configuration_def Let_def
  by (auto simp: check_signature_Ok_iff not_less not_le simp flip: not_newer_False_iff split: if_splits)

lemma verify_team_work_snapshot_Ok_iff:
  "verify_team_work_snapshot cr to_vec ts env org team installed now = Inr p \<longleftrightarrow>
     p = stw_payload env \<and> ctw_organization_id p = org \<and> ctw_team_id p = team \<and>
     ctw_issued_at p \<le> now \<and> now < ctw_expires_at p \<and>
     (case installed of None \<Rightarrow> True | Some s \<Rightarrow> s < ctw_sequence p) \<and>
     length (ctw_goals p) \<le> 10000 \<and> length (ctw_tasks p) \<le> 100000 \<and>
     \<not> invalid_goals (ctw_goals p) \<and>
     \<not> invalid_tasks (set (map rtg_id (ctw_goals p))) (ctw_tasks p) \<and>
     signed_by_trusted_key cr to_vec ts (stw_key_id env) (stw_signature env) p"
  unfolding verify_team_work_snapshot_def Let_def
  by (auto simp: check_signature_Ok_iff not_less not_le simp flip: not_newer_False_iff split: if_splits)

lemma verify_extension_manifest_Ok_iff:
  "verify_extension_manifest cr to_vec ts env org installed now = Inr p \<longleftrightarrow>
     p = sem_payload env \<and> cem_organization_id p = org \<and>
     cem_issued_at p \<le> now \<and> now < cem_expires_at p \<and>
     (case installed of None \<Rightarrow> True | Some s \<Rightarrow> s < cem_sequence p) \<and>
     \<not> invalid_extension_manifest p \<and>
     signed_by_trusted_key cr to_vec ts (sem_key_id env) (sem_signature env) p"
  unfolding verify_extension_manifest_def Let_def
  by (auto simp: check_signature_Ok_iff not_less not_le simp flip: not_newer_False_iff split: if_splits)

lemma verify_policy_exception_Ok_iff:
  "verify_policy_exception cr to_vec ts env org team installed now = Inr p \<longleftrightarrow>
     p = spe_payload env \<and> cpe_organization_id p = org \<and> cpe_team_id p = team \<and>
     cpe_issued_at p \<le> now \<and> now < cpe_expires_at p \<and>
     (case installed of None \<Rightarrow> True | Some s \<Rightarrow> s < cpe_sequence p) \<and>
     \<not> invalid_policy_exception p \<and>
     signed_by_trusted_key cr to_vec ts (spe_key_id env) (spe_signature env) p"
  unfolding verify_policy_exception_def Let_def
  by (auto simp: check_signature_Ok_iff not_less not_le simp flip: not_newer_False_iff split: if_splits)

lemma valid_team_configuration:
  assumes "\<not> invalid_team_configuration c"
  shows "distinct (trc_allowed_model_ids c) \<and> distinct (trc_model_routing_order c) \<and>
    set (trc_model_routing_order c) \<subseteq> set (trc_allowed_model_ids c) \<and>
    length (trc_allowed_model_ids c) \<le> 64 \<and>
    (trc_model_fallback_reasons c = [] \<or> 2 \<le> length (trc_model_routing_order c)) \<and>
    f64_is_finite (trc_human_available_hours c) \<and> \<not> f64_negative (trc_human_available_hours c) \<and>
    0 < trc_wip_limit c \<and> trc_policy_rollout_percent c \<le> 100"
proof -
  note a = assms [unfolded invalid_team_configuration_def Let_def de_Morgan_disj not_not not_less]
  have "0 < trc_wip_limit c" using a by (simp add: word_greater_zero_iff)
  moreover have "set (trc_model_routing_order c) \<subseteq> set (trc_allowed_model_ids c)"
    using a by (auto simp: list_ex_iff)
  ultimately show ?thesis using a by (auto simp: card_set_distinct)
qed

lemma valid_work_items:
  assumes "\<not> invalid_goals goals" and "\<not> invalid_tasks (set (map rtg_id goals)) tasks"
  shows "distinct (map rtg_id goals) \<and> distinct (map rtt_id tasks) \<and>
    Goal_Achieved \<notin> set (map rtg_status goals) \<and> Task_Verified \<notin> set (map rtt_status tasks) \<and>
    {g. Some g \<in> set (map rtt_goal_id tasks)} \<subseteq> set (map rtg_id goals)"
proof -
  have "distinct (map rtg_id goals)" "distinct (map rtt_id tasks)"
    using assms card_set_distinct [of "map rtg_id goals"] card_set_distinct [of "map rtt_id tasks"]
    by (simp_all add: invalid_goals_def invalid_tasks_def)
  moreover have "Goal_Achieved \<notin> set (map rtg_status goals)"
    using assms(1) by (auto simp: invalid_goals_def list_ex_iff)
  moreover have "Task_Verified \<notin> set (map rtt_status tasks)"
    using assms(2) by (auto simp: invalid_tasks_def list_ex_iff)
  moreover have "g \<in> set (map rtg_id goals)" if "Some g \<in> set (map rtt_goal_id tasks)" for g
  proof -
    from that obtain t where "t \<in> set tasks" "rtt_goal_id t = Some g" by auto
    with assms(2) show ?thesis by (fastforce simp: invalid_tasks_def list_ex_iff)
  qed
  ultimately show ?thesis by blast
qed

section \<open>The verification functions are signed channels\<close>

interpretation policy_channel: signed_channel
  "\<lambda>env installed now. verify cr to_vec ts env org team installed now"
  "\<lambda>env. \<lparr>vp_payload = spb_payload env\<rparr>"
  "\<lambda>v. cpp_sequence (vp_payload v)"
  "\<lambda>v. (cpp_issued_at (vp_payload v), cpp_expires_at (vp_payload v))"
  "\<lambda>env. signed_by_trusted_key cr to_vec ts (spb_key_id env) (spb_signature env) (spb_payload env)"
  for cr to_vec ts org team
  by unfold_locales (auto simp: verify_Ok_iff split: option.splits)

interpretation team_configuration_channel: signed_channel
  "\<lambda>env installed now. verify_team_configuration cr to_vec ts env org team installed now"
  stc_payload ctc_sequence "\<lambda>p. (ctc_issued_at p, ctc_expires_at p)"
  "\<lambda>env. signed_by_trusted_key cr to_vec ts (stc_key_id env) (stc_signature env) (stc_payload env)"
  for cr to_vec ts org team
  by unfold_locales (auto simp: verify_team_configuration_Ok_iff)

interpretation team_work_channel: signed_channel
  "\<lambda>env installed now. verify_team_work_snapshot cr to_vec ts env org team installed now"
  stw_payload ctw_sequence "\<lambda>p. (ctw_issued_at p, ctw_expires_at p)"
  "\<lambda>env. signed_by_trusted_key cr to_vec ts (stw_key_id env) (stw_signature env) (stw_payload env)"
  for cr to_vec ts org team
  by unfold_locales (auto simp: verify_team_work_snapshot_Ok_iff)

interpretation extension_channel: signed_channel
  "\<lambda>env installed now. verify_extension_manifest cr to_vec ts env org installed now"
  sem_payload cem_sequence "\<lambda>p. (cem_issued_at p, cem_expires_at p)"
  "\<lambda>env. signed_by_trusted_key cr to_vec ts (sem_key_id env) (sem_signature env) (sem_payload env)"
  for cr to_vec ts org
  by unfold_locales (auto simp: verify_extension_manifest_Ok_iff)

interpretation exception_channel: signed_channel
  "\<lambda>env installed now. verify_policy_exception cr to_vec ts env org team installed now"
  spe_payload cpe_sequence "\<lambda>p. (cpe_issued_at p, cpe_expires_at p)"
  "\<lambda>env. signed_by_trusted_key cr to_vec ts (spe_key_id env) (spe_signature env) (spe_payload env)"
  for cr to_vec ts org team
  by unfold_locales (auto simp: verify_policy_exception_Ok_iff)

section \<open>Properties\<close>

text \<open>A central policy is accepted exactly when it is for the requested organisation and team,
  has a rollout of at most 100 percent, is inside its validity window, is strictly newer than the
  installed one, and a trusted key verifies the signature of exactly its serialised payload; what
  is returned is that payload, unchanged.\<close>

theorem central_policy_accepted_iff:
  "verify cr to_vec ts env org team installed now = Ok v \<longleftrightarrow>
     (let p = spb_payload env in
      v = \<lparr>vp_payload = p\<rparr> \<and> cpp_organization_id p = org \<and> cpp_team_id p = team \<and>
      cpp_rollout_percent p \<le> 100 \<and> cpp_issued_at p \<le> now \<and> now < cpp_expires_at p \<and>
      (case installed of None \<Rightarrow> True | Some s \<Rightarrow> s < cpp_sequence p) \<and>
      (\<exists>key bytes sig canonical.
         pts_keys ts (spb_key_id env) = Some key \<and> b64_decode cr (spb_signature env) = Some bytes \<and>
         signature_from_slice cr bytes = Some sig \<and> to_vec p = Some canonical \<and>
         key_verify cr key canonical sig))"
  unfolding Let_def verify_Ok_iff signed_by_trusted_key_def ..


text \<open>A library instance for the examples: base64 and signatures are the identity, and a signature
  verifies when it is the key followed by the message.\<close>

definition demo_crypto :: Crypto where
  "demo_crypto = \<lparr>b64_decode = Some, key_from_bytes = Some, signature_from_slice = Some,
     key_verify = (\<lambda>key msg sig. sig = key @ msg)\<rparr>"

definition demo_store :: PolicyTrustStore where
  "demo_store = trust_insert PolicyTrustStore_default ''k'' ''K''"

definition demo_policy :: "u64 \<Rightarrow> SignedPolicyBundle" where
  "demo_policy n = \<lparr>spb_key_id = ''k'',
     spb_payload = \<lparr>cpp_organization_id = ''o'', cpp_team_id = None, cpp_sequence = n,
       cpp_issued_at = 10, cpp_expires_at = 20,
       cpp_bundle = \<lparr>pb_id = ''b'', pb_version = ''1'', pb_rules = [], pb_default = Deny\<rparr>,
       cpp_rollout_percent = 100, cpp_rollout_seed = ''s'', cpp_simulate = False\<rparr>,
     spb_signature = ''KP''\<rparr>"

lemma demo_policy_verifies:
  "verify demo_crypto (\<lambda>_. Some ''P'') demo_store (demo_policy n) ''o'' None None 15 =
     Inr \<lparr>vp_payload = spb_payload (demo_policy n)\<rparr>"
  by (simp add: verify_Ok_iff signed_by_trusted_key_def demo_policy_def demo_crypto_def
      demo_store_def trust_insert_def)


text \<open>An accepted team configuration is usable as it is: the allowed models and the routing
  order have no duplicates and at most 64 entries, every route is an allowed model, a fallback
  needs at least two routes, and the numeric limits are in range; and it is authentic, current and
  newer than the installed one.\<close>

theorem team_configuration_sound:
  assumes "verify_team_configuration cr to_vec ts env org team installed now = Ok p"
  shows "let c = ctc_configuration p in
    p = stc_payload env \<and> ctc_organization_id p = org \<and> ctc_team_id p = team \<and>
    signed_by_trusted_key cr to_vec ts (stc_key_id env) (stc_signature env) p \<and>
    ctc_issued_at p \<le> now \<and> now < ctc_expires_at p \<and>
    (case installed of None \<Rightarrow> True | Some s \<Rightarrow> s < ctc_sequence p) \<and>
    distinct (trc_allowed_model_ids c) \<and> distinct (trc_model_routing_order c) \<and>
    set (trc_model_routing_order c) \<subseteq> set (trc_allowed_model_ids c) \<and>
    length (trc_allowed_model_ids c) \<le> 64 \<and>
    (trc_model_fallback_reasons c = [] \<or> 2 \<le> length (trc_model_routing_order c)) \<and>
    f64_is_finite (trc_human_available_hours c) \<and> \<not> f64_negative (trc_human_available_hours c) \<and>
    0 < trc_wip_limit c \<and> trc_policy_rollout_percent c \<le> 100"
proof -
  note ok = assms [unfolded verify_team_configuration_Ok_iff]
  from ok valid_team_configuration [of "ctc_configuration p"] show ?thesis
    unfolding Let_def by blast
qed

definition demo_team_configuration :: SignedTeamConfiguration where
  "demo_team_configuration = \<lparr>stc_key_id = ''k'',
     stc_payload = \<lparr>ctc_organization_id = ''o'', ctc_team_id = ''t'', ctc_sequence = 4,
       ctc_issued_at = 10, ctc_expires_at = 20,
       ctc_configuration = \<lparr>trc_human_available_hours = F64_fin 3 1, trc_agent_concurrency = 4,
         trc_wip_limit = 2, trc_allowed_model_ids = [''m1'', ''m2''],
         trc_model_routing_order = [''m2'', ''m1''], trc_model_fallback_reasons = [''timeout''],
         trc_audit_content_policy = None, trc_policy_sequence = 1,
         trc_policy_bundle = \<lparr>pb_id = ''b'', pb_version = ''1'', pb_rules = [], pb_default = Deny\<rparr>,
         trc_policy_rollout_percent = 50, trc_policy_rollout_seed = ''s'', trc_policy_simulate = False,
         trc_knowledge_version = ''v''\<rparr>\<rparr>,
     stc_signature = ''KP''\<rparr>"

theorem team_configuration_sound_witness:
  "distinct (trc_model_routing_order (ctc_configuration (stc_payload demo_team_configuration)))"
proof -
  have "verify_team_configuration demo_crypto (\<lambda>_. Some ''P'') demo_store demo_team_configuration
      ''o'' ''t'' (Some 3) 15 = Inr (stc_payload demo_team_configuration)"
    by (simp add: verify_team_configuration_Ok_iff signed_by_trusted_key_def demo_team_configuration_def
        demo_crypto_def demo_store_def trust_insert_def invalid_team_configuration_def
        f64_is_finite_def f64_negative_def blank_def trim_def trim_end_def ws_ascii_def)
  from team_configuration_sound [OF this] show ?thesis by (simp add: Let_def)
qed

text \<open>An accepted team work snapshot is referentially closed: goal and task ids are unique,
  every task refers to a goal of the snapshot or to none, and neither an achieved goal nor a
  verified task is ever replicated.\<close>

theorem team_work_snapshot_closed:
  assumes "verify_team_work_snapshot cr to_vec ts env org team installed now = Ok p"
  shows "p = stw_payload env \<and>
    signed_by_trusted_key cr to_vec ts (stw_key_id env) (stw_signature env) p \<and>
    distinct (map rtg_id (ctw_goals p)) \<and> distinct (map rtt_id (ctw_tasks p)) \<and>
    Goal_Achieved \<notin> set (map rtg_status (ctw_goals p)) \<and>
    Task_Verified \<notin> set (map rtt_status (ctw_tasks p)) \<and>
    {g. Some g \<in> set (map rtt_goal_id (ctw_tasks p))} \<subseteq> set (map rtg_id (ctw_goals p))"
proof -
  note ok = assms [unfolded verify_team_work_snapshot_Ok_iff]
  from ok valid_work_items [of "ctw_goals p" "ctw_tasks p"] show ?thesis by blast
qed

definition demo_work_snapshot :: SignedTeamWorkSnapshot where
  "demo_work_snapshot = \<lparr>stw_key_id = ''k'',
     stw_payload = \<lparr>ctw_organization_id = ''o'', ctw_team_id = ''t'', ctw_sequence = 4,
       ctw_issued_at = 10, ctw_expires_at = 20,
       ctw_goals = [\<lparr>rtg_id = ''g'', rtg_title = ''G'', rtg_outcome_definition = ''d'',
         rtg_status = Goal_Active, rtg_target_date = None\<rparr>],
       ctw_tasks = [\<lparr>rtt_id = ''x'', rtt_goal_id = Some ''g'', rtt_source = ''s'', rtt_title = ''X'',
         rtt_priority = 1, rtt_assignee_type = None, rtt_assignee_id = None, rtt_status = Task_Ready,
         rtt_acceptance_criteria = [], rtt_required_evidence = [], rtt_blockers = []\<rparr>]\<rparr>,
     stw_signature = ''KP''\<rparr>"

theorem team_work_snapshot_closed_witness:
  "{g. Some g \<in> set (map rtt_goal_id (ctw_tasks (stw_payload demo_work_snapshot)))} \<subseteq>
     set (map rtg_id (ctw_goals (stw_payload demo_work_snapshot)))"
proof -
  have "verify_team_work_snapshot demo_crypto (\<lambda>_. Some ''P'') demo_store demo_work_snapshot
      ''o'' ''t'' None 15 = Inr (stw_payload demo_work_snapshot)"
    by (simp add: verify_team_work_snapshot_Ok_iff signed_by_trusted_key_def demo_work_snapshot_def
        demo_crypto_def demo_store_def trust_insert_def invalid_goals_def invalid_tasks_def
        blank_def trim_def trim_end_def ws_ascii_def)
  from team_work_snapshot_closed [OF this] show ?thesis by simp
qed

text \<open>A policy exception needs four eyes and is bounded in time: an accepted grant was requested
  and approved by different people, lives at most 30 days, is current, and is authentic.\<close>

theorem policy_exception_four_eyes:
  assumes "verify_policy_exception cr to_vec ts env org team installed now = Ok p"
  shows "p = spe_payload env \<and> cpe_requested_by p \<noteq> cpe_approved_by p \<and>
    cpe_expires_at p - cpe_issued_at p \<le> days 30 \<and>
    now - cpe_issued_at p < days 30 \<and> cpe_issued_at p \<le> now \<and> now < cpe_expires_at p \<and>
    cpe_organization_id p = org \<and> cpe_team_id p = team \<and>
    signed_by_trusted_key cr to_vec ts (spe_key_id env) (spe_signature env) p"
  using assms by (auto simp: verify_policy_exception_Ok_iff invalid_policy_exception_def)

definition demo_exception :: SignedPolicyExceptionGrant where
  "demo_exception = \<lparr>spe_key_id = ''k'',
     spe_payload = \<lparr>cpe_organization_id = ''o'', cpe_team_id = ''t'', cpe_exception_id = ''e'',
       cpe_sequence = 1, cpe_issued_at = 10, cpe_expires_at = 20, cpe_active = True,
       cpe_tool = ''git_push'', cpe_actor_id = None, cpe_workspace_uri = None, cpe_reason = ''r'',
       cpe_requested_by = ''a'', cpe_approved_by = ''b''\<rparr>,
     spe_signature = ''KP''\<rparr>"

theorem policy_exception_four_eyes_witness:
  "cpe_requested_by (spe_payload demo_exception) \<noteq> cpe_approved_by (spe_payload demo_exception)"
proof -
  have "verify_policy_exception demo_crypto (\<lambda>_. Some ''P'') demo_store demo_exception
      ''o'' ''t'' None 15 = Inr (spe_payload demo_exception)"
    by (simp add: verify_policy_exception_Ok_iff signed_by_trusted_key_def demo_exception_def
        demo_crypto_def demo_store_def trust_insert_def invalid_policy_exception_def days_def
        blank_def trim_def trim_end_def ws_ascii_def ws_two_def ws_three_def)
  from policy_exception_four_eyes [OF this] show ?thesis by simp
qed

text \<open>A security attestation is bound to one artifact: it is accepted for a manifest only when it
  names that manifest's organisation, team, extension and sequence, the same artifact size and the
  same digest up to letter case, is an approval without critical or high findings that is at most
  30 days old and current, and is authentic.\<close>

theorem attestation_accepted_iff:
  "verify_extension_security_attestation cr to_vec ts env m now = Ok p \<longleftrightarrow>
     p = ssa_payload env \<and>
     esa_organization_id p = cem_organization_id m \<and> esa_team_id p = cem_team_id m \<and>
     esa_extension_id p = cem_extension_id m \<and> esa_extension_sequence p = cem_sequence m \<and>
     to_ascii_lowercase (esa_artifact_digest_sha256 p) =
       to_ascii_lowercase (eem_digest_sha256 (cem_manifest m)) \<and>
     esa_artifact_size_bytes p = eem_artifact_size_bytes (cem_manifest m) \<and>
     esa_scanned_at p \<le> now \<and> now < esa_expires_at p \<and>
     esa_expires_at p - esa_scanned_at p \<le> days 30 \<and>
     \<not> blank (esa_scanner p) \<and> length (esa_scanner p) \<le> 256 \<and>
     \<not> blank (esa_scanner_policy_version p) \<and> length (esa_scanner_policy_version p) \<le> 128 \<and>
     valid_digest (esa_artifact_digest_sha256 p) \<and> valid_digest (esa_sbom_digest_sha256 p) \<and>
     esa_decision p = Scan_Approved \<and> esa_critical_findings p = 0 \<and> esa_high_findings p = 0 \<and>
     signed_by_trusted_key cr to_vec ts (ssa_key_id env) (ssa_signature env) p"
  unfolding verify_extension_security_attestation_def Let_def
  by (auto simp: check_signature_Ok_iff eq_ignore_ascii_case_def split: if_splits)

end
