(* ===== verification/Redaction.thy ===== *)
theory Redaction
  imports Json_Value
begin

text \<open>
  The redaction functions of \<open>crates/audit/src/lib.rs\<close>: credential-like keys, credential shapes in
  text, and the redaction of JSON values.  Texts are lists of UTF-8 bytes, so the byte ranges of the
  source are index ranges here.
\<close>

section \<open>Keys\<close>

definition EXACT_CREDENTIAL_KEYS :: "string list" where
  "EXACT_CREDENTIAL_KEYS =
     [''authorization'', ''bearertoken'', ''credential'', ''credentials'', ''csrftoken'', ''idtoken'',
      ''password'', ''passphrase'', ''privatekey'', ''proxyauthorization'', ''secret'', ''token'']"

definition CREDENTIAL_SUFFIXES :: "string list" where
  "CREDENTIAL_SUFFIXES =
     [''accesstoken'', ''apikey'', ''authtoken'', ''bearertoken'', ''clientsecret'', ''credential'',
      ''credentials'', ''csrftoken'', ''password'', ''passphrase'', ''privatekey'', ''refreshtoken'',
      ''secret'', ''signingkey'']"

definition sensitive_key :: "string \<Rightarrow> bool" where
  "sensitive_key key =
     (let normalized = map ascii_lower (filter is_ascii_alphanumeric key) in
      normalized \<in> set EXACT_CREDENTIAL_KEYS
      \<or> starts_with normalized ''authorization''
      \<or> list_ex (\<lambda>suffix. ends_with normalized suffix) CREDENTIAL_SUFFIXES)"

section \<open>Credential shapes in text\<close>

definition is_authorization_context :: "string \<Rightarrow> bool" where
  "is_authorization_context before =
     (let head = rev (dropWhile (\<lambda>b. b \<in> {CHR '' '', CHR 0x09, CHR '':'', CHR 0x22, CHR 0x27}) (rev before));
          name = ''authorization''
      in if length head < length name then False
         else
           let prefix = length head - length name in
           if drop prefix head \<noteq> name then False
           else prefix = 0 \<or> \<not> is_ascii_alphanumeric (head ! (prefix - 1)))"

definition is_token_byte :: "char \<Rightarrow> bool" where
  "is_token_byte b = (is_ascii_alphanumeric b \<or> b \<in> set ''_-./+='')"

definition secret_token_end :: "string \<Rightarrow> nat \<Rightarrow> nat" where
  "secret_token_end bytes index = index + length (takeWhile is_token_byte (drop index bytes))"

definition hex_digit :: "char \<Rightarrow> nat option" where
  "hex_digit c =
     (if is_ascii_digit c then Some (byte c - 48)
      else if 97 \<le> byte c \<and> byte c \<le> 102 then Some (byte c - 87)
      else if 65 \<le> byte c \<and> byte c \<le> 70 then Some (byte c - 55)
      else None)"

text \<open>The character that hexadecimal digits denote, when they denote one.\<close>

fun decode_digits :: "nat \<Rightarrow> string \<Rightarrow> nat option" where
  "decode_digits code [] = (if 0xD800 \<le> code \<and> code \<le> 0xDFFF then None else Some code)"
| "decode_digits code (d # ds) =
     (case hex_digit d of None \<Rightarrow> None | Some v \<Rightarrow> decode_digits (code * 16 + v) ds)"

definition separator_code :: "nat \<Rightarrow> bool" where
  "separator_code c = (\<not> (c < 128 \<and> is_ascii_alphanumeric (char_of c)))"

definition denotes_separator :: "string \<Rightarrow> bool" where
  "denotes_separator digits =
     (case decode_digits 0 digits of None \<Rightarrow> False | Some c \<Rightarrow> separator_code c)"

text \<open>The bytes are read backwards: the last byte is the head of the list.\<close>

fun percent_escaped :: "string \<Rightarrow> bool" where
  "percent_escaped [] = False"
| "percent_escaped (c # rest) =
     (if c = CHR 0x25 then True
      else (case rest of
              [] \<Rightarrow> False
            | d # before \<Rightarrow> if c = CHR ''5'' \<and> d = CHR ''2'' then percent_escaped before else False))"

definition ends_with_separator_escape :: "string \<Rightarrow> bool" where
  "ends_with_separator_escape bytes =
     (let r = rev bytes; backslash = CHR 0x5C in
      if length r \<ge> 2 \<and> r ! 1 = backslash \<and> r ! 0 \<in> set ''bfnrt'' then True
      else if length r \<ge> 4 \<and> r ! 3 = backslash \<and> r ! 2 = CHR ''x''
      then denotes_separator [r ! 1, r ! 0]
      else if length r \<ge> 6 \<and> r ! 5 = backslash \<and> r ! 4 = CHR ''u''
      then denotes_separator [r ! 3, r ! 2, r ! 1, r ! 0]
      else if length r \<ge> 2
      then (case decode_digits 0 [r ! 1, r ! 0] of
              None \<Rightarrow> False
            | Some c \<Rightarrow> percent_escaped (drop 2 r) \<and> separator_code c)
      else False)"

subsection \<open>Ranges\<close>

type_synonym range = "nat \<times> nat"

definition index_where :: "(char \<Rightarrow> bool) \<Rightarrow> string \<Rightarrow> nat option" where
  "index_where P s = position P s"

definition trim_line_end :: "string \<Rightarrow> string" where
  "trim_line_end line = rev (dropWhile (\<lambda>c. c = CHR 0x0D \<or> c = CHR 0x0A) (rev line))"

definition assignment_range :: "nat \<Rightarrow> string \<Rightarrow> range list" where
  "assignment_range line_start line =
     (let content = trim_line_end line;
          trimmed = trim_start content;
          prefix = length content - length trimmed;
          assignment = (case strip_prefix trimmed ''export '' of Some rest \<Rightarrow> rest | None \<Rightarrow> trimmed);
          export_offset = length trimmed - length assignment
      in case index_where (\<lambda>c. c = CHR ''='' \<or> c = CHR '':'') assignment of
           None \<Rightarrow> []
         | Some separator \<Rightarrow>
             let key = trim (take separator assignment) in
             if key \<noteq> [] \<and> length key \<le> 128
                \<and> list_all (\<lambda>b. is_ascii_alphanumeric b \<or> b = CHR ''_'' \<or> b = CHR ''-'') key
                \<and> sensitive_key key
             then
               let start = line_start + prefix + export_offset + separator + 1;
                   stop = line_start + length content
               in if start < stop then [(start, stop)] else []
             else [])"

fun assignment_ranges :: "nat \<Rightarrow> string list \<Rightarrow> range list" where
  "assignment_ranges line_start [] = []"
| "assignment_ranges line_start (line # rest) =
     assignment_range line_start line @ assignment_ranges (line_start + length line) rest"

lemma offset_advances:
  assumes "str_find (drop offset lower) marker = Some found" and "marker \<noteq> []"
  shows "length lower - max stop (offset + found + length marker) < length lower - offset"
proof -
  from assms(2) have "0 < length marker" by simp
  moreover from str_find_bound [OF assms(1)] have "found + length marker \<le> length lower - offset" by simp
  ultimately show ?thesis by (simp only: max_def split: if_split) linarith
qed

lemma offset_skips:
  assumes "str_find (drop offset lower) marker = Some found" and "marker \<noteq> []"
  shows "length lower - (offset + found + length marker) < length lower - offset"
  using offset_advances [OF assms, of 0] by simp

function bearer_ranges :: "string \<Rightarrow> string \<Rightarrow> string \<Rightarrow> nat \<Rightarrow> range list" where
  "bearer_ranges bytes lower marker offset =
     (if marker = [] then []
      else
        (case str_find (drop offset lower) marker of
           None \<Rightarrow> []
         | Some found \<Rightarrow>
             let start = offset + found + length marker;
                 stop = secret_token_end bytes start
             in (if stop > start \<and> is_authorization_context (take (offset + found) lower)
                 then [(start, stop)] else [])
                @ bearer_ranges bytes lower marker (max stop (offset + found + length marker))))"
  by pat_completeness auto
termination
  by (relation "measure (\<lambda>(bytes, lower, marker, offset). length lower - offset)")
    (auto intro: offset_advances simp del: length_drop)

function key_ranges :: "string \<Rightarrow> string \<Rightarrow> string \<Rightarrow> nat \<Rightarrow> range list" where
  "key_ranges bytes lower marker offset =
     (if marker = [] then []
      else
        (case str_find (drop offset lower) marker of
           None \<Rightarrow> []
         | Some found \<Rightarrow>
             let start = offset + found in
             if start > 0 \<and> is_ascii_alphanumeric (bytes ! (start - 1))
                \<and> \<not> ends_with_separator_escape (take start bytes)
             then key_ranges bytes lower marker (start + length marker)
             else
               let stop = secret_token_end bytes start
               in (if stop - start \<ge> 16 then [(start, stop)] else [])
                  @ key_ranges bytes lower marker (max stop (offset + found + length marker))))"
  by pat_completeness auto
termination
  by (relation "measure (\<lambda>(bytes, lower, marker, offset). length lower - offset)")
    (auto intro: offset_advances offset_skips)

declare bearer_ranges.simps [simp del] key_ranges.simps [simp del]

definition SECRET_MARKERS :: "string list" where
  "SECRET_MARKERS =
     [''sk-'', ''github_pat_'', ''ghp_'', ''gho_'', ''ghu_'', ''ghs_'', ''ghr_'', ''glpat-'', ''hf_'', ''xoxb-'',
      ''xoxp-'', ''xoxa-'', ''xoxr-'', ''akia'', ''aiza'']"

definition secret_ranges :: "string \<Rightarrow> range list" where
  "secret_ranges value =
     (let lower = to_ascii_lowercase value in
      assignment_ranges 0 (split_inclusive [] value)
      @ concat (map (\<lambda>marker. bearer_ranges value lower marker 0) [''bearer '', ''basic ''])
      @ concat (map (\<lambda>marker. key_ranges value lower marker 0) SECRET_MARKERS))"

definition range_le :: "range \<Rightarrow> range \<Rightarrow> bool" where
  "range_le a b = (fst a < fst b \<or> (fst a = fst b \<and> snd a \<le> snd b))"

text \<open>Merging of sorted ranges; the accumulator holds the merged ranges, last first.\<close>

fun merge_ranges :: "range list \<Rightarrow> range list \<Rightarrow> range list" where
  "merge_ranges acc [] = rev acc"
| "merge_ranges [] ((start, stop) # rs) = merge_ranges [(start, stop)] rs"
| "merge_ranges ((s, e) # acc) ((start, stop) # rs) =
     (if start \<le> e then merge_ranges ((s, max e stop) # acc) rs
      else merge_ranges ((start, stop) # (s, e) # acc) rs)"

text \<open>Cutting the ranges out of the text.\<close>

fun cut_ranges :: "string \<Rightarrow> nat \<Rightarrow> range list \<Rightarrow> string" where
  "cut_ranges value cursor [] = drop cursor value"
| "cut_ranges value cursor ((start, stop) # rs) =
     take (start - cursor) (drop cursor value) @ ''[REDACTED]'' @ cut_ranges value stop rs"

definition redact_text :: "string \<Rightarrow> string" where
  "redact_text value =
     (if str_contains value ''-----BEGIN'' \<and> str_contains value ''PRIVATE KEY-----''
      then ''[REDACTED PRIVATE KEY]''
      else
        let ranges = secret_ranges value in
        if ranges = [] then value
        else cut_ranges value 0 (merge_ranges [] (sort_by range_le ranges)))"

section \<open>JSON values\<close>

fun redact :: "json \<Rightarrow> json" where
  "redact (JObj m) =
     JObj (map (\<lambda>(key, item). (key, if sensitive_key key then JStr ''[REDACTED]'' else redact item)) m)"
| "redact (JArr items) = JArr (map redact items)"
| "redact (JStr text) = JStr (redact_text text)"
| "redact v = v"

text \<open>\<open>str::replace\<close>: the occurrences are found from left to right and do not overlap.\<close>

function str_replace :: "string \<Rightarrow> string \<Rightarrow> string \<Rightarrow> string" where
  "str_replace pat rep [] = []"
| "str_replace pat rep (c # s) =
     (if pat \<noteq> [] \<and> starts_with (c # s) pat then rep @ str_replace pat rep (drop (length pat) (c # s))
      else c # str_replace pat rep s)"
  by pat_completeness auto
termination
  by (relation "measure (\<lambda>(pat, rep, s). length s)") auto

fun exact_secrets :: "string list \<Rightarrow> json \<Rightarrow> json" where
  "exact_secrets secrets (JObj m) = JObj (map (\<lambda>(key, item). (key, exact_secrets secrets item)) m)"
| "exact_secrets secrets (JArr items) = JArr (map (exact_secrets secrets) items)"
| "exact_secrets secrets (JStr text) =
     JStr (foldl (\<lambda>t secret. str_replace secret ''[REDACTED]'' t) text secrets)"
| "exact_secrets secrets v = v"

definition redact_with_secrets :: "json \<Rightarrow> string list \<Rightarrow> json" where
  "redact_with_secrets value secrets =
     exact_secrets (filter (\<lambda>s. s \<noteq> []) secrets) (redact value)"

section \<open>Exactness of the text redaction\<close>

definition covered :: "range list \<Rightarrow> nat set" where
  "covered rs = (\<Union>(s, e) \<in> set rs. {s..<e})"

text \<open>The ranges can be cut out of a text of length \<open>n\<close> from left to right, starting at \<open>cursor\<close>.\<close>

fun well_cut :: "nat \<Rightarrow> nat \<Rightarrow> range list \<Rightarrow> bool" where
  "well_cut n cursor [] = (cursor \<le> n)"
| "well_cut n cursor ((s, e) # rs) = (cursor \<le> s \<and> s < e \<and> e \<le> n \<and> well_cut n e rs)"

definition proper :: "nat \<Rightarrow> range \<Rightarrow> bool" where
  "proper n r = (fst r < snd r \<and> snd r \<le> n)"

lemma covered_simps [simp]:
  "covered [] = {}" "covered ((s, e) # rs) = {s..<e} \<union> covered rs" "covered (xs @ ys) = covered xs \<union> covered ys"
  "covered (rev xs) = covered xs" "covered (sort_by le xs) = covered xs"
  by (auto simp: covered_def)

lemma merge_ranges_spec:
  assumes "sorted_wrt (\<lambda>a b. fst a \<le> fst b) rs" "list_all (proper n) rs" "list_all (proper n) acc"
    and "sorted_wrt (\<lambda>a b. snd b < fst a) acc" "acc \<noteq> [] \<Longrightarrow> list_all (\<lambda>r. fst (hd acc) \<le> fst r) rs"
  shows "covered (merge_ranges acc rs) = covered acc \<union> covered rs
    \<and> list_all (proper n) (merge_ranges acc rs)
    \<and> sorted_wrt (\<lambda>a b. snd a < fst b) (merge_ranges acc rs)"
  using assms
proof (induction acc rs rule: merge_ranges.induct)
  case (1 acc)
  then show ?case by (simp add: sorted_wrt_rev)
next
  case (2 start stop rs)
  then show ?case by (simp add: list_all_iff)
next
  case (3 s e acc start stop rs)
  then have bounds: "s < e" "e \<le> n" "start < stop" "stop \<le> n" "s \<le> start"
    and rest: "sorted_wrt (\<lambda>a b. fst a \<le> fst b) rs" "list_all (proper n) rs" "list_all (proper n) acc"
      "sorted_wrt (\<lambda>a b. snd b < fst a) acc" "list_all (\<lambda>r. snd r < s) acc"
      "list_all (\<lambda>r. s \<le> fst r) rs" "list_all (\<lambda>r. start \<le> fst r) rs"
    by (simp_all add: proper_def list_all_iff)
  show ?case
  proof (cases "start \<le> e")
    case True
    then have "covered (merge_ranges ((s, max e stop) # acc) rs) = covered ((s, max e stop) # acc) \<union> covered rs
      \<and> list_all (proper n) (merge_ranges ((s, max e stop) # acc) rs)
      \<and> sorted_wrt (\<lambda>a b. snd a < fst b) (merge_ranges ((s, max e stop) # acc) rs)"
      using bounds rest by (intro "3.IH"(1)) (simp_all add: proper_def list_all_iff)
    moreover from True bounds have "{s..<max e stop} = {s..<e} \<union> {start..<stop}" by auto
    ultimately show ?thesis using True by (simp add: Un_ac)
  next
    case False
    have "list_all (\<lambda>r. snd r < start) acc" using rest(5) bounds by (auto simp: list_all_iff)
    then have "covered (merge_ranges ((start, stop) # (s, e) # acc) rs) = covered ((start, stop) # (s, e) # acc) \<union> covered rs
      \<and> list_all (proper n) (merge_ranges ((start, stop) # (s, e) # acc) rs)
      \<and> sorted_wrt (\<lambda>a b. snd a < fst b) (merge_ranges ((start, stop) # (s, e) # acc) rs)"
      using False bounds rest by (intro "3.IH"(2)) (simp_all add: proper_def list_all_iff)
    with False show ?thesis by (simp add: Un_ac)
  qed
qed

lemma well_cutI:
  assumes "list_all (proper n) rs" "sorted_wrt (\<lambda>a b. snd a < fst b) rs" "cursor \<le> n"
    and "rs \<noteq> [] \<Longrightarrow> cursor \<le> fst (hd rs)"
  shows "well_cut n cursor rs"
  using assms
proof (induction n cursor rs rule: well_cut.induct)
  case (2 n cursor s e rs)
  then show ?case by (cases rs) (auto simp: proper_def less_imp_le)
qed simp

lemma range_order:
  "range_le a b \<or> range_le b a" "range_le a b \<Longrightarrow> range_le b c \<Longrightarrow> range_le a c" "range_le a b \<Longrightarrow> fst a \<le> fst b"
  by (auto simp: range_le_def)

lemma sorted_ranges: "sorted_wrt (\<lambda>a b. fst a \<le> fst b) (sort_by range_le rs)"
proof -
  have "sorted_wrt range_le (sort_by range_le rs)"
    by (rule sorted_sort_by) (auto simp: range_le_def)
  then show ?thesis by (rule sorted_wrt_mono_rel [rotated]) (rule range_order)
qed

subsection \<open>The ranges found lie in the text\<close>

lemma secret_token_end_bound: "index \<le> length bytes \<Longrightarrow> secret_token_end bytes index \<le> length bytes"
  using length_takeWhile_le [of is_token_byte "drop index bytes"] by (simp add: secret_token_end_def)

lemma length_lower [simp]: "length (to_ascii_lowercase s) = length s"
  by (simp add: to_ascii_lowercase_def)

lemma found_bound:
  assumes "str_find (drop offset lower) marker = Some found" "offset \<le> length lower"
  shows "offset + found + length marker \<le> length lower"
  using str_find_bound [OF assms(1)] assms(2) by simp

lemma str_find_drop_bound:
  assumes "str_find (drop offset lower) marker = Some found" "marker \<noteq> []"
  shows "offset \<le> length lower"
  using assms by (cases "offset \<le> length lower") auto

lemma token_range_proper:
  assumes "str_find (drop offset lower) marker = Some found" "marker \<noteq> []" "length lower = length bytes"
    and "start \<le> offset + found + length marker" "start < secret_token_end bytes start"
  shows "proper (length bytes) (start, secret_token_end bytes start)"
proof -
  from found_bound [OF assms(1) str_find_drop_bound [OF assms(1,2)]] assms(3,4)
  have "start \<le> length bytes" by simp
  with assms(5) show ?thesis by (simp add: proper_def secret_token_end_bound)
qed

lemma bearer_ranges_proper:
  "length lower = length bytes \<Longrightarrow> list_all (proper (length bytes)) (bearer_ranges bytes lower marker offset)"
proof (induction bytes lower marker offset rule: bearer_ranges.induct)
  case (1 bytes lower marker offset)
  show ?case
  proof (cases "marker = [] \<or> str_find (drop offset lower) marker = None")
    case False
    then obtain found where found: "marker \<noteq> []" "str_find (drop offset lower) marker = Some found" by auto
    from "1.IH" [OF found refl refl "1.prems"] token_range_proper [OF found(2,1) "1.prems"] show ?thesis
      by (subst bearer_ranges.simps) (simp add: found Let_def)
  qed (auto simp: bearer_ranges.simps)
qed

lemma key_ranges_proper:
  "length lower = length bytes \<Longrightarrow> list_all (proper (length bytes)) (key_ranges bytes lower marker offset)"
proof (induction bytes lower marker offset rule: key_ranges.induct)
  case (1 bytes lower marker offset)
  show ?case
  proof (cases "marker = [] \<or> str_find (drop offset lower) marker = None")
    case False
    then obtain found where found: "marker \<noteq> []" "str_find (drop offset lower) marker = Some found" by auto
    from "1.IH"(1) [OF found refl _ "1.prems"] "1.IH"(2) [OF found refl _ refl "1.prems"]
      token_range_proper [OF found(2,1) "1.prems", of "offset + found"] show ?thesis
      by (subst key_ranges.simps) (simp add: found Let_def)
  qed (auto simp: key_ranges.simps)
qed

lemma length_trim_line_end: "length (trim_line_end line) \<le> length line"
  by (simp add: trim_line_end_def length_dropWhile_le [of _ "rev line", simplified])

lemma assignment_range_proper: "list_all (proper (line_start + length line)) (assignment_range line_start line)"
  using length_trim_line_end [of line]
  by (auto simp: assignment_range_def Let_def proper_def split: option.splits)

lemma assignment_ranges_proper:
  "list_all (proper (line_start + length (concat lines))) (assignment_ranges line_start lines)"
proof (induction lines arbitrary: line_start)
  case (Cons line lines)
  have "list_all (proper (line_start + length (concat (line # lines)))) (assignment_range line_start line)"
    using assignment_range_proper [of line_start line] by (auto simp: list_all_iff proper_def)
  with Cons [of "line_start + length line"] show ?case by (simp add: add.assoc)
qed simp

lemma secret_ranges_proper: "list_all (proper (length v)) (secret_ranges v)"
proof -
  have "list_all (proper (length v)) (bearer_ranges v (to_ascii_lowercase v) marker 0)"
    "list_all (proper (length v)) (key_ranges v (to_ascii_lowercase v) marker 0)" for marker
    by (simp_all add: bearer_ranges_proper key_ranges_proper)
  with assignment_ranges_proper [of 0 "split_inclusive [] v"] show ?thesis
    by (auto simp: secret_ranges_def Let_def concat_split_inclusive list_all_iff)
qed

lemma merged_secret_ranges:
  defines "ms v \<equiv> merge_ranges [] (sort_by range_le (secret_ranges v))"
  shows "covered (ms v) = covered (secret_ranges v)" "well_cut (length v) 0 (ms v)"
proof -
  have "list_all (proper (length v)) (sort_by range_le (secret_ranges v))"
    using secret_ranges_proper [of v] by (simp add: list_all_iff)
  from merge_ranges_spec [OF sorted_ranges this, of "[]"]
  show "covered (ms v) = covered (secret_ranges v)" "well_cut (length v) 0 (ms v)"
    by (auto simp: ms_def intro!: well_cutI)
qed

text \<open>\<open>redact_text\<close> replaces exactly the credential shapes it finds.  A text with a private key
  block is replaced as a whole.  Otherwise the text is cut along ranges that are in order, disjoint and
  inside the text, so that no slice of the source is out of bounds, and the ranges cover exactly the
  bytes of the credential ranges found: no byte of a found credential stays, and no other byte is lost.\<close>

theorem redact_text_exact:
  "if str_contains v ''-----BEGIN'' \<and> str_contains v ''PRIVATE KEY-----''
   then redact_text v = ''[REDACTED PRIVATE KEY]''
   else (\<exists>ms. redact_text v = cut_ranges v 0 ms \<and> well_cut (length v) 0 ms
           \<and> covered ms = covered (secret_ranges v))"
proof (cases "str_contains v ''-----BEGIN'' \<and> str_contains v ''PRIVATE KEY-----''")
  case False
  define ms where "ms = (if secret_ranges v = [] then [] else merge_ranges [] (sort_by range_le (secret_ranges v)))"
  from False have "redact_text v = cut_ranges v 0 ms"
    by (simp only: redact_text_def Let_def if_False ms_def) simp
  moreover have "well_cut (length v) 0 ms \<and> covered ms = covered (secret_ranges v)"
    using merged_secret_ranges [of v] by (simp add: ms_def)
  ultimately have "\<exists>ms. redact_text v = cut_ranges v 0 ms \<and> well_cut (length v) 0 ms \<and> covered ms = covered (secret_ranges v)"
    by (intro exI [of _ ms]) (rule conjI)
  with False show ?thesis by (simp only: if_False)
qed (simp add: redact_text_def)

section \<open>What the JSON redaction hides\<close>

fun credentials_hidden :: "json \<Rightarrow> bool" where
  "credentials_hidden (JObj m) =
     list_all (\<lambda>(key, item). if sensitive_key key then item = JStr ''[REDACTED]'' else credentials_hidden item) m"
| "credentials_hidden (JArr items) = list_all credentials_hidden items"
| "credentials_hidden v = True"

text \<open>The second value is the first one with the credential fields and the texts redacted.\<close>

fun redaction_of :: "json \<Rightarrow> json \<Rightarrow> bool" where
  "redaction_of (JObj m) w =
     (\<exists>n. w = JObj n \<and>
        list_all2 (\<lambda>(k, v) (k', w). k' = k \<and> (if sensitive_key k then w = JStr ''[REDACTED]'' else redaction_of v w)) m n)"
| "redaction_of (JArr xs) w = (\<exists>ys. w = JArr ys \<and> list_all2 redaction_of xs ys)"
| "redaction_of (JStr s) w = (w = JStr (redact_text s))"
| "redaction_of v w = (w = v)"

lemma redact_credentials_hidden: "credentials_hidden (redact v)"
  by (induction v rule: redact.induct) (auto simp: list_all_iff split: prod.splits)


end
