(* ===== verification/Audit_Chain.thy ===== *)
theory Audit_Chain
  imports Protocol_Types Redaction Sequenced_Log
begin

text \<open>
  The audit component of \<open>crates/audit/src/lib.rs\<close>: the hash chain over the local events, the
  metadata-only central records and batches, their optional encrypted content, the receipts of the
  central service, and the signatures on batches.  Byte strings are char lists.  SHA-256, base64,
  Ed25519, AES-GCM and the serialisers are the fields of the parameter \<open>AuditLibrary\<close>.
\<close>

section \<open>Parameters and errors\<close>

datatype AuditError =
    AE_Bail string
  | AE_Base64
  | AE_Json
  | AE_Parse
  | AE_Signature
  | AE_Panic

record CentralAuditRecord =
  car_source_id :: Id
  car_source_sequence :: u64
  car_local_sequence :: u64
  car_occurred_at :: Timestamp
  car_scope :: Scope
  car_session_id :: "Id option"
  car_turn_id :: "Id option"
  car_kind :: string
  car_payload_sha256 :: string
  car_source_chain_hash :: string

record CentralAuditWrappedDataKey =
  wdk_key_id :: string
  wdk_algorithm :: string
  wdk_nonce :: string
  wdk_ciphertext :: string

record CentralAuditEncryptedRecord =
  cer_source_sequence :: u64
  cer_local_sequence :: u64
  cer_nonce :: string
  cer_ciphertext :: string

record CentralAuditEncryptedContent =
  cec_schema_version :: u32
  cec_wrapped_data_key :: CentralAuditWrappedDataKey
  cec_records :: "CentralAuditEncryptedRecord list"

record CentralAuditBatchPayload =
  cab_schema_version :: u32
  cab_batch_id :: Id
  cab_source_id :: Id
  cab_organization_id :: Id
  cab_team_id :: Id
  cab_previous_sequence :: u64
  cab_previous_chain_hash :: string
  cab_generated_at :: Timestamp
  cab_records :: "CentralAuditRecord list"
  cab_encrypted_content :: "CentralAuditEncryptedContent option"

type_synonym content_aad = "string \<times> Id \<times> Id \<times> Id \<times> Id \<times> u64 \<times> u64 \<times> string \<times> string"

text \<open>The serialisers return \<open>None\<close> where \<open>serde_json\<close> returns an error.  AES takes the key, the
  nonce, the additional data and the message.\<close>

record AuditLibrary =
  b64_encode :: "string \<Rightarrow> string"
  b64_decode :: "string \<Rightarrow> string option"
  sha256 :: "string \<Rightarrow> string"
  event_to_vec :: "Event \<Rightarrow> string option"
  value_to_vec :: "json \<Rightarrow> string option"
  value_from_slice :: "string \<Rightarrow> json option"
  batch_to_vec :: "CentralAuditBatchPayload \<Rightarrow> string option"
  aad_to_vec :: "content_aad \<Rightarrow> string option"
  verifying_key :: "string \<Rightarrow> string"
  key_sign :: "string \<Rightarrow> string \<Rightarrow> string"
  verifying_key_from_bytes :: "string \<Rightarrow> string option"
  signature_from_slice :: "string \<Rightarrow> string option"
  key_verify :: "string \<Rightarrow> string \<Rightarrow> string \<Rightarrow> bool"
  aes_encrypt :: "string \<Rightarrow> string \<Rightarrow> string \<Rightarrow> string \<Rightarrow> string option"
  aes_decrypt :: "string \<Rightarrow> string \<Rightarrow> string \<Rightarrow> string \<Rightarrow> string option"

definition CENTRAL_AUDIT_SCHEMA_VERSION :: u32 where
  "CENTRAL_AUDIT_SCHEMA_VERSION = 1"

definition MAX_CENTRAL_AUDIT_RECORDS :: nat where
  "MAX_CENTRAL_AUDIT_RECORDS = 1000"

definition MAX_CENTRAL_AUDIT_CONTENT_RECORD_BYTES :: nat where
  "MAX_CENTRAL_AUDIT_CONTENT_RECORD_BYTES = 1024 * 1024"

definition MAX_CENTRAL_AUDIT_CONTENT_BATCH_BYTES :: nat where
  "MAX_CENTRAL_AUDIT_CONTENT_BATCH_BYTES = 8 * 1024 * 1024"

definition CENTRAL_AUDIT_CONTENT_SCHEMA_VERSION :: u32 where
  "CENTRAL_AUDIT_CONTENT_SCHEMA_VERSION = 1"

definition AES_256_GCM :: string where
  "AES_256_GCM = ''AES-256-GCM''"

section \<open>Hexadecimal digests\<close>

definition valid_hash :: "string \<Rightarrow> bool" where
  "valid_hash v = (length v = 64 \<and> list_all is_ascii_hexdigit v)"

section \<open>The hash chain\<close>

record HashChain =
  hc_previous :: string

definition HashChain_default :: HashChain where
  "HashChain_default = \<lparr>hc_previous = replicate 32 (CHR 0x00)\<rparr>"

text \<open>\<open>u8::from_str_radix(_, 16)\<close> on two bytes: a leading plus sign is accepted.\<close>

definition u8_from_hex :: "char \<Rightarrow> char \<Rightarrow> nat option" where
  "u8_from_hex a b =
     (if a = CHR ''+'' then hex_digit b
      else (case (hex_digit a, hex_digit b) of
              (Some x, Some y) \<Rightarrow> Some (16 * x + y)
            | _ \<Rightarrow> None))"

text \<open>The loop over the 32 bytes: slicing inside a character panics.\<close>

fun head_bytes :: "string \<Rightarrow> AuditError + string" where
  "head_bytes (a # b # rest) =
     (if is_cont_byte a \<or> (rest \<noteq> [] \<and> is_cont_byte (hd rest)) then Err AE_Panic
      else and_then (ok_or (u8_from_hex a b) AE_Parse) (\<lambda>x.
           and_then (head_bytes rest) (\<lambda>bytes. Ok (char_of x # bytes))))"
| "head_bytes _ = Ok []"

definition from_head :: "string \<Rightarrow> AuditError + HashChain" where
  "from_head head =
     (if length head \<noteq> 64 then Err (AE_Bail ''audit chain head must be 32-byte hex'')
      else and_then (head_bytes head) (\<lambda>previous. Ok \<lparr>hc_previous = previous\<rparr>))"

definition chain_append :: "AuditLibrary \<Rightarrow> HashChain \<Rightarrow> Event \<Rightarrow> AuditError + (HashChain \<times> string)" where
  "chain_append L chain event =
     and_then (ok_or (event_to_vec L event) AE_Json) (\<lambda>bytes.
       let previous = sha256 L (hc_previous chain @ bytes) in
       Ok (\<lparr>hc_previous = previous\<rparr>, hex previous))"

definition chain_head_hash :: "HashChain \<Rightarrow> string" where
  "chain_head_hash chain = hex (hc_previous chain)"

text \<open>One round of the loop of \<open>HashChain::verify\<close>, on the chain and the expected sequence.\<close>

definition verify_round ::
  "AuditLibrary \<Rightarrow> HashChain \<times> u64 \<Rightarrow> Event \<times> string \<Rightarrow> AuditError + (HashChain \<times> u64)" where
  "verify_round L s entry =
     (case s of (chain, expected_sequence) \<Rightarrow>
      case entry of (event, stored_hash) \<Rightarrow>
        if ev_sequence event \<noteq> expected_sequence
        then Err (AE_Bail (''audit sequence gap at '' @ decimal (unat (ev_sequence event))))
        else
          and_then (chain_append L chain event) (\<lambda>(chain', computed).
            if computed \<noteq> stored_hash
            then Err (AE_Bail (''audit chain mismatch at sequence '' @ decimal (unat (ev_sequence event))))
            else Ok (chain', expected_sequence + 1)))"

definition HashChain_verify :: "AuditLibrary \<Rightarrow> (Event \<times> string) list \<Rightarrow> AuditError + HashChain" where
  "HashChain_verify L entries =
     and_then (try_fold (verify_round L) (HashChain_default, 1) entries) (\<lambda>(chain, _). Ok chain)"

section \<open>Central records and batches\<close>

definition metadata_only :: "AuditLibrary \<Rightarrow> Event \<Rightarrow> Id \<Rightarrow> u64 \<Rightarrow> string \<Rightarrow> AuditError + CentralAuditRecord" where
  "metadata_only L event source_id source_sequence source_chain_hash =
     and_then (ok_or (value_to_vec L (ev_payload event)) AE_Json) (\<lambda>payload.
       Ok \<lparr>car_source_id = source_id, car_source_sequence = source_sequence,
           car_local_sequence = ev_sequence event, car_occurred_at = ev_timestamp event,
           car_scope = ev_scope event, car_session_id = ev_session_id event,
           car_turn_id = ev_turn_id event, car_kind = ev_kind event,
           car_payload_sha256 = hex (sha256 L payload), car_source_chain_hash = source_chain_hash\<rparr>)"

definition invalid_record :: "CentralAuditRecord \<Rightarrow> Id \<Rightarrow> Id \<Rightarrow> Id \<Rightarrow> bool" where
  "invalid_record r source_id organization_id team_id =
     (car_source_sequence r = 0 \<or> car_local_sequence r = 0 \<or> car_source_id r \<noteq> source_id
      \<or> sc_organization_id (car_scope r) \<noteq> organization_id \<or> sc_team_id (car_scope r) \<noteq> team_id
      \<or> car_kind r = [] \<or> length (car_kind r) > 128
      \<or> \<not> valid_hash (car_payload_sha256 r) \<or> \<not> valid_hash (car_source_chain_hash r))"

definition record_validate :: "CentralAuditRecord \<Rightarrow> Id \<Rightarrow> Id \<Rightarrow> Id \<Rightarrow> AuditError + unit" where
  "record_validate r source_id organization_id team_id =
     (if invalid_record r source_id organization_id team_id
      then Err (AE_Bail ''central audit record is invalid or outside its registered scope'')
      else Ok ())"

definition wrapped_key_validate :: "AuditLibrary \<Rightarrow> CentralAuditWrappedDataKey \<Rightarrow> AuditError + unit" where
  "wrapped_key_validate L k =
     and_then (ok_or (b64_decode L (wdk_nonce k)) AE_Base64) (\<lambda>nonce.
     and_then (ok_or (b64_decode L (wdk_ciphertext k)) AE_Base64) (\<lambda>ciphertext.
       if wdk_key_id k = [] \<or> length (wdk_key_id k) > 256 \<or> wdk_algorithm k \<noteq> AES_256_GCM
          \<or> length nonce \<noteq> 12 \<or> length ciphertext < 16 \<or> length ciphertext > 4096
       then Err (AE_Bail ''central audit wrapped data key is invalid'')
       else Ok ()))"

text \<open>One round of the loop over the encrypted records; \<open>usize\<close> has 64 bits.\<close>

definition encrypted_round ::
  "AuditLibrary \<Rightarrow> nat \<Rightarrow> CentralAuditEncryptedRecord \<times> CentralAuditRecord \<Rightarrow> AuditError + nat" where
  "encrypted_round L bytes em =
     (case em of (encrypted, metadata) \<Rightarrow>
       and_then (ok_or (b64_decode L (cer_nonce encrypted)) AE_Base64) (\<lambda>nonce.
       and_then (ok_or (b64_decode L (cer_ciphertext encrypted)) AE_Base64) (\<lambda>ciphertext.
         let bytes' = bytes + length ciphertext in
         if bytes' \<ge> 2 ^ 64 then Err (AE_Bail ''central audit encrypted content size overflow'')
         else if cer_source_sequence encrypted \<noteq> car_source_sequence metadata
              \<or> cer_local_sequence encrypted \<noteq> car_local_sequence metadata
              \<or> length nonce \<noteq> 12 \<or> length ciphertext < 16
              \<or> length ciphertext > MAX_CENTRAL_AUDIT_CONTENT_RECORD_BYTES
              \<or> bytes' > MAX_CENTRAL_AUDIT_CONTENT_BATCH_BYTES
         then Err (AE_Bail ''central audit encrypted record is invalid or misbound'')
         else Ok bytes')))"

definition content_validate ::
  "AuditLibrary \<Rightarrow> CentralAuditEncryptedContent \<Rightarrow> CentralAuditBatchPayload \<Rightarrow> AuditError + unit" where
  "content_validate L c batch =
     (if cec_schema_version c \<noteq> CENTRAL_AUDIT_CONTENT_SCHEMA_VERSION
         \<or> length (cec_records c) \<noteq> length (cab_records batch)
      then Err (AE_Bail ''central audit encrypted content does not cover the exact batch'')
      else
        and_then (wrapped_key_validate L (cec_wrapped_data_key c)) (\<lambda>_.
        and_then (try_fold (encrypted_round L) 0 (zip (cec_records c) (cab_records batch))) (\<lambda>_. Ok ())))"

definition invalid_batch_shape :: "CentralAuditBatchPayload \<Rightarrow> bool" where
  "invalid_batch_shape p =
     (cab_schema_version p \<noteq> CENTRAL_AUDIT_SCHEMA_VERSION
      \<or> cab_batch_id p = [] \<or> length (cab_batch_id p) > 128
      \<or> cab_source_id p = [] \<or> length (cab_source_id p) > 128
      \<or> cab_records p = [] \<or> length (cab_records p) > MAX_CENTRAL_AUDIT_RECORDS
      \<or> \<not> valid_hash (cab_previous_chain_hash p)
      \<or> (cab_previous_sequence p = 0 \<and> cab_previous_chain_hash p \<noteq> replicate 64 (CHR ''0'')))"

text \<open>One round of the loop over the records, on the expected sequence and the last local one.\<close>

definition record_round ::
  "CentralAuditBatchPayload \<Rightarrow> u64 \<times> u64 \<Rightarrow> CentralAuditRecord \<Rightarrow> AuditError + (u64 \<times> u64)" where
  "record_round p s r =
     (case s of (expected, previous_local_sequence) \<Rightarrow>
       and_then (record_validate r (cab_source_id p) (cab_organization_id p) (cab_team_id p)) (\<lambda>_.
         if car_source_sequence r \<noteq> expected \<or> car_local_sequence r \<le> previous_local_sequence
         then Err (AE_Bail ''central audit batch sequence is not contiguous'')
         else
           and_then (ok_or (checked_add expected 1) (AE_Bail ''central audit sequence overflow''))
             (\<lambda>expected'. Ok (expected', car_local_sequence r))))"

definition batch_validate :: "AuditLibrary \<Rightarrow> CentralAuditBatchPayload \<Rightarrow> AuditError + unit" where
  "batch_validate L p =
     (if invalid_batch_shape p then Err (AE_Bail ''central audit batch shape is invalid'')
      else
        and_then (ok_or (checked_add (cab_previous_sequence p) 1) (AE_Bail ''central audit sequence overflow''))
          (\<lambda>expected.
        and_then (try_fold (record_round p) (expected, 0) (cab_records p)) (\<lambda>_.
          case cab_encrypted_content p of
            None \<Rightarrow> Ok ()
          | Some content \<Rightarrow> content_validate L content p)))"

definition last_sequence :: "CentralAuditBatchPayload \<Rightarrow> u64" where
  "last_sequence p =
     (if cab_records p = [] then cab_previous_sequence p else car_source_sequence (last (cab_records p)))"

definition chain_head :: "CentralAuditBatchPayload \<Rightarrow> string" where
  "chain_head p =
     (if cab_records p = [] then cab_previous_chain_hash p else car_source_chain_hash (last (cab_records p)))"

definition last_local_sequence :: "CentralAuditBatchPayload \<Rightarrow> u64" where
  "last_local_sequence p =
     (if cab_records p = [] then 0 else car_local_sequence (last (cab_records p)))"

definition batch_sha256 :: "AuditLibrary \<Rightarrow> CentralAuditBatchPayload \<Rightarrow> AuditError + string" where
  "batch_sha256 L p =
     and_then (ok_or (batch_to_vec L p) AE_Json) (\<lambda>bytes. Ok (hex (sha256 L bytes)))"

section \<open>Encrypted content\<close>

record CentralAuditDataKeyMaterial =
  dkm_plaintext :: string
  dkm_wrapped :: CentralAuditWrappedDataKey

definition data_key_new ::
  "AuditLibrary \<Rightarrow> string \<Rightarrow> CentralAuditWrappedDataKey \<Rightarrow> AuditError + CentralAuditDataKeyMaterial" where
  "data_key_new L plaintext wrapped =
     and_then (wrapped_key_validate L wrapped) (\<lambda>_.
       if length plaintext \<noteq> 32 then Err (AE_Bail ''central audit data key must be exactly 32 bytes'')
       else Ok \<lparr>dkm_plaintext = plaintext, dkm_wrapped = wrapped\<rparr>)"

definition central_audit_content_aad :: "AuditLibrary \<Rightarrow> CentralAuditBatchPayload \<Rightarrow> CentralAuditRecord \<Rightarrow> AuditError + string" where
  "central_audit_content_aad L batch metadata =
     ok_or (aad_to_vec L
       (''s-code.central-audit.content.v1'', cab_batch_id batch, cab_source_id batch,
        cab_organization_id batch, cab_team_id batch, car_source_sequence metadata,
        car_local_sequence metadata, car_payload_sha256 metadata, car_source_chain_hash metadata)) AE_Json"

text \<open>One record of the encryption; the nonce is what the system's generator returned.\<close>

definition encrypt_record ::
  "AuditLibrary \<Rightarrow> CentralAuditBatchPayload \<Rightarrow> string \<Rightarrow> string option \<times> Event \<times> CentralAuditRecord
     \<Rightarrow> AuditError + CentralAuditEncryptedRecord" where
  "encrypt_record L batch key nem =
     (case nem of (random, event, metadata) \<Rightarrow>
       if ev_sequence event \<noteq> car_local_sequence metadata \<or> ev_scope event \<noteq> car_scope metadata
       then Err (AE_Bail ''central audit plaintext event does not match its metadata projection'')
       else
         and_then (ok_or (value_to_vec L (ev_payload event)) AE_Json) (\<lambda>plaintext.
         if hex (sha256 L plaintext) \<noteq> car_payload_sha256 metadata
         then Err (AE_Bail ''central audit plaintext event does not match its metadata projection'')
         else if redact (ev_payload event) \<noteq> ev_payload event
         then Err (AE_Bail ''central audit content contains a field that must be redacted locally'')
         else if length plaintext + 16 > MAX_CENTRAL_AUDIT_CONTENT_RECORD_BYTES
         then Err (AE_Bail ''central audit content record exceeds the encrypted size limit'')
         else
           and_then (ok_or random (AE_Bail ''central audit content nonce generation failed'')) (\<lambda>nonce.
           and_then (central_audit_content_aad L batch metadata) (\<lambda>aad.
           and_then (ok_or (aes_encrypt L key nonce aad plaintext) (AE_Bail ''central audit content encryption failed''))
             (\<lambda>ciphertext.
             Ok \<lparr>cer_source_sequence = car_source_sequence metadata,
                 cer_local_sequence = car_local_sequence metadata,
                 cer_nonce = b64_encode L nonce, cer_ciphertext = b64_encode L ciphertext\<rparr>)))))"

definition encrypt_central_audit_content ::
  "AuditLibrary \<Rightarrow> (nat \<Rightarrow> string option) \<Rightarrow> CentralAuditBatchPayload \<Rightarrow> Event list \<Rightarrow> CentralAuditDataKeyMaterial
     \<Rightarrow> AuditError + CentralAuditEncryptedContent" where
  "encrypt_central_audit_content L random batch events key =
     (if cab_encrypted_content batch \<noteq> None \<or> length events \<noteq> length (cab_records batch)
      then Err (AE_Bail ''central audit content must cover an unencrypted exact batch'')
      else if length (dkm_plaintext key) \<noteq> 32 then Err (AE_Bail ''central audit data key is invalid'')
      else
        and_then (try_map (encrypt_record L batch (dkm_plaintext key))
            (zip (map random [0..<length events]) (zip events (cab_records batch)))) (\<lambda>encrypted.
          let content = \<lparr>cec_schema_version = CENTRAL_AUDIT_CONTENT_SCHEMA_VERSION,
                         cec_wrapped_data_key = dkm_wrapped key, cec_records = encrypted\<rparr>
          in and_then (content_validate L content batch) (\<lambda>_. Ok content)))"

definition decrypt_record ::
  "AuditLibrary \<Rightarrow> CentralAuditBatchPayload \<Rightarrow> string \<Rightarrow> CentralAuditEncryptedRecord \<times> CentralAuditRecord
     \<Rightarrow> AuditError + json" where
  "decrypt_record L batch key em =
     (case em of (encrypted, metadata) \<Rightarrow>
       and_then (ok_or (b64_decode L (cer_nonce encrypted)) AE_Base64) (\<lambda>nonce.
       and_then (ok_or (b64_decode L (cer_ciphertext encrypted)) AE_Base64) (\<lambda>ciphertext.
       and_then (central_audit_content_aad L batch metadata) (\<lambda>aad.
       and_then (ok_or (aes_decrypt L key nonce aad ciphertext)
                   (AE_Bail ''central audit content authentication failed'')) (\<lambda>plaintext.
       and_then (ok_or (value_from_slice L plaintext) AE_Json) (\<lambda>v.
       and_then (ok_or (value_to_vec L v) AE_Json) (\<lambda>bytes.
         if hex (sha256 L bytes) \<noteq> car_payload_sha256 metadata
         then Err (AE_Bail ''central audit decrypted content digest does not match metadata'')
         else Ok v)))))))"

definition decrypt_central_audit_content ::
  "AuditLibrary \<Rightarrow> CentralAuditBatchPayload \<Rightarrow> string \<Rightarrow> AuditError + json list" where
  "decrypt_central_audit_content L batch plaintext_data_key =
     and_then (batch_validate L batch) (\<lambda>_.
     and_then (ok_or (cab_encrypted_content batch) (AE_Bail ''central audit batch is metadata-only'')) (\<lambda>content.
       if length plaintext_data_key \<noteq> 32
       then Err (AE_Bail ''central audit data key must be exactly 32 bytes'')
       else try_map (decrypt_record L batch plaintext_data_key) (zip (cec_records content) (cab_records batch))))"

section \<open>Signed batches and receipts\<close>

record SignedCentralAuditBatch =
  scb_key_id :: string
  scb_payload :: CentralAuditBatchPayload
  scb_signature :: string

record CentralAuditIngestReceipt =
  cir_batch_id :: Id
  cir_source_id :: Id
  cir_accepted :: bool
  cir_record_count :: nat
  cir_last_sequence :: u64
  cir_last_local_sequence :: u64
  cir_chain_head :: string
  cir_payload_sha256 :: string

definition receipt_validate_for ::
  "AuditLibrary \<Rightarrow> CentralAuditIngestReceipt \<Rightarrow> SignedCentralAuditBatch \<Rightarrow> AuditError + unit" where
  "receipt_validate_for L r envelope =
     (let payload = scb_payload envelope;
          bail = Err (AE_Bail ''central audit ingestion receipt does not match the signed batch'')
      in if cir_batch_id r \<noteq> cab_batch_id payload \<or> cir_source_id r \<noteq> cab_source_id payload
            \<or> cir_record_count r \<noteq> length (cab_records payload)
            \<or> cir_last_sequence r \<noteq> last_sequence payload
            \<or> cir_last_local_sequence r \<noteq> last_local_sequence payload
            \<or> cir_chain_head r \<noteq> chain_head payload
         then bail
         else and_then (batch_sha256 L payload) (\<lambda>digest.
                if cir_payload_sha256 r \<noteq> digest then bail else Ok ()))"

record CentralAuditSigner =
  cas_key_id :: string
  cas_key :: string

definition signer_from_base64 :: "AuditLibrary \<Rightarrow> string \<Rightarrow> string \<Rightarrow> AuditError + CentralAuditSigner" where
  "signer_from_base64 L key_id private_key_base64 =
     and_then (ok_or (b64_decode L private_key_base64) AE_Base64) (\<lambda>bytes.
       if length bytes \<noteq> 32 then Err (AE_Bail ''central audit signing key must be 32 bytes'')
       else if key_id = [] \<or> length key_id > 128
       then Err (AE_Bail ''central audit key id must be 1..128 characters'')
       else Ok \<lparr>cas_key_id = key_id, cas_key = bytes\<rparr>)"

definition public_key_base64 :: "AuditLibrary \<Rightarrow> CentralAuditSigner \<Rightarrow> string" where
  "public_key_base64 L signer = b64_encode L (verifying_key L (cas_key signer))"

definition sign_batch ::
  "AuditLibrary \<Rightarrow> CentralAuditSigner \<Rightarrow> CentralAuditBatchPayload \<Rightarrow> AuditError + SignedCentralAuditBatch" where
  "sign_batch L signer payload =
     and_then (batch_validate L payload) (\<lambda>_.
     and_then (ok_or (batch_to_vec L payload) AE_Json) (\<lambda>bytes.
       Ok \<lparr>scb_key_id = cas_key_id signer, scb_payload = payload,
           scb_signature = b64_encode L (key_sign L (cas_key signer) bytes)\<rparr>))"

definition public_key_from_base64 :: "AuditLibrary \<Rightarrow> string \<Rightarrow> AuditError + string" where
  "public_key_from_base64 L encoded =
     and_then (ok_or (b64_decode L encoded) AE_Base64) (\<lambda>key_bytes.
       if length key_bytes \<noteq> 32 then Err (AE_Bail ''central audit public key must be 32 bytes'')
       else ok_or (verifying_key_from_bytes L key_bytes) AE_Signature)"

definition verify_central_audit_batch ::
  "AuditLibrary \<Rightarrow> SignedCentralAuditBatch \<Rightarrow> string \<Rightarrow> string \<Rightarrow> AuditError + unit" where
  "verify_central_audit_batch L envelope expected_key_id public_key =
     (if scb_key_id envelope \<noteq> expected_key_id
      then Err (AE_Bail ''central audit signing key id is not trusted'')
      else
        and_then (batch_validate L (scb_payload envelope)) (\<lambda>_.
        and_then (public_key_from_base64 L public_key) (\<lambda>key.
        and_then (ok_or (b64_decode L (scb_signature envelope)) AE_Base64) (\<lambda>signature_bytes.
        and_then (ok_or (signature_from_slice L signature_bytes) AE_Signature) (\<lambda>signature.
        and_then (ok_or (batch_to_vec L (scb_payload envelope)) AE_Json) (\<lambda>bytes.
          if key_verify L key bytes signature then Ok () else Err AE_Signature))))))"

definition validate_central_audit_public_key :: "AuditLibrary \<Rightarrow> string \<Rightarrow> AuditError + unit" where
  "validate_central_audit_public_key L encoded = and_then (public_key_from_base64 L encoded) (\<lambda>_. Ok ())"

section \<open>Facts about digests and chains\<close>

lemma byte_nibbles: "byte c div 16 < 16" "byte c mod 16 < 16"
  using nat_of_char_less_256 [of c] by (simp_all add: less_mult_imp_div_less del: nat_of_char_less_256)

lemma byte_hex_char: "k < 16 \<Longrightarrow> byte (hex_char k) = (if k < 10 then 48 + k else 87 + k)"
  by (simp add: hex_char_def)

lemma hex_char_inj:
  assumes "hex_char n = hex_char m" "n < 16" "m < 16"
  shows "n = m"
  using arg_cong [OF assms(1), of byte] byte_hex_char [OF assms(2)] byte_hex_char [OF assms(3)]
  by (simp split: if_splits)

lemma hex_pair_inj:
  assumes "hex_char (byte a div 16) = hex_char (byte b div 16)" "hex_char (byte a mod 16) = hex_char (byte b mod 16)"
  shows "a = b"
proof -
  from hex_char_inj [OF assms(1) byte_nibbles(1) byte_nibbles(1)] hex_char_inj [OF assms(2) byte_nibbles(2) byte_nibbles(2)]
  have "byte a = byte b" by (metis div_mult_mod_eq)
  then show ?thesis by simp
qed

lemma hex_inj: "hex xs = hex ys \<Longrightarrow> xs = ys"
proof (induction xs arbitrary: ys)
  case Nil
  then show ?case by (cases ys) (auto simp: hex_def)
next
  case (Cons x xs)
  then show ?case by (cases ys) (auto simp: hex_def intro: hex_pair_inj)
qed

lemma hex_digit_hex_char: "n < 16 \<Longrightarrow> hex_digit (hex_char n) = Some n"
  using byte_hex_char [of n] by (simp add: hex_digit_def is_ascii_digit_def)

lemma hex_char_ascii:
  assumes "n < 16"
  shows "\<not> is_cont_byte (hex_char n)" "hex_char n \<noteq> CHR ''+''" "is_ascii_hexdigit (hex_char n)"
  using byte_hex_char [OF assms] assms
  by (auto simp: is_cont_byte_def is_ascii_hexdigit_def is_ascii_digit_def dest!: arg_cong [of _ _ byte] split: if_splits)

lemma u8_from_hex_pair: "u8_from_hex (hex_char (byte b div 16)) (hex_char (byte b mod 16)) = Some (byte b)"
  by (simp add: u8_from_hex_def hex_digit_hex_char hex_char_ascii byte_nibbles)

lemma head_bytes_hex: "head_bytes (hex xs) = Inr xs"
proof (induction xs)
  case Nil
  then show ?case by (simp add: hex_def)
next
  case (Cons b xs)
  have c: "\<not> is_cont_byte (hex_char (byte d div 16))" for d
    by (rule hex_char_ascii) (rule byte_nibbles)
  have "hex xs \<noteq> [] \<Longrightarrow> \<not> is_cont_byte (hd (hex xs))"
    by (cases xs) (auto simp: hex_def c)
  with Cons c show ?case by (auto simp: hex_def u8_from_hex_pair)
qed

lemma valid_hash_hex: "length xs = 32 \<Longrightarrow> valid_hash (hex xs)"
proof -
  have "list_all is_ascii_hexdigit (hex xs)"
    by (induction xs) (auto simp: hex_def hex_char_ascii byte_nibbles)
  then show "length xs = 32 \<Longrightarrow> valid_hash (hex xs)" by (simp add: valid_hash_def)
qed

subsection \<open>The inputs and the digests of a chain\<close>

fun chain_inputs :: "(string \<Rightarrow> string) \<Rightarrow> string \<Rightarrow> string list \<Rightarrow> string list" where
  "chain_inputs H p [] = []"
| "chain_inputs H p (b # bs) = (p @ b) # chain_inputs H (H (p @ b)) bs"

lemma last_digest_inj:
  assumes "length bs = length bs'" "length p = length p'" "\<And>x y. length (H x) = length (H y)"
    and "foldl (\<lambda>p b. H (p @ b)) p bs = foldl (\<lambda>p b. H (p @ b)) p' bs'"
  shows "(p = p' \<and> bs = bs') \<or> (\<exists>(x, y) \<in> set (zip (chain_inputs H p bs) (chain_inputs H p' bs')). x \<noteq> y \<and> H x = H y)"
  using assms(1,2,4)
proof (induction bs bs' arbitrary: p p' rule: list_induct2)
  case (Cons b bs b' bs')
  from Cons.IH [of "H (p @ b)" "H (p' @ b')"] Cons.prems assms(3)
  show ?case using Cons.prems(1) by (cases "p @ b = p' @ b'") auto
qed simp

lemma verify_round_Ok:
  "verify_round L (c, n) (e, h) = Inr s \<longleftrightarrow>
     ev_sequence e = n \<and>
     (\<exists>b. event_to_vec L e = Some b \<and> h = hex (sha256 L (hc_previous c @ b)) \<and>
          s = (\<lparr>hc_previous = sha256 L (hc_previous c @ b)\<rparr>, n + 1))"
  by (auto simp: verify_round_def chain_append_def Let_def split: if_splits)

lemma verify_rounds_Ok:
  assumes "try_fold (verify_round L) (c, n) es = Inr (c', n')"
  shows "\<exists>bs. map (event_to_vec L \<circ> fst) es = map Some bs \<and>
    hc_previous c' = foldl (\<lambda>p b. sha256 L (p @ b)) (hc_previous c) bs \<and>
    map snd es = map (hex \<circ> sha256 L) (chain_inputs (sha256 L) (hc_previous c) bs)"
  using assms
proof (induction es arbitrary: c n)
  case Nil
  then show ?case by simp
next
  case (Cons x es)
  obtain e h where x: "x = (e, h)" by (cases x)
  with Cons.prems obtain s where s: "verify_round L (c, n) (e, h) = Inr s"
    "try_fold (verify_round L) s es = Inr (c', n')" by (auto split: sum.splits)
  then obtain b where b: "event_to_vec L e = Some b" "h = hex (sha256 L (hc_previous c @ b))"
    "s = (\<lparr>hc_previous = sha256 L (hc_previous c @ b)\<rparr>, n + 1)" by (auto simp: verify_round_Ok)
  from Cons.IH [OF s(2) [unfolded b(3)]] obtain bs where
    "map (event_to_vec L \<circ> fst) es = map Some bs"
    "hc_previous c' = foldl (\<lambda>p b. sha256 L (p @ b)) (sha256 L (hc_previous c @ b)) bs"
    "map snd es = map (hex \<circ> sha256 L) (chain_inputs (sha256 L) (sha256 L (hc_previous c @ b)) bs)"
    by (simp only: HashChain.simps) blast
  then show ?case by (intro exI [of _ "b # bs"]) (simp add: x b comp_def)
qed

interpretation chain: sequenced_log "verify_round L"
  "\<lambda>s. unat (snd s - 1)" "\<lambda>entry. unat (ev_sequence (fst entry))" "2 ^ 64 - 1" for L
proof
  fix s entry s'
  assume a: "verify_round L s entry = Inr s'" and b: "unat (snd s - 1) < 2 ^ 64 - 1"
  from b have "snd s - 1 \<noteq> - 1" by (auto simp: unat_max)
  then have "unat (snd s - 1 + 1) = Suc (unat (snd s - 1))" by (rule unat_succ)
  with a show "unat (ev_sequence (fst entry)) = Suc (unat (snd s - 1)) \<and> unat (snd s' - 1) = Suc (unat (snd s - 1))"
    by (cases s; cases entry) (auto simp: verify_round_Ok)
qed

subsection \<open>Batches\<close>

definition record_valid :: "CentralAuditBatchPayload \<Rightarrow> CentralAuditRecord \<Rightarrow> bool" where
  "record_valid p r = (\<not> invalid_record r (cab_source_id p) (cab_organization_id p) (cab_team_id p))"

lemma record_round_Ok:
  "record_round p (e, l) r = Inr s \<longleftrightarrow>
     record_valid p r \<and> car_source_sequence r = e \<and> l < car_local_sequence r \<and> e \<noteq> - 1 \<and>
     s = (e + 1, car_local_sequence r)"
  by (auto simp: record_round_def record_validate_def record_valid_def checked_add_Some_iff unat_max
      not_le dest: succ_no_overflow split: if_splits)

lemma record_rounds_Ok:
  "(\<exists>s. try_fold (record_round p) (e, l) rs = Inr s) \<longleftrightarrow>
     list_all (record_valid p) rs \<and> map (unat \<circ> car_source_sequence) rs = [unat e..<unat e + length rs] \<and>
     unat e + length rs < 2 ^ 64 \<and> sorted_wrt (<) (l # map car_local_sequence rs)"
proof (induction rs arbitrary: e l)
  case Nil
  then show ?case using unat_le_max [of e] by simp
next
  case (Cons r rs)
  show ?case
  proof (cases "record_valid p r \<and> car_source_sequence r = e \<and> l < car_local_sequence r \<and> e \<noteq> - 1")
    case True
    then have "record_round p (e, l) r = Inr (e + 1, car_local_sequence r)" by (simp add: record_round_Ok)
    moreover from True have "unat (e + 1) = Suc (unat e)" by (intro unat_succ) simp
    ultimately show ?thesis
      using True Cons.IH [of "e + 1" "car_local_sequence r"]
      by (auto simp: upt_conv_Cons simp del: upt_Suc intro: less_trans)
  next
    case False
    then have "\<nexists>s. record_round p (e, l) r = Inr s" by (auto simp: record_round_Ok)
    then have "\<nexists>s. try_fold (record_round p) (e, l) (r # rs) = Inr s" by (auto split: sum.splits)
    moreover have "e \<noteq> - 1" if "unat e + length (r # rs) < 2 ^ 64" using that by (auto simp: unat_max)
    moreover have "car_source_sequence r = e" if "unat (car_source_sequence r) = unat e" using that by (simp add: word_unat_eq_iff)
    ultimately show ?thesis using False by (auto simp: upt_conv_Cons simp del: upt_Suc)
  qed
qed

lemma batch_validate_Ok:
  "batch_validate L p = Inr () \<longleftrightarrow>
     \<not> invalid_batch_shape p \<and> list_all (record_valid p) (cab_records p) \<and>
     unat (cab_previous_sequence p) + Suc (length (cab_records p)) < 2 ^ 64 \<and>
     map (unat \<circ> car_source_sequence) (cab_records p) =
       [Suc (unat (cab_previous_sequence p))..<Suc (unat (cab_previous_sequence p) + length (cab_records p))] \<and>
     sorted_wrt (<) (0 # map car_local_sequence (cab_records p)) \<and>
     (case cab_encrypted_content p of None \<Rightarrow> True | Some c \<Rightarrow> content_validate L c p = Inr ())"
proof (cases "cab_previous_sequence p = - 1")
  case True
  then have "checked_add (cab_previous_sequence p) 1 = None"
    by (simp add: checked_add_def unat_max)
  with True show ?thesis by (simp add: batch_validate_def ok_or_def and_then_def unat_max)
next
  case False
  then have e: "checked_add (cab_previous_sequence p) 1 = Some (cab_previous_sequence p + 1)"
    using succ_no_overflow [OF False] by (simp add: checked_add_Some_iff)
  have s: "unat (cab_previous_sequence p + 1) = Suc (unat (cab_previous_sequence p))"
    by (rule unat_succ [OF False])
  have "batch_validate L p = Inr () \<longleftrightarrow> \<not> invalid_batch_shape p
      \<and> (\<exists>s. try_fold (record_round p) (cab_previous_sequence p + 1, 0) (cab_records p) = Inr s)
      \<and> (case cab_encrypted_content p of None \<Rightarrow> True | Some c \<Rightarrow> content_validate L c p = Inr ())"
    by (auto simp: batch_validate_def e ok_or_def and_then_def split: option.splits sum.splits)
  then show ?thesis by (simp only: record_rounds_Ok s add_Suc add_Suc_right conj_ac)
qed

section \<open>Properties\<close>

text \<open>The exact acceptance condition of a central audit batch.  A batch validates if and only if
  its shape is right, every record is valid and in the registered scope, the source sequence numbers
  are exactly the successors of the previous one without gap, repetition or overflow of the 64-bit
  counter, the local sequence numbers increase strictly from above zero, and the encrypted content,
  if any, validates against the batch.\<close>

theorem audit_batch_accepted_iff:
  "batch_validate L p = Ok () \<longleftrightarrow>
     \<not> invalid_batch_shape p \<and>
     list_all (\<lambda>r. \<not> invalid_record r (cab_source_id p) (cab_organization_id p) (cab_team_id p)) (cab_records p) \<and>
     unat (cab_previous_sequence p) + Suc (length (cab_records p)) < 2 ^ 64 \<and>
     map (unat \<circ> car_source_sequence) (cab_records p) =
       [Suc (unat (cab_previous_sequence p))..<Suc (unat (cab_previous_sequence p) + length (cab_records p))] \<and>
     sorted_wrt (<) (0 # map car_local_sequence (cab_records p)) \<and>
     (case cab_encrypted_content p of None \<Rightarrow> True | Some c \<Rightarrow> content_validate L c p = Ok ())"
  using batch_validate_Ok [of L p] unfolding record_valid_def .

lemma HashChain_verify_Ok:
  assumes "HashChain_verify L es = Inr c"
  obtains bs where "map (event_to_vec L \<circ> fst) es = map Some bs"
    "hc_previous c = foldl (\<lambda>p b. sha256 L (p @ b)) (replicate 32 (CHR 0x00)) bs"
    "map snd es = map (hex \<circ> sha256 L) (chain_inputs (sha256 L) (replicate 32 (CHR 0x00)) bs)"
proof -
  from assms obtain n where "try_fold (verify_round L) (HashChain_default, 1) es = Inr (c, n)"
    by (auto simp: HashChain_verify_def split: prod.splits)
  from verify_rounds_Ok [OF this] that show thesis by (auto simp: HashChain_default_def)
qed

definition hashed_inputs :: "AuditLibrary \<Rightarrow> (Event \<times> string) list \<Rightarrow> string list" where
  "hashed_inputs L es =
     chain_inputs (sha256 L) (hc_previous HashChain_default) (map (the \<circ> event_to_vec L \<circ> fst) es)"

text \<open>C33: The audit chain is tamper evident.  Of two logs of the same length that both verify and end
  in the same head, either the serialised events and the stored hashes are the same, entry by entry,
  or the two logs exhibit a collision of SHA-256 among the very inputs hashed while verifying them.
  The assumption on the library is that digests have 32 bytes.\<close>

theorem audit_chain_tamper_evident:
  assumes "HashChain_verify L es = Ok c" and "HashChain_verify L es' = Ok c'"
    and "chain_head_hash c = chain_head_hash c'" and "length es = length es'"
    and digest: "\<And>x. length (sha256 L x) = 32"
  shows "map (\<lambda>(e, h). (event_to_vec L e, h)) es = map (\<lambda>(e, h). (event_to_vec L e, h)) es' \<or>
    (\<exists>(x, y) \<in> set (zip (hashed_inputs L es) (hashed_inputs L es')). x \<noteq> y \<and> sha256 L x = sha256 L y)"
proof -
  let ?z = "replicate 32 (CHR 0x00)"
  from HashChain_verify_Ok [OF assms(1)] obtain bs where bs: "map (event_to_vec L \<circ> fst) es = map Some bs"
    "hc_previous c = foldl (\<lambda>p b. sha256 L (p @ b)) ?z bs"
    "map snd es = map (hex \<circ> sha256 L) (chain_inputs (sha256 L) ?z bs)" .
  from HashChain_verify_Ok [OF assms(2)] obtain bs' where bs': "map (event_to_vec L \<circ> fst) es' = map Some bs'"
    "hc_previous c' = foldl (\<lambda>p b. sha256 L (p @ b)) ?z bs'"
    "map snd es' = map (hex \<circ> sha256 L) (chain_inputs (sha256 L) ?z bs')" .
  from bs(1) bs'(1) have the: "map (the \<circ> event_to_vec L \<circ> fst) es = bs" "map (the \<circ> event_to_vec L \<circ> fst) es' = bs'"
    by (metis list.map_comp map_idI option.sel comp_apply)+
  have "length bs = length bs'" using the assms(4) by (metis length_map)
  moreover have "foldl (\<lambda>p b. sha256 L (p @ b)) ?z bs = foldl (\<lambda>p b. sha256 L (p @ b)) ?z bs'"
    using assms(3) bs(2) bs'(2) by (simp add: chain_head_hash_def hex_inj)
  ultimately have "bs = bs' \<or> (\<exists>(x, y) \<in> set (zip (hashed_inputs L es) (hashed_inputs L es')). x \<noteq> y \<and> sha256 L x = sha256 L y)"
    using last_digest_inj [of bs bs' ?z ?z "sha256 L"] digest
    by (simp add: hashed_inputs_def the HashChain_default_def)
  moreover have "map (\<lambda>(e, h). (event_to_vec L e, h)) es = map (\<lambda>(e, h). (event_to_vec L e, h)) es'" if "bs = bs'"
  proof -
    have "map (\<lambda>(e, h). (event_to_vec L e, h)) xs = zip (map (event_to_vec L \<circ> fst) xs) (map snd xs)" for xs :: "(Event \<times> string) list"
      by (induction xs) auto
    with that bs bs' show ?thesis by simp
  qed
  ultimately show ?thesis by blast
qed

definition audit_demo_event :: "string \<Rightarrow> Event" where
  "audit_demo_event k = \<lparr>ev_id = ''e'', ev_sequence = 1, ev_timestamp = 0,
     ev_scope = \<lparr>sc_organization_id = ''o'', sc_team_id = ''t'', sc_actor_id = ''a'', sc_goal_id = None, sc_task_id = None\<rparr>,
     ev_session_id = None, ev_turn_id = None, ev_kind = k, ev_payload = JNull\<rparr>"

definition audit_demo_library :: AuditLibrary where
  "audit_demo_library = \<lparr>b64_encode = (\<lambda>x. x), b64_decode = Some, sha256 = (\<lambda>_. replicate 32 (CHR 0x00)),
     event_to_vec = (\<lambda>e. Some (ev_kind e)), value_to_vec = (\<lambda>_. Some ''null''),
     value_from_slice = (\<lambda>_. Some JNull), batch_to_vec = (\<lambda>p. Some (cab_batch_id p)),
     aad_to_vec = (\<lambda>_. Some ''aad''), verifying_key = (\<lambda>k. k), key_sign = (\<lambda>k m. k @ m),
     verifying_key_from_bytes = Some, signature_from_slice = Some, key_verify = (\<lambda>k m s. s = k @ m),
     aes_encrypt = (\<lambda>k n a m. Some (replicate 16 (CHR ''T'') @ m)), aes_decrypt = (\<lambda>k n a c. Some (drop 16 c))\<rparr>"

lemma audit_demo_chain_verifies:
  "HashChain_verify audit_demo_library [(audit_demo_event k, hex (replicate 32 (CHR 0x00)))] = Inr \<lparr>hc_previous = replicate 32 (CHR 0x00)\<rparr>"
proof -
  have "verify_round audit_demo_library (HashChain_default, 1) (audit_demo_event k, hex (replicate 32 (CHR 0x00))) =
      Inr (\<lparr>hc_previous = replicate 32 (CHR 0x00)\<rparr>, 2)"
    by (simp add: verify_round_Ok) (simp add: audit_demo_library_def audit_demo_event_def)
  then show ?thesis by (simp add: HashChain_verify_def)
qed

theorem audit_chain_tamper_evident_witness:
  "let zeros = hex (replicate 32 (CHR 0x00)) in
   is_ok (HashChain_verify audit_demo_library [(audit_demo_event ''x'', zeros)]) \<and>
   (map (\<lambda>(e, h). (event_to_vec audit_demo_library e, h)) [(audit_demo_event ''x'', zeros)] =
      map (\<lambda>(e, h). (event_to_vec audit_demo_library e, h)) [(audit_demo_event ''y'', zeros)] \<or>
    (\<exists>(x, y) \<in> set (zip (hashed_inputs audit_demo_library [(audit_demo_event ''x'', zeros)])
         (hashed_inputs audit_demo_library [(audit_demo_event ''y'', zeros)])). x \<noteq> y \<and> sha256 audit_demo_library x = sha256 audit_demo_library y))"
proof -
  have "length (sha256 audit_demo_library x) = 32" for x by (simp add: audit_demo_library_def)
  from audit_chain_tamper_evident [OF audit_demo_chain_verifies [of "''x''"] audit_demo_chain_verifies [of "''y''"] refl _ this] audit_demo_chain_verifies [of "''x''"] show ?thesis
    by (simp only: Let_def is_ok_simps simp_thms) simp
qed

text \<open>The head of a verified chain resumes it: parsing the printed head gives the chain state
  back, when digests have 32 bytes.\<close>

lemma HashChain_verify_width:
  assumes "HashChain_verify L es = Inr c" and "\<And>x. length (sha256 L x) = 32"
  shows "length (hc_previous c) = 32"
proof -
  have "length (foldl (\<lambda>p b. sha256 L (p @ b)) p bs) = 32" if "length p = 32" for p bs
    using that assms(2) by (induction bs arbitrary: p) auto
  then show ?thesis using HashChain_verify_Ok [OF assms(1)] by (metis length_replicate)
qed

lemma chain_head_resumes:
  assumes "HashChain_verify L es = Inr c" and "\<And>x. length (sha256 L x) = 32"
  shows "from_head (chain_head_hash c) = Inr c"
  using HashChain_verify_width [OF assms] by (simp add: from_head_def chain_head_hash_def head_bytes_hex)

text \<open>A head of plus signs and digits is accepted although it is no hexadecimal digest.\<close>

lemma from_head_accepts_signs:
  "from_head (concat (replicate 32 ''+0'')) = Inr HashChain_default \<and>
   \<not> valid_hash (concat (replicate 32 ''+0''))"
  by code_simp

text \<open>A verified audit log has no gap.  Its events carry the sequence numbers from 1 in order, and
  after the removal of any entry but the last the log does not verify any more, whatever the hash
  function is.\<close>

theorem audit_log_gapless:
  assumes "HashChain_verify L es = Ok c" and "length es < 2 ^ 64"
  shows "map (unat \<circ> ev_sequence \<circ> fst) es = [1..<Suc (length es)] \<and>
    (\<forall>xs x ys. es = xs @ x # ys \<and> ys \<noteq> [] \<longrightarrow> (\<exists>e. HashChain_verify L (xs @ ys) = Err e))"
proof (intro conjI allI impI)
  from assms(1) obtain n where v: "try_fold (verify_round L) (HashChain_default, 1) es = Inr (c, n)"
    by (auto simp: HashChain_verify_def split: prod.splits)
  have l: "unat (snd (HashChain_default, 1 :: u64) - 1) + length es \<le> 2 ^ 64 - 1" using assms(2) by simp
  from chain.replay_contiguous [OF v l] show "map (unat \<circ> ev_sequence \<circ> fst) es = [1..<Suc (length es)]"
    by (simp add: comp_def del: upt_Suc)
  fix xs x ys
  assume "es = xs @ x # ys \<and> ys \<noteq> []"
  with chain.omission_detected [of L "(HashChain_default, 1)" xs x ys] v l
  obtain e where "try_fold (verify_round L) (HashChain_default, 1) (xs @ ys) = Inl e" by blast
  then show "\<exists>e. HashChain_verify L (xs @ ys) = Inl e" by (simp add: HashChain_verify_def)
qed

theorem audit_log_gapless_witness:
  "let zeros = hex (replicate 32 (CHR 0x00)) in
   map (unat \<circ> ev_sequence \<circ> fst) [(audit_demo_event ''x'', zeros)] = [1..<2]"
proof -
  have "length [(audit_demo_event ''x'', hex (replicate 32 (CHR 0x00)))] < 2 ^ 64" by simp
  from audit_log_gapless [OF audit_demo_chain_verifies this, THEN conjunct1] show ?thesis
    by (simp add: Let_def numeral_2_eq_2)
qed

subsection \<open>Signatures\<close>

text \<open>A batch that the signer signs verifies under the signer's key id and public key; the
  assumptions are the laws of base64 and Ed25519.\<close>

theorem signed_batch_verifies:
  assumes "signer_from_base64 L key_id private = Ok signer" and "sign_batch L signer payload = Ok envelope"
    and b64: "\<And>x. b64_decode L (b64_encode L x) = Some x"
    and keys: "\<And>k. length k = 32 \<Longrightarrow> length (verifying_key L k) = 32 \<and>
        verifying_key_from_bytes L (verifying_key L k) = Some (verifying_key L k)"
    and slices: "\<And>k m. signature_from_slice L (key_sign L k m) = Some (key_sign L k m)"
    and verifies: "\<And>k m. length k = 32 \<Longrightarrow> key_verify L (verifying_key L k) m (key_sign L k m)"
  shows "scb_payload envelope = payload \<and>
    verify_central_audit_batch L envelope key_id (public_key_base64 L signer) = Ok ()"
proof -
  from assms(1) have k: "length (cas_key signer) = 32" "cas_key_id signer = key_id"
    by (auto simp: signer_from_base64_def)
  from assms(2) obtain bytes where bytes: "batch_validate L payload = Inr ()" "batch_to_vec L payload = Some bytes"
    "envelope = \<lparr>scb_key_id = cas_key_id signer, scb_payload = payload,
       scb_signature = b64_encode L (key_sign L (cas_key signer) bytes)\<rparr>"
    by (auto simp: sign_batch_def)
  then have "verify_central_audit_batch L envelope key_id (public_key_base64 L signer) = Inr ()"
    using keys [OF k(1)] verifies [OF k(1)] k(2)
    by (simp add: verify_central_audit_batch_def public_key_from_base64_def public_key_base64_def b64 slices ok_or_def)
  with bytes(3) show ?thesis by simp
qed

definition audit_demo_batch :: CentralAuditBatchPayload where
  "audit_demo_batch = \<lparr>cab_schema_version = 1, cab_batch_id = ''b'', cab_source_id = ''s'', cab_organization_id = ''o'',
     cab_team_id = ''t'', cab_previous_sequence = 0, cab_previous_chain_hash = replicate 64 (CHR ''0''),
     cab_generated_at = 0,
     cab_records = [\<lparr>car_source_id = ''s'', car_source_sequence = 1, car_local_sequence = 1, car_occurred_at = 0,
        car_scope = ev_scope (audit_demo_event ''x''), car_session_id = None, car_turn_id = None, car_kind = ''x'',
        car_payload_sha256 = replicate 64 (CHR ''0''), car_source_chain_hash = replicate 64 (CHR ''0'')\<rparr>],
     cab_encrypted_content = None\<rparr>"

lemma hex_zeros: "hex (replicate n (CHR 0x00)) = replicate (2 * n) (CHR ''0'')"
proof -
  have "hex_char 0 = CHR ''0''" by code_simp
  then show ?thesis by (induction n) (simp_all add: hex_def)
qed

lemma audit_demo_batch_validates: "batch_validate audit_demo_library audit_demo_batch = Inr ()"
proof -
  have "valid_hash (replicate 64 (CHR ''0''))"
    using valid_hash_hex [of "replicate 32 (CHR 0x00)"] by (simp only: hex_zeros length_replicate) simp
  then show ?thesis
    by (simp add: batch_validate_def audit_demo_batch_def audit_demo_event_def invalid_batch_shape_def invalid_record_def
        record_round_def record_validate_def checked_add_def ok_or_def CENTRAL_AUDIT_SCHEMA_VERSION_def
        MAX_CENTRAL_AUDIT_RECORDS_def)
qed

theorem signed_batch_verifies_witness:
  "let key = replicate 32 (CHR ''k''); signer = \<lparr>cas_key_id = ''id'', cas_key = key\<rparr>;
       envelope = \<lparr>scb_key_id = ''id'', scb_payload = audit_demo_batch, scb_signature = key @ ''b''\<rparr>
   in sign_batch audit_demo_library signer audit_demo_batch = Ok envelope \<and>
      verify_central_audit_batch audit_demo_library envelope ''id'' (public_key_base64 audit_demo_library signer) = Ok ()"
proof -
  let ?key = "replicate 32 (CHR ''k'')"
  let ?signer = "\<lparr>cas_key_id = ''id'', cas_key = ?key\<rparr>"
  have 1: "signer_from_base64 audit_demo_library ''id'' ?key = Inr ?signer"
    by (simp add: signer_from_base64_def audit_demo_library_def ok_or_def)
  have 2: "sign_batch audit_demo_library ?signer audit_demo_batch =
      Inr \<lparr>scb_key_id = ''id'', scb_payload = audit_demo_batch, scb_signature = ?key @ ''b''\<rparr>"
    by (simp add: sign_batch_def audit_demo_batch_validates ok_or_def) (simp add: audit_demo_library_def audit_demo_batch_def)
  from signed_batch_verifies [OF 1 2] 2 show ?thesis
    by (simp add: Let_def) (simp add: audit_demo_library_def)
qed

subsection \<open>Encrypted content\<close>

lemma redacted_fixpoint_hidden: "redact v = v \<Longrightarrow> credentials_hidden v"
  using redact_credentials_hidden [of v] by simp

lemma try_map_OkI: "list_all2 (\<lambda>x y. f x = Inr y) xs ys \<Longrightarrow> try_map f xs = Inr ys"
  by (induction rule: list_all2_induct) auto

lemma content_validate_batch:
  "content_validate L c (batch\<lparr>cab_encrypted_content := x\<rparr>) = content_validate L c batch"
  by (simp add: content_validate_def)

lemma batch_validate_with_content:
  assumes "batch_validate L batch = Inr ()" and "content_validate L content batch = Inr ()"
  shows "batch_validate L (batch\<lparr>cab_encrypted_content := Some content\<rparr>) = Inr ()"
  using assms by (simp add: batch_validate_Ok content_validate_batch invalid_batch_shape_def record_valid_def cong: list.pred_cong)

lemma decrypt_encrypted_record:
  assumes "encrypt_record L batch key (random, event, metadata) = Inr r"
    and b64: "\<And>x. b64_decode L (b64_encode L x) = Some x"
    and aes: "\<And>n a m c. aes_encrypt L key n a m = Some c \<Longrightarrow> aes_decrypt L key n a c = Some m"
    and json: "\<And>b. value_to_vec L (ev_payload event) = Some b \<Longrightarrow> value_from_slice L b = Some (ev_payload event)"
  shows "decrypt_record L (batch\<lparr>cab_encrypted_content := x\<rparr>) key (r, metadata) = Inr (ev_payload event)
    \<and> credentials_hidden (ev_payload event)"
  using assms(1)
  by (auto simp: encrypt_record_def decrypt_record_def b64 json central_audit_content_aad_def
      redacted_fixpoint_hidden dest!: aes)

text \<open>Encrypted audit content can be replayed.  When the encryption of a valid batch succeeds, the
  batch with that content validates and its decryption with the same data key returns the payloads of
  the events, in order; and every payload that was encrypted hides its credential fields.  The
  assumptions are the laws of base64 and AES-GCM, and that the payloads survive their serialisation.\<close>

theorem audit_content_roundtrip:
  assumes "batch_validate L batch = Ok ()"
    and "encrypt_central_audit_content L random batch events key = Ok content"
    and b64: "\<And>x. b64_decode L (b64_encode L x) = Some x"
    and aes: "\<And>n a m c. aes_encrypt L (dkm_plaintext key) n a m = Some c \<Longrightarrow>
        aes_decrypt L (dkm_plaintext key) n a c = Some m"
    and json: "\<And>event b. event \<in> set events \<Longrightarrow> value_to_vec L (ev_payload event) = Some b \<Longrightarrow>
        value_from_slice L b = Some (ev_payload event)"
  shows "decrypt_central_audit_content L (batch\<lparr>cab_encrypted_content := Some content\<rparr>) (dkm_plaintext key) =
      Ok (map ev_payload events) \<and>
    list_all (\<lambda>event. credentials_hidden (ev_payload event)) events"
proof -
  let ?zs = "zip (map random [0..<length events]) (zip events (cab_records batch))"
  let ?batch = "batch\<lparr>cab_encrypted_content := Some content\<rparr>"
  from assms(2) have len: "length events = length (cab_records batch)" "length (dkm_plaintext key) = 32"
    and enc: "try_map (encrypt_record L batch (dkm_plaintext key)) ?zs = Inr (cec_records content)"
    and valid: "content_validate L content batch = Inr ()"
    by (auto simp: encrypt_central_audit_content_def Let_def)
  from try_map_Ok_nth [OF enc] len(1)
  have nth: "length (cec_records content) = length events"
    "i < length events \<Longrightarrow> encrypt_record L batch (dkm_plaintext key)
       (random i, events ! i, cab_records batch ! i) = Inr (cec_records content ! i)" for i
    by (auto simp: list_all2_conv_all_nth)
  have dec: "decrypt_record L ?batch (dkm_plaintext key) (cec_records content ! i, cab_records batch ! i) =
      Inr (ev_payload (events ! i)) \<and> credentials_hidden (ev_payload (events ! i))" if "i < length events" for i
    using decrypt_encrypted_record [OF nth(2) [OF that] b64 aes] json [of "events ! i"] that by auto
  have "try_map (decrypt_record L ?batch (dkm_plaintext key)) (zip (cec_records content) (cab_records batch)) =
      Inr (map ev_payload events)"
    by (rule try_map_OkI) (simp add: list_all2_conv_all_nth nth(1) len(1) [symmetric] dec)
  with batch_validate_with_content [OF assms(1) valid] len(2)
  have "decrypt_central_audit_content L ?batch (dkm_plaintext key) = Inr (map ev_payload events)"
    by (simp add: decrypt_central_audit_content_def ok_or_def)
  with dec show ?thesis by (simp add: list_all_length)
qed

definition audit_demo_key :: CentralAuditDataKeyMaterial where
  "audit_demo_key = \<lparr>dkm_plaintext = replicate 32 (CHR ''k''),
     dkm_wrapped = \<lparr>wdk_key_id = ''kms'', wdk_algorithm = AES_256_GCM, wdk_nonce = replicate 12 (CHR ''n''),
       wdk_ciphertext = replicate 16 (CHR ''c'')\<rparr>\<rparr>"

theorem audit_content_roundtrip_witness:
  "\<exists>content. encrypt_central_audit_content audit_demo_library (\<lambda>_. Some (replicate 12 (CHR ''n''))) audit_demo_batch
       [audit_demo_event ''x''] audit_demo_key = Ok content \<and>
     decrypt_central_audit_content audit_demo_library (audit_demo_batch\<lparr>cab_encrypted_content := Some content\<rparr>)
       (dkm_plaintext audit_demo_key) = Ok [JNull]"
proof -
  have "encrypt_record audit_demo_library audit_demo_batch (dkm_plaintext audit_demo_key)
      (Some (replicate 12 (CHR ''n'')), audit_demo_event ''x'', hd (cab_records audit_demo_batch)) =
      Inr \<lparr>cer_source_sequence = 1, cer_local_sequence = 1, cer_nonce = replicate 12 (CHR ''n''),
         cer_ciphertext = replicate 16 (CHR ''T'') @ ''null''\<rparr>" (is "_ = Inr ?r")
    by (simp add: encrypt_record_def audit_demo_event_def audit_demo_batch_def audit_demo_key_def
        MAX_CENTRAL_AUDIT_CONTENT_RECORD_BYTES_def central_audit_content_aad_def ok_or_def)
      (simp add: audit_demo_library_def hex_zeros [of 32, simplified])
  then obtain content where c: "encrypt_central_audit_content audit_demo_library (\<lambda>_. Some (replicate 12 (CHR ''n'')))
      audit_demo_batch [audit_demo_event ''x''] audit_demo_key = Inr content"
    by (simp add: encrypt_central_audit_content_def audit_demo_batch_def audit_demo_key_def Let_def content_validate_def
        wrapped_key_validate_def encrypted_round_def audit_demo_library_def ok_or_def AES_256_GCM_def
        MAX_CENTRAL_AUDIT_CONTENT_RECORD_BYTES_def MAX_CENTRAL_AUDIT_CONTENT_BATCH_BYTES_def)
  have "decrypt_central_audit_content audit_demo_library (audit_demo_batch\<lparr>cab_encrypted_content := Some content\<rparr>)
      (dkm_plaintext audit_demo_key) = Inr [JNull]"
    using audit_content_roundtrip [OF audit_demo_batch_validates c, THEN conjunct1]
    by (auto simp: audit_demo_library_def audit_demo_event_def)
  with c show ?thesis by blast
qed

end
