(* ===== verification/Sensitive_Paths.thy ===== *)
theory Sensitive_Paths
  imports Rust_Path
begin

text \<open>
  The lexical protection of workspace paths: \<open>crates/platform-runtime/src/sensitive_paths.rs\<close> and
  the path checks of \<open>crates/tool-runtime/src/lib.rs\<close> (\<open>check_protected_path\<close>, \<open>reject_sensitive\<close>,
  \<open>validated_components\<close>) on Unix without case folding.
\<close>

section \<open>Sensitive names\<close>

definition SENSITIVE_COMPONENTS :: "string list" where
  "SENSITIVE_COMPONENTS =
     [''.s-code'', ''.opencoding'', ''.ssh'', ''.aws'', ''.azure'', ''.docker'', ''.gnupg'', ''.kube'',
      ''.password-store'', ''.terraform.d'']"

definition SENSITIVE_FILES :: "string list" where
  "SENSITIVE_FILES =
     [''.env'', ''.env.local'', ''.git-credentials'', ''.netrc'', ''.npmrc'', ''.openrouter_apikey'', ''.pypirc'',
      ''credentials'', ''credentials.json'', ''id_dsa'', ''id_ecdsa'', ''id_ed25519'', ''id_ed25519_sk'', ''id_rsa'',
      ''key.json'', ''secrets.json'', ''service-account.json'']"

definition sensitive_name :: "string \<Rightarrow> bool" where
  "sensitive_name lower =
     (let environment_template = starts_with lower ''.env.''
            \<and> list_ex (ends_with lower) [''.example'', ''.sample'', ''.template'']
      in lower \<in> set SENSITIVE_COMPONENTS
         \<or> lower \<in> set SENSITIVE_FILES
         \<or> (starts_with lower ''.env.'' \<and> \<not> environment_template)
         \<or> ends_with lower ''.provider-credentials.json''
         \<or> ends_with lower ''.key''
         \<or> ends_with lower ''.pem''
         \<or> ends_with lower ''.p12''
         \<or> ends_with lower ''.pfx''
         \<or> ends_with lower ''.kdbx'')"

text \<open>\<open>slice::windows\<close>.\<close>

fun windows :: "nat \<Rightarrow> 'a list \<Rightarrow> 'a list list" where
  "windows n [] = []"
| "windows n (x # xs) = (if length (x # xs) < n then [] else take n (x # xs) # windows n xs)"

definition sensitive_pair :: "string list \<Rightarrow> bool" where
  "sensitive_pair parts =
     (parts ! 0 = ''.config''
      \<and> parts ! 1 \<in> {''gcloud'', ''gh'', ''hub'', ''op'', ''1password'', ''s-code'', ''opencoding''})"

definition sensitive_components :: "string list \<Rightarrow> bool" where
  "sensitive_components names =
     (list_ex sensitive_name names
      \<or> list_ex sensitive_pair (windows 2 names)
      \<or> list_ex (\<lambda>parts. parts = [''.local'', ''share'', ''keyrings'']) (windows 3 names))"

definition sensitive_path :: "string \<Rightarrow> bool" where
  "sensitive_path path = sensitive_components (map (to_ascii_lowercase \<circ> component_str) (components path))"

section \<open>Path checks of the tool runtime\<close>

text \<open>An \<open>io::Error\<close> by the kinds the code distinguishes.\<close>

datatype IoError = IoNotFound | IoAlreadyExists | IoLoop | IoOther string

datatype ToolError =
    TE_Boundary string
  | TE_Sensitive string
  | TE_Protected
  | TE_ConcurrentModification
  | TE_MissingExpectedHash
  | TE_Io IoError
  | TE_Durability string IoError
  | TE_Runtime string
  | TE_Invalid string

record ProtectedPath =
  pp_path :: string
  pp_canonical_path :: "string option"
  pp_device :: "u64 option"
  pp_inode :: "u64 option"
  pp_directory :: bool

record PathGuard =
  pg_root :: string
  pg_protections :: "ProtectedPath list"

definition reject_sensitive :: "string \<Rightarrow> ToolError + unit" where
  "reject_sensitive path =
     (if sensitive_path path
         \<or> list_ex (\<lambda>c. eq_ignore_ascii_case (component_str c) ''.git'') (components path)
      then Err (TE_Sensitive path) else Ok ())"

text \<open>\<open>root.join(path)\<close>, as components.\<close>

definition joined_components :: "string \<Rightarrow> string \<Rightarrow> path_component list" where
  "joined_components root path =
     (if starts_with path ''/'' then components path else components (root @ ''/'' @ path))"

definition rule_denies :: "path_component list \<Rightarrow> ProtectedPath \<Rightarrow> bool" where
  "rule_denies candidate rule =
     list_ex (\<lambda>protected.
         candidate = components protected
         \<or> (pp_directory rule \<and> take (length (components protected)) candidate = components protected))
       (pp_path rule # (case pp_canonical_path rule of None \<Rightarrow> [] | Some c \<Rightarrow> [c]))"

definition check_protected_path :: "PathGuard \<Rightarrow> string \<Rightarrow> ToolError + unit" where
  "check_protected_path g path =
     (if list_ex (rule_denies (joined_components (pg_root g) path)) (pg_protections g)
      then Err TE_Protected else Ok ())"

fun normal_part :: "path_component \<Rightarrow> string list" where
  "normal_part (Normal value) = [value]"
| "normal_part _ = []"

fun escaping :: "path_component \<Rightarrow> bool" where
  "escaping ParentDir = True"
| "escaping RootDir = True"
| "escaping (Prefix _) = True"
| "escaping _ = False"

definition validated_components :: "PathGuard \<Rightarrow> string \<Rightarrow> ToolError + string list" where
  "validated_components g relative =
     (if relative = [] \<or> list_ex escaping (components relative) then Err (TE_Boundary relative)
      else
        and_then (reject_sensitive relative) (\<lambda>_.
        and_then (check_protected_path g relative) (\<lambda>_.
          let parts = concat (map normal_part (components relative)) in
          if parts = [] then Err (TE_Boundary relative) else Ok parts)))"

section \<open>Lemmas\<close>

definition plain_segments :: "string \<Rightarrow> string list" where
  "plain_segments p = filter (\<lambda>s. s \<noteq> [] \<and> s \<noteq> ''.'') (split_char CHR ''/'' p)"

lemma split_char_concat: "split_char d (p @ d # q) = split_char d p @ split_char d q"
  by (induction p) (auto split: list.splits)

lemma components_below:
  assumes "p \<noteq> []"
  shows "components (p @ CHR ''/'' # q) = components p @ map segment_component (plain_segments q)"
proof -
  have "starts_with (p @ CHR ''/'' # q) ''/'' = starts_with p ''/''"
    using assms by (cases p) (auto simp: starts_with_def)
  moreover have "hd (split_char CHR ''/'' p @ xs) = hd (split_char CHR ''/'' p)" for xs by simp
  ultimately show ?thesis by (simp add: components_def Let_def plain_segments_def split_char_concat)
qed

lemma windows_append: "n > 0 \<Longrightarrow> set (windows n xs) \<subseteq> set (windows n (xs @ ys))"
proof (induction xs)
  case (Cons x xs)
  have "take n (x # xs) = take n (x # xs @ ys)" if "\<not> length (x # xs) < n"
    using that by (cases n) auto
  with Cons show ?case by auto
qed simp

lemma sensitive_components_append: "sensitive_components names \<Longrightarrow> sensitive_components (names @ rest)"
  using windows_append [of 2 names rest] windows_append [of 3 names rest]
  by (auto simp: sensitive_components_def list_ex_iff)

lemma sensitive_name_component: "sensitive_components names \<or> \<not> list_ex sensitive_name names"
  by (auto simp: sensitive_components_def)

lemma not_escaping_components:
  assumes "\<not> list_ex escaping (components p)" and "p \<noteq> []"
  shows "map Normal (concat (map normal_part (components p))) = map segment_component (plain_segments p)"
    and "\<not> starts_with p ''/''"
proof -
  from assms(1) show root: "\<not> starts_with p ''/''"
    by (auto simp: components_def Let_def)
  have "\<not> list_ex escaping (map segment_component (plain_segments p))"
    using assms(1) by (simp add: components_def Let_def plain_segments_def)
  moreover have "map Normal (concat (map normal_part (map segment_component segs))) = map segment_component segs"
    if "\<not> list_ex escaping (map segment_component segs)" for segs
    using that by (induction segs) (auto simp: segment_component_def split: if_splits)
  ultimately have "map Normal (concat (map normal_part (map segment_component (plain_segments p)))) =
      map segment_component (plain_segments p)" by blast
  with root show "map Normal (concat (map normal_part (components p))) = map segment_component (plain_segments p)"
    by (simp add: components_def Let_def plain_segments_def)
qed

section \<open>Properties\<close>

text \<open>Everything below a sensitive path is sensitive: no path through a sensitive directory escapes
  the check, however many components, repeated separators or dot segments follow.\<close>

theorem sensitive_subtree:
  assumes "sensitive_path p"
  shows "sensitive_path (p @ ''/'' @ q)"
proof -
  have "p \<noteq> []"
  proof
    assume "p = []"
    with assms show False
      by (simp add: sensitive_path_def components_def sensitive_components_def starts_with_def)
  qed
  with assms show ?thesis
    by (simp add: sensitive_path_def components_below sensitive_components_append)
qed

theorem sensitive_subtree_witness: "sensitive_path (''.SSH'' @ ''/'' @ ''x//id.pub'')"
proof (rule sensitive_subtree)
  have "sensitive_components [''.ssh'']" by (simp add: sensitive_components_def sensitive_name_def SENSITIVE_COMPONENTS_def)
  moreover have "map (to_ascii_lowercase \<circ> component_str) (components ''.SSH'') = [''.ssh'']" by code_simp
  ultimately show "sensitive_path ''.SSH''" by (simp only: sensitive_path_def)
qed

text \<open>C34: A path that the tool runtime validates stays inside the workspace and away from protected
  files.  It resolves to the workspace root followed by the returned components, there is at least
  one, each is a plain name, none is sensitive or the repository directory in any spelling of its
  case, and no protection rule denies the target, by its path or as part of a protected directory.\<close>

theorem validated_path_confined:
  assumes "validated_components g relative = Ok parts" and "pg_root g \<noteq> []"
  shows "joined_components (pg_root g) relative = components (pg_root g) @ map Normal parts \<and> parts \<noteq> [] \<and>
    list_all (\<lambda>s. s \<noteq> [] \<and> s \<noteq> ''.'' \<and> s \<noteq> ''..'' \<and> CHR ''/'' \<notin> set s) parts \<and>
    list_all (\<lambda>s. \<not> sensitive_name (to_ascii_lowercase s) \<and> to_ascii_lowercase s \<noteq> ''.git'') parts \<and>
    \<not> list_ex (rule_denies (components (pg_root g) @ map Normal parts)) (pg_protections g)"
proof -
  from assms(1) have ne: "relative \<noteq> []" "\<not> list_ex escaping (components relative)"
    and parts: "parts = concat (map normal_part (components relative))" "parts \<noteq> []"
    and safe: "\<not> sensitive_path relative" "\<not> list_ex (\<lambda>c. eq_ignore_ascii_case (component_str c) ''.git'') (components relative)"
    and rules: "\<not> list_ex (rule_denies (joined_components (pg_root g) relative)) (pg_protections g)"
    by (auto simp: validated_components_def reject_sensitive_def check_protected_path_def Let_def)
  have join: "joined_components (pg_root g) relative = components (pg_root g) @ map Normal parts"
    using not_escaping_components [OF ne(2,1)] components_below [OF assms(2), of relative]
    by (simp add: joined_components_def parts(1))
  have mem: "Normal s \<in> set (components relative)" if "s \<in> set parts" for s
  proof -
    from that obtain c where "c \<in> set (components relative)" "s \<in> set (normal_part c)" by (auto simp: parts(1))
    moreover have "c = Normal s" using \<open>s \<in> set (normal_part c)\<close> by (cases c) auto
    ultimately show ?thesis by simp
  qed
  have "\<not> sensitive_name (to_ascii_lowercase s) \<and> to_ascii_lowercase s \<noteq> ''.git''" if "s \<in> set parts" for s
  proof -
    have "to_ascii_lowercase ''.git'' = ''.git''" by code_simp
    with mem [OF that] safe show ?thesis
      by (force simp: sensitive_path_def sensitive_components_def list_ex_iff eq_ignore_ascii_case_def)
  qed
  with join parts(2) rules mem show ?thesis
    by (auto simp: list_all_iff dest: Normal_in_components)
qed

theorem validated_path_confined_witness:
  "let g = \<lparr>pg_root = ''/w'', pg_protections = []\<rparr> in
   validated_components g ''./src//a.rs'' = Ok [''src'', ''a.rs''] \<and>
   joined_components (pg_root g) ''./src//a.rs'' = components ''/w'' @ map Normal [''src'', ''a.rs'']"
proof -
  let ?g = "\<lparr>pg_root = ''/w'', pg_protections = []\<rparr>"
  have "validated_components ?g ''./src//a.rs'' = Inr [''src'', ''a.rs'']" by code_simp
  moreover have "pg_root ?g \<noteq> []" by simp
  ultimately show ?thesis
    using validated_path_confined [of ?g "''./src//a.rs''" "[''src'', ''a.rs'']"] by (simp add: Let_def)
qed

end
