(* ===== verification/File_Edit.thy ===== *)
theory File_Edit
  imports Sensitive_Paths Json_Value
begin

text \<open>
  The editing formats of \<open>crates/execution/src/lib.rs\<close> and \<open>crates/execution/src/editing.rs\<close>: exact
  text edits, line range edits, and the strict patch subset.  Texts are UTF-8 bytes, so the byte
  offsets of the source are list indices.
\<close>

section \<open>Data\<close>

datatype StorageError =
    SE_Database string
  | SE_Migration string
  | SE_InvalidData string
  | SE_NotFound
  | SE_ScopeMismatch
  | SE_InvalidState string
  | SE_Io string
  | SE_Encryption string

datatype ExecutionError =
    EE_Storage StorageError
  | EE_Tool ToolError
  | EE_Arguments string
  | EE_Approval string

record FileEdit =
  fe_old_text :: "string option"
  fe_start_line :: "nat option"
  fe_end_line :: "nat option"
  fe_new_text :: string
  fe_patch_hunk :: bool

record ApplyPatchArgs =
  ap_path :: string
  ap_expected_sha256 :: "string option"
  ap_expected_revision :: "string option"
  ap_content :: "string option"
  ap_edits :: "FileEdit list"

record FileReplacement =
  fr_path :: string
  fr_expected_sha256 :: "string option"
  fr_content :: string

abbreviation newline :: char where "newline \<equiv> CHR 0x0A"

definition MAX_EDIT_BYTES :: nat where
  "MAX_EDIT_BYTES = 16 * 1024 * 1024"

definition validate_shape :: "ApplyPatchArgs \<Rightarrow> ExecutionError + unit" where
  "validate_shape a =
     (if length (ap_edits a) > 100 then Err (EE_Arguments ''at most 100 edits per file'')
      else
        (case (ap_content a \<noteq> None, ap_edits a = []) of
           (True, True) \<Rightarrow> Ok ()
         | (False, False) \<Rightarrow> Ok ()
         | _ \<Rightarrow> Err (EE_Arguments ''apply_patch requires exactly one of content or non-empty edits'')))"

section \<open>Exact edits\<close>

definition first_char_len :: "string \<Rightarrow> nat" where
  "first_char_len s = 1 + length (takeWhile is_cont_byte (tl s))"

definition at_line_start :: "string \<Rightarrow> nat \<Rightarrow> bool" where
  "at_line_start content offset = (offset = 0 \<or> content ! (offset - 1) = newline)"

lemma search_advances:
  assumes "str_find (drop search_start content) old_text = Some relative" and "old_text \<noteq> []"
  shows "length content - (search_start + relative + first_char_len s) < length content - search_start"
proof -
  from assms(2) have "0 < length old_text" by simp
  moreover have "relative + length old_text \<le> length content - search_start"
    using str_find_bound [OF assms(1)] by simp
  ultimately show ?thesis unfolding first_char_len_def by linarith
qed

text \<open>The positions found, at most two; \<open>found\<close> is the number of positions collected before.\<close>

function match_positions :: "string \<Rightarrow> string \<Rightarrow> bool \<Rightarrow> nat \<Rightarrow> nat \<Rightarrow> nat list" where
  "match_positions content old_text patch_hunk found search_start =
     (if old_text = [] then []
      else
        (case str_find (drop search_start content) old_text of
           None \<Rightarrow> []
         | Some relative \<Rightarrow>
             let offset = search_start + relative;
                 counts = \<not> patch_hunk \<or> at_line_start content offset;
                 next = offset + first_char_len (drop offset content)
             in if counts \<and> found = 1 then [offset]
                else if counts then offset # match_positions content old_text patch_hunk (found + 1) next
                else match_positions content old_text patch_hunk found next))"
  by pat_completeness auto

termination
proof (relation "measure (\<lambda>(content, old_text, patch_hunk, found, search_start). length content - search_start)")
qed (auto intro: search_advances)

declare match_positions.simps [simp del]

text \<open>The excerpt that an error message offers when nothing matched.\<close>

fun split_where :: "(char \<Rightarrow> bool) \<Rightarrow> string \<Rightarrow> string \<Rightarrow> string list" where
  "split_where P cur [] = [cur]"
| "split_where P cur (c # s) = (if P c then cur # split_where P [] s else split_where P (cur @ [c]) s)"

definition sought_tokens :: "string \<Rightarrow> string list" where
  "sought_tokens old_text =
     remdups (filter (\<lambda>t. length t \<ge> 2) (split_where (\<lambda>c. \<not> is_ascii_alphanumeric c \<and> c \<noteq> CHR ''_'') [] old_text))"

definition excerpt_score :: "string list \<Rightarrow> string list \<Rightarrow> nat \<Rightarrow> nat" where
  "excerpt_score sought lines candidate =
     length (filter (\<lambda>token. list_ex (\<lambda>line. str_contains line token) (take 7 (drop candidate lines))) sought)"

definition best_excerpt :: "string list \<Rightarrow> string list \<Rightarrow> nat" where
  "best_excerpt sought lines =
     fst (foldl (\<lambda>(start, best) candidate.
            let score = excerpt_score sought lines candidate in
            if score > best then (candidate, score) else (start, best)) (0, 0) [0..<length lines])"

definition closest_edit_excerpt :: "string \<Rightarrow> string \<Rightarrow> string option" where
  "closest_edit_excerpt content old_text =
     (let lines = str_lines content in
      if lines = [] then None
      else Some (take_chars 1200 (join [newline] (take 7 (drop (best_excerpt (sought_tokens old_text) lines) lines)))))"

definition exact_mismatch :: "nat \<Rightarrow> nat \<Rightarrow> string \<Rightarrow> string \<Rightarrow> ExecutionError" where
  "exact_mismatch index n content old_text =
     EE_Arguments (''edit '' @ decimal (index + 1) @ '' old_text must match exactly once, but matched '' @ decimal n @ '' times''
       @ (if n = 0 then
            (case closest_edit_excerpt content old_text of
               None \<Rightarrow> []
             | Some excerpt \<Rightarrow>
                 ''. Do not retry the same old_text. Copy an exact block from this closest current excerpt or send a deliberate full content replacement:''
                 @ [newline] @ excerpt)
          else []))"

text \<open>\<open>String::replace_range\<close>.\<close>

definition replace_range :: "nat \<Rightarrow> nat \<Rightarrow> string \<Rightarrow> string \<Rightarrow> string" where
  "replace_range start stop new_text content = take start content @ new_text @ drop stop content"

definition exact_edit :: "string \<Rightarrow> nat \<times> FileEdit \<Rightarrow> ExecutionError + string" where
  "exact_edit content indexed =
     (case indexed of (index, edit) \<Rightarrow>
      case fe_old_text edit of
        None \<Rightarrow> Err (EE_Arguments ''unreachable'')
      | Some old_text \<Rightarrow>
          if old_text = [] then Err (EE_Arguments (''edit '' @ decimal (index + 1) @ '' has empty old_text''))
          else
            (case match_positions content old_text (fe_patch_hunk edit) 0 0 of
               [offset] \<Rightarrow> Ok (replace_range offset (offset + length old_text) (fe_new_text edit) content)
             | positions \<Rightarrow> Err (exact_mismatch index (length positions) content old_text)))"

section \<open>Line range edits\<close>

text \<open>The offsets at which lines start, and the number of lines.\<close>

fun newline_ends :: "nat \<Rightarrow> string \<Rightarrow> nat list" where
  "newline_ends i [] = []"
| "newline_ends i (c # s) = (if c = newline then (i + 1) # newline_ends (i + 1) s else newline_ends (i + 1) s)"

definition line_starts :: "string \<Rightarrow> nat list" where
  "line_starts content = 0 # newline_ends 0 content"

definition line_count :: "string \<Rightarrow> nat" where
  "line_count content =
     (if ends_with content [newline] then length (line_starts content) - 1 else length (line_starts content))"

definition adjusted_replacement :: "string \<Rightarrow> string \<Rightarrow> string" where
  "adjusted_replacement replaced new_text =
     (if ends_with replaced [newline] \<and> new_text \<noteq> [] \<and> \<not> ends_with new_text [newline]
      then new_text @ [newline] else new_text)"

text \<open>One round of the loop, on the content and the start of the previous edit.\<close>

definition line_edit :: "string \<times> nat \<Rightarrow> FileEdit \<Rightarrow> ExecutionError + (string \<times> nat)" where
  "line_edit st edit =
     (case st of (content, previous_start) \<Rightarrow>
      case (fe_start_line edit, fe_end_line edit) of
        (Some start_line, Some end_line) \<Rightarrow>
          let starts = line_starts content in
          if start_line = 0 \<or> end_line < start_line \<or> end_line > line_count content
          then Err (EE_Arguments (''line edit range '' @ decimal start_line @ ''-'' @ decimal end_line
                 @ '' is outside the file's 1-'' @ decimal (line_count content) @ '' lines''))
          else if end_line \<ge> previous_start
          then Err (EE_Arguments ''line edit ranges must not overlap'')
          else
            let start = starts ! (start_line - 1);
                stop = (if end_line < length starts then starts ! end_line else length content);
                replaced = take (stop - start) (drop start content)
            in Ok (replace_range start stop (adjusted_replacement replaced (fe_new_text edit)) content, start_line)
      | _ \<Rightarrow> Err (EE_Arguments ''unreachable''))"

definition line_mode :: "FileEdit \<Rightarrow> bool" where
  "line_mode e = (fe_old_text e = None \<and> fe_start_line e \<noteq> None \<and> fe_end_line e \<noteq> None)"

definition exact_mode :: "FileEdit \<Rightarrow> bool" where
  "exact_mode e = (fe_old_text e \<noteq> None \<and> fe_start_line e = None \<and> fe_end_line e = None)"

definition usize_top :: nat where
  "usize_top = 2 ^ 64 - 1"

definition later_first :: "FileEdit \<Rightarrow> FileEdit \<Rightarrow> bool" where
  "later_first a b =
     ((case fe_start_line a of None \<Rightarrow> 0 | Some n \<Rightarrow> n) \<ge> (case fe_start_line b of None \<Rightarrow> 0 | Some n \<Rightarrow> n))"

definition apply_file_edits :: "string \<Rightarrow> FileEdit list \<Rightarrow> ExecutionError + string" where
  "apply_file_edits content edits =
     (if \<not> list_all line_mode edits \<and> \<not> list_all exact_mode edits
      then Err (EE_Arguments ''edits must use one mode consistently: old_text, or start_line/end_line'')
      else if list_all exact_mode edits
      then try_fold exact_edit content (zip [0..<length edits] edits)
      else and_then (try_fold line_edit (content, usize_top) (sort_by later_first edits)) (\<lambda>(content', _). Ok content'))"

definition into_replacement :: "ApplyPatchArgs \<Rightarrow> string \<Rightarrow> ExecutionError + FileReplacement" where
  "into_replacement a snapshot =
     and_then (validate_shape a) (\<lambda>_.
     and_then
       (case ap_content a of
          Some content \<Rightarrow> Ok content
        | None \<Rightarrow>
            if \<not> valid_utf8 snapshot then Err (EE_Arguments ''text edits require an existing UTF-8 text file'')
            else apply_file_edits snapshot (ap_edits a)) (\<lambda>content.
       Ok \<lparr>fr_path = ap_path a,
           fr_expected_sha256 = (case ap_expected_sha256 a of
                Some v \<Rightarrow> if eq_ignore_ascii_case v ''null'' then None else Some v
              | None \<Rightarrow> None),
           fr_content = content\<rparr>))"

definition expected_revision_matches :: "string \<Rightarrow> string \<Rightarrow> bool" where
  "expected_revision_matches current_sha256 expected =
     (current_sha256 = expected
      \<or> (length expected = 16 \<and> list_all is_ascii_hexdigit expected \<and> starts_with current_sha256 expected))"

section \<open>Exact edits find every match\<close>

definition occurs_at :: "string \<Rightarrow> string \<Rightarrow> bool \<Rightarrow> nat \<Rightarrow> bool" where
  "occurs_at content old_text patch_hunk i =
     (starts_with (drop i content) old_text \<and> (\<not> patch_hunk \<or> at_line_start content i))"

lemma starts_with_hd:
  assumes "starts_with (drop i content) old" and "old \<noteq> []"
  shows "i < length content" "hd old = content ! i"
proof -
  from assms have e: "old = take (length old) (drop i content)" by (simp add: starts_with_def)
  with assms(2) show l: "i < length content" by (metis drop_all leI take_Nil)
  from e assms(2) have "hd old = hd (drop i content)" by (metis hd_take length_greater_0_conv)
  with l show "hd old = content ! i" by (simp add: hd_drop_conv_nth)
qed

text \<open>A text whose first byte starts a character does not match inside a character, so advancing by
  one character skips no match.\<close>

lemma occurrence_step:
  assumes "str_find (drop start content) old = Some relative" and "old \<noteq> []" and "\<not> is_cont_byte (hd old)"
    and "start \<le> i"
  shows "occurs_at content old h i \<longleftrightarrow>
    (i = start + relative \<and> (\<not> h \<or> at_line_start content i)) \<or>
    (start + relative + first_char_len (drop (start + relative) content) \<le> i \<and> occurs_at content old h i)"
proof -
  let ?o = "start + relative"
  let ?w = "takeWhile is_cont_byte (tl (drop ?o content))"
  from str_find_Some [OF assms(1)] have here: "starts_with (drop ?o content) old"
    and before: "\<And>j. j < relative \<Longrightarrow> \<not> starts_with (drop (start + j) content) old"
    by (simp_all add: add.commute)
  have "\<not> starts_with (drop i content) old" if "i < ?o"
    using before [of "i - start"] that assms(4) by simp
  moreover have "\<not> starts_with (drop i content) old" if "?o < i" "i < ?o + first_char_len (drop ?o content)"
  proof
    assume a: "starts_with (drop i content) old"
    from starts_with_hd [OF a assms(2)] have l: "i < length content" and "hd old = content ! i" .
    let ?k = "i - ?o - 1"
    from that have k: "?k < length ?w" by (simp add: first_char_len_def)
    have "?w ! ?k = tl (drop ?o content) ! ?k" by (rule takeWhile_nth [OF k])
    also have "\<dots> = content ! i" using l that by (simp add: nth_tl nth_drop)
    finally have "is_cont_byte (content ! i)" using k nth_mem [OF k] by (metis set_takeWhileD)
    with \<open>hd old = content ! i\<close> assms(3) show False by simp
  qed
  ultimately consider "i = ?o" | "\<not> starts_with (drop i content) old" "i \<noteq> ?o" "\<not> ?o + first_char_len (drop ?o content) \<le> i"
    | "?o + first_char_len (drop ?o content) \<le> i" "i \<noteq> ?o"
    by (metis first_char_len_def le_add1 linorder_neqE_nat not_less not_less_eq_eq plus_1_eq_Suc add_Suc_right)
  then show ?thesis by cases (use here in \<open>simp_all add: occurs_at_def first_char_len_def\<close>)
qed

lemma match_positions_second:
  assumes "old \<noteq> []" and "\<not> is_cont_byte (hd old)"
  shows "match_positions content old h 1 start = [] \<longleftrightarrow> (\<forall>i \<ge> start. \<not> occurs_at content old h i)"
  using assms
proof (induction content old h "1 :: nat" start rule: match_positions.induct)
  case (1 content old h start)
  show ?case
  proof (cases "str_find (drop start content) old")
    case None
    have "\<not> occurs_at content old h i" if "start \<le> i" for i
      using str_find_None [OF None, of "i - start"] that by (simp add: occurs_at_def)
    then show ?thesis using None by (simp add: match_positions.simps)
  next
    case (Some relative)
    let ?o = "start + relative"
    let ?n = "?o + first_char_len (drop ?o content)"
    note step = occurrence_step [OF Some 1(3,4)]
    show ?thesis
    proof (cases "\<not> h \<or> at_line_start content ?o")
      case True
      with step [of ?o h] have "occurs_at content old h ?o" by simp
      with True Some 1(3) show ?thesis
        by (subst match_positions.simps) (auto simp: Let_def intro: le_add1)
    next
      case False
      have "match_positions content old h 1 start = match_positions content old h 1 ?n"
        using False Some 1(3) by (subst match_positions.simps) (simp add: Let_def)
      moreover have "(\<forall>i \<ge> start. \<not> occurs_at content old h i) \<longleftrightarrow> (\<forall>i \<ge> ?n. \<not> occurs_at content old h i)"
        using step [of _ h] False by (auto simp: first_char_len_def)
      ultimately show ?thesis using 1(2) [OF 1(3) Some refl refl refl _ False 1(3,4)] False by simp
    qed
  qed
qed

lemma match_positions_unique:
  assumes "old \<noteq> []" and "\<not> is_cont_byte (hd old)"
  shows "match_positions content old h 0 start = [x] \<longleftrightarrow>
    start \<le> x \<and> occurs_at content old h x \<and> (\<forall>i \<ge> start. occurs_at content old h i \<longrightarrow> i = x)"
  using assms
proof (induction content old h "0 :: nat" start rule: match_positions.induct)
  case (1 content old h start)
  show ?case
  proof (cases "str_find (drop start content) old")
    case None
    have "\<not> occurs_at content old h i" if "start \<le> i" for i
      using str_find_None [OF None, of "i - start"] that by (simp add: occurs_at_def)
    then show ?thesis using None by (auto simp: match_positions.simps)
  next
    case (Some relative)
    let ?o = "start + relative"
    let ?n = "?o + first_char_len (drop ?o content)"
    note step = occurrence_step [OF Some 1(3,4)]
    have n: "start \<le> ?n" "?o < ?n" by (simp_all add: first_char_len_def)
    show ?thesis
    proof (cases "\<not> h \<or> at_line_start content ?o")
      case True
      then have m: "match_positions content old h 0 start = ?o # match_positions content old h 1 ?n"
        using Some 1(3) by (subst match_positions.simps) (simp add: Let_def)
      have o: "occurs_at content old h ?o" using step [of ?o h] True by simp
      have split: "i = ?o \<or> ?n \<le> i" if "start \<le> i" "occurs_at content old h i" for i
        using step [OF that(1), of h] that(2) by blast
      show ?thesis
      proof
        assume "match_positions content old h 0 start = [x]"
        then have "x = ?o" "\<forall>i \<ge> ?n. \<not> occurs_at content old h i"
          using m match_positions_second [OF 1(3,4), of content h ?n] by auto
        then show "start \<le> x \<and> occurs_at content old h x \<and> (\<forall>i \<ge> start. occurs_at content old h i \<longrightarrow> i = x)"
          using o split by auto
      next
        assume x: "start \<le> x \<and> occurs_at content old h x \<and> (\<forall>i \<ge> start. occurs_at content old h i \<longrightarrow> i = x)"
        then have "x = ?o" using o by (metis le_add1)
        moreover have "\<forall>i \<ge> ?n. \<not> occurs_at content old h i"
        proof (intro allI impI notI)
          fix i
          assume i: "?n \<le> i" "occurs_at content old h i"
          with x n(1) have "i = x" by (meson le_trans)
          with i(1) \<open>x = ?o\<close> n(2) show False by simp
        qed
        ultimately show "match_positions content old h 0 start = [x]"
          using m match_positions_second [OF 1(3,4), of content h ?n] by simp
      qed
    next
      case False
      have "match_positions content old h 0 start = match_positions content old h 0 ?n"
        using False Some 1(3) by (subst match_positions.simps) (simp add: Let_def)
      moreover have "start \<le> i \<and> occurs_at content old h i \<longleftrightarrow> ?n \<le> i \<and> occurs_at content old h i" for i
        using step [of i h] False n(1) by (metis le_trans)
      ultimately show ?thesis
        using 1(2) [OF 1(3) Some refl refl refl _ False 1(3,4)] False by (simp only:) metis
    qed
  qed
qed

text \<open>C35: An exact edit is applied exactly when its old text occurs once.  For a single edit whose old
  text starts at a character boundary, the edit succeeds if and only if there is one and only one
  position at which the old text occurs (for a patch hunk, at which it occurs at the start of a line,
  overlapping occurrences included), and then the result is the content with that occurrence replaced
  by the new text and everything else kept.\<close>

theorem exact_edit_unique_match:
  assumes "exact_mode e" and "fe_old_text e = Some old" and "old \<noteq> []" and "\<not> is_cont_byte (hd old)"
  shows "apply_file_edits content [e] = Ok result \<longleftrightarrow>
    (\<exists>i. occurs_at content old (fe_patch_hunk e) i \<and>
       (\<forall>j. occurs_at content old (fe_patch_hunk e) j \<longrightarrow> j = i) \<and>
       result = take i content @ fe_new_text e @ drop (i + length old) content)"
proof -
  have "apply_file_edits content [e] = exact_edit content (0, e)"
    using assms(1) by (auto simp: apply_file_edits_def split: sum.splits)
  also have "exact_edit content (0, e) = Inr result \<longleftrightarrow>
      (\<exists>i. match_positions content old (fe_patch_hunk e) 0 0 = [i] \<and>
         result = take i content @ fe_new_text e @ drop (i + length old) content)"
    using assms(2,3) by (auto simp: exact_edit_def replace_range_def split: list.splits)
  finally show ?thesis
    unfolding match_positions_unique [OF assms(3,4)] by auto
qed

theorem exact_edit_unique_match_witness:
  "apply_file_edits ''ab'' [\<lparr>fe_old_text = Some ''a'', fe_start_line = None, fe_end_line = None,
       fe_new_text = ''xyz'', fe_patch_hunk = False\<rparr>] = Ok ''xyzb''"
proof -
  let ?e = "\<lparr>fe_old_text = Some ''a'', fe_start_line = None, fe_end_line = None, fe_new_text = ''xyz'', fe_patch_hunk = False\<rparr>"
  have "occurs_at ''ab'' ''a'' False i \<longleftrightarrow> i = 0" for i
  proof (cases i)
    case (Suc k)
    then show ?thesis by (cases k) (auto simp: occurs_at_def starts_with_def)
  qed (simp add: occurs_at_def starts_with_def)
  then show ?thesis
    by (subst exact_edit_unique_match [where old = "''a''"]) (auto simp: exact_mode_def is_cont_byte_def)
qed

section \<open>Line range edits are splices\<close>

definition file_lines :: "string \<Rightarrow> string list" where
  "file_lines content = (if content = [] then [[]] else split_inclusive [] content)"

definition terminated :: "string \<Rightarrow> bool" where
  "terminated l = (\<exists>b. l = b @ [newline] \<and> newline \<notin> set b)"

fun line_ends :: "nat \<Rightarrow> string list \<Rightarrow> nat list" where
  "line_ends i [] = []"
| "line_ends i (l # ls) = (if ends_with l [newline] then (i + length l) # line_ends (i + length l) ls else [])"

lemma ends_with_newline: "ends_with l [newline] \<longleftrightarrow> l \<noteq> [] \<and> last l = newline"
  by (cases l rule: rev_cases) (auto simp: ends_with_def)

lemma newline_ends_lines:
  "newline \<notin> set cur \<Longrightarrow> newline_ends (i + length cur) s = line_ends i (split_inclusive cur s)"
proof (induction cur s arbitrary: i rule: split_inclusive.induct)
  case (1 cur)
  then show ?case by (cases cur rule: rev_cases) (auto simp: ends_with_newline)
next
  case (2 cur c s)
  show ?case
  proof (cases "c = newline")
    case True
    with "2.IH"(1) [OF True, of "i + length cur + 1"] show ?thesis by (simp add: ends_with_newline)
  next
    case False
    with "2.IH"(2) [OF False, of i] "2.prems" show ?thesis by simp
  qed
qed

lemma split_inclusive_lines:
  assumes "newline \<notin> set cur"
  shows "list_all terminated (butlast (split_inclusive cur s))"
    and "split_inclusive cur s \<noteq> [] \<Longrightarrow>
      terminated (last (split_inclusive cur s)) \<or> newline \<notin> set (last (split_inclusive cur s))"
    and "[] \<notin> set (split_inclusive cur s)"
  using assms
  by (induction cur s rule: split_inclusive.induct) (auto simp: terminated_def)

lemma split_inclusive_Nil_iff: "split_inclusive cur s = [] \<longleftrightarrow> cur = [] \<and> s = []"
  by (induction cur s rule: split_inclusive.induct) auto

lemma split_inclusive_line:
  "newline \<notin> set b \<Longrightarrow> split_inclusive cur (b @ newline # s) = (cur @ b @ [newline]) # split_inclusive [] s"
  by (induction b arbitrary: cur) auto

lemma split_inclusive_terminated:
  "list_all terminated ls \<Longrightarrow> split_inclusive [] (concat ls @ t) = ls @ split_inclusive [] t"
  by (induction ls) (auto simp: terminated_def split_inclusive_line)

lemma terminated_ends: "terminated l \<Longrightarrow> ends_with l [newline]"
  by (auto simp: terminated_def ends_with_newline)

lemma line_ends_nth:
  assumes "list_all terminated (butlast ls)"
  shows "length (line_ends i ls) = (if ls = [] then 0 else if ends_with (last ls) [newline] then length ls else length ls - 1)"
    and "k < length (line_ends i ls) \<Longrightarrow> line_ends i ls ! k = i + length (concat (take (Suc k) ls))"
proof -
  show "length (line_ends i ls) = (if ls = [] then 0 else if ends_with (last ls) [newline] then length ls else length ls - 1)"
    using assms by (induction i ls rule: line_ends.induct) (auto simp: terminated_ends split: if_splits)
  show "k < length (line_ends i ls) \<Longrightarrow> line_ends i ls ! k = i + length (concat (take (Suc k) ls))"
    using assms
  proof (induction i ls arbitrary: k rule: line_ends.induct)
    case (2 i l ls)
    then show ?case by (cases k; cases ls) (auto split: if_splits)
  qed simp
qed

lemma file_lines_facts:
  "concat (file_lines content) = content" "file_lines content \<noteq> []"
  "list_all terminated (butlast (file_lines content))"
  by (auto simp: file_lines_def concat_split_inclusive split_inclusive_Nil_iff split_inclusive_lines)

lemma line_starts_lines: "line_starts content = 0 # line_ends 0 (file_lines content)"
  using newline_ends_lines [of "[]" 0 content] by (auto simp: line_starts_def file_lines_def ends_with_def)

lemma ends_with_last_line: "ends_with content [newline] \<longleftrightarrow> ends_with (last (file_lines content)) [newline]"
proof (cases "content = []")
  case False
  then have "file_lines content = split_inclusive [] content" "split_inclusive [] content \<noteq> []"
    by (simp_all add: file_lines_def split_inclusive_Nil_iff)
  moreover from this(2) have "last (split_inclusive [] content) \<noteq> []"
    using split_inclusive_lines(3) [of "[]" content] by (metis empty_iff empty_set last_in_set)
  moreover have "content = concat (butlast (file_lines content)) @ last (file_lines content)"
    by (metis append_butlast_last_id concat.simps concat_append append_Nil2 file_lines_facts(1,2))
  ultimately show ?thesis using False by (auto simp: ends_with_newline) (metis last_appendR)+
qed (simp add: file_lines_def)

lemma line_count_lines: "line_count content = length (file_lines content)"
  using line_ends_nth(1) [OF file_lines_facts(3) [of content], of 0] file_lines_facts(2) [of content]
  by (cases "ends_with (last (file_lines content)) [newline]")
    (simp_all add: line_count_def line_starts_lines ends_with_last_line [of content])

lemma line_starts_nth:
  assumes "k < length (line_starts content)"
  shows "line_starts content ! k = length (concat (take k (file_lines content)))"
  using assms line_ends_nth(2) [OF file_lines_facts(3) [of content], of _ 0]
  by (cases k) (auto simp: line_starts_lines)

lemma line_stop:
  assumes "k \<le> line_count content"
  shows "(if k < length (line_starts content) then line_starts content ! k else length content) =
    length (concat (take k (file_lines content)))"
proof (cases "k < length (line_starts content)")
  case False
  with assms have "k = length (file_lines content)"
    using line_ends_nth(1) [OF file_lines_facts(3) [of content], of 0] file_lines_facts(2) [of content]
    by (auto simp: line_starts_lines line_count_lines split: if_splits)
  with False show ?thesis by (simp add: file_lines_facts(1))
qed (simp add: line_starts_nth)

subsection \<open>One edit\<close>

definition edit_range :: "FileEdit \<Rightarrow> nat \<times> nat" where
  "edit_range e = (the (fe_start_line e), the (fe_end_line e))"

lemma concat_take_drop:
  assumes "a \<le> b"
  shows "take (length (concat (take b ls)) - length (concat (take a ls))) (drop (length (concat (take a ls))) (concat ls)) =
    concat (drop a (take b ls))"
    and "take (length (concat (take a ls))) (concat ls) = concat (take a ls)"
    and "drop (length (concat (take b ls))) (concat ls) = concat (drop b ls)"
proof -
  have b: "concat ls = concat (take b ls) @ concat (drop b ls)" for b
    by (metis append_take_drop_id concat_append)
  have a: "concat (take b ls) = concat (take a ls) @ concat (drop a (take b ls))"
    using assms by (metis append_take_drop_id concat_append min_def take_take)
  show "take (length (concat (take a ls))) (concat ls) = concat (take a ls)"
    "drop (length (concat (take b ls))) (concat ls) = concat (drop b ls)"
    by (subst b [of a], simp) (subst b [of b], simp)
  show "take (length (concat (take b ls)) - length (concat (take a ls))) (drop (length (concat (take a ls))) (concat ls)) =
    concat (drop a (take b ls))"
    using a b [of b] by simp
qed

lemma line_edit_Ok:
  assumes "line_mode e" and "edit_range e = (s, t)"
  shows "line_edit (content, previous) e = Inr st \<longleftrightarrow>
    1 \<le> s \<and> s \<le> t \<and> t \<le> length (file_lines content) \<and> t < previous \<and>
    st = (concat (take (s - 1) (file_lines content)) @
          adjusted_replacement (concat (drop (s - 1) (take t (file_lines content)))) (fe_new_text e) @
          concat (drop t (file_lines content)), s)"
proof -
  let ?ls = "file_lines content"
  from assms have st: "fe_start_line e = Some s" "fe_end_line e = Some t"
    by (auto simp: line_mode_def edit_range_def)
  show ?thesis
  proof (cases "1 \<le> s \<and> s \<le> t \<and> t \<le> length ?ls \<and> t < previous")
    case True
    have "s - 1 < length (line_starts content)"
      using True line_ends_nth(1) [OF file_lines_facts(3) [of content], of 0]
      by (auto simp: line_starts_lines split: if_splits)
    note start = line_starts_nth [OF this, unfolded One_nat_def]
    have stop: "(if t < length (line_starts content) then line_starts content ! t else length content) =
        length (concat (take t ?ls))"
      using True by (intro line_stop) (simp add: line_count_lines)
    have le: "s - 1 \<le> t" using True by linarith
    from True concat_take_drop [OF le, of ?ls] show ?thesis
      by (auto simp: line_edit_def st Let_def start stop line_count_lines replace_range_def file_lines_facts(1))
  qed (auto simp: line_edit_def st Let_def line_count_lines)
qed

subsection \<open>Several edits\<close>

text \<open>The edits in descending order, each inside the lines before the previous one; and the text in
  which each range is replaced while every other line is kept.  All ranges refer to the lines of the
  file before the edits.\<close>

fun ranges_ok :: "nat \<Rightarrow> FileEdit list \<Rightarrow> bool" where
  "ranges_ok p [] = True"
| "ranges_ok p (e # es) =
     (case edit_range e of (s, t) \<Rightarrow> 1 \<le> s \<and> s \<le> t \<and> t \<le> p \<and> ranges_ok (s - 1) es)"

fun splice :: "string list \<Rightarrow> nat \<Rightarrow> FileEdit list \<Rightarrow> string" where
  "splice ls p [] = concat (take p ls)"
| "splice ls p (e # es) =
     (case edit_range e of (s, t) \<Rightarrow>
        splice ls (s - 1) es @ adjusted_replacement (concat (drop (s - 1) (take t ls))) (fe_new_text e)
        @ concat (drop t (take p ls)))"

lemma file_lines_prefix:
  assumes "list_all terminated (take p ls)" and "0 < p" and "p \<le> length ls"
  shows "file_lines (concat (take p ls) @ t) = take p ls @ split_inclusive [] t"
proof -
  from assms(2,3) obtain x xs where x: "take p ls = x # xs" by (cases "take p ls") auto
  with assms(1) have "x \<noteq> []" by (auto simp: terminated_def)
  with x split_inclusive_terminated [OF assms(1), of t] show ?thesis by (simp add: file_lines_def)
qed

lemma line_edits_rest:
  assumes "list_all line_mode es" and "list_all terminated (take p ls)" and "p \<le> length ls"
  shows "(\<exists>st. try_fold line_edit (concat (take p ls) @ tail, Suc p) es = Inr (r, st)) \<longleftrightarrow>
    ranges_ok p es \<and> r = splice ls p es @ tail"
  using assms
proof (induction es arbitrary: p tail)
  case Nil
  then show ?case by auto
next
  case (Cons e es)
  obtain s t where st: "edit_range e = (s, t)" by (cases "edit_range e")
  let ?c = "concat (take p ls) @ tail"
  have edit: "line_edit (?c, Suc p) e = Inr x \<longleftrightarrow> 1 \<le> s \<and> s \<le> t \<and> t \<le> length (file_lines ?c) \<and> t < Suc p \<and>
      x = (concat (take (s - 1) (file_lines ?c)) @
          adjusted_replacement (concat (drop (s - 1) (take t (file_lines ?c)))) (fe_new_text e) @
          concat (drop t (file_lines ?c)), s)" for x
    using Cons.prems(1) by (intro line_edit_Ok [OF _ st]) simp
  show ?case
  proof (cases "1 \<le> s \<and> s \<le> t \<and> t \<le> p")
    case False
    then have "\<nexists>x. line_edit (?c, Suc p) e = Inr x" by (auto simp: edit)
    then have "\<nexists>y. try_fold line_edit (?c, Suc p) (e # es) = Inr y" by (auto split: sum.splits)
    with False show ?thesis by (auto simp: st)
  next
    case True
    then have "0 < p" by linarith
    note lines = file_lines_prefix [OF Cons.prems(2) this Cons.prems(3), of tail]
    let ?tail = "adjusted_replacement (concat (drop (s - 1) (take t ls))) (fe_new_text e) @ concat (drop t (take p ls)) @ tail"
    from True have le: "s - 1 \<le> p" "s - 1 \<le> length (take p ls)" "t \<le> length (take p ls)" "Suc (s - 1) = s"
      using Cons.prems(3) by auto
    have "take (s - 1) (file_lines ?c) = take (s - 1) ls" "take t (file_lines ?c) = take t ls"
      "concat (drop t (file_lines ?c)) = concat (drop t (take p ls)) @ tail"
      using True le by (simp_all add: lines min_def concat_split_inclusive)
    moreover have "t \<le> length (file_lines ?c)" using le(3) by (simp only: lines length_append trans_le_add1)
    ultimately have "line_edit (?c, Suc p) e = Inr (concat (take (s - 1) ls) @ ?tail, s)"
      using True by (simp add: edit)
    moreover have "list_all terminated (take (s - 1) ls)"
      using Cons.prems(2) le(1) by (metis min_def list_all_append append_take_drop_id take_take)
    ultimately show ?thesis
      using True Cons.IH [of "s - 1" ?tail] Cons.prems(1,3) le by (simp add: st)
  qed
qed

lemma length_file_lines: "length (file_lines content) \<le> Suc (length content)"
proof -
  have "length ls \<le> length (concat ls)" if "[] \<notin> set ls" for ls :: "string list"
    using that
  proof (induction ls)
    case (Cons l ls)
    then show ?case by (cases l) auto
  qed simp
  from this [of "split_inclusive [] content"] show ?thesis
    using split_inclusive_lines(3) [of "[]" content] by (auto simp: file_lines_def concat_split_inclusive)
qed

text \<open>C36: Line range edits replace exactly their lines.  A list of line edits succeeds if and only if,
  from the last range to the first, every range is one-based, ordered, inside the file and disjoint
  from the one after it; the result is then the splice: every range of lines of the original file is
  replaced by its new text (with a line feed added when the replaced lines ended in one and the new
  text does not), and all other lines are kept, in order, whatever the order of the edits was and
  however many lines the replacements have.\<close>

theorem line_edits_are_splices:
  assumes "list_all line_mode edits" and "edits \<noteq> []" and "length content < 2 ^ 63"
  shows "apply_file_edits content edits = Ok r \<longleftrightarrow>
    (let ls = file_lines content; es = sort_by later_first edits in
     ranges_ok (length ls) es \<and> r = splice ls (length ls) es)"
proof -
  let ?ls = "file_lines content"
  let ?es = "sort_by later_first edits"
  have m: "list_all line_mode ?es" using assms(1) by (simp add: list_all_iff)
  have "length ?es = length edits" by simp
  with assms(2) obtain e es where es: "?es = e # es" by (cases ?es) auto
  obtain s t where st: "edit_range e = (s, t)" by (cases "edit_range e")
  have "\<not> list_all exact_mode edits"
    using assms(1,2) by (cases edits) (auto simp: line_mode_def exact_mode_def)
  then have "apply_file_edits content edits = Inr r \<longleftrightarrow> (\<exists>n. try_fold line_edit (content, usize_top) (e # es) = Inr (r, n))"
    using assms(1) by (auto simp: apply_file_edits_def es)
  also have "\<dots> \<longleftrightarrow> ranges_ok (length ?ls) (e # es) \<and> r = splice ?ls (length ?ls) (e # es)"
  proof (cases "1 \<le> s \<and> s \<le> t \<and> t \<le> length ?ls")
    case True
    have "t < usize_top"
      using True length_file_lines [of content] assms(3) by (simp add: usize_top_def)
    then have "line_edit (content, usize_top) e = Inr (concat (take (s - 1) ?ls) @
        adjusted_replacement (concat (drop (s - 1) (take t ?ls))) (fe_new_text e) @ concat (drop t ?ls), Suc (s - 1))"
      using m True by (simp add: line_edit_Ok [OF _ st] es)
    moreover have "list_all terminated (take (s - 1) ?ls)"
    proof -
      have "s - 1 < length ?ls" using True by linarith
      then have "take (s - 1) ?ls = take (s - 1) (butlast ?ls)" by (simp add: take_butlast)
      then show ?thesis using file_lines_facts(3) [of content] by (metis append_take_drop_id list_all_append)
    qed
    moreover have "s - 1 \<le> length ?ls" "list_all line_mode es" using True m by (auto simp: es)
    ultimately show ?thesis
      using True line_edits_rest [of es "s - 1" ?ls] by (simp add: st)
  next
    case False
    then have "\<nexists>x. line_edit (content, usize_top) e = Inr x" using m by (auto simp: line_edit_Ok [OF _ st] es)
    then have "\<nexists>y. try_fold line_edit (content, usize_top) (e # es) = Inr y" by (auto split: sum.splits)
    with False show ?thesis by (auto simp: st)
  qed
  finally show ?thesis by (simp add: Let_def es)
qed

definition demo_line_edit :: "nat \<Rightarrow> nat \<Rightarrow> string \<Rightarrow> FileEdit" where
  "demo_line_edit s t new = \<lparr>fe_old_text = None, fe_start_line = Some s, fe_end_line = Some t, fe_new_text = new, fe_patch_hunk = False\<rparr>"

theorem line_edits_are_splices_witness:
  "apply_file_edits (''a'' @ [newline] @ ''b'' @ [newline] @ ''c'') [demo_line_edit 1 1 ''x'', demo_line_edit 3 3 ''y''] =
     Ok (''x'' @ [newline] @ ''b'' @ [newline] @ ''y'')"
proof -
  let ?c = "''a'' @ [newline] @ ''b'' @ [newline] @ ''c''"
  let ?edits = "[demo_line_edit 1 1 ''x'', demo_line_edit 3 3 ''y'']"
  have m: "list_all line_mode ?edits" by (simp add: line_mode_def demo_line_edit_def)
  have "ranges_ok (length (file_lines ?c)) (sort_by later_first ?edits)" by code_simp
  moreover have "splice (file_lines ?c) (length (file_lines ?c)) (sort_by later_first ?edits) =
      ''x'' @ [newline] @ ''b'' @ [newline] @ ''y''" by code_simp
  ultimately show ?thesis
    using line_edits_are_splices [OF m, of ?c] by (simp add: Let_def)
qed

end
