(* ===== verification/Sensitive_Codec.thy ===== *)
theory Sensitive_Codec
  imports Protocol_Types Rust_Path File_Edit
begin

text \<open>
  The codec of sensitive columns, \<open>SensitiveCodec\<close> of \<open>crates/storage/src/lib.rs\<close>: values are stored as
  they are in development, or sealed with AES-256-GCM as \<open>enc:v1:key:nonce:ciphertext\<close>, bound to the
  scope, table, record and field by the associated data.  The cipher, the base64 alphabet and the
  serialiser of the associated data are parameters.
\<close>

section \<open>Operations\<close>

type_synonym aad_tuple = "string \<times> nat \<times> Id \<times> Id \<times> string \<times> Id \<times> string"

record CipherLibrary =
  url_b64_encode :: "string \<Rightarrow> string"
  url_b64_decode :: "string \<Rightarrow> string option"
  aad_tuple_to_vec :: "aad_tuple \<Rightarrow> string"
  gcm_encrypt :: "string \<Rightarrow> string \<Rightarrow> string \<Rightarrow> string \<Rightarrow> string option"
  gcm_decrypt :: "string \<Rightarrow> string \<Rightarrow> string \<Rightarrow> string \<Rightarrow> string option"

datatype SensitiveCodec = PlaintextDevelopment | Aes256Gcm string string

fun codec_key_id :: "SensitiveCodec \<Rightarrow> string" where
  "codec_key_id PlaintextDevelopment = ''plaintext-v1''"
| "codec_key_id (Aes256Gcm key_id _) = key_id"

definition key_id_byte :: "char \<Rightarrow> bool" where
  "key_id_byte b = (is_ascii_alphanumeric b \<or> b = CHR ''-'' \<or> b = CHR ''_'')"

definition codec_encrypted :: "string \<Rightarrow> string \<Rightarrow> StorageError + SensitiveCodec" where
  "codec_encrypted key_id key =
     (if key_id = [] \<or> length key_id > 128 \<or> \<not> list_all key_id_byte key_id
      then Err (SE_Encryption ''invalid key id'')
      else if length key \<noteq> 32 then Err (SE_Encryption ''AES-256-GCM key must be 32 bytes'')
      else Ok (Aes256Gcm key_id key))"

definition codec_aad :: "CipherLibrary \<Rightarrow> Scope \<Rightarrow> string \<Rightarrow> Id \<Rightarrow> string \<Rightarrow> string" where
  "codec_aad L scope table record_id field =
     aad_tuple_to_vec L (''s-code'', 1, sc_organization_id scope, sc_team_id scope, table, record_id, field)"

text \<open>The nonce is what the random generator delivers, \<^const>\<open>None\<close> when it fails.\<close>

definition seal :: "CipherLibrary \<Rightarrow> SensitiveCodec \<Rightarrow> string option \<Rightarrow> Scope \<Rightarrow> string \<Rightarrow> Id \<Rightarrow> string \<Rightarrow>
    string \<Rightarrow> StorageError + string" where
  "seal L codec random scope table record_id field v =
     (case codec of
        PlaintextDevelopment \<Rightarrow> Ok v
      | Aes256Gcm key_id key \<Rightarrow>
          (case random of
             None \<Rightarrow> Err (SE_Encryption ''secure nonce generation failed'')
           | Some nonce \<Rightarrow>
               (case gcm_encrypt L key nonce (codec_aad L scope table record_id field) v of
                  None \<Rightarrow> Err (SE_Encryption ''AES-GCM encryption failed'')
                | Some ciphertext \<Rightarrow>
                    Ok (''enc:v1:'' @ key_id @ '':'' @ url_b64_encode L nonce @ '':'' @ url_b64_encode L ciphertext))))"

text \<open>The n-th part of a split, \<open>parts.next().unwrap_or_default()\<close> for the n-th call.\<close>

definition part_at :: "string list \<Rightarrow> nat \<Rightarrow> string" where
  "part_at parts n = (if n < length parts then parts ! n else [])"

definition open_sealed :: "CipherLibrary \<Rightarrow> SensitiveCodec \<Rightarrow> Scope \<Rightarrow> string \<Rightarrow> Id \<Rightarrow> string \<Rightarrow>
    string \<Rightarrow> StorageError + string" where
  "open_sealed L codec scope table record_id field v =
     (case codec of
        PlaintextDevelopment \<Rightarrow> Ok v
      | Aes256Gcm key_id key \<Rightarrow>
          if \<not> valid_utf8 v then Err (SE_Encryption ''ciphertext is not UTF-8'')
          else
            let parts = split_char (CHR '':'') v in
            if length parts < 3 \<or> parts ! 0 \<noteq> ''enc'' \<or> parts ! 1 \<noteq> ''v1'' \<or> parts ! 2 \<noteq> key_id
            then Err (SE_Encryption ''plaintext, unknown key, or malformed ciphertext encountered'')
            else
              (case url_b64_decode L (part_at parts 3) of
                 None \<Rightarrow> Err (SE_Encryption ''invalid nonce'')
               | Some nonce \<Rightarrow>
                   (case url_b64_decode L (part_at parts 4) of
                      None \<Rightarrow> Err (SE_Encryption ''invalid ciphertext'')
                    | Some ciphertext \<Rightarrow>
                        if length parts > 5 \<or> length nonce \<noteq> 12
                        then Err (SE_Encryption ''malformed ciphertext envelope'')
                        else ok_or (gcm_decrypt L key nonce (codec_aad L scope table record_id field) ciphertext)
                               (SE_Encryption ''ciphertext authentication failed''))))"

definition seal_text :: "CipherLibrary \<Rightarrow> SensitiveCodec \<Rightarrow> string option \<Rightarrow> Scope \<Rightarrow> string \<Rightarrow> Id \<Rightarrow> string \<Rightarrow>
    string \<Rightarrow> StorageError + string" where
  "seal_text L codec random scope table record_id field v =
     and_then (seal L codec random scope table record_id field v) (\<lambda>s.
       if valid_utf8 s then Ok s else Err (SE_Encryption ''encrypted value is not UTF-8''))"

definition open_text :: "CipherLibrary \<Rightarrow> SensitiveCodec \<Rightarrow> Scope \<Rightarrow> string \<Rightarrow> Id \<Rightarrow> string \<Rightarrow>
    string \<Rightarrow> StorageError + string" where
  "open_text L codec scope table record_id field v =
     and_then (open_sealed L codec scope table record_id field v) (\<lambda>s.
       if valid_utf8 s then Ok s else Err (SE_Encryption ''decrypted value is not UTF-8''))"

section \<open>Laws of the parameters\<close>

text \<open>URL-safe base64 without padding decodes what it encodes, its alphabet is plain ASCII without a
  colon, and the empty text is the empty value.\<close>

definition url_alphabet :: "char \<Rightarrow> bool" where
  "url_alphabet c = key_id_byte c"

definition url_b64_law :: "CipherLibrary \<Rightarrow> bool" where
  "url_b64_law L \<longleftrightarrow>
     url_b64_decode L [] = Some [] \<and>
     (\<forall>s. url_b64_decode L (url_b64_encode L s) = Some s \<and> list_all url_alphabet (url_b64_encode L s))"

text \<open>AES-GCM opens what it sealed with the same key, nonce and associated data.\<close>

definition gcm_law :: "CipherLibrary \<Rightarrow> bool" where
  "gcm_law L \<longleftrightarrow>
     (\<forall>key nonce aad m c. gcm_encrypt L key nonce aad m = Some c \<longrightarrow> gcm_decrypt L key nonce aad c = Some m)"

fun codec_ok :: "SensitiveCodec \<Rightarrow> bool" where
  "codec_ok PlaintextDevelopment = True"
| "codec_ok (Aes256Gcm key_id key) = list_all key_id_byte key_id"

lemma codec_encrypted_ok: "codec_encrypted key_id key = Ok codec \<Longrightarrow> codec_ok codec"
  by (auto simp: codec_encrypted_def split: if_splits)

lemma key_id_byte_plain: "key_id_byte b \<Longrightarrow> b \<noteq> CHR '':'' \<and> byte b < 0x80"
  by (auto simp: key_id_byte_def is_ascii_alphanumeric_def is_ascii_alphabetic_def is_ascii_uppercase_def
      is_ascii_lowercase_def is_ascii_digit_def)

lemma no_colon: "list_all key_id_byte s \<Longrightarrow> CHR '':'' \<notin> set s"
  using key_id_byte_plain by (fastforce simp: list_all_iff)

lemma ascii_key: "list_all key_id_byte s \<Longrightarrow> list_all (\<lambda>c. byte c < 0x80) s"
  using key_id_byte_plain by (simp add: list_all_iff)

lemma split_envelope:
  assumes "list_all key_id_byte k" "list_all key_id_byte n" "list_all key_id_byte c"
  shows "split_char (CHR '':'') (''enc:v1:'' @ k @ '':'' @ n @ '':'' @ c) = [''enc'', ''v1'', k, n, c]"
    "valid_utf8 (''enc:v1:'' @ k @ '':'' @ n @ '':'' @ c)"
proof -
  have "split_char (CHR '':'') (join '':'' [''enc'', ''v1'', k, n, c]) = [''enc'', ''v1'', k, n, c]"
    using assms no_colon by (intro split_char_join) auto
  then show "split_char (CHR '':'') (''enc:v1:'' @ k @ '':'' @ n @ '':'' @ c) = [''enc'', ''v1'', k, n, c]" by simp
  show "valid_utf8 (''enc:v1:'' @ k @ '':'' @ n @ '':'' @ c)"
    by (rule valid_utf8_ascii) (use assms ascii_key in simp)
qed

lemma seal_opens:
  assumes "url_b64_law L" "gcm_law L" "codec_ok codec" "\<forall>n. random = Some n \<longrightarrow> length n = 12"
    and "seal L codec random scope table rid field v = Ok s"
  shows "open_sealed L codec scope table rid field s = Ok v"
proof (cases codec)
  case PlaintextDevelopment
  then show ?thesis using assms(5) by (simp add: seal_def open_sealed_def)
next
  case (Aes256Gcm key_id key)
  with assms(5) obtain nonce c where n: "random = Some nonce"
    "gcm_encrypt L key nonce (codec_aad L scope table rid field) v = Some c"
    "s = ''enc:v1:'' @ key_id @ '':'' @ url_b64_encode L nonce @ '':'' @ url_b64_encode L c"
    by (auto simp: seal_def split: option.splits)
  have k: "list_all key_id_byte key_id" "list_all key_id_byte (url_b64_encode L nonce)" "list_all key_id_byte (url_b64_encode L c)"
    using assms(1,3) Aes256Gcm by (simp_all add: url_b64_law_def url_alphabet_def [abs_def])
  from n(2) assms(2) have d: "gcm_decrypt L key nonce (codec_aad L scope table rid field) c = Some v"
    by (auto simp: gcm_law_def)
  show ?thesis
    unfolding open_sealed_def Aes256Gcm SensitiveCodec.case n(3) Let_def split_envelope(1) [OF k]
    using split_envelope(2) [OF k] assms(1,4) n(1) d
    by (simp add: url_b64_law_def part_at_def ok_or_def)
qed

section \<open>Properties\<close>

lemma open_sealed_Ok_iff:
  assumes "url_b64_law L"
  shows "open_sealed L (Aes256Gcm key_id key) scope table rid field stored = Ok m \<longleftrightarrow>
    valid_utf8 stored \<and>
    (\<exists>p rest n c. split_char (CHR '':'') stored = ''enc'' # ''v1'' # key_id # p # rest \<and> length rest \<le> 1 \<and>
       url_b64_decode L p = Some n \<and> length n = 12 \<and> url_b64_decode L (part_at rest 0) = Some c \<and>
       gcm_decrypt L key n (codec_aad L scope table rid field) c = Some m)"
proof -
  let ?ps = "split_char (CHR '':'') stored"
  have e: "url_b64_decode L [] = Some []" using assms by (simp add: url_b64_law_def)
  consider "length ?ps < 3" | a b c where "?ps = [a, b, c]" | a b c d rest where "?ps = a # b # c # d # rest"
  proof (cases "length ?ps < 3")
    case False
    then obtain a b c rest where r: "?ps = a # b # c # rest"
      by (cases ?ps; cases "tl ?ps"; cases "tl (tl ?ps)") auto
    then show thesis using that(2,3) by (cases rest) blast+
  qed (use that in blast)
  then show ?thesis
  proof cases
    case 1
    then show ?thesis by (auto simp: open_sealed_def)
  next
    case 2
    then show ?thesis by (auto simp: open_sealed_def Let_def part_at_def e split: option.splits if_splits)
  next
    case 3
    then show ?thesis
      by (auto simp: open_sealed_def Let_def part_at_def ok_or_def split: option.splits if_splits)
  qed
qed

text \<open>Sealed values round-trip and nothing else is opened.  A value sealed by an encrypting codec is
  opened under the same scope, table, record and field to the value that was sealed.  A stored value is
  opened exactly when it is an envelope of version 1 with the codec's own key identifier, a nonce of 12
  bytes and at most one further part, and the cipher accepts its ciphertext under the associated data
  of that place; so a plaintext row, a row sealed under another key and an extended envelope are
  refused.\<close>

theorem sealed_values_roundtrip:
  assumes "url_b64_law L" and "gcm_law L" and "codec_encrypted key_id key = Ok codec" and "length nonce = 12"
  shows "(\<forall>s. seal L codec (Some nonce) scope table rid field v = Ok s \<longrightarrow>
            open_sealed L codec scope table rid field s = Ok v) \<and>
    (open_sealed L codec scope table rid field stored = Ok m \<longleftrightarrow>
       valid_utf8 stored \<and>
       (\<exists>p rest n c. split_char (CHR '':'') stored = ''enc'' # ''v1'' # key_id # p # rest \<and> length rest \<le> 1 \<and>
          url_b64_decode L p = Some n \<and> length n = 12 \<and> url_b64_decode L (part_at rest 0) = Some c \<and>
          gcm_decrypt L key n (codec_aad L scope table rid field) c = Some m))"
proof -
  have c: "codec = Aes256Gcm key_id key" using assms(3) by (auto simp: codec_encrypted_def split: if_splits)
  have "open_sealed L codec scope table rid field s = Ok v"
    if "seal L codec (Some nonce) scope table rid field v = Ok s" for s
    using seal_opens [OF assms(1,2) codec_encrypted_ok [OF assms(3)] _ that] assms(4) by simp
  then show ?thesis using open_sealed_Ok_iff [OF assms(1)] c by blast
qed

text \<open>A cipher that appends the associated data, and an encoding of bytes as pairs of letters.\<close>

definition demo_letters :: "string \<Rightarrow> string" where
  "demo_letters s = concat (map (\<lambda>b. [char_of (97 + byte b div 16), char_of (97 + byte b mod 16)]) s)"

fun demo_unletters :: "string \<Rightarrow> string option" where
  "demo_unletters [] = Some []"
| "demo_unletters [a] = None"
| "demo_unletters (a # b # s) =
     map_option ((#) (char_of ((byte a - 97) * 16 + (byte b - 97)))) (demo_unletters s)"

definition demo_cipher :: CipherLibrary where
  "demo_cipher =
     \<lparr>url_b64_encode = demo_letters, url_b64_decode = demo_unletters,
      aad_tuple_to_vec = (\<lambda>(a, n, b, c, d, e, f). a @ b @ c @ d @ e @ f),
      gcm_encrypt = (\<lambda>key nonce aad m. Some (aad @ m)),
      gcm_decrypt = (\<lambda>key nonce aad c. strip_prefix c aad)\<rparr>"

lemma demo_nibble: "n < 16 \<Longrightarrow> byte (char_of (97 + n)) = 97 + n" for n :: nat
  by simp

lemma demo_letters_law: "demo_unletters (demo_letters s) = Some s \<and> list_all url_alphabet (demo_letters s)"
proof (induction s)
  case Nil
  then show ?case by (simp add: demo_letters_def)
next
  case (Cons b s)
  have n: "byte b div 16 < 16" "byte b mod 16 < 16"
    using of_char_mod_256 [of b, where 'a = nat] by (simp_all add: less_mult_imp_div_less)
  have "demo_letters (b # s) = char_of (97 + byte b div 16) # char_of (97 + byte b mod 16) # demo_letters s"
    by (simp add: demo_letters_def)
  moreover have "url_alphabet (char_of (97 + k))" if "k < 16" for k :: nat
    using demo_nibble [OF that] that
    by (simp add: url_alphabet_def key_id_byte_def is_ascii_alphanumeric_def is_ascii_alphabetic_def is_ascii_lowercase_def)
  ultimately show ?case using Cons n demo_nibble by simp
qed

lemma demo_cipher_laws: "url_b64_law demo_cipher" "gcm_law demo_cipher"
  using demo_letters_law by (simp_all add: url_b64_law_def gcm_law_def demo_cipher_def)

abbreviation demo_scope :: Scope where
  "demo_scope \<equiv> \<lparr>sc_organization_id = ''o'', sc_team_id = ''t'', sc_actor_id = ''a'', sc_goal_id = None, sc_task_id = None\<rparr>"

theorem sealed_values_roundtrip_witness:
  "\<exists>s. seal demo_cipher (Aes256Gcm ''k1'' (replicate 32 (CHR ''x''))) (Some ''abcdefghijkl'') demo_scope ''messages'' ''m1'' ''body'' ''hi'' = Ok s
     \<and> open_sealed demo_cipher (Aes256Gcm ''k1'' (replicate 32 (CHR ''x''))) demo_scope ''messages'' ''m1'' ''body'' s = Ok ''hi''
     \<and> (\<forall>m. open_sealed demo_cipher (Aes256Gcm ''k1'' (replicate 32 (CHR ''x''))) demo_scope ''messages'' ''m1'' ''body'' ''hi'' \<noteq> Ok m)"
proof -
  let ?key = "replicate 32 (CHR ''x'')"
  have c: "codec_encrypted ''k1'' ?key = Ok (Aes256Gcm ''k1'' ?key)" by (simp add: codec_encrypted_def) code_simp
  obtain s where s: "seal demo_cipher (Aes256Gcm ''k1'' ?key) (Some ''abcdefghijkl'') demo_scope ''messages'' ''m1'' ''body'' ''hi'' = Ok s"
    by (simp add: seal_def demo_cipher_def)
  note law = sealed_values_roundtrip [OF demo_cipher_laws c, of "''abcdefghijkl''"]
  have "open_sealed demo_cipher (Aes256Gcm ''k1'' ?key) demo_scope ''messages'' ''m1'' ''body'' ''hi'' \<noteq> Ok m" for m
    using law [of demo_scope "''messages''" "''m1''" "''body''" _ "''hi''" m] by simp
  moreover have "open_sealed demo_cipher (Aes256Gcm ''k1'' ?key) demo_scope ''messages'' ''m1'' ''body'' s = Ok ''hi''"
    using law [of demo_scope "''messages''" "''m1''" "''body''" "''hi''" s "''hi''"] s by simp
  ultimately show ?thesis using s by blast
qed

end
