(* ===== verification/Keyed_State.thy ===== *)
theory Keyed_State
  imports SC_Prelude
begin

text \<open>
  The interface of a state that is read by keys and changed one key at a time.  A client that keeps a
  property of every key only has to look at the key an operation changes.
\<close>

locale keyed_state =
  fixes lookup :: "'state \<Rightarrow> 'key \<Rightarrow> 'entry"
    and changed :: "'key \<Rightarrow> 'state \<Rightarrow> 'state \<Rightarrow> bool"
  assumes frame: "changed k s s' \<Longrightarrow> k' \<noteq> k \<Longrightarrow> lookup s' k' = lookup s k'"
begin

lemma all_keys:
  assumes "changed k s s'" and "\<forall>k'. P k' (lookup s k')" and "P k (lookup s' k)"
  shows "\<forall>k'. P k' (lookup s' k')"
proof
  fix k'
  show "P k' (lookup s' k')" using assms frame [OF assms(1), of k'] by (cases "k' = k") auto
qed

lemma other_key: "changed k s s' \<Longrightarrow> k' \<noteq> k \<Longrightarrow> P (lookup s' k') \<longleftrightarrow> P (lookup s k')"
  using frame by simp

end

end
