(* ===== verification/Turn_Changes.thy ===== *)
theory Turn_Changes
  imports Sensitive_Codec Turn_Machine Keyed_State
begin

text \<open>
  The ledger of file changes per turn, \<open>crates/storage/src/lib.rs\<close>: a planned change is recorded with
  its sealed before-image before the file is written, then completed or aborted, and marked undone when
  the turn is undone.  What the database does with a transaction is an input of every call: it commits,
  it is rejected and changes nothing, or it commits although the caller sees an error.
\<close>

section \<open>Data\<close>

record Turn =
  tn_id :: Id
  tn_session_id :: Id
  tn_scope :: Scope
  tn_status :: TurnStatus
  tn_checkpoint :: "json option"
  tn_error_code :: "string option"
  tn_started_at :: Timestamp
  tn_updated_at :: Timestamp
  tn_completed_at :: "Timestamp option"
  tn_tool_profile :: "string option"

text \<open>A row of the table \<open>turn_file_changes\<close>; its primary key is the turn and the path.\<close>

record ChangeRow =
  cr_turn_id :: Id
  cr_session_id :: Id
  cr_path :: string
  cr_before_exists :: bool
  cr_before_content :: "string option"
  cr_before_sha256 :: "string option"
  cr_after_sha256 :: string
  cr_previous_after_sha256 :: "string option"
  cr_state :: string
  cr_operation_id :: "Id option"
  cr_created_at :: Timestamp
  cr_updated_at :: Timestamp
  cr_undone_at :: "Timestamp option"

record TurnFileChange =
  tfc_turn_id :: Id
  tfc_session_id :: Id
  tfc_path :: string
  tfc_before_content :: "string option"
  tfc_before_sha256 :: "string option"
  tfc_after_sha256 :: string
  tfc_previous_after_sha256 :: "string option"
  tfc_state :: string

record TurnFileChangePlan =
  plan_operation_id :: Id
  plan_turn_id :: Id
  plan_path :: string
  plan_previous_after_sha256 :: "string option"
  plan_was_new :: bool

record TurnStore =
  st_turns :: "Id \<Rightarrow> Turn option"
  st_changes :: "ChangeRow list"

datatype DbOutcome = DbOk | DbRejected StorageError | DbUnconfirmed StorageError

text \<open>The environment of one call: a failing read, the outcome of the write, the generated
  identifier, the clock and the random nonce.\<close>

record LedgerCall =
  lc_read :: "StorageError option"
  lc_write :: DbOutcome
  lc_operation_id :: Id
  lc_now :: Timestamp
  lc_nonce :: "string option"

section \<open>Operations\<close>

definition ensure_team_scope :: "Scope \<Rightarrow> Scope \<Rightarrow> StorageError + unit" where
  "ensure_team_scope expected actual =
     (if sc_organization_id expected \<noteq> sc_organization_id actual \<or> sc_team_id expected \<noteq> sc_team_id actual
      then Err SE_ScopeMismatch else Ok ())"

definition ensure_actor_scope :: "Scope \<Rightarrow> Scope \<Rightarrow> StorageError + unit" where
  "ensure_actor_scope expected actual =
     and_then (ensure_team_scope expected actual) (\<lambda>_.
       if sc_actor_id expected \<noteq> sc_actor_id actual then Err SE_ScopeMismatch else Ok ())"

definition get_turn :: "LedgerCall \<Rightarrow> TurnStore \<Rightarrow> Scope \<Rightarrow> Id \<Rightarrow> StorageError + Turn" where
  "get_turn call st scope turn_id =
     (case lc_read call of
        Some e \<Rightarrow> Err e
      | None \<Rightarrow>
          and_then (ok_or (st_turns st turn_id) SE_NotFound) (\<lambda>turn.
          and_then (ensure_actor_scope (tn_scope turn) scope) (\<lambda>_. Ok turn)))"

text \<open>The end of a transaction that would change the rows and return a result.\<close>

definition settle :: "LedgerCall \<Rightarrow> TurnStore \<Rightarrow> ChangeRow list \<Rightarrow> StorageError + 'a \<Rightarrow>
    TurnStore \<times> (StorageError + 'a)" where
  "settle call st rows r =
     (case lc_write call of
        DbOk \<Rightarrow> (st\<lparr>st_changes := rows\<rparr>, r)
      | DbRejected e \<Rightarrow> (st, Err e)
      | DbUnconfirmed e \<Rightarrow> (st\<lparr>st_changes := rows\<rparr>, Err e))"

definition row_key :: "Id \<Rightarrow> string \<Rightarrow> ChangeRow \<Rightarrow> bool" where
  "row_key turn_id path row = (cr_turn_id row = turn_id \<and> cr_path row = path)"

definition update_rows :: "(ChangeRow \<Rightarrow> bool) \<Rightarrow> (ChangeRow \<Rightarrow> ChangeRow) \<Rightarrow> ChangeRow list \<Rightarrow> ChangeRow list" where
  "update_rows p f rows = map (\<lambda>row. if p row then f row else row) rows"

definition plan_turn_file_change ::
  "CipherLibrary \<Rightarrow> SensitiveCodec \<Rightarrow> LedgerCall \<Rightarrow> TurnStore \<Rightarrow> Scope \<Rightarrow> Id \<Rightarrow> string \<Rightarrow> string option \<Rightarrow>
   string option \<Rightarrow> string \<Rightarrow> TurnStore \<times> (StorageError + TurnFileChangePlan)" where
  "plan_turn_file_change L codec call st scope turn_id path before_content before_sha256 after_sha256 =
     (case get_turn call st scope turn_id of
        Inl e \<Rightarrow> (st, Err e)
      | Inr turn \<Rightarrow>
          if path = [] \<or> length after_sha256 \<noteq> 64 \<or> (before_content \<noteq> None) \<noteq> (before_sha256 \<noteq> None)
          then (st, Err (SE_InvalidData ''file change requires a path, hashes and a consistent before-image''))
          else
            let operation_id = lc_operation_id call;
                plan = (\<lambda>previous was_new.
                  \<lparr>plan_operation_id = operation_id, plan_turn_id = tn_id turn, plan_path = path,
                   plan_previous_after_sha256 = previous, plan_was_new = was_new\<rparr>)
            in (case find (row_key (tn_id turn) path) (st_changes st) of
                  Some row \<Rightarrow>
                    if cr_state row = ''undone''
                    then (st, Err (SE_InvalidState ''cannot append to an already undone Turn file change''))
                    else if cr_state row = ''planned''
                    then (st, Err (SE_InvalidState ''another file mutation is still planned''))
                    else
                      let previous = cr_after_sha256 row in
                      settle call st
                        (update_rows (row_key (tn_id turn) path)
                           (\<lambda>row. row\<lparr>cr_after_sha256 := after_sha256, cr_previous_after_sha256 := Some previous,
                              cr_state := ''planned'', cr_operation_id := Some operation_id,
                              cr_updated_at := lc_now call\<rparr>) (st_changes st))
                        (Ok (plan (Some previous) False))
                | None \<Rightarrow>
                    (case (case before_content of
                             None \<Rightarrow> Ok None
                           | Some content \<Rightarrow>
                               and_then (seal L codec (lc_nonce call) scope ''turn_file_changes'' (tn_id turn) path content)
                                 (\<lambda>sealed. Ok (Some sealed))) of
                       Inl e \<Rightarrow> (st, Err e)
                     | Inr sealed_before \<Rightarrow>
                         settle call st
                           (st_changes st @
                              [\<lparr>cr_turn_id = tn_id turn, cr_session_id = tn_session_id turn, cr_path = path,
                                cr_before_exists = (before_content \<noteq> None), cr_before_content = sealed_before,
                                cr_before_sha256 = before_sha256, cr_after_sha256 = after_sha256,
                                cr_previous_after_sha256 = None, cr_state = ''planned'',
                                cr_operation_id = Some operation_id, cr_created_at = lc_now call,
                                cr_updated_at = lc_now call, cr_undone_at = None\<rparr>])
                           (Ok (plan None True)))))"

text \<open>The rows a plan still owns.\<close>

definition plan_current :: "TurnFileChangePlan \<Rightarrow> ChangeRow \<Rightarrow> bool" where
  "plan_current plan row =
     (row_key (plan_turn_id plan) (plan_path plan) row \<and> cr_state row = ''planned''
      \<and> cr_operation_id row = Some (plan_operation_id plan))"

definition rows_affected :: "(ChangeRow \<Rightarrow> bool) \<Rightarrow> TurnStore \<Rightarrow> string \<Rightarrow> StorageError + unit" where
  "rows_affected p st message =
     (if length (filter p (st_changes st)) \<noteq> 1 then Err (SE_InvalidState message) else Ok ())"

definition complete_turn_file_change :: "LedgerCall \<Rightarrow> TurnStore \<Rightarrow> TurnFileChangePlan \<Rightarrow>
    TurnStore \<times> (StorageError + unit)" where
  "complete_turn_file_change call st plan =
     settle call st
       (update_rows (plan_current plan)
          (\<lambda>row. row\<lparr>cr_state := ''applied'', cr_operation_id := None, cr_previous_after_sha256 := None,
             cr_updated_at := lc_now call\<rparr>) (st_changes st))
       (rows_affected (plan_current plan) st ''file mutation plan is no longer current'')"

text \<open>The column \<open>after_sha256\<close> is set to the previous value of the plan, which a plan on an existing
  row has.\<close>

definition abort_turn_file_change :: "LedgerCall \<Rightarrow> TurnStore \<Rightarrow> TurnFileChangePlan \<Rightarrow>
    TurnStore \<times> (StorageError + unit)" where
  "abort_turn_file_change call st plan =
     settle call st
       (if plan_was_new plan then filter (\<lambda>row. \<not> plan_current plan row) (st_changes st)
        else
          update_rows (plan_current plan)
            (\<lambda>row. row\<lparr>cr_after_sha256 := (case plan_previous_after_sha256 plan of None \<Rightarrow> [] | Some h \<Rightarrow> h),
               cr_previous_after_sha256 := None, cr_state := ''applied'', cr_operation_id := None,
               cr_updated_at := lc_now call\<rparr>) (st_changes st))
       (rows_affected (plan_current plan) st ''file mutation plan is no longer current'')"

definition live_row :: "ChangeRow \<Rightarrow> bool" where
  "live_row row = (cr_state row = ''planned'' \<or> cr_state row = ''applied'')"

definition newer_row :: "ChangeRow \<Rightarrow> ChangeRow \<Rightarrow> bool" where
  "newer_row a b =
     (cr_updated_at a > cr_updated_at b
      \<or> (cr_updated_at a = cr_updated_at b \<and> \<not> str_less (cr_path a) (cr_path b)))"

definition row_change :: "CipherLibrary \<Rightarrow> SensitiveCodec \<Rightarrow> Scope \<Rightarrow> Id \<Rightarrow> ChangeRow \<Rightarrow> StorageError + TurnFileChange" where
  "row_change L codec scope turn_id row =
     and_then
       (case cr_before_content row of
          None \<Rightarrow> Ok None
        | Some v \<Rightarrow>
            and_then (open_sealed L codec scope ''turn_file_changes'' turn_id (cr_path row) v) (\<lambda>c. Ok (Some c)))
       (\<lambda>before_content.
          Ok \<lparr>tfc_turn_id = cr_turn_id row, tfc_session_id = cr_session_id row, tfc_path = cr_path row,
              tfc_before_content = before_content, tfc_before_sha256 = cr_before_sha256 row,
              tfc_after_sha256 = cr_after_sha256 row,
              tfc_previous_after_sha256 = cr_previous_after_sha256 row, tfc_state = cr_state row\<rparr>)"

definition list_turn_file_changes :: "CipherLibrary \<Rightarrow> SensitiveCodec \<Rightarrow> LedgerCall \<Rightarrow> TurnStore \<Rightarrow> Scope \<Rightarrow> Id \<Rightarrow>
    StorageError + TurnFileChange list" where
  "list_turn_file_changes L codec call st scope turn_id =
     and_then (get_turn call st scope turn_id) (\<lambda>_.
       try_map (row_change L codec scope turn_id)
         (sort_by newer_row (filter (\<lambda>row. cr_turn_id row = turn_id \<and> live_row row) (st_changes st))))"

definition mark_turn_file_change_undone :: "LedgerCall \<Rightarrow> TurnStore \<Rightarrow> Scope \<Rightarrow> Id \<Rightarrow> string \<Rightarrow>
    TurnStore \<times> (StorageError + unit)" where
  "mark_turn_file_change_undone call st scope turn_id path =
     (case get_turn call st scope turn_id of
        Inl e \<Rightarrow> (st, Err e)
      | Inr _ \<Rightarrow>
          let p = (\<lambda>row. row_key turn_id path row \<and> live_row row) in
          settle call st
            (update_rows p
               (\<lambda>row. row\<lparr>cr_state := ''undone'', cr_operation_id := None, cr_updated_at := lc_now call,
                  cr_undone_at := Some (lc_now call)\<rparr>) (st_changes st))
            (rows_affected p st ''Turn file change was already undone or does not exist''))"

section \<open>The ledger as a map from paths to rows\<close>

definition row_at :: "Id \<Rightarrow> TurnStore \<Rightarrow> string \<Rightarrow> ChangeRow option" where
  "row_at t st path = find (row_key t path) (st_changes st)"

text \<open>The primary key, for the rows of one turn.\<close>

definition ledger_ok :: "Id \<Rightarrow> TurnStore \<Rightarrow> bool" where
  "ledger_ok t st \<longleftrightarrow> distinct (map cr_path (filter (\<lambda>row. cr_turn_id row = t) (st_changes st)))"

definition turn_known :: "Id \<Rightarrow> Turn \<Rightarrow> TurnStore \<Rightarrow> bool" where
  "turn_known t turn st \<longleftrightarrow> st_turns st t = Some turn \<and> tn_id turn = t"

text \<open>The before-image a row holds.\<close>

definition row_image :: "CipherLibrary \<Rightarrow> SensitiveCodec \<Rightarrow> Scope \<Rightarrow> ChangeRow \<Rightarrow> StorageError + string option" where
  "row_image L codec scope row =
     (case cr_before_content row of
        None \<Rightarrow> Ok None
      | Some v \<Rightarrow>
          and_then (open_sealed L codec scope ''turn_file_changes'' (cr_turn_id row) (cr_path row) v) (\<lambda>c. Ok (Some c)))"

lemma row_image_update [simp]:
  "row_image L codec scope (row\<lparr>cr_after_sha256 := a\<rparr>) = row_image L codec scope row"
  "row_image L codec scope (row\<lparr>cr_previous_after_sha256 := b\<rparr>) = row_image L codec scope row"
  "row_image L codec scope (row\<lparr>cr_state := c\<rparr>) = row_image L codec scope row"
  "row_image L codec scope (row\<lparr>cr_operation_id := d\<rparr>) = row_image L codec scope row"
  "row_image L codec scope (row\<lparr>cr_updated_at := e\<rparr>) = row_image L codec scope row"
  "row_image L codec scope (row\<lparr>cr_undone_at := f\<rparr>) = row_image L codec scope row"
  by (simp_all add: row_image_def split: option.split)

lemma find_SomeD: "find P xs = Some x \<Longrightarrow> P x \<and> x \<in> set xs"
  by (induction xs) (auto split: if_splits)

lemma find_cong_on: "(\<And>x. x \<in> set xs \<Longrightarrow> P x = Q x) \<Longrightarrow> find P xs = find Q xs"
  by (induction xs) auto

lemma find_filter_other: "(\<And>x. P x \<Longrightarrow> Q x) \<Longrightarrow> find P (filter Q xs) = find P xs"
  by (induction xs) auto

lemma row_at_SomeD: "row_at t st p = Some row \<Longrightarrow> cr_turn_id row = t \<and> cr_path row = p \<and> row \<in> set (st_changes st)"
  by (auto simp: row_at_def row_key_def dest!: find_SomeD)

lemma row_at_None: "row_at t st p = None \<longleftrightarrow> p \<notin> cr_path ` {row \<in> set (st_changes st). cr_turn_id row = t}"
  by (auto simp: row_at_def row_key_def find_None_iff)

lemma row_at_mem:
  assumes "ledger_ok t st"
  shows "row_at t st p = Some row \<longleftrightarrow> row \<in> set (st_changes st) \<and> cr_turn_id row = t \<and> cr_path row = p"
proof -
  have "find (row_key t p) rows = Some row"
    if "distinct (map cr_path (filter (\<lambda>row. cr_turn_id row = t) rows))" "row \<in> set rows" "row_key t p row" for rows
    using that by (induction rows) (auto simp: row_key_def image_iff split: if_splits)
  then show ?thesis using assms by (auto simp: ledger_ok_def row_at_def row_key_def dest: find_SomeD)
qed

lemma find_update_rows:
  assumes "\<And>row. cr_turn_id (f row) = cr_turn_id row \<and> cr_path (f row) = cr_path row"
  shows "find (row_key t p) (update_rows P f rows) = map_option (\<lambda>row. if P row then f row else row) (find (row_key t p) rows)"
  by (induction rows) (auto simp: update_rows_def row_key_def assms)

lemma paths_update_rows:
  assumes "\<And>row. cr_turn_id (f row) = cr_turn_id row \<and> cr_path (f row) = cr_path row"
  shows "map cr_path (filter (\<lambda>row. cr_turn_id row = t) (update_rows P f rows)) = map cr_path (filter (\<lambda>row. cr_turn_id row = t) rows)"
  by (induction rows) (auto simp: update_rows_def assms)

lemma distinct_map_filter_sub: "distinct (map f (filter P xs)) \<Longrightarrow> distinct (map f (filter P (filter Q xs)))"
  by (induction xs) auto

lemma sole_key:
  assumes "distinct (map cr_path (filter (\<lambda>row. cr_turn_id row = t) rows))" and "find (row_key t p) rows = Some row" and "P row"
    and "\<And>row. P row \<Longrightarrow> row_key t p row"
  shows "find (row_key t p) (filter (\<lambda>row. \<not> P row) rows) = None" "length (filter P rows) = 1"
proof -
  have u: "r = row" if "r \<in> set rows" "row_key t p r" for r
    using row_at_mem [of t "\<lparr>st_turns = (\<lambda>_. None), st_changes = rows\<rparr>" p r] assms(1,2) that
    by (auto simp: ledger_ok_def row_at_def row_key_def)
  then show "find (row_key t p) (filter (\<lambda>row. \<not> P row) rows) = None"
    using assms(3) by (auto simp: find_None_iff)
  have "filter P rows = filter (row_key t p) rows"
    using u assms(3,4) by (intro filter_cong) auto
  moreover have "distinct (map cr_path (filter (row_key t p) rows))"
  proof -
    have "filter (row_key t p) rows = filter (row_key t p) (filter (\<lambda>row. cr_turn_id row = t) rows)"
      by (auto simp: row_key_def intro!: filter_cong)
    then show ?thesis using assms(1) distinct_map_filter by metis
  qed
  moreover have "set (filter (row_key t p) rows) = {row}"
    using u find_SomeD [OF assms(2)] by auto
  ultimately show "length (filter P rows) = 1"
    by (metis distinct_map distinct_card card_1_singleton_iff One_nat_def)
qed

section \<open>Every operation changes one row\<close>

inductive ledger_step :: "Id \<Rightarrow> string \<Rightarrow> TurnStore \<Rightarrow> TurnStore \<Rightarrow> bool" for t p st where
  Plan: "plan_turn_file_change L codec call st scope t p before_content before_sha256 after_sha256 = (st', r)
         \<Longrightarrow> ledger_step t p st st'"
| Complete: "complete_turn_file_change call st plan = (st', r) \<Longrightarrow> plan_turn_id plan = t \<Longrightarrow> plan_path plan = p
         \<Longrightarrow> ledger_step t p st st'"
| Abort: "abort_turn_file_change call st plan = (st', r) \<Longrightarrow> plan_turn_id plan = t \<Longrightarrow> plan_path plan = p
         \<Longrightarrow> ledger_step t p st st'"
| Mark: "mark_turn_file_change_undone call st scope t p = (st', r) \<Longrightarrow> ledger_step t p st st'"

lemma settle_fst: "settle call st rows r = (st', r') \<Longrightarrow> st' = st \<or> st' = st\<lparr>st_changes := rows\<rparr>"
  by (auto simp: settle_def split: DbOutcome.splits)

lemma settle_cases:
  assumes "settle call st rows r = (st', r')"
  obtains (rejected) e where "st' = st" "r' = Err e"
  | (settled) "st' = st\<lparr>st_changes := rows\<rparr>" "\<And>x. r' = Ok x \<Longrightarrow> r = Ok x"
  using assms by (cases "lc_write call") (auto simp: settle_def)

lemma settle_Ok: "settle call st rows r = (st', Inr x) \<longleftrightarrow> lc_write call = DbOk \<and> st' = st\<lparr>st_changes := rows\<rparr> \<and> r = Inr x"
  by (auto simp: settle_def split: DbOutcome.splits)

text \<open>The four shapes of a change: nothing, an update of rows of one path, a deletion of such rows, and
  the insertion of a missing row.\<close>

inductive row_change_at :: "string \<Rightarrow> ChangeRow list \<Rightarrow> ChangeRow list \<Rightarrow> bool" for p rows where
  Keep_rows: "row_change_at p rows rows"
| Update_rows: "(\<And>row. P row \<Longrightarrow> cr_path row = p) \<Longrightarrow>
     (\<And>row. cr_turn_id (f row) = cr_turn_id row \<and> cr_path (f row) = cr_path row)
     \<Longrightarrow> row_change_at p rows (update_rows P f rows)"
| Delete_rows: "(\<And>row. P row \<Longrightarrow> cr_path row = p) \<Longrightarrow> row_change_at p rows (filter (\<lambda>row. \<not> P row) rows)"
| Insert_row: "cr_path row = p \<Longrightarrow> find (row_key (cr_turn_id row) p) rows = None \<Longrightarrow> row_change_at p rows (rows @ [row])"

lemma find_append_single: "find P (xs @ [x]) = (case find P xs of Some y \<Rightarrow> Some y | None \<Rightarrow> if P x then Some x else None)"
  by (induction xs) auto

lemma row_change_frame:
  assumes "row_change_at p rows rows'" and "p' \<noteq> p"
  shows "find (row_key t p') rows' = find (row_key t p') rows"
  using assms
proof cases
  case (Update_rows P f)
  have "\<not> P row" if "find (row_key t p') rows = Some row" for row
    using find_SomeD [OF that] Update_rows(2) [of row] assms(2) by (auto simp: row_key_def)
  then show ?thesis
    unfolding Update_rows(1) find_update_rows [OF Update_rows(3)] by (cases "find (row_key t p') rows") auto
next
  case (Delete_rows P)
  then show ?thesis using assms(2) by (auto simp: row_key_def intro!: find_filter_other)
next
  case (Insert_row row)
  then show ?thesis using assms(2) by (auto simp: row_key_def find_append_single split: option.splits)
qed simp

lemma row_change_keys:
  assumes "row_change_at p rows rows'" and "distinct (map cr_path (filter (\<lambda>row. cr_turn_id row = t) rows))"
  shows "distinct (map cr_path (filter (\<lambda>row. cr_turn_id row = t) rows'))"
  using assms
proof cases
  case (Update_rows P f)
  then show ?thesis using assms(2) by (simp add: paths_update_rows)
next
  case (Delete_rows P)
  then show ?thesis using assms(2) distinct_map_filter_sub by blast
next
  case (Insert_row row)
  then show ?thesis using assms(2) by (auto simp: find_None_iff row_key_def)
qed simp

text \<open>The two successful ways to plan a change, up to the outcome of the transaction.\<close>

lemma plan_cases:
  assumes "plan_turn_file_change L codec call st scope t p before_content before_sha256 after_sha256 = (st', r)"
  obtains (refused) e where "st' = st" "r = Err e"
  | (again) turn row where "get_turn call st scope t = Ok turn" "find (row_key (tn_id turn) p) (st_changes st) = Some row"
      "cr_state row \<noteq> ''undone''" "cr_state row \<noteq> ''planned''"
      "settle call st
         (update_rows (row_key (tn_id turn) p)
            (\<lambda>r. r\<lparr>cr_after_sha256 := after_sha256, cr_previous_after_sha256 := Some (cr_after_sha256 row),
               cr_state := ''planned'', cr_operation_id := Some (lc_operation_id call), cr_updated_at := lc_now call\<rparr>)
            (st_changes st))
         (Ok \<lparr>plan_operation_id = lc_operation_id call, plan_turn_id = tn_id turn, plan_path = p,
              plan_previous_after_sha256 = Some (cr_after_sha256 row), plan_was_new = False\<rparr>) = (st', r)"
  | (new) turn sealed where "get_turn call st scope t = Ok turn" "find (row_key (tn_id turn) p) (st_changes st) = None"
      "case before_content of None \<Rightarrow> sealed = None
       | Some c \<Rightarrow> \<exists>s. seal L codec (lc_nonce call) scope ''turn_file_changes'' (tn_id turn) p c = Ok s \<and> sealed = Some s"
      "settle call st
         (st_changes st @
            [\<lparr>cr_turn_id = tn_id turn, cr_session_id = tn_session_id turn, cr_path = p,
              cr_before_exists = (before_content \<noteq> None), cr_before_content = sealed,
              cr_before_sha256 = before_sha256, cr_after_sha256 = after_sha256, cr_previous_after_sha256 = None,
              cr_state = ''planned'', cr_operation_id = Some (lc_operation_id call), cr_created_at = lc_now call,
              cr_updated_at = lc_now call, cr_undone_at = None\<rparr>])
         (Ok \<lparr>plan_operation_id = lc_operation_id call, plan_turn_id = tn_id turn, plan_path = p,
              plan_previous_after_sha256 = None, plan_was_new = True\<rparr>) = (st', r)"
proof (cases "get_turn call st scope t")
  case (Inl e)
  then show thesis using assms refused by (auto simp: plan_turn_file_change_def)
next
  case (Inr turn)
  note g = Inr
  show thesis
  proof (cases "find (row_key (tn_id turn) p) (st_changes st)")
    case (Some row)
    then show thesis
      using assms g refused again [OF g Some] by (auto simp: plan_turn_file_change_def Let_def split: if_splits)
  next
    case None
    show thesis
    proof (cases before_content)
      case None
      then show thesis
        using assms g refused new [OF g \<open>find _ _ = None\<close>, of None] \<open>find _ _ = None\<close>
        by (auto simp: plan_turn_file_change_def Let_def split: if_splits)
    next
      case (Some c)
      then show thesis
        using assms g refused new [OF g None] None
        by (auto simp: plan_turn_file_change_def Let_def split: if_splits sum.splits)
    qed
  qed
qed

lemma settled_change:
  assumes "settle call st rows r = (st', r')" "row_change_at p (st_changes st) rows"
  shows "row_change_at p (st_changes st) (st_changes st') \<and> st_turns st' = st_turns st"
  using settle_fst [OF assms(1)] assms(2) by (auto intro: Keep_rows)

lemma ledger_step_rows:
  assumes "ledger_step t p st st'"
  shows "row_change_at p (st_changes st) (st_changes st') \<and> st_turns st' = st_turns st"
  using assms
proof cases
  case (Plan L codec call scope before_content before_sha256 after_sha256 r)
  then show ?thesis
  proof (cases rule: plan_cases)
    case (again turn row)
    show ?thesis
      by (rule settled_change [OF again(5)], rule Update_rows) (auto simp: row_key_def)
  next
    case (new turn sealed)
    show ?thesis
      by (rule settled_change [OF new(4)], rule Insert_row) (auto simp: new(2))
  qed (auto intro: Keep_rows)
next
  case (Complete call plan r)
  show ?thesis
    by (rule settled_change [OF Complete(1) [unfolded complete_turn_file_change_def]], rule Update_rows)
      (use Complete in \<open>auto simp: plan_current_def row_key_def\<close>)
next
  case (Abort call plan r)
  show ?thesis
  proof (cases "plan_was_new plan")
    case True
    show ?thesis
      by (rule settled_change [OF Abort(1) [unfolded abort_turn_file_change_def if_P [OF True]]], rule Delete_rows)
        (use Abort in \<open>auto simp: plan_current_def row_key_def\<close>)
  next
    case False
    show ?thesis
      by (rule settled_change [OF Abort(1) [unfolded abort_turn_file_change_def if_not_P [OF False]]], rule Update_rows)
        (use Abort in \<open>auto simp: plan_current_def row_key_def\<close>)
  qed
next
  case (Mark call scope r)
  show ?thesis
  proof (cases "get_turn call st scope t")
    case (Inr turn)
    with Mark have "settle call st
            (update_rows (\<lambda>row. row_key t p row \<and> live_row row)
               (\<lambda>row. row\<lparr>cr_state := ''undone'', cr_operation_id := None, cr_updated_at := lc_now call,
                  cr_undone_at := Some (lc_now call)\<rparr>) (st_changes st))
            (rows_affected (\<lambda>row. row_key t p row \<and> live_row row) st ''Turn file change was already undone or does not exist'') = (st', r)"
      by (simp add: mark_turn_file_change_undone_def Let_def)
    then show ?thesis
      by (rule settled_change) (rule Update_rows, auto simp: row_key_def)
  qed (use Mark in \<open>auto simp: mark_turn_file_change_undone_def intro: Keep_rows\<close>)
qed

lemma ledger_step_keys: "ledger_step t p st st' \<Longrightarrow> ledger_ok t st \<Longrightarrow> ledger_ok t st'"
  using row_change_keys ledger_step_rows by (fastforce simp: ledger_ok_def)

interpretation ledger: keyed_state "row_at t" "ledger_step t" for t
  by unfold_locales (use row_change_frame ledger_step_rows in \<open>fastforce simp: row_at_def\<close>)

section \<open>What an operation does to its row\<close>

lemma get_turn_Ok: "get_turn call st scope t = Ok turn \<longleftrightarrow>
    lc_read call = None \<and> st_turns st t = Some turn \<and> ensure_actor_scope (tn_scope turn) scope = Ok ()"
  by (auto simp: get_turn_def split: option.splits)

lemma same_aad: "ensure_actor_scope expected actual = Ok () \<Longrightarrow> codec_aad L actual = codec_aad L expected"
  by (auto simp: ensure_actor_scope_def ensure_team_scope_def codec_aad_def fun_eq_iff split: if_splits)

lemma open_sealed_scope:
  assumes "codec_aad L actual = codec_aad L expected"
  shows "open_sealed L codec actual = open_sealed L codec expected"
  by (intro ext) (unfold open_sealed_def assms, rule refl)

lemma row_image_scope:
  assumes "ensure_actor_scope expected actual = Ok ()"
  shows "row_image L codec actual row = row_image L codec expected row"
  using open_sealed_scope [OF same_aad [OF assms]] by (cases "cr_before_content row") (simp_all add: row_image_def)

definition fresh_row :: "CipherLibrary \<Rightarrow> SensitiveCodec \<Rightarrow> Scope \<Rightarrow> string option \<Rightarrow> string option \<Rightarrow> ChangeRow option \<Rightarrow> ChangeRow \<Rightarrow> bool" where
  "fresh_row L codec scope before_content before_sha256 old row \<longleftrightarrow>
     (case old of
        None \<Rightarrow> cr_previous_after_sha256 row = None \<and> row_image L codec scope row = Ok before_content \<and> cr_before_sha256 row = before_sha256
      | Some o' \<Rightarrow> cr_state o' \<noteq> ''undone'' \<and> cr_state o' \<noteq> ''planned'' \<and> cr_previous_after_sha256 row = Some (cr_after_sha256 o') \<and>
          cr_before_content row = cr_before_content o' \<and> cr_before_sha256 row = cr_before_sha256 o')"

lemma plan_row:
  assumes "plan_turn_file_change L codec call st scope t p before_content before_sha256 after_sha256 = (st', r)"
    and "turn_known t turn st" and "url_b64_law L" "gcm_law L" "codec_ok codec" "\<forall>n. lc_nonce call = Some n \<longrightarrow> length n = 12"
  obtains (refused) e where "st' = st" "r = Err e"
  | (planned) row where "row_at t st' p = Some row" "cr_state row = ''planned''" "cr_after_sha256 row = after_sha256"
      "cr_operation_id row = Some (lc_operation_id call)"
      "fresh_row L codec (tn_scope turn) before_content before_sha256 (row_at t st p) row"
      "\<And>plan. r = Ok plan \<Longrightarrow> plan = \<lparr>plan_operation_id = lc_operation_id call, plan_turn_id = t, plan_path = p,
          plan_previous_after_sha256 = cr_previous_after_sha256 row, plan_was_new = (row_at t st p = None)\<rparr>"
  using assms(1)
proof (cases rule: plan_cases)
  case (refused e)
  then show thesis using that(1) by blast
next
  case (again turn' row)
  then have t: "turn' = turn" "tn_id turn' = t" using assms(2) by (auto simp: get_turn_Ok turn_known_def)
  from again(5) show thesis
  proof (cases rule: settle_cases)
    case (rejected e)
    then show thesis using that(1) by blast
  next
    let ?f = "\<lambda>r. r\<lparr>cr_after_sha256 := after_sha256, cr_previous_after_sha256 := Some (cr_after_sha256 row),
               cr_state := ''planned'', cr_operation_id := Some (lc_operation_id call), cr_updated_at := lc_now call\<rparr>"
    case settled
    note s = settled(1)
    have old: "row_at t st p = Some row" using again(2) t by (simp add: row_at_def)
    have "find (row_key t p) (update_rows (row_key (tn_id turn') p) ?f (st_changes st)) =
        map_option (\<lambda>row. if row_key (tn_id turn') p row then ?f row else row) (find (row_key t p) (st_changes st))"
      by (rule find_update_rows) simp
    then have new: "row_at t st' p = Some (?f row)"
      using s old t row_at_SomeD [OF old] by (simp add: row_at_def row_key_def)
    show thesis
      by (rule that(2) [OF new]) (use again(3,4) settled(2) old t in \<open>auto simp: fresh_row_def\<close>)
  qed
next
  case (new turn' sealed)
  then have t: "turn' = turn" "tn_id turn' = t" "ensure_actor_scope (tn_scope turn) scope = Ok ()"
    using assms(2) by (auto simp: get_turn_Ok turn_known_def)
  let ?row = "\<lparr>cr_turn_id = tn_id turn', cr_session_id = tn_session_id turn', cr_path = p,
              cr_before_exists = (before_content \<noteq> None), cr_before_content = sealed,
              cr_before_sha256 = before_sha256, cr_after_sha256 = after_sha256, cr_previous_after_sha256 = None,
              cr_state = ''planned'', cr_operation_id = Some (lc_operation_id call), cr_created_at = lc_now call,
              cr_updated_at = lc_now call, cr_undone_at = None\<rparr>"
  have none: "row_at t st p = None" using new(2) t by (simp add: row_at_def)
  have "row_image L codec scope ?row = Ok before_content"
    using new(3) t seal_opens [OF assms(3-6)] by (auto simp: row_image_def split: option.splits)
  then have image: "row_image L codec (tn_scope turn) ?row = Ok before_content"
    using row_image_scope [OF t(3)] by simp
  from new(4) show thesis
  proof (cases rule: settle_cases)
    case (rejected e)
    then show thesis using that(1) by blast
  next
    case settled
    note s = settled(1)
    have "row_at t st' p = Some ?row"
      using s none t by (simp add: row_at_def find_append_single row_key_def)
    then show thesis
      by (rule that(2)) (use settled(2) none image t in \<open>auto simp: fresh_row_def\<close>)
  qed
qed

text \<open>A plan owns the row it planned until it is completed or aborted.\<close>

lemma complete_row:
  assumes "complete_turn_file_change call st plan = (st', r)" and "row_at t st p = Some row" and "plan_current plan row"
  shows "row_at t st' p = Some row \<or>
    row_at t st' p = Some (row\<lparr>cr_state := ''applied'', cr_operation_id := None, cr_previous_after_sha256 := None,
             cr_updated_at := lc_now call\<rparr>)"
  using assms(1) unfolding complete_turn_file_change_def
proof (cases rule: settle_cases)
  case settled
  let ?f = "\<lambda>row. row\<lparr>cr_state := ''applied'', cr_operation_id := None, cr_previous_after_sha256 := None,
             cr_updated_at := lc_now call\<rparr>"
  have "find (row_key t p) (update_rows (plan_current plan) ?f (st_changes st)) =
      map_option (\<lambda>row. if plan_current plan row then ?f row else row) (find (row_key t p) (st_changes st))"
    by (rule find_update_rows) simp
  then show ?thesis using assms(2,3) settled(1) by (simp add: row_at_def)
qed (use assms in simp)

lemma abort_row:
  assumes "abort_turn_file_change call st plan = (st', r)" and "row_at t st p = Some row" and "plan_current plan row"
    and "ledger_ok t st" and "plan_turn_id plan = t" and "plan_path plan = p"
  shows "row_at t st' p = Some row \<or>
    row_at t st' p =
      (if plan_was_new plan then None
       else Some (row\<lparr>cr_after_sha256 := (case plan_previous_after_sha256 plan of None \<Rightarrow> [] | Some h \<Rightarrow> h),
              cr_previous_after_sha256 := None, cr_state := ''applied'', cr_operation_id := None,
              cr_updated_at := lc_now call\<rparr>))"
  using assms(1) unfolding abort_turn_file_change_def
proof (cases rule: settle_cases)
  case settled
  let ?f = "\<lambda>row. row\<lparr>cr_after_sha256 := (case plan_previous_after_sha256 plan of None \<Rightarrow> [] | Some h \<Rightarrow> h),
              cr_previous_after_sha256 := None, cr_state := ''applied'', cr_operation_id := None,
              cr_updated_at := lc_now call\<rparr>"
  have "find (row_key t p) (update_rows (plan_current plan) ?f (st_changes st)) =
      map_option (\<lambda>row. if plan_current plan row then ?f row else row) (find (row_key t p) (st_changes st))"
    by (rule find_update_rows) simp
  moreover have "find (row_key t p) (filter (\<lambda>row. \<not> plan_current plan row) (st_changes st)) = None"
    by (rule sole_key(1)) (use assms in \<open>auto simp: ledger_ok_def row_at_def plan_current_def\<close>)
  ultimately show ?thesis using assms(2,3) settled(1) by (simp add: row_at_def)
qed (use assms in simp)

lemma mark_row:
  assumes "mark_turn_file_change_undone call st scope t p = (st', r)" and "row_at t st p = Some row" and "live_row row"
    and "ledger_ok t st"
  shows "row_at t st' p = Some row \<or>
      row_at t st' p = Some (row\<lparr>cr_state := ''undone'', cr_operation_id := None, cr_updated_at := lc_now call,
         cr_undone_at := Some (lc_now call)\<rparr>)"
    "lc_write call = DbOk \<Longrightarrow> get_turn call st scope t = Ok turn \<Longrightarrow>
       r = Ok () \<and> row_at t st' p = Some (row\<lparr>cr_state := ''undone'', cr_operation_id := None, cr_updated_at := lc_now call,
         cr_undone_at := Some (lc_now call)\<rparr>)"
proof -
  let ?P = "\<lambda>row. row_key t p row \<and> live_row row"
  let ?f = "\<lambda>row. row\<lparr>cr_state := ''undone'', cr_operation_id := None, cr_updated_at := lc_now call,
         cr_undone_at := Some (lc_now call)\<rparr>"
  have u: "find (row_key t p) (update_rows ?P ?f (st_changes st)) = Some (?f row)"
    using find_update_rows [of ?f t p ?P "st_changes st"] assms(2,3) row_at_SomeD [OF assms(2)]
    by (simp add: row_at_def row_key_def)
  have n: "length (filter ?P (st_changes st)) = 1"
    by (rule sole_key(2)) (use assms row_at_SomeD [OF assms(2)] in \<open>auto simp: ledger_ok_def row_at_def row_key_def\<close>)
  have m: "st' = st \<and> (\<exists>e. r = Err e) \<or>
      settle call st (update_rows ?P ?f (st_changes st)) (rows_affected ?P st ''Turn file change was already undone or does not exist'') = (st', r)"
    using assms(1) by (auto simp: mark_turn_file_change_undone_def Let_def split: sum.splits)
  show "row_at t st' p = Some row \<or> row_at t st' p = Some (?f row)"
    using m u assms(2) by (auto simp: row_at_def dest!: settle_fst)
  show "r = Ok () \<and> row_at t st' p = Some (?f row)" if "lc_write call = DbOk" "get_turn call st scope t = Ok turn"
    using assms(1) that u n
    by (auto simp: mark_turn_file_change_undone_def Let_def settle_def rows_affected_def row_at_def)
qed

end
