(* ===== verification/Patch_Format.thy ===== *)
theory Patch_Format
  imports File_Edit
begin

text \<open>
  The wire formats of an edit request, \<open>crates/execution/src/editing.rs\<close>: the strict patch subset
  (\<open>parse_patch\<close>) and the three request forms (\<open>parse\<close>).  The derived deserialisers of the argument
  records and the printer of JSON values are parameters.
\<close>

section \<open>Patches\<close>

abbreviation invalid :: "string \<Rightarrow> ExecutionError" where
  "invalid \<equiv> EE_Arguments"

text \<open>The lines of an added file, up to the next operation.\<close>

fun add_lines :: "string list \<Rightarrow> string \<Rightarrow> ExecutionError + (string \<times> string list)" where
  "add_lines [] content = Ok (content, [])"
| "add_lines (line # rest) content =
     (if starts_with line ''*** '' then Ok (content, line # rest)
      else
        (case strip_prefix line ''+'' of
           None \<Rightarrow> Err (invalid ''Add File lines must start with +'')
         | Some added \<Rightarrow> add_lines rest (content @ added @ [newline])))"

record HunkText =
  hk_old :: string
  hk_new :: string
  hk_changed :: bool

text \<open>The lines of one hunk.  A line is split after its first byte; inside a character this fails.\<close>

fun hunk_lines :: "string list \<Rightarrow> HunkText \<Rightarrow> ExecutionError + (HunkText \<times> string list)" where
  "hunk_lines [] h = Ok (h, [])"
| "hunk_lines (line # rest) h =
     (if line = ''@@'' \<or> starts_with line ''*** '' then Ok (h, line # rest)
      else
        (case line of
           [] \<Rightarrow> Err (invalid ''patch lines require a space, + or - prefix'')
         | prefix # body \<Rightarrow>
             if prefix = CHR '' '' then
               hunk_lines rest (h\<lparr>hk_old := hk_old h @ body @ [newline], hk_new := hk_new h @ body @ [newline]\<rparr>)
             else if prefix = CHR ''-'' then
               hunk_lines rest (h\<lparr>hk_old := hk_old h @ body @ [newline], hk_changed := True\<rparr>)
             else if prefix = CHR ''+'' then
               hunk_lines rest (h\<lparr>hk_new := hk_new h @ body @ [newline], hk_changed := True\<rparr>)
             else Err (invalid ''patch lines require a space, + or - prefix'')))"

lemma hunk_lines_rest: "hunk_lines ls h = Inr (h', rest) \<Longrightarrow> length rest \<le> length ls"
  by (induction ls h arbitrary: h' rest rule: hunk_lines.induct) (fastforce split: if_splits list.splits)+

lemma add_lines_rest: "add_lines ls c = Inr (c', rest) \<Longrightarrow> length rest \<le> length ls"
  by (induction ls c arbitrary: c' rest rule: add_lines.induct) (fastforce split: if_splits option.splits)+

definition hunk_edit :: "HunkText \<Rightarrow> FileEdit" where
  "hunk_edit h = \<lparr>fe_old_text = Some (hk_old h), fe_start_line = None, fe_end_line = None,
     fe_new_text = hk_new h, fe_patch_hunk = True\<rparr>"

text \<open>The hunks of an updated file, up to the next operation.\<close>

function update_hunks :: "string list \<Rightarrow> FileEdit list \<Rightarrow> ExecutionError + (FileEdit list \<times> string list)" where
  "update_hunks [] edits = Ok (edits, [])"
| "update_hunks (line # rest) edits =
     (if starts_with line ''*** '' then Ok (edits, line # rest)
      else if line \<noteq> ''@@'' then Err (invalid ''Update File requires bare @@ before each hunk'')
      else
        (case hunk_lines rest \<lparr>hk_old = [], hk_new = [], hk_changed = False\<rparr> of
           Inl e \<Rightarrow> Err e
         | Inr (h, rest') \<Rightarrow>
             if hk_old h = []
             then Err (invalid (if hk_changed h
                    then ''an update hunk that only adds lines needs context or removed lines to locate it''
                    else ''an update hunk must contain at least one line''))
             else update_hunks rest' (edits @ [hunk_edit h])))"
  by pat_completeness auto
termination
proof (relation "measure (\<lambda>(ls, edits). length ls)")
qed (auto dest: hunk_lines_rest)

lemma update_hunks_rest: "update_hunks ls es = Inr (es', rest) \<Longrightarrow> length rest \<le> length ls"
proof (induction ls es arbitrary: es' rest rule: update_hunks.induct)
  case (2 line ls edits)
  then show ?case by (fastforce split: if_splits sum.splits prod.splits dest: hunk_lines_rest)
qed auto

definition patch_header :: "string \<Rightarrow> (string \<times> bool) option" where
  "patch_header line =
     (case strip_prefix line ''*** Add File: '' of
        Some path \<Rightarrow> Some (path, True)
      | None \<Rightarrow> (case strip_prefix line ''*** Update File: '' of
                   Some path \<Rightarrow> Some (path, False)
                 | None \<Rightarrow> None))"

definition patch_revision :: "(string \<times> json) list \<Rightarrow> string \<Rightarrow> bool \<Rightarrow> ExecutionError + string option" where
  "patch_revision revisions path add =
     (case map_of revisions path of
        None \<Rightarrow> Err (invalid (''missing revision for '' @ path))
      | Some revision \<Rightarrow>
          and_then
            (case revision of
               JNull \<Rightarrow> Ok None
             | JStr v \<Rightarrow> Ok (Some v)
             | _ \<Rightarrow> Err (invalid ''revision must be a string or null'')) (\<lambda>expected_revision.
          if add \<and> expected_revision \<noteq> None then Err (invalid ''Add File requires a null revision'')
          else if \<not> add \<and> expected_revision = None then Err (invalid ''Update File requires an existing revision'')
          else Ok expected_revision))"

text \<open>The operation whose header was read: its file and the lines after it.\<close>

definition patch_file ::
  "string \<Rightarrow> bool \<Rightarrow> string option \<Rightarrow> string list \<Rightarrow> ExecutionError + (ApplyPatchArgs \<times> string list)" where
  "patch_file path add expected_revision rest =
     (let file = (\<lambda>content edits. \<lparr>ap_path = path, ap_expected_sha256 = None,
                    ap_expected_revision = expected_revision, ap_content = content, ap_edits = edits\<rparr>)
      in if add
         then and_then (add_lines rest []) (\<lambda>(content, rest'). Ok (file (Some content) [], rest'))
         else and_then (update_hunks rest []) (\<lambda>(edits, rest'). Ok (file None edits, rest')))"

lemma patch_file_rest: "patch_file path add expected ls = Inr (f, rest) \<Longrightarrow> length rest \<le> length ls"
  by (auto simp: patch_file_def Let_def split: if_splits dest: add_lines_rest update_hunks_rest)

function patch_files ::
  "(string \<times> json) list \<Rightarrow> string list \<Rightarrow> ApplyPatchArgs list \<Rightarrow> ExecutionError + ApplyPatchArgs list" where
  "patch_files revisions [] result = Ok result"
| "patch_files revisions (line # rest) result =
     (case patch_header line of
        None \<Rightarrow> Err (invalid ''supported patch operations are Add File and Update File'')
      | Some (path, add) \<Rightarrow>
          (case patch_revision revisions path add of
             Inl e \<Rightarrow> Err e
           | Inr expected_revision \<Rightarrow>
               (case patch_file path add expected_revision rest of
                  Inl e \<Rightarrow> Err e
                | Inr (file, rest') \<Rightarrow> patch_files revisions rest' (result @ [file]))))"
  by pat_completeness auto
termination
proof (relation "measure (\<lambda>(revisions, ls, result). length ls)")
qed (auto dest!: patch_file_rest)

definition parse_patch :: "string \<Rightarrow> json \<Rightarrow> ExecutionError + ApplyPatchArgs list" where
  "parse_patch patch revisions_value =
     (case revisions_value of
        JObj revisions \<Rightarrow>
          let lines = str_lines patch in
          if lines = [] \<or> hd lines \<noteq> ''*** Begin Patch'' \<or> last lines \<noteq> ''*** End Patch''
          then Err (invalid ''patch must have Begin Patch and End Patch markers'')
          else
            and_then (patch_files revisions (butlast (tl lines)) []) (\<lambda>result.
              if length revisions \<noteq> length result
              then Err (invalid ''revisions must contain exactly the patch targets'')
              else Ok result)
      | _ \<Rightarrow> Err (invalid ''revisions must map every patch path to a revision or null''))"

section \<open>Edit requests\<close>

record EditLibrary =
  el_to_string :: "json \<Rightarrow> string"
  el_args_from_value :: "json \<Rightarrow> string + ApplyPatchArgs"
  el_args_list_from_value :: "json \<Rightarrow> string + ApplyPatchArgs list"

fun path_parts :: "path_component list \<Rightarrow> ExecutionError + string list" where
  "path_parts [] = Ok []"
| "path_parts (c # cs) =
     (case c of
        Normal part \<Rightarrow> and_then (path_parts cs) (\<lambda>parts. Ok (part # parts))
      | CurDir \<Rightarrow> path_parts cs
      | _ \<Rightarrow> Err (invalid ''editing paths must be relative without parent traversal''))"

text \<open>One file of the request, with the paths seen before it.\<close>

definition normalize_file ::
  "string list \<times> ApplyPatchArgs list \<Rightarrow> ApplyPatchArgs \<Rightarrow> ExecutionError + (string list \<times> ApplyPatchArgs list)" where
  "normalize_file st file =
     (case st of (paths, done_files) \<Rightarrow>
        and_then (validate_shape file) (\<lambda>_.
        and_then (path_parts (components (ap_path file))) (\<lambda>parts.
          let path = join ''/'' parts in
          if path = [] \<or> path \<in> set paths then Err (invalid ''editing paths must be nonempty and unique'')
          else Ok (path # paths, done_files @ [file\<lparr>ap_path := path\<rparr>]))))"

definition request_files :: "EditLibrary \<Rightarrow> json \<Rightarrow> (string \<times> json) list \<Rightarrow> ExecutionError + ApplyPatchArgs list" where
  "request_files el v obj =
     (case map_of obj ''files'' of
        Some files \<Rightarrow>
          if length obj \<noteq> 1 then Err (invalid ''files cannot be combined with other fields'')
          else (case el_args_list_from_value el files of Inl e \<Rightarrow> Err (invalid e) | Inr fs \<Rightarrow> Ok fs)
      | None \<Rightarrow>
          (case map_of obj ''patch'' of
             Some patch \<Rightarrow>
               if length obj \<noteq> 2 then Err (invalid ''patch requires only patch and revisions'')
               else and_then (ok_or (as_str patch) (invalid ''patch must be a string'')) (\<lambda>p.
                      parse_patch p (jindex v ''revisions''))
           | None \<Rightarrow>
               (case el_args_from_value el v of Inl e \<Rightarrow> Err (invalid e) | Inr f \<Rightarrow> Ok [f])))"

definition parse_edit :: "EditLibrary \<Rightarrow> json \<Rightarrow> ExecutionError + ApplyPatchArgs list" where
  "parse_edit el v =
     (if length (el_to_string el v) > MAX_EDIT_BYTES then Err (invalid ''editing request exceeds 16 MiB'')
      else
        (case v of
           JObj obj \<Rightarrow>
             if length (filter (\<lambda>key. map_of obj key \<noteq> None) [''path'', ''files'', ''patch'']) \<noteq> 1
             then Err (invalid ''use exactly one editing form: path, files, or patch'')
             else
               and_then (request_files el v obj) (\<lambda>files.
                 if files = [] \<or> length files > 32 then Err (invalid ''edit 1 to 32 files per call'')
                 else and_then (try_fold normalize_file ([], []) files) (\<lambda>(_, result). Ok result))
         | _ \<Rightarrow> Err (invalid ''expected editing object'')))"

definition editing_paths :: "EditLibrary \<Rightarrow> json \<Rightarrow> ExecutionError + string list" where
  "editing_paths el v = and_then (parse_edit el v) (\<lambda>files. Ok (map ap_path files))"

section \<open>Printing patches\<close>

datatype patch_line = Keep string | Remove string | Insert string

datatype patch_op = AddFile string "string list" | UpdateFile string string "patch_line list list"

fun line_str :: "patch_line \<Rightarrow> string" where
  "line_str (Keep l) = CHR '' '' # l"
| "line_str (Remove l) = CHR ''-'' # l"
| "line_str (Insert l) = CHR ''+'' # l"

fun line_body :: "patch_line \<Rightarrow> string" where
  "line_body (Keep l) = l"
| "line_body (Remove l) = l"
| "line_body (Insert l) = l"

fun op_path :: "patch_op \<Rightarrow> string" where
  "op_path (AddFile p _) = p"
| "op_path (UpdateFile p _ _) = p"

fun op_revision :: "patch_op \<Rightarrow> json" where
  "op_revision (AddFile _ _) = JNull"
| "op_revision (UpdateFile _ r _) = JStr r"

fun op_lines :: "patch_op \<Rightarrow> string list" where
  "op_lines (AddFile p ls) = (''*** Add File: '' @ p) # map ((#) CHR ''+'') ls"
| "op_lines (UpdateFile p r hs) = (''*** Update File: '' @ p) # concat (map (\<lambda>h. ''@@'' # map line_str h) hs)"

definition terminate_lines :: "string list \<Rightarrow> string" where
  "terminate_lines ls = concat (map (\<lambda>l. l @ [newline]) ls)"

definition print_patch :: "patch_op list \<Rightarrow> string" where
  "print_patch ops =
     terminate_lines (''*** Begin Patch'' # concat (map op_lines ops) @ [''*** End Patch''])"

fun old_side :: "patch_line \<Rightarrow> string list" where
  "old_side (Insert _) = []"
| "old_side l = [line_body l]"

fun new_side :: "patch_line \<Rightarrow> string list" where
  "new_side (Remove _) = []"
| "new_side l = [line_body l]"

definition hunk_of :: "patch_line list \<Rightarrow> FileEdit" where
  "hunk_of h = \<lparr>fe_old_text = Some (terminate_lines (concat (map old_side h))), fe_start_line = None, fe_end_line = None,
     fe_new_text = terminate_lines (concat (map new_side h)), fe_patch_hunk = True\<rparr>"

fun op_args :: "patch_op \<Rightarrow> ApplyPatchArgs" where
  "op_args (AddFile p ls) = \<lparr>ap_path = p, ap_expected_sha256 = None, ap_expected_revision = None,
     ap_content = Some (terminate_lines ls), ap_edits = []\<rparr>"
| "op_args (UpdateFile p r hs) = \<lparr>ap_path = p, ap_expected_sha256 = None, ap_expected_revision = Some r,
     ap_content = None, ap_edits = map hunk_of hs\<rparr>"

text \<open>A line that survives printing: no line feed, no carriage return at its end.\<close>

definition printable :: "string \<Rightarrow> bool" where
  "printable l = (newline \<notin> set l \<and> \<not> ends_with l [CHR 0x0D])"

fun op_printable :: "patch_op \<Rightarrow> bool" where
  "op_printable (AddFile p ls) = (printable p \<and> list_all printable ls)"
| "op_printable (UpdateFile p r hs) =
     (printable p \<and> list_all (\<lambda>h. concat (map old_side h) \<noteq> [] \<and> list_all (printable \<circ> line_body) h) hs)"

subsection \<open>Lines\<close>

lemma terminate_lines_simps [simp]:
  "terminate_lines [] = []" "terminate_lines (l # ls) = l @ newline # terminate_lines ls"
  "terminate_lines (xs @ ys) = terminate_lines xs @ terminate_lines ys"
  by (simp_all add: terminate_lines_def)

lemma terminate_lines_Nil_iff [simp]: "terminate_lines ls = [] \<longleftrightarrow> ls = []"
  by (cases ls) simp_all

lemma ends_with_snoc: "ends_with (xs @ [x]) [y] \<longleftrightarrow> x = y"
  by (auto simp: ends_with_def)

lemma printable_Cons: "printable l \<Longrightarrow> c \<noteq> newline \<Longrightarrow> c \<noteq> CHR 0x0D \<Longrightarrow> printable (c # l)"
  by (cases l rule: rev_cases) (auto simp: printable_def ends_with_snoc ends_with_def)

lemma printable_append: "printable p \<Longrightarrow> printable q \<Longrightarrow> printable (q @ p)"
  by (cases p rule: rev_cases) (auto simp: printable_def ends_with_snoc append_assoc [symmetric] simp del: append_assoc)

lemma str_lines_terminate: "list_all printable ls \<Longrightarrow> str_lines (terminate_lines ls) = ls"
proof -
  assume p: "list_all printable ls"
  then have "list_all terminated (map (\<lambda>l. l @ [newline]) ls)"
    by (auto simp: list_all_iff terminated_def printable_def)
  from split_inclusive_terminated [OF this, of "[]"]
  have "split_inclusive [] (terminate_lines ls) = map (\<lambda>l. l @ [newline]) ls" by (simp add: terminate_lines_def)
  moreover have "strip_terminator (l @ [newline]) = l" if "printable l" for l
    using that by (simp add: strip_terminator_def ends_with_snoc printable_def Let_def)
  ultimately show ?thesis using p by (simp add: str_lines_def list_all_iff map_idI)
qed

subsection \<open>Reading printed lines\<close>

definition op_boundary :: "string list \<Rightarrow> bool" where
  "op_boundary rest = (rest = [] \<or> starts_with (hd rest) ''*** '')"

definition hunk_boundary :: "string list \<Rightarrow> bool" where
  "hunk_boundary rest = (op_boundary rest \<or> hd rest = ''@@'')"

lemma line_str_marker [simp]: "line_str l \<noteq> ''@@''" "\<not> starts_with (line_str l) ''*** ''"
  by (cases l; simp add: starts_with_def)+

lemma hunk_lines_stop: "hunk_boundary rest \<Longrightarrow> hunk_lines rest h = Inr (h, rest)"
  by (cases rest) (auto simp: hunk_boundary_def op_boundary_def)

lemma hunk_lines_print:
  assumes "hunk_boundary rest"
  shows "\<exists>c. hunk_lines (map line_str ls @ rest) h =
    Inr (\<lparr>hk_old = hk_old h @ terminate_lines (concat (map old_side ls)),
          hk_new = hk_new h @ terminate_lines (concat (map new_side ls)), hk_changed = c\<rparr>, rest)"
proof (induction ls arbitrary: h)
  case Nil
  show ?case by (cases h) (simp add: hunk_lines_stop [OF assms])
next
  case (Cons l ls)
  obtain h' where "hunk_lines (map line_str (l # ls) @ rest) h = hunk_lines (map line_str ls @ rest) h'"
    "hk_old h' = hk_old h @ terminate_lines (old_side l)" "hk_new h' = hk_new h @ terminate_lines (new_side l)"
    by (cases l) (auto simp: starts_with_def)
  with Cons [of h'] show ?case by simp
qed

lemma update_hunks_print:
  assumes "op_boundary rest" and "list_all (\<lambda>h. concat (map old_side h) \<noteq> []) hs"
  shows "update_hunks (concat (map (\<lambda>h. ''@@'' # map line_str h) hs) @ rest) edits = Inr (edits @ map hunk_of hs, rest)"
  using assms(2)
proof (induction hs arbitrary: edits)
  case Nil
  show ?case using assms(1) by (cases rest) (auto simp: op_boundary_def)
next
  case (Cons h hs)
  let ?rest = "concat (map (\<lambda>h. ''@@'' # map line_str h) hs) @ rest"
  have "hunk_boundary ?rest" using assms(1) by (cases hs) (auto simp: hunk_boundary_def)
  from hunk_lines_print [OF this, of h "\<lparr>hk_old = [], hk_new = [], hk_changed = False\<rparr>"] Cons show ?case
    by (auto simp: hunk_edit_def hunk_of_def starts_with_def)
qed

lemma add_lines_print:
  assumes "op_boundary rest"
  shows "add_lines (map ((#) CHR ''+'') ls @ rest) content = Inr (content @ terminate_lines ls, rest)"
proof (induction ls arbitrary: content)
  case Nil
  show ?case using assms by (cases rest) (auto simp: op_boundary_def)
next
  case (Cons l ls)
  then show ?case by (simp add: starts_with_def strip_prefix_def)
qed

lemma patch_header_print:
  "patch_header (''*** Add File: '' @ p) = Some (p, True)"
  "patch_header (''*** Update File: '' @ p) = Some (p, False)"
proof -
  show "patch_header (''*** Add File: '' @ p) = Some (p, True)"
    by (simp only: patch_header_def strip_prefix_append option.case)
  have "strip_prefix (''*** Update File: '' @ p) ''*** Add File: '' = None"
    by (simp add: strip_prefix_def starts_with_def)
  then show "patch_header (''*** Update File: '' @ p) = Some (p, False)"
    by (simp only: patch_header_def strip_prefix_append option.case)
qed

lemma patch_files_step:
  assumes "patch_header line = Some (path, add)" and "patch_revision revisions path add = Inr expected"
    and "patch_file path add expected rest = Inr (file, rest')"
  shows "patch_files revisions (line # rest) result = patch_files revisions rest' (result @ [file])"
  using assms by simp

lemma patch_files_print:
  assumes "list_all op_printable ops" and "list_all (\<lambda>op. map_of revisions (op_path op) = Some (op_revision op)) ops"
  shows "patch_files revisions (concat (map op_lines ops)) result = Inr (result @ map op_args ops)"
  using assms
proof (induction ops arbitrary: result)
  case (Cons op ops)
  let ?rest = "concat (map op_lines ops)"
  have boundary: "op_boundary ?rest"
  proof (cases ops)
    case (Cons o' os)
    then show ?thesis by (cases o') (simp_all add: op_boundary_def starts_with_def)
  qed (simp add: op_boundary_def)
  show ?case
  proof (cases op)
    case (AddFile p ls)
    have "patch_file p True None (map ((#) CHR ''+'') ls @ ?rest) = Inr (op_args op, ?rest)"
      using add_lines_print [OF boundary, of ls "[]"] by (simp add: patch_file_def AddFile)
    moreover have "patch_revision revisions p True = Inr None"
      using Cons.prems(2) AddFile by (simp add: patch_revision_def)
    ultimately have "patch_files revisions (op_lines op @ ?rest) result = patch_files revisions ?rest (result @ [op_args op])"
      using patch_files_step [OF patch_header_print(1)] by (simp only: AddFile op_lines.simps append_Cons)
    then show ?thesis using Cons.IH Cons.prems by simp
  next
    case (UpdateFile p r hs)
    have "list_all (\<lambda>h. concat (map old_side h) \<noteq> []) hs"
      using Cons.prems(1) UpdateFile by (auto simp: list_all_iff)
    from update_hunks_print [OF boundary this, of "[]"]
    have "patch_file p False (Some r) (concat (map (\<lambda>h. ''@@'' # map line_str h) hs) @ ?rest) = Inr (op_args op, ?rest)"
      by (simp add: patch_file_def UpdateFile)
    moreover have "patch_revision revisions p False = Inr (Some r)"
      using Cons.prems(2) UpdateFile by (simp add: patch_revision_def)
    ultimately have "patch_files revisions (op_lines op @ ?rest) result = patch_files revisions ?rest (result @ [op_args op])"
      using patch_files_step [OF patch_header_print(2)] by (simp only: UpdateFile op_lines.simps append_Cons)
    then show ?thesis using Cons.IH Cons.prems by simp
  qed
qed simp

lemma op_lines_printable: "op_printable op \<Longrightarrow> list_all printable (op_lines op)"
proof (cases op)
  case (AddFile p ls)
  assume "op_printable op"
  moreover have "printable ''*** Add File: ''" by code_simp
  ultimately show ?thesis
    unfolding AddFile op_lines.simps list.pred_inject
    by (auto simp: list_all_iff intro!: printable_Cons printable_append simp del: append.simps)
next
  case (UpdateFile p r hs)
  assume a: "op_printable op"
  have "printable ''*** Update File: ''" "printable ''@@''" by code_simp+
  moreover have "printable (line_str l)" if "printable (line_body l)" for l
    using that by (cases l) (auto intro!: printable_Cons)
  ultimately show ?thesis
    using a unfolding UpdateFile op_lines.simps list.pred_inject
    by (auto simp: list_all_iff intro!: printable_append simp del: append.simps)
qed

section \<open>Properties\<close>

text \<open>C37: The patch format round-trips.  Printing any list of add and update operations (whose lines
  hold no line feed and do not end in a carriage return, and whose hunks have a context or removed
  line) and parsing the text back, with exactly the revisions of the operations, gives for every
  operation its file: for an added file its lines, for an updated file one exact edit per hunk from
  the old side to the new side.\<close>

theorem patch_roundtrip:
  assumes "list_all op_printable ops" and "length revisions = length ops"
    and "list_all (\<lambda>op. map_of revisions (op_path op) = Some (op_revision op)) ops"
  shows "parse_patch (print_patch ops) (JObj revisions) = Ok (map op_args ops)"
proof -
  let ?ls = "''*** Begin Patch'' # concat (map op_lines ops) @ [''*** End Patch'']"
  have "printable ''*** Begin Patch''" "printable ''*** End Patch''" by code_simp+
  then have "list_all printable ?ls"
    using assms(1) op_lines_printable by (auto simp: list_all_iff)
  then have "str_lines (print_patch ops) = ?ls" unfolding print_patch_def by (rule str_lines_terminate)
  moreover have "butlast (tl ?ls) = concat (map op_lines ops)" by simp
  ultimately show ?thesis
    using patch_files_print [OF assms(1,3), of "[]"] assms(2) by (simp add: parse_patch_def Let_def)
qed

theorem patch_roundtrip_witness:
  "let ops = [AddFile ''a.rs'' [''x''], UpdateFile ''b.rs'' ''r1'' [[Keep ''k'', Remove ''o'', Insert ''n'']]] in
   parse_patch (print_patch ops) (JObj [(''a.rs'', JNull), (''b.rs'', JStr ''r1'')]) = Ok (map op_args ops)"
proof -
  let ?ops = "[AddFile ''a.rs'' [''x''], UpdateFile ''b.rs'' ''r1'' [[Keep ''k'', Remove ''o'', Insert ''n'']]]"
  have "list_all op_printable ?ops" by code_simp
  then show ?thesis
    unfolding Let_def by (rule patch_roundtrip) simp_all
qed

lemma path_parts_Ok:
  assumes "path_parts cs = Inr parts"
  shows "set parts = {s. Normal s \<in> set cs}"
  using assms
proof (induction cs arbitrary: parts)
  case (Cons c cs)
  then show ?case by (cases c) auto
qed simp

lemma components_join_parts:
  assumes "path_parts (components p) = Inr parts" and "parts \<noteq> []"
  shows "components (join ''/'' parts) = map Normal parts"
proof -
  have ok: "s \<noteq> [] \<and> s \<noteq> ''.'' \<and> s \<noteq> ''..'' \<and> CHR ''/'' \<notin> set s" if "s \<in> set parts" for s
    using path_parts_Ok [OF assms(1)] that Normal_in_components [of s p] by auto
  then have segs: "split_char CHR ''/'' (join ''/'' parts) = parts"
    using split_char_join [OF assms(2), of "CHR ''/''"] by auto
  have "hd parts \<in> set parts" using assms(2) by simp
  with ok have "hd parts \<noteq> []" "CHR ''/'' \<notin> set (hd parts)" "hd parts \<noteq> ''.''" by blast+
  then have "\<not> starts_with (join ''/'' parts) ''/''"
    using assms(2) by (cases parts; cases "hd parts"; cases "tl parts") (auto simp: starts_with_def)
  moreover have "filter (\<lambda>s. s \<noteq> [] \<and> s \<noteq> ''.'') parts = parts" using ok by (auto simp: filter_id_conv)
  moreover have "map segment_component parts = map Normal parts" using ok by (auto simp: segment_component_def)
  ultimately show ?thesis using \<open>hd parts \<noteq> ''.''\<close> by (simp add: components_def Let_def segs)
qed

lemma join_Nil_iff: "[] \<notin> set parts \<Longrightarrow> join ''/'' parts = [] \<longleftrightarrow> parts = []"
  by (cases parts; cases "tl parts") auto

definition plain_relative :: "string \<Rightarrow> bool" where
  "plain_relative p = (\<exists>parts. parts \<noteq> [] \<and> p = join ''/'' parts \<and> components p = map Normal parts)"

lemma normalize_file_Ok:
  "normalize_file (paths, done_files) f = Inr st \<longleftrightarrow>
     (\<exists>parts. validate_shape f = Inr () \<and> path_parts (components (ap_path f)) = Inr parts \<and>
        join ''/'' parts \<noteq> [] \<and> join ''/'' parts \<notin> set paths \<and>
        st = (join ''/'' parts # paths, done_files @ [f\<lparr>ap_path := join ''/'' parts\<rparr>]))"
  by (auto simp: normalize_file_def Let_def)

lemma normalize_files_Ok:
  assumes "try_fold normalize_file (paths, done_files) files = Inr (paths', files')"
    and "set (map ap_path done_files) = set paths" and "distinct (map ap_path done_files)"
    and "list_all (\<lambda>f. plain_relative (ap_path f) \<and> validate_shape f = Inr ()) done_files"
  shows "length files' = length done_files + length files \<and> distinct (map ap_path files') \<and>
    list_all (\<lambda>f. plain_relative (ap_path f) \<and> validate_shape f = Inr ()) files'"
  using assms
proof (induction files arbitrary: paths done_files)
  case (Cons f files)
  from Cons.prems(1) obtain parts where p: "validate_shape f = Inr ()" "path_parts (components (ap_path f)) = Inr parts"
    "join ''/'' parts \<noteq> []" "join ''/'' parts \<notin> set paths"
    and rest: "try_fold normalize_file (join ''/'' parts # paths, done_files @ [f\<lparr>ap_path := join ''/'' parts\<rparr>]) files = Inr (paths', files')"
    by (auto simp: normalize_file_Ok split: sum.splits)
  have "parts \<noteq> []" using p(3) by auto
  then have "plain_relative (join ''/'' parts)"
    using components_join_parts [OF p(2)] by (auto simp: plain_relative_def)
  moreover have "validate_shape (f\<lparr>ap_path := join ''/'' parts\<rparr>) = Inr ()" using p(1) by (simp add: validate_shape_def)
  ultimately show ?case
    using Cons.IH [OF rest] Cons.prems(2-4) p(4) by auto
qed simp

lemma parse_edit_Ok:
  assumes "parse_edit el v = Ok files"
  shows "files \<noteq> []" "length files \<le> 32" "distinct (map ap_path files)"
    "list_all (\<lambda>f. plain_relative (ap_path f) \<and> validate_shape f = Inr ()) files"
proof -
  from assms obtain fs paths where fs: "fs \<noteq> []" "length fs \<le> 32" "try_fold normalize_file ([], []) fs = Inr (paths, files)"
    by (auto simp: parse_edit_def split: json.splits if_splits)
  from normalize_files_Ok [OF fs(3)] fs show "files \<noteq> []" "length files \<le> 32" "distinct (map ap_path files)"
    "list_all (\<lambda>f. plain_relative (ap_path f) \<and> validate_shape f = Inr ()) files"
    by auto
qed

text \<open>An edit request names its files unambiguously.  When a request is accepted, in whichever of
  the three forms, it has between 1 and 32 files, their paths are pairwise different and normalised
  (only plain names: no root, no parent, no dot segments), every file has either a content or at least
  one and at most 100 edits, and these paths are the write targets that \<open>editing_paths\<close> reports.\<close>

theorem edit_request_targets:
  assumes "parse_edit el v = Ok files"
  shows "1 \<le> length files \<and> length files \<le> 32 \<and> distinct (map ap_path files) \<and>
    list_all (\<lambda>f. plain_relative (ap_path f)) files \<and>
    list_all (\<lambda>f. length (ap_edits f) \<le> 100 \<and> (ap_content f = None) = (ap_edits f \<noteq> [])) files \<and>
    editing_paths el v = Ok (map ap_path files)"
proof -
  have "length (ap_edits f) \<le> 100 \<and> (ap_content f = None) = (ap_edits f \<noteq> [])" if "validate_shape f = Inr ()" for f
    using that by (auto simp: validate_shape_def split: if_splits bool.splits)
  with parse_edit_Ok [OF assms] assms show ?thesis
    by (auto simp: list_all_iff editing_paths_def Suc_le_eq)
qed

theorem edit_request_targets_witness:
  "let el = \<lparr>el_to_string = (\<lambda>_. ''{}''), el_args_from_value = (\<lambda>_. Ok \<lparr>ap_path = ''./src//a.rs'', ap_expected_sha256 = None,
              ap_expected_revision = None, ap_content = Some ''x'', ap_edits = []\<rparr>), el_args_list_from_value = (\<lambda>_. Err ''no'')\<rparr>
   in editing_paths el (JObj [(''path'', JStr ''./src//a.rs'')]) = Ok [''src/a.rs'']"
proof -
  let ?f = "\<lambda>p. \<lparr>ap_path = p, ap_expected_sha256 = None, ap_expected_revision = None, ap_content = Some ''x'', ap_edits = []\<rparr>"
  let ?el = "\<lparr>el_to_string = (\<lambda>_. ''{}''), el_args_from_value = (\<lambda>_. Inr (?f ''./src//a.rs'')), el_args_list_from_value = (\<lambda>_. Inl ''no'')\<rparr>"
  have "path_parts (components ''./src//a.rs'') = Inr [''src'', ''a.rs'']" by code_simp
  then have "parse_edit ?el (JObj [(''path'', JStr ''./src//a.rs'')]) = Inr [?f ''src/a.rs'']"
    by (simp add: parse_edit_def request_files_def MAX_EDIT_BYTES_def normalize_file_def validate_shape_def Let_def)
  from edit_request_targets [OF this] show ?thesis by (simp add: Let_def)
qed

end
