(* ===== verification/Workspace_Edit.thy ===== *)
theory Workspace_Edit
  imports Turn_Changes Patch_Format
begin

text \<open>
  Editing the files of a workspace: reading and replacing a file in \<open>crates/tool-runtime/src/lib.rs\<close>,
  the edit tool of \<open>crates/execution/src/editing.rs\<close> and the file part of \<open>undo_turn\<close> in
  \<open>crates/execution/src/lib.rs\<close>.  The workspace is a map from the components of a path to the content
  of the regular file there.  What the operating system does is an input of each operation: it may fail
  to open a file, to write the temporary file, to rename it, or to make the rename durable.
\<close>

section \<open>Files\<close>

type_synonym files = "string list \<Rightarrow> string option"

record WriteResult =
  wr_path :: string
  wr_previous_sha256 :: "string option"
  wr_sha256 :: string
  wr_bytes_written :: nat

record FileSnapshot =
  fs_path :: string
  fs_content :: "string option"
  fs_sha256 :: "string option"

datatype OpenFault = OpenLoop | OpenOther string | HandleProtected | HandleNotRegular

record WriteIo =
  wi_open :: "OpenFault option"
  wi_temp :: "IoError option"
  wi_rename :: "IoError option"
  wi_sync :: "IoError option"

definition MAX_TOOL_FILE_BYTES :: nat where
  "MAX_TOOL_FILE_BYTES = 16 * 1024 * 1024"

text \<open>The digest function is a parameter; the code stores its hexadecimal text.\<close>

definition content_sha256 :: "(string \<Rightarrow> string) \<Rightarrow> string \<Rightarrow> string" where
  "content_sha256 digest content = hex (digest content)"

definition secure_path_error :: "string \<Rightarrow> IoError \<Rightarrow> ToolError" where
  "secure_path_error relative error = (if error = IoLoop then TE_Boundary relative else TE_Io error)"

fun open_error :: "string \<Rightarrow> OpenFault \<Rightarrow> ToolError" where
  "open_error relative OpenLoop = secure_path_error relative IoLoop"
| "open_error relative (OpenOther e) = secure_path_error relative (IoOther e)"
| "open_error relative HandleProtected = TE_Protected"
| "open_error relative HandleNotRegular = TE_Invalid ''path is not a regular file''"

text \<open>Open the file of a path: \<^const>\<open>None\<close> when there is none.\<close>

definition open_target :: "PathGuard \<Rightarrow> OpenFault option \<Rightarrow> files \<Rightarrow> string \<Rightarrow> ToolError + (string list \<times> string option)" where
  "open_target g fault files relative =
     and_then (validated_components g relative) (\<lambda>parts.
       case fault of
         Some f \<Rightarrow> Err (open_error relative f)
       | None \<Rightarrow> Ok (parts, files parts))"

definition read_bounded :: "string \<Rightarrow> ToolError + string" where
  "read_bounded content =
     (if length content > MAX_TOOL_FILE_BYTES then Err (TE_Invalid ''file exceeds the 16 MiB file-tool limit'')
      else Ok content)"

definition read_workspace_file :: "PathGuard \<Rightarrow> OpenFault option \<Rightarrow> files \<Rightarrow> string \<Rightarrow> ToolError + string" where
  "read_workspace_file g fault files relative =
     and_then (open_target g fault files relative) (\<lambda>(parts, current).
       case current of
         None \<Rightarrow> Err (secure_path_error relative IoNotFound)
       | Some content \<Rightarrow> read_bounded content)"

definition read_optional_workspace_file ::
  "PathGuard \<Rightarrow> OpenFault option \<Rightarrow> files \<Rightarrow> string \<Rightarrow> ToolError + string option" where
  "read_optional_workspace_file g fault files relative =
     (case read_workspace_file g fault files relative of
        Inr content \<Rightarrow> Ok (Some content)
      | Inl e \<Rightarrow> if e = TE_Io IoNotFound then Ok None else Err e)"

definition snapshot_file :: "(string \<Rightarrow> string) \<Rightarrow> PathGuard \<Rightarrow> OpenFault option \<Rightarrow> files \<Rightarrow> string \<Rightarrow> ToolError + FileSnapshot" where
  "snapshot_file digest g fault files relative =
     and_then (read_optional_workspace_file g fault files relative) (\<lambda>content.
       Ok \<lparr>fs_path = relative, fs_content = content, fs_sha256 = map_option (content_sha256 digest) content\<rparr>)"

text \<open>The replacement is written to a temporary file and renamed over the target; every failure before
  the rename leaves the target as it was, a failure to synchronise the directory comes after it.\<close>

definition rename_error :: "string option \<Rightarrow> IoError \<Rightarrow> ToolError" where
  "rename_error previous_sha256 error =
     (if previous_sha256 = None \<and> error = IoAlreadyExists then TE_ConcurrentModification else TE_Io error)"

definition current_hash :: "(string \<Rightarrow> string) \<Rightarrow> string option \<Rightarrow> string option \<Rightarrow> ToolError + string option" where
  "current_hash digest current expected_sha256 =
     (case current of
        Some content \<Rightarrow>
          and_then (read_bounded content) (\<lambda>content.
          and_then (ok_or expected_sha256 TE_MissingExpectedHash) (\<lambda>expected.
            if expected \<noteq> content_sha256 digest content then Err TE_ConcurrentModification
            else Ok (Some (content_sha256 digest content))))
      | None \<Rightarrow> if expected_sha256 \<noteq> None then Err TE_ConcurrentModification else Ok None)"

definition replace_workspace_file ::
  "(string \<Rightarrow> string) \<Rightarrow> PathGuard \<Rightarrow> WriteIo \<Rightarrow> files \<Rightarrow> string \<Rightarrow> string option \<Rightarrow> string \<Rightarrow>
   files \<times> (ToolError + string option)" where
  "replace_workspace_file digest g io files relative expected_sha256 content =
     (case open_target g (wi_open io) files relative of
        Inl e \<Rightarrow> (files, Err e)
      | Inr (parts, current) \<Rightarrow>
          (case current_hash digest current expected_sha256 of
             Inl e \<Rightarrow> (files, Err e)
           | Inr previous_sha256 \<Rightarrow>
               (case (wi_temp io, wi_rename io, wi_sync io) of
                  (Some e, _, _) \<Rightarrow> (files, Err (TE_Io e))
                | (None, Some e, _) \<Rightarrow> (files, Err (rename_error previous_sha256 e))
                | (None, None, Some e) \<Rightarrow> (files(parts := Some content), Err (TE_Durability relative e))
                | (None, None, None) \<Rightarrow> (files(parts := Some content), Ok previous_sha256))))"

definition remove_workspace_file ::
  "(string \<Rightarrow> string) \<Rightarrow> PathGuard \<Rightarrow> WriteIo \<Rightarrow> files \<Rightarrow> string \<Rightarrow> string \<Rightarrow> files \<times> (ToolError + unit)" where
  "remove_workspace_file digest g io files relative expected_sha256 =
     (case open_target g (wi_open io) files relative of
        Inl e \<Rightarrow> (files, Err e)
      | Inr (parts, None) \<Rightarrow> (files, Err (secure_path_error relative IoNotFound))
      | Inr (parts, Some content) \<Rightarrow>
          (case read_bounded content of
             Inl e \<Rightarrow> (files, Err e)
           | Inr content \<Rightarrow>
               if content_sha256 digest content \<noteq> expected_sha256 then (files, Err TE_ConcurrentModification)
               else
                 (case (wi_rename io, wi_sync io) of
                    (Some e, _) \<Rightarrow> (files, Err (secure_path_error relative e))
                  | (None, Some e) \<Rightarrow> (files(parts := None), Err (TE_Io e))
                  | (None, None) \<Rightarrow> (files(parts := None), Ok ()))))"

definition apply_replacement ::
  "(string \<Rightarrow> string) \<Rightarrow> PathGuard \<Rightarrow> WriteIo \<Rightarrow> files \<Rightarrow> FileReplacement \<Rightarrow> files \<times> (ToolError + WriteResult)" where
  "apply_replacement digest g io files replacement =
     (if length (fr_content replacement) > MAX_TOOL_FILE_BYTES
      then (files, Err (TE_Invalid ''replacement exceeds the 16 MiB file-tool limit''))
      else
        (case replace_workspace_file digest g io files (fr_path replacement) (fr_expected_sha256 replacement)
                (fr_content replacement) of
           (files', Inl e) \<Rightarrow> (files', Err e)
         | (files', Inr previous_sha256) \<Rightarrow>
             (files', Ok \<lparr>wr_path = fr_path replacement, wr_previous_sha256 = previous_sha256,
                wr_sha256 = content_sha256 digest (fr_content replacement),
                wr_bytes_written = length (fr_content replacement)\<rparr>)))"

definition restore_file ::
  "(string \<Rightarrow> string) \<Rightarrow> PathGuard \<Rightarrow> WriteIo \<Rightarrow> files \<Rightarrow> string \<Rightarrow> string \<Rightarrow> string option \<Rightarrow>
   files \<times> (ToolError + unit)" where
  "restore_file digest g io files relative expected_current_sha256 before_content =
     (case before_content of
        Some content \<Rightarrow>
          if length content > MAX_TOOL_FILE_BYTES
          then (files, Err (TE_Invalid ''restore image exceeds the 16 MiB file-tool limit''))
          else
            (case replace_workspace_file digest g io files relative (Some expected_current_sha256) content of
               (files', Inl e) \<Rightarrow> (files', Err e)
             | (files', Inr _) \<Rightarrow> (files', Ok ()))
      | None \<Rightarrow> remove_workspace_file digest g io files relative expected_current_sha256)"

section \<open>What a write does to the files\<close>

definition plain_parts :: "string list \<Rightarrow> bool" where
  "plain_parts parts \<longleftrightarrow> parts \<noteq> [] \<and> components (join ''/'' parts) = map Normal parts"

lemma plain_relative_parts: "plain_relative p \<longleftrightarrow> (\<exists>parts. plain_parts parts \<and> p = join ''/'' parts)"
  by (auto simp: plain_relative_def plain_parts_def)

lemma plain_parts_inj:
  assumes "plain_parts a" "plain_parts b" "join ''/'' a = join ''/'' b"
  shows "a = b"
proof -
  have "map Normal a = map Normal b" using assms by (metis plain_parts_def)
  then show ?thesis by (auto dest: map_injective simp: inj_def)
qed

lemma concat_normal_parts: "concat (map normal_part (map Normal parts)) = parts"
  by (induction parts) auto

lemma validated_plain:
  assumes "plain_parts parts" and "validated_components g (join ''/'' parts) = Ok ps"
  shows "ps = parts"
proof -
  have "ps = concat (map normal_part (components (join ''/'' parts)))"
    using assms(2) by (auto simp: validated_components_def Let_def split: if_splits)
  then show ?thesis using assms(1) concat_normal_parts by (simp add: plain_parts_def del: map_map)
qed

lemma validated_any_guard:
  assumes "validated_components g p = Ok ps" and "pg_protections g' = []"
  shows "validated_components g' p = Ok ps"
  using assms by (auto simp: validated_components_def check_protected_path_def Let_def split: if_splits)

lemma open_target_plain:
  assumes "plain_parts parts" and "open_target g fault files (join ''/'' parts) = Ok (ps, current)"
  shows "ps = parts" "current = files parts" "fault = None"
  using assms(2) validated_plain [OF assms(1)] by (auto simp: open_target_def split: option.splits)

text \<open>A replacement either leaves the files alone, or puts the new content in place after the expected
  hash was found there.\<close>

lemma replace_outcome:
  assumes "replace_workspace_file digest g io files (join ''/'' parts) expected content = (files', r)" and "plain_parts parts"
  obtains (untouched) e where "files' = files" "r = Err e" "\<And>p x. e \<noteq> TE_Durability p x"
  | (written) "files' = files(parts := Some content)" "expected = map_option (content_sha256 digest) (files parts)"
      "(\<exists>x. r = Ok x) \<or> (\<exists>p x. r = Err (TE_Durability p x))"
proof (cases "open_target g (wi_open io) files (join ''/'' parts)")
  case (Inl e)
  have "e \<noteq> TE_Durability p x" for p x
    using Inl by (auto simp: open_target_def validated_components_def reject_sensitive_def check_protected_path_def
        secure_path_error_def Let_def and_then_Err_iff split: option.splits if_splits elim!: open_error.elims)
  then show thesis using assms(1) Inl untouched by (auto simp: replace_workspace_file_def)
next
  case (Inr pc)
  then obtain ps current where pc: "pc = (ps, current)" by (cases pc)
  note t = open_target_plain [OF assms(2) Inr [unfolded pc]]
  show thesis
  proof (cases "current_hash digest current expected")
    case (Inl e)
    have "e \<noteq> TE_Durability p x" for p x
      using Inl by (auto simp: current_hash_def read_bounded_def and_then_Err_iff split: option.splits if_splits)
    then show thesis using assms(1) Inr pc Inl untouched [of e] by (simp add: replace_workspace_file_def)
  next
    case (Inr previous)
    have x: "expected = map_option (content_sha256 digest) (files parts)"
      using Inr t(2) by (auto simp: current_hash_def read_bounded_def split: option.splits if_splits)
    have "files' = files \<and> (\<exists>e. r = Err (TE_Io e) \<or> r = Err TE_ConcurrentModification) \<or>
        files' = files(parts := Some content) \<and> (r = Ok previous \<or> (\<exists>p x. r = Err (TE_Durability p x)))"
      using assms(1) \<open>open_target _ _ _ _ = Inr pc\<close> pc Inr t
      by (auto simp: replace_workspace_file_def rename_error_def split: option.splits if_splits)
    then show thesis
    proof
      assume "files' = files \<and> (\<exists>e. r = Err (TE_Io e) \<or> r = Err TE_ConcurrentModification)"
      then show thesis using untouched by auto
    qed (use written x in blast)
  qed
qed

definition no_write_fault :: "WriteIo \<Rightarrow> bool" where
  "no_write_fault io \<longleftrightarrow> wi_open io = None \<and> wi_temp io = None \<and> wi_rename io = None \<and> wi_sync io = None"

definition sized :: "string option \<Rightarrow> bool" where
  "sized content \<longleftrightarrow> (case content of None \<Rightarrow> True | Some c \<Rightarrow> length c \<le> MAX_TOOL_FILE_BYTES)"

lemma sized_simps [simp]: "sized None" "sized (Some c) \<longleftrightarrow> length c \<le> MAX_TOOL_FILE_BYTES"
  by (simp_all add: sized_def)

lemma apply_replacement_outcome:
  assumes "apply_replacement digest g io files r = (files', res)" and "fr_path r = join ''/'' parts" and "plain_parts parts"
  obtains (untouched) e where "files' = files" "res = Err e" "\<And>p x. e \<noteq> TE_Durability p x"
  | (written) "files' = files(parts := Some (fr_content r))" "sized (Some (fr_content r))"
      "fr_expected_sha256 r = map_option (content_sha256 digest) (files parts)"
      "(\<exists>x. res = Ok x) \<or> (\<exists>p x. res = Err (TE_Durability p x))"
proof (cases "length (fr_content r) > MAX_TOOL_FILE_BYTES")
  case True
  then show thesis using assms(1) untouched by (auto simp: apply_replacement_def)
next
  case False
  obtain files'' r' where w: "replace_workspace_file digest g io files (fr_path r) (fr_expected_sha256 r) (fr_content r) = (files'', r')"
    by fastforce
  from w [unfolded assms(2)] assms(3) show thesis
  proof (cases rule: replace_outcome)
    case (untouched e)
    then show thesis using assms(1) w False that(1) by (auto simp: apply_replacement_def)
  next
    case written
    then show thesis using assms(1) w False that(2) by (auto simp: apply_replacement_def)
  qed
qed

lemma restore_outcome:
  assumes "restore_file digest g io files (join ''/'' parts) expected before = (files', r)" and "plain_parts parts"
  shows "files' = files \<and> (\<exists>e. r = Err e) \<or> files' = files(parts := before)"
proof (cases before)
  case None
  then show ?thesis
    using assms(1)
    by (auto simp: restore_file_def remove_workspace_file_def dest!: open_target_plain(1) [OF assms(2)] split: sum.splits option.splits if_splits prod.splits)
next
  case (Some content)
  obtain files'' r' where w: "replace_workspace_file digest g io files (join ''/'' parts) (Some expected) content = (files'', r')"
    by fastforce
  from w assms(2) show ?thesis
    by (cases rule: replace_outcome) (use assms(1) w Some in \<open>auto simp: restore_file_def split: if_splits\<close>)
qed

lemma restore_succeeds:
  assumes "plain_parts parts" and "validated_components g (join ''/'' parts) = Ok parts" and "no_write_fault io"
    and "files parts = Some current" and "content_sha256 digest current = expected" and "sized (Some current)" and "sized before"
  shows "restore_file digest g io files (join ''/'' parts) expected before = (files(parts := before), Ok ())"
proof -
  have t: "open_target g (wi_open io) files (join ''/'' parts) = Ok (parts, Some current)"
    using assms by (simp add: open_target_def no_write_fault_def)
  show ?thesis
    using assms t
    by (cases before)
      (auto simp: restore_file_def remove_workspace_file_def replace_workspace_file_def read_bounded_def current_hash_def ok_or_def no_write_fault_def)
qed

lemma snapshot_Ok:
  assumes "snapshot_file digest g fault files (join ''/'' parts) = Ok s" and "plain_parts parts"
  shows "fs_content s = files parts" "fs_sha256 s = map_option (content_sha256 digest) (files parts)" "sized (files parts)"
    "validated_components g (join ''/'' parts) = Ok parts"
proof -
  obtain ps current where t: "open_target g fault files (join ''/'' parts) = Ok (ps, current)"
  proof (cases "open_target g fault files (join ''/'' parts)")
    case (Inl e)
    have "e \<noteq> TE_Io IoNotFound"
      using Inl by (auto simp: open_target_def validated_components_def reject_sensitive_def check_protected_path_def
          secure_path_error_def Let_def and_then_Err_iff split: option.splits if_splits elim!: open_error.elims)
    then show thesis
      using assms(1) Inl by (simp add: snapshot_file_def read_optional_workspace_file_def read_workspace_file_def)
  qed auto
  note p = open_target_plain [OF assms(2) t]
  show "fs_content s = files parts" "fs_sha256 s = map_option (content_sha256 digest) (files parts)" "sized (files parts)"
    using assms(1) t p
    by (auto simp: snapshot_file_def read_optional_workspace_file_def read_workspace_file_def read_bounded_def
        secure_path_error_def split: option.splits if_splits)
  show "validated_components g (join ''/'' parts) = Ok parts"
    using t p by (auto simp: open_target_def split: option.splits)
qed

lemma snapshot_succeeds:
  assumes "validated_components g (join ''/'' parts) = Ok parts" and "sized (files parts)"
  shows "snapshot_file digest g None files (join ''/'' parts) =
    Ok \<lparr>fs_path = join ''/'' parts, fs_content = files parts, fs_sha256 = map_option (content_sha256 digest) (files parts)\<rparr>"
  using assms
  by (auto simp: snapshot_file_def read_optional_workspace_file_def read_workspace_file_def open_target_def read_bounded_def
      secure_path_error_def split: option.splits)

end
