(* ===== verification/Edit_Service.thy ===== *)
theory Edit_Service
  imports Workspace_Edit
begin

text \<open>
  The edit tool and the undo of its file changes: \<open>prepare_file\<close>, \<open>apply_edits\<close> and
  \<open>write_prepared_edit\<close> of \<open>crates/execution/src/editing.rs\<close> and the file part of \<open>undo_turn\<close> in
  \<open>crates/execution/src/lib.rs\<close>, over the ledger of \<open>Turn_Changes\<close> and the files of \<open>Workspace_Edit\<close>.
\<close>

section \<open>Error texts\<close>

fun io_error_text :: "IoError \<Rightarrow> string" where
  "io_error_text IoNotFound = ''entity not found''"
| "io_error_text IoAlreadyExists = ''entity already exists''"
| "io_error_text IoLoop = ''filesystem loop or indirection limit (e.g. symlink loop)''"
| "io_error_text (IoOther e) = e"

fun tool_error_text :: "ToolError \<Rightarrow> string" where
  "tool_error_text (TE_Boundary p) = ''path escapes workspace: '' @ p"
| "tool_error_text (TE_Sensitive p) = ''sensitive path is denied: '' @ p"
| "tool_error_text TE_Protected = ''access denied by file protection''"
| "tool_error_text TE_ConcurrentModification = ''file changed since it was read''"
| "tool_error_text TE_MissingExpectedHash = ''expected hash is required when replacing an existing file''"
| "tool_error_text (TE_Io e) = ''I/O error: '' @ io_error_text e"
| "tool_error_text (TE_Durability p e) =
     ''file '' @ p @ '' was written, but directory synchronization failed; durability is unconfirmed: '' @ io_error_text e"
| "tool_error_text (TE_Runtime e) = ''runtime error: '' @ e"
| "tool_error_text (TE_Invalid e) = ''invalid argument: '' @ e"

fun storage_error_text :: "StorageError \<Rightarrow> string" where
  "storage_error_text (SE_Database e) = ''database error: '' @ e"
| "storage_error_text (SE_Migration e) = ''database migration error: '' @ e"
| "storage_error_text (SE_InvalidData e) = ''invalid stored data: '' @ e"
| "storage_error_text SE_NotFound = ''resource not found''"
| "storage_error_text SE_ScopeMismatch = ''scope mismatch''"
| "storage_error_text (SE_InvalidState e) = ''invalid state transition: '' @ e"
| "storage_error_text (SE_Io e) = ''filesystem error: '' @ e"
| "storage_error_text (SE_Encryption e) = ''sensitive data encryption failed: '' @ e"

fun execution_error_text :: "ExecutionError \<Rightarrow> string" where
  "execution_error_text (EE_Storage e) = storage_error_text e"
| "execution_error_text (EE_Tool e) = tool_error_text e"
| "execution_error_text (EE_Arguments e) = ''invalid tool arguments: '' @ e"
| "execution_error_text (EE_Approval e) = ''invalid approval state: '' @ e"

section \<open>Preparing an edit\<close>

record Prepared =
  pe_snapshot :: FileSnapshot
  pe_replacement :: FileReplacement
  pe_after_sha256 :: string

definition wanted_revision :: "ApplyPatchArgs \<Rightarrow> string option" where
  "wanted_revision patch =
     (case (case ap_expected_revision patch of Some r \<Rightarrow> Some r | None \<Rightarrow> ap_expected_sha256 patch) of
        Some v \<Rightarrow> if eq_ignore_ascii_case v ''null'' then None else Some v
      | None \<Rightarrow> None)"

definition checked_revision :: "FileSnapshot \<Rightarrow> ApplyPatchArgs \<Rightarrow> ExecutionError + ApplyPatchArgs" where
  "checked_revision snapshot patch =
     (case (fs_sha256 snapshot, wanted_revision patch) of
        (Some current, Some expected) \<Rightarrow>
          if expected_revision_matches current expected then Ok (patch\<lparr>ap_expected_sha256 := Some current\<rparr>)
          else Err (EE_Arguments (''expected_revision does not match the current file; read the file again and use its 16-character revision ''
                 @ take 16 current))
      | (Some _, None) \<Rightarrow> Err (EE_Tool TE_MissingExpectedHash)
      | (None, None) \<Rightarrow> Ok patch
      | (None, Some _) \<Rightarrow>
          Err (EE_Arguments ''the file does not exist; use JSON null for expected_revision when creating it''))"

definition lift_tool :: "ToolError + 'a \<Rightarrow> ExecutionError + 'a" where
  "lift_tool r = (case r of Inl e \<Rightarrow> Err (EE_Tool e) | Inr x \<Rightarrow> Ok x)"

definition prepare_file :: "(string \<Rightarrow> string) \<Rightarrow> PathGuard \<Rightarrow> OpenFault option \<Rightarrow> files \<Rightarrow> ApplyPatchArgs \<Rightarrow>
    ExecutionError + Prepared" where
  "prepare_file digest g fault files patch =
     and_then (lift_tool (snapshot_file digest g fault files (ap_path patch))) (\<lambda>snapshot.
     and_then (checked_revision snapshot patch) (\<lambda>patch.
       if fs_content snapshot = None \<and> ap_content patch = None
       then Err (EE_Arguments ''exact text edits require an existing file; use content to create a file'')
       else
         and_then (into_replacement patch (case fs_content snapshot of None \<Rightarrow> [] | Some c \<Rightarrow> c)) (\<lambda>replacement.
           Ok \<lparr>pe_snapshot = snapshot, pe_replacement = replacement,
               pe_after_sha256 = content_sha256 digest (fr_content replacement)\<rparr>)))"

section \<open>Applying edits\<close>

text \<open>The environment of an edit call, per path: what the identity of the target is, whether reading
  fails, and the environments of the store calls and of the write.\<close>

record EditEnv =
  ee_identity :: "string \<Rightarrow> ToolError + string"
  ee_read :: "string \<Rightarrow> OpenFault option"
  ee_plan :: "string \<Rightarrow> LedgerCall"
  ee_write :: "string \<Rightarrow> WriteIo"
  ee_complete :: "string \<Rightarrow> LedgerCall"
  ee_abort :: "string \<Rightarrow> LedgerCall"

record EditSystem =
  es_edit :: EditLibrary
  es_cipher :: CipherLibrary
  es_codec :: SensitiveCodec
  es_digest :: "string \<Rightarrow> string"

record World =
  wd_files :: files
  wd_store :: TurnStore

abbreviation es_sha256 :: "EditSystem \<Rightarrow> string \<Rightarrow> string" where
  "es_sha256 S \<equiv> content_sha256 (es_digest S)"

fun distinct_targets :: "(string \<Rightarrow> ToolError + string) \<Rightarrow> string list \<Rightarrow> ApplyPatchArgs list \<Rightarrow> ExecutionError + unit" where
  "distinct_targets target_identity seen [] = Ok ()"
| "distinct_targets target_identity seen (patch # patches) =
     and_then (lift_tool (target_identity (ap_path patch))) (\<lambda>identity.
       if identity \<in> set seen
       then Err (invalid (''duplicate file target '' @ ap_path patch @ '': paths must refer to distinct files; no files were written''))
       else distinct_targets target_identity (identity # seen) patches)"

text \<open>The preparation loop, with the bytes of the snapshots and of the replacements so far.\<close>

fun prepare_files :: "(string \<Rightarrow> string) \<Rightarrow> PathGuard \<Rightarrow> (string \<Rightarrow> OpenFault option) \<Rightarrow> files \<Rightarrow> nat \<Rightarrow> nat \<Rightarrow>
    ApplyPatchArgs list \<Rightarrow> ExecutionError + Prepared list" where
  "prepare_files digest g faults files snapshot_bytes total_bytes [] = Ok []"
| "prepare_files digest g faults files snapshot_bytes total_bytes (patch # patches) =
     (case prepare_file digest g (faults (ap_path patch)) files patch of
        Inl e \<Rightarrow> Err (invalid (''cannot prepare '' @ ap_path patch @ '': '' @ execution_error_text e @ ''; no files were written''))
      | Inr p \<Rightarrow>
          let snapshot_bytes' = snapshot_bytes + (case fs_content (pe_snapshot p) of None \<Rightarrow> 0 | Some c \<Rightarrow> length c);
              total_bytes' = total_bytes + length (fr_content (pe_replacement p))
          in if snapshot_bytes' > MAX_EDIT_BYTES
             then Err (invalid ''input snapshots exceed 16 MiB per call; split the batch'')
             else if total_bytes' > MAX_EDIT_BYTES
             then Err (EE_Arguments ''edited content exceeds 16 MiB per call'')
             else and_then (prepare_files digest g faults files snapshot_bytes' total_bytes' patches) (\<lambda>ps. Ok (p # ps)))"

definition write_result_json :: "WriteResult \<Rightarrow> json" where
  "write_result_json r =
     jobj [(''path'', JStr (wr_path r)),
           (''previous_sha256'', case wr_previous_sha256 r of None \<Rightarrow> JNull | Some h \<Rightarrow> JStr h),
           (''sha256'', JStr (wr_sha256 r)), (''bytes_written'', JNum (PosInt (word_of_nat (wr_bytes_written r))))]"

definition lift_storage :: "StorageError + 'a \<Rightarrow> ExecutionError + 'a" where
  "lift_storage r = (case r of Inl e \<Rightarrow> Err (EE_Storage e) | Inr x \<Rightarrow> Ok x)"

definition write_prepared_edit ::
  "EditSystem \<Rightarrow> PathGuard \<Rightarrow> EditEnv \<Rightarrow> ToolRequest \<Rightarrow> World \<Rightarrow> Prepared \<Rightarrow> json list \<Rightarrow>
   World \<times> json list \<times> (ExecutionError + unit)" where
  "write_prepared_edit S g env request w p results =
     (let path = fr_path (pe_replacement p) in
      case plan_turn_file_change (es_cipher S) (es_codec S) (ee_plan env path) (wd_store w) (tr_scope request)
             (tr_turn_id request) path (fs_content (pe_snapshot p)) (fs_sha256 (pe_snapshot p)) (pe_after_sha256 p) of
        (st, Inl e) \<Rightarrow> (w\<lparr>wd_store := st\<rparr>, results, Err (EE_Storage e))
      | (st, Inr plan) \<Rightarrow>
          (case apply_replacement (es_digest S) g (ee_write env path) (wd_files w) (pe_replacement p) of
             (files, Inr r) \<Rightarrow>
               (case complete_turn_file_change (ee_complete env path) st plan of
                  (st', outcome) \<Rightarrow>
                    (w\<lparr>wd_files := files, wd_store := st'\<rparr>, results @ [write_result_json r], lift_storage outcome))
           | (files, Inl e) \<Rightarrow>
               (case e of
                  TE_Durability _ _ \<Rightarrow>
                    (case complete_turn_file_change (ee_complete env path) st plan of
                       (st', outcome) \<Rightarrow>
                         (w\<lparr>wd_files := files, wd_store := st'\<rparr>,
                          results @ [jobj [(''path'', JStr path), (''sha256'', JStr (pe_after_sha256 p)), (''durability'', JStr ''unconfirmed'')]],
                          and_then (lift_storage outcome) (\<lambda>_. Err (EE_Tool e))))
                | _ \<Rightarrow>
                    (case abort_turn_file_change (ee_abort env path) st plan of
                       (st', outcome) \<Rightarrow>
                         (w\<lparr>wd_files := files, wd_store := st'\<rparr>, results,
                          and_then (lift_storage outcome) (\<lambda>_. Err (EE_Tool e)))))))"

text \<open>The writing loop stops at the first failure.\<close>

fun write_files ::
  "EditSystem \<Rightarrow> PathGuard \<Rightarrow> EditEnv \<Rightarrow> ToolRequest \<Rightarrow> bool \<Rightarrow> World \<Rightarrow> Prepared list \<Rightarrow> json list \<Rightarrow>
   World \<times> (ExecutionError + json list)" where
  "write_files S g env request batch w [] results = (w, Ok results)"
| "write_files S g env request batch w (p # ps) results =
     (case write_prepared_edit S g env request w p results of
        (w', results', Inr _) \<Rightarrow> write_files S g env request batch w' ps results'
      | (w', results', Inl e) \<Rightarrow>
          (w', Err (if \<not> batch then e
             else EE_Arguments (''batch stopped at '' @ fr_path (pe_replacement p) @ '': '' @ execution_error_text e
                    @ ''; applied files: '' @ el_to_string (es_edit S) (JArr (map (\<lambda>r. jindex r ''path'') results'))
                    @ ''; later files were not attempted. Inspect the failed target too; its write may have completed before an I/O error. Re-read before retrying; Turn undo records are retained.''))))"

definition apply_edits ::
  "EditSystem \<Rightarrow> PathGuard \<Rightarrow> EditEnv \<Rightarrow> ToolRequest \<Rightarrow> World \<Rightarrow> World \<times> (ExecutionError + json)" where
  "apply_edits S g env request w =
     (let batch = (jget (tr_arguments request) ''path'' = None) in
      case and_then (parse_edit (es_edit S) (tr_arguments request)) (\<lambda>patches.
             and_then (if length patches > 1 then distinct_targets (ee_identity env) [] patches else Ok ()) (\<lambda>_.
               prepare_files (es_digest S) g (ee_read env) (wd_files w) 0 0 patches)) of
        Inl e \<Rightarrow> (w, Err e)
      | Inr prepared \<Rightarrow>
          (case write_files S g env request batch w prepared [] of
             (w', Inl e) \<Rightarrow> (w', Err e)
           | (w', Inr results) \<Rightarrow>
               (w', if batch then Ok (jobj [(''files'', JArr results)])
                    else (case results of r # _ \<Rightarrow> Ok r | [] \<Rightarrow> Err (invalid ''unreachable'')))))"

section \<open>Undoing the file changes of a turn\<close>

record UndoEnv =
  ue_list :: LedgerCall
  ue_read :: "string \<Rightarrow> OpenFault option"
  ue_cancel_inputs :: "StorageError option"
  ue_restore :: "string \<Rightarrow> WriteIo"
  ue_mark :: "string \<Rightarrow> LedgerCall"

definition effective_after :: "FileSnapshot \<Rightarrow> TurnFileChange \<Rightarrow> ExecutionError + string option" where
  "effective_after current change =
     (let is_before = (fs_sha256 current = tfc_before_sha256 change);
          is_after = (fs_sha256 current = Some (tfc_after_sha256 change));
          is_previous = (tfc_previous_after_sha256 change \<noteq> None \<and> fs_sha256 current = tfc_previous_after_sha256 change)
      in if \<not> is_before \<and> \<not> is_after \<and> \<not> is_previous then Err (EE_Tool TE_ConcurrentModification)
         else Ok (if is_before then None
                  else if is_after then Some (tfc_after_sha256 change)
                  else tfc_previous_after_sha256 change))"

definition undo_check :: "EditSystem \<Rightarrow> PathGuard \<Rightarrow> UndoEnv \<Rightarrow> files \<Rightarrow> TurnFileChange \<Rightarrow>
    ExecutionError + (TurnFileChange \<times> string option)" where
  "undo_check S g env files change =
     and_then (lift_tool (snapshot_file (es_digest S) g (ue_read env (tfc_path change)) files (tfc_path change))) (\<lambda>current.
     and_then (effective_after current change) (\<lambda>after. Ok (change, after)))"

definition undo_one :: "EditSystem \<Rightarrow> PathGuard \<Rightarrow> UndoEnv \<Rightarrow> Scope \<Rightarrow> Id \<Rightarrow> World \<Rightarrow> TurnFileChange \<times> string option \<Rightarrow>
    World \<times> (ExecutionError + unit)" where
  "undo_one S g env scope turn_id w checked =
     (case checked of (change, after) \<Rightarrow>
        (case (case after of
                 None \<Rightarrow> (wd_files w, Ok ())
               | Some expected_after \<Rightarrow>
                   restore_file (es_digest S) g (ue_restore env (tfc_path change)) (wd_files w) (tfc_path change)
                     expected_after (tfc_before_content change)) of
           (files, Inl e) \<Rightarrow> (w\<lparr>wd_files := files\<rparr>, Err (EE_Tool e))
         | (files, Inr _) \<Rightarrow>
             (case mark_turn_file_change_undone (ue_mark env (tfc_path change)) (wd_store w) scope turn_id (tfc_path change) of
                (st, outcome) \<Rightarrow> (w\<lparr>wd_files := files, wd_store := st\<rparr>, lift_storage outcome))))"

fun undo_all :: "EditSystem \<Rightarrow> PathGuard \<Rightarrow> UndoEnv \<Rightarrow> Scope \<Rightarrow> Id \<Rightarrow> World \<Rightarrow> (TurnFileChange \<times> string option) list \<Rightarrow>
    World \<times> (ExecutionError + string list)" where
  "undo_all S g env scope turn_id w [] = (w, Ok [])"
| "undo_all S g env scope turn_id w (c # cs) =
     (case undo_one S g env scope turn_id w c of
        (w', Inl e) \<Rightarrow> (w', Err e)
      | (w', Inr _) \<Rightarrow>
          (case undo_all S g env scope turn_id w' cs of
             (w'', Inl e) \<Rightarrow> (w'', Err e)
           | (w'', Inr paths) \<Rightarrow> (w'', Ok (tfc_path (fst c) # paths))))"

text \<open>Every change is checked before the first file is restored.\<close>

definition undo_files :: "EditSystem \<Rightarrow> PathGuard \<Rightarrow> UndoEnv \<Rightarrow> Scope \<Rightarrow> Id \<Rightarrow> World \<Rightarrow>
    World \<times> (ExecutionError + string list)" where
  "undo_files S g env scope turn_id w =
     (case and_then (lift_storage (list_turn_file_changes (es_cipher S) (es_codec S) (ue_list env) (wd_store w) scope turn_id)) (\<lambda>changes.
           and_then (try_map (undo_check S g env (wd_files w)) changes) (\<lambda>checked.
             case ue_cancel_inputs env of Some e \<Rightarrow> Err (EE_Storage e) | None \<Rightarrow> Ok checked)) of
        Inl e \<Rightarrow> (w, Err e)
      | Inr checked \<Rightarrow>
          (case undo_all S g env scope turn_id w checked of
             (w', Inl e) \<Rightarrow> (w', Err e)
           | (w', Inr paths) \<Rightarrow> (w', Ok (sort_by (\<lambda>a b. \<not> str_less b a) paths))))"

end
