(* ===== verification/Turn_Undo.thy ===== *)
theory Turn_Undo
  imports Edit_Service
begin

text \<open>
  Undoing a turn restores its files.  The invariant says of every path of the workspace that the
  ledger holds enough to restore it: without a row the file is as it was before the turn; with a row,
  the sealed before-image is the content before the turn, and the content now is that image, or has the
  recorded hash, or, while a change is planned, the hash recorded before it.  The invariant holds
  whatever fails in between, so an undo after any history of edits, failed edits and interrupted undos
  restores every file.
\<close>

section \<open>The invariant\<close>

definition entry_ok :: "EditSystem \<Rightarrow> Scope \<Rightarrow> string option \<Rightarrow> string option \<times> ChangeRow option \<Rightarrow> bool" where
  "entry_ok S scope before entry =
     (case entry of
        (content, None) \<Rightarrow> content = before
      | (content, Some row) \<Rightarrow>
          row_image (es_cipher S) (es_codec S) scope row = Ok before \<and>
          cr_before_sha256 row = map_option (es_sha256 S) before \<and> sized before \<and> sized content \<and>
          (cr_state row = ''undone'' \<and> content = before \<or>
           live_row row \<and>
             (content = before \<or>
              (\<exists>c. content = Some c \<and>
                 (es_sha256 S c = cr_after_sha256 row \<or>
                  cr_state row = ''planned'' \<and> cr_previous_after_sha256 row = Some (es_sha256 S c))))))"

definition view :: "Id \<Rightarrow> World \<Rightarrow> string list \<Rightarrow> string option \<times> ChangeRow option" where
  "view t w parts =
     (wd_files w parts, if plain_parts parts then row_at t (wd_store w) (join ''/'' parts) else None)"

text \<open>The paths the ledger can name: normalised, and neither sensitive nor outside the workspace.\<close>

definition open_guard :: PathGuard where
  "open_guard = \<lparr>pg_root = [], pg_protections = []\<rparr>"

definition target_parts :: "string list \<Rightarrow> bool" where
  "target_parts parts \<longleftrightarrow> plain_parts parts \<and> validated_components open_guard (join ''/'' parts) = Ok parts"

lemma target_plain: "target_parts parts \<Longrightarrow> plain_parts parts"
  by (simp add: target_parts_def)

lemma target_validated:
  assumes "target_parts parts" and "pg_protections g = []"
  shows "validated_components g (join ''/'' parts) = Ok parts"
proof -
  from assms(1) have "validated_components open_guard (join ''/'' parts) = Ok parts" by (simp add: target_parts_def)
  then show ?thesis using assms(2) by (rule validated_any_guard)
qed

lemma target_partsI:
  assumes "plain_parts parts" and "validated_components g (join ''/'' parts) = Ok parts"
  shows "target_parts parts"
  using assms validated_any_guard [OF assms(2), of open_guard] by (simp add: target_parts_def open_guard_def)

definition world_ok :: "EditSystem \<Rightarrow> Id \<Rightarrow> Turn \<Rightarrow> files \<Rightarrow> World \<Rightarrow> bool" where
  "world_ok S t turn before w \<longleftrightarrow>
     ledger_ok t (wd_store w) \<and> turn_known t turn (wd_store w) \<and>
     (\<forall>p. row_at t (wd_store w) p \<noteq> None \<longrightarrow> (\<exists>parts. target_parts parts \<and> p = join ''/'' parts)) \<and>
     (\<forall>parts. entry_ok S (tn_scope turn) (before parts) (view t w parts))"

text \<open>The elementary changes at one path.\<close>

inductive work_step :: "Id \<Rightarrow> string list \<Rightarrow> World \<Rightarrow> World \<Rightarrow> bool" for t parts w where
  Ledger: "target_parts parts \<Longrightarrow> ledger_step t (join ''/'' parts) (wd_store w) st
     \<Longrightarrow> work_step t parts w (w\<lparr>wd_store := st\<rparr>)"
| Replace: "target_parts parts \<Longrightarrow> apply_replacement digest g io (wd_files w) r = (files, res) \<Longrightarrow> fr_path r = join ''/'' parts
     \<Longrightarrow> work_step t parts w (w\<lparr>wd_files := files\<rparr>)"
| Restore: "target_parts parts \<Longrightarrow> restore_file digest g io (wd_files w) (join ''/'' parts) expected before_image = (files, res')
     \<Longrightarrow> work_step t parts w (w\<lparr>wd_files := files\<rparr>)"

lemma work_step_frame:
  assumes "work_step t parts w w'" and "parts' \<noteq> parts"
  shows "view t w' parts' = view t w parts'"
  using assms(1)
proof cases
  case (Ledger st)
  have "join ''/'' parts' \<noteq> join ''/'' parts" if "plain_parts parts'"
    using plain_parts_inj [OF that target_plain [OF Ledger(2)]] assms(2) by blast
  then show ?thesis using Ledger(1) ledger.frame [OF Ledger(3)] by (simp add: view_def)
next
  case (Replace digest g io r files res)
  from Replace(3,4) target_plain [OF Replace(2)] have "files parts' = wd_files w parts'"
    by (cases rule: apply_replacement_outcome) (use assms(2) in auto)
  then show ?thesis using Replace(1) by (simp add: view_def)
next
  case (Restore digest g io expected before_image files res)
  have "files parts' = wd_files w parts'" using restore_outcome [OF Restore(3) target_plain [OF Restore(2)]] assms(2) by auto
  then show ?thesis using Restore(1) by (simp add: view_def)
qed

lemma work_steps_frame:
  assumes "(work_step t parts)\<^sup>*\<^sup>* w w'" and "parts' \<noteq> parts"
  shows "view t w' parts' = view t w parts'"
  using assms(1) by (induction rule: rtranclp_induct) (auto dest: work_step_frame [OF _ assms(2)])

interpretation work: keyed_state "view t" "\<lambda>parts. (work_step t parts)\<^sup>*\<^sup>*" for t
  by unfold_locales (rule work_steps_frame)

lemma work_step_store:
  assumes "work_step t parts w w'" and "ledger_ok t (wd_store w)" and "turn_known t turn (wd_store w)"
    and "\<forall>p. row_at t (wd_store w) p \<noteq> None \<longrightarrow> (\<exists>parts. target_parts parts \<and> p = join ''/'' parts)"
  shows "ledger_ok t (wd_store w') \<and> turn_known t turn (wd_store w') \<and>
    (\<forall>p. row_at t (wd_store w') p \<noteq> None \<longrightarrow> (\<exists>parts. target_parts parts \<and> p = join ''/'' parts))"
  using assms(1)
proof cases
  case (Ledger st)
  have "\<exists>parts. target_parts parts \<and> p = join ''/'' parts" if "row_at t st p \<noteq> None" for p
    using that Ledger(2) assms(4) ledger.frame [OF Ledger(3), of p]
    by (cases "p = join ''/'' parts") auto
  then show ?thesis
    using Ledger(1) ledger_step_keys [OF Ledger(3) assms(2)] ledger_step_rows [OF Ledger(3)] assms(3)
    by (simp add: turn_known_def)
qed (use assms in simp_all)

lemma world_ok_steps:
  assumes "(work_step t parts)\<^sup>*\<^sup>* w w'" and "world_ok S t turn before w"
    and "entry_ok S (tn_scope turn) (before parts) (view t w' parts)"
  shows "world_ok S t turn before w'"
proof -
  have "ledger_ok t (wd_store w') \<and> turn_known t turn (wd_store w') \<and>
    (\<forall>p. row_at t (wd_store w') p \<noteq> None \<longrightarrow> (\<exists>parts. target_parts parts \<and> p = join ''/'' parts))"
    using assms(1)
  proof (induction rule: rtranclp_induct)
    case base
    then show ?case using assms(2) by (simp add: world_ok_def)
  next
    case (step y z)
    then show ?case using work_step_store by blast
  qed
  then show ?thesis
    using work.all_keys [OF assms(1), of "\<lambda>parts. entry_ok S (tn_scope turn) (before parts)"] assms(2,3)
    by (auto simp: world_ok_def)
qed

section \<open>One prepared edit\<close>

abbreviation plan_for :: "EditSystem \<Rightarrow> EditEnv \<Rightarrow> ToolRequest \<Rightarrow> World \<Rightarrow> Prepared \<Rightarrow> TurnStore \<times> (StorageError + TurnFileChangePlan)" where
  "plan_for S env request w p \<equiv>
     plan_turn_file_change (es_cipher S) (es_codec S) (ee_plan env (fr_path (pe_replacement p))) (wd_store w) (tr_scope request)
       (tr_turn_id request) (fr_path (pe_replacement p)) (fs_content (pe_snapshot p)) (fs_sha256 (pe_snapshot p)) (pe_after_sha256 p)"

lemma write_prepared_cases:
  assumes "write_prepared_edit S g env request w p results = (w', results', r)"
  obtains (unplanned) st e where "plan_for S env request w p = (st, Err e)" "w' = w\<lparr>wd_store := st\<rparr>" "r = Err (EE_Storage e)"
  | (completed) st plan files res st' outcome where "plan_for S env request w p = (st, Ok plan)"
      "apply_replacement (es_digest S) g (ee_write env (fr_path (pe_replacement p))) (wd_files w) (pe_replacement p) = (files, res)"
      "(\<exists>x. res = Ok x) \<or> (\<exists>q x. res = Err (TE_Durability q x))"
      "complete_turn_file_change (ee_complete env (fr_path (pe_replacement p))) st plan = (st', outcome)"
      "w' = w\<lparr>wd_files := files, wd_store := st'\<rparr>"
  | (aborted) st plan files e st' outcome where "plan_for S env request w p = (st, Ok plan)"
      "apply_replacement (es_digest S) g (ee_write env (fr_path (pe_replacement p))) (wd_files w) (pe_replacement p) = (files, Err e)"
      "\<And>q x. e \<noteq> TE_Durability q x" "abort_turn_file_change (ee_abort env (fr_path (pe_replacement p))) st plan = (st', outcome)"
      "w' = w\<lparr>wd_files := files, wd_store := st'\<rparr>" "\<exists>x. r = Err x"
proof -
  let ?path = "fr_path (pe_replacement p)"
  obtain st pr where pr: "plan_for S env request w p = (st, pr)" by fastforce
  obtain files res where a: "apply_replacement (es_digest S) g (ee_write env ?path) (wd_files w) (pe_replacement p) = (files, res)"
    by fastforce
  show thesis
  proof (cases pr)
    case (Inl e)
    then show thesis using assms pr unplanned by (simp add: write_prepared_edit_def Let_def)
  next
    case (Inr plan)
    obtain st1 o1 where c: "complete_turn_file_change (ee_complete env ?path) st plan = (st1, o1)" by fastforce
    obtain st2 o2 where b: "abort_turn_file_change (ee_abort env ?path) st plan = (st2, o2)" by fastforce
    show thesis
    proof (cases "(\<exists>x. res = Ok x) \<or> (\<exists>q x. res = Err (TE_Durability q x))")
      case True
      then show thesis
        using completed [OF pr [unfolded Inr] a True c] assms pr a c Inr by (auto simp: write_prepared_edit_def Let_def)
    next
      case False
      then obtain e where e: "res = Err e" "\<And>q x. e \<noteq> TE_Durability q x" by (cases res) auto
      have "w' = w\<lparr>wd_files := files, wd_store := st2\<rparr> \<and> (\<exists>x. r = Err x)"
        using assms pr a b Inr e
        by (cases e; cases o2) (auto simp: write_prepared_edit_def Let_def lift_storage_def)
      then show thesis using aborted [OF pr [unfolded Inr] a [unfolded e(1)] e(2) b] by blast
    qed
  qed
qed

text \<open>A prepared edit fits the world when its snapshot is what the file holds now.\<close>

definition prepared_at :: "EditSystem \<Rightarrow> World \<Rightarrow> string list \<Rightarrow> Prepared \<Rightarrow> bool" where
  "prepared_at S w parts p \<longleftrightarrow>
     target_parts parts \<and> fr_path (pe_replacement p) = join ''/'' parts \<and>
     fs_content (pe_snapshot p) = wd_files w parts \<and>
     fs_sha256 (pe_snapshot p) = map_option (es_sha256 S) (wd_files w parts) \<and> sized (wd_files w parts) \<and>
     pe_after_sha256 p = es_sha256 S (fr_content (pe_replacement p))"

definition system_ok :: "EditSystem \<Rightarrow> bool" where
  "system_ok S \<longleftrightarrow> url_b64_law (es_cipher S) \<and> gcm_law (es_cipher S) \<and> codec_ok (es_codec S)"

definition env_ok :: "EditEnv \<Rightarrow> bool" where
  "env_ok env \<longleftrightarrow> (\<forall>p n. lc_nonce (ee_plan env p) = Some n \<longrightarrow> length n = 12)"

text \<open>The row of a planned change keeps the entry restorable, before and after the write, and after an
  abort.\<close>

lemma planned_entry:
  assumes "entry_ok S scope before (content, old)"
    and "fresh_row (es_cipher S) (es_codec S) scope content (map_option (es_sha256 S) content) old row"
    and "cr_state row = ''planned''" and "sized content"
    and "\<forall>o'. old = Some o' \<longrightarrow> cr_turn_id o' = cr_turn_id row \<and> cr_path o' = cr_path row"
  shows "entry_ok S scope before (content, Some row)"
    and "sized (Some c) \<Longrightarrow> es_sha256 S c = cr_after_sha256 row \<Longrightarrow> entry_ok S scope before (Some c, Some row)"
    and "old = Some o' \<Longrightarrow> entry_ok S scope before (content, Some (row\<lparr>cr_after_sha256 := cr_after_sha256 o',
           cr_previous_after_sha256 := None, cr_state := ''applied'', cr_operation_id := None, cr_updated_at := now\<rparr>))"
proof -
  have facts: "row_image (es_cipher S) (es_codec S) scope row = Ok before \<and> cr_before_sha256 row = map_option (es_sha256 S) before
    \<and> sized before \<and> (content = before \<or> (\<exists>c o'. content = Some c \<and> old = Some o' \<and> es_sha256 S c = cr_after_sha256 o'))
    \<and> (\<forall>o'. old = Some o' \<longrightarrow> cr_previous_after_sha256 row = Some (cr_after_sha256 o'))"
  proof (cases old)
    case None
    then show ?thesis using assms(1,2,4) by (simp add: entry_ok_def fresh_row_def)
  next
    case (Some o')
    have n: "cr_state o' \<noteq> ''undone''" "cr_state o' \<noteq> ''planned''" "cr_before_content row = cr_before_content o'"
      "cr_before_sha256 row = cr_before_sha256 o'" "cr_previous_after_sha256 row = Some (cr_after_sha256 o')"
      using assms(2) Some by (simp_all add: fresh_row_def)
    have "row_image (es_cipher S) (es_codec S) scope row = row_image (es_cipher S) (es_codec S) scope o'"
      using n(3) assms(5) Some by (simp add: row_image_def split: option.split)
    moreover have "row_image (es_cipher S) (es_codec S) scope o' = Ok before" "cr_before_sha256 o' = map_option (es_sha256 S) before"
      "sized before" "content = before \<or> (\<exists>c. content = Some c \<and> es_sha256 S c = cr_after_sha256 o')"
      using assms(1) Some n(1,2) by (simp_all add: entry_ok_def)
    ultimately show ?thesis using Some n(4,5) by simp
  qed
  show "entry_ok S scope before (content, Some row)"
    using facts assms(3,4) by (auto simp: entry_ok_def live_row_def)
  show "sized (Some c) \<Longrightarrow> es_sha256 S c = cr_after_sha256 row \<Longrightarrow> entry_ok S scope before (Some c, Some row)"
    using facts assms(3) by (auto simp: entry_ok_def live_row_def)
  show "old = Some o' \<Longrightarrow> entry_ok S scope before (content, Some (row\<lparr>cr_after_sha256 := cr_after_sha256 o',
           cr_previous_after_sha256 := None, cr_state := ''applied'', cr_operation_id := None, cr_updated_at := now\<rparr>))"
    using facts assms(4) by (auto simp: entry_ok_def live_row_def)
qed

lemma completed_entry:
  assumes "entry_ok S scope before (Some c, Some row)" and "es_sha256 S c = cr_after_sha256 row"
  shows "entry_ok S scope before (Some c, Some (row\<lparr>cr_state := ''applied'', cr_operation_id := None,
           cr_previous_after_sha256 := None, cr_updated_at := now\<rparr>))"
  using assms by (auto simp: entry_ok_def live_row_def)

lemma write_prepared_entry:
  assumes "write_prepared_edit S g env request w p results = (w', results', r)" and "prepared_at S w parts p"
    and "system_ok S" and "env_ok env" and t: "tr_turn_id request = t"
    and known: "turn_known t turn (wd_store w)" "ledger_ok t (wd_store w)"
    and entry: "entry_ok S (tn_scope turn) before (view t w parts)"
  shows "(work_step t parts)\<^sup>*\<^sup>* w w' \<and> entry_ok S (tn_scope turn) before (view t w' parts)"
proof -
  let ?path = "join ''/'' parts" and ?content = "wd_files w parts" and ?old = "row_at t (wd_store w) (join ''/'' parts)"
  have pp: "plain_parts parts" "fr_path (pe_replacement p) = ?path" "sized ?content"
    "fs_content (pe_snapshot p) = ?content" "fs_sha256 (pe_snapshot p) = map_option (es_sha256 S) ?content"
    "pe_after_sha256 p = es_sha256 S (fr_content (pe_replacement p))"
    using assms(2) target_plain by (auto simp: prepared_at_def)
  have tp: "target_parts parts" using assms(2) by (simp add: prepared_at_def)
  have laws: "url_b64_law (es_cipher S)" "gcm_law (es_cipher S)" "codec_ok (es_codec S)"
    "\<forall>n. lc_nonce (ee_plan env ?path) = Some n \<longrightarrow> length n = 12"
    using assms(3,4) by (auto simp: system_ok_def env_ok_def)
  have entry': "entry_ok S (tn_scope turn) before (?content, ?old)" using entry pp(1) by (simp add: view_def)
  obtain st pr where pr: "plan_for S env request w p = (st, pr)" by fastforce
  have plan: "plan_turn_file_change (es_cipher S) (es_codec S) (ee_plan env ?path) (wd_store w) (tr_scope request) t ?path
      ?content (map_option (es_sha256 S) ?content) (pe_after_sha256 p) = (st, pr)"
    using pr pp t by simp
  have step1: "work_step t parts w (w\<lparr>wd_store := st\<rparr>)" by (rule Ledger [OF tp Plan [OF plan]])
  from plan known(1) laws show ?thesis
  proof (cases rule: plan_row)
    case (refused e)
    with assms(1) pr have "w' = w" by (auto simp: write_prepared_edit_def Let_def)
    then show ?thesis using entry by simp
  next
    case (planned row)
    have key: "cr_turn_id row = t" "cr_path row = ?path" using row_at_SomeD [OF planned(1)] by simp_all
    have oldkey: "\<forall>o'. ?old = Some o' \<longrightarrow> cr_turn_id o' = cr_turn_id row \<and> cr_path o' = cr_path row"
      using row_at_SomeD [of t "wd_store w" ?path] key by simp
    note ok = planned_entry [OF entry' planned(5,2) pp(3) oldkey]
    have st_ok: "ledger_ok t st" by (rule ledger_step_keys [OF Plan [OF plan] known(2)])
    have own: "plan_current pl row" "plan_turn_id pl = t" "plan_path pl = ?path" if "pr = Ok pl" for pl
      using planned(2,4,6) that key by (auto simp: plan_current_def row_key_def)
    from assms(1) show ?thesis
    proof (cases rule: write_prepared_cases)
      case (unplanned st' e)
      then show ?thesis using pr step1 ok(1) planned(1) pp(1) by (auto simp: view_def)
    next
      case (completed st1 pl files res st' outcome)
      then have eq: "st1 = st" "pr = Ok pl" using pr by auto
      from completed(2) pp(2,1) show ?thesis
      proof (cases rule: apply_replacement_outcome)
        case (untouched e)
        then show ?thesis using completed(3) by auto
      next
        case written
        have s2: "work_step t parts (w\<lparr>wd_store := st\<rparr>) (w\<lparr>wd_store := st, wd_files := files\<rparr>)"
          using Replace [where w = "w\<lparr>wd_store := st\<rparr>", OF tp] completed(2) pp(2) by auto
        have s3: "work_step t parts (w\<lparr>wd_store := st, wd_files := files\<rparr>) w'"
          using Ledger [where w = "w\<lparr>wd_store := st, wd_files := files\<rparr>" and t = t, OF tp Complete] completed(4,5) own eq by auto
        let ?c = "fr_content (pe_replacement p)"
        have here: "entry_ok S (tn_scope turn) before (Some ?c, Some row)"
          using ok(2) written(2) pp(6) planned(3) by simp
        have "row_at t st' ?path = Some row \<or> row_at t st' ?path =
          Some (row\<lparr>cr_state := ''applied'', cr_operation_id := None, cr_previous_after_sha256 := None,
             cr_updated_at := lc_now (ee_complete env (fr_path (pe_replacement p)))\<rparr>)"
          using complete_row [OF completed(4) [unfolded eq(1)] planned(1) own(1) [OF eq(2)]] .
        then have "entry_ok S (tn_scope turn) before (view t w' parts)"
          using here completed_entry [OF here] pp(1,6) planned(3) written(1) completed(5) by (auto simp: view_def)
        then show ?thesis using step1 s2 s3 by (meson converse_rtranclp_into_rtranclp r_into_rtranclp)
      qed
    next
      case (aborted st1 pl files e st' outcome)
      then have eq: "st1 = st" "pr = Ok pl" using pr by auto
      have files: "files = wd_files w"
        using aborted(2) pp(2,1) by (cases rule: apply_replacement_outcome) (use aborted(3) in auto)
      have s2: "work_step t parts (w\<lparr>wd_store := st\<rparr>) w'"
        using Ledger [where w = "w\<lparr>wd_store := st\<rparr>" and t = t, OF tp Abort] aborted(4,5) own eq files by auto
      have "row_at t st' ?path = Some row \<or> row_at t st' ?path =
          (if plan_was_new pl then None
           else Some (row\<lparr>cr_after_sha256 := (case plan_previous_after_sha256 pl of None \<Rightarrow> [] | Some h \<Rightarrow> h),
              cr_previous_after_sha256 := None, cr_state := ''applied'', cr_operation_id := None,
              cr_updated_at := lc_now (ee_abort env (fr_path (pe_replacement p)))\<rparr>))"
        using abort_row [OF aborted(4) [unfolded eq(1)] planned(1) own(1) [OF eq(2)] st_ok own(2,3) [OF eq(2)]] .
      then have "entry_ok S (tn_scope turn) before (?content, row_at t st' ?path)"
      proof
        assume "row_at t st' ?path = Some row"
        then show ?thesis using ok(1) by simp
      next
        assume n: "row_at t st' ?path = (if plan_was_new pl then None
           else Some (row\<lparr>cr_after_sha256 := (case plan_previous_after_sha256 pl of None \<Rightarrow> [] | Some h \<Rightarrow> h),
              cr_previous_after_sha256 := None, cr_state := ''applied'', cr_operation_id := None,
              cr_updated_at := lc_now (ee_abort env (fr_path (pe_replacement p)))\<rparr>))"
        show ?thesis
        proof (cases ?old)
          case None
          then show ?thesis using n planned(6) [OF eq(2)] entry' by simp
        next
          case (Some o')
          then have "plan_previous_after_sha256 pl = Some (cr_after_sha256 o')" "\<not> plan_was_new pl"
            using planned(5) planned(6) [OF eq(2)] by (auto simp: fresh_row_def)
          then show ?thesis using n ok(3) [OF Some] by simp
        qed
      qed
      then show ?thesis
        using step1 s2 pp(1) aborted(5) files by (auto simp: view_def intro: converse_rtranclp_into_rtranclp)
    qed
  qed
qed

section \<open>A call of the edit tool\<close>

lemma into_replacement_path: "into_replacement patch snapshot = Ok r \<Longrightarrow> fr_path r = ap_path patch"
  by (auto simp: into_replacement_def)

lemma checked_revision_path: "checked_revision snapshot patch = Ok patch' \<Longrightarrow> ap_path patch' = ap_path patch"
  by (auto simp: checked_revision_def split: option.splits if_splits)

lemma prepare_file_at:
  assumes "prepare_file (es_digest S) g fault (wd_files w) patch = Ok p" and "plain_parts parts" and "ap_path patch = join ''/'' parts"
  shows "prepared_at S w parts p"
proof -
  from assms(1) obtain snapshot patch' where s: "snapshot_file (es_digest S) g fault (wd_files w) (join ''/'' parts) = Ok snapshot"
    "checked_revision snapshot patch = Ok patch'" "pe_snapshot p = snapshot"
    "into_replacement patch' (case fs_content snapshot of None \<Rightarrow> [] | Some c \<Rightarrow> c) = Ok (pe_replacement p)"
    "pe_after_sha256 p = es_sha256 S (fr_content (pe_replacement p))"
    by (auto simp: prepare_file_def lift_tool_def assms(3) split: sum.splits if_splits)
  have "fr_path (pe_replacement p) = join ''/'' parts"
    using into_replacement_path [OF s(4)] checked_revision_path [OF s(2)] assms(3) by simp
  then show ?thesis
    using snapshot_Ok [OF s(1) assms(2)] s(3,5) target_partsI [OF assms(2)] by (simp add: prepared_at_def)
qed

lemma prepare_files_at:
  assumes "prepare_files (es_digest S) g faults (wd_files w) n m patches = Ok ps"
    and "list_all2 (\<lambda>parts patch. plain_parts parts \<and> ap_path patch = join ''/'' parts) keys patches"
  shows "list_all2 (prepared_at S w) keys ps"
  using assms
proof (induction patches arbitrary: n m ps keys)
  case (Cons patch patches)
  then show ?case
    by (auto simp: list_all2_Cons2 Let_def split: sum.splits if_splits intro: prepare_file_at)
qed simp

lemma write_prepared_files:
  assumes "write_prepared_edit S g env request w p results = (w', results', r)" and "prepared_at S w parts p"
  shows "wd_files w' = wd_files w \<and> \<not> is_ok r \<or> wd_files w' = (wd_files w)(parts := Some (fr_content (pe_replacement p)))"
proof -
  have pp: "fr_path (pe_replacement p) = join ''/'' parts" "plain_parts parts" using assms(2) target_plain by (auto simp: prepared_at_def)
  from assms(1) show ?thesis
  proof (cases rule: write_prepared_cases)
    case (completed st plan files res st' outcome)
    from completed(2) pp show ?thesis
      by (cases rule: apply_replacement_outcome) (use completed(3,5) in auto)
  next
    case (aborted st plan files e st' outcome)
    from aborted(2) pp show ?thesis
      by (cases rule: apply_replacement_outcome) (use aborted in auto)
  qed auto
qed

lemma prepared_rest:
  assumes "write_prepared_edit S g env request w p results = (w', results', r)" and "prepared_at S w parts p"
    and "list_all2 (prepared_at S w) keys ps" and "parts \<notin> set keys"
  shows "list_all2 (prepared_at S w') keys ps"
proof -
  have "wd_files w' parts' = wd_files w parts'" if "parts' \<noteq> parts" for parts'
    using write_prepared_files [OF assms(1,2)] that by auto
  then have "prepared_at S w' parts' q \<longleftrightarrow> prepared_at S w parts' q" if "parts' \<noteq> parts" for parts' q
    using that by (simp add: prepared_at_def)
  then show ?thesis using assms(3,4) by (auto simp: list_all2_conv_all_nth) (metis nth_mem)
qed

lemma write_files_ok:
  assumes "write_files S g env request batch w ps results = (w', r)" and "list_all2 (prepared_at S w) keys ps" and "distinct keys"
    and "system_ok S" "env_ok env" "tr_turn_id request = t" and "world_ok S t turn before w"
  shows "world_ok S t turn before w'"
  using assms
proof (induction ps arbitrary: w results keys)
  case (Cons p ps)
  from Cons.prems(2) obtain parts keys' where k: "keys = parts # keys'" "prepared_at S w parts p" "list_all2 (prepared_at S w) keys' ps"
    by (auto simp: list_all2_Cons2)
  obtain w1 results1 r1 where e: "write_prepared_edit S g env request w p results = (w1, results1, r1)" by (metis prod_cases3)
  have known: "turn_known t turn (wd_store w)" "ledger_ok t (wd_store w)" "entry_ok S (tn_scope turn) (before parts) (view t w parts)"
    using Cons.prems(7) by (simp_all add: world_ok_def)
  from write_prepared_entry [OF e k(2) Cons.prems(4,5,6) known]
  have step: "(work_step t parts)\<^sup>*\<^sup>* w w1" and entry: "entry_ok S (tn_scope turn) (before parts) (view t w1 parts)" by blast+
  have ok: "world_ok S t turn before w1" by (rule world_ok_steps [OF step Cons.prems(7) entry])
  have "list_all2 (prepared_at S w1) keys' ps"
    by (rule prepared_rest [OF e k(2,3)]) (use Cons.prems(3) k(1) in simp)
  then show ?case
    using Cons.IH [of w1 results1 keys'] Cons.prems e ok k(1) by (cases r1) auto
qed simp

lemma apply_edits_cases:
  assumes "apply_edits S g env request w = (w', r)"
  obtains (refused) e where "w' = w" "r = Err e"
  | (written) patches prepared keys r' where "parse_edit (es_edit S) (tr_arguments request) = Ok patches"
      "prepare_files (es_digest S) g (ee_read env) (wd_files w) 0 0 patches = Ok prepared"
      "list_all2 (\<lambda>parts patch. plain_parts parts \<and> ap_path patch = join ''/'' parts) keys patches" "distinct keys"
      "list_all2 (prepared_at S w) keys prepared"
      "write_files S g env request (jget (tr_arguments request) ''path'' = None) w prepared [] = (w', r')"
      "is_ok r \<Longrightarrow> is_ok r'"
proof -
  let ?batch = "jget (tr_arguments request) ''path'' = None"
  show thesis
  proof (cases "and_then (parse_edit (es_edit S) (tr_arguments request)) (\<lambda>patches.
             and_then (if length patches > 1 then distinct_targets (ee_identity env) [] patches else Ok ()) (\<lambda>_.
               prepare_files (es_digest S) g (ee_read env) (wd_files w) 0 0 patches))")
    case (Inl e)
    then show thesis using assms refused [of e] by (simp add: apply_edits_def Let_def)
  next
    case (Inr prepared)
    then obtain patches where p: "parse_edit (es_edit S) (tr_arguments request) = Ok patches"
      "prepare_files (es_digest S) g (ee_read env) (wd_files w) 0 0 patches = Ok prepared" by auto
    obtain w1 r' where wr: "write_files S g env request ?batch w prepared [] = (w1, r')" by fastforce
    have "\<forall>patch \<in> set patches. \<exists>parts. plain_parts parts \<and> ap_path patch = join ''/'' parts"
      using parse_edit_Ok(4) [OF p(1)] by (auto simp: list_all_iff plain_relative_parts)
    then obtain key where key: "\<And>patch. patch \<in> set patches \<Longrightarrow> plain_parts (key patch) \<and> ap_path patch = join ''/'' (key patch)"
      by metis
    let ?keys = "map key patches"
    have k: "list_all2 (\<lambda>parts patch. plain_parts parts \<and> ap_path patch = join ''/'' parts) ?keys patches"
      using key by (simp add: list_all2_conv_all_nth)
    have "map (join ''/'') ?keys = map ap_path patches" using key by simp
    then have d: "distinct ?keys" using parse_edit_Ok(3) [OF p(1)] distinct_map by metis
    have "w' = w1" "is_ok r \<Longrightarrow> is_ok r'"
      using assms Inr wr by (cases r'; auto simp: apply_edits_def Let_def)+
    then show thesis using written [OF p k d prepare_files_at [OF p(2) k]] wr by blast
  qed
qed

lemma apply_edits_ok:
  assumes "apply_edits S g env request w = (w', r)" and "system_ok S" "env_ok env" "tr_turn_id request = t"
    and "world_ok S t turn before w"
  shows "world_ok S t turn before w'"
  using assms(1)
proof (cases rule: apply_edits_cases)
  case (written patches prepared keys r')
  then show ?thesis using write_files_ok [OF written(6,5,4) assms(2-5)] by simp
qed (use assms(5) in simp)

text \<open>The files after a call: a prefix of the prepared replacements, all of them on success.\<close>

definition put_prepared :: "string list \<times> Prepared \<Rightarrow> files \<Rightarrow> files" where
  "put_prepared kp files = files(fst kp := Some (fr_content (pe_replacement (snd kp))))"

lemma write_files_prefix:
  assumes "write_files S g env request batch w ps results = (w', r)" and "list_all2 (prepared_at S w) keys ps" and "distinct keys"
  shows "\<exists>k \<le> length ps. wd_files w' = fold put_prepared (take k (zip keys ps)) (wd_files w) \<and> (is_ok r \<longrightarrow> k = length ps)"
  using assms
proof (induction ps arbitrary: w results keys)
  case (Cons p ps)
  from Cons.prems(2) obtain parts keys' where k: "keys = parts # keys'" "prepared_at S w parts p" "list_all2 (prepared_at S w) keys' ps"
    by (auto simp: list_all2_Cons2)
  obtain w1 results1 r1 where e: "write_prepared_edit S g env request w p results = (w1, results1, r1)" by (metis prod_cases3)
  have here: "wd_files w1 = wd_files w \<and> \<not> is_ok r1 \<or> wd_files w1 = put_prepared (parts, p) (wd_files w)"
    using write_prepared_files [OF e k(2)] by (simp add: put_prepared_def)
  have rest: "list_all2 (prepared_at S w1) keys' ps"
    by (rule prepared_rest [OF e k(2,3)]) (use Cons.prems(3) k(1) in simp)
  show ?case
  proof (cases r1)
    case (Inl x)
    with Cons.prems(1) e have r: "w' = w1" "\<not> is_ok r" by auto
    then show ?thesis using here k(1) by (intro exI [of _ "if wd_files w1 = wd_files w then 0 else 1"]) auto
  next
    case (Inr u)
    with Cons.prems(1) e have "write_files S g env request batch w1 ps results1 = (w', r)" by simp
    from Cons.IH [OF this rest] Cons.prems(3) k(1) obtain n where
      "n \<le> length ps" "wd_files w' = fold put_prepared (take n (zip keys' ps)) (wd_files w1)" "is_ok r \<longrightarrow> n = length ps" by auto
    then show ?thesis using here Inr k(1) by (intro exI [of _ "Suc n"]) auto
  qed
qed simp

section \<open>Undoing\<close>

definition undo_ready :: "Id \<Rightarrow> files \<Rightarrow> (string \<Rightarrow> string) \<Rightarrow> World \<Rightarrow> string list \<Rightarrow> TurnFileChange \<times> string option \<Rightarrow> bool" where
  "undo_ready t before sha w parts checked \<longleftrightarrow>
     target_parts parts \<and> tfc_path (fst checked) = join ''/'' parts \<and> tfc_before_content (fst checked) = before parts \<and>
     (\<exists>row. row_at t (wd_store w) (join ''/'' parts) = Some row \<and> live_row row) \<and>
     (case snd checked of
        None \<Rightarrow> wd_files w parts = before parts
      | Some expected \<Rightarrow> \<exists>c. wd_files w parts = Some c \<and> sha c = expected)"

lemma undo_ready_other:
  assumes "(work_step t parts)\<^sup>*\<^sup>* w w'" and "parts' \<noteq> parts"
  shows "undo_ready t before sha w' parts' c \<longleftrightarrow> undo_ready t before sha w parts' c"
  using work_steps_frame [OF assms]
  by (cases "target_parts parts'"; cases "snd c") (simp_all add: undo_ready_def view_def target_plain)

lemma undo_one_entry:
  assumes "undo_one S g env scope t w c = (w', r)" and "undo_ready t before (es_sha256 S) w parts c"
    and "world_ok S t turn before w"
  shows "(work_step t parts)\<^sup>*\<^sup>* w w' \<and> entry_ok S (tn_scope turn) (before parts) (view t w' parts) \<and>
    (wd_files w' parts = wd_files w parts \<or> wd_files w' parts = before parts)"
proof -
  obtain change after where c: "c = (change, after)" by (cases c)
  let ?path = "join ''/'' parts"
  have pp: "plain_parts parts" "tfc_path change = ?path" "tfc_before_content change = before parts"
    using assms(2) c target_plain by (auto simp: undo_ready_def)
  have tp: "target_parts parts" using assms(2) by (simp add: undo_ready_def)
  obtain row where row: "row_at t (wd_store w) ?path = Some row" "live_row row" using assms(2) by (auto simp: undo_ready_def)
  have entry: "entry_ok S (tn_scope turn) (before parts) (wd_files w parts, Some row)"
    using assms(3) row(1) pp(1) by (auto simp: world_ok_def view_def dest!: spec [of _ parts])
  then have restored: "entry_ok S (tn_scope turn) (before parts) (before parts, Some row)"
    using row(2) by (auto simp: entry_ok_def live_row_def)
  then have marked: "entry_ok S (tn_scope turn) (before parts) (before parts, Some (row\<lparr>cr_state := ''undone'',
      cr_operation_id := None, cr_updated_at := now, cr_undone_at := Some now\<rparr>))" for now
    by (auto simp: entry_ok_def)
  have lok: "ledger_ok t (wd_store w)" using assms(3) by (simp add: world_ok_def)
  obtain files res where res: "(case after of None \<Rightarrow> (wd_files w, Ok ()) | Some expected_after \<Rightarrow>
       restore_file (es_digest S) g (ue_restore env (tfc_path change)) (wd_files w) (tfc_path change) expected_after (tfc_before_content change))
       = (files, res)" by fastforce
  have s1: "(work_step t parts)\<^sup>*\<^sup>* w (w\<lparr>wd_files := files\<rparr>)"
    using res pp tp by (cases after) (auto intro: Restore)
  have out: "files parts = wd_files w parts \<and> \<not> is_ok res \<or> files parts = before parts"
  proof (cases after)
    case None
    then show ?thesis using res assms(2) c by (auto simp: undo_ready_def)
  next
    case (Some h)
    then show ?thesis using res restore_outcome [OF _ pp(1)] pp by fastforce
  qed
  show ?thesis
  proof (cases res)
    case (Inl e)
    then have "w' = w\<lparr>wd_files := files\<rparr>" using assms(1) c res by (simp add: undo_one_def)
    then show ?thesis using s1 out entry restored row pp(1) by (auto simp: view_def)
  next
    case (Inr u)
    obtain st outcome where m: "mark_turn_file_change_undone (ue_mark env ?path) (wd_store w) scope t ?path = (st, outcome)"
      by fastforce
    have w': "w' = w\<lparr>wd_files := files, wd_store := st\<rparr>" using assms(1) c res Inr m pp(2) by (simp add: undo_one_def)
    have s2: "work_step t parts (w\<lparr>wd_files := files\<rparr>) w'"
      using Ledger [where w = "w\<lparr>wd_files := files\<rparr>" and t = t, OF tp Mark] m w' by auto
    have "files parts = before parts" using out Inr by auto
    then show ?thesis
      using s1 s2 mark_row(1) [OF m row lok] restored marked w' pp(1) by (auto simp: view_def intro: rtranclp.rtrancl_into_rtrancl)
  qed
qed

lemma undo_ready_rest:
  assumes "(work_step t parts)\<^sup>*\<^sup>* w w'" and "list_all2 (undo_ready t before sha w) keys cs" and "parts \<notin> set keys"
  shows "list_all2 (undo_ready t before sha w') keys cs"
  using assms(2,3) undo_ready_other [OF assms(1)] by (simp add: list_all2_conv_all_nth) (metis nth_mem)

lemma undo_all_ok:
  assumes "undo_all S g env scope t w cs = (w', r)" and "list_all2 (undo_ready t before (es_sha256 S) w) keys cs" and "distinct keys"
    and "world_ok S t turn before w"
  shows "world_ok S t turn before w' \<and> ran (wd_files w') \<subseteq> ran (wd_files w) \<union> ran before"
  using assms
proof (induction cs arbitrary: w keys r)
  case (Cons c cs)
  from Cons.prems(2) obtain parts keys' where k: "keys = parts # keys'" "undo_ready t before (es_sha256 S) w parts c"
    "list_all2 (undo_ready t before (es_sha256 S) w) keys' cs" by (auto simp: list_all2_Cons2)
  obtain w1 r1 where e: "undo_one S g env scope t w c = (w1, r1)" by fastforce
  from undo_one_entry [OF e k(2) Cons.prems(4)] have step: "(work_step t parts)\<^sup>*\<^sup>* w w1"
    and entry: "entry_ok S (tn_scope turn) (before parts) (view t w1 parts)"
    and here: "wd_files w1 parts = wd_files w parts \<or> wd_files w1 parts = before parts" by blast+
  have ok: "world_ok S t turn before w1" by (rule world_ok_steps [OF step Cons.prems(4) entry])
  have other: "wd_files w1 q = wd_files w q" if "q \<noteq> parts" for q using work_steps_frame [OF step that] by (simp add: view_def)
  have ran1: "ran (wd_files w1) \<subseteq> ran (wd_files w) \<union> ran before"
  proof
    fix x assume "x \<in> ran (wd_files w1)"
    then obtain q where "wd_files w1 q = Some x" by (auto simp: ran_def)
    then show "x \<in> ran (wd_files w) \<union> ran before" using here other [of q] by (cases "q = parts") (auto simp: ran_def)
  qed
  show ?case
  proof (cases r1)
    case (Inl x)
    then show ?thesis using Cons.prems(1) e ok ran1 by auto
  next
    case (Inr u)
    then obtain r2 where "undo_all S g env scope t w1 cs = (w', r2)"
      using Cons.prems(1) e by (auto split: prod.splits sum.splits)
    from Cons.IH [OF this undo_ready_rest [OF step k(3)]] Cons.prems(3) k(1) ok ran1 show ?thesis by auto
  qed
qed simp

text \<open>Without faults, a change is restored and marked.\<close>

definition undo_fault_free :: "UndoEnv \<Rightarrow> bool" where
  "undo_fault_free env \<longleftrightarrow>
     lc_read (ue_list env) = None \<and> (\<forall>p. ue_read env p = None) \<and> ue_cancel_inputs env = None \<and>
     (\<forall>p. no_write_fault (ue_restore env p)) \<and> (\<forall>p. lc_read (ue_mark env p) = None \<and> lc_write (ue_mark env p) = DbOk)"

definition restored_at :: "Id \<Rightarrow> files \<Rightarrow> World \<Rightarrow> string list \<Rightarrow> bool" where
  "restored_at t before w parts \<longleftrightarrow>
     wd_files w parts = before parts \<and> (\<forall>row. snd (view t w parts) = Some row \<longrightarrow> \<not> live_row row)"

lemma undo_one_succeeds:
  assumes "undo_ready t before (es_sha256 S) w parts c" and "world_ok S t turn before w" and "undo_fault_free env"
    and "ensure_actor_scope (tn_scope turn) scope = Ok ()"
    and "pg_protections g = []"
  obtains w' where "undo_one S g env scope t w c = (w', Ok ())" "restored_at t before w' parts"
proof -
  obtain change after where c: "c = (change, after)" by (cases c)
  let ?path = "join ''/'' parts"
  have pp: "plain_parts parts" "tfc_path change = ?path" "tfc_before_content change = before parts"
    using assms(1) c target_plain by (auto simp: undo_ready_def)
  obtain row where row: "row_at t (wd_store w) ?path = Some row" "live_row row" using assms(1) by (auto simp: undo_ready_def)
  have "entry_ok S (tn_scope turn) (before parts) (wd_files w parts, Some row)"
    using assms(2) row(1) pp(1) by (auto simp: world_ok_def view_def dest!: spec [of _ parts])
  then have sz: "sized (before parts)" "sized (wd_files w parts)" by (auto simp: entry_ok_def)
  have lok: "ledger_ok t (wd_store w)" "st_turns (wd_store w) t = Some turn"
    using assms(2) by (simp_all add: world_ok_def turn_known_def)
  let ?files = "(wd_files w)(parts := before parts)"
  have f: "(case after of None \<Rightarrow> (wd_files w, Ok ()) | Some expected_after \<Rightarrow>
       restore_file (es_digest S) g (ue_restore env (tfc_path change)) (wd_files w) (tfc_path change) expected_after (tfc_before_content change))
       = (?files, Ok ())"
  proof (cases after)
    case None
    then have "wd_files w parts = before parts" using assms(1) c by (simp add: undo_ready_def)
    then show ?thesis using None by (simp add: fun_upd_idem)
  next
    case (Some h)
    then obtain x where x: "wd_files w parts = Some x" "es_sha256 S x = h" using assms(1) c by (auto simp: undo_ready_def)
    have nf: "no_write_fault (ue_restore env ?path)" using assms(3) by (simp add: undo_fault_free_def)
    show ?thesis
      using restore_succeeds [where digest = "es_digest S" and files = "wd_files w", OF pp(1) target_validated [OF _ assms(5)] nf x(1,2)] sz x Some pp assms(1) by (simp add: undo_ready_def)
  qed
  obtain st outcome where m: "mark_turn_file_change_undone (ue_mark env ?path) (wd_store w) scope t ?path = (st, outcome)"
    by fastforce
  have "get_turn (ue_mark env ?path) (wd_store w) scope t = Ok turn"
    using assms(3,4) lok(2) by (simp add: get_turn_Ok undo_fault_free_def)
  moreover have "lc_write (ue_mark env ?path) = DbOk" using assms(3) by (simp add: undo_fault_free_def)
  ultimately have r: "outcome = Ok ()" "row_at t st ?path = Some (row\<lparr>cr_state := ''undone'', cr_operation_id := None,
      cr_updated_at := lc_now (ue_mark env ?path), cr_undone_at := Some (lc_now (ue_mark env ?path))\<rparr>)"
    using mark_row(2) [OF m row lok(1)] by auto
  let ?w = "w\<lparr>wd_files := ?files, wd_store := st\<rparr>"
  have "undo_one S g env scope t w c = (?w, Ok ())" using c f m r(1) pp(2) by (simp add: undo_one_def lift_storage_def)
  moreover have "restored_at t before ?w parts" using r(2) pp(1) by (simp add: restored_at_def view_def live_row_def)
  ultimately show thesis by (rule that)
qed

lemma restored_at_other:
  assumes "(work_step t parts)\<^sup>*\<^sup>* w w'" and "parts' \<noteq> parts"
  shows "restored_at t before w' parts' \<longleftrightarrow> restored_at t before w parts'"
  using work_steps_frame [OF assms] by (auto simp: restored_at_def view_def)

lemma undo_all_succeeds:
  assumes "list_all2 (undo_ready t before (es_sha256 S) w) keys cs" and "distinct keys"
    and "world_ok S t turn before w" and "undo_fault_free env"
    and "ensure_actor_scope (tn_scope turn) scope = Ok ()" and "pg_protections g = []"
  shows "\<exists>w' paths. undo_all S g env scope t w cs = (w', Ok paths) \<and>
    (\<forall>parts. (parts \<in> set keys \<or> restored_at t before w parts) \<longrightarrow> restored_at t before w' parts)"
  using assms
proof (induction cs arbitrary: w keys rule: list.induct)
  case (Cons c cs)
  from Cons.prems(1) obtain parts keys' where k: "keys = parts # keys'" "undo_ready t before (es_sha256 S) w parts c"
    "list_all2 (undo_ready t before (es_sha256 S) w) keys' cs" by (auto simp: list_all2_Cons2)
  obtain w1 where e: "undo_one S g env scope t w c = (w1, Ok ())" "restored_at t before w1 parts"
    using undo_one_succeeds [OF k(2) Cons.prems(3-6)] by blast
  from undo_one_entry [OF e(1) k(2) Cons.prems(3)] have step: "(work_step t parts)\<^sup>*\<^sup>* w w1"
    and entry: "entry_ok S (tn_scope turn) (before parts) (view t w1 parts)" by blast+
  have ok: "world_ok S t turn before w1" by (rule world_ok_steps [OF step Cons.prems(3) entry])
  have "list_all2 (undo_ready t before (es_sha256 S) w1) keys' cs"
    by (rule undo_ready_rest [OF step k(3)]) (use Cons.prems(2) k(1) in simp)
  from Cons.IH [OF this _ ok Cons.prems(4-6)] Cons.prems(2) k(1) obtain w' paths where
    w': "undo_all S g env scope t w1 cs = (w', Ok paths)"
    "\<forall>parts. (parts \<in> set keys' \<or> restored_at t before w1 parts) \<longrightarrow> restored_at t before w' parts" by auto
  have "restored_at t before w' q" if "q \<in> set keys \<or> restored_at t before w q" for q
    using that w'(2) e(2) k(1) restored_at_other [OF step, of q before] by (cases "q = parts") auto
  then show ?case using e(1) w'(1) by auto
qed simp

section \<open>The changes an undo finds\<close>

lemma distinct_sort_by: "distinct (map f (sort_by le xs)) \<longleftrightarrow> distinct (map f xs)"
  by (metis card_distinct distinct_card length_map length_sort_by list.set_map set_sort_by)

abbreviation live_rows :: "Id \<Rightarrow> World \<Rightarrow> ChangeRow list" where
  "live_rows t w \<equiv> sort_by newer_row (filter (\<lambda>row. cr_turn_id row = t \<and> live_row row) (st_changes (wd_store w)))"

definition change_of :: "files \<Rightarrow> string list \<Rightarrow> ChangeRow \<Rightarrow> TurnFileChange" where
  "change_of before parts row =
     \<lparr>tfc_turn_id = cr_turn_id row, tfc_session_id = cr_session_id row, tfc_path = cr_path row,
      tfc_before_content = before parts, tfc_before_sha256 = cr_before_sha256 row, tfc_after_sha256 = cr_after_sha256 row,
      tfc_previous_after_sha256 = cr_previous_after_sha256 row, tfc_state = cr_state row\<rparr>"

lemma live_row_facts:
  assumes "world_ok S t turn before w" and "row \<in> set (live_rows t w)"
  obtains parts where "target_parts parts" "cr_path row = join ''/'' parts" "row_at t (wd_store w) (join ''/'' parts) = Some row"
    "live_row row" "entry_ok S (tn_scope turn) (before parts) (wd_files w parts, Some row)"
proof -
  from assms(2) have r: "row \<in> set (st_changes (wd_store w))" "cr_turn_id row = t" "live_row row" by auto
  then have at: "row_at t (wd_store w) (cr_path row) = Some row"
    using assms(1) row_at_mem by (auto simp: world_ok_def)
  then obtain parts where p: "target_parts parts" "cr_path row = join ''/'' parts"
    using assms(1) by (fastforce simp: world_ok_def)
  moreover have "entry_ok S (tn_scope turn) (before parts) (wd_files w parts, Some row)"
    using assms(1) at p target_plain by (auto simp: world_ok_def view_def dest!: spec [of _ parts])
  ultimately show thesis using that at r(3) by simp
qed

lemma row_change_image:
  assumes "row_image L codec scope row = Ok (before parts)" and "cr_turn_id row = t"
  shows "row_change L codec scope t row = Ok (change_of before parts row)"
proof -
  have "row_change L codec scope t row = and_then (row_image L codec scope row) (\<lambda>image.
      Ok \<lparr>tfc_turn_id = cr_turn_id row, tfc_session_id = cr_session_id row, tfc_path = cr_path row,
          tfc_before_content = image, tfc_before_sha256 = cr_before_sha256 row, tfc_after_sha256 = cr_after_sha256 row,
          tfc_previous_after_sha256 = cr_previous_after_sha256 row, tfc_state = cr_state row\<rparr>)"
    unfolding row_change_def row_image_def assms(2) by (rule refl)
  then show ?thesis using assms(1) by (simp add: change_of_def)
qed

text \<open>A current hash equal to the recorded one identifies the content, because the contents in play have
  different hashes.\<close>

lemma effective_after_ready:
  assumes "entry_ok S scope (before parts) (wd_files w parts, Some row)" and "live_row row"
    and "row_at t (wd_store w) (join ''/'' parts) = Some row" and "target_parts parts" and "cr_path row = join ''/'' parts"
    and "inj_on (es_sha256 S) C" and "ran (wd_files w) \<subseteq> C" and "ran before \<subseteq> C"
    and "fs_sha256 current = map_option (es_sha256 S) (wd_files w parts)"
  shows "\<exists>after. effective_after current (change_of before parts row) = Ok after \<and>
    undo_ready t before (es_sha256 S) w parts (change_of before parts row, after)"
proof -
  let ?h = "es_sha256 S"
  have b: "cr_before_sha256 row = map_option ?h (before parts)"
    and now: "wd_files w parts = before parts \<or> (\<exists>c. wd_files w parts = Some c \<and>
      (?h c = cr_after_sha256 row \<or> cr_previous_after_sha256 row = Some (?h c)))"
    using assms(1,2) by (auto simp: entry_ok_def)
  have same: "wd_files w parts = before parts" if "map_option ?h (wd_files w parts) = map_option ?h (before parts)"
  proof (cases "before parts")
    case (Some x)
    with that obtain y where y: "wd_files w parts = Some y" "?h y = ?h x" by auto
    have "x \<in> C" "y \<in> C" using Some y(1) assms(7,8) by (auto simp: ran_def)
    then show ?thesis using y Some assms(6) by (simp add: inj_onD)
  qed (use that in simp)
  let ?change = "change_of before parts row"
  have at: "undo_ready t before ?h w parts (?change, after) \<longleftrightarrow>
      (case after of None \<Rightarrow> wd_files w parts = before parts | Some e \<Rightarrow> \<exists>c. wd_files w parts = Some c \<and> ?h c = e)" for after
    using assms(2-5) by (simp add: undo_ready_def change_of_def)
  show ?thesis
  proof (cases "wd_files w parts = before parts")
    case True
    then show ?thesis using at [of None] assms(9) b by (simp add: effective_after_def change_of_def)
  next
    case False
    with now obtain c where c: "wd_files w parts = Some c"
      "?h c = cr_after_sha256 row \<or> cr_previous_after_sha256 row = Some (?h c)" by auto
    have "Some (?h c) \<noteq> map_option ?h (before parts)" using same False c(1) by auto
    then show ?thesis
      using at [of "Some (?h c)"] c assms(9) b by (auto simp: effective_after_def change_of_def)
  qed
qed

definition row_fits :: "EditSystem \<Rightarrow> Id \<Rightarrow> Scope \<Rightarrow> files \<Rightarrow> World \<Rightarrow> string list \<Rightarrow> ChangeRow \<Rightarrow> bool" where
  "row_fits S t scope before w parts row \<longleftrightarrow>
     target_parts parts \<and> cr_path row = join ''/'' parts \<and> row_at t (wd_store w) (join ''/'' parts) = Some row \<and>
     live_row row \<and> cr_turn_id row = t \<and> entry_ok S scope (before parts) (wd_files w parts, Some row)"

lemma undo_keys:
  assumes "world_ok S t turn before w"
  obtains key where "\<forall>row \<in> set (live_rows t w). row_fits S t (tn_scope turn) before w (key row) row"
    "distinct (map key (live_rows t w))"
proof -
  have "\<forall>row \<in> set (live_rows t w). \<exists>parts. row_fits S t (tn_scope turn) before w parts row"
  proof
    fix row assume m: "row \<in> set (live_rows t w)"
    obtain parts where p: "target_parts parts" "cr_path row = join ''/'' parts" "row_at t (wd_store w) (join ''/'' parts) = Some row"
      "live_row row" "entry_ok S (tn_scope turn) (before parts) (wd_files w parts, Some row)"
      using assms m by (rule live_row_facts)
    then show "\<exists>parts. row_fits S t (tn_scope turn) before w parts row"
      using row_at_SomeD [OF p(3)] by (auto simp: row_fits_def)
  qed
  from bchoice [OF this] obtain key where key: "\<forall>row \<in> set (live_rows t w). row_fits S t (tn_scope turn) before w (key row) row" ..
  have "join ''/'' (key row) = cr_path row" if "row \<in> set (live_rows t w)" for row
    using key that by (simp add: row_fits_def)
  then have "map (join ''/'') (map key (live_rows t w)) = map cr_path (live_rows t w)"
    unfolding map_map comp_def by (rule map_cong [OF refl])
  moreover have "distinct (map cr_path (live_rows t w))"
    unfolding distinct_sort_by
    using assms distinct_map_filter_sub [of cr_path "\<lambda>row. cr_turn_id row = t" "st_changes (wd_store w)" live_row]
    by (simp add: world_ok_def ledger_ok_def conj_commute)
  ultimately have "distinct (map (join ''/'') (map key (live_rows t w)))" by (simp only:)
  then have "distinct (map key (live_rows t w))" unfolding distinct_map by blast
  with key show thesis by (rule that)
qed

lemma try_map_map_Ok: "\<forall>x \<in> set xs. f x = Ok (g x) \<Longrightarrow> try_map f xs = Ok (map g xs)"
  by (induction xs) auto

lemma undo_listing:
  assumes "\<forall>row \<in> set (live_rows t w). row_fits S t (tn_scope turn) before w (key row) row"
    and "turn_known t turn (wd_store w)" and "ensure_actor_scope (tn_scope turn) scope = Ok ()" and "lc_read call = None"
  shows "list_turn_file_changes (es_cipher S) (es_codec S) call (wd_store w) scope t =
    Ok (map (\<lambda>row. change_of before (key row) row) (live_rows t w))"
proof -
  have "row_change (es_cipher S) (es_codec S) scope t row = Ok (change_of before (key row) row)" if "row \<in> set (live_rows t w)" for row
    by (rule row_change_image) (use assms(1) that row_image_scope [OF assms(3)] in \<open>auto simp: row_fits_def entry_ok_def\<close>)
  moreover have "get_turn call (wd_store w) scope t = Ok turn"
    using assms(2-4) by (simp add: get_turn_Ok turn_known_def)
  ultimately show ?thesis by (simp add: list_turn_file_changes_def try_map_map_Ok)
qed

lemma undo_check_ready:
  assumes "row_fits S t (tn_scope turn) before w parts row"
    and "inj_on (es_sha256 S) C" and "ran (wd_files w) \<subseteq> C" and "ran before \<subseteq> C"
  shows "undo_check S g env (wd_files w) (change_of before parts row) = Ok c \<Longrightarrow> undo_ready t before (es_sha256 S) w parts c"
    and "ue_read env (join ''/'' parts) = None \<Longrightarrow> pg_protections g = [] \<Longrightarrow>
      \<exists>c. undo_check S g env (wd_files w) (change_of before parts row) = Ok c \<and> undo_ready t before (es_sha256 S) w parts c"
proof -
  have f: "target_parts parts" "cr_path row = join ''/'' parts" "row_at t (wd_store w) (join ''/'' parts) = Some row" "live_row row"
    "entry_ok S (tn_scope turn) (before parts) (wd_files w parts, Some row)"
    using assms(1) by (simp_all add: row_fits_def)
  have path: "tfc_path (change_of before parts row) = join ''/'' parts" using f(2) by (simp add: change_of_def)
  have ready: "\<exists>after. effective_after current (change_of before parts row) = Ok after \<and>
      undo_ready t before (es_sha256 S) w parts (change_of before parts row, after)"
    if "fs_sha256 current = map_option (es_sha256 S) (wd_files w parts)" for current
    by (rule effective_after_ready [OF f(5,4,3,1,2) assms(2-4) that])
  show "undo_ready t before (es_sha256 S) w parts c" if c: "undo_check S g env (wd_files w) (change_of before parts row) = Ok c"
  proof -
    from c obtain current where s: "snapshot_file (es_digest S) g (ue_read env (join ''/'' parts)) (wd_files w) (join ''/'' parts) = Ok current"
      by (auto simp: undo_check_def path lift_tool_def split: sum.splits)
    have h: "fs_sha256 current = map_option (es_sha256 S) (wd_files w parts)"
      using snapshot_Ok(2) [OF s target_plain [OF f(1)]] .
    show ?thesis using ready [OF h] c s by (auto simp: undo_check_def path lift_tool_def)
  qed
  show "\<exists>c. undo_check S g env (wd_files w) (change_of before parts row) = Ok c \<and> undo_ready t before (es_sha256 S) w parts c"
    if n: "ue_read env (join ''/'' parts) = None" "pg_protections g = []"
  proof -
    have "sized (wd_files w parts)" using f(5) by (simp add: entry_ok_def)
    from snapshot_succeeds [where files = "wd_files w", OF target_validated [OF f(1) n(2)] this, of "es_digest S"]
    obtain current where s: "snapshot_file (es_digest S) g None (wd_files w) (join ''/'' parts) = Ok current"
      "fs_sha256 current = map_option (es_sha256 S) (wd_files w parts)" by fastforce
    show ?thesis using ready [OF s(2)] s(1) n(1) by (auto simp: undo_check_def path lift_tool_def)
  qed
qed

lemma undo_checks_ready:
  assumes "\<forall>row \<in> set rows. row_fits S t (tn_scope turn) before w (key row) row"
    and "inj_on (es_sha256 S) C" and "ran (wd_files w) \<subseteq> C" and "ran before \<subseteq> C"
  shows "try_map (undo_check S g env (wd_files w)) (map (\<lambda>row. change_of before (key row) row) rows) = Ok cs \<Longrightarrow>
      list_all2 (undo_ready t before (es_sha256 S) w) (map key rows) cs"
    and "\<forall>p. ue_read env p = None \<Longrightarrow> pg_protections g = [] \<Longrightarrow>
      \<exists>cs. try_map (undo_check S g env (wd_files w)) (map (\<lambda>row. change_of before (key row) row) rows) = Ok cs"
proof -
  show "list_all2 (undo_ready t before (es_sha256 S) w) (map key rows) cs"
    if "try_map (undo_check S g env (wd_files w)) (map (\<lambda>row. change_of before (key row) row) rows) = Ok cs"
    using that assms(1)
  proof (induction rows arbitrary: cs)
    case (Cons row rows)
    from Cons.prems(1) obtain c cs' where c: "undo_check S g env (wd_files w) (change_of before (key row) row) = Ok c"
      "try_map (undo_check S g env (wd_files w)) (map (\<lambda>row. change_of before (key row) row) rows) = Ok cs'" "cs = c # cs'"
      by (cases "undo_check S g env (wd_files w) (change_of before (key row) row)";
          cases "try_map (undo_check S g env (wd_files w)) (map (\<lambda>row. change_of before (key row) row) rows)") auto
    have "undo_ready t before (es_sha256 S) w (key row) c"
      using undo_check_ready(1) [OF _ assms(2-4) c(1), of t turn] Cons.prems(2) by simp
    then show ?case using Cons.IH [OF c(2)] Cons.prems(2) c(3) by simp
  qed simp
  show "\<exists>cs. try_map (undo_check S g env (wd_files w)) (map (\<lambda>row. change_of before (key row) row) rows) = Ok cs"
    if n: "\<forall>p. ue_read env p = None" "pg_protections g = []"
    using assms(1)
  proof (induction rows)
    case (Cons row rows)
    then show ?case using undo_check_ready(2) [OF _ assms(2-4), of t turn "key row" row env g] n by fastforce
  qed simp
qed

lemma undo_files_ok:
  assumes "undo_files S g env scope t w = (w', r)" and "world_ok S t turn before w"
    and "inj_on (es_sha256 S) C" and "ran (wd_files w) \<subseteq> C" and "ran before \<subseteq> C"
  shows "world_ok S t turn before w' \<and> ran (wd_files w') \<subseteq> C"
proof -
  obtain key where key: "\<forall>row \<in> set (live_rows t w). row_fits S t (tn_scope turn) before w (key row) row"
    "distinct (map key (live_rows t w))" using assms(2) by (rule undo_keys)
  let ?list = "list_turn_file_changes (es_cipher S) (es_codec S) (ue_list env) (wd_store w) scope t"
  let ?checks = "\<lambda>changes. try_map (undo_check S g env (wd_files w)) changes"
  show ?thesis
  proof (cases "\<exists>changes cs. ?list = Ok changes \<and> ?checks changes = Ok cs \<and> ue_cancel_inputs env = None")
    case True
    then obtain changes cs where ok: "?list = Ok changes" "?checks changes = Ok cs" "ue_cancel_inputs env = None" by blast
    have known: "turn_known t turn (wd_store w)" using assms(2) by (simp add: world_ok_def)
    from ok(1) known have sc: "ensure_actor_scope (tn_scope turn) scope = Ok ()" "lc_read (ue_list env) = None"
      by (auto simp: list_turn_file_changes_def get_turn_Ok turn_known_def)
    have "changes = map (\<lambda>row. change_of before (key row) row) (live_rows t w)"
      using undo_listing [OF key(1) known sc] ok(1) by simp
    with ok(2) have "list_all2 (undo_ready t before (es_sha256 S) w) (map key (live_rows t w)) cs"
      using undo_checks_ready(1) [OF key(1) assms(3-5)] by blast
    moreover obtain r' where "undo_all S g env scope t w cs = (w', r')"
      using assms(1) ok by (auto simp: undo_files_def lift_storage_def split: sum.splits prod.splits)
    ultimately show ?thesis using undo_all_ok [OF _ _ key(2) assms(2)] assms(4,5) by blast
  next
    case False
    then have "w' = w"
      using assms(1) by (auto simp: undo_files_def lift_storage_def split: sum.splits option.splits)
    then show ?thesis using assms by simp
  qed
qed

lemma undo_files_succeeds:
  assumes "world_ok S t turn before w" and "inj_on (es_sha256 S) C" and "ran (wd_files w) \<subseteq> C" and "ran before \<subseteq> C"
    and "undo_fault_free env" and "ensure_actor_scope (tn_scope turn) scope = Ok ()" and "pg_protections g = []"
  shows "\<exists>w' paths. undo_files S g env scope t w = (w', Ok paths) \<and> wd_files w' = before \<and>
    (\<forall>p row. row_at t (wd_store w') p = Some row \<longrightarrow> \<not> live_row row)"
proof -
  obtain key where key: "\<forall>row \<in> set (live_rows t w). row_fits S t (tn_scope turn) before w (key row) row"
    "distinct (map key (live_rows t w))" using assms(1) by (rule undo_keys)
  have known: "turn_known t turn (wd_store w)" using assms(1) by (simp add: world_ok_def)
  have env: "lc_read (ue_list env) = None" "\<forall>p. ue_read env p = None" "ue_cancel_inputs env = None"
    using assms(5) by (simp_all add: undo_fault_free_def)
  note listed = undo_listing [OF key(1) known assms(6) env(1)]
  obtain cs where cs: "try_map (undo_check S g env (wd_files w)) (map (\<lambda>row. change_of before (key row) row) (live_rows t w)) = Ok cs"
    using undo_checks_ready(2) [OF key(1) assms(2-4) env(2) assms(7)] by blast
  note ready = undo_checks_ready(1) [OF key(1) assms(2-4) cs]
  obtain w' paths where u: "undo_all S g env scope t w cs = (w', Ok paths)"
    "\<forall>parts. (parts \<in> set (map key (live_rows t w)) \<or> restored_at t before w parts) \<longrightarrow> restored_at t before w' parts"
    using undo_all_succeeds [OF ready key(2) assms(1,5-7)] by blast
  have res: "undo_files S g env scope t w = (w', Ok (sort_by (\<lambda>a b. \<not> str_less b a) paths))"
    using listed cs env(3) u(1) by (simp add: undo_files_def lift_storage_def)
  have all: "restored_at t before w' parts" for parts
  proof (cases "\<exists>row. snd (view t w parts) = Some row \<and> live_row row")
    case True
    then obtain row where row: "plain_parts parts" "row_at t (wd_store w) (join ''/'' parts) = Some row" "live_row row"
      by (auto simp: view_def split: if_splits)
    have "row \<in> set (live_rows t w)" using row_at_SomeD [OF row(2)] row(3) by simp
    moreover from key(1) this have "key row = parts"
      using plain_parts_inj [OF target_plain row(1)] row_at_SomeD [OF row(2)] by (auto simp: row_fits_def)
    ultimately show ?thesis using u(2) by force
  next
    case False
    have "entry_ok S (tn_scope turn) (before parts) (view t w parts)" using assms(1) by (simp add: world_ok_def)
    with False have "restored_at t before w parts"
      by (auto simp: restored_at_def view_def entry_ok_def split: option.splits if_splits)
    then show ?thesis using u(2) by blast
  qed
  have "wd_files w' = before" using all by (auto simp: restored_at_def)
  moreover have "\<not> live_row row" if r: "row_at t (wd_store w') p = Some row" for p row
  proof -
    have "world_ok S t turn before w'" using undo_files_ok [OF res assms(1-4)] by simp
    then obtain parts where "target_parts parts" "p = join ''/'' parts" using r by (fastforce simp: world_ok_def)
    then show ?thesis using all [of parts] r target_plain by (auto simp: restored_at_def view_def)
  qed
  ultimately show ?thesis using res by blast
qed

section \<open>Properties\<close>

text \<open>What a turn does to its workspace: edit calls and undo attempts, each with whatever faults.  All
  contents that ever appear in the workspace are in a set.\<close>

inductive turn_activity :: "EditSystem \<Rightarrow> Id \<Rightarrow> string set \<Rightarrow> World \<Rightarrow> World \<Rightarrow> bool" for S t C w0 where
  Start: "ran (wd_files w0) \<subseteq> C \<Longrightarrow> turn_activity S t C w0 w0"
| Edit: "turn_activity S t C w0 w \<Longrightarrow> apply_edits S g env request w = (w', r) \<Longrightarrow> tr_turn_id request = t \<Longrightarrow> env_ok env
    \<Longrightarrow> ran (wd_files w') \<subseteq> C \<Longrightarrow> turn_activity S t C w0 w'"
| Undo: "turn_activity S t C w0 w \<Longrightarrow> undo_files S g undo_env scope t w = (w', r') \<Longrightarrow> turn_activity S t C w0 w'"

lemma turn_activity_ok:
  assumes "turn_activity S t C w0 w" and "system_ok S" and "inj_on (es_sha256 S) C"
    and "turn_known t turn (wd_store w0)" and "\<forall>row \<in> set (st_changes (wd_store w0)). cr_turn_id row \<noteq> t"
  shows "world_ok S t turn (wd_files w0) w \<and> ran (wd_files w) \<subseteq> C \<and> ran (wd_files w0) \<subseteq> C"
  using assms(1)
proof induction
  case Start
  have "row_at t (wd_store w0) p = None" for p using assms(5) by (auto simp: row_at_None)
  moreover have "filter (\<lambda>row. cr_turn_id row = t) (st_changes (wd_store w0)) = []" using assms(5) by (simp add: filter_empty_conv)
  ultimately show ?case using Start assms(4) by (simp add: world_ok_def ledger_ok_def view_def entry_ok_def)
next
  case (Edit w g env request w' r)
  then show ?case using apply_edits_ok [OF Edit(2) assms(2) Edit(4,3)] by blast
next
  case (Undo w g undo_env scope w' r')
  then show ?case using undo_files_ok [OF Undo(2) _ assms(3)] by blast
qed

text \<open>C38: Undoing a turn restores its files.  Whatever edit calls a turn made and whatever failed in them
  (reading, planning, writing, renaming, synchronising, completing or aborting, a database that commits
  and reports an error), and whatever undo attempts were interrupted before, an undo that meets no fault
  succeeds, every file of the workspace has the content it had before the turn (files the turn created
  are gone), and no change of the turn is left to undo.  The hash has to be collision free on the
  contents that appeared in the workspace.\<close>

theorem turn_undo_restores:
  assumes "turn_activity S t C w0 w" and "system_ok S" and "inj_on (es_sha256 S) C"
    and "turn_known t turn (wd_store w0)" and "\<forall>row \<in> set (st_changes (wd_store w0)). cr_turn_id row \<noteq> t"
    and "undo_fault_free env" and "ensure_actor_scope (tn_scope turn) scope = Ok ()" and "pg_protections g = []"
  shows "\<exists>w' paths. undo_files S g env scope t w = (w', Ok paths) \<and> wd_files w' = wd_files w0 \<and>
    (\<forall>p row. row_at t (wd_store w') p = Some row \<longrightarrow> \<not> live_row row)"
  using undo_files_succeeds [OF _ assms(3) _ _ assms(6-8)] turn_activity_ok [OF assms(1-5)] by blast

text \<open>An edit call writes a prefix of its batch.  A call that is refused before its first write
  changes neither a file nor the ledger.  Otherwise all its files were prepared against the workspace as
  it was before the call, and the workspace afterwards differs from it exactly in the first files of the
  batch, which hold their prepared contents; a call that succeeds wrote all of them.\<close>

theorem edit_call_writes_prefix:
  assumes "apply_edits S g env request w = (w', r)"
  shows "w' = w \<and> \<not> is_ok r \<or>
    (\<exists>patches prepared keys k.
       parse_edit (es_edit S) (tr_arguments request) = Ok patches \<and>
       prepare_files (es_digest S) g (ee_read env) (wd_files w) 0 0 patches = Ok prepared \<and>
       map ap_path patches = map (join ''/'') keys \<and> distinct keys \<and> k \<le> length prepared \<and>
       wd_files w' = fold put_prepared (take k (zip keys prepared)) (wd_files w) \<and> (is_ok r \<longrightarrow> k = length prepared))"
  using assms
proof (cases rule: apply_edits_cases)
  case (written patches prepared keys r')
  obtain k where "k \<le> length prepared" "wd_files w' = fold put_prepared (take k (zip keys prepared)) (wd_files w)"
    "is_ok r' \<longrightarrow> k = length prepared"
    using write_files_prefix [OF written(6,5,4)] by blast
  moreover have "map ap_path patches = map (join ''/'') keys"
    using written(3) by (auto simp: list_all2_conv_all_nth intro: nth_equalityI)
  ultimately show ?thesis using written(1,2,4,7) by blast
qed simp

text \<open>C39: An undo does not overwrite foreign changes.  When some file the turn changed now has a content
  whose hash is neither the recorded hash before the turn, nor the one after its last change, nor the one
  of an unfinished change, the undo fails and changes nothing, neither that file nor any other.\<close>

theorem undo_refuses_foreign_change:
  assumes "list_turn_file_changes (es_cipher S) (es_codec S) (ue_list env) (wd_store w) scope t = Ok changes"
    and "change \<in> set changes"
    and "snapshot_file (es_digest S) g (ue_read env (tfc_path change)) (wd_files w) (tfc_path change) = Ok current"
    and "fs_sha256 current \<notin> {tfc_before_sha256 change, Some (tfc_after_sha256 change)}"
    and "tfc_previous_after_sha256 change = None \<or> fs_sha256 current \<noteq> tfc_previous_after_sha256 change"
  shows "\<exists>e. undo_files S g env scope t w = (w, Err e)"
proof -
  have bad: "undo_check S g env (wd_files w) change = Err (EE_Tool TE_ConcurrentModification)"
    using assms(3-5) by (auto simp: undo_check_def lift_tool_def effective_after_def)
  have "\<exists>e. try_map (undo_check S g env (wd_files w)) changes = Err e"
    using assms(2) bad by (induction changes) (auto split: sum.splits)
  with assms(1) show ?thesis by (auto simp: undo_files_def lift_storage_def)
qed

section \<open>A worked example\<close>

text \<open>A turn replaces the content of one file; a padding stands for the digest.\<close>

definition undo_demo_digest :: "string \<Rightarrow> string" where
  "undo_demo_digest s = take 32 (s @ replicate 32 (CHR ''0''))"

definition undo_demo_args :: ApplyPatchArgs where
  "undo_demo_args = \<lparr>ap_path = ''a.txt'', ap_expected_sha256 = None,
     ap_expected_revision = Some (content_sha256 undo_demo_digest ''a''), ap_content = Some ''b'', ap_edits = []\<rparr>"

definition undo_demo_system :: EditSystem where
  "undo_demo_system =
     \<lparr>es_edit = \<lparr>el_to_string = (\<lambda>_. ''{}''), el_args_from_value = (\<lambda>_. Ok undo_demo_args), el_args_list_from_value = (\<lambda>_. Err ''no'')\<rparr>,
      es_cipher = demo_cipher, es_codec = PlaintextDevelopment, es_digest = undo_demo_digest\<rparr>"

definition undo_demo_turn :: Turn where
  "undo_demo_turn = \<lparr>tn_id = ''t1'', tn_session_id = ''s1'', tn_scope = demo_scope, tn_status = Completed, tn_checkpoint = None,
     tn_error_code = None, tn_started_at = 0, tn_updated_at = 0, tn_completed_at = None, tn_tool_profile = None\<rparr>"

definition undo_demo_world :: World where
  "undo_demo_world = \<lparr>wd_files = (\<lambda>_. None)([''a.txt''] := Some ''a''),
     wd_store = \<lparr>st_turns = (\<lambda>_. None)(''t1'' := Some undo_demo_turn), st_changes = []\<rparr>\<rparr>"

definition undo_demo_call :: LedgerCall where
  "undo_demo_call = \<lparr>lc_read = None, lc_write = DbOk, lc_operation_id = ''op'', lc_now = 1, lc_nonce = None\<rparr>"

definition undo_demo_io :: WriteIo where
  "undo_demo_io = \<lparr>wi_open = None, wi_temp = None, wi_rename = None, wi_sync = None\<rparr>"

definition undo_demo_env :: EditEnv where
  "undo_demo_env = \<lparr>ee_identity = (\<lambda>p. Ok p), ee_read = (\<lambda>_. None), ee_plan = (\<lambda>_. undo_demo_call), ee_write = (\<lambda>_. undo_demo_io),
     ee_complete = (\<lambda>_. undo_demo_call), ee_abort = (\<lambda>_. undo_demo_call)\<rparr>"

definition undo_demo_undo :: UndoEnv where
  "undo_demo_undo = \<lparr>ue_list = undo_demo_call, ue_read = (\<lambda>_. None), ue_cancel_inputs = None, ue_restore = (\<lambda>_. undo_demo_io),
     ue_mark = (\<lambda>_. undo_demo_call)\<rparr>"

definition undo_demo_request :: ToolRequest where
  "undo_demo_request = \<lparr>tr_parent_tool_call_id = None, tr_id = ''c1'', tr_scope = demo_scope, tr_session_id = ''s1'', tr_turn_id = ''t1'',
     tr_tool = ''apply_patch'', tr_arguments = JObj [(''path'', JStr ''a.txt'')], tr_created_at = 0\<rparr>"

lemmas undo_demo_defs = undo_demo_system_def undo_demo_turn_def undo_demo_world_def undo_demo_call_def undo_demo_io_def
  undo_demo_env_def undo_demo_undo_def undo_demo_request_def undo_demo_args_def

definition undo_demo_row :: ChangeRow where
  "undo_demo_row = \<lparr>cr_turn_id = ''t1'', cr_session_id = ''s1'', cr_path = ''a.txt'', cr_before_exists = True,
     cr_before_content = Some ''a'', cr_before_sha256 = Some (content_sha256 undo_demo_digest ''a''),
     cr_after_sha256 = content_sha256 undo_demo_digest ''b'', cr_previous_after_sha256 = None, cr_state = ''applied'',
     cr_operation_id = None, cr_created_at = 1, cr_updated_at = 1, cr_undone_at = None\<rparr>"

lemma undo_demo_path:
  "components ''a.txt'' = [Normal ''a.txt'']" "validated_components open_guard ''a.txt'' = Ok [''a.txt'']"
  by code_simp+

lemma undo_demo_length: "length (content_sha256 undo_demo_digest s) = 64"
  by (simp add: content_sha256_def undo_demo_digest_def)

lemma undo_demo_inj: "inj_on (content_sha256 undo_demo_digest) {''a'', ''b'', ''c''}"
proof -
  have "content_sha256 undo_demo_digest ''a'' \<noteq> content_sha256 undo_demo_digest ''b''"
    "content_sha256 undo_demo_digest ''a'' \<noteq> content_sha256 undo_demo_digest ''c''"
    "content_sha256 undo_demo_digest ''b'' \<noteq> content_sha256 undo_demo_digest ''c''"
    by (simp_all add: content_sha256_def undo_demo_digest_def hex_def hex_char_def)
  then show ?thesis by (simp add: inj_on_def)
qed

lemma undo_demo_prepared:
  "prepare_file undo_demo_digest open_guard None (wd_files undo_demo_world) undo_demo_args =
     Ok \<lparr>pe_snapshot = \<lparr>fs_path = ''a.txt'', fs_content = Some ''a'', fs_sha256 = Some (content_sha256 undo_demo_digest ''a'')\<rparr>,
         pe_replacement = \<lparr>fr_path = ''a.txt'', fr_expected_sha256 = Some (content_sha256 undo_demo_digest ''a''), fr_content = ''b''\<rparr>,
         pe_after_sha256 = content_sha256 undo_demo_digest ''b''\<rparr>"
proof -
  have "\<not> eq_ignore_ascii_case (content_sha256 undo_demo_digest ''a'') ''null''"
    using undo_demo_length [of "''a''"] by (auto simp: eq_ignore_ascii_case_def to_ascii_lowercase_def dest: arg_cong [of _ _ length])
  then show ?thesis
    by (simp add: prepare_file_def snapshot_file_def read_optional_workspace_file_def read_workspace_file_def open_target_def
        undo_demo_path undo_demo_world_def undo_demo_args_def read_bounded_def MAX_TOOL_FILE_BYTES_def lift_tool_def
        checked_revision_def wanted_revision_def expected_revision_matches_def into_replacement_def validate_shape_def)
qed

definition undo_demo_done :: World where
  "undo_demo_done = \<lparr>wd_files = (\<lambda>_. None)([''a.txt''] := Some ''b''),
     wd_store = \<lparr>st_turns = (\<lambda>_. None)(''t1'' := Some undo_demo_turn), st_changes = [undo_demo_row]\<rparr>\<rparr>"

lemma undo_demo_parse: "parse_edit (es_edit undo_demo_system) (tr_arguments undo_demo_request) = Ok [undo_demo_args]"
  by (simp add: parse_edit_def request_files_def MAX_EDIT_BYTES_def normalize_file_def validate_shape_def Let_def
      undo_demo_defs undo_demo_path(1))

lemma undo_demo_scope: "ensure_actor_scope demo_scope demo_scope = Ok ()"
  by (simp add: ensure_actor_scope_def ensure_team_scope_def)

lemma undo_demo_plan:
  "plan_turn_file_change demo_cipher PlaintextDevelopment undo_demo_call (wd_store undo_demo_world) demo_scope ''t1'' ''a.txt''
     (Some ''a'') (Some (content_sha256 undo_demo_digest ''a'')) (content_sha256 undo_demo_digest ''b'') =
   (\<lparr>st_turns = (\<lambda>_. None)(''t1'' := Some undo_demo_turn),
      st_changes = [undo_demo_row\<lparr>cr_state := ''planned'', cr_operation_id := Some ''op''\<rparr>]\<rparr>,
    Ok \<lparr>plan_operation_id = ''op'', plan_turn_id = ''t1'', plan_path = ''a.txt'', plan_previous_after_sha256 = None, plan_was_new = True\<rparr>)"
  by (simp add: plan_turn_file_change_def get_turn_def ok_or_def undo_demo_defs undo_demo_scope undo_demo_length Let_def seal_def settle_def undo_demo_row_def)

lemma undo_demo_write:
  "apply_replacement undo_demo_digest open_guard undo_demo_io (wd_files undo_demo_world)
     \<lparr>fr_path = ''a.txt'', fr_expected_sha256 = Some (content_sha256 undo_demo_digest ''a''), fr_content = ''b''\<rparr> =
   (wd_files undo_demo_done, Ok \<lparr>wr_path = ''a.txt'', wr_previous_sha256 = Some (content_sha256 undo_demo_digest ''a''),
      wr_sha256 = content_sha256 undo_demo_digest ''b'', wr_bytes_written = 1\<rparr>)"
  by (simp add: apply_replacement_def replace_workspace_file_def open_target_def undo_demo_path current_hash_def read_bounded_def
      ok_or_def MAX_TOOL_FILE_BYTES_def undo_demo_world_def undo_demo_done_def undo_demo_io_def)

lemma undo_demo_complete:
  "complete_turn_file_change undo_demo_call
     \<lparr>st_turns = (\<lambda>_. None)(''t1'' := Some undo_demo_turn),
      st_changes = [undo_demo_row\<lparr>cr_state := ''planned'', cr_operation_id := Some ''op''\<rparr>]\<rparr>
     \<lparr>plan_operation_id = ''op'', plan_turn_id = ''t1'', plan_path = ''a.txt'', plan_previous_after_sha256 = None, plan_was_new = True\<rparr> =
   (wd_store undo_demo_done, Ok ())"
  by (simp add: complete_turn_file_change_def settle_def update_rows_def plan_current_def row_key_def rows_affected_def
      undo_demo_call_def undo_demo_row_def undo_demo_done_def)

lemma undo_demo_edit: "\<exists>v. apply_edits undo_demo_system open_guard undo_demo_env undo_demo_request undo_demo_world = (undo_demo_done, Ok v)"
proof -
  let ?p = "\<lparr>pe_snapshot = \<lparr>fs_path = ''a.txt'', fs_content = Some ''a'', fs_sha256 = Some (content_sha256 undo_demo_digest ''a'')\<rparr>,
         pe_replacement = \<lparr>fr_path = ''a.txt'', fr_expected_sha256 = Some (content_sha256 undo_demo_digest ''a''), fr_content = ''b''\<rparr>,
         pe_after_sha256 = content_sha256 undo_demo_digest ''b''\<rparr>"
  have prep: "prepare_files (es_digest undo_demo_system) open_guard (ee_read undo_demo_env) (wd_files undo_demo_world) 0 0 [undo_demo_args] = Ok [?p]"
    using undo_demo_prepared by (simp add: undo_demo_system_def undo_demo_env_def MAX_EDIT_BYTES_def)
  have "\<exists>v. write_prepared_edit undo_demo_system open_guard undo_demo_env undo_demo_request undo_demo_world ?p [] = (undo_demo_done, [v], Ok ())"
    using undo_demo_plan undo_demo_write undo_demo_complete
    by (simp add: write_prepared_edit_def undo_demo_system_def undo_demo_env_def undo_demo_request_def lift_storage_def)
  then show ?thesis
    using undo_demo_parse prep by (auto simp: apply_edits_def undo_demo_request_def jget_def)
qed

lemma undo_demo_start:
  "turn_known ''t1'' undo_demo_turn (wd_store undo_demo_world)" "system_ok undo_demo_system" "env_ok undo_demo_env"
  "undo_fault_free undo_demo_undo"
  using demo_cipher_laws
  by (simp_all add: turn_known_def undo_demo_defs system_ok_def env_ok_def undo_fault_free_def no_write_fault_def)

theorem turn_undo_restores_witness:
  "\<exists>w' paths. undo_files undo_demo_system open_guard undo_demo_undo demo_scope ''t1'' undo_demo_done = (w', Ok paths) \<and>
     wd_files w' = wd_files undo_demo_world \<and> wd_files undo_demo_done [''a.txt''] = Some ''b'' \<and> wd_files w' [''a.txt''] = Some ''a''"
proof -
  have "turn_activity undo_demo_system ''t1'' {''a'', ''b'', ''c''} undo_demo_world undo_demo_world"
    by (rule Start) (auto simp: undo_demo_world_def ran_def)
  then have a: "turn_activity undo_demo_system ''t1'' {''a'', ''b'', ''c''} undo_demo_world undo_demo_done"
    using undo_demo_edit undo_demo_start(3)
    by (auto intro!: Edit [where w = undo_demo_world] simp: undo_demo_request_def undo_demo_done_def ran_def split: if_splits)
  have "inj_on (es_sha256 undo_demo_system) {''a'', ''b'', ''c''}" using undo_demo_inj by (simp add: undo_demo_system_def)
  from turn_undo_restores [OF a undo_demo_start(2) this undo_demo_start(1) _ undo_demo_start(4), of demo_scope open_guard]
  show ?thesis
    by (auto simp: undo_demo_world_def undo_demo_done_def open_guard_def undo_demo_turn_def undo_demo_scope)
qed

theorem edit_call_writes_prefix_witness:
  "\<exists>keys prepared. wd_files undo_demo_done = fold put_prepared (zip keys prepared) (wd_files undo_demo_world) \<and>
     map (join ''/'') keys = [''a.txt'']"
proof -
  obtain v where v: "apply_edits undo_demo_system open_guard undo_demo_env undo_demo_request undo_demo_world = (undo_demo_done, Ok v)"
    using undo_demo_edit by blast
  from edit_call_writes_prefix [OF v] show ?thesis
  proof (elim disjE exE conjE)
    fix patches prepared keys k
    assume "parse_edit (es_edit undo_demo_system) (tr_arguments undo_demo_request) = Ok patches"
      "map ap_path patches = map (join ''/'') keys" and k: "is_ok (Ok v :: ExecutionError + json) \<longrightarrow> k = length prepared"
      and f: "wd_files undo_demo_done = fold put_prepared (take k (zip keys prepared)) (wd_files undo_demo_world)"
    then have "map (join ''/'') keys = map ap_path [undo_demo_args]" using undo_demo_parse by auto
    moreover have "map ap_path [undo_demo_args] = [''a.txt'']" by (simp add: undo_demo_args_def)
    moreover have "take k (zip keys prepared) = zip keys prepared" using k by simp
    ultimately show ?thesis using f by (intro exI [of _ keys] exI [of _ prepared]) simp
  qed simp
qed

theorem undo_refuses_foreign_change_witness:
  "\<exists>e. undo_files undo_demo_system open_guard undo_demo_undo demo_scope ''t1'' (undo_demo_done\<lparr>wd_files := (\<lambda>_. None)([''a.txt''] := Some ''c'')\<rparr>) =
     (undo_demo_done\<lparr>wd_files := (\<lambda>_. None)([''a.txt''] := Some ''c'')\<rparr>, Err e)"
proof -
  let ?w = "undo_demo_done\<lparr>wd_files := (\<lambda>_. None)([''a.txt''] := Some ''c'')\<rparr>"
  let ?change = "change_of (wd_files undo_demo_world) [''a.txt''] undo_demo_row"
  have l: "list_turn_file_changes (es_cipher undo_demo_system) (es_codec undo_demo_system) (ue_list undo_demo_undo) (wd_store ?w) demo_scope ''t1'' = Ok [?change]"
    by (simp add: list_turn_file_changes_def get_turn_def undo_demo_defs undo_demo_done_def undo_demo_scope live_row_def sort_by_def
        row_change_def open_sealed_def change_of_def undo_demo_row_def)
  have s: "snapshot_file (es_digest undo_demo_system) open_guard (ue_read undo_demo_undo (tfc_path ?change)) (wd_files ?w) (tfc_path ?change) =
      Ok \<lparr>fs_path = ''a.txt'', fs_content = Some ''c'', fs_sha256 = Some (content_sha256 undo_demo_digest ''c'')\<rparr>"
    using snapshot_succeeds [of open_guard "[''a.txt'']" "wd_files ?w" undo_demo_digest] undo_demo_path(2)
    by (simp add: change_of_def undo_demo_row_def undo_demo_system_def undo_demo_undo_def MAX_TOOL_FILE_BYTES_def)
  show ?thesis
    by (rule undo_refuses_foreign_change [OF l _ s])
      (use undo_demo_inj in \<open>auto simp: change_of_def undo_demo_row_def inj_on_def\<close>)
qed

end
