(* ===== verification/Interleaving.thy ===== *)
theory Interleaving
  imports SC_Prelude
begin

text \<open>
  Asynchronous handlers that share a database and locks.  A handler is a resumption: it is finished with
  a value, or it is at one of its atomic steps (a statement of the database, a lock, an effect) with the
  guard that lets the step run, the effect of the step on the shared world and the rest of the handler,
  both of which depend on what the environment puts into the step.  The system runs any number of
  handlers: requests arrive at any time, the scheduler lets any enabled handler make its next step, a
  handler can be dropped at any of its steps, and the rest of the program changes the world within a
  given relation.

  The locale is the interface between such a system and the argument for its safety.  Every handler
  carries a ghost value, what it owns of the world; the laws say that the moves of one handler keep the
  invariant and what every other handler owns.  The lemmas of the locale lift this to all interleavings.
\<close>

section \<open>Programs\<close>

datatype ('i, 'w, 'a) prog =
    Ret 'a
  | Step "'w \<Rightarrow> bool" "'i \<Rightarrow> 'w \<Rightarrow> 'w" "'i \<Rightarrow> 'w \<Rightarrow> ('i, 'w, 'a) prog"

primrec bind_prog :: "('i, 'w, 'a) prog \<Rightarrow> ('a \<Rightarrow> ('i, 'w, 'b) prog) \<Rightarrow> ('i, 'w, 'b) prog" where
  "bind_prog (Ret x) k = k x"
| "bind_prog (Step g e c) k = Step g e (\<lambda>i w. bind_prog (c i w) k)"

text \<open>The \<open>?\<close> operator on the result of a handler, and a handler whose result is not used.\<close>

definition try_prog :: "('i, 'w, 'e + 'a) prog \<Rightarrow> ('a \<Rightarrow> ('i, 'w, 'e + 'b) prog) \<Rightarrow> ('i, 'w, 'e + 'b) prog" where
  "try_prog p k = bind_prog p (\<lambda>r. case r of Inl e \<Rightarrow> Ret (Inl e) | Inr x \<Rightarrow> k x)"

definition forget :: "('i, 'w, 'a) prog \<Rightarrow> ('i, 'w, unit) prog" where
  "forget p = bind_prog p (\<lambda>_. Ret ())"

text \<open>The steps of one handler alone, with the list of its inputs.\<close>

fun run_alone :: "('i, 'w, 'a) prog \<Rightarrow> 'i list \<Rightarrow> 'w \<Rightarrow> 'w \<times> 'a option" where
  "run_alone (Ret x) is w = (w, Some x)"
| "run_alone (Step g e c) [] w = (w, None)"
| "run_alone (Step g e c) (i # is) w = (if g w then run_alone (c i w) is (e i w) else (w, None))"

text \<open>What every execution of a program returns, whatever the world and the inputs.\<close>

primrec returns :: "('a \<Rightarrow> bool) \<Rightarrow> ('i, 'w, 'a) prog \<Rightarrow> bool" where
  "returns P (Ret x) \<longleftrightarrow> P x"
| "returns P (Step g e c) \<longleftrightarrow> (\<forall>i w. g w \<longrightarrow> returns P (c i w))"

named_theorems returns_intro "what the steps of the programs return"

lemma returns_bind: "returns Q p \<Longrightarrow> (\<And>x. Q x \<Longrightarrow> returns P (k x)) \<Longrightarrow> returns P (bind_prog p k)"
  by (induction p) auto

lemma returns_mono: "returns Q p \<Longrightarrow> (\<And>x. Q x \<Longrightarrow> P x) \<Longrightarrow> returns P p"
  by (induction p) auto

lemma returns_True [simp]: "returns (\<lambda>_. True) p"
  by (induction p) auto

lemma returns_try:
  assumes "returns Q p" and "\<And>x. Q (Inr x) \<Longrightarrow> returns P (k x)" and "\<And>e. P (Inl e)"
  shows "returns P (try_prog p k)"
  unfolding try_prog_def using assms(2,3) by (intro returns_bind [OF assms(1)]) (auto split: sum.splits)

lemma returns_run_alone: "returns P p \<Longrightarrow> run_alone p is w = (w', Some x) \<Longrightarrow> P x"
  by (induction p "is" w rule: run_alone.induct) (auto split: if_splits)

section \<open>Systems\<close>

text \<open>A system is the shared world with its handlers; the number of a handler is its position.\<close>

inductive sys_step ::
  "('i \<Rightarrow> nat) \<Rightarrow> ('i, 'w, unit) prog set \<Rightarrow> ('w \<Rightarrow> 'w \<Rightarrow> bool) \<Rightarrow> (nat \<Rightarrow> 'w \<Rightarrow> 'w) \<Rightarrow>
   'w \<times> ('i, 'w, unit) prog list \<Rightarrow> 'w \<times> ('i, 'w, unit) prog list \<Rightarrow> bool"
  for tid and clients and env and release where
  arrive: "p \<in> clients \<Longrightarrow> sys_step tid clients env release (w, ps) (w, ps @ [p])"
| run: "k < length ps \<Longrightarrow> ps ! k = Step g e c \<Longrightarrow> g w \<Longrightarrow> tid i = k \<Longrightarrow>
    sys_step tid clients env release (w, ps) (e i w, ps[k := c i w])"
| drop: "k < length ps \<Longrightarrow> sys_step tid clients env release (w, ps) (release k w, ps[k := Ret ()])"
| other: "env w w' \<Longrightarrow> sys_step tid clients env release (w, ps) (w', ps)"

inductive reachable ::
  "('i \<Rightarrow> nat) \<Rightarrow> ('i, 'w, unit) prog set \<Rightarrow> ('w \<Rightarrow> 'w \<Rightarrow> bool) \<Rightarrow> (nat \<Rightarrow> 'w \<Rightarrow> 'w) \<Rightarrow>
   'w \<times> ('i, 'w, unit) prog list \<Rightarrow> 'w \<times> ('i, 'w, unit) prog list \<Rightarrow> bool"
  for tid and clients and env and release and s where
  here: "reachable tid clients env release s s"
| more: "reachable tid clients env release s s' \<Longrightarrow> sys_step tid clients env release s' s'' \<Longrightarrow>
    reachable tid clients env release s s''"

inductive_cases sys_stepE: "sys_step tid clients env release s s'"

section \<open>Runs\<close>

text \<open>The world after the inputs, with what is left of the program.\<close>

fun steps_alone :: "('i, 'w, 'a) prog \<Rightarrow> 'i list \<Rightarrow> 'w \<Rightarrow> ('w \<times> ('i, 'w, 'a) prog) option" where
  "steps_alone p [] w = Some (w, p)"
| "steps_alone (Ret x) (i # is) w = None"
| "steps_alone (Step g e c) (i # is) w = (if g w then steps_alone (c i w) is (e i w) else None)"

lemma steps_alone_append:
  "steps_alone p (is @ js) w = Option.bind (steps_alone p is w) (\<lambda>(w', p'). steps_alone p' js w')"
  by (induction p "is" w rule: steps_alone.induct) (auto simp: neq_Nil_conv elim: steps_alone.elims)

lemma reachable_trans:
  "reachable tid cl env rel s s' \<Longrightarrow> reachable tid cl env rel s' s'' \<Longrightarrow> reachable tid cl env rel s s''"
  by (rotate_tac 1, induction rule: reachable.induct) (auto intro: reachable.more)

text \<open>A request that runs to its end without interference.\<close>

lemma reach_run_alone:
  assumes "reachable tid clients env release s (w, ps)" and "k < length ps" and "\<forall>i \<in> set ins. tid i = k"
    and "run_alone (ps ! k) ins w = (w', Some ())"
  shows "reachable tid clients env release s (w', ps[k := Ret ()])"
  using assms
proof (induction "ins" arbitrary: w ps)
  case Nil
  then have "ps ! k = Ret ()" and "w' = w" by (cases "ps ! k"; simp)+
  with Nil.prems(1) list_update_id [of ps k] show ?case by simp
next
  case (Cons i "ins")
  show ?case
  proof (cases "ps ! k")
    case (Ret x)
    with Cons.prems(4) have "w' = w" by simp
    with Cons.prems(1) Ret list_update_id [of ps k] show ?thesis by simp
  next
    case (Step g e c)
    with Cons.prems(4) have g: "g w" and run: "run_alone (c i w) ins (e i w) = (w', Some ())" by (auto split: if_splits)
    have "sys_step tid clients env release (w, ps) (e i w, ps[k := c i w])"
      by (rule sys_step.run [OF _ Step]) (use g Cons.prems in auto)
    with Cons.prems(1) have "reachable tid clients env release s (e i w, ps[k := c i w])" by (rule reachable.more)
    from Cons.IH [OF this] Cons.prems(2,3) run show ?thesis by simp
  qed
qed

lemma reach_request:
  assumes "reachable tid clients env release s (w, ps)" and "p \<in> clients"
    and "\<forall>i \<in> set ins. tid i = length ps" and "snd (run_alone p ins w) = Some ()"
  shows "reachable tid clients env release s (fst (run_alone p ins w), ps @ [Ret ()])"
proof -
  have "reachable tid clients env release s (w, ps @ [p])" using assms(1,2) by (auto intro: reachable.more sys_step.arrive)
  from reach_run_alone [OF this, of "length ps" "ins" "fst (run_alone p ins w)"] assms(3,4) show ?thesis
    by (simp add: prod_eq_iff)
qed

lemma sys_step_alone:
  assumes "k < length ps" and "ps ! k = p" and "steps_alone p [i] w = Some (w', p')" and "tid i = k"
  shows "sys_step tid clients env release (w, ps) (w', ps[k := p'])"
proof (cases p)
  case (Step g e c)
  with assms(2) have at: "ps ! k = Step g e c" by simp
  have "sys_step tid clients env release (w, ps) (e i w, ps[k := c i w])"
    by (rule sys_step.run [OF assms(1) at]) (use assms(3,4) Step in \<open>auto split: if_splits\<close>)
  with assms(3) Step show ?thesis by (auto split: if_splits)
qed (use assms(3) in simp)

lemma reach_steps_alone:
  assumes "reachable tid clients env release s (w, ps)" and "k < length ps" and "\<forall>i \<in> set ins. tid i = k"
    and "steps_alone (ps ! k) ins w = Some (w', p')"
  shows "reachable tid clients env release s (w', ps[k := p'])"
  using assms
proof (induction "ins" arbitrary: w ps)
  case Nil
  then have "w' = w" and "p' = ps ! k" by simp_all
  with Nil.prems(1) show ?case by (simp only: list_update_id)
next
  case (Cons i "ins")
  from Cons.prems(4) have "steps_alone (ps ! k) ([i] @ ins) w = Some (w', p')" by simp
  then obtain w1 p1 where step: "steps_alone (ps ! k) [i] w = Some (w1, p1)" and rest: "steps_alone p1 ins w1 = Some (w', p')"
    unfolding steps_alone_append bind_eq_Some_conv by auto
  have "sys_step tid clients env release (w, ps) (w1, ps[k := p1])"
    using sys_step_alone [OF Cons.prems(2) refl step] Cons.prems(3) by simp
  with Cons.prems(1) have "reachable tid clients env release s (w1, ps[k := p1])" by (rule reachable.more)
  from Cons.IH [OF this] Cons.prems(2,3) rest show ?case by simp
qed

section \<open>Owned worlds\<close>

locale owned_world =
  fixes tid :: "'i \<Rightarrow> nat"
    and inv :: "'w \<Rightarrow> bool"
    and own :: "'g \<Rightarrow> 'w \<Rightarrow> bool"
    and thread :: "'g \<Rightarrow> nat"
    and idle :: "nat \<Rightarrow> 'g"
    and compat :: "'g \<Rightarrow> 'g \<Rightarrow> bool"
    and move :: "'g \<Rightarrow> 'w \<Rightarrow> 'g \<Rightarrow> 'w \<Rightarrow> bool"
    and holder :: "'w \<Rightarrow> nat \<Rightarrow> bool"
    and later :: "'w \<Rightarrow> 'w \<Rightarrow> bool"
    and env :: "'w \<Rightarrow> 'w \<Rightarrow> bool"
    and release :: "nat \<Rightarrow> 'w \<Rightarrow> 'w"
  assumes move_inv: "inv w \<Longrightarrow> own g w \<Longrightarrow> move g w g' w' \<Longrightarrow> inv w'"
    and move_own: "inv w \<Longrightarrow> own g w \<Longrightarrow> move g w g' w' \<Longrightarrow> own g' w'"
    and move_thread: "move g w g' w' \<Longrightarrow> thread g' = thread g"
    and move_frame: "inv w \<Longrightarrow> own g w \<Longrightarrow> own h w \<Longrightarrow> compat g h \<Longrightarrow> thread g \<noteq> thread h \<Longrightarrow> move g w g' w' \<Longrightarrow>
        own h w' \<and> compat g' h"
    and move_holder: "inv w \<Longrightarrow> own g w \<Longrightarrow> move g w g' w' \<Longrightarrow> holder w' k \<Longrightarrow> k \<noteq> thread g \<Longrightarrow> holder w k"
    and move_later: "inv w \<Longrightarrow> own g w \<Longrightarrow> move g w g' w' \<Longrightarrow> later w w'"
    and compat_sym: "compat g h \<Longrightarrow> compat h g"
    and idle_thread: "thread (idle k) = k"
    and idle_own: "inv w \<Longrightarrow> \<not> holder w k \<Longrightarrow> own (idle k) w"
    and idle_free: "own (idle k) w \<Longrightarrow> \<not> holder w k"
    and idle_compat: "compat (idle k) h"
    and release_move: "inv w \<Longrightarrow> own g w \<Longrightarrow> move g w (idle (thread g)) (release (thread g) w)"
    and env_inv: "inv w \<Longrightarrow> env w w' \<Longrightarrow> inv w'"
    and env_own: "inv w \<Longrightarrow> own g w \<Longrightarrow> env w w' \<Longrightarrow> own g w'"
    and env_holder: "env w w' \<Longrightarrow> holder w' k \<Longrightarrow> holder w k"
    and env_later: "env w w' \<Longrightarrow> later w w'"
    and later_refl: "later w w"
    and later_trans: "later w w' \<Longrightarrow> later w' w'' \<Longrightarrow> later w w''"
begin

text \<open>A program is safe for what it owns when each of its steps is a move, whatever the other handlers
  have done before it; a step that can block does so only while another handler holds a lock, and only
  in a handler that holds none.\<close>

primrec safe :: "('a \<Rightarrow> 'g \<Rightarrow> bool) \<Rightarrow> ('i, 'w, 'a) prog \<Rightarrow> 'g \<Rightarrow> bool" where
  "safe Q (Ret x) g \<longleftrightarrow> Q x g"
| "safe Q (Step gd e c) g \<longleftrightarrow>
     (\<forall>w. inv w \<and> own g w \<and> \<not> gd w \<longrightarrow> \<not> holder w (thread g) \<and> (\<exists>k. holder w k)) \<and>
     (\<forall>i w. inv w \<and> own g w \<and> gd w \<and> tid i = thread g \<longrightarrow> (\<exists>g'. move g w g' (e i w) \<and> safe Q (c i w) g'))"

lemma safe_mono: "safe Q p g \<Longrightarrow> (\<And>x g'. Q x g' \<Longrightarrow> thread g' = thread g \<Longrightarrow> R x g') \<Longrightarrow> safe R p g"
proof (induction p arbitrary: g)
  case (Step gd e c)
  have "safe R (c i w) g'" if "safe Q (c i w) g'" and "move g w g' (e i w)" for i w g'
  proof (rule Step.IH [of _ "c i w"])
    show "R x h" if "Q x h" and "thread h = thread g'" for x h
      using Step.prems(2) that move_thread [OF \<open>move g w g' (e i w)\<close>] by simp
  qed (use that in auto)
  then show ?case using Step.prems(1) by fastforce
qed auto

lemma safe_bind:
  assumes "safe Q p g" and "\<And>x g'. Q x g' \<Longrightarrow> thread g' = thread g \<Longrightarrow> safe R (k x) g'"
  shows "safe R (bind_prog p k) g"
  using assms
proof (induction p arbitrary: g)
  case (Step gd e c)
  have "safe R (bind_prog (c i w) k) g'" if "safe Q (c i w) g'" and "move g w g' (e i w)" for i w g'
  proof (rule Step.IH [of _ "c i w"])
    show "safe R (k x) h" if "Q x h" and "thread h = thread g'" for x h
      using Step.prems(2) that move_thread [OF \<open>move g w g' (e i w)\<close>] by simp
  qed (use that in auto)
  then show ?case using Step.prems(1) by fastforce
qed auto

lemma safe_returns: "safe Q p g \<Longrightarrow> returns P p \<Longrightarrow> safe (\<lambda>x h. Q x h \<and> P x) p g"
proof (induction p arbitrary: g)
  case (Step gd e c)
  have "safe (\<lambda>x h. Q x h \<and> P x) (c i w) g'" if "safe Q (c i w) g'" and "gd w" for i w g'
    using Step.IH [of "c i" "c i w" g'] Step.prems(2) that by auto
  then show ?case using Step.prems(1) by fastforce
qed auto

lemma safe_try:
  assumes "safe Q p g" and "\<And>x g'. Q (Inr x) g' \<Longrightarrow> thread g' = thread g \<Longrightarrow> safe R (k x) g'"
    and "\<And>e g'. Q (Inl e) g' \<Longrightarrow> thread g' = thread g \<Longrightarrow> R (Inl e) g'"
  shows "safe R (try_prog p k) g"
  unfolding try_prog_def using assms by (intro safe_bind [OF assms(1)]) (auto split: sum.splits)

definition finished :: "'a \<Rightarrow> 'g \<Rightarrow> bool" where
  "finished x g \<longleftrightarrow> (\<forall>w. inv w \<longrightarrow> own g w \<longrightarrow> \<not> holder w (thread g))"

text \<open>The invariant of a system: every handler is safe for what it owns.\<close>

definition sys_inv :: "'w \<times> ('i, 'w, unit) prog list \<Rightarrow> bool" where
  "sys_inv s \<longleftrightarrow>
     inv (fst s) \<and> (\<forall>k. holder (fst s) k \<longrightarrow> k < length (snd s)) \<and>
     (\<exists>gs. (\<forall>k. thread (gs k) = k) \<and>
        (\<forall>k < length (snd s). own (gs k) (fst s) \<and> safe finished (snd s ! k) (gs k)) \<and>
        (\<forall>j < length (snd s). \<forall>k < length (snd s). j \<noteq> k \<longrightarrow> compat (gs j) (gs k)))"

lemma safe_now:
  assumes "safe Q (Step gd e c) g" and "inv w" and "own g w" and "gd w" and "tid i = thread g"
  obtains g' where "move g w g' (e i w)" and "safe Q (c i w) g'"
proof -
  from assms have "\<exists>g'. move g w g' (e i w) \<and> safe Q (c i w) g'" by simp
  with that show thesis by blast
qed

lemma sys_inv_move:
  assumes "sys_inv (w, ps)" and "k < length ps"
    and "\<And>g. thread g = k \<Longrightarrow> own g w \<Longrightarrow> safe finished (ps ! k) g \<Longrightarrow>
        \<exists>g'. move g w g' w' \<and> safe finished p g'"
  shows "sys_inv (w', ps[k := p])" and "later w w'"
proof -
  from assms(1) obtain gs where inv: "inv w" and alive: "\<forall>j. holder w j \<longrightarrow> j < length ps"
    and th: "\<forall>j. thread (gs j) = j"
    and own: "\<forall>j < length ps. own (gs j) w \<and> safe finished (ps ! j) (gs j)"
    and comp: "\<forall>i < length ps. \<forall>j < length ps. i \<noteq> j \<longrightarrow> compat (gs i) (gs j)"
    unfolding sys_inv_def by auto
  obtain g' where mv: "move (gs k) w g' w'" and safe: "safe finished p g'"
    using assms(3) [of "gs k"] own th assms(2) by auto
  have g': "thread g' = k" using move_thread [OF mv] th by simp
  have frame: "own (gs j) w' \<and> compat g' (gs j)" if "j < length ps" "j \<noteq> k" for j
    using move_frame [OF inv _ _ _ _ mv, of "gs j"] own comp th assms(2) that by auto
  let ?gs = "gs(k := g')"
  have "own (?gs j) w' \<and> safe finished (ps[k := p] ! j) (?gs j)" if "j < length ps" for j
    using frame that own safe move_own [OF inv _ mv] assms(2) by (cases "j = k") auto
  moreover have "compat (?gs i) (?gs j)" if "i < length ps" "j < length ps" "i \<noteq> j" for i j
    using frame that comp compat_sym by auto
  moreover have "\<forall>j. thread (?gs j) = j" using th g' by simp
  moreover have "j < length ps" if "holder w' j" for j
    using move_holder [OF inv _ mv that] own assms(2) alive th by (cases "j = k") auto
  moreover have "inv w'" using move_inv [OF inv _ mv] own assms(2) by auto
  ultimately show "sys_inv (w', ps[k := p])" unfolding sys_inv_def by auto
  show "later w w'" using move_later [OF inv _ mv] own assms(2) by auto
qed

lemma sys_inv_run:
  assumes "sys_inv (w, ps)" and "k < length ps" and "ps ! k = Step gd e c" and "gd w" and "tid i = k"
  shows "sys_inv (e i w, ps[k := c i w])" and "later w (e i w)"
proof -
  have inv: "inv w" using assms(1) by (simp add: sys_inv_def)
  have "\<exists>g'. move g w g' (e i w) \<and> safe finished (c i w) g'"
    if "thread g = k" "own g w" "safe finished (ps ! k) g" for g
    using safe_now [of finished gd e c g w i] that inv assms(3-5) by metis
  then show "sys_inv (e i w, ps[k := c i w])" and "later w (e i w)"
    using sys_inv_move [OF assms(1,2)] by blast+
qed

lemma safe_idle: "safe finished (Ret ()) (idle k)"
  using idle_free [of k] by (simp add: finished_def idle_thread)

lemma sys_inv_step:
  assumes "sys_step tid clients env release s s'" and "sys_inv s"
    and clients: "\<And>p k. p \<in> clients \<Longrightarrow> safe finished p (idle k)"
  shows "sys_inv s' \<and> later (fst s) (fst s')"
  using assms(1)
proof cases
  case (arrive p w ps)
  from assms(2) arrive(1) obtain gs where inv: "inv w" and alive: "\<forall>j. holder w j \<longrightarrow> j < length ps"
    and th: "\<forall>j. thread (gs j) = j"
    and own: "\<forall>j < length ps. own (gs j) w \<and> safe finished (ps ! j) (gs j)"
    and comp: "\<forall>i < length ps. \<forall>j < length ps. i \<noteq> j \<longrightarrow> compat (gs i) (gs j)"
    unfolding sys_inv_def by auto
  let ?n = "length ps"
  let ?gs = "gs(?n := idle ?n)"
  have "own (idle ?n) w" using idle_own [OF inv] alive by blast
  then have "own (?gs j) w \<and> safe finished ((ps @ [p]) ! j) (?gs j)" if "j < Suc ?n" for j
    using that own clients [OF arrive(3)] by (cases "j = ?n") (auto simp: nth_append)
  moreover have "compat (?gs i) (?gs j)" if "i < Suc ?n" "j < Suc ?n" "i \<noteq> j" for i j
    using that comp idle_compat compat_sym [OF idle_compat] by (cases "i = ?n"; cases "j = ?n") auto
  moreover have "\<forall>j. thread (?gs j) = j" using th idle_thread by simp
  moreover have "j < Suc ?n" if "holder w j" for j using alive that less_SucI by blast
  ultimately show ?thesis using arrive(1,2) inv later_refl unfolding sys_inv_def by auto
next
  case (run k ps g e c w i)
  then show ?thesis using sys_inv_run [of w ps k g e c i] assms(2) by simp
next
  case (drop k ps w)
  have inv: "inv w" using assms(2) drop(1) by (simp add: sys_inv_def)
  have "\<exists>g'. move g w g' (release k w) \<and> safe finished (Ret ()) g'" if "thread g = k" "own g w" for g
    using release_move [OF inv that(2)] that(1) safe_idle by auto
  then show ?thesis using sys_inv_move [of w ps k "release k w" "Ret ()"] assms(2) drop by auto
next
  case (other w w' ps)
  then show ?thesis
    using assms(2) env_inv env_own env_holder env_later unfolding sys_inv_def by (auto; meson)
qed

lemma sys_inv_start:
  assumes "inv w" and "\<And>k. \<not> holder w k"
  shows "sys_inv (w, [])"
  unfolding sys_inv_def using assms idle_thread by auto

lemma sys_inv_reachable:
  assumes "reachable tid clients env release s s'" and "sys_inv s"
    and "\<And>p k. p \<in> clients \<Longrightarrow> safe finished p (idle k)"
  shows "sys_inv s' \<and> later (fst s) (fst s')"
  using assms(1)
proof induction
  case here
  then show ?case using assms(2) later_refl by simp
next
  case (more s' s'')
  then show ?case using sys_inv_step [OF more.hyps(2) _ assms(3)] later_trans by blast
qed

text \<open>Every change of the world is the move of a handler with what it owns, or one of the rest of the
  program.\<close>

lemma sys_inv_owner:
  assumes "sys_inv (w, ps)" and "k < length ps"
  obtains h where "inv w" and "thread h = k" and "own h w" and "safe finished (ps ! k) h"
proof -
  from assms(1) obtain gs where "inv w" and "thread (gs k) = k"
    and "\<forall>j < length ps. own (gs j) w \<and> safe finished (ps ! j) (gs j)"
    unfolding sys_inv_def by auto
  with that [of "gs k"] assms(2) show thesis by blast
qed

lemma step_is_move:
  assumes "sys_step tid clients env release s s'" and "sys_inv s"
  shows "fst s' = fst s \<or> env (fst s) (fst s') \<or>
    (\<exists>g g'. inv (fst s) \<and> own g (fst s) \<and> move g (fst s) g' (fst s'))"
  using assms(1)
proof cases
  case (run k ps g e c w i)
  have "sys_inv (w, ps)" using assms(2) run(1) by simp
  then obtain h where h: "inv w" "thread h = k" "own h w" "safe finished (Step g e c) h"
    by (rule sys_inv_owner [OF _ run(3)]) (simp add: run(4))
  obtain h' where "move h w h' (e i w)" using safe_now [OF h(4,1,3) run(5)] run(6) h(2) by metis
  with h(1,3) run(1,2) show ?thesis by (simp, blast)
next
  case (drop k ps w)
  have "sys_inv (w, ps)" using assms(2) drop(1) by simp
  then obtain h where h: "inv w" "thread h = k" "own h w" by (rule sys_inv_owner [OF _ drop(3)])
  from release_move [OF h(1,3)] h drop(1,2) show ?thesis by (simp, blast)
qed simp_all

text \<open>No deadlock: while a handler is unfinished, some handler can make its next step.\<close>

lemma some_enabled:
  assumes "sys_inv (w, ps)" and "k < length ps" and "ps ! k \<noteq> Ret ()"
  shows "\<exists>j g e c. j < length ps \<and> ps ! j = Step g e c \<and> g w"
proof -
  from assms(1) obtain gs where inv: "inv w" and alive: "\<forall>j. holder w j \<longrightarrow> j < length ps"
    and th: "\<forall>j. thread (gs j) = j"
    and own: "\<forall>j < length ps. own (gs j) w \<and> safe finished (ps ! j) (gs j)"
    unfolding sys_inv_def by auto
  obtain g e c where p: "ps ! k = Step g e c" using assms(3) by (cases "ps ! k") auto
  show ?thesis
  proof (cases "g w")
    case False
    have "safe finished (Step g e c) (gs k)" and "own (gs k) w" using own assms(2) p by auto
    with False inv obtain j where j: "holder w j" by auto
    then have j_own: "j < length ps" "own (gs j) w" "safe finished (ps ! j) (gs j)" using alive own by auto
    show ?thesis
    proof (cases "ps ! j")
      case (Ret x)
      with j_own j th inv show ?thesis by (simp add: finished_def)
    next
      case (Step g' e' c')
      with j_own j th inv have "g' w" by auto
      with Step j_own(1) show ?thesis by blast
    qed
  qed (use assms(2) p in blast)
qed

end

end
