(* ===== verification/Sql_Rows.thy ===== *)
theory Sql_Rows
  imports SC_Prelude
begin

text \<open>
  Tables as lists of rows: selection by a key, conditional update, and sums over a column.
\<close>

section \<open>Statements on rows\<close>

definition find_row :: "('r \<Rightarrow> 'k) \<Rightarrow> 'k \<Rightarrow> 'r list \<Rightarrow> 'r option" where
  "find_row key k rows = find (\<lambda>r. key r = k) rows"

definition update_where :: "('r \<Rightarrow> bool) \<Rightarrow> ('r \<Rightarrow> 'r) \<Rightarrow> 'r list \<Rightarrow> 'r list" where
  "update_where p f rows = map (\<lambda>r. if p r then f r else r) rows"

definition sum_rows :: "('r \<Rightarrow> int) \<Rightarrow> 'r list \<Rightarrow> int" where
  "sum_rows column rows = sum_list (map column rows)"

text \<open>\<open>ORDER BY\<close> a column, \<open>LIMIT 1\<close>: the database is free among rows of the same rank; \<open>choice\<close> is its
  decision.\<close>

definition first_by :: "('r \<Rightarrow> int) \<Rightarrow> nat \<Rightarrow> 'r list \<Rightarrow> 'r option" where
  "first_by rank choice rows =
     (case rows of
        [] \<Rightarrow> None
      | r # rs \<Rightarrow>
          let least = fold min (map rank rs) (rank r); ties = filter (\<lambda>r. rank r = least) rows in
          Some (ties ! (choice mod length ties)))"

text \<open>\<open>ORDER BY\<close> columns that identify a row, \<open>LIMIT 1\<close>.\<close>

definition best_row :: "('r \<Rightarrow> 'r \<Rightarrow> bool) \<Rightarrow> 'r list \<Rightarrow> 'r option" where
  "best_row before rows =
     (case rows of [] \<Rightarrow> None | r # rs \<Rightarrow> Some (fold (\<lambda>x best. if before x best then x else best) rs r))"

section \<open>Lemmas\<close>

lemma find_row_SomeD: "find_row key k rows = Some r \<Longrightarrow> r \<in> set rows \<and> key r = k"
  by (auto simp: find_row_def find_Some_iff)

lemma find_row_NoneD: "find_row key k rows = None \<Longrightarrow> k \<notin> key ` set rows"
  by (auto simp: find_row_def find_None_iff)

lemma find_row_append: "find_row key k (rows @ [r]) = (case find_row key k rows of Some x \<Rightarrow> Some x | None \<Rightarrow> if key r = k then Some r else None)"
  by (induction rows) (auto simp: find_row_def)

lemma find_row_update:
  assumes "\<And>r. r \<in> set rows \<Longrightarrow> p r \<Longrightarrow> key (f r) = key r"
  shows "find_row key k (update_where p f rows) = map_option (\<lambda>r. if p r then f r else r) (find_row key k rows)"
  using assms by (induction rows) (auto simp: find_row_def update_where_def)

lemma find_row_mem:
  assumes "distinct (map key rows)" and "r \<in> set rows"
  shows "find_row key (key r) rows = Some r"
  using assms by (induction rows) (auto simp: find_row_def)

lemma find_row_image: "find_row key k rows \<noteq> None \<longleftrightarrow> k \<in> key ` set rows"
  by (auto simp: find_row_def find_None_iff)

lemma set_update_where: "set (update_where p f rows) = (\<lambda>r. if p r then f r else r) ` set rows"
  by (simp add: update_where_def)

lemma map_update_where:
  assumes "\<And>r. r \<in> set rows \<Longrightarrow> p r \<Longrightarrow> key (f r) = key r"
  shows "map key (update_where p f rows) = map key rows"
  using assms by (induction rows) (auto simp: update_where_def)

lemma image_update_where:
  assumes "\<And>r. r \<in> set rows \<Longrightarrow> p r \<Longrightarrow> key (f r) = key r"
  shows "key ` set (update_where p f rows) = key ` set rows"
  using map_update_where [of rows p key f, OF assms] by (metis list.set_map)

lemma update_where_kept: "r \<in> set rows \<Longrightarrow> \<not> p r \<Longrightarrow> r \<in> set (update_where p f rows)"
  by (auto simp: set_update_where intro: rev_image_eqI)

lemma updated_row: "r \<in> set (update_where p f rows) \<Longrightarrow> (\<exists>x \<in> set rows. p x \<and> r = f x) \<or> (r \<in> set rows \<and> \<not> p r)"
  unfolding set_update_where by auto

lemma sum_rows_simps [simp]:
  "sum_rows c [] = 0" "sum_rows c (r # rows) = c r + sum_rows c rows" "sum_rows c (rows @ rows') = sum_rows c rows + sum_rows c rows'"
  by (simp_all add: sum_rows_def)

lemma sum_rows_cong: "(\<And>r. r \<in> set rows \<Longrightarrow> c r = d r) \<Longrightarrow> sum_rows c rows = sum_rows d rows"
  by (induction rows) auto

lemma sum_rows_map: "sum_rows c (update_where p f rows) = sum_rows (\<lambda>r. if p r then c (f r) else c r) rows"
  by (induction rows) (auto simp: update_where_def)

lemma sum_rows_zero: "(\<And>r. r \<in> set rows \<Longrightarrow> c r = 0) \<Longrightarrow> sum_rows c rows = 0"
  by (induction rows) auto

lemma sum_rows_filter: "sum_rows c (filter p rows) = sum_rows (\<lambda>r. if p r then c r else 0) rows"
  by (induction rows) auto

lemma sum_rows_nonneg: "(\<And>r. r \<in> set rows \<Longrightarrow> 0 \<le> c r) \<Longrightarrow> 0 \<le> sum_rows c rows"
  by (induction rows) auto

lemma sum_rows_mem_le: "r \<in> set rows \<Longrightarrow> (\<And>r. r \<in> set rows \<Longrightarrow> 0 \<le> c r) \<Longrightarrow> c r \<le> sum_rows c rows"
proof (induction rows)
  case (Cons x rows)
  then show ?case using sum_rows_nonneg [of rows c] by fastforce
qed simp

text \<open>The update of one row moves its contribution.\<close>

lemma sum_rows_update_one:
  assumes "distinct (map key rows)" and "r \<in> set rows"
  shows "sum_rows c (update_where (\<lambda>x. key x = key r) f rows) = sum_rows c rows - c r + c (f r)"
  using assms
proof (induction rows)
  case (Cons x rows)
  show ?case
  proof (cases "key x = key r")
    case True
    with Cons.prems have "x = r" and "key r \<notin> key ` set rows" by (auto simp: image_iff)
    then have "update_where (\<lambda>x. key x = key r) f rows = rows"
      unfolding update_where_def by (intro map_idI) (auto simp: image_iff)
    with \<open>x = r\<close> show ?thesis by (simp add: update_where_def)
  next
    case False
    with Cons show ?thesis by (auto simp: update_where_def)
  qed
qed simp

lemma first_by_mem: "first_by rank choice rows = Some r \<Longrightarrow> r \<in> set rows"
proof (cases rows)
  case (Cons x xs)
  assume r: "first_by rank choice rows = Some r"
  let ?least = "fold min (map rank xs) (rank x)"
  have "?least \<in> set (map rank (x # xs))"
  proof (induction xs arbitrary: x)
    case (Cons y ys)
    have "fold min (map rank (y # ys)) (rank x) = fold min (map rank ys) (rank (if rank y \<le> rank x then y else x))"
      by (simp add: min_def)
    with Cons [of "if rank y \<le> rank x then y else x"] show ?case by (auto split: if_splits)
  qed simp
  then have "filter (\<lambda>r. rank r = ?least) rows \<noteq> []" using Cons by (auto simp: filter_empty_conv)
  then have "filter (\<lambda>r. rank r = ?least) rows ! (choice mod length (filter (\<lambda>r. rank r = ?least) rows))
      \<in> set (filter (\<lambda>r. rank r = ?least) rows)"
    by (intro nth_mem) simp
  then show ?thesis using r Cons by (auto simp: first_by_def Let_def)
qed (simp add: first_by_def)

lemma best_row_None [simp]: "best_row before rows = None \<longleftrightarrow> rows = []"
  by (simp add: best_row_def split: list.split)

lemma best_row_mem: "best_row before rows = Some r \<Longrightarrow> r \<in> set rows"
proof -
  have "fold (\<lambda>x best. if before x best then x else best) xs x \<in> set (x # xs)" for x :: 'a and xs
    by (induction xs arbitrary: x) fastforce+
  then show "best_row before rows = Some r \<Longrightarrow> r \<in> set rows" by (cases rows) (auto simp: best_row_def)
qed

lemma best_row_first:
  assumes asym: "\<And>a b. before a b \<Longrightarrow> \<not> before b a"
    and neg: "\<And>a b c. \<not> before a b \<Longrightarrow> \<not> before b c \<Longrightarrow> \<not> before a c"
    and best: "best_row before rows = Some r" and x: "x \<in> set rows"
  shows "\<not> before x r"
proof -
  have "\<forall>x \<in> set (y # ys). \<not> before x (fold (\<lambda>x best. if before x best then x else best) ys y)" for y ys
  proof (induction ys arbitrary: y)
    case Nil
    show ?case using asym [of y y] by auto
  next
    case (Cons z zs)
    define b where "b = (if before z y then z else y)"
    let ?r = "fold (\<lambda>x best. if before x best then x else best) zs b"
    have rest: "\<not> before x ?r" if "x = b \<or> x \<in> set zs" for x using Cons [of b] that by (elim disjE) simp_all
    have "\<not> before z b" using asym [of z z] by (auto simp: b_def)
    moreover have "\<not> before y b" using asym [of y y] asym [of z y] by (auto simp: b_def)
    moreover have "\<not> before b ?r" by (rule rest) simp
    ultimately have "\<not> before z ?r" and "\<not> before y ?r" using neg [of z b ?r] neg [of y b ?r] by simp_all
    moreover have "fold (\<lambda>x best. if before x best then x else best) (z # zs) y = ?r" by (simp add: b_def)
    ultimately show ?case using rest by (simp only: list.set ball_simps) blast
  qed
  with best x show ?thesis by (cases rows) (auto simp: best_row_def)
qed

end
