(* ===== verification/Media_Cache.thy ===== *)
theory Media_Cache
  imports File_Edit
begin

text \<open>
  The cache of rendered pages that wait for their turn to resume, \<open>TransientMediaCache\<close> of
  \<open>crates/execution/src/lib.rs\<close>: bounded in number and size, bound to the turn that rendered a page, and
  expiring after five minutes.  The clock of an operation is an argument (\<open>Instant\<close> as nanoseconds).
\<close>

section \<open>Data\<close>

definition MAX_TRANSIENT_MEDIA_ITEMS :: nat where "MAX_TRANSIENT_MEDIA_ITEMS = 16"
definition MAX_TRANSIENT_MEDIA_BYTES :: u64 where "MAX_TRANSIENT_MEDIA_BYTES = 64 * 1024 * 1024"
definition TRANSIENT_MEDIA_TTL :: nat where "TRANSIENT_MEDIA_TTL = 5 * 60 * 1000000000"

record TransientToolMedia =
  tm_media_type :: string
  tm_bytes :: string

record CachedToolMedia =
  cm_turn_id :: Id
  cm_inserted_at :: nat
  cm_media :: TransientToolMedia

text \<open>The entries of the map with their keys, the ids of the tool calls.\<close>

record TransientMediaCache =
  mc_entries :: "(Id \<times> CachedToolMedia) list"
  mc_bytes :: u64

definition TransientMediaCache_default :: TransientMediaCache where
  "TransientMediaCache_default = \<lparr>mc_entries = [], mc_bytes = 0\<rparr>"

definition media_len :: "TransientToolMedia \<Rightarrow> u64" where
  "media_len m = u64_of_len (length (tm_bytes m))"

definition saturating_sub :: "u64 \<Rightarrow> u64 \<Rightarrow> u64" where
  "saturating_sub a b = (if b \<le> a then a - b else 0)"

section \<open>Operations\<close>

definition media_remove :: "Id \<Rightarrow> TransientMediaCache \<Rightarrow> TransientMediaCache" where
  "media_remove call_id cache =
     (case map_of (mc_entries cache) call_id of
        None \<Rightarrow> cache
      | Some entry \<Rightarrow>
          cache\<lparr>mc_entries := filter (\<lambda>(id, _). id \<noteq> call_id) (mc_entries cache),
                mc_bytes := saturating_sub (mc_bytes cache) (media_len (cm_media entry))\<rparr>)"

definition media_expired :: "nat \<Rightarrow> CachedToolMedia \<Rightarrow> bool" where
  "media_expired now entry \<longleftrightarrow> TRANSIENT_MEDIA_TTL \<le> now - cm_inserted_at entry"

definition media_prune :: "nat \<Rightarrow> TransientMediaCache \<Rightarrow> TransientMediaCache" where
  "media_prune now cache =
     fold media_remove (map fst (filter (\<lambda>(_, entry). media_expired now entry) (mc_entries cache))) cache"

definition transient_tool_media :: "nat \<Rightarrow> Id \<Rightarrow> Id \<Rightarrow> TransientMediaCache \<Rightarrow>
    TransientMediaCache \<times> TransientToolMedia option" where
  "transient_tool_media now turn_id call_id cache =
     (let cache = media_prune now cache in
      case map_of (mc_entries cache) call_id of
        None \<Rightarrow> (cache, None)
      | Some entry \<Rightarrow> (cache, if cm_turn_id entry \<noteq> turn_id then None else Some (cm_media entry)))"

definition cache_transient_tool_media :: "nat \<Rightarrow> Id \<Rightarrow> Id \<Rightarrow> TransientToolMedia \<Rightarrow> TransientMediaCache \<Rightarrow>
    TransientMediaCache \<times> (ExecutionError + unit)" where
  "cache_transient_tool_media now turn_id call_id media cache =
     (let cache = media_prune now cache in
      if map_of (mc_entries cache) call_id \<noteq> None
      then (cache, Err (EE_Arguments ''transient model media already exists for this tool call''))
      else if MAX_TRANSIENT_MEDIA_ITEMS \<le> length (mc_entries cache) \<or>
              MAX_TRANSIENT_MEDIA_BYTES < saturating_add (mc_bytes cache) (media_len media)
      then (cache, Err (EE_Arguments ''too many rendered pages are awaiting model dispatch; retry this page''))
      else (cache\<lparr>mc_bytes := saturating_add (mc_bytes cache) (media_len media),
                  mc_entries := mc_entries cache @
                    [(call_id, \<lparr>cm_turn_id = turn_id, cm_inserted_at = now, cm_media = media\<rparr>)]\<rparr>,
            Ok ()))"

text \<open>The task that runs when the five minutes of one entry are over.\<close>

definition transient_media_expiry :: "Id \<Rightarrow> Id \<Rightarrow> nat \<Rightarrow> TransientMediaCache \<Rightarrow> TransientMediaCache" where
  "transient_media_expiry turn_id call_id inserted_at cache =
     (case map_of (mc_entries cache) call_id of
        None \<Rightarrow> cache
      | Some entry \<Rightarrow>
          if cm_turn_id entry = turn_id \<and> cm_inserted_at entry = inserted_at then media_remove call_id cache
          else cache)"

definition discard_transient_tool_media :: "Id \<Rightarrow> TransientMediaCache \<Rightarrow> TransientMediaCache" where
  "discard_transient_tool_media call_id cache = media_remove call_id cache"

section \<open>Invariant\<close>

definition media_size :: "(Id \<times> CachedToolMedia) list \<Rightarrow> nat" where
  "media_size entries = (\<Sum>(_, entry) \<leftarrow> entries. unat (media_len (cm_media entry)))"

definition media_ok :: "TransientMediaCache \<Rightarrow> bool" where
  "media_ok cache \<longleftrightarrow>
     distinct (map fst (mc_entries cache)) \<and>
     length (mc_entries cache) \<le> MAX_TRANSIENT_MEDIA_ITEMS \<and>
     unat (mc_bytes cache) = media_size (mc_entries cache) \<and>
     mc_bytes cache \<le> MAX_TRANSIENT_MEDIA_BYTES"

lemma media_ok_default [simp]: "media_ok TransientMediaCache_default"
  by (simp add: media_ok_def TransientMediaCache_default_def media_size_def)

lemma unat_saturating_sub: "unat (saturating_sub a b) = unat a - unat b"
  by (simp add: saturating_sub_def unat_sub word_le_nat_alt)

lemma media_size_filter:
  "distinct (map fst entries) \<Longrightarrow> map_of entries k = Some entry \<Longrightarrow>
   media_size entries = unat (media_len (cm_media entry)) + media_size (filter (\<lambda>(id, _). id \<noteq> k) entries)"
proof (induction entries)
  case (Cons x xs)
  show ?case
  proof (cases "fst x = k")
    case True
    with Cons.prems(1) have "k \<notin> fst ` set xs" by (cases x) auto
    then have "filter (\<lambda>(id, _). id \<noteq> k) xs = xs" by (intro filter_True) (auto simp: image_iff)
    with True Cons.prems show ?thesis by (cases x) (auto simp: media_size_def)
  next
    case False
    with Cons show ?thesis by (cases x) (auto simp: media_size_def)
  qed
qed simp

lemma media_ok_remove:
  assumes "media_ok cache"
  shows "media_ok (media_remove k cache)"
proof (cases "map_of (mc_entries cache) k")
  case None
  with assms show ?thesis by (simp add: media_remove_def)
next
  case (Some entry)
  let ?rest = "filter (\<lambda>(id, _). id \<noteq> k) (mc_entries cache)"
  from assms have ok: "distinct (map fst (mc_entries cache))" "length (mc_entries cache) \<le> MAX_TRANSIENT_MEDIA_ITEMS"
    "unat (mc_bytes cache) = media_size (mc_entries cache)" "mc_bytes cache \<le> MAX_TRANSIENT_MEDIA_BYTES"
    by (simp_all add: media_ok_def)
  have "unat (saturating_sub (mc_bytes cache) (media_len (cm_media entry))) = media_size ?rest"
    using media_size_filter [OF ok(1) Some] ok(3) by (simp add: unat_saturating_sub)
  moreover have "saturating_sub (mc_bytes cache) (media_len (cm_media entry)) \<le> MAX_TRANSIENT_MEDIA_BYTES"
    using ok(4) by (simp add: word_le_nat_alt unat_saturating_sub)
  moreover have "length ?rest \<le> MAX_TRANSIENT_MEDIA_ITEMS" using ok(2) length_filter_le order_trans by blast
  moreover have "distinct (map fst ?rest)" using ok(1) by (simp add: distinct_map_filter)
  ultimately show ?thesis using Some by (simp add: media_remove_def media_ok_def)
qed

lemma media_ok_fold_remove: "media_ok cache \<Longrightarrow> media_ok (fold media_remove ids cache)"
  by (induction ids arbitrary: cache) (auto intro: media_ok_remove)

lemma media_ok_prune [intro]: "media_ok cache \<Longrightarrow> media_ok (media_prune now cache)"
  by (simp add: media_prune_def media_ok_fold_remove)

lemma saturating_add_bounded:
  "saturating_add a b \<le> MAX_TRANSIENT_MEDIA_BYTES \<Longrightarrow> unat (saturating_add a b) = unat a + unat b"
proof (cases "unat a + unat b < 2 ^ 64")
  case False
  then have "saturating_add a b = u64_max" by (simp add: saturating_add_def)
  moreover have "\<not> u64_max \<le> MAX_TRANSIENT_MEDIA_BYTES" unfolding MAX_TRANSIENT_MEDIA_BYTES_def by code_simp
  ultimately show "saturating_add a b \<le> MAX_TRANSIENT_MEDIA_BYTES \<Longrightarrow> ?thesis" by simp
qed (simp add: saturating_add_def unat_word_ariths)

lemma media_ok_cache:
  assumes "media_ok cache"
  shows "media_ok (fst (cache_transient_tool_media now turn_id call_id media cache))"
proof -
  let ?c = "media_prune now cache"
  have ok: "media_ok ?c" using assms by blast
  have "media_ok (?c\<lparr>mc_bytes := saturating_add (mc_bytes ?c) (media_len media),
      mc_entries := mc_entries ?c @ [(call_id, \<lparr>cm_turn_id = turn_id, cm_inserted_at = now, cm_media = media\<rparr>)]\<rparr>)"
    if "map_of (mc_entries ?c) call_id = None" "length (mc_entries ?c) < MAX_TRANSIENT_MEDIA_ITEMS"
      "saturating_add (mc_bytes ?c) (media_len media) \<le> MAX_TRANSIENT_MEDIA_BYTES"
    using that ok saturating_add_bounded [OF that(3)]
    by (auto simp: media_ok_def media_size_def map_of_eq_None_iff)
  with ok show ?thesis by (auto simp: cache_transient_tool_media_def Let_def not_le not_less)
qed

lemma remove_entries: "set (mc_entries (media_remove k cache)) \<subseteq> {x \<in> set (mc_entries cache). fst x \<noteq> k}"
proof (cases "map_of (mc_entries cache) k")
  case None
  then have "x \<in> set (mc_entries cache) \<Longrightarrow> fst x \<noteq> k" for x by (auto simp: map_of_eq_None_iff image_iff)
  with None show ?thesis by (auto simp: media_remove_def)
qed (auto simp: media_remove_def)

lemma fold_remove_entries:
  "set (mc_entries (fold media_remove ids cache)) \<subseteq> {x \<in> set (mc_entries cache). fst x \<notin> set ids}"
  by (induction ids arbitrary: cache) (use remove_entries in fastforce)+

lemma prune_entries:
  assumes "(k, entry) \<in> set (mc_entries (media_prune now cache))"
  shows "(k, entry) \<in> set (mc_entries cache)" and "\<not> media_expired now entry"
proof -
  let ?old = "map fst (filter (\<lambda>(_, entry). media_expired now entry) (mc_entries cache))"
  have "(k, entry) \<in> {x \<in> set (mc_entries cache). fst x \<notin> set ?old}"
    using assms fold_remove_entries [of ?old cache] unfolding media_prune_def by (rule rev_subsetD)
  then have mem: "(k, entry) \<in> set (mc_entries cache)" and new: "k \<notin> set ?old" by auto
  show "(k, entry) \<in> set (mc_entries cache)" by (rule mem)
  show "\<not> media_expired now entry" using mem new by (auto simp: image_iff)
qed

section \<open>Histories\<close>

text \<open>The operations with their arguments and their clock; the entries that a history has stored.\<close>

datatype MediaOp =
    Media_Put nat Id Id TransientToolMedia
  | Media_Fetch nat Id Id
  | Media_Expiry Id Id nat
  | Media_Discard Id

fun media_step :: "MediaOp \<Rightarrow> TransientMediaCache \<Rightarrow> TransientMediaCache" where
  "media_step (Media_Put now turn_id call_id media) cache = fst (cache_transient_tool_media now turn_id call_id media cache)"
| "media_step (Media_Fetch now turn_id call_id) cache = fst (transient_tool_media now turn_id call_id cache)"
| "media_step (Media_Expiry turn_id call_id inserted_at) cache = transient_media_expiry turn_id call_id inserted_at cache"
| "media_step (Media_Discard call_id) cache = discard_transient_tool_media call_id cache"

lemma media_ok_step: "media_ok cache \<Longrightarrow> media_ok (media_step op cache)"
proof (cases op)
  case (Media_Fetch now turn_id call_id)
  then show "media_ok cache \<Longrightarrow> ?thesis"
    by (auto simp: transient_tool_media_def Let_def split: option.splits)
qed (auto simp: media_ok_cache transient_media_expiry_def discard_transient_tool_media_def media_ok_remove
       split: option.splits)

lemma media_ok_history: "media_ok cache \<Longrightarrow> media_ok (fold media_step ops cache)"
  by (induction ops arbitrary: cache) (auto intro: media_ok_step)

definition media_stored :: "MediaOp list \<Rightarrow> Id \<Rightarrow> CachedToolMedia \<Rightarrow> bool" where
  "media_stored ops call_id entry \<longleftrightarrow>
     Media_Put (cm_inserted_at entry) (cm_turn_id entry) call_id (cm_media entry) \<in> set ops"

lemma media_step_entries:
  assumes "(k, entry) \<in> set (mc_entries (media_step op cache))"
  shows "(k, entry) \<in> set (mc_entries cache) \<or> media_stored [op] k entry"
proof (cases op)
  case (Media_Put now turn_id call_id media)
  with assms show ?thesis
    by (auto simp: cache_transient_tool_media_def Let_def media_stored_def split: if_splits dest: prune_entries(1))
next
  case (Media_Fetch now turn_id call_id)
  with assms show ?thesis
    by (auto simp: transient_tool_media_def Let_def split: option.splits dest: prune_entries(1))
next
  case (Media_Expiry turn_id call_id inserted_at)
  with assms show ?thesis
    using remove_entries [of call_id cache] by (auto simp: transient_media_expiry_def split: option.splits if_splits)
next
  case (Media_Discard call_id)
  with assms show ?thesis using remove_entries [of call_id cache] by (auto simp: discard_transient_tool_media_def)
qed

lemma media_history_entries:
  "(k, entry) \<in> set (mc_entries (fold media_step ops cache)) \<Longrightarrow>
   (k, entry) \<in> set (mc_entries cache) \<or> media_stored ops k entry"
proof (induction ops arbitrary: cache)
  case (Cons op ops)
  then have "(k, entry) \<in> set (mc_entries (media_step op cache)) \<or> media_stored ops k entry" by simp
  then show ?case using media_step_entries [of k entry op cache] by (auto simp: media_stored_def)
qed simp

section \<open>Property\<close>

text \<open>C24: After any history of the cache it holds at most sixteen pages and 64 MiB, its byte counter is
  exactly the sum of the sizes of its pages, and a page it hands out was stored for that call by that
  turn less than five minutes before.\<close>

theorem media_cache_bounded:
  "let cache = fold media_step ops TransientMediaCache_default in
    length (mc_entries cache) \<le> 16 \<and> unat (mc_bytes cache) = media_size (mc_entries cache) \<and>
    media_size (mc_entries cache) \<le> 64 * 1024 * 1024 \<and>
    (case snd (transient_tool_media now turn_id call_id cache) of
       None \<Rightarrow> True
     | Some media \<Rightarrow> \<exists>at. now < at + 5 * 60 * 1000000000 \<and> Media_Put at turn_id call_id media \<in> set ops)"
proof -
  let ?cache = "fold media_step ops TransientMediaCache_default"
  have ok: "media_ok ?cache" by (rule media_ok_history) simp
  then have "length (mc_entries ?cache) \<le> 16" "unat (mc_bytes ?cache) = media_size (mc_entries ?cache)"
    and le: "mc_bytes ?cache \<le> MAX_TRANSIENT_MEDIA_BYTES"
    by (simp_all add: media_ok_def MAX_TRANSIENT_MEDIA_ITEMS_def)
  moreover from le calculation(2) have "media_size (mc_entries ?cache) \<le> 64 * 1024 * 1024"
    by (simp add: word_le_nat_alt MAX_TRANSIENT_MEDIA_BYTES_def)
  moreover have "case snd (transient_tool_media now turn_id call_id ?cache) of
       None \<Rightarrow> True
     | Some media \<Rightarrow> \<exists>at. now < at + 5 * 60 * 1000000000 \<and> Media_Put at turn_id call_id media \<in> set ops"
  proof (cases "snd (transient_tool_media now turn_id call_id ?cache)")
    case (Some media)
    then obtain entry where e: "map_of (mc_entries (media_prune now ?cache)) call_id = Some entry"
      "cm_turn_id entry = turn_id" "cm_media entry = media"
      by (auto simp: transient_tool_media_def Let_def split: option.splits if_splits)
    from map_of_SomeD [OF e(1)] have "\<not> media_expired now entry" "(call_id, entry) \<in> set (mc_entries ?cache)"
      by (auto dest: prune_entries)
    with media_history_entries [of call_id entry ops TransientMediaCache_default]
    have "media_stored ops call_id entry" "now < cm_inserted_at entry + 5 * 60 * 1000000000"
      by (auto simp: TransientMediaCache_default_def media_expired_def TRANSIENT_MEDIA_TTL_def)
    with Some e show ?thesis by (auto simp: media_stored_def)
  qed simp
  ultimately show ?thesis by (simp add: Let_def)
qed

end
