(* ===== verification/Session_Rows.thy ===== *)
theory Session_Rows
  imports Turn_Changes
begin

text \<open>
  The sessions of \<open>crates/protocol/src/lib.rs\<close>, with the checks of \<open>crates/storage/src/lib.rs\<close> that every
  component of the store shares.
\<close>

datatype SessionStatus = Session_Active | Session_Archived | Session_Deleted

datatype SessionMode = Mode_Chat | Mode_Work

record Session =
  ss_id :: Id
  ss_mode :: SessionMode
  ss_work_reason :: "string option"
  ss_scope :: Scope
  ss_workspace_uri :: string
  ss_title :: string
  ss_model :: string
  ss_status :: SessionStatus
  ss_created_at :: Timestamp
  ss_updated_at :: Timestamp

definition ensure_actor_session_scope :: "Session \<Rightarrow> Scope \<Rightarrow> StorageError + unit" where
  "ensure_actor_session_scope session actual = ensure_actor_scope (ss_scope session) actual"

definition is_terminal :: "TurnStatus \<Rightarrow> bool" where
  "is_terminal status \<longleftrightarrow> status = Completed \<or> status = Failed \<or> status = Cancelled"

end
