(* ===== verification/Tool_Store.thy ===== *)
theory Tool_Store
  imports Interleaving Sql_Rows Media_Cache Session_Rows Policy_Trust
begin

text \<open>
  The tables of \<open>crates/storage/src/lib.rs\<close> and \<open>protection.rs\<close> that decide whether a tool may run:
  sessions and their preferences, turns, tool calls, approvals, the installed team configurations and
  policy exceptions, and the file protections of an account, with their gates.  An operation is a program
  of the shared world; each of its statements is one atomic step, because other handlers of the daemon run
  between any two of them.  A table is the list of its rows.  What a row holds of a sealed column is the
  value that was sealed.

  The input of a step says what the database does with a statement: it succeeds, it fails without an
  effect, or it takes effect although the caller sees an error.  It also carries the clock, the identifier
  that would be generated, and the answers of the parts that are not modelled.
\<close>

section \<open>Data\<close>

datatype PermissionMode = Perm_Manual | Perm_AcceptEdits | Perm_Workspace | Perm_Full | Perm_Plan

record SessionPreferences =
  sp_session_id :: Id
  sp_permission_mode :: PermissionMode
  sp_assistant_alias :: string
  sp_source :: string
  sp_locked_reason :: "string option"
  sp_updated_at :: Timestamp

record UpdateSessionPreferences =
  up_scope :: Scope
  up_permission_mode :: "PermissionMode option"
  up_assistant_alias :: "string option"

text \<open>A row of \<open>session_preferences\<close>.\<close>

record PreferenceRow =
  pf_session_id :: Id
  pf_permission_mode :: string
  pf_assistant_alias :: string
  pf_source :: string
  pf_locked_reason :: "string option"
  pf_updated_at :: Timestamp
  pf_permission_changed_at :: Timestamp

datatype ToolCallStatus =
    Call_Proposed | Call_AwaitingApproval | Call_Running | Call_Completed | Call_Denied | Call_Failed
  | Call_Cancelled

record ToolCall =
  tc_request :: ToolRequest
  tc_policy :: PolicyResult
  tc_simulated_policy :: "PolicyResult option"
  tc_central_policy_applied :: bool
  tc_team_configuration_sequence :: "u64 option"
  tc_status :: ToolCallStatus
  tc_result :: "json option"
  tc_error :: "string option"
  tc_created_at :: Timestamp
  tc_updated_at :: Timestamp

record ToolPolicyMetadata =
  pm_simulated_policy :: "PolicyResult option"
  pm_central_policy_applied :: bool
  pm_team_configuration_sequence :: "u64 option"

definition ToolPolicyMetadata_default :: ToolPolicyMetadata where
  "ToolPolicyMetadata_default =
     \<lparr>pm_simulated_policy = None, pm_central_policy_applied = False, pm_team_configuration_sequence = None\<rparr>"

datatype ApprovalStatus = Approval_Pending | Approval_Approved | Approval_Rejected | Approval_Expired

datatype ApprovalScope = Scope_Once | Scope_Session

record Approval =
  apr_id :: Id
  apr_tool_call_id :: Id
  apr_scope :: Scope
  apr_approval_scope :: ApprovalScope
  apr_status :: ApprovalStatus
  apr_requested_at :: Timestamp
  apr_decided_at :: "Timestamp option"
  apr_decided_by :: "Id option"

record FileProtectionRule =
  fr_id :: Id
  fr_path :: string
  fr_canonical_path :: "string option"
  fr_device :: "u64 option"
  fr_inode :: "u64 option"
  fr_kind :: string
  fr_created_at :: Timestamp

record FileProtectionPolicy =
  fp_revision :: u64
  fp_changed_at :: "Timestamp option"
  fp_rules :: "FileProtectionRule list"

definition FileProtectionPolicy_default :: FileProtectionPolicy where
  "FileProtectionPolicy_default = \<lparr>fp_revision = 0, fp_changed_at = None, fp_rules = []\<rparr>"

type_synonym ProtectionOwner = "Id \<times> Id \<times> Id"

definition scope_owner :: "Scope \<Rightarrow> ProtectionOwner" where
  "scope_owner scope = (sc_organization_id scope, sc_team_id scope, sc_actor_id scope)"

text \<open>A row of \<open>file_protection\<close>; the revision is a signed 64-bit column.\<close>

record ProtectionRow =
  pw_owner :: ProtectionOwner
  pw_revision :: int
  pw_changed_at :: Timestamp
  pw_rules :: "FileProtectionRule list"

text \<open>What has happened so far: the decisions on approvals and the tools that were started.\<close>

datatype ToolEvent =
    Ev_Resolved Id bool Id
  | Ev_Dispatched ToolCall

text \<open>The shared world.  The sources of work of an actor and of a team, with the time of their creation,
  stand for the tables whose latest entry bounds the start of a new file protection.\<close>

record ToolWorld =
  tw_sessions :: "Session list"
  tw_preferences :: "PreferenceRow list"
  tw_turns :: "Turn list"
  tw_calls :: "ToolCall list"
  tw_approvals :: "Approval list"
  tw_configurations :: "Id \<times> Id \<Rightarrow> SignedTeamConfiguration option"
  tw_exceptions :: "SignedPolicyExceptionGrant list"
  tw_protection :: "ProtectionRow list"
  tw_actor_sources :: "(ProtectionOwner \<times> Timestamp) list"
  tw_team_sources :: "((Id \<times> Id) \<times> Timestamp) list"
  tw_readers :: "(ProtectionOwner \<times> nat) list"
  tw_writers :: "(ProtectionOwner \<times> nat) list"
  tw_media :: TransientMediaCache
  tw_history :: "ToolEvent list"

record StepInput =
  si_thread :: nat
  si_db :: DbOutcome
  si_now :: Timestamp
  si_instant :: nat
  si_id :: Id
  si_cancelled :: bool
  si_publish :: "string option"
  si_hook :: "string + json"
  si_result :: "ExecutionError + json \<times> TransientToolMedia option"

type_synonym 'a handler = "(StepInput, ToolWorld, 'a) prog"
type_synonym 'a db = "(StorageError + 'a) handler"

section \<open>Statements\<close>

definition free_step :: "ToolWorld \<Rightarrow> bool" where
  "free_step w = True"

definition db_query :: "(ToolWorld \<Rightarrow> StorageError + 'a) \<Rightarrow> 'a db" where
  "db_query f = Step free_step (\<lambda>i w. w)
     (\<lambda>i w. Ret (case si_db i of DbOk \<Rightarrow> f w | DbRejected e \<Rightarrow> Err e | DbUnconfirmed e \<Rightarrow> Err e))"

definition db_write :: "(StepInput \<Rightarrow> ToolWorld \<Rightarrow> ToolWorld \<times> (StorageError + 'a)) \<Rightarrow> 'a db" where
  "db_write f = Step free_step
     (\<lambda>i w. case si_db i of DbRejected e \<Rightarrow> w | _ \<Rightarrow> fst (f i w))
     (\<lambda>i w. Ret (case si_db i of DbOk \<Rightarrow> snd (f i w) | DbRejected e \<Rightarrow> Err e | DbUnconfirmed e \<Rightarrow> Err e))"

text \<open>A value that the environment provides, such as the clock.\<close>

definition ask_env :: "(StepInput \<Rightarrow> 'a) \<Rightarrow> 'a handler" where
  "ask_env f = Step free_step (\<lambda>i w. w) (\<lambda>i w. Ret (f i))"

definition call_id :: "ToolCall \<Rightarrow> Id" where
  "call_id c = tr_id (tc_request c)"

section \<open>Gates of an account\<close>

definition acquire_read :: "ProtectionOwner \<Rightarrow> unit handler" where
  "acquire_read ow =
     Step (\<lambda>w. ow \<notin> fst ` set (tw_writers w))
       (\<lambda>i w. w\<lparr>tw_readers := (ow, si_thread i) # tw_readers w\<rparr>) (\<lambda>i w. Ret ())"

definition release_read :: "ProtectionOwner \<Rightarrow> unit handler" where
  "release_read ow =
     Step free_step (\<lambda>i w. w\<lparr>tw_readers := removeAll (ow, si_thread i) (tw_readers w)\<rparr>) (\<lambda>i w. Ret ())"

definition acquire_write :: "ProtectionOwner \<Rightarrow> unit handler" where
  "acquire_write ow =
     Step (\<lambda>w. ow \<notin> fst ` set (tw_writers w) \<and> ow \<notin> fst ` set (tw_readers w))
       (\<lambda>i w. w\<lparr>tw_writers := (ow, si_thread i) # tw_writers w\<rparr>) (\<lambda>i w. Ret ())"

definition release_write :: "ProtectionOwner \<Rightarrow> unit handler" where
  "release_write ow =
     Step free_step (\<lambda>i w. w\<lparr>tw_writers := removeAll (ow, si_thread i) (tw_writers w)\<rparr>) (\<lambda>i w. Ret ())"

text \<open>A guard that lives until its function returns.\<close>

definition with_read :: "ProtectionOwner \<Rightarrow> 'a handler \<Rightarrow> 'a handler" where
  "with_read ow p =
     bind_prog (acquire_read ow) (\<lambda>_. bind_prog p (\<lambda>r. bind_prog (release_read ow) (\<lambda>_. Ret r)))"

definition with_write :: "ProtectionOwner \<Rightarrow> 'a handler \<Rightarrow> 'a handler" where
  "with_write ow p =
     bind_prog (acquire_write ow) (\<lambda>_. bind_prog p (\<lambda>r. bind_prog (release_write ow) (\<lambda>_. Ret r)))"

text \<open>Dropping a handler drops its guards.\<close>

definition drop_guards :: "nat \<Rightarrow> ToolWorld \<Rightarrow> ToolWorld" where
  "drop_guards k w =
     w\<lparr>tw_readers := filter (\<lambda>(_, j). j \<noteq> k) (tw_readers w), tw_writers := filter (\<lambda>(_, j). j \<noteq> k) (tw_writers w)\<rparr>"

section \<open>Sessions and turns\<close>

definition get_session :: "Id \<Rightarrow> Session db" where
  "get_session session_id = db_query (\<lambda>w.
     case find_row ss_id session_id (tw_sessions w) of
       None \<Rightarrow> Err SE_NotFound
     | Some session \<Rightarrow> if ss_status session \<noteq> Session_Deleted then Ok session else Err SE_NotFound)"

fun parse_permission_mode :: "string \<Rightarrow> StorageError + PermissionMode" where
  "parse_permission_mode s =
     (if s = ''manual'' then Ok Perm_Manual
      else if s = ''accept_edits'' then Ok Perm_AcceptEdits
      else if s = ''workspace'' then Ok Perm_Workspace
      else if s = ''full'' then Ok Perm_Full
      else if s = ''plan'' then Ok Perm_Plan
      else Err (SE_InvalidData (''invalid permission mode '' @ s)))"

fun permission_mode_str :: "PermissionMode \<Rightarrow> string" where
  "permission_mode_str Perm_Manual = ''manual''"
| "permission_mode_str Perm_AcceptEdits = ''accept_edits''"
| "permission_mode_str Perm_Workspace = ''workspace''"
| "permission_mode_str Perm_Full = ''full''"
| "permission_mode_str Perm_Plan = ''plan''"

definition stored_preferences :: "Session \<Rightarrow> Id \<Rightarrow> PreferenceRow option \<Rightarrow> StorageError + SessionPreferences" where
  "stored_preferences session session_id row =
     (case row of
        None \<Rightarrow>
          Ok \<lparr>sp_session_id = session_id, sp_permission_mode = Perm_Manual, sp_assistant_alias = ''S-Code'',
              sp_source = ''default'', sp_locked_reason = None, sp_updated_at = ss_created_at session\<rparr>
      | Some row \<Rightarrow>
          and_then (parse_permission_mode (pf_permission_mode row)) (\<lambda>mode.
            Ok \<lparr>sp_session_id = session_id, sp_permission_mode = mode,
                sp_assistant_alias = pf_assistant_alias row, sp_source = pf_source row,
                sp_locked_reason = pf_locked_reason row, sp_updated_at = pf_updated_at row\<rparr>))"

definition get_session_preferences :: "Scope \<Rightarrow> Id \<Rightarrow> SessionPreferences db" where
  "get_session_preferences scope session_id =
     try_prog (get_session session_id) (\<lambda>session.
     try_prog (Ret (ensure_actor_session_scope session scope)) (\<lambda>_.
     db_query (\<lambda>w. stored_preferences session session_id (find_row pf_session_id session_id (tw_preferences w)))))"

definition session_permission_changed_at :: "Scope \<Rightarrow> Id \<Rightarrow> Timestamp db" where
  "session_permission_changed_at scope session_id =
     try_prog (get_session session_id) (\<lambda>session.
     try_prog (Ret (ensure_actor_session_scope session scope)) (\<lambda>_.
     db_query (\<lambda>w.
       case find_row pf_session_id session_id (tw_preferences w) of
         None \<Rightarrow> Ok (ss_created_at session)
       | Some row \<Rightarrow> Ok (pf_permission_changed_at row))))"

definition latest_team_configuration :: "Id \<Rightarrow> Id \<Rightarrow> SignedTeamConfiguration option db" where
  "latest_team_configuration organization_id team_id =
     db_query (\<lambda>w. Ok (tw_configurations w (organization_id, team_id)))"

text \<open>The row that \<open>INSERT ... ON CONFLICT DO UPDATE\<close> writes.\<close>

definition upsert_preferences :: "PreferenceRow \<Rightarrow> PreferenceRow list \<Rightarrow> PreferenceRow list" where
  "upsert_preferences row rows =
     (case find_row pf_session_id (pf_session_id row) rows of
        None \<Rightarrow> rows @ [row]
      | Some _ \<Rightarrow>
          update_where (\<lambda>r. pf_session_id r = pf_session_id row)
            (\<lambda>r. row\<lparr>pf_permission_changed_at :=
                (if pf_permission_mode r \<noteq> pf_permission_mode row then pf_permission_changed_at row
                 else pf_permission_changed_at r)\<rparr>) rows)"

definition update_session_preferences :: "Id \<Rightarrow> UpdateSessionPreferences \<Rightarrow> SessionPreferences db" where
  "update_session_preferences session_id input = with_write (scope_owner (up_scope input)) (
     try_prog (get_session session_id) (\<lambda>session.
     try_prog (Ret (ensure_actor_session_scope session (up_scope input))) (\<lambda>_.
     if ss_status session \<noteq> Session_Active then Ret (Err (SE_InvalidState ''session is not active''))
     else if up_permission_mode input = None \<and> up_assistant_alias input = None
     then Ret (Err (SE_InvalidData ''at least one Session preference must be provided''))
     else
     try_prog (get_session_preferences (up_scope input) session_id) (\<lambda>current.
     let changes_full =
           (case up_permission_mode input of
              None \<Rightarrow> False
            | Some mode \<Rightarrow> mode \<noteq> sp_permission_mode current \<and>
                (mode = Perm_Full \<or> sp_permission_mode current = Perm_Full)) in
     try_prog (if changes_full
               then db_query (\<lambda>w. Ok (list_ex (\<lambda>t. tn_session_id t = session_id \<and> \<not> is_terminal (tn_status t)) (tw_turns w)))
               else Ret (Ok False)) (\<lambda>active.
     if active then Ret (Err (SE_InvalidState ''Stop the active turn before changing Full access''))
     else if sp_locked_reason current \<noteq> None \<and> up_permission_mode input \<noteq> None
     then Ret (Err (SE_InvalidState ''permission mode is locked''))
     else if up_permission_mode input = Some Perm_Full \<and> ss_mode session = Mode_Chat
     then Ret (Err (SE_InvalidState ''Chat has no local tool authority''))
     else
     try_prog (if up_permission_mode input = Some Perm_Full
               then latest_team_configuration (sc_organization_id (up_scope input)) (sc_team_id (up_scope input))
               else Ret (Ok None)) (\<lambda>managed.
     if managed \<noteq> None
     then Ret (Err (SE_InvalidState ''Full access is unavailable under managed Team configuration''))
     else
     let mode = (case up_permission_mode input of Some mode \<Rightarrow> mode | None \<Rightarrow> sp_permission_mode current);
         alias = trim (case up_assistant_alias input of Some a \<Rightarrow> a | None \<Rightarrow> sp_assistant_alias current) in
     if alias = [] \<or> chars_count alias > 40 \<or> has_control alias
     then Ret (Err (SE_InvalidData ''assistant alias must contain 1 to 40 visible characters''))
     else
     try_prog (db_write (\<lambda>i w.
       (w\<lparr>tw_preferences := upsert_preferences
            \<lparr>pf_session_id = session_id, pf_permission_mode = permission_mode_str mode,
             pf_assistant_alias = alias,
             pf_source = (if sp_locked_reason current \<noteq> None then sp_source current else ''session''),
             pf_locked_reason = sp_locked_reason current, pf_updated_at = si_now i,
             pf_permission_changed_at = si_now i\<rparr> (tw_preferences w)\<rparr>, Ok ()))) (\<lambda>_.
     get_session_preferences (up_scope input) session_id)))))))"

definition read_turn :: "Scope \<Rightarrow> Id \<Rightarrow> Turn db" where
  "read_turn scope turn_id = db_query (\<lambda>w.
     and_then (ok_or (find_row tn_id turn_id (tw_turns w)) SE_NotFound) (\<lambda>turn.
     and_then (ensure_actor_scope (tn_scope turn) scope) (\<lambda>_. Ok turn)))"

definition create_turn :: "Scope \<Rightarrow> Id \<Rightarrow> Turn db" where
  "create_turn scope session_id =
     try_prog (get_session session_id) (\<lambda>session.
     try_prog (Ret (ensure_actor_session_scope session scope)) (\<lambda>_.
     if ss_status session \<noteq> Session_Active then Ret (Err (SE_InvalidState ''session is not active''))
     else db_write (\<lambda>i w.
       let turn = \<lparr>tn_id = si_id i, tn_session_id = session_id, tn_scope = scope, tn_status = Idle,
                   tn_checkpoint = None, tn_error_code = None, tn_started_at = si_now i,
                   tn_updated_at = si_now i, tn_completed_at = None, tn_tool_profile = None\<rparr> in
       if \<not> list_ex (\<lambda>s. ss_id s = session_id \<and> scope_owner (ss_scope s) = scope_owner scope \<and>
                       ss_status s = Session_Active) (tw_sessions w)
       then (w, Err (SE_InvalidState ''session is not active''))
       else if find_row tn_id (tn_id turn) (tw_turns w) \<noteq> None
       then (w, Err (SE_Database ''UNIQUE constraint failed: turns.id''))
       else (w\<lparr>tw_turns := tw_turns w @ [turn]\<rparr>, Ok turn))))"

definition update_turn :: "Scope \<Rightarrow> Id \<Rightarrow> TurnStatus \<Rightarrow> json option \<Rightarrow> string option \<Rightarrow> Turn db" where
  "update_turn scope turn_id status checkpoint error_code =
     try_prog (read_turn scope turn_id) (\<lambda>current.
     if is_terminal (tn_status current) then Ret (Err (SE_InvalidState ''turn is already terminal''))
     else
     try_prog (db_write (\<lambda>i w.
       (w\<lparr>tw_turns := update_where (\<lambda>t. tn_id t = turn_id)
            (\<lambda>t. t\<lparr>tn_status := status, tn_checkpoint := checkpoint, tn_error_code := error_code,
                  tn_updated_at := si_now i,
                  tn_completed_at := (if is_terminal status then Some (si_now i) else None)\<rparr>) (tw_turns w)\<rparr>,
        Ok ()))) (\<lambda>_.
     read_turn scope turn_id))"

end
