(* ===== verification/Call_Store.thy ===== *)
theory Call_Store
  imports Tool_Store
begin

text \<open>
  The tables of tool calls and approvals, the policy exceptions and the file protections:
  \<open>crates/storage/src/lib.rs\<close> and \<open>protection.rs\<close>.
\<close>

section \<open>Tool calls\<close>

text \<open>What reading a row back gives of the call that was written: the row has one creation time, and
  whether approval is required is derived from the decision.\<close>

definition stored_policy :: "PolicyResult \<Rightarrow> PolicyResult" where
  "stored_policy policy = policy\<lparr>pr_requires_approval := (pr_decision policy = Ask)\<rparr>"

definition stored_call :: "ToolCall \<Rightarrow> ToolCall" where
  "stored_call call =
     call\<lparr>tc_request := (tc_request call)\<lparr>tr_created_at := tc_created_at call\<rparr>,
          tc_policy := stored_policy (tc_policy call)\<rparr>"

definition sequence_too_large :: "u64 option \<Rightarrow> bool" where
  "sequence_too_large seq = (case seq of None \<Rightarrow> False | Some v \<Rightarrow> 2 ^ 63 \<le> unat v)"

definition get_tool_call :: "Id \<Rightarrow> ToolCall db" where
  "get_tool_call tool_call_id = db_query (\<lambda>w. ok_or (find_row call_id tool_call_id (tw_calls w)) SE_NotFound)"

definition running_parent :: "ToolCall list \<Rightarrow> ToolRequest \<Rightarrow> bool" where
  "running_parent calls request =
     (case tr_parent_tool_call_id request of
        None \<Rightarrow> True
      | Some parent \<Rightarrow>
          list_ex (\<lambda>p. call_id p = parent \<and> tr_tool (tc_request p) = ''execute'' \<and> tc_status p = Call_Running \<and>
                       tr_session_id (tc_request p) = tr_session_id request \<and>
                       tr_turn_id (tc_request p) = tr_turn_id request) calls)"

definition create_tool_call :: "ToolRequest \<Rightarrow> PolicyResult \<Rightarrow> ToolPolicyMetadata \<Rightarrow> ToolCallStatus \<Rightarrow> ToolCall db" where
  "create_tool_call request policy metadata status =
     try_prog (get_session (tr_session_id request)) (\<lambda>session.
     try_prog (Ret (ensure_actor_session_scope session (tr_scope request))) (\<lambda>_.
     db_write (\<lambda>i w.
       let call = \<lparr>tc_request = request, tc_policy = policy,
                   tc_simulated_policy = pm_simulated_policy metadata,
                   tc_central_policy_applied = pm_central_policy_applied metadata,
                   tc_team_configuration_sequence = pm_team_configuration_sequence metadata,
                   tc_status = status, tc_result = None, tc_error = None,
                   tc_created_at = si_now i, tc_updated_at = si_now i\<rparr> in
       if sequence_too_large (tc_team_configuration_sequence call)
       then (w, Err (SE_InvalidData ''configuration sequence is too large''))
       else if \<not> running_parent (tw_calls w) request
       then (w, Err (SE_InvalidData ''Code Mode parent is no longer running''))
       else if find_row call_id (tr_id request) (tw_calls w) \<noteq> None
       then (w, Err (SE_Database ''UNIQUE constraint failed: tool_calls.id''))
       else (w\<lparr>tw_calls := tw_calls w @ [stored_call call]\<rparr>, Ok call))))"

definition unfinished_call :: "ToolCall \<Rightarrow> bool" where
  "unfinished_call c \<longleftrightarrow> tc_status c = Call_Running \<or> tc_status c = Call_Proposed"

definition has_running_parent :: "ToolCall list \<Rightarrow> ToolCall \<Rightarrow> bool" where
  "has_running_parent calls c =
     (case tr_parent_tool_call_id (tc_request c) of
        None \<Rightarrow> False
      | Some parent \<Rightarrow> list_ex (\<lambda>p. call_id p = parent \<and> tc_status p = Call_Running) calls)"

definition finish_tool_call :: "Id \<Rightarrow> ToolCallStatus \<Rightarrow> json option \<Rightarrow> string option \<Rightarrow> ToolCall db" where
  "finish_tool_call tool_call_id status result error =
     try_prog (get_tool_call tool_call_id) (\<lambda>current.
     try_prog (db_write (\<lambda>i w.
       (w\<lparr>tw_calls := update_where
            (\<lambda>c. call_id c = tool_call_id \<and>
                 (tr_parent_tool_call_id (tc_request c) = None \<or>
                  unfinished_call c \<and> has_running_parent (tw_calls w) c))
            (\<lambda>c. c\<lparr>tc_status := status, tc_result := result, tc_error := error, tc_updated_at := si_now i\<rparr>)
            (tw_calls w)\<rparr>, Ok ()))) (\<lambda>_.
     get_tool_call tool_call_id))"

fun get_tool_calls :: "Id list \<Rightarrow> ToolCall list db" where
  "get_tool_calls [] = Ret (Ok [])"
| "get_tool_calls (child # ids) =
     try_prog (get_tool_call child) (\<lambda>call. try_prog (get_tool_calls ids) (\<lambda>calls. Ret (Ok (call # calls))))"

definition stopped_child :: "Id \<Rightarrow> ToolCall \<Rightarrow> bool" where
  "stopped_child parent c \<longleftrightarrow> tr_parent_tool_call_id (tc_request c) = Some parent \<and> unfinished_call c"

definition finish_code_mode ::
  "Id \<Rightarrow> ToolCallStatus \<Rightarrow> json option \<Rightarrow> string option \<Rightarrow> (ToolCall \<times> ToolCall list) db" where
  "finish_code_mode tool_call_id status result error =
     try_prog (get_tool_call tool_call_id) (\<lambda>parent.
     if tr_tool (tc_request parent) \<noteq> ''execute'' \<or> tr_parent_tool_call_id (tc_request parent) \<noteq> None
     then Ret (Err (SE_InvalidData ''not a Code Mode parent''))
     else
     try_prog (db_write (\<lambda>i w.
       let calls = update_where (\<lambda>c. call_id c = tool_call_id \<and> tc_status c = Call_Running)
             (\<lambda>c. c\<lparr>tc_status := status, tc_result := result, tc_error := error, tc_updated_at := si_now i\<rparr>)
             (tw_calls w) in
       (w\<lparr>tw_calls := update_where (stopped_child tool_call_id)
            (\<lambda>c. c\<lparr>tc_status := Call_Cancelled, tc_updated_at := si_now i\<rparr>) calls\<rparr>,
        Ok (map call_id (filter (stopped_child tool_call_id) calls))))) (\<lambda>ids.
     try_prog (get_tool_calls ids) (\<lambda>children.
     try_prog (get_tool_call tool_call_id) (\<lambda>parent. Ret (Ok (parent, children))))))"

definition authorize_code_mode_call ::
  "ToolRequest \<Rightarrow> PolicyResult \<Rightarrow> ToolPolicyMetadata \<Rightarrow> ToolCallStatus \<Rightarrow> ToolCall db" where
  "authorize_code_mode_call request policy metadata status =
     try_prog (get_tool_call (tr_id request)) (\<lambda>current.
     try_prog (Ret (ensure_actor_scope (tr_scope (tc_request current)) (tr_scope request))) (\<lambda>_.
     if tc_status current \<noteq> Call_Running \<or>
        pr_policy_id (tc_policy current) \<noteq> ''code-mode-admission'' \<or>
        tr_parent_tool_call_id (tc_request current) = None \<or>
        tr_parent_tool_call_id (tc_request current) \<noteq> tr_parent_tool_call_id request \<or>
        tr_session_id (tc_request current) \<noteq> tr_session_id request \<or>
        tr_turn_id (tc_request current) \<noteq> tr_turn_id request \<or>
        tr_tool (tc_request current) \<noteq> tr_tool request
     then Ret (Err (SE_InvalidData ''invalid Code Mode admission record''))
     else
     try_prog (db_write (\<lambda>i w.
       let admitted = (\<lambda>c. call_id c = tr_id request \<and> tc_status c = Call_Running \<and>
             pr_policy_id (tc_policy c) = ''code-mode-admission'' \<and> has_running_parent (tw_calls w) c) in
       if sequence_too_large (pm_team_configuration_sequence metadata)
       then (w, Err (SE_InvalidData ''configuration sequence too large''))
       else if \<not> list_ex admitted (tw_calls w)
       then (w, Err (SE_InvalidData ''Code Mode admission already resolved''))
       else (w\<lparr>tw_calls := update_where admitted
               (\<lambda>c. c\<lparr>tc_request := (tc_request c)\<lparr>tr_arguments := tr_arguments request\<rparr>,
                     tc_policy := stored_policy policy,
                     tc_simulated_policy := pm_simulated_policy metadata,
                     tc_central_policy_applied := pm_central_policy_applied metadata,
                     tc_team_configuration_sequence := pm_team_configuration_sequence metadata,
                     tc_status := status, tc_updated_at := si_now i\<rparr>) (tw_calls w)\<rparr>, Ok ()))) (\<lambda>_.
     get_tool_call (tr_id request))))"

definition interrupt_code_mode_calls :: "nat db" where
  "interrupt_code_mode_calls = db_write (\<lambda>i w.
     let unfinished_execute = (\<lambda>t c. tr_turn_id (tc_request c) = tn_id t \<and>
           tr_tool (tc_request c) = ''execute'' \<and> unfinished_call c);
         interrupted = (\<lambda>c. unfinished_call c \<and>
           (tr_tool (tc_request c) = ''execute'' \<or> tr_parent_tool_call_id (tc_request c) \<noteq> None)) in
     (w\<lparr>tw_turns := update_where
          (\<lambda>t. \<not> is_terminal (tn_status t) \<and> list_ex (unfinished_execute t) (tw_calls w))
          (\<lambda>t. t\<lparr>tn_status := Cancelled, tn_updated_at := si_now i\<rparr>) (tw_turns w),
        tw_calls := update_where interrupted
          (\<lambda>c. c\<lparr>tc_status := Call_Cancelled, tc_updated_at := si_now i\<rparr>) (tw_calls w)\<rparr>,
      Ok (length (filter interrupted (tw_calls w)))))"

definition code_mode_call_count :: "Scope \<Rightarrow> Id \<Rightarrow> Id \<Rightarrow> nat db" where
  "code_mode_call_count scope session_id turn_id =
     try_prog (get_session session_id) (\<lambda>session.
     try_prog (Ret (ensure_actor_session_scope session scope)) (\<lambda>_.
     db_query (\<lambda>w. Ok (length (filter
       (\<lambda>c. tr_session_id (tc_request c) = session_id \<and> tr_turn_id (tc_request c) = turn_id \<and>
            tr_parent_tool_call_id (tc_request c) \<noteq> None) (tw_calls w))))))"

section \<open>Approvals\<close>

text \<open>An insert into the table of approvals: its identifier and its tool call are unique.\<close>

definition insert_approval :: "Approval \<Rightarrow> ToolWorld \<Rightarrow> ToolWorld \<times> (StorageError + Approval)" where
  "insert_approval approval w =
     (if find_row apr_id (apr_id approval) (tw_approvals w) \<noteq> None
      then (w, Err (SE_Database ''UNIQUE constraint failed: approvals.id''))
      else if find_row apr_tool_call_id (apr_tool_call_id approval) (tw_approvals w) \<noteq> None
      then (w, Err (SE_Database ''UNIQUE constraint failed: approvals.tool_call_id''))
      else (w\<lparr>tw_approvals := tw_approvals w @ [approval]\<rparr>, Ok approval))"

definition create_approval :: "ToolCall \<Rightarrow> Approval db" where
  "create_approval call = db_write (\<lambda>i w. insert_approval
     \<lparr>apr_id = si_id i, apr_tool_call_id = call_id call, apr_scope = tr_scope (tc_request call),
      apr_approval_scope = Scope_Once, apr_status = Approval_Pending, apr_requested_at = si_now i,
      apr_decided_at = None, apr_decided_by = None\<rparr> w)"

definition create_automatic_approval :: "ToolCall \<Rightarrow> Approval db" where
  "create_automatic_approval call = db_write (\<lambda>i w. insert_approval
     \<lparr>apr_id = si_id i, apr_tool_call_id = call_id call, apr_scope = tr_scope (tc_request call),
      apr_approval_scope = Scope_Once, apr_status = Approval_Approved, apr_requested_at = si_now i,
      apr_decided_at = Some (si_now i), apr_decided_by = Some (sc_actor_id (tr_scope (tc_request call)))\<rparr> w)"

definition get_approval :: "Id \<Rightarrow> Approval db" where
  "get_approval approval_id = db_query (\<lambda>w. ok_or (find_row apr_id approval_id (tw_approvals w)) SE_NotFound)"

definition resolve_approval :: "Id \<Rightarrow> Scope \<Rightarrow> bool \<Rightarrow> ApprovalScope \<Rightarrow> Approval db" where
  "resolve_approval approval_id scope approved approval_scope =
     try_prog (get_approval approval_id) (\<lambda>current.
     if sc_organization_id (apr_scope current) \<noteq> sc_organization_id scope \<or>
        sc_team_id (apr_scope current) \<noteq> sc_team_id scope
     then Ret (Err SE_ScopeMismatch)
     else if apr_status current \<noteq> Approval_Pending
     then Ret (Err (SE_InvalidState ''approval is no longer pending''))
     else
     try_prog (db_write (\<lambda>i w.
       let pending = (\<lambda>a. apr_id a = approval_id \<and> apr_status a = Approval_Pending) in
       if \<not> list_ex pending (tw_approvals w)
       then (w, Err (SE_InvalidState ''approval was resolved concurrently''))
       else (w\<lparr>tw_approvals := update_where pending
                 (\<lambda>a. a\<lparr>apr_status := (if approved then Approval_Approved else Approval_Rejected),
                       apr_approval_scope := approval_scope, apr_decided_at := Some (si_now i),
                       apr_decided_by := Some (sc_actor_id scope)\<rparr>) (tw_approvals w),
               tw_history := Ev_Resolved approval_id approved (sc_actor_id scope) # tw_history w\<rparr>, Ok ()))) (\<lambda>_.
     get_approval approval_id))"

section \<open>Policy exceptions\<close>

definition exception_applies :: "Scope \<Rightarrow> string \<Rightarrow> string \<Rightarrow> Timestamp \<Rightarrow> CentralPolicyExceptionPayload \<Rightarrow> bool" where
  "exception_applies scope tool workspace_uri now p \<longleftrightarrow>
     cpe_organization_id p = sc_organization_id scope \<and> cpe_team_id p = sc_team_id scope \<and>
     cpe_tool p = tool \<and> cpe_active p \<and> now < cpe_expires_at p \<and>
     (case cpe_actor_id p of None \<Rightarrow> True | Some a \<Rightarrow> a = sc_actor_id scope) \<and>
     (case cpe_workspace_uri p of None \<Rightarrow> True | Some u \<Rightarrow> u = workspace_uri)"

text \<open>\<open>ORDER BY sequence DESC LIMIT 1\<close>.\<close>

fun highest_sequence :: "CentralPolicyExceptionPayload list \<Rightarrow> CentralPolicyExceptionPayload option" where
  "highest_sequence [] = None"
| "highest_sequence (p # ps) =
     (case highest_sequence ps of
        None \<Rightarrow> Some p
      | Some q \<Rightarrow> if cpe_sequence p < cpe_sequence q then Some q else Some p)"

definition matching_policy_exception ::
  "Scope \<Rightarrow> string \<Rightarrow> string \<Rightarrow> Timestamp \<Rightarrow> CentralPolicyExceptionPayload option db" where
  "matching_policy_exception scope tool workspace_uri now = db_query (\<lambda>w.
     Ok (highest_sequence (filter (exception_applies scope tool workspace_uri now) (map spe_payload (tw_exceptions w)))))"

section \<open>File protection\<close>

definition file_protection :: "Scope \<Rightarrow> FileProtectionPolicy db" where
  "file_protection scope = db_query (\<lambda>w.
     case find_row pw_owner (scope_owner scope) (tw_protection w) of
       None \<Rightarrow> Ok FileProtectionPolicy_default
     | Some row \<Rightarrow>
         if pw_revision row < 0 then Err (SE_InvalidData ''invalid file protection revision'')
         else Ok \<lparr>fp_revision = word_of_int (pw_revision row), fp_changed_at = Some (pw_changed_at row),
                  fp_rules = pw_rules row\<rparr>)"

text \<open>\<open>checked_add_signed\<close> of one nanosecond, below the last time \<open>max_utc\<close> of the clock library.\<close>

definition next_instant :: "Timestamp \<Rightarrow> Timestamp \<Rightarrow> Timestamp option" where
  "next_instant max_utc t = (if t + 1 \<le> max_utc then Some (t + 1) else None)"

definition raise_cutoff :: "Timestamp \<Rightarrow> Timestamp option \<Rightarrow> Timestamp \<Rightarrow> StorageError + Timestamp" where
  "raise_cutoff max_utc previous changed_at =
     (case previous of
        None \<Rightarrow> Ok changed_at
      | Some t \<Rightarrow>
          (case next_instant max_utc t of
             None \<Rightarrow> Err (SE_InvalidState ''file protection cutoff exhausted'')
           | Some t' \<Rightarrow> Ok (max changed_at t')))"

text \<open>The latest source of work: turns and inputs of the actor, goals and tasks of its team.\<close>

definition work_sources :: "ToolWorld \<Rightarrow> ProtectionOwner \<Rightarrow> Timestamp list" where
  "work_sources w ow =
     map tn_started_at (filter (\<lambda>t. scope_owner (tn_scope t) = ow) (tw_turns w)) @
     map snd (filter (\<lambda>(o', _). o' = ow) (tw_actor_sources w)) @
     map snd (filter (\<lambda>(team, _). team = (fst ow, fst (snd ow))) (tw_team_sources w))"

definition latest_source :: "ToolWorld \<Rightarrow> ProtectionOwner \<Rightarrow> Timestamp option" where
  "latest_source w ow = (case work_sources w ow of [] \<Rightarrow> None | t # ts \<Rightarrow> Some (fold max ts t))"

definition protection_update :: "Timestamp \<Rightarrow> ProtectionOwner \<Rightarrow> u64 \<Rightarrow> FileProtectionRule list \<Rightarrow> Timestamp \<Rightarrow>
    ToolWorld \<Rightarrow> StorageError + ProtectionRow" where
  "protection_update max_utc ow expected_revision rules now w =
     (let existing = find_row pw_owner ow (tw_protection w);
          previous_revision = (case existing of Some row \<Rightarrow> pw_revision row | None \<Rightarrow> 0) in
      if \<not> (0 \<le> previous_revision \<and> previous_revision = uint expected_revision)
      then Err (SE_InvalidState ''file protection revision conflict'')
      else if 2 ^ 63 \<le> previous_revision + 1
      then Err (SE_InvalidState ''file protection revision exhausted'')
      else
        and_then (raise_cutoff max_utc (map_option pw_changed_at existing) now) (\<lambda>changed_at.
        and_then (raise_cutoff max_utc (latest_source w ow) changed_at) (\<lambda>changed_at.
        Ok \<lparr>pw_owner = ow, pw_revision = previous_revision + 1, pw_changed_at = changed_at, pw_rules = rules\<rparr>)))"

definition upsert_protection :: "ProtectionRow \<Rightarrow> ProtectionRow list \<Rightarrow> ProtectionRow list" where
  "upsert_protection row rows =
     (if find_row pw_owner (pw_owner row) rows = None then rows @ [row]
      else update_where (\<lambda>r. pw_owner r = pw_owner row) (\<lambda>_. row) rows)"

definition replace_file_protection ::
  "Timestamp \<Rightarrow> Scope \<Rightarrow> u64 \<Rightarrow> FileProtectionRule list \<Rightarrow> FileProtectionPolicy db" where
  "replace_file_protection max_utc scope expected_revision rules =
     (if length rules > 256
      then Ret (Err (SE_InvalidData ''at most 256 file protection rules are allowed''))
      else with_write (scope_owner scope) (db_write (\<lambda>i w.
        case protection_update max_utc (scope_owner scope) expected_revision rules (si_now i) w of
          Inl e \<Rightarrow> (w, Err e)
        | Inr row \<Rightarrow>
            (w\<lparr>tw_protection := upsert_protection row (tw_protection w)\<rparr>,
             Ok \<lparr>fp_revision = word_of_int (pw_revision row), fp_changed_at = Some (pw_changed_at row),
                 fp_rules = rules\<rparr>))))"

end
