(* ===== verification/Tool_Service.thy ===== *)
theory Tool_Service
  imports Call_Store Edit_Service Redaction
begin

text \<open>
  The execution service, \<open>crates/execution/src/lib.rs\<close>: policy evaluation, submission of tool calls,
  approvals and execution, and the programs of the daemon that use it (\<open>crates/daemon/src/lib.rs\<close>,
  \<open>code_mode.rs\<close>).  Every operation is a program of the shared world of \<open>Tool_Store\<close>.

  The validation and normalisation of the arguments of a tool are functions of the service; what the tool
  itself does is the effect \<open>Ev_Dispatched\<close>, with the result that the environment chooses.
\<close>

section \<open>Data\<close>

record ExecutionService =
  ex_policy :: PolicyBundle
  ex_device_id :: Id
  ex_host_execution :: bool
  ex_sha256 :: "string \<Rightarrow> string"
  ex_validate :: "string \<Rightarrow> json \<Rightarrow> ExecutionError + unit"
  ex_normalize :: "string \<Rightarrow> json \<Rightarrow> ExecutionError + json"

record SubmitToolCall =
  sub_scope :: Scope
  sub_tool :: string
  sub_arguments :: json

record ResolveApproval =
  ra_scope :: Scope
  ra_approved :: bool
  ra_approval_scope :: ApprovalScope

record PreparedToolCall =
  pt_request :: ToolRequest
  pt_policy :: PolicyResult
  pt_metadata :: ToolPolicyMetadata

datatype ToolCallOutcome =
    Outcome_AwaitingApproval ToolCall Approval
  | Outcome_Denied ToolCall
  | Outcome_Completed ToolCall
  | Outcome_Failed ToolCall

type_synonym 'a exec = "(ExecutionError + 'a) handler"

definition lift_db :: "'a db \<Rightarrow> 'a exec" where
  "lift_db p = bind_prog p (\<lambda>r. Ret (lift_storage r))"

definition safe_protected_tool :: "string \<Rightarrow> bool" where
  "safe_protected_tool tool \<longleftrightarrow> tool \<in> {''read_file'', ''list_files'', ''search_text'', ''apply_patch''}"

definition requires_exact_public_url_approval :: "string \<Rightarrow> bool" where
  "requires_exact_public_url_approval tool \<longleftrightarrow> tool \<in> {''web_open'', ''pdf_read'', ''pdf_view''}"

definition with_parent :: "PreparedToolCall \<Rightarrow> Id \<Rightarrow> PreparedToolCall" where
  "with_parent prepared parent =
     prepared\<lparr>pt_request := (pt_request prepared)\<lparr>tr_parent_tool_call_id := Some parent\<rparr>\<rparr>"

section \<open>Permissions\<close>

definition full_access_locked_reason :: "ExecutionService \<Rightarrow> Scope \<Rightarrow> string option exec" where
  "full_access_locked_reason svc scope =
     (if \<not> ex_host_execution svc then Ret (Ok (Some ''Full access is unavailable on this runtime''))
      else if ex_policy svc \<noteq> PolicyBundle_default
      then Ret (Ok (Some ''Full access is unavailable under custom local policy''))
      else
      try_prog (lift_db (latest_team_configuration (sc_organization_id scope) (sc_team_id scope))) (\<lambda>config.
      if config \<noteq> None then Ret (Ok (Some ''Full access is unavailable under managed Team configuration''))
      else Ret (Ok None)))"

definition full_access_for_request :: "ExecutionService \<Rightarrow> ToolRequest \<Rightarrow> bool exec" where
  "full_access_for_request svc request =
     try_prog (lift_db (get_session_preferences (tr_scope request) (tr_session_id request))) (\<lambda>preferences.
     if sp_permission_mode preferences \<noteq> Perm_Full then Ret (Ok False)
     else
     try_prog (lift_db (get_session (tr_session_id request))) (\<lambda>session.
     try_prog (lift_db (read_turn (tr_scope request) (tr_turn_id request))) (\<lambda>turn.
     if ss_mode session = Mode_Chat \<or> tn_session_id turn \<noteq> ss_id session \<or> is_terminal (tn_status turn)
     then Ret (Err (EE_Arguments ''Full access requires an owned Work session and turn''))
     else if sp_locked_reason preferences \<noteq> None \<or> sp_source preferences \<noteq> ''session''
     then Ret (Err (EE_Arguments ''Full access requires an unlocked explicit session choice''))
     else
     try_prog (lift_db (session_permission_changed_at (tr_scope request) (tr_session_id request))) (\<lambda>changed_at.
     if changed_at > tn_started_at turn
     then Ret (Err (EE_Arguments ''Permission settings changed; start a new turn before using Full access''))
     else
     try_prog (full_access_locked_reason svc (tr_scope request)) (\<lambda>reason.
     case reason of Some r \<Rightarrow> Ret (Err (EE_Arguments r)) | None \<Rightarrow> Ret (Ok True))))))"

definition check_file_protection :: "ToolRequest \<Rightarrow> FileProtectionPolicy exec" where
  "check_file_protection request =
     try_prog (lift_db (get_session (tr_session_id request))) (\<lambda>session.
     try_prog (lift_db (read_turn (tr_scope request) (tr_turn_id request))) (\<lambda>turn.
     if tn_session_id turn \<noteq> ss_id session \<or>
        scope_owner (ss_scope session) \<noteq> scope_owner (tr_scope request) \<or>
        scope_owner (tn_scope turn) \<noteq> scope_owner (tr_scope request)
     then Ret (Err (EE_Arguments ''tool scope does not own this session and turn''))
     else
     try_prog (lift_db (file_protection (tr_scope request))) (\<lambda>policy.
     if (case fp_changed_at policy of None \<Rightarrow> False | Some changed \<Rightarrow> tn_started_at turn \<le> changed)
     then Ret (Err (EE_Arguments ''file protection changed; start a new turn before using tools''))
     else if fp_rules policy \<noteq> [] \<and> \<not> safe_protected_tool (tr_tool request)
     then Ret (Err (EE_Tool TE_Protected))
     else Ret (Ok policy))))"

section \<open>Policy\<close>

definition outside_validity_result :: PolicyResult where
  "outside_validity_result =
     \<lparr>pr_decision = Deny, pr_policy_id = ''central-team-configuration-validity'',
      pr_policy_version = ''fail-closed'',
      pr_reason = ''central Team configuration is outside its validity window'', pr_requires_approval = False\<rparr>"

text \<open>The decision of the installed team configuration, at a time.\<close>

definition central_policy :: "ExecutionService \<Rightarrow> ToolRequest \<Rightarrow> SignedTeamConfiguration \<Rightarrow> Timestamp \<Rightarrow>
    PolicyResult \<times> ToolPolicyMetadata" where
  "central_policy svc request envelope now =
     (let local_policy = evaluate (ex_policy svc) request;
          payload = stc_payload envelope; config = ctc_configuration payload;
          metadata = ToolPolicyMetadata_default\<lparr>pm_team_configuration_sequence := Some (ctc_sequence payload)\<rparr> in
      if ctc_issued_at payload \<le> now \<and> now < ctc_expires_at payload
      then if applies_to_rollout (ex_sha256 svc) (trc_policy_rollout_percent config) (trc_policy_rollout_seed config)
                (ex_device_id svc)
           then let central = evaluate (trc_policy_bundle config) request in
                if trc_policy_simulate config
                then (local_policy, metadata\<lparr>pm_simulated_policy := Some central\<rparr>)
                else (central, metadata\<lparr>pm_central_policy_applied := True\<rparr>)
           else (local_policy, metadata)
      else (outside_validity_result, ToolPolicyMetadata_default))"

definition exception_result :: "CentralPolicyExceptionPayload \<Rightarrow> PolicyResult" where
  "exception_result e =
     \<lparr>pr_decision = Allow, pr_policy_id = ''exception:'' @ cpe_exception_id e,
      pr_policy_version = decimal (unat (cpe_sequence e)),
      pr_reason = ''time-bounded exception approved by '' @ cpe_approved_by e @ '': '' @ cpe_reason e,
      pr_requires_approval = False\<rparr>"

definition full_access_result :: "PolicyResult \<Rightarrow> PolicyResult" where
  "full_access_result policy =
     policy\<lparr>pr_decision := Allow, pr_requires_approval := False, pr_policy_id := ''session-full-access'',
            pr_reason := ''Explicit session Full access authorizes this local operation''\<rparr>"

definition web_destination_result :: PolicyResult where
  "web_destination_result =
     \<lparr>pr_decision = Ask, pr_policy_id = ''builtin-web-destination-approval'', pr_policy_version = ''1'',
      pr_reason = ''this exact public HTTPS destination requires one-operation approval'',
      pr_requires_approval = True\<rparr>"

text \<open>The grant of the session, and the approval that every public address needs.\<close>

definition final_policy :: "ToolRequest \<Rightarrow> bool \<Rightarrow> PolicyResult \<Rightarrow> PolicyResult" where
  "final_policy request full policy =
     (let policy = (if full \<and> pr_decision policy = Ask \<and> tr_tool request \<in> {''apply_patch'', ''run_command''}
                    then full_access_result policy else policy) in
      if requires_exact_public_url_approval (tr_tool request) \<and> pr_decision policy \<noteq> Deny
      then web_destination_result else policy)"

definition evaluate_policy :: "ExecutionService \<Rightarrow> ToolRequest \<Rightarrow> string \<Rightarrow> (PolicyResult \<times> ToolPolicyMetadata) exec" where
  "evaluate_policy svc request workspace_uri =
     (let local_policy = evaluate (ex_policy svc) request in
      try_prog (if pr_decision local_policy = Deny then Ret (Ok (local_policy, ToolPolicyMetadata_default))
        else try_prog (lift_db (latest_team_configuration (sc_organization_id (tr_scope request)) (sc_team_id (tr_scope request))))
          (\<lambda>config. case config of
             None \<Rightarrow> Ret (Ok (local_policy, ToolPolicyMetadata_default))
           | Some envelope \<Rightarrow> bind_prog (ask_env si_now) (\<lambda>now. Ret (Ok (central_policy svc request envelope now)))))
        (\<lambda>(policy, metadata).
      try_prog (if pr_decision policy = Ask
        then bind_prog (ask_env si_now) (\<lambda>now.
          try_prog (lift_db (matching_policy_exception (tr_scope request) (tr_tool request) workspace_uri now))
            (\<lambda>ex. Ret (Ok (case ex of None \<Rightarrow> policy | Some e \<Rightarrow> exception_result e))))
        else Ret (Ok policy)) (\<lambda>policy.
      try_prog (full_access_for_request svc request) (\<lambda>full.
      Ret (Ok (final_policy request full policy, metadata))))))"

section \<open>Execution\<close>

definition run_tool :: "ToolCall \<Rightarrow> (json \<times> TransientToolMedia option) exec" where
  "run_tool call = Step free_step (\<lambda>i w. w\<lparr>tw_history := Ev_Dispatched call # tw_history w\<rparr>) (\<lambda>i w. Ret (si_result i))"

definition dispatch :: "ExecutionService \<Rightarrow> ToolCall \<Rightarrow> json exec" where
  "dispatch svc call =
     try_prog (lift_db (get_session (tr_session_id (tc_request call)))) (\<lambda>session.
     try_prog (full_access_for_request svc (tc_request call)) (\<lambda>full_access.
     if pr_policy_id (tc_policy call) = ''session-full-access'' \<and> \<not> full_access
     then Ret (Err (EE_Arguments ''Full access was revoked; submit this operation again''))
     else try_prog (run_tool call) (\<lambda>(value, _). Ret (Ok value))))"

definition cache_media_step :: "Id \<Rightarrow> Id \<Rightarrow> TransientToolMedia \<Rightarrow> unit exec" where
  "cache_media_step turn_id tool_call_id media =
     Step free_step
       (\<lambda>i w. w\<lparr>tw_media := fst (cache_transient_tool_media (si_instant i) turn_id tool_call_id media (tw_media w))\<rparr>)
       (\<lambda>i w. Ret (snd (cache_transient_tool_media (si_instant i) turn_id tool_call_id media (tw_media w))))"

definition discard_media_step :: "Id \<Rightarrow> unit handler" where
  "discard_media_step tool_call_id =
     Step free_step (\<lambda>i w. w\<lparr>tw_media := discard_transient_tool_media tool_call_id (tw_media w)\<rparr>) (\<lambda>i w. Ret ())"

definition execute :: "ExecutionService \<Rightarrow> ToolCall \<Rightarrow> ToolCallOutcome exec" where
  "execute svc call =
     (let request = tc_request call in
      with_read (scope_owner (tr_scope request)) (
      bind_prog (try_prog (check_file_protection request) (\<lambda>protection.
        if tr_tool request = ''pdf_view'' then run_tool call
        else try_prog (dispatch svc call) (\<lambda>value. Ret (Ok (value, None))))) (\<lambda>result.
      bind_prog (case result of
          Inl e \<Rightarrow> Ret (Inl e)
        | Inr (value, None) \<Rightarrow> Ret (Ok value)
        | Inr (value, Some media) \<Rightarrow>
            try_prog (cache_media_step (tr_turn_id request) (tr_id request) media) (\<lambda>_. Ret (Ok value))) (\<lambda>result.
      case result of
        Inr value \<Rightarrow>
          bind_prog (finish_tool_call (tr_id request) Call_Completed (Some (redact value)) None) (\<lambda>stored.
          case stored of
            Inl e \<Rightarrow> bind_prog (discard_media_step (tr_id request)) (\<lambda>_. Ret (Err (EE_Storage e)))
          | Inr call \<Rightarrow> Ret (Ok (Outcome_Completed call)))
      | Inl e \<Rightarrow>
          try_prog (lift_db (finish_tool_call (tr_id request) Call_Failed None
              (Some (redact_text (execution_error_text e))))) (\<lambda>call.
          Ret (Ok (Outcome_Failed call)))))))"

section \<open>Submission\<close>

definition preflight_for_turn :: "ExecutionService \<Rightarrow> Id \<Rightarrow> Id \<Rightarrow> SubmitToolCall \<Rightarrow> PreparedToolCall exec" where
  "preflight_for_turn svc session_id turn_id input =
     try_prog (lift_db (get_session session_id)) (\<lambda>session.
     if ss_mode session = Mode_Chat then Ret (Err (EE_Arguments ''Chat has no local tool authority''))
     else
     try_prog (Ret (ex_validate svc (sub_tool input) (sub_arguments input))) (\<lambda>_.
     try_prog (Ret (if requires_exact_public_url_approval (sub_tool input)
                    then ex_normalize svc (sub_tool input) (sub_arguments input) else Ok (sub_arguments input))) (\<lambda>arguments.
     bind_prog (ask_env (\<lambda>i. (si_id i, si_now i))) (\<lambda>(new_id, now).
     let request = \<lparr>tr_parent_tool_call_id = None, tr_id = new_id, tr_scope = sub_scope input,
                    tr_session_id = session_id, tr_turn_id = turn_id, tr_tool = sub_tool input,
                    tr_arguments = arguments, tr_created_at = now\<rparr> in
     with_read (scope_owner (tr_scope request)) (
     try_prog (check_file_protection request) (\<lambda>_.
     try_prog (evaluate_policy svc request (ss_workspace_uri session)) (\<lambda>(policy, metadata).
     Ret (Ok \<lparr>pt_request = request, pt_policy = policy, pt_metadata = metadata\<rparr>))))))))"

definition submit_prepared_without_approval :: "ExecutionService \<Rightarrow> PreparedToolCall \<Rightarrow> Id \<Rightarrow> ToolCallOutcome exec" where
  "submit_prepared_without_approval svc prepared admitted_id =
     (let policy = (if pr_decision (pt_policy prepared) = Ask
            then (pt_policy prepared)\<lparr>pr_decision := Deny, pr_requires_approval := False,
                   pr_reason := ''This tool needs approval; call it directly outside Code Mode''\<rparr>
            else pt_policy prepared);
          request = (pt_request prepared)\<lparr>tr_id := admitted_id\<rparr>;
          allowed = (pr_decision policy = Allow) in
      try_prog (lift_db (authorize_code_mode_call request policy (pt_metadata prepared)
          (if allowed then Call_Running else Call_Denied))) (\<lambda>call.
      if allowed then execute svc call else Ret (Ok (Outcome_Denied call))))"

definition submit_prepared :: "ExecutionService \<Rightarrow> PreparedToolCall \<Rightarrow> ToolCallOutcome exec" where
  "submit_prepared svc prepared =
     (let request = pt_request prepared; policy = pt_policy prepared; metadata = pt_metadata prepared in
      case pr_decision policy of
        Deny \<Rightarrow>
          try_prog (lift_db (create_tool_call request policy metadata Call_Denied)) (\<lambda>call.
          Ret (Ok (Outcome_Denied call)))
      | Ask \<Rightarrow>
          try_prog (lift_db (create_tool_call request policy metadata Call_AwaitingApproval)) (\<lambda>call.
          try_prog (lift_db (create_approval call)) (\<lambda>approval.
          Ret (Ok (Outcome_AwaitingApproval call approval))))
      | Allow \<Rightarrow>
          try_prog (lift_db (create_tool_call request policy metadata Call_Running)) (\<lambda>call.
          execute svc call))"

definition submit_prepared_with_automatic_approval :: "ExecutionService \<Rightarrow> PreparedToolCall \<Rightarrow> ToolCallOutcome exec" where
  "submit_prepared_with_automatic_approval svc prepared =
     (if requires_exact_public_url_approval (tr_tool (pt_request prepared)) then submit_prepared svc prepared
      else if pr_decision (pt_policy prepared) \<noteq> Ask then submit_prepared svc prepared
      else
      try_prog (lift_db (create_tool_call (pt_request prepared) (pt_policy prepared) (pt_metadata prepared) Call_Running)) (\<lambda>call.
      try_prog (lift_db (create_automatic_approval call)) (\<lambda>_.
      execute svc call)))"

definition submit_for_turn :: "ExecutionService \<Rightarrow> Id \<Rightarrow> Id \<Rightarrow> SubmitToolCall \<Rightarrow> ToolCallOutcome exec" where
  "submit_for_turn svc session_id turn_id input =
     try_prog (preflight_for_turn svc session_id turn_id input) (\<lambda>prepared. submit_prepared svc prepared)"

definition manual_marker :: json where
  "manual_marker = jobj [(''execution_mode'', JStr ''manual_tool'')]"

definition finish_manual_turn :: "Scope \<Rightarrow> Id \<Rightarrow> ToolCallOutcome \<Rightarrow> unit exec" where
  "finish_manual_turn scope turn_id outcome =
     (case outcome of
        Outcome_AwaitingApproval _ _ \<Rightarrow>
          try_prog (lift_db (update_turn scope turn_id AwaitingApproval (Some manual_marker) None)) (\<lambda>_. Ret (Ok ()))
      | Outcome_Completed _ \<Rightarrow>
          try_prog (lift_db (update_turn scope turn_id CallingModel None None)) (\<lambda>_.
          try_prog (lift_db (update_turn scope turn_id Completed None None)) (\<lambda>_. Ret (Ok ())))
      | _ \<Rightarrow>
          try_prog (lift_db (update_turn scope turn_id Failed None (Some ''manual tool did not complete''))) (\<lambda>_. Ret (Ok ())))"

definition submit :: "ExecutionService \<Rightarrow> Id \<Rightarrow> SubmitToolCall \<Rightarrow> ToolCallOutcome exec" where
  "submit svc session_id input =
     try_prog (lift_db (get_session session_id)) (\<lambda>session.
     if ss_mode session = Mode_Chat then Ret (Err (EE_Arguments ''Chat has no local tool authority''))
     else
     try_prog (lift_db (create_turn (sub_scope input) session_id)) (\<lambda>turn.
     try_prog (lift_db (update_turn (sub_scope input) (tn_id turn) PreparingContext None None)) (\<lambda>_.
     try_prog (lift_db (update_turn (sub_scope input) (tn_id turn) CallingModel None None)) (\<lambda>_.
     try_prog (lift_db (update_turn (sub_scope input) (tn_id turn) RunningTool (Some manual_marker) None)) (\<lambda>_.
     try_prog (submit_for_turn svc session_id (tn_id turn) input) (\<lambda>outcome.
     try_prog (finish_manual_turn (sub_scope input) (tn_id turn) outcome) (\<lambda>_. Ret (Ok outcome))))))))"

definition is_manual :: "Turn \<Rightarrow> bool" where
  "is_manual turn \<longleftrightarrow>
     Option.bind (Option.bind (tn_checkpoint turn) (\<lambda>v. jget v ''execution_mode'')) as_str = Some ''manual_tool''"

definition resolve :: "ExecutionService \<Rightarrow> Id \<Rightarrow> ResolveApproval \<Rightarrow> ToolCallOutcome exec" where
  "resolve svc approval_id input =
     (if ra_approval_scope input \<noteq> Scope_Once
      then Ret (Err (EE_Approval ''the Community Preview supports one-operation approvals only''))
      else
      try_prog (lift_db (resolve_approval approval_id (ra_scope input) (ra_approved input) (ra_approval_scope input))) (\<lambda>approval.
      try_prog (lift_db (get_tool_call (apr_tool_call_id approval))) (\<lambda>call.
      if tc_status call \<noteq> Call_AwaitingApproval
      then Ret (Err (EE_Approval ''tool call is no longer awaiting approval''))
      else
      try_prog (lift_db (read_turn (tr_scope (tc_request call)) (tr_turn_id (tc_request call)))) (\<lambda>turn.
      let manual = is_manual turn in
      if apr_status approval = Approval_Rejected
      then
        try_prog (lift_db (finish_tool_call (call_id call) Call_Denied None None)) (\<lambda>call.
        try_prog (if manual
                  then try_prog (lift_db (update_turn (tr_scope (tc_request call)) (tr_turn_id (tc_request call)) Failed None
                         (Some ''manual tool rejected''))) (\<lambda>_. Ret (Ok ()))
                  else Ret (Ok ())) (\<lambda>_.
        Ret (Ok (Outcome_Denied call))))
      else
        try_prog (if manual
                  then try_prog (lift_db (update_turn (tr_scope (tc_request call)) (tr_turn_id (tc_request call)) RunningTool
                         (Some manual_marker) None)) (\<lambda>_. Ret (Ok ()))
                  else Ret (Ok ())) (\<lambda>_.
        try_prog (lift_db (finish_tool_call (call_id call) Call_Running None None)) (\<lambda>call.
        try_prog (execute svc call) (\<lambda>outcome.
        if manual
        then try_prog (finish_manual_turn (apr_scope approval) (tn_id turn) outcome) (\<lambda>_.
             case outcome of
               Outcome_Completed c \<Rightarrow> bind_prog (discard_media_step (call_id c)) (\<lambda>_. Ret (Ok outcome))
             | _ \<Rightarrow> Ret (Ok outcome))
        else Ret (Ok outcome))))))))"

section \<open>The daemon's tool executor\<close>

definition permission_mode_automatically_approves :: "SessionPreferences \<Rightarrow> string \<Rightarrow> json \<Rightarrow> bool" where
  "permission_mode_automatically_approves preferences tool arguments =
     (if sp_locked_reason preferences \<noteq> None then False
      else case sp_permission_mode preferences of
        Perm_AcceptEdits \<Rightarrow> tool = ''apply_patch''
      | Perm_Workspace \<Rightarrow>
          let network_requested = (jget arguments ''network_enabled'' = Some (JBool True)) in
          tool = ''apply_patch'' \<or> tool = ''run_command'' \<and> \<not> network_requested
      | _ \<Rightarrow> False)"

definition execute_service_tool :: "ExecutionService \<Rightarrow> Id \<Rightarrow> Id \<Rightarrow> SubmitToolCall \<Rightarrow> ToolCallOutcome exec" where
  "execute_service_tool svc session_id turn_id input =
     try_prog (preflight_for_turn svc session_id turn_id input) (\<lambda>prepared.
     bind_prog (get_session_preferences (sub_scope input) session_id) (\<lambda>preferences.
     let automatically_approve =
           (case preferences of
              Inr p \<Rightarrow> permission_mode_automatically_approves p (sub_tool input) (sub_arguments input)
            | Inl _ \<Rightarrow> False) in
     if automatically_approve then submit_prepared_with_automatic_approval svc prepared
     else submit_prepared svc prepared))"

section \<open>Code Mode\<close>

record CodeMode =
  cx_scope :: Scope
  cx_session_id :: Id
  cx_turn_id :: Id
  cx_profile :: string
  cx_profile_allows :: "string \<Rightarrow> bool"
  cx_tool_enabled :: "string \<Rightarrow> bool"

text \<open>Errors of the daemon are texts; a published event that is not stored is one of them.\<close>

definition lift_text :: "('e \<Rightarrow> string) \<Rightarrow> ('e + 'a) handler \<Rightarrow> (string + 'a) handler" where
  "lift_text f p = bind_prog p (\<lambda>r. Ret (case r of Inl e \<Rightarrow> Err (f e) | Inr x \<Rightarrow> Ok x))"

definition publish_event :: "(string + unit) handler" where
  "publish_event = ask_env (\<lambda>i. case si_publish i of Some e \<Rightarrow> Err e | None \<Rightarrow> Ok ())"

definition ensure_not_cancelled :: "(string + unit) handler" where
  "ensure_not_cancelled = ask_env (\<lambda>i. if si_cancelled i then Err ''Code Mode cancelled'' else Ok ())"

definition code_mode_admission_policy :: PolicyResult where
  "code_mode_admission_policy =
     \<lparr>pr_decision = Deny, pr_policy_id = ''code-mode-admission'', pr_policy_version = ''1'',
      pr_reason = ''Awaiting tool validation and policy evaluation'', pr_requires_approval = False\<rparr>"

definition code_mode_parent_policy :: PolicyResult where
  "code_mode_parent_policy =
     \<lparr>pr_decision = Allow, pr_policy_id = ''code-mode-read-only'', pr_policy_version = ''1'',
      pr_reason = ''JavaScript orchestration only; every child tool is authorized separately'',
      pr_requires_approval = False\<rparr>"

definition code_mode_child_admitted ::
  "ExecutionService \<Rightarrow> CodeMode \<Rightarrow> Id \<Rightarrow> string \<Rightarrow> json \<Rightarrow> Id \<Rightarrow> (string + json) handler" where
  "code_mode_child_admitted svc cx parent tool arguments admitted_id =
     try_prog ensure_not_cancelled (\<lambda>_.
     try_prog (lift_text execution_error_text (preflight_for_turn svc (cx_session_id cx) (cx_turn_id cx)
         \<lparr>sub_scope = cx_scope cx, sub_tool = tool, sub_arguments = arguments\<rparr>)) (\<lambda>initial.
     try_prog (if pr_decision (pt_policy initial) = Allow
       then try_prog (ask_env si_hook) (\<lambda>arguments.
         lift_text execution_error_text (preflight_for_turn svc (cx_session_id cx) (cx_turn_id cx)
           \<lparr>sub_scope = cx_scope cx, sub_tool = tool, sub_arguments = arguments\<rparr>))
       else Ret (Ok initial)) (\<lambda>prepared.
     try_prog ensure_not_cancelled (\<lambda>_.
     try_prog (lift_text execution_error_text (submit_prepared_without_approval svc (with_parent prepared parent) admitted_id)) (\<lambda>outcome.
     try_prog publish_event (\<lambda>_.
     case outcome of
       Outcome_AwaitingApproval _ _ \<Rightarrow> Ret (Err ''Unexpected approval in Code Mode'')
     | Outcome_Completed call \<Rightarrow>
         bind_prog (ask_env si_hook) (\<lambda>_. Ret (Ok (case tc_result call of Some v \<Rightarrow> v | None \<Rightarrow> JNull)))
     | Outcome_Denied call \<Rightarrow> bind_prog (ask_env si_hook) (\<lambda>_. Ret (Err (pr_reason (tc_policy call))))
     | Outcome_Failed call \<Rightarrow>
         bind_prog (ask_env si_hook) (\<lambda>_. Ret (Err (case tc_error call of Some e \<Rightarrow> e | None \<Rightarrow> ''Tool failed'')))))))))"

definition code_mode_child :: "ExecutionService \<Rightarrow> CodeMode \<Rightarrow> Id \<Rightarrow> string \<Rightarrow> json \<Rightarrow> (string + json) handler" where
  "code_mode_child svc cx parent tool arguments =
     try_prog ensure_not_cancelled (\<lambda>_.
     if \<not> cx_profile_allows cx tool then Ret (Err (tool @ '' is not available in the '' @ cx_profile cx @ '' tool profile''))
     else if \<not> cx_tool_enabled cx tool then Ret (Err (tool @ '' is disabled by daemon configuration''))
     else
     bind_prog (ask_env (\<lambda>i. (si_id i, si_now i))) (\<lambda>(new_id, now).
     try_prog (lift_text storage_error_text (create_tool_call
         \<lparr>tr_parent_tool_call_id = Some parent, tr_id = new_id, tr_scope = cx_scope cx,
          tr_session_id = cx_session_id cx, tr_turn_id = cx_turn_id cx, tr_tool = tool,
          tr_arguments = arguments, tr_created_at = now\<rparr>
         code_mode_admission_policy ToolPolicyMetadata_default Call_Running)) (\<lambda>admitted.
     try_prog publish_event (\<lambda>_.
     bind_prog (code_mode_child_admitted svc cx parent tool arguments (call_id admitted)) (\<lambda>result.
     case result of
       Inr v \<Rightarrow> Ret (Ok v)
     | Inl error \<Rightarrow>
         try_prog (lift_text storage_error_text (get_tool_call (call_id admitted))) (\<lambda>current.
         if unfinished_call current
         then try_prog (lift_text storage_error_text (finish_tool_call (call_id admitted) Call_Failed None (Some error))) (\<lambda>_.
              try_prog publish_event (\<lambda>_. Ret (Err error)))
         else Ret (Err error)))))))"

fun publish_events :: "'b list \<Rightarrow> (string + unit) handler" where
  "publish_events [] = Ret (Ok ())"
| "publish_events (_ # calls) = try_prog publish_event (\<lambda>_. publish_events calls)"

text \<open>The parent call around the JavaScript process.  The handler waits for a slot, which is a delay, unless
  it is cancelled; the process is an answer of the environment, and its children are handlers of their own.\<close>

definition code_mode_supervise :: "CodeMode \<Rightarrow> string \<Rightarrow> (string + json) handler" where
  "code_mode_supervise cx code =
     try_prog ensure_not_cancelled (\<lambda>_.
     bind_prog (ask_env (\<lambda>i. (si_id i, si_now i))) (\<lambda>(new_id, now).
     try_prog (lift_text storage_error_text (create_tool_call
         \<lparr>tr_parent_tool_call_id = None, tr_id = new_id, tr_scope = cx_scope cx,
          tr_session_id = cx_session_id cx, tr_turn_id = cx_turn_id cx, tr_tool = ''execute'',
          tr_arguments = jobj [(''code'', JStr code)], tr_created_at = now\<rparr>
         code_mode_parent_policy ToolPolicyMetadata_default Call_Running)) (\<lambda>parent.
     bind_prog (try_prog publish_event (\<lambda>_. ask_env si_hook)) (\<lambda>result.
     bind_prog (ask_env si_cancelled) (\<lambda>cancelled.
     let status = (if cancelled then Call_Cancelled else if is_ok result then Call_Completed else Call_Failed) in
     try_prog (lift_text storage_error_text (finish_code_mode (call_id parent) status
         (case result of Inr v \<Rightarrow> Some v | Inl _ \<Rightarrow> None) (case result of Inl e \<Rightarrow> Some e | Inr _ \<Rightarrow> None))) (\<lambda>(_, cancelled_children).
     try_prog (publish_events cancelled_children) (\<lambda>_.
     try_prog publish_event (\<lambda>_.
     Ret result))))))))"

end
