(* ===== verification/Tool_Guard.thy ===== *)
theory Tool_Guard
  imports Tool_Service
begin

text \<open>
  What keeps the tool calls of concurrent handlers apart.  The invariant of the shared world relates the
  calls, the approvals and the history; what a handler owns is its claim on a call (it has just created the
  call, or it may start it), its guards, and what it has checked while it held a guard.  The world with
  these claims interprets the interface of \<open>Interleaving\<close>.
\<close>

named_theorems quiet "steps that leave calls, approvals, history and guards alone"

section \<open>The invariant of the world\<close>

definition call_facts :: "ToolWorld \<Rightarrow> (ToolRequest \<times> PolicyResult) list" where
  "call_facts w = map (\<lambda>c. (tc_request c, tc_policy c)) (tw_calls w)"

text \<open>Two requests for the same work; only the time of creation may differ.\<close>

definition same_work :: "ToolRequest \<Rightarrow> ToolRequest \<Rightarrow> bool" where
  "same_work r r' \<longleftrightarrow> r\<lparr>tr_created_at := 0\<rparr> = r'\<lparr>tr_created_at := 0\<rparr>"

definition approved_call :: "Approval list \<Rightarrow> Id \<Rightarrow> bool" where
  "approved_call approvals c \<longleftrightarrow> (\<exists>a \<in> set approvals. apr_tool_call_id a = c \<and> apr_status a = Approval_Approved)"

text \<open>A request may run: the policy allows the recorded call, or it asks and the call was approved.\<close>

definition justified :: "ToolWorld \<Rightarrow> ToolRequest \<Rightarrow> bool" where
  "justified w r \<longleftrightarrow>
     (\<exists>(r', p) \<in> set (call_facts w). same_work r r' \<and>
        (pr_decision p = Allow \<or> pr_decision p = Ask \<and> approved_call (tw_approvals w) (tr_id r)))"

fun dispatched :: "ToolEvent list \<Rightarrow> ToolCall list" where
  "dispatched [] = []"
| "dispatched (Ev_Dispatched c # h) = c # dispatched h"
| "dispatched (Ev_Resolved _ _ _ # h) = dispatched h"

fun resolved :: "ToolEvent list \<Rightarrow> Id list" where
  "resolved [] = []"
| "resolved (Ev_Resolved a _ _ # h) = a # resolved h"
| "resolved (Ev_Dispatched _ # h) = resolved h"

definition decided_as :: "Approval list \<Rightarrow> Id \<Rightarrow> bool \<Rightarrow> Id \<Rightarrow> bool" where
  "decided_as approvals a b d \<longleftrightarrow>
     (\<exists>x \<in> set approvals. apr_id x = a \<and> apr_decided_by x = Some d \<and>
        apr_status x = (if b then Approval_Approved else Approval_Rejected))"

definition rows_ok :: "ToolWorld \<Rightarrow> bool" where
  "rows_ok w \<longleftrightarrow>
     distinct (map (tr_id \<circ> fst) (call_facts w)) \<and>
     distinct (map apr_id (tw_approvals w)) \<and> distinct (map apr_tool_call_id (tw_approvals w)) \<and>
     (\<forall>a \<in> set (tw_approvals w). \<exists>(r, p) \<in> set (call_facts w).
        tr_id r = apr_tool_call_id a \<and> tr_scope r = apr_scope a \<and> pr_decision p = Ask)"

definition web_ok :: "ToolWorld \<Rightarrow> bool" where
  "web_ok w \<longleftrightarrow>
     (\<forall>(r, p) \<in> set (call_facts w). requires_exact_public_url_approval (tr_tool r) \<longrightarrow>
        pr_decision p \<noteq> Allow \<and>
        (\<forall>a \<in> set (tw_approvals w). apr_tool_call_id a = tr_id r \<and> apr_status a = Approval_Approved \<longrightarrow>
           (\<exists>d. Ev_Resolved (apr_id a) True d \<in> set (tw_history w))))"

definition history_ok :: "ToolWorld \<Rightarrow> bool" where
  "history_ok w \<longleftrightarrow>
     distinct (map call_id (dispatched (tw_history w))) \<and>
     (\<forall>c \<in> set (dispatched (tw_history w)). justified w (tc_request c)) \<and>
     distinct (resolved (tw_history w)) \<and>
     (\<forall>a b d. Ev_Resolved a b d \<in> set (tw_history w) \<longrightarrow> decided_as (tw_approvals w) a b d)"

definition gates_ok :: "ToolWorld \<Rightarrow> bool" where
  "gates_ok w \<longleftrightarrow>
     (\<forall>ow k k'. (ow, k) \<in> set (tw_writers w) \<longrightarrow> (ow, k') \<notin> set (tw_readers w)) \<and>
     (\<forall>ow k k'. (ow, k) \<in> set (tw_writers w) \<longrightarrow> (ow, k') \<in> set (tw_writers w) \<longrightarrow> k' = k)"

definition tool_inv :: "ToolWorld \<Rightarrow> bool" where
  "tool_inv w \<longleftrightarrow> rows_ok w \<and> web_ok w \<and> history_ok w \<and> gates_ok w"

section \<open>What a handler owns\<close>

datatype Claim =
    No_Claim
  | Fresh ToolRequest PolicyDecision
  | Run_Call ToolRequest
  | Granted Id ToolRequest
  | Turned_Down Id

record Ghost =
  g_thread :: nat
  g_claim :: Claim
  g_read :: "ProtectionOwner option"
  g_write :: "ProtectionOwner option"
  g_session :: "(Id \<times> ProtectionOwner) option"
  g_turn :: "(Id \<times> Timestamp) option"
  g_checked :: "ToolRequest option"
  g_full :: "Id option"

definition idle_ghost :: "nat \<Rightarrow> Ghost" where
  "idle_ghost k = \<lparr>g_thread = k, g_claim = No_Claim, g_read = None, g_write = None, g_session = None,
     g_turn = None, g_checked = None, g_full = None\<rparr>"

fun claim_calls :: "Claim \<Rightarrow> Id set" where
  "claim_calls (Fresh r _) = {tr_id r}"
| "claim_calls (Run_Call r) = {tr_id r}"
| "claim_calls (Granted _ r) = {tr_id r}"
| "claim_calls _ = {}"

definition not_started :: "ToolWorld \<Rightarrow> Id \<Rightarrow> bool" where
  "not_started w c \<longleftrightarrow> c \<notin> call_id ` set (dispatched (tw_history w))"

fun claim_ok :: "Claim \<Rightarrow> ToolWorld \<Rightarrow> bool" where
  "claim_ok No_Claim w = True"
| "claim_ok (Fresh r d) w =
     ((\<exists>(r', p) \<in> set (call_facts w). same_work r r' \<and> pr_decision p = d) \<and> not_started w (tr_id r) \<and>
      tr_id r \<notin> apr_tool_call_id ` set (tw_approvals w) \<and> d \<noteq> Allow)"
| "claim_ok (Run_Call r) w = (justified w r \<and> not_started w (tr_id r))"
| "claim_ok (Granted a r) w =
     (justified w r \<and> not_started w (tr_id r) \<and>
      (\<exists>x \<in> set (tw_approvals w). apr_id x = a \<and> apr_tool_call_id x = tr_id r \<and> apr_status x = Approval_Approved))"
| "claim_ok (Turned_Down a) w = (\<exists>x \<in> set (tw_approvals w). apr_id x = a \<and> apr_status x = Approval_Rejected)"

definition session_owner :: "ToolWorld \<Rightarrow> Id \<Rightarrow> ProtectionOwner \<Rightarrow> bool" where
  "session_owner w sid ow \<longleftrightarrow> (\<exists>s. find_row ss_id sid (tw_sessions w) = Some s \<and> scope_owner (ss_scope s) = ow)"

definition turn_started :: "ToolWorld \<Rightarrow> Id \<Rightarrow> Timestamp \<Rightarrow> bool" where
  "turn_started w tid at \<longleftrightarrow> (\<exists>t. find_row tn_id tid (tw_turns w) = Some t \<and> tn_started_at t = at)"

text \<open>The file protection of the account lets the request run: its turn started after the last change,
  and while rules are active the tool is one that enforces them.\<close>

definition protection_allows :: "ToolWorld \<Rightarrow> ToolRequest \<Rightarrow> bool" where
  "protection_allows w r \<longleftrightarrow>
     (\<exists>turn. find_row tn_id (tr_turn_id r) (tw_turns w) = Some turn \<and>
        (\<forall>p. find_row pw_owner (scope_owner (tr_scope r)) (tw_protection w) = Some p \<longrightarrow>
           pw_changed_at p < tn_started_at turn \<and> (pw_rules p \<noteq> [] \<longrightarrow> safe_protected_tool (tr_tool r))))"

definition full_choice :: "ToolWorld \<Rightarrow> Id \<Rightarrow> bool" where
  "full_choice w sid \<longleftrightarrow>
     (\<exists>row. find_row pf_session_id sid (tw_preferences w) = Some row \<and> pf_permission_mode row = ''full'' \<and>
        pf_locked_reason row = None \<and> pf_source row = ''session'')"

definition tool_own :: "Ghost \<Rightarrow> ToolWorld \<Rightarrow> bool" where
  "tool_own g w \<longleftrightarrow>
     claim_ok (g_claim g) w \<and>
     (\<forall>ow. (ow, g_thread g) \<in> set (tw_readers w) \<longleftrightarrow> g_read g = Some ow) \<and>
     (\<forall>ow. (ow, g_thread g) \<in> set (tw_writers w) \<longleftrightarrow> g_write g = Some ow) \<and>
     (\<forall>sid ow. g_session g = Some (sid, ow) \<longrightarrow> session_owner w sid ow) \<and>
     (\<forall>tid at. g_turn g = Some (tid, at) \<longrightarrow> turn_started w tid at) \<and>
     (\<forall>r. g_checked g = Some r \<longrightarrow> g_read g = Some (scope_owner (tr_scope r)) \<and> protection_allows w r) \<and>
     (\<forall>sid. g_full g = Some sid \<longrightarrow> (\<exists>ow. g_read g = Some ow \<and> session_owner w sid ow) \<and> full_choice w sid)"

definition tool_compat :: "Ghost \<Rightarrow> Ghost \<Rightarrow> bool" where
  "tool_compat g h \<longleftrightarrow> claim_calls (g_claim g) \<inter> claim_calls (g_claim h) = {}"

definition guard_holder :: "ToolWorld \<Rightarrow> nat \<Rightarrow> bool" where
  "guard_holder w k \<longleftrightarrow> (\<exists>ow. (ow, k) \<in> set (tw_readers w) \<or> (ow, k) \<in> set (tw_writers w))"

section \<open>What only grows\<close>

definition rows_kept :: "ToolWorld \<Rightarrow> ToolWorld \<Rightarrow> bool" where
  "rows_kept w w' \<longleftrightarrow>
     (\<forall>k t. find_row tn_id k (tw_turns w) = Some t \<longrightarrow>
        (\<exists>t'. find_row tn_id k (tw_turns w') = Some t' \<and> tn_started_at t' = tn_started_at t)) \<and>
     (\<forall>k s. find_row ss_id k (tw_sessions w) = Some s \<longrightarrow>
        (\<exists>s'. find_row ss_id k (tw_sessions w') = Some s' \<and> scope_owner (ss_scope s') = scope_owner (ss_scope s)))"

definition tool_later :: "ToolWorld \<Rightarrow> ToolWorld \<Rightarrow> bool" where
  "tool_later w w' \<longleftrightarrow>
     rows_kept w w' \<and>
     (\<forall>k p. find_row pw_owner k (tw_protection w) = Some p \<longrightarrow>
        (\<exists>p'. find_row pw_owner k (tw_protection w') = Some p' \<and> pw_changed_at p \<le> pw_changed_at p')) \<and>
     (\<forall>a \<in> set (tw_approvals w). apr_status a \<noteq> Approval_Pending \<longrightarrow> a \<in> set (tw_approvals w')) \<and>
     (\<exists>new. tw_history w' = new @ tw_history w)"

section \<open>The rest of the program\<close>

text \<open>Other parts of the daemon do not write the tables of calls, approvals, preferences and protections
  and do not touch the gates; they keep the owner of a session and the start of a turn.\<close>

definition core :: "ToolWorld \<Rightarrow> _" where
  "core w = (call_facts w, tw_approvals w, tw_history w, tw_protection w, tw_preferences w, tw_readers w, tw_writers w)"

definition tool_env :: "ToolWorld \<Rightarrow> ToolWorld \<Rightarrow> bool" where
  "tool_env w w' \<longleftrightarrow> core w' = core w \<and> rows_kept w w'"

section \<open>Moves\<close>

text \<open>What a step that starts a call has to know.\<close>

definition start_ok :: "ToolWorld \<Rightarrow> ToolCall \<Rightarrow> bool" where
  "start_ok w call \<longleftrightarrow>
     justified w (tc_request call) \<and> not_started w (call_id call) \<and> protection_allows w (tc_request call) \<and>
     (pr_policy_id (tc_policy call) = ''session-full-access'' \<and> tr_tool (tc_request call) \<noteq> ''pdf_view'' \<longrightarrow>
        full_choice w (tr_session_id (tc_request call)))"

definition tool_move :: "Ghost \<Rightarrow> ToolWorld \<Rightarrow> Ghost \<Rightarrow> ToolWorld \<Rightarrow> bool" where
  "tool_move g w g' w' \<longleftrightarrow>
     g_thread g' = g_thread g \<and>
     (tool_inv w \<longrightarrow> tool_own g w \<longrightarrow>
        tool_inv w' \<and> tool_own g' w' \<and> tool_later w w' \<and>
        (\<forall>h. tool_own h w \<longrightarrow> tool_compat g h \<longrightarrow> g_thread g \<noteq> g_thread h \<longrightarrow> tool_own h w' \<and> tool_compat g' h) \<and>
        (\<forall>k. guard_holder w' k \<longrightarrow> k \<noteq> g_thread g \<longrightarrow> guard_holder w k) \<and>
        (\<forall>call. tw_history w' = Ev_Dispatched call # tw_history w \<longrightarrow> start_ok w call))"

section \<open>Lemmas on rows and requests\<close>

lemma same_work_refl [simp]: "same_work r r"
  by (simp add: same_work_def)

lemma same_work_sym: "same_work r r' \<Longrightarrow> same_work r' r"
  by (simp add: same_work_def)

lemma same_work_trans: "same_work r r' \<Longrightarrow> same_work r' r'' \<Longrightarrow> same_work r r''"
  by (simp add: same_work_def)

lemma same_work_fields:
  assumes "same_work r r'"
  shows "tr_id r' = tr_id r" "tr_scope r' = tr_scope r" "tr_session_id r' = tr_session_id r"
    "tr_turn_id r' = tr_turn_id r" "tr_tool r' = tr_tool r" "tr_arguments r' = tr_arguments r"
    "tr_parent_tool_call_id r' = tr_parent_tool_call_id r"
  using assms unfolding same_work_def by (metis ToolRequest.select_convs ToolRequest.surjective ToolRequest.update_convs(8))+

lemma same_work_created [simp]: "same_work r (r\<lparr>tr_created_at := t\<rparr>)"
  by (simp add: same_work_def)

lemma rows_kept_refl [simp]: "rows_kept w w"
  by (simp add: rows_kept_def)

lemma rows_kept_trans: "rows_kept w w' \<Longrightarrow> rows_kept w' w'' \<Longrightarrow> rows_kept w w''"
  unfolding rows_kept_def by (metis (no_types, lifting))

lemma tool_later_refl [simp]: "tool_later w w"
  by (simp add: tool_later_def)

lemma tool_later_trans: "tool_later w w' \<Longrightarrow> tool_later w' w'' \<Longrightarrow> tool_later w w''"
  unfolding tool_later_def
proof (elim conjE exE, intro conjI)
  fix new new'
  assume "tw_history w' = new @ tw_history w" and "tw_history w'' = new' @ tw_history w'"
  then show "\<exists>new. tw_history w'' = new @ tw_history w" by simp
next
  assume *: "\<forall>k p. find_row pw_owner k (tw_protection w) = Some p \<longrightarrow>
        (\<exists>p'. find_row pw_owner k (tw_protection w') = Some p' \<and> pw_changed_at p \<le> pw_changed_at p')"
    "\<forall>k p. find_row pw_owner k (tw_protection w') = Some p \<longrightarrow>
        (\<exists>p'. find_row pw_owner k (tw_protection w'') = Some p' \<and> pw_changed_at p \<le> pw_changed_at p')"
  show "\<forall>k p. find_row pw_owner k (tw_protection w) = Some p \<longrightarrow>
        (\<exists>p'. find_row pw_owner k (tw_protection w'') = Some p' \<and> pw_changed_at p \<le> pw_changed_at p')"
  proof (intro allI impI)
    fix k p assume "find_row pw_owner k (tw_protection w) = Some p"
    then obtain p' where p': "find_row pw_owner k (tw_protection w') = Some p'" "pw_changed_at p \<le> pw_changed_at p'"
      using *(1) by blast
    obtain p'' where "find_row pw_owner k (tw_protection w'') = Some p''" "pw_changed_at p' \<le> pw_changed_at p''"
      using *(2) p'(1) by blast
    with p'(2) show "\<exists>p'. find_row pw_owner k (tw_protection w'') = Some p' \<and> pw_changed_at p \<le> pw_changed_at p'"
      by force
  qed
qed (use rows_kept_trans in blast)+

section \<open>Changes that others do not see\<close>

lemma core_fields:
  assumes "core w' = core w"
  shows "call_facts w' = call_facts w" "tw_approvals w' = tw_approvals w" "tw_history w' = tw_history w"
    "tw_protection w' = tw_protection w" "tw_preferences w' = tw_preferences w"
    "tw_readers w' = tw_readers w" "tw_writers w' = tw_writers w"
  using assms by (simp_all add: core_def)

lemma tool_inv_core:
  assumes "core w' = core w"
  shows "tool_inv w' \<longleftrightarrow> tool_inv w"
  by (simp add: tool_inv_def rows_ok_def web_ok_def history_ok_def gates_ok_def justified_def core_fields [OF assms])

lemma claim_ok_core:
  assumes "core w' = core w"
  shows "claim_ok c w' \<longleftrightarrow> claim_ok c w"
  by (cases c) (simp_all add: not_started_def justified_def core_fields [OF assms])

lemma session_owner_kept: "rows_kept w w' \<Longrightarrow> session_owner w sid ow \<Longrightarrow> session_owner w' sid ow"
  unfolding rows_kept_def session_owner_def by metis

lemma turn_started_kept: "rows_kept w w' \<Longrightarrow> turn_started w tid at \<Longrightarrow> turn_started w' tid at"
  unfolding rows_kept_def turn_started_def by metis

lemma protection_allows_kept:
  assumes "rows_kept w w'"
    and "find_row pw_owner (scope_owner (tr_scope r)) (tw_protection w') =
         find_row pw_owner (scope_owner (tr_scope r)) (tw_protection w)"
    and "protection_allows w r"
  shows "protection_allows w' r"
  using assms unfolding protection_allows_def rows_kept_def by (metis (no_types, lifting))

lemma tool_own_env:
  assumes "core w' = core w" and "rows_kept w w'" and "tool_own g w"
  shows "tool_own g w'"
  using assms session_owner_kept [OF assms(2)] turn_started_kept [OF assms(2)] protection_allows_kept [OF assms(2)] claim_ok_core [OF assms(1)]
  unfolding tool_own_def full_choice_def by (auto simp: core_fields [OF assms(1)])

lemma tool_later_env:
  assumes "core w' = core w" and "rows_kept w w'"
  shows "tool_later w w'"
  using assms by (auto simp: tool_later_def core_fields [OF assms(1)])

lemma guard_holder_core:
  assumes "core w' = core w"
  shows "guard_holder w' k \<longleftrightarrow> guard_holder w k"
  by (simp add: guard_holder_def core_fields [OF assms])

lemma move_quiet:
  assumes "core w' = core w" and "rows_kept w w'"
  shows "tool_move g w g w'"
proof -
  have "\<And>call. tw_history w' \<noteq> Ev_Dispatched call # tw_history w" using core_fields(3) [OF assms(1)] by simp
  then show ?thesis
    using tool_inv_core [OF assms(1)] tool_own_env [OF assms] tool_later_env [OF assms] guard_holder_core [OF assms(1)]
    unfolding tool_move_def by simp
qed

lemma move_stay: "tool_move g w g w"
  by (rule move_quiet) simp_all

section \<open>Interpretation\<close>

lemma release_tool_move:
  assumes "tool_inv w" and "tool_own g w"
  shows "tool_move g w (idle_ghost (g_thread g)) (drop_guards (g_thread g) w)"
proof -
  let ?k = "g_thread g" and ?w = "drop_guards (g_thread g) w"
  have f: "call_facts ?w = call_facts w" "tw_approvals ?w = tw_approvals w" "tw_history ?w = tw_history w"
    "tw_protection ?w = tw_protection w" "tw_preferences ?w = tw_preferences w" "tw_sessions ?w = tw_sessions w"
    "tw_turns ?w = tw_turns w"
    by (simp_all add: drop_guards_def call_facts_def)
  have r: "set (tw_readers ?w) = {x \<in> set (tw_readers w). snd x \<noteq> ?k}" "set (tw_writers ?w) = {x \<in> set (tw_writers w). snd x \<noteq> ?k}"
    by (auto simp: drop_guards_def)
  have "gates_ok ?w" using assms(1) unfolding tool_inv_def gates_ok_def r by blast
  then have "tool_inv ?w"
    using assms(1) by (simp add: tool_inv_def rows_ok_def web_ok_def history_ok_def justified_def f)
  moreover have "tool_own (idle_ghost ?k) ?w" by (simp add: tool_own_def idle_ghost_def r)
  moreover have "tool_later w ?w" by (simp add: tool_later_def rows_kept_def f)
  moreover have "tool_own h ?w" if "tool_own h w" "?k \<noteq> g_thread h" for h
  proof -
    have "claim_ok (g_claim h) ?w \<longleftrightarrow> claim_ok (g_claim h) w"
      by (cases "g_claim h") (simp_all add: not_started_def justified_def f)
    with that show ?thesis
      by (auto simp: tool_own_def r session_owner_def turn_started_def protection_allows_def full_choice_def f)
  qed
  moreover have "tool_compat (idle_ghost ?k) h" for h by (simp add: tool_compat_def idle_ghost_def)
  moreover have "guard_holder ?w k \<Longrightarrow> guard_holder w k" for k by (auto simp: guard_holder_def r)
  moreover have "tw_history ?w \<noteq> Ev_Dispatched call # tw_history w" for call by (simp add: f)
  ultimately show ?thesis unfolding tool_move_def by (simp add: idle_ghost_def)
qed

lemma tool_env_core: "tool_env w w' \<Longrightarrow> core w' = core w \<and> rows_kept w w'"
  by (simp add: tool_env_def)

lemma env_guard_holder: "tool_env w w' \<Longrightarrow> guard_holder w' k \<Longrightarrow> guard_holder w k"
  by (simp add: tool_env_def guard_holder_def core_def)

interpretation tools: owned_world "si_thread :: StepInput \<Rightarrow> nat" tool_inv tool_own "g_thread :: Ghost \<Rightarrow> nat"
  idle_ghost tool_compat tool_move guard_holder tool_later tool_env drop_guards
proof (unfold_locales, goal_cases)
  case (12 w g)
  then show ?case by (rule release_tool_move)
next
  case (13 w w')
  then show ?case using tool_inv_core [of w' w] by (simp add: tool_env_def)
next
  case (14 w g w')
  then show ?case using tool_own_env [of w' w g] tool_env_core by blast
next
  case (15 w w' k)
  then show ?case by (rule env_guard_holder)
next
  case (16 w w')
  then show ?case using tool_later_env [of w' w] tool_env_core by blast
next
  case (18 w w' w'')
  then show ?case by (rule tool_later_trans)
next
  case (8 k)
  then show ?case by (simp add: idle_ghost_def)
next
  case (9 w k)
  then show ?case by (auto simp: tool_own_def guard_holder_def idle_ghost_def)
next
  case (10 k w)
  then show ?case by (auto simp: tool_own_def guard_holder_def idle_ghost_def)
next
  case (11 k h)
  then show ?case by (simp add: tool_compat_def idle_ghost_def)
next
  case (7 g h)
  then show ?case by (auto simp: tool_compat_def)
qed (simp_all add: tool_move_def)

end
