(* ===== verification/Tool_Steps.thy ===== *)
theory Tool_Steps
  imports Tool_Guard
begin

text \<open>
  The statements of the store are safe moves of the shared world: reads and status updates change nothing
  that is owned; creating a call, inserting and deciding an approval, authorising an admitted call and
  starting a tool pass a claim on.
\<close>

named_theorems stays "programs that change nothing that is owned"

section \<open>Rules for single steps\<close>

lemma safe_free:
  assumes "\<And>i w. tool_inv w \<Longrightarrow> tool_own g w \<Longrightarrow> si_thread i = g_thread g \<Longrightarrow>
      \<exists>g'. tool_move g w g' (e i w) \<and> tools.safe Q (c i w) g'"
  shows "tools.safe Q (Step free_step e c) g"
  using assms by (simp add: free_step_def)

lemma safe_query:
  assumes "\<And>w. tool_inv w \<Longrightarrow> tool_own g w \<Longrightarrow> \<exists>g'. tool_move g w g' w \<and> Q (f w) g'"
    and "\<And>e. Q (Inl e) g"
  shows "tools.safe Q (db_query f) g"
  unfolding db_query_def
proof (rule safe_free)
  fix i :: StepInput and w
  assume "tool_inv w" "tool_own g w"
  with assms(1) have "\<exists>g'. tool_move g w g' w \<and> Q (f w) g'" by blast
  moreover have "\<exists>g'. tool_move g w g' w \<and> Q (Inl e) g'" for e using assms(2) move_stay by blast
  ultimately show "\<exists>g'. tool_move g w g' w \<and>
      tools.safe Q (Ret (case si_db i of DbOk \<Rightarrow> f w | DbRejected e \<Rightarrow> Err e | DbUnconfirmed e \<Rightarrow> Err e)) g'"
    by (cases "si_db i") simp_all
qed

lemma safe_write:
  assumes "\<And>i w. tool_inv w \<Longrightarrow> tool_own g w \<Longrightarrow> si_thread i = g_thread g \<Longrightarrow>
      \<exists>g'. tool_move g w g' (fst (f i w)) \<and> Q (snd (f i w)) g' \<and> (\<forall>e. Q (Inl e) g')"
    and "\<And>e. Q (Inl e) g"
  shows "tools.safe Q (db_write f) g"
  unfolding db_write_def
proof (rule safe_free)
  fix i :: StepInput and w
  assume "tool_inv w" "tool_own g w" "si_thread i = g_thread g"
  with assms(1) [of w i] obtain g' where "tool_move g w g' (fst (f i w))" "Q (snd (f i w)) g'" "\<forall>e. Q (Inl e) g'"
    by blast
  with assms(2) move_stay show "\<exists>g'. tool_move g w g' (case si_db i of DbRejected e \<Rightarrow> w | _ \<Rightarrow> fst (f i w)) \<and>
      tools.safe Q (Ret (case si_db i of DbOk \<Rightarrow> snd (f i w) | DbRejected e \<Rightarrow> Err e | DbUnconfirmed e \<Rightarrow> Err e)) g'"
    by (cases "si_db i") auto
qed

lemma query_stays [stays]: "tools.safe (\<lambda>_ h. h = g) (db_query f) g"
  by (rule safe_query) (use move_stay in blast)+

lemma ask_stays [stays]: "tools.safe (\<lambda>_ h. h = g) (ask_env f) g"
  unfolding ask_env_def by (rule safe_free) (use move_stay in auto)

lemma quiet_write_stays:
  assumes "\<And>i w. core (fst (f i w)) = core w" and "\<And>i w. rows_kept w (fst (f i w))"
  shows "tools.safe (\<lambda>_ h. h = g) (db_write f) g"
  by (rule safe_write) (use assms move_quiet in blast)+

lemma ret_stays [stays]: "tools.safe (\<lambda>_ h. h = g) (Ret x) g"
  by simp

lemma bind_stays [stays]:
  assumes "tools.safe (\<lambda>_ h. h = g) p g" and "\<And>x. tools.safe (\<lambda>_ h. h = g) (k x) g"
  shows "tools.safe (\<lambda>_ h. h = g) (bind_prog p k) g"
  by (rule tools.safe_bind [OF assms(1)]) (use assms(2) in auto)

lemma try_stays [stays]:
  assumes "tools.safe (\<lambda>_ h. h = g) p g" and "\<And>x. tools.safe (\<lambda>_ h. h = g) (k x) g"
  shows "tools.safe (\<lambda>_ h. h = g) (try_prog p k) g"
  by (rule tools.safe_try [OF assms(1)]) (use assms(2) in auto)

lemma if_stays [stays]:
  assumes "tools.safe Q p g" and "tools.safe Q q g"
  shows "tools.safe Q (if b then p else q) g"
  using assms by simp

lemma lift_db_stays [stays]: "tools.safe (\<lambda>_ h. h = g) p g \<Longrightarrow> tools.safe (\<lambda>_ h. h = g) (lift_db p) g"
  unfolding lift_db_def by (intro stays)

lemma lift_text_stays [stays]: "tools.safe (\<lambda>_ h. h = g) p g \<Longrightarrow> tools.safe (\<lambda>_ h. h = g) (lift_text f p) g"
  unfolding lift_text_def by (intro stays)

text \<open>A lifted program with a postcondition on its successful result.\<close>

lemma lift_db_safe:
  assumes "tools.safe Q p g" and "\<And>x h. Q (Inr x) h \<Longrightarrow> R (Inr x) h" and "\<And>e h. Q (Inl e) h \<Longrightarrow> R (Inl (EE_Storage e)) h"
  shows "tools.safe R (lift_db p) g"
  unfolding lift_db_def
  by (rule tools.safe_bind [OF assms(1)]) (use assms(2,3) in \<open>auto simp: lift_storage_def split: sum.splits\<close>)

lemma lift_text_safe:
  assumes "tools.safe Q p g" and "\<And>x h. Q (Inr x) h \<Longrightarrow> R (Inr x) h" and "\<And>e h. Q (Inl e) h \<Longrightarrow> R (Inl (f e)) h"
  shows "tools.safe R (lift_text f p) g"
  unfolding lift_text_def
  by (rule tools.safe_bind [OF assms(1)]) (use assms(2,3) in \<open>auto split: sum.splits\<close>)

section \<open>Reads and quiet updates\<close>

lemma get_session_stays [stays]: "tools.safe (\<lambda>_ h. h = g) (get_session s) g"
  unfolding get_session_def by (intro stays)

lemma read_turn_stays [stays]: "tools.safe (\<lambda>_ h. h = g) (read_turn scope t) g"
  unfolding read_turn_def by (intro stays)

lemma get_session_preferences_stays [stays]: "tools.safe (\<lambda>_ h. h = g) (get_session_preferences scope s) g"
  unfolding get_session_preferences_def by (intro stays)

lemma session_permission_changed_at_stays [stays]:
  "tools.safe (\<lambda>_ h. h = g) (session_permission_changed_at scope s) g"
  unfolding session_permission_changed_at_def by (intro stays)

lemma latest_team_configuration_stays [stays]: "tools.safe (\<lambda>_ h. h = g) (latest_team_configuration a b) g"
  unfolding latest_team_configuration_def by (intro stays)

lemma matching_policy_exception_stays [stays]:
  "tools.safe (\<lambda>_ h. h = g) (matching_policy_exception scope tool uri now) g"
  unfolding matching_policy_exception_def by (intro stays)

lemma file_protection_stays [stays]: "tools.safe (\<lambda>_ h. h = g) (file_protection scope) g"
  unfolding file_protection_def by (intro stays)

lemma get_tool_call_stays [stays]: "tools.safe (\<lambda>_ h. h = g) (get_tool_call c) g"
  unfolding get_tool_call_def by (intro stays)

lemma get_tool_calls_stays [stays]: "tools.safe (\<lambda>_ h. h = g) (get_tool_calls cs) g"
  by (induction cs) (auto intro!: stays)

lemma get_approval_stays [stays]: "tools.safe (\<lambda>_ h. h = g) (get_approval a) g"
  unfolding get_approval_def by (intro stays)

lemma code_mode_call_count_stays [stays]: "tools.safe (\<lambda>_ h. h = g) (code_mode_call_count scope s t) g"
  unfolding code_mode_call_count_def by (intro stays)

lemma core_simps [simp]:
  "core (w\<lparr>tw_turns := t\<rparr>) = core w" "core (w\<lparr>tw_media := m\<rparr>) = core w"
  by (simp_all add: core_def call_facts_def)

lemma core_calls: "map (\<lambda>c. (tc_request c, tc_policy c)) calls = call_facts w \<Longrightarrow> core (w\<lparr>tw_calls := calls\<rparr>) = core w"
  by (simp add: core_def call_facts_def)

lemma rows_kept_simps [simp]:
  "rows_kept w (w\<lparr>tw_calls := c\<rparr>)" "rows_kept w (w\<lparr>tw_media := m\<rparr>)" "rows_kept w (w\<lparr>tw_approvals := a\<rparr>)"
  "rows_kept w (w\<lparr>tw_history := h\<rparr>)" "rows_kept w (w\<lparr>tw_protection := p\<rparr>)" "rows_kept w (w\<lparr>tw_preferences := f\<rparr>)"
  "rows_kept w (w\<lparr>tw_readers := r\<rparr>)" "rows_kept w (w\<lparr>tw_writers := r\<rparr>)"
  by (simp_all add: rows_kept_def)

lemma rows_kept_turn_update:
  assumes "\<And>t. tn_id (f t) = tn_id t" and "\<And>t. tn_started_at (f t) = tn_started_at t"
  shows "rows_kept w (w\<lparr>tw_turns := update_where p f (tw_turns w)\<rparr>)"
  using assms by (simp add: rows_kept_def find_row_update)

lemma rows_kept_turn_insert: "rows_kept w (w\<lparr>tw_turns := tw_turns w @ [t]\<rparr>)"
  by (simp add: rows_kept_def find_row_append)

lemma call_facts_update:
  assumes "\<And>c. tc_request (f c) = tc_request c" and "\<And>c. tc_policy (f c) = tc_policy c"
  shows "map (\<lambda>c. (tc_request c, tc_policy c)) (update_where p f calls) = map (\<lambda>c. (tc_request c, tc_policy c)) calls"
  using assms by (simp add: update_where_def)

lemma update_turn_stays [stays]: "tools.safe (\<lambda>_ h. h = g) (update_turn scope t status checkpoint error) g"
  unfolding update_turn_def by (intro stays quiet_write_stays) (simp_all add: rows_kept_turn_update)

lemma create_turn_stays [stays]: "tools.safe (\<lambda>_ h. h = g) (create_turn scope s) g"
  unfolding create_turn_def by (intro stays quiet_write_stays) (auto simp: Let_def rows_kept_turn_insert)

lemma finish_tool_call_stays [stays]: "tools.safe (\<lambda>_ h. h = g) (finish_tool_call c status result error) g"
  unfolding finish_tool_call_def
  by (intro stays quiet_write_stays) (simp_all add: core_calls call_facts_def call_facts_update)

lemma finish_code_mode_stays [stays]: "tools.safe (\<lambda>_ h. h = g) (finish_code_mode c status result error) g"
  unfolding finish_code_mode_def
  by (intro stays quiet_write_stays) (simp_all add: Let_def core_calls call_facts_def call_facts_update)

lemma interrupt_code_mode_calls_stays [stays]: "tools.safe (\<lambda>_ h. h = g) interrupt_code_mode_calls g"
proof -
  have "rows_kept w (w\<lparr>tw_turns := update_where p f (tw_turns w), tw_calls := c\<rparr>)"
    if "\<And>t. tn_id (f t) = tn_id t" "\<And>t. tn_started_at (f t) = tn_started_at t" for w p f c
    using rows_kept_trans [OF rows_kept_turn_update [OF that] rows_kept_simps(1)] .
  moreover have "core (w\<lparr>tw_turns := t, tw_calls := calls\<rparr>) = core w"
    if "map (\<lambda>c. (tc_request c, tc_policy c)) calls = call_facts w" for w t calls
    using that by (simp add: core_def call_facts_def)
  ultimately show ?thesis
    unfolding interrupt_code_mode_calls_def
    by (intro quiet_write_stays) (simp_all add: Let_def call_facts_def call_facts_update)
qed

lemma cache_media_stays [stays]: "tools.safe (\<lambda>_ h. h = g) (cache_media_step t c m) g"
  unfolding cache_media_step_def by (rule safe_free) (use move_quiet in \<open>auto intro!: exI [of _ g]\<close>)

lemma discard_media_stays [stays]: "tools.safe (\<lambda>_ h. h = g) (discard_media_step c) g"
  unfolding discard_media_step_def by (rule safe_free) (use move_quiet in \<open>auto intro!: exI [of _ g]\<close>)

section \<open>Claims\<close>

lemma dispatched_append [simp]: "dispatched (h @ h') = dispatched h @ dispatched h'"
  by (induction h rule: dispatched.induct) auto

lemma resolved_set: "a \<in> set (resolved h) \<longleftrightarrow> (\<exists>b d. Ev_Resolved a b d \<in> set h)"
  by (induction h rule: resolved.induct) auto

lemma same_work_id: "same_work r r' \<Longrightarrow> tr_id r' = tr_id r"
  by (rule same_work_fields)

text \<open>A step that changes calls, approvals and history only: it passes a claim on when the rest of the
  invariant holds after it and the claims on other calls survive it.\<close>

lemma claims_move:
  assumes frame: "tw_sessions w' = tw_sessions w" "tw_turns w' = tw_turns w" "tw_protection w' = tw_protection w"
      "tw_preferences w' = tw_preferences w" "tw_readers w' = tw_readers w" "tw_writers w' = tw_writers w"
    and inv: "tool_inv w \<Longrightarrow> tool_own g w \<Longrightarrow> rows_ok w' \<and> web_ok w' \<and> history_ok w' \<and> claim_ok c w'"
    and others: "\<And>d. tool_inv w \<Longrightarrow> tool_own g w \<Longrightarrow> claim_ok d w \<Longrightarrow> claim_calls (g_claim g) \<inter> claim_calls d = {} \<Longrightarrow>
        claim_ok d w' \<and> claim_calls c \<inter> claim_calls d = {}"
    and kept: "\<forall>a \<in> set (tw_approvals w). apr_status a \<noteq> Approval_Pending \<longrightarrow> a \<in> set (tw_approvals w')"
    and grown: "\<exists>new. tw_history w' = new @ tw_history w"
    and start: "\<And>call. tool_inv w \<Longrightarrow> tool_own g w \<Longrightarrow> tw_history w' = Ev_Dispatched call # tw_history w \<Longrightarrow> start_ok w call"
  shows "tool_move g w (g\<lparr>g_claim := c\<rparr>) w'"
proof -
  have same: "session_owner w' = session_owner w" "protection_allows w' = protection_allows w"
    "full_choice w' = full_choice w" "gates_ok w' = gates_ok w" "guard_holder w' = guard_holder w"
    "turn_started w' = turn_started w"
    by (simp_all add: fun_eq_iff session_owner_def turn_started_def protection_allows_def full_choice_def gates_ok_def guard_holder_def frame)
  have rest: "tool_own h w' \<longleftrightarrow> tool_own h w" if "claim_ok (g_claim h) w' \<longleftrightarrow> claim_ok (g_claim h) w" for h
    using that by (simp add: tool_own_def same frame)
  have "tool_own (g\<lparr>g_claim := c\<rparr>) w'" if "tool_inv w" "tool_own g w"
    using inv [OF that] that(2) by (simp add: tool_own_def same frame)
  moreover have "tool_inv w'" if "tool_inv w" "tool_own g w"
    using inv [OF that] that(1) by (simp add: tool_inv_def same)
  moreover have "tool_own h w' \<and> tool_compat (g\<lparr>g_claim := c\<rparr>) h"
    if "tool_inv w" "tool_own g w" "tool_own h w" "tool_compat g h" for h
  proof -
    have "claim_ok (g_claim h) w" using that(3) by (simp add: tool_own_def)
    with others [OF that(1,2)] that(4) have "claim_ok (g_claim h) w'" "claim_calls c \<inter> claim_calls (g_claim h) = {}"
      by (auto simp: tool_compat_def)
    with rest [of h] \<open>claim_ok (g_claim h) w\<close> that(3) show ?thesis by (simp add: tool_compat_def)
  qed
  moreover have "tool_later w w'" using kept grown by (simp add: tool_later_def rows_kept_def frame)
  ultimately show ?thesis using start unfolding tool_move_def by (simp add: same)
qed

lemma justified_mono:
  assumes "justified w r" and "set (call_facts w) \<subseteq> set (call_facts w')"
    and "\<And>c. approved_call (tw_approvals w) c \<Longrightarrow> approved_call (tw_approvals w') c"
  shows "justified w' r"
  using assms unfolding justified_def by blast

lemma claim_calls_known: "claim_ok d w \<Longrightarrow> claim_calls d \<subseteq> (tr_id \<circ> fst) ` set (call_facts w)"
  by (cases d) (force simp: justified_def image_iff dest: same_work_id)+

lemma dispatched_known:
  assumes "history_ok w" and "c \<in> set (dispatched (tw_history w))"
  shows "call_id c \<in> (tr_id \<circ> fst) ` set (call_facts w)"
  using assms by (force simp: history_ok_def justified_def call_id_def image_iff dest: same_work_id)

lemma approval_known:
  assumes "rows_ok w" and "a \<in> set (tw_approvals w)"
  shows "apr_tool_call_id a \<in> (tr_id \<circ> fst) ` set (call_facts w)"
  using assms by (force simp: rows_ok_def image_iff)

text \<open>Weakening a claim, and learning something about the world.\<close>

lemma move_learn:
  assumes "\<And>w. tool_inv w \<Longrightarrow> tool_own g w \<Longrightarrow> w = v \<Longrightarrow> tool_own g' w"
    and "g_thread g' = g_thread g" and "claim_calls (g_claim g') \<subseteq> claim_calls (g_claim g)"
  shows "tool_move g v g' v"
  using assms unfolding tool_move_def tool_compat_def by auto

definition call_claim :: "ToolRequest \<Rightarrow> PolicyDecision \<Rightarrow> Claim" where
  "call_claim r d = (if d = Allow then Run_Call r else Fresh r d)"

lemma move_insert_call:
  assumes "g_claim g = No_Claim" and "tr_id request \<notin> (tr_id \<circ> fst) ` set (call_facts w)"
    and "same_work request (tc_request call)"
    and "requires_exact_public_url_approval (tr_tool request) \<longrightarrow> pr_decision (tc_policy call) \<noteq> Allow"
  shows "tool_move g w (g\<lparr>g_claim := call_claim request (pr_decision (tc_policy call))\<rparr>) (w\<lparr>tw_calls := tw_calls w @ [call]\<rparr>)"
proof (rule claims_move)
  let ?w = "w\<lparr>tw_calls := tw_calls w @ [call]\<rparr>"
  have f: "call_facts ?w = call_facts w @ [(tc_request call, tc_policy call)]" "tw_approvals ?w = tw_approvals w"
    "tw_history ?w = tw_history w"
    by (simp_all add: call_facts_def)
  have same: "tr_id (tc_request call) = tr_id request" "tr_tool (tc_request call) = tr_tool request"
    using same_work_fields [OF assms(3)] by simp_all
  have mono: "justified w r \<Longrightarrow> justified ?w r" for r by (erule justified_mono) (auto simp: f)
  show claims: "claim_ok d ?w \<and> claim_calls (call_claim request (pr_decision (tc_policy call))) \<inter> claim_calls d = {}"
    if "claim_ok d w" for d
  proof
    show "claim_ok d ?w" using that mono by (cases d) (auto simp: f not_started_def)
    show "claim_calls (call_claim request (pr_decision (tc_policy call))) \<inter> claim_calls d = {}"
      using claim_calls_known [OF that] assms(2) by (auto simp: call_claim_def)
  qed
  show "rows_ok ?w \<and> web_ok ?w \<and> history_ok ?w \<and> claim_ok (call_claim request (pr_decision (tc_policy call))) ?w"
    if inv: "tool_inv w" "tool_own g w"
  proof -
    from inv have ok: "rows_ok w" "web_ok w" "history_ok w" by (simp_all add: tool_inv_def)
    have new: "tr_id request \<notin> apr_tool_call_id ` set (tw_approvals w)" using approval_known [OF ok(1)] assms(2) by auto
    have "rows_ok ?w" using ok(1) assms(2) unfolding rows_ok_def by (auto simp: f same)
    moreover have "web_ok ?w" using ok(2) assms(4) new unfolding web_ok_def by (auto simp: f same image_iff)
    moreover have "history_ok ?w" using ok(3) mono unfolding history_ok_def by (auto simp: f)
    moreover have "not_started w (tr_id request)" using dispatched_known [OF ok(3)] assms(2) by (auto simp: not_started_def)
    ultimately show ?thesis using assms(3) new by (auto simp: call_claim_def justified_def f not_started_def)
  qed
qed auto

text \<open>Rows are unique: by the identifier of a call and of an approval, and by the call of an approval.\<close>

lemma call_unique:
  assumes "rows_ok w" and "(r, p) \<in> set (call_facts w)" and "(r', p') \<in> set (call_facts w)" and "tr_id r = tr_id r'"
  shows "r = r'" and "p = p'"
  using assms inj_onD [of "tr_id \<circ> fst" "set (call_facts w)" "(r, p)" "(r', p')"]
  by (auto simp: rows_ok_def distinct_map)

lemma approval_unique:
  assumes "rows_ok w" and "a \<in> set (tw_approvals w)" and "b \<in> set (tw_approvals w)"
    and "apr_id a = apr_id b \<or> apr_tool_call_id a = apr_tool_call_id b"
  shows "a = b"
  using assms by (auto simp: rows_ok_def distinct_map dest: inj_onD)

lemma fresh_row:
  assumes "claim_ok (Fresh r d) w"
  obtains r' p where "(r', p) \<in> set (call_facts w)" "same_work r r'" "pr_decision p = d"
  using assms by auto

lemma move_insert_approval:
  assumes "g_claim g = Fresh r Ask" and "apr_id a \<notin> apr_id ` set (tw_approvals w)"
    and "apr_tool_call_id a = tr_id r" and "apr_scope a = tr_scope r"
    and "apr_status a = Approval_Pending \<and> c = No_Claim \<or>
         apr_status a = Approval_Approved \<and> c = Run_Call r \<and> \<not> requires_exact_public_url_approval (tr_tool r)"
  shows "tool_move g w (g\<lparr>g_claim := c\<rparr>) (w\<lparr>tw_approvals := tw_approvals w @ [a]\<rparr>)"
proof (rule claims_move)
  let ?w = "w\<lparr>tw_approvals := tw_approvals w @ [a]\<rparr>"
  have f: "call_facts ?w = call_facts w" "tw_approvals ?w = tw_approvals w @ [a]" "tw_history ?w = tw_history w"
    by (simp_all add: call_facts_def)
  have mono: "justified w q \<Longrightarrow> justified ?w q" for q by (erule justified_mono) (auto simp: f approved_call_def)
  show "claim_ok d ?w \<and> claim_calls c \<inter> claim_calls d = {}"
    if "claim_ok d w" "claim_calls (g_claim g) \<inter> claim_calls d = {}" for d
    using that assms(1,3,5) mono by (cases d) (auto simp: f not_started_def)
  show "rows_ok ?w \<and> web_ok ?w \<and> history_ok ?w \<and> claim_ok c ?w" if inv: "tool_inv w" "tool_own g w"
  proof -
    from inv have ok: "rows_ok w" "web_ok w" "history_ok w" by (simp_all add: tool_inv_def)
    from inv(2) assms(1) have claim: "claim_ok (Fresh r Ask) w" by (simp add: tool_own_def)
    then obtain r' p where row: "(r', p) \<in> set (call_facts w)" "same_work r r'" "pr_decision p = Ask" by (rule fresh_row)
    note same = same_work_fields [OF row(2)]
    have rows: "rows_ok ?w"
      using ok(1) row claim assms(2-4) same unfolding rows_ok_def by (auto simp: f intro!: bexI [of _ "(r', p)"])
    moreover have "web_ok ?w"
      unfolding web_ok_def
    proof (intro ballI, clarify)
      fix q pq
      assume q: "(q, pq) \<in> set (call_facts ?w)" "requires_exact_public_url_approval (tr_tool q)"
      have "\<not> (apr_tool_call_id a = tr_id q \<and> apr_status a = Approval_Approved)"
        using call_unique(1) [OF ok(1), of q pq r' p] q row(1) same assms(3,5) by (auto simp: f)
      with ok(2) q show "pr_decision pq \<noteq> Allow \<and> (\<forall>x\<in>set (tw_approvals ?w).
          apr_tool_call_id x = tr_id q \<and> apr_status x = Approval_Approved \<longrightarrow>
          (\<exists>d. Ev_Resolved (apr_id x) True d \<in> set (tw_history ?w)))"
        unfolding web_ok_def by (auto simp: f)
    qed
    moreover have "history_ok ?w" using ok(3) mono unfolding history_ok_def decided_as_def by (auto simp: f)
    moreover have "claim_ok c ?w"
      using claim assms(3,5) row by (auto simp: f not_started_def justified_def approved_call_def intro!: bexI [of _ "(r', p)"])
    ultimately show ?thesis by blast
  qed
qed auto

lemma run_not_pending:
  assumes "rows_ok w" and "justified w r" and "x \<in> set (tw_approvals w)" and "apr_tool_call_id x = tr_id r"
  shows "apr_status x = Approval_Approved"
proof -
  from assms(2) obtain r' p where row: "(r', p) \<in> set (call_facts w)" "same_work r r'"
    "pr_decision p = Allow \<or> pr_decision p = Ask \<and> approved_call (tw_approvals w) (tr_id r)"
    by (auto simp: justified_def)
  from assms(1,3) obtain q pq where q: "(q, pq) \<in> set (call_facts w)" "tr_id q = apr_tool_call_id x" "pr_decision pq = Ask"
    by (force simp: rows_ok_def)
  have "pq = p" using call_unique(2) [OF assms(1) q(1) row(1)] q(2) assms(4) same_work_id [OF row(2)] by simp
  with row(3) q(3) obtain y where "y \<in> set (tw_approvals w)" "apr_tool_call_id y = tr_id r" "apr_status y = Approval_Approved"
    by (auto simp: approved_call_def)
  with approval_unique [OF assms(1,3), of y] assms(4) show ?thesis by simp
qed

definition decide :: "bool \<Rightarrow> Scope \<Rightarrow> ApprovalScope \<Rightarrow> Timestamp \<Rightarrow> Approval \<Rightarrow> Approval" where
  "decide approved scope approval_scope now a =
     a\<lparr>apr_status := (if approved then Approval_Approved else Approval_Rejected),
       apr_approval_scope := approval_scope, apr_decided_at := Some now, apr_decided_by := Some (sc_actor_id scope)\<rparr>"

definition pending_row :: "Id \<Rightarrow> Approval \<Rightarrow> bool" where
  "pending_row a x \<longleftrightarrow> apr_id x = a \<and> apr_status x = Approval_Pending"

definition decide_rows :: "Id \<Rightarrow> bool \<Rightarrow> Scope \<Rightarrow> ApprovalScope \<Rightarrow> Timestamp \<Rightarrow> Approval list \<Rightarrow> Approval list" where
  "decide_rows a approved scope ascope now rows = update_where (pending_row a) (decide approved scope ascope now) rows"

lemma decide_fields [simp]:
  "apr_id (decide approved scope ascope now y) = apr_id y"
  "apr_tool_call_id (decide approved scope ascope now y) = apr_tool_call_id y"
  "apr_scope (decide approved scope ascope now y) = apr_scope y"
  "apr_status (decide approved scope ascope now y) = (if approved then Approval_Approved else Approval_Rejected)"
  "apr_decided_by (decide approved scope ascope now y) = Some (sc_actor_id scope)"
  by (simp_all add: decide_def)

lemma decide_rows_maps [simp]:
  "map apr_id (decide_rows a approved scope ascope now rows) = map apr_id rows"
  "map apr_tool_call_id (decide_rows a approved scope ascope now rows) = map apr_tool_call_id rows"
  "apr_tool_call_id ` set (decide_rows a approved scope ascope now rows) = apr_tool_call_id ` set rows"
proof -
  show "map apr_id (decide_rows a approved scope ascope now rows) = map apr_id rows"
    and m: "map apr_tool_call_id (decide_rows a approved scope ascope now rows) = map apr_tool_call_id rows"
    by (simp_all add: decide_rows_def update_where_def)
  from arg_cong [OF m, of set] show "apr_tool_call_id ` set (decide_rows a approved scope ascope now rows) = apr_tool_call_id ` set rows"
    by (simp only: set_map)
qed

lemma decide_rows_origin:
  assumes "y \<in> set (decide_rows a approved scope ascope now rows)"
  obtains (decided) z where "z \<in> set rows" "pending_row a z" "y = decide approved scope ascope now z"
    | (old) "y \<in> set rows" "\<not> pending_row a y"
  using assms by (auto simp: decide_rows_def update_where_def split: if_splits)

lemma decide_rows_kept:
  "y \<in> set rows \<Longrightarrow> apr_status y \<noteq> Approval_Pending \<Longrightarrow> y \<in> set (decide_rows a approved scope ascope now rows)"
  by (force simp: decide_rows_def update_where_def pending_row_def)

lemma decide_rows_new:
  "x \<in> set rows \<Longrightarrow> pending_row a x \<Longrightarrow>
   decide approved scope ascope now x \<in> set (decide_rows a approved scope ascope now rows)"
  by (auto simp: decide_rows_def update_where_def)

lemma approved_call_decide:
  "approved_call rows c \<Longrightarrow> approved_call (decide_rows a approved scope ascope now rows) c"
  unfolding approved_call_def using decide_rows_kept by (metis ApprovalStatus.distinct(1))

lemma decided_as_decide:
  "decided_as rows b v e \<Longrightarrow> decided_as (decide_rows a approved scope ascope now rows) b v e"
  unfolding decided_as_def using decide_rows_kept by (metis ApprovalStatus.distinct(1,3))

lemma decided_as_new:
  "x \<in> set rows \<Longrightarrow> pending_row a x \<Longrightarrow>
   decided_as (decide_rows a approved scope ascope now rows) a approved (sc_actor_id scope)"
  unfolding decided_as_def
  by (rule bexI [OF _ decide_rows_new [of x]]) (simp_all add: pending_row_def)

definition decide_world :: "Id \<Rightarrow> bool \<Rightarrow> Scope \<Rightarrow> ApprovalScope \<Rightarrow> Timestamp \<Rightarrow> ToolWorld \<Rightarrow> ToolWorld" where
  "decide_world a approved scope ascope now w =
     w\<lparr>tw_approvals := decide_rows a approved scope ascope now (tw_approvals w),
       tw_history := Ev_Resolved a approved (sc_actor_id scope) # tw_history w\<rparr>"

lemma decide_world_fields [simp]:
  "call_facts (decide_world a approved scope ascope now w) = call_facts w"
  "tw_approvals (decide_world a approved scope ascope now w) = decide_rows a approved scope ascope now (tw_approvals w)"
  "tw_history (decide_world a approved scope ascope now w) = Ev_Resolved a approved (sc_actor_id scope) # tw_history w"
  "not_started (decide_world a approved scope ascope now w) = not_started w"
  by (simp_all add: decide_world_def call_facts_def not_started_def fun_eq_iff)

lemma justified_decide: "justified w q \<Longrightarrow> justified (decide_world a approved scope ascope now w) q"
  by (erule justified_mono) (simp_all add: approved_call_decide)

lemma claim_ok_decide: "claim_ok e w \<Longrightarrow> claim_ok e (decide_world a approved scope ascope now w)"
proof (cases e)
  case (Granted b q)
  moreover assume "claim_ok e w"
  ultimately obtain y where y: "y \<in> set (tw_approvals w)" "apr_id y = b" "apr_tool_call_id y = tr_id q" "apr_status y = Approval_Approved"
    "justified w q" "not_started w (tr_id q)"
    by auto
  with Granted justified_decide show ?thesis by (auto intro!: bexI [OF _ decide_rows_kept [OF y(1)]])
next
  case (Turned_Down b)
  moreover assume "claim_ok e w"
  ultimately obtain y where y: "y \<in> set (tw_approvals w)" "apr_id y = b" "apr_status y = Approval_Rejected" by auto
  with Turned_Down show ?thesis by (auto intro!: bexI [OF _ decide_rows_kept [OF y(1)]])
qed (auto simp: justified_decide)

lemma rows_ok_decide: "rows_ok w \<Longrightarrow> rows_ok (decide_world a approved scope ascope now w)"
  unfolding rows_ok_def by (auto elim!: decide_rows_origin)

lemma web_ok_decide: "web_ok w \<Longrightarrow> web_ok (decide_world a approved scope ascope now w)"
  unfolding web_ok_def by (fastforce elim!: decide_rows_origin simp: pending_row_def split: if_splits)

lemma history_ok_decide:
  assumes "rows_ok w" and "history_ok w" and x: "x \<in> set (tw_approvals w)" "pending_row a x"
  shows "history_ok (decide_world a approved scope ascope now w)"
proof -
  have "a \<notin> set (resolved (tw_history w))"
  proof
    assume "a \<in> set (resolved (tw_history w))"
    with assms(2) obtain y where y: "y \<in> set (tw_approvals w)" "apr_id y = a" "apr_status y \<noteq> Approval_Pending"
      unfolding history_ok_def resolved_set decided_as_def by (metis ApprovalStatus.distinct(1,3))
    with approval_unique [OF assms(1) y(1) x(1)] x(2) show False by (simp add: pending_row_def)
  qed
  then show ?thesis
    using assms(2) decided_as_new [OF x] unfolding history_ok_def by (auto simp: justified_decide decided_as_decide)
qed

lemma move_decide:
  assumes "g_claim g = No_Claim" and x: "x \<in> set (tw_approvals w)" "pending_row a x"
    and row: "(r, p) \<in> set (call_facts w)" "tr_id r = apr_tool_call_id x" "pr_decision p = Ask"
    and c: "c = (if approved then Granted a r else Turned_Down a)"
  shows "tool_move g w (g\<lparr>g_claim := c\<rparr>) (decide_world a approved scope ascope now w)"
proof (rule claims_move)
  let ?w = "decide_world a approved scope ascope now w"
  let ?x = "decide approved scope ascope now x"
  note new = decide_rows_new [OF x, of approved scope ascope now]
  show "\<forall>y\<in>set (tw_approvals w). apr_status y \<noteq> Approval_Pending \<longrightarrow> y \<in> set (tw_approvals ?w)"
    by (simp add: decide_rows_kept)
  show "claim_ok e ?w \<and> claim_calls c \<inter> claim_calls e = {}" if inv: "tool_inv w" and e: "claim_ok e w" for e
  proof
    have rows: "rows_ok w" using inv by (simp add: tool_inv_def)
    show "claim_ok e ?w" using e by (rule claim_ok_decide)
    have "tr_id r \<notin> claim_calls e"
      using e x row(2) run_not_pending [OF rows _ x(1)] by (cases e) (auto simp: pending_row_def image_iff)
    then show "claim_calls c \<inter> claim_calls e = {}" using c by auto
  qed
  show "rows_ok ?w \<and> web_ok ?w \<and> history_ok ?w \<and> claim_ok c ?w" if inv: "tool_inv w" "tool_own g w"
  proof -
    from inv have ok: "rows_ok w" "web_ok w" "history_ok w" by (simp_all add: tool_inv_def)
    have "call_id y \<noteq> tr_id r" if "y \<in> set (dispatched (tw_history w))" for y
      using run_not_pending [OF ok(1) _ x(1), of "tc_request y"] that ok(3) x(2) row(2)
      by (auto simp: history_ok_def call_id_def pending_row_def)
    then have "not_started w (tr_id r)" unfolding not_started_def by (metis imageE)
    moreover have "approved_call (tw_approvals ?w) (tr_id r)" if approved
      unfolding approved_call_def decide_world_fields by (rule bexI [OF _ new]) (use that row(2) in simp)
    then have "justified ?w r" if approved
      using row that unfolding justified_def by (auto intro!: bexI [of _ "(r, p)"])
    moreover have "\<exists>y \<in> set (tw_approvals ?w). apr_id y = a \<and> apr_tool_call_id y = tr_id r \<and>
        apr_status y = (if approved then Approval_Approved else Approval_Rejected)"
      unfolding decide_world_fields by (rule bexI [OF _ new]) (use x(2) row(2) in \<open>simp add: pending_row_def\<close>)
    ultimately have "claim_ok c ?w" using c by (cases approved) auto
    with ok show ?thesis using rows_ok_decide web_ok_decide history_ok_decide [OF ok(1,3) x] by blast
  qed
qed (auto simp: decide_world_def)

text \<open>An admitted call gets its arguments and its policy.\<close>

definition readmit :: "Id \<Rightarrow> json \<Rightarrow> PolicyResult \<Rightarrow> ToolRequest \<times> PolicyResult \<Rightarrow> ToolRequest \<times> PolicyResult" where
  "readmit i arguments policy x = (if tr_id (fst x) = i then ((fst x)\<lparr>tr_arguments := arguments\<rparr>, policy) else x)"

lemma call_facts_admit:
  assumes "rows_ok w" and "list_ex P (tw_calls w)" and "\<And>c. P c \<Longrightarrow> call_id c = i"
    and "\<And>c. tc_request (f c) = (tc_request c)\<lparr>tr_arguments := arguments\<rparr>" and "\<And>c. tc_policy (f c) = policy"
  shows "call_facts (w\<lparr>tw_calls := update_where P f (tw_calls w)\<rparr>) = map (readmit i arguments policy) (call_facts w)"
proof -
  have inj: "inj_on call_id (set (tw_calls w))"
    using assms(1) by (auto simp: rows_ok_def call_facts_def comp_def call_id_def distinct_map inj_on_def)
  from assms(2) obtain c where c: "c \<in> set (tw_calls w)" "P c" by (auto simp: list_ex_iff)
  have "P x \<longleftrightarrow> call_id x = i" if "x \<in> set (tw_calls w)" for x
    using assms(3) c that inj_onD [OF inj, of x c] by auto
  then show ?thesis using assms(4,5) by (simp add: call_facts_def update_where_def readmit_def call_id_def)
qed

lemma readmit_id [simp]: "tr_id (fst (readmit i arguments policy x)) = tr_id (fst x)"
  by (simp add: readmit_def)

lemma readmit_mem:
  "(q, p) \<in> set facts \<Longrightarrow> tr_id q \<noteq> i \<Longrightarrow> (q, p) \<in> set (map (readmit i arguments policy) facts)"
  by (force simp: readmit_def)

lemma readmit_origin:
  assumes "(q, p) \<in> set (map (readmit i arguments policy) facts)"
  obtains (new) q' p' where "(q', p') \<in> set facts" "tr_id q' = i" "q = q'\<lparr>tr_arguments := arguments\<rparr>" "p = policy"
    | (old) "(q, p) \<in> set facts" "tr_id q \<noteq> i"
  using assms by (auto simp: readmit_def split: if_splits)

lemma justified_readmit:
  assumes "justified w q" and "tr_id q \<noteq> i" and "call_facts w' = map (readmit i arguments policy) (call_facts w)"
    and "tw_approvals w' = tw_approvals w"
  shows "justified w' q"
proof -
  from assms(1) obtain q' p where q': "(q', p) \<in> set (call_facts w)" "same_work q q'"
    "pr_decision p = Allow \<or> pr_decision p = Ask \<and> approved_call (tw_approvals w) (tr_id q)"
    by (auto simp: justified_def)
  with readmit_mem [OF q'(1), of i arguments policy] same_work_id [OF q'(2)] assms(2) show ?thesis
    unfolding justified_def assms(3,4) by (intro bexI [of _ "(q', p)"]) auto
qed

lemma move_authorize:
  assumes g: "g_claim g = Fresh r d"
    and facts: "call_facts w' = map (readmit (tr_id r) arguments policy) (call_facts w)"
    and frame: "w' = w\<lparr>tw_calls := calls\<rparr>"
    and web: "requires_exact_public_url_approval (tr_tool r) \<longrightarrow> pr_decision policy \<noteq> Allow"
    and c: "c = (if pr_decision policy = Allow then Run_Call (r\<lparr>tr_arguments := arguments\<rparr>) else No_Claim)"
  shows "tool_move g w (g\<lparr>g_claim := c\<rparr>) w'"
proof (rule claims_move)
  have same: "tw_approvals w' = tw_approvals w" "tw_history w' = tw_history w" using frame by simp_all
  note just = justified_readmit [OF _ _ facts same(1)]
  show "claim_ok e w' \<and> claim_calls c \<inter> claim_calls e = {}"
    if "claim_ok e w" "claim_calls (g_claim g) \<inter> claim_calls e = {}" for e
  proof
    show "claim_calls c \<inter> claim_calls e = {}" using that(2) g c by auto
    show "claim_ok e w'"
    proof (cases e)
      case (Fresh q v)
      with that g obtain q' p where q: "(q', p) \<in> set (call_facts w)" "same_work q q'" "pr_decision p = v" "tr_id q \<noteq> tr_id r"
        by auto
      from readmit_mem [OF q(1)] same_work_id [OF q(2)] q(4) have "(q', p) \<in> set (call_facts w')" by (simp add: facts)
      with q that(1) Fresh show ?thesis by (auto simp: not_started_def same intro!: bexI [of _ "(q', p)"])
    qed (use that g just in \<open>auto simp: not_started_def same\<close>)
  qed
  show "rows_ok w' \<and> web_ok w' \<and> history_ok w' \<and> claim_ok c w'" if inv: "tool_inv w" "tool_own g w"
  proof (intro conjI)
    from inv have ok: "rows_ok w" "web_ok w" "history_ok w" by (simp_all add: tool_inv_def)
    from inv(2) g have fresh: "claim_ok (Fresh r d) w" by (simp add: tool_own_def)
    then obtain r' p where row: "(r', p) \<in> set (call_facts w)" "same_work r r'" by (rule fresh_row)
    have "\<exists>(q, pq) \<in> set (call_facts w'). tr_id q = apr_tool_call_id a \<and> tr_scope q = apr_scope a \<and> pr_decision pq = Ask"
      if a: "a \<in> set (tw_approvals w)" for a
    proof -
      from a ok(1) obtain q pq where q: "(q, pq) \<in> set (call_facts w)" "tr_id q = apr_tool_call_id a"
        "tr_scope q = apr_scope a" "pr_decision pq = Ask"
        by (force simp: rows_ok_def)
      moreover have "tr_id q \<noteq> tr_id r" using imageI [OF a, of apr_tool_call_id] q(2) fresh by auto
      ultimately show ?thesis using readmit_mem [OF q(1)] facts by (intro bexI [of _ "(q, pq)"]) auto
    qed
    then show "rows_ok w'" using ok(1) unfolding rows_ok_def same by (simp add: facts comp_def)
    show "web_ok w'"
      unfolding web_ok_def
    proof (intro ballI, clarify)
      fix q pq
      assume "(q, pq) \<in> set (call_facts w')" and tool: "requires_exact_public_url_approval (tr_tool q)"
      then show "pr_decision pq \<noteq> Allow \<and> (\<forall>a\<in>set (tw_approvals w').
          apr_tool_call_id a = tr_id q \<and> apr_status a = Approval_Approved \<longrightarrow>
          (\<exists>d. Ev_Resolved (apr_id a) True d \<in> set (tw_history w')))"
        unfolding facts
      proof (cases rule: readmit_origin)
        case (new q' p')
        then have "q' = r'" using call_unique(1) [OF ok(1) new(1) row(1)] same_work_id [OF row(2)] by simp
        moreover from this have "apr_tool_call_id a \<noteq> tr_id q" if "a \<in> set (tw_approvals w)" for a
          using imageI [OF that, of apr_tool_call_id] fresh same_work_id [OF row(2)] new(3) by auto
        ultimately show ?thesis using new tool web same_work_fields [OF row(2)] by (simp add: same)
      next
        case old
        with ok(2) tool show ?thesis unfolding web_ok_def by (auto simp: same)
      qed
    qed
    show "history_ok w'"
      using ok(3) just fresh unfolding history_ok_def same not_started_def by (auto simp: call_id_def image_iff not_started_def)
    have "((r'\<lparr>tr_arguments := arguments\<rparr>), policy) \<in> set (call_facts w')"
      using row same_work_id [OF row(2)] by (force simp: facts readmit_def)
    moreover have "same_work (r\<lparr>tr_arguments := arguments\<rparr>) (r'\<lparr>tr_arguments := arguments\<rparr>)"
      using row(2) unfolding same_work_def by (cases r; cases r') simp
    ultimately show "claim_ok c w'"
      using c fresh by (auto simp: justified_def not_started_def same intro!: bexI [of _ "(r'\<lparr>tr_arguments := arguments\<rparr>, policy)"])
  qed
qed (use frame in auto)

end
