(* ===== verification/Tool_Handlers.thy ===== *)
theory Tool_Handlers
  imports Tool_Steps
begin

text \<open>
  The operations of the store and of the execution service are safe handlers: their gates, the start of a
  tool, and every program a client can run.
\<close>

section \<open>Gates\<close>

lemma move_gates:
  assumes w': "w' = w\<lparr>tw_readers := R, tw_writers := W\<rparr>"
    and others: "\<And>ow k. k \<noteq> g_thread g \<Longrightarrow> (ow, k) \<in> set R \<longleftrightarrow> (ow, k) \<in> set (tw_readers w)"
      "\<And>ow k. k \<noteq> g_thread g \<Longrightarrow> (ow, k) \<in> set W \<longleftrightarrow> (ow, k) \<in> set (tw_writers w)"
    and mine: "\<And>ow. (ow, g_thread g) \<in> set R \<longleftrightarrow> g_read g' = Some ow" "\<And>ow. (ow, g_thread g) \<in> set W \<longleftrightarrow> g_write g' = Some ow"
    and ghost: "g_thread g' = g_thread g" "g_claim g' = g_claim g" "g_session g' = None" "g_turn g' = None" "g_checked g' = None" "g_full g' = None"
    and gates: "tool_inv w \<Longrightarrow> tool_own g w \<Longrightarrow> gates_ok w'"
  shows "tool_move g w g' w'"
proof -
  have f: "call_facts w' = call_facts w" "tw_approvals w' = tw_approvals w" "tw_history w' = tw_history w"
    "tw_protection w' = tw_protection w" "tw_preferences w' = tw_preferences w" "tw_sessions w' = tw_sessions w"
    "tw_turns w' = tw_turns w" "tw_readers w' = R" "tw_writers w' = W"
    by (simp_all add: w' call_facts_def)
  have claim: "claim_ok c w' \<longleftrightarrow> claim_ok c w" for c by (cases c) (simp_all add: not_started_def justified_def f)
  have same: "session_owner w' = session_owner w" "turn_started w' = turn_started w"
    "protection_allows w' = protection_allows w" "full_choice w' = full_choice w"
    "rows_ok w' = rows_ok w" "web_ok w' = web_ok w" "history_ok w' = history_ok w"
    by (simp_all add: fun_eq_iff session_owner_def turn_started_def protection_allows_def full_choice_def rows_ok_def web_ok_def history_ok_def
        justified_def f)
  have "tool_inv w'" if "tool_inv w" "tool_own g w" using gates [OF that] that(1) by (simp add: tool_inv_def same)
  moreover have "tool_own g' w'" if "tool_own g w" using that mine ghost by (simp add: tool_own_def claim f)
  moreover have "tool_own h w' \<and> tool_compat g' h" if "tool_own h w" "tool_compat g h" "g_thread g \<noteq> g_thread h" for h
    using that others [of "g_thread h"] by (simp add: tool_own_def claim same f tool_compat_def ghost(2))
  moreover have "tool_later w w'" by (simp add: tool_later_def rows_kept_def f)
  moreover have "guard_holder w k" if "guard_holder w' k" "k \<noteq> g_thread g" for k
    using that others by (auto simp: guard_holder_def f)
  moreover have "tw_history w' \<noteq> Ev_Dispatched call # tw_history w" for call by (simp add: f)
  ultimately show ?thesis unfolding tool_move_def using ghost(1) by simp
qed

definition at_rest :: "Ghost \<Rightarrow> bool" where
  "at_rest g \<longleftrightarrow> g_read g = None \<and> g_write g = None \<and> g_session g = None \<and> g_turn g = None \<and>
     g_checked g = None \<and> g_full g = None"

lemma at_rest_idle [simp]: "at_rest (idle_ghost k)"
  by (simp add: at_rest_def idle_ghost_def)

lemma at_rest_claim [simp]: "at_rest (g\<lparr>g_claim := c\<rparr>) \<longleftrightarrow> at_rest g"
  by (simp add: at_rest_def)

lemma at_rest_not_holder: "at_rest g \<Longrightarrow> tool_own g w \<Longrightarrow> \<not> guard_holder w (g_thread g)"
  by (simp add: at_rest_def tool_own_def guard_holder_def)

lemma at_rest_finished: "at_rest g \<Longrightarrow> tools.finished x g"
  using at_rest_not_holder by (simp add: tools.finished_def)

definition reading :: "ProtectionOwner \<Rightarrow> Ghost \<Rightarrow> bool" where
  "reading ow h \<longleftrightarrow> g_read h = Some ow \<and> g_write h = None"

definition release_ghost :: "Ghost \<Rightarrow> Ghost" where
  "release_ghost h = h\<lparr>g_read := None, g_write := None, g_session := None, g_turn := None,
     g_checked := None, g_full := None\<rparr>"

lemma release_ghost_simps [simp]:
  "at_rest (release_ghost h)" "g_claim (release_ghost h) = g_claim h" "g_thread (release_ghost h) = g_thread h"
  by (simp_all add: at_rest_def release_ghost_def)

lemma fst_image_mem: "ow \<in> fst ` set xs \<longleftrightarrow> (\<exists>k. (ow, k) \<in> set xs)"
  by force

lemma acquire_read_safe:
  assumes "at_rest g"
  shows "tools.safe (\<lambda>_ h. h = g\<lparr>g_read := Some ow\<rparr>) (acquire_read ow) g"
  unfolding acquire_read_def tools.safe.simps
proof (intro conjI allI impI; elim conjE)
  fix w assume "tool_own g w" and blocked: "\<not> ow \<notin> fst ` set (tw_writers w)"
  with at_rest_not_holder [OF assms] show "\<not> guard_holder w (g_thread g)" by blast
  from blocked show "\<exists>k. guard_holder w k" unfolding fst_image_mem guard_holder_def by blast
next
  fix i :: StepInput and w
  assume inv: "tool_inv w" "tool_own g w" and free: "ow \<notin> fst ` set (tw_writers w)" and i: "si_thread i = g_thread g"
  have "gates_ok (w\<lparr>tw_readers := (ow, g_thread g) # tw_readers w\<rparr>)"
    using inv(1) free unfolding tool_inv_def gates_ok_def fst_image_mem by auto
  then have "tool_move g w (g\<lparr>g_read := Some ow\<rparr>) (w\<lparr>tw_readers := (ow, g_thread g) # tw_readers w\<rparr>)"
    using assms inv(2)
    by (intro move_gates [where R = "(ow, g_thread g) # tw_readers w" and W = "tw_writers w"])
      (auto simp: at_rest_def tool_own_def)
  with i show "\<exists>g'. tool_move g w g' (w\<lparr>tw_readers := (ow, si_thread i) # tw_readers w\<rparr>) \<and> g' = g\<lparr>g_read := Some ow\<rparr>"
    by simp
qed

lemma release_read_safe:
  assumes "reading ow h"
  shows "tools.safe (\<lambda>_ h'. h' = release_ghost h) (release_read ow) h"
  unfolding release_read_def
proof (rule safe_free)
  fix i :: StepInput and w
  assume inv: "tool_inv w" "tool_own h w" and i: "si_thread i = g_thread h"
  have "tool_move h w (release_ghost h) (w\<lparr>tw_readers := removeAll (ow, g_thread h) (tw_readers w)\<rparr>)"
  proof (rule move_gates [where R = "removeAll (ow, g_thread h) (tw_readers w)" and W = "tw_writers w"])
    show "gates_ok (w\<lparr>tw_readers := removeAll (ow, g_thread h) (tw_readers w)\<rparr>)"
      using inv(1) by (auto simp: tool_inv_def gates_ok_def simp del: split_paired_All)
  qed (use assms inv(2) in \<open>auto simp: reading_def tool_own_def release_ghost_def\<close>)
  with i show "\<exists>g'. tool_move h w g' (w\<lparr>tw_readers := removeAll (ow, si_thread i) (tw_readers w)\<rparr>) \<and>
      tools.safe (\<lambda>_ h'. h' = release_ghost h) (Ret ()) g'"
    by auto
qed

lemma with_read_safe:
  assumes "at_rest g" and "tools.safe Q p (g\<lparr>g_read := Some ow\<rparr>)"
    and "\<And>x h. Q x h \<Longrightarrow> g_thread h = g_thread g \<Longrightarrow> reading ow h \<and> R x (release_ghost h)"
  shows "tools.safe R (with_read ow p) g"
  unfolding with_read_def
proof (rule tools.safe_bind [OF acquire_read_safe [OF assms(1)]])
  fix u :: unit and g' assume g': "g' = g\<lparr>g_read := Some ow\<rparr>"
  show "tools.safe R (bind_prog p (\<lambda>r. bind_prog (release_read ow) (\<lambda>_. Ret r))) g'"
    unfolding g'
  proof (rule tools.safe_bind [OF assms(2)])
    fix x h assume "Q x h" "g_thread h = g_thread (g\<lparr>g_read := Some ow\<rparr>)"
    with assms(3) [of x h] show "tools.safe R (bind_prog (release_read ow) (\<lambda>_. Ret x)) h"
      by (intro tools.safe_bind [OF release_read_safe]) auto
  qed
qed

definition writing :: "ProtectionOwner \<Rightarrow> Ghost \<Rightarrow> bool" where
  "writing ow h \<longleftrightarrow> g_write h = Some ow \<and> g_read h = None \<and> g_checked h = None \<and> g_full h = None"

lemma acquire_write_safe:
  assumes "at_rest g"
  shows "tools.safe (\<lambda>_ h. h = g\<lparr>g_write := Some ow\<rparr>) (acquire_write ow) g"
  unfolding acquire_write_def tools.safe.simps
proof (intro conjI allI impI; elim conjE)
  fix w assume "tool_own g w" and blocked: "\<not> (ow \<notin> fst ` set (tw_writers w) \<and> ow \<notin> fst ` set (tw_readers w))"
  with at_rest_not_holder [OF assms] show "\<not> guard_holder w (g_thread g)" by blast
  from blocked show "\<exists>k. guard_holder w k" unfolding fst_image_mem guard_holder_def by blast
next
  fix i :: StepInput and w
  assume inv: "tool_inv w" "tool_own g w" and i: "si_thread i = g_thread g"
    and free: "ow \<notin> fst ` set (tw_writers w)" "ow \<notin> fst ` set (tw_readers w)"
  have "gates_ok (w\<lparr>tw_writers := (ow, g_thread g) # tw_writers w\<rparr>)"
    using inv(1) free unfolding tool_inv_def gates_ok_def fst_image_mem by auto
  then have "tool_move g w (g\<lparr>g_write := Some ow\<rparr>) (w\<lparr>tw_writers := (ow, g_thread g) # tw_writers w\<rparr>)"
    using assms inv(2)
    by (intro move_gates [where R = "tw_readers w" and W = "(ow, g_thread g) # tw_writers w"])
      (auto simp: at_rest_def tool_own_def)
  with i show "\<exists>g'. tool_move g w g' (w\<lparr>tw_writers := (ow, si_thread i) # tw_writers w\<rparr>) \<and> g' = g\<lparr>g_write := Some ow\<rparr>"
    by simp
qed

lemma release_write_safe:
  assumes "writing ow h"
  shows "tools.safe (\<lambda>_ h'. h' = release_ghost h) (release_write ow) h"
  unfolding release_write_def
proof (rule safe_free)
  fix i :: StepInput and w
  assume inv: "tool_inv w" "tool_own h w" and i: "si_thread i = g_thread h"
  have "tool_move h w (release_ghost h) (w\<lparr>tw_writers := removeAll (ow, g_thread h) (tw_writers w)\<rparr>)"
  proof (rule move_gates [where R = "tw_readers w" and W = "removeAll (ow, g_thread h) (tw_writers w)"])
    show "gates_ok (w\<lparr>tw_writers := removeAll (ow, g_thread h) (tw_writers w)\<rparr>)"
      using inv(1) by (auto simp: tool_inv_def gates_ok_def simp del: split_paired_All)
  qed (use assms inv(2) in \<open>auto simp: writing_def tool_own_def release_ghost_def\<close>)
  with i show "\<exists>g'. tool_move h w g' (w\<lparr>tw_writers := removeAll (ow, si_thread i) (tw_writers w)\<rparr>) \<and>
      tools.safe (\<lambda>_ h'. h' = release_ghost h) (Ret ()) g'"
    by auto
qed

lemma with_write_safe:
  assumes "at_rest g" and "tools.safe Q p (g\<lparr>g_write := Some ow\<rparr>)"
    and "\<And>x h. Q x h \<Longrightarrow> g_thread h = g_thread g \<Longrightarrow> writing ow h \<and> R x (release_ghost h)"
  shows "tools.safe R (with_write ow p) g"
  unfolding with_write_def
proof (rule tools.safe_bind [OF acquire_write_safe [OF assms(1)]])
  fix u :: unit and g' assume g': "g' = g\<lparr>g_write := Some ow\<rparr>"
  show "tools.safe R (bind_prog p (\<lambda>r. bind_prog (release_write ow) (\<lambda>_. Ret r))) g'"
    unfolding g'
  proof (rule tools.safe_bind [OF assms(2)])
    fix x h assume "Q x h" "g_thread h = g_thread (g\<lparr>g_write := Some ow\<rparr>)"
    with assms(3) [of x h] show "tools.safe R (bind_prog (release_write ow) (\<lambda>_. Ret x)) h"
      by (intro tools.safe_bind [OF release_write_safe]) auto
  qed
qed

section \<open>Writes under a gate\<close>

lemma try_ret [simp]: "try_prog (Ret x) k = (case x of Inl e \<Rightarrow> Ret (Inl e) | Inr v \<Rightarrow> k v)"
  by (simp add: try_prog_def)

lemma move_owned_write:
  assumes w': "w' = w\<lparr>tw_protection := P, tw_preferences := F\<rparr>"
    and mine: "tool_own g w \<Longrightarrow> g_write g = Some ow \<and> g_read g = None \<and> g_checked g = None \<and> g_full g = None"
    and prot: "\<And>k. k \<noteq> ow \<Longrightarrow> find_row pw_owner k P = find_row pw_owner k (tw_protection w)"
    and later: "\<And>p. find_row pw_owner ow (tw_protection w) = Some p \<Longrightarrow>
        \<exists>p'. find_row pw_owner ow P = Some p' \<and> pw_changed_at p \<le> pw_changed_at p'"
    and pref: "\<And>sid ow'. tool_own g w \<Longrightarrow> session_owner w sid ow' \<Longrightarrow> ow' \<noteq> ow \<Longrightarrow>
        find_row pf_session_id sid F = find_row pf_session_id sid (tw_preferences w)"
  shows "tool_move g w g w'"
proof -
  have f: "call_facts w' = call_facts w" "tw_approvals w' = tw_approvals w" "tw_history w' = tw_history w"
    "tw_protection w' = P" "tw_preferences w' = F" "tw_sessions w' = tw_sessions w"
    "tw_turns w' = tw_turns w" "tw_readers w' = tw_readers w" "tw_writers w' = tw_writers w"
    by (simp_all add: w' call_facts_def)
  have claim: "claim_ok c w' \<longleftrightarrow> claim_ok c w" for c by (cases c) (simp_all add: not_started_def justified_def f)
  have "session_owner w' = session_owner w" "turn_started w' = turn_started w" "guard_holder w' = guard_holder w"
    by (simp_all only: fun_eq_iff session_owner_def turn_started_def guard_holder_def f simp_thms)
  moreover have "tool_inv w' = tool_inv w"
    by (simp only: rows_ok_def web_ok_def history_ok_def gates_ok_def justified_def tool_inv_def f)
  ultimately have same: "session_owner w' = session_owner w" "turn_started w' = turn_started w" "tool_inv w' = tool_inv w"
    "guard_holder w' = guard_holder w"
    by blast+
  have "tool_own h w'" if inv: "tool_inv w" "tool_own g w" and h: "tool_own h w" for h
  proof -
    have other: "ow' \<noteq> ow" if "g_read h = Some ow'" for ow'
    proof -
      have "(ow, g_thread g) \<in> set (tw_writers w)" using inv(2) mine [OF inv(2)] unfolding tool_own_def by blast
      moreover have "(ow', g_thread h) \<in> set (tw_readers w)" using h that unfolding tool_own_def by blast
      ultimately show ?thesis using inv(1) unfolding tool_inv_def gates_ok_def by blast
    qed
    have "protection_allows w' r" if "protection_allows w r" "scope_owner (tr_scope r) \<noteq> ow" for r
      using that prot by (simp add: protection_allows_def f)
    moreover have "full_choice w' sid" if "full_choice w sid" "session_owner w sid ow'" "ow' \<noteq> ow" for sid ow'
      using that pref [OF inv(2)] by (simp add: full_choice_def f)
    moreover have "\<forall>r. g_checked h = Some r \<longrightarrow> g_read h = Some (scope_owner (tr_scope r)) \<and> protection_allows w r"
      "\<forall>sid. g_full h = Some sid \<longrightarrow> (\<exists>ow. g_read h = Some ow \<and> session_owner w sid ow) \<and> full_choice w sid"
      using h unfolding tool_own_def by blast+
    ultimately have "\<forall>r. g_checked h = Some r \<longrightarrow> g_read h = Some (scope_owner (tr_scope r)) \<and> protection_allows w' r"
      "\<forall>sid. g_full h = Some sid \<longrightarrow> (\<exists>ow. g_read h = Some ow \<and> session_owner w sid ow) \<and> full_choice w' sid"
      using other by (blast, metis)
    with h show ?thesis unfolding tool_own_def claim same f by blast
  qed
  moreover have "tool_later w w'"
  proof -
    have "\<exists>p'. find_row pw_owner k P = Some p' \<and> pw_changed_at p \<le> pw_changed_at p'"
      if "find_row pw_owner k (tw_protection w) = Some p" for k p
      using that later prot by (cases "k = ow") auto
    then show ?thesis by (simp add: tool_later_def rows_kept_def f)
  qed
  moreover have "tw_history w' \<noteq> Ev_Dispatched call # tw_history w" for call by (simp add: f)
  ultimately show ?thesis unfolding tool_move_def same by simp
qed

lemma raise_cutoff_bound:
  "raise_cutoff max_utc previous now = Inr t \<Longrightarrow> now \<le> t \<and> (\<forall>p. previous = Some p \<longrightarrow> p < t)"
  by (auto simp: raise_cutoff_def next_instant_def split: option.splits if_splits)

lemma fold_max_le: "(x :: int) \<in> set (t # ts) \<Longrightarrow> x \<le> fold max ts t"
proof (induction ts arbitrary: t x)
  case (Cons a ts)
  have "max a t \<le> fold max ts (max a t)" using Cons.IH [of "max a t" "max a t"] by simp
  moreover have "x \<in> set ts \<Longrightarrow> x \<le> fold max ts (max a t)" using Cons.IH [of x "max a t"] by simp
  ultimately show ?case using Cons.prems by auto
qed simp

lemma latest_source_bound: "x \<in> set (work_sources w ow) \<Longrightarrow> \<exists>t. latest_source w ow = Some t \<and> x \<le> t"
  using fold_max_le [of x] by (cases "work_sources w ow") (auto simp: latest_source_def)

lemma protection_update_bound:
  assumes "protection_update max_utc ow expected rules now w = Inr row"
  shows "pw_owner row = ow" and "pw_rules row = rules"
    and "find_row pw_owner ow (tw_protection w) = Some p \<Longrightarrow> pw_changed_at p < pw_changed_at row"
    and "x \<in> set (work_sources w ow) \<Longrightarrow> x < pw_changed_at row"
proof -
  from assms obtain t where t: "raise_cutoff max_utc (map_option pw_changed_at (find_row pw_owner ow (tw_protection w))) now = Inr t"
    "raise_cutoff max_utc (latest_source w ow) t = Inr (pw_changed_at row)" "pw_owner row = ow" "pw_rules row = rules"
    by (auto simp: protection_update_def Let_def and_then_def split: sum.splits if_splits)
  show "pw_owner row = ow" "pw_rules row = rules" using t(3,4) by simp_all
  show "pw_changed_at p < pw_changed_at row" if "find_row pw_owner ow (tw_protection w) = Some p"
    using raise_cutoff_bound [OF t(1)] raise_cutoff_bound [OF t(2)] that by auto
  show "x < pw_changed_at row" if "x \<in> set (work_sources w ow)"
    using latest_source_bound [OF that] raise_cutoff_bound [OF t(2)] by auto
qed

lemma find_row_upsert:
  "find_row pw_owner k (upsert_protection row rows) = (if k = pw_owner row then Some row else find_row pw_owner k rows)"
proof (cases "find_row pw_owner (pw_owner row) rows")
  case None
  then show ?thesis by (auto simp: upsert_protection_def find_row_append split: option.splits)
next
  case (Some r)
  have "find_row pw_owner k (update_where (\<lambda>r. pw_owner r = pw_owner row) (\<lambda>_. row) rows) =
      map_option (\<lambda>r. if pw_owner r = pw_owner row then row else r) (find_row pw_owner k rows)"
    by (rule find_row_update) simp
  with Some show ?thesis
    by (auto simp: upsert_protection_def dest: find_row_SomeD split: option.splits)
       (cases "find_row pw_owner k rows", auto dest: find_row_SomeD)
qed

lemma replace_file_protection_safe:
  assumes "at_rest g"
  shows "tools.safe (\<lambda>_ h. at_rest h) (replace_file_protection max_utc scope expected rules) g"
proof -
  let ?ow = "scope_owner scope" and ?g = "g\<lparr>g_write := Some (scope_owner scope)\<rparr>"
  have "tool_move ?g w ?g (fst (case protection_update max_utc ?ow expected rules now w of
          Inl e \<Rightarrow> (w, Err e) | Inr row \<Rightarrow> (w\<lparr>tw_protection := upsert_protection row (tw_protection w)\<rparr>, Ok (F row))))"
    for now w and F :: "ProtectionRow \<Rightarrow> FileProtectionPolicy"
  proof (cases "protection_update max_utc ?ow expected rules now w")
    case (Inr row)
    note bound = protection_update_bound [OF Inr]
    show ?thesis unfolding Inr sum.case fst_conv
      by (rule move_owned_write [where P = "upsert_protection row (tw_protection w)" and F = "tw_preferences w" and ow = ?ow])
        (use assms bound in \<open>auto simp: at_rest_def find_row_upsert less_imp_le\<close>)
  qed (simp add: move_stay)
  then show ?thesis
    unfolding replace_file_protection_def
    by (auto simp: assms writing_def intro!: with_write_safe [where Q = "\<lambda>_ h. h = ?g"] safe_write exI [of _ ?g])
       (use assms in \<open>simp_all add: at_rest_def\<close>)
qed

section \<open>What a read teaches\<close>

text \<open>What a handler learns does not concern its claim and its gates.\<close>

definition learned :: "Ghost \<Rightarrow> Ghost \<Rightarrow> bool" where
  "learned g h \<longleftrightarrow> g_thread h = g_thread g \<and> g_claim h = g_claim g \<and> g_read h = g_read g \<and> g_write h = g_write g"

lemma learned_refl [simp]: "learned g g"
  by (simp add: learned_def)

lemma learned_trans: "learned g h \<Longrightarrow> learned h i \<Longrightarrow> learned g i"
  by (simp add: learned_def)

lemma move_learned:
  assumes "tool_own g w \<Longrightarrow> tool_own g' w" and "learned g g'"
  shows "tool_move g w g' w"
  by (rule move_learn) (use assms in \<open>auto simp: learned_def\<close>)

lemma get_session_learns:
  "tools.safe (\<lambda>r h. case r of Inl _ \<Rightarrow> h = g
      | Inr s \<Rightarrow> ss_id s = sid \<and> h = g\<lparr>g_session := Some (sid, scope_owner (ss_scope s))\<rparr>) (get_session sid) g"
  unfolding get_session_def
proof (rule safe_query)
  fix w assume own: "tool_own g w"
  show "\<exists>g'. tool_move g w g' w \<and> (case (case find_row ss_id sid (tw_sessions w) of None \<Rightarrow> Err SE_NotFound
      | Some session \<Rightarrow> if ss_status session \<noteq> Session_Deleted then Ok session else Err SE_NotFound) of Inl _ \<Rightarrow> g' = g
      | Inr s \<Rightarrow> ss_id s = sid \<and> g' = g\<lparr>g_session := Some (sid, scope_owner (ss_scope s))\<rparr>)"
  proof (cases "find_row ss_id sid (tw_sessions w)")
    case (Some s)
    then have "tool_move g w (g\<lparr>g_session := Some (sid, scope_owner (ss_scope s))\<rparr>) w"
      by (intro move_learned) (auto simp: learned_def tool_own_def session_owner_def)
    with Some move_stay show ?thesis by (auto dest: find_row_SomeD)
  qed (use move_stay in auto)
qed simp

lemma read_turn_learns:
  "tools.safe (\<lambda>r h. case r of Inl _ \<Rightarrow> h = g | Inr t \<Rightarrow> h = g\<lparr>g_turn := Some (tid, tn_started_at t)\<rparr>) (read_turn scope tid) g"
  unfolding read_turn_def
proof (rule safe_query)
  fix w assume own: "tool_own g w"
  show "\<exists>g'. tool_move g w g' w \<and> (case and_then (ok_or (find_row tn_id tid (tw_turns w)) SE_NotFound)
      (\<lambda>turn. and_then (ensure_actor_scope (tn_scope turn) scope) (\<lambda>_. Ok turn)) of Inl _ \<Rightarrow> g' = g
      | Inr t \<Rightarrow> g' = g\<lparr>g_turn := Some (tid, tn_started_at t)\<rparr>)"
  proof (cases "find_row tn_id tid (tw_turns w)")
    case (Some t)
    then have "tool_move g w (g\<lparr>g_turn := Some (tid, tn_started_at t)\<rparr>) w"
      by (intro move_learned) (auto simp: learned_def tool_own_def turn_started_def)
    with Some move_stay show ?thesis by (auto simp: and_then_def ok_or_def split: sum.splits)
  qed (use move_stay in \<open>auto simp: and_then_def ok_or_def\<close>)
qed simp

definition protection_passes :: "FileProtectionPolicy \<Rightarrow> Timestamp \<Rightarrow> ToolRequest \<Rightarrow> bool" where
  "protection_passes policy at r \<longleftrightarrow>
     \<not> (case fp_changed_at policy of None \<Rightarrow> False | Some changed \<Rightarrow> at \<le> changed) \<and>
     \<not> (fp_rules policy \<noteq> [] \<and> \<not> safe_protected_tool (tr_tool r))"

lemma file_protection_learns:
  assumes "g_read g = Some (scope_owner (tr_scope r))" and "g_turn g = Some (tr_turn_id r, at)"
  shows "tools.safe (\<lambda>x h. case x of Inl _ \<Rightarrow> h = g
      | Inr policy \<Rightarrow> h = (if protection_passes policy at r then g\<lparr>g_checked := Some r\<rparr> else g)) (file_protection (tr_scope r)) g"
  unfolding file_protection_def
proof (rule safe_query)
  fix w assume "tool_own g w"
  let ?row = "find_row pw_owner (scope_owner (tr_scope r)) (tw_protection w)"
  have learn: "tool_move g w (g\<lparr>g_checked := Some r\<rparr>) w" if "protection_allows w r"
    by (intro move_learned) (use that assms(1) in \<open>auto simp: learned_def tool_own_def\<close>)
  from assms(2) \<open>tool_own g w\<close> have "turn_started w (tr_turn_id r) at" by (simp add: tool_own_def)
  then obtain t where t: "find_row tn_id (tr_turn_id r) (tw_turns w) = Some t" "tn_started_at t = at"
    by (auto simp: turn_started_def)
  show "\<exists>g'. tool_move g w g' w \<and> (case (case ?row of None \<Rightarrow> Ok FileProtectionPolicy_default
      | Some row \<Rightarrow> if pw_revision row < 0 then Err (SE_InvalidData ''invalid file protection revision'')
         else Ok \<lparr>fp_revision = word_of_int (pw_revision row), fp_changed_at = Some (pw_changed_at row), fp_rules = pw_rules row\<rparr>)
      of Inl _ \<Rightarrow> g' = g | Inr policy \<Rightarrow> g' = (if protection_passes policy at r then g\<lparr>g_checked := Some r\<rparr> else g))"
  proof (cases ?row)
    case None
    with t have "protection_allows w r" by (simp add: protection_allows_def)
    with learn None move_stay show ?thesis by auto
  next
    case (Some row)
    have "protection_allows w r" if "protection_passes \<lparr>fp_revision = word_of_int (pw_revision row),
        fp_changed_at = Some (pw_changed_at row), fp_rules = pw_rules row\<rparr> at r"
      using that t Some by (auto simp: protection_passes_def protection_allows_def)
    with learn Some move_stay show ?thesis by auto
  qed
qed simp

definition full_preferences :: "SessionPreferences \<Rightarrow> bool" where
  "full_preferences p \<longleftrightarrow> sp_permission_mode p = Perm_Full \<and> sp_locked_reason p = None \<and> sp_source p = ''session''"

lemma preferences_query_learns:
  assumes "g_session g = Some (sid, ow)" and "g_read g = Some ow"
  shows "tools.safe (\<lambda>x h. case x of Inl _ \<Rightarrow> h = g
      | Inr p \<Rightarrow> h = (if full_preferences p then g\<lparr>g_full := Some sid\<rparr> else g))
    (db_query (\<lambda>w. stored_preferences session sid (find_row pf_session_id sid (tw_preferences w)))) g"
proof (rule safe_query)
  fix w assume own: "tool_own g w"
  let ?r = "stored_preferences session sid (find_row pf_session_id sid (tw_preferences w))"
  have owner: "session_owner w sid ow" using own assms(1) unfolding tool_own_def by blast
  have learn: "tool_move g w (g\<lparr>g_full := Some sid\<rparr>) w" if "full_choice w sid"
    by (rule move_learned) (use that assms(2) owner in \<open>auto simp: learned_def tool_own_def simp del: split_paired_All split_paired_Ex\<close>)
  have "full_choice w sid" if "?r = Inr p" "full_preferences p" for p
  proof (cases "find_row pf_session_id sid (tw_preferences w)")
    case (Some row)
    with that show ?thesis
      by (auto simp: full_choice_def full_preferences_def and_then_def stored_preferences_def split: sum.splits if_splits)
  qed (use that in \<open>auto simp: full_preferences_def stored_preferences_def\<close>)
  with learn move_stay show "\<exists>g'. tool_move g w g' w \<and> (case ?r of Inl _ \<Rightarrow> g' = g
      | Inr p \<Rightarrow> g' = (if full_preferences p then g\<lparr>g_full := Some sid\<rparr> else g))"
    by (cases ?r) auto
qed simp

lemma ensure_scope_owner: "ensure_actor_scope expected actual = Inr u \<Longrightarrow> scope_owner expected = scope_owner actual"
  by (simp add: ensure_actor_scope_def ensure_team_scope_def and_then_def scope_owner_def split: if_splits)

lemma get_session_preferences_learns:
  assumes "g_read g = Some (scope_owner scope)"
  shows "tools.safe (\<lambda>x h. learned g h \<and> g_checked h = g_checked g \<and>
      (\<forall>p. x = Inr p \<longrightarrow> full_preferences p \<longrightarrow> g_full h = Some sid)) (get_session_preferences scope sid) g"
  unfolding get_session_preferences_def
proof (rule tools.safe_try [OF get_session_learns], goal_cases)
  case (1 s g')
  then have g': "g' = g\<lparr>g_session := Some (sid, scope_owner (ss_scope s))\<rparr>" by simp
  show ?case
  proof (cases "ensure_actor_session_scope s scope")
    case (Inr u)
    then have "scope_owner (ss_scope s) = scope_owner scope"
      unfolding ensure_actor_session_scope_def by (rule ensure_scope_owner)
    with assms show ?thesis unfolding Inr try_ret sum.case
      by (intro tools.safe_mono [OF preferences_query_learns [where ow = "scope_owner scope"]])
        (auto simp: g' learned_def split: sum.splits if_splits)
  qed (simp add: g' learned_def)
qed (simp add: learned_def)

end
