(* ===== verification/Tool_Programs.thy ===== *)
theory Tool_Programs
  imports Tool_Handlers
begin

text \<open>
  The programs of the execution service and of the daemon are safe clients of the shared world: whatever
  they are interleaved with, each of their steps is a move of what they own.
\<close>

section \<open>Preferences\<close>

lemma find_row_preferences:
  "sid \<noteq> pf_session_id row \<Longrightarrow>
   find_row pf_session_id sid (upsert_preferences row rows) = find_row pf_session_id sid rows"
proof (cases "find_row pf_session_id (pf_session_id row) rows")
  case (Some r)
  moreover have "find_row pf_session_id sid (update_where (\<lambda>r. pf_session_id r = pf_session_id row) f rows) =
      map_option (\<lambda>r. if pf_session_id r = pf_session_id row then f r else r) (find_row pf_session_id sid rows)"
    if "\<And>r. pf_session_id (f r) = pf_session_id row" for f
    by (rule find_row_update) (simp add: that)
  ultimately show "sid \<noteq> pf_session_id row \<Longrightarrow> ?thesis"
    by (cases "find_row pf_session_id sid rows") (auto simp: upsert_preferences_def dest: find_row_SomeD)
qed (simp add: upsert_preferences_def find_row_append split: option.splits)

lemma write_preferences_stays:
  assumes "g_session g = Some (sid, ow)" and "writing ow g" and "\<And>i. pf_session_id (row i) = sid"
  shows "tools.safe (\<lambda>_ h. h = g)
    (db_write (\<lambda>i w. (w\<lparr>tw_preferences := upsert_preferences (row i) (tw_preferences w)\<rparr>, Ok ()))) g"
proof (rule safe_write)
  fix i :: StepInput and w assume own: "tool_own g w"
  have "session_owner w sid ow" using own assms(1) unfolding tool_own_def by blast
  then have "tool_move g w g (w\<lparr>tw_preferences := upsert_preferences (row i) (tw_preferences w)\<rparr>)"
    using assms(2,3)
    by (intro move_owned_write [where P = "tw_protection w" and F = "upsert_preferences (row i) (tw_preferences w)" and ow = ow])
      (auto simp: writing_def session_owner_def intro!: find_row_preferences)
  then show "\<exists>g'. tool_move g w g' (fst (w\<lparr>tw_preferences := upsert_preferences (row i) (tw_preferences w)\<rparr>, Ok ())) \<and>
      g' = g \<and> (\<forall>e. g' = g)"
    by simp
qed simp

lemma update_session_preferences_safe:
  assumes "at_rest g"
  shows "tools.safe (\<lambda>_ h. at_rest h) (update_session_preferences sid input) g"
proof -
  let ?ow = "scope_owner (up_scope input)"
  let ?Q = "\<lambda>_ h. writing ?ow h"
  let ?g = "g\<lparr>g_write := Some ?ow\<rparr>"
  have w: "writing ?ow ?g" using assms by (simp add: writing_def at_rest_def)
  show ?thesis
    unfolding update_session_preferences_def
  proof (rule with_write_safe [OF assms, where Q = ?Q], rule tools.safe_try [OF get_session_learns], goal_cases)
    case (1 s h)
    then have h: "h = ?g\<lparr>g_session := Some (sid, scope_owner (ss_scope s))\<rparr>" by simp
    then have wh: "writing ?ow h" using w by (simp add: writing_def)
    show ?case
    proof (cases "ensure_actor_session_scope s (up_scope input)")
      case (Inl e)
      with wh show ?thesis by simp
    next
      case (Inr u)
      then have "scope_owner (ss_scope s) = ?ow" unfolding ensure_actor_session_scope_def by (rule ensure_scope_owner)
      with h have hs: "g_session h = Some (sid, ?ow)" by simp
      show ?thesis unfolding Inr try_ret sum.case
        by (rule tools.safe_mono [where Q = "\<lambda>_ h'. h' = h"])
          (auto simp: Let_def wh intro!: stays write_preferences_stays [OF hs wh] split: option.splits)
    qed
  qed (use w in auto)
qed

section \<open>Checks under the read gate\<close>

lemma check_file_protection_learns:
  assumes "g_read g = Some (scope_owner (tr_scope r))"
  shows "tools.safe (\<lambda>x h. learned g h \<and> (\<forall>p. x = Inr p \<longrightarrow> g_checked h = Some r)) (check_file_protection r) g"
  unfolding check_file_protection_def
proof (rule tools.safe_try [OF lift_db_stays [OF get_session_stays]], goal_cases)
  case (1 s g1)
  show ?case
  proof (rule tools.safe_try [OF lift_db_safe [OF read_turn_learns, where
        R = "\<lambda>x h. case x of Inl _ \<Rightarrow> h = g | Inr t \<Rightarrow> h = g\<lparr>g_turn := Some (tr_turn_id r, tn_started_at t)\<rparr>"]], goal_cases)
    case (3 t h)
    then have h: "h = g\<lparr>g_turn := Some (tr_turn_id r, tn_started_at t)\<rparr>" by simp
    have "tools.safe (\<lambda>x h'. learned g h' \<and> (\<forall>p. x = Inr p \<longrightarrow> protection_passes p (tn_started_at t) r \<longrightarrow> g_checked h' = Some r))
        (lift_db (file_protection (tr_scope r))) h"
      by (rule lift_db_safe [OF file_protection_learns [where r = r and at = "tn_started_at t"]])
        (use assms in \<open>auto simp: h learned_def\<close>)
    then have "tools.safe (\<lambda>x h'. learned g h' \<and> (\<forall>p. x = Inr p \<longrightarrow> g_checked h' = Some r))
        (try_prog (lift_db (file_protection (tr_scope r))) (\<lambda>policy.
          if (case fp_changed_at policy of None \<Rightarrow> False | Some changed \<Rightarrow> tn_started_at t \<le> changed)
          then Ret (Err (EE_Arguments ''file protection changed; start a new turn before using tools''))
          else if fp_rules policy \<noteq> [] \<and> \<not> safe_protected_tool (tr_tool r) then Ret (Err (EE_Tool TE_Protected))
          else Ret (Ok policy))) h"
      by (rule tools.safe_try) (auto simp: protection_passes_def split: option.splits)
    then show ?case by (auto simp: h learned_def)
  qed (use 1 in \<open>auto simp: learned_def\<close>)
qed simp

lemma full_access_learns:
  assumes "g_read g = Some (scope_owner (tr_scope r))"
  shows "tools.safe (\<lambda>x h. learned g h \<and> g_checked h = g_checked g \<and> (x = Inr True \<longrightarrow> g_full h = Some (tr_session_id r)))
    (full_access_for_request svc r) g"
  unfolding full_access_for_request_def
proof (rule tools.safe_try [OF lift_db_safe [OF get_session_preferences_learns [OF assms], where
      R = "\<lambda>x h. learned g h \<and> g_checked h = g_checked g \<and> (\<forall>p. x = Inr p \<longrightarrow> full_preferences p \<longrightarrow> g_full h = Some (tr_session_id r))"]],
    goal_cases)
  case (3 p h)
  show ?case
  proof (cases "full_preferences p")
    case True
    with 3 have h: "learned g h" "g_checked h = g_checked g" "g_full h = Some (tr_session_id r)" by auto
    show ?thesis
      by (rule tools.safe_mono [where Q = "\<lambda>_ h'. h' = h"])
        (auto simp: h full_access_locked_reason_def intro!: stays split: option.splits)
  next
    case False
    show ?thesis
    proof (rule tools.safe_mono [OF tools.safe_returns [where Q = "\<lambda>_ h'. h' = h" and P = "\<lambda>x. x \<noteq> Inr True"]])
      show "returns (\<lambda>x. x \<noteq> Inr True) (if sp_permission_mode p \<noteq> Perm_Full then Ret (Ok False) else
          try_prog (lift_db (get_session (tr_session_id r))) (\<lambda>session.
          try_prog (lift_db (read_turn (tr_scope r) (tr_turn_id r))) (\<lambda>turn.
          if ss_mode session = Mode_Chat \<or> tn_session_id turn \<noteq> ss_id session \<or> is_terminal (tn_status turn)
          then Ret (Err (EE_Arguments ''Full access requires an owned Work session and turn''))
          else if sp_locked_reason p \<noteq> None \<or> sp_source p \<noteq> ''session''
          then Ret (Err (EE_Arguments ''Full access requires an unlocked explicit session choice''))
          else F session turn)))" for F
        using False by (auto simp: full_preferences_def intro!: returns_try [where Q = "\<lambda>_. True"])
    qed (use 3 in \<open>auto simp: full_access_locked_reason_def intro!: stays split: option.splits\<close>)
  qed
qed auto

section \<open>Execution\<close>

lemma justified_same: "same_work r r' \<Longrightarrow> justified w r \<Longrightarrow> justified w r'"
proof -
  assume same: "same_work r r'" and "justified w r"
  then obtain q p where q: "(q, p) \<in> set (call_facts w)" "same_work r q"
    "pr_decision p = Allow \<or> pr_decision p = Ask \<and> approved_call (tw_approvals w) (tr_id r)"
    by (auto simp: justified_def)
  have "same_work r' q" using same_work_trans [OF same_work_sym [OF same] q(2)] .
  with q same_work_id [OF same] show ?thesis unfolding justified_def by (intro bexI [of _ "(q, p)"]) auto
qed

definition may_run :: "Ghost \<Rightarrow> ToolCall \<Rightarrow> bool" where
  "may_run g call \<longleftrightarrow> (\<exists>r. g_claim g = Run_Call r \<and> same_work r (tc_request call))"

lemma run_tool_safe:
  assumes "may_run g call" and "g_checked g = Some (tc_request call)"
    and "pr_policy_id (tc_policy call) = ''session-full-access'' \<and> tr_tool (tc_request call) \<noteq> ''pdf_view'' \<longrightarrow>
      g_full g = Some (tr_session_id (tc_request call))"
  shows "tools.safe (\<lambda>_ h. h = g\<lparr>g_claim := No_Claim\<rparr>) (run_tool call) g"
  unfolding run_tool_def
proof (rule safe_free)
  fix i :: StepInput and w
  assume "tool_inv w" and own: "tool_own g w"
  let ?w = "w\<lparr>tw_history := Ev_Dispatched call # tw_history w\<rparr>"
  from assms(1) obtain r where r: "g_claim g = Run_Call r" "same_work r (tc_request call)" by (auto simp: may_run_def)
  have ok: "justified w r" "not_started w (tr_id r)" using own r(1) by (simp_all add: tool_own_def)
  have ident: "call_id call = tr_id r" using same_work_id [OF r(2)] by (simp add: call_id_def)
  have f: "call_facts ?w = call_facts w" by (simp add: call_facts_def)
  have just: "justified ?w q \<longleftrightarrow> justified w q" for q by (simp add: justified_def f)
  have "tool_move g w (g\<lparr>g_claim := No_Claim\<rparr>) ?w"
  proof (rule claims_move)
    fix d assume "claim_ok d w" "claim_calls (g_claim g) \<inter> claim_calls d = {}"
    then show "claim_ok d ?w \<and> claim_calls No_Claim \<inter> claim_calls d = {}"
      using r(1) ident by (cases d) (auto simp: just f not_started_def)
  next
    assume "tool_inv w"
    then show "rows_ok ?w \<and> web_ok ?w \<and> history_ok ?w \<and> claim_ok No_Claim ?w"
      using ok ident justified_same [OF r(2) ok(1)]
      by (auto simp: tool_inv_def rows_ok_def web_ok_def history_ok_def just f not_started_def)
  next
    fix c assume "tw_history ?w = Ev_Dispatched c # tw_history w"
    moreover have "protection_allows w (tc_request call)" using own assms(2) unfolding tool_own_def by blast
    moreover have "full_choice w (tr_session_id (tc_request call))"
      if "pr_policy_id (tc_policy call) = ''session-full-access''" "tr_tool (tc_request call) \<noteq> ''pdf_view''"
      using own assms(3) that unfolding tool_own_def by blast
    ultimately show "start_ok w c" using ok ident justified_same [OF r(2) ok(1)] by (auto simp: start_ok_def)
  qed auto
  then show "\<exists>g'. tool_move g w g' ?w \<and> tools.safe (\<lambda>_ h. h = g\<lparr>g_claim := No_Claim\<rparr>) (Ret (si_result i)) g'" by auto
qed

lemma dispatch_safe:
  assumes "may_run g call" and "g_checked g = Some (tc_request call)"
    and read: "g_read g = Some (scope_owner (tr_scope (tc_request call)))"
  shows "tools.safe (\<lambda>_ h. g_thread h = g_thread g \<and> g_read h = g_read g \<and> g_write h = g_write g) (dispatch svc call) g"
  unfolding dispatch_def
proof (rule tools.safe_try [OF lift_db_stays [OF get_session_stays]], goal_cases)
  case (1 s h)
  show ?case unfolding 1(1)
  proof (rule tools.safe_try [OF full_access_learns [OF read]], goal_cases)
    case (1 full h)
    show ?case
    proof (cases "pr_policy_id (tc_policy call) = ''session-full-access'' \<and> \<not> full")
      case False
      with 1 assms have "tools.safe (\<lambda>_ h'. h' = h\<lparr>g_claim := No_Claim\<rparr>) (run_tool call) h"
        by (intro run_tool_safe) (auto simp: may_run_def learned_def)
      then have "tools.safe (\<lambda>_ h'. h' = h\<lparr>g_claim := No_Claim\<rparr>) (try_prog (run_tool call) (\<lambda>(value, _). Ret (Ok value))) h"
        by (rule tools.safe_try) (auto split: prod.splits)
      then show ?thesis unfolding if_not_P [OF False]
        by (rule tools.safe_mono) (use 1 in \<open>auto simp: learned_def\<close>)
    qed (use 1 in \<open>auto simp: learned_def\<close>)
  qed (auto simp: learned_def)
qed simp

lemma execute_safe:
  assumes rest: "at_rest g" and run: "may_run g call"
  shows "tools.safe (\<lambda>_ h. at_rest h) (execute svc call) g"
proof -
  let ?r = "tc_request call"
  let ?ow = "scope_owner (tr_scope ?r)"
  let ?g = "g\<lparr>g_read := Some ?ow\<rparr>"
  let ?Q = "\<lambda>_ h. g_thread h = g_thread g \<and> reading ?ow h"
  have g: "g_read ?g = Some ?ow" "may_run ?g call" "g_write ?g = None"
    using rest run by (simp_all add: may_run_def at_rest_def)
  have body: "tools.safe ?Q (try_prog (check_file_protection ?r) (\<lambda>protection.
        if tr_tool ?r = ''pdf_view'' then run_tool call
        else try_prog (dispatch svc call) (\<lambda>value. Ret (Ok (value, None))))) ?g"
  proof (rule tools.safe_try [OF check_file_protection_learns [OF g(1)]], goal_cases)
    case (1 p h)
    then have h: "may_run h call" "g_checked h = Some ?r" "g_read h = Some ?ow" "g_write h = None" "g_thread h = g_thread g"
      using g by (auto simp: learned_def may_run_def)
    show ?case
    proof (cases "tr_tool ?r = ''pdf_view''")
      case True
      have "tools.safe (\<lambda>_ h'. h' = h\<lparr>g_claim := No_Claim\<rparr>) (run_tool call) h"
        by (rule run_tool_safe) (use h True in auto)
      then show ?thesis unfolding if_P [OF True]
        by (rule tools.safe_mono) (use h in \<open>auto simp: reading_def\<close>)
    next
      case False
      have "tools.safe ?Q (dispatch svc call) h"
        by (rule tools.safe_mono [OF dispatch_safe]) (use h in \<open>auto simp: reading_def\<close>)
      then show ?thesis unfolding if_not_P [OF False] by (rule tools.safe_try) auto
    qed
  qed (use g in \<open>auto simp: learned_def reading_def\<close>)
  show ?thesis
    unfolding execute_def Let_def
  proof (rule with_read_safe [OF rest, where Q = ?Q], rule tools.safe_bind [OF body], goal_cases)
    case (1 result h)
    show ?case
    proof (rule tools.safe_mono [where Q = "\<lambda>_ h'. h' = h"])
      show "g_thread h' = g_thread g \<and> reading ?ow h'" if "h' = h" for h' using that 1 by simp
    qed (auto intro!: stays split: sum.splits option.splits prod.splits)
  qed auto
qed

end
