(* ===== verification/Tool_Clients.thy ===== *)
theory Tool_Clients
  imports Tool_Programs
begin

text \<open>
  The clients of the execution service: submission with and without approval, the decision of an approval,
  and Code Mode.  Each passes a claim from the creation of a call to its start.
\<close>

section \<open>Policy evaluation\<close>

text \<open>What policy evaluation guarantees in every interleaving: a local denial stays, the tools that open
  a public address are never allowed without an approval, and nothing but a policy that allows the tool,
  an exception or the session's own grant allows a request.\<close>

definition by_bundle :: "ToolRequest \<Rightarrow> PolicyResult \<Rightarrow> bool" where
  "by_bundle request policy \<longleftrightarrow> (\<exists>bundle. policy = evaluate bundle request)"

lemma by_bundle_evaluate [simp]: "by_bundle request (evaluate bundle request)"
  by (auto simp: by_bundle_def)

definition grant_reason :: "ToolRequest \<Rightarrow> PolicyResult \<Rightarrow> bool" where
  "grant_reason request policy \<longleftrightarrow>
     by_bundle request policy \<or>
     (\<exists>e. policy = exception_result e) \<or>
     (\<exists>p. policy = full_access_result p) \<and> tr_tool request \<in> {''apply_patch'', ''run_command''}"

definition policy_ok :: "ExecutionService \<Rightarrow> ToolRequest \<Rightarrow> PolicyResult \<Rightarrow> bool" where
  "policy_ok svc request policy \<longleftrightarrow>
     (pr_decision (evaluate (ex_policy svc) request) = Deny \<longrightarrow> policy = evaluate (ex_policy svc) request) \<and>
     (requires_exact_public_url_approval (tr_tool request) \<longrightarrow> pr_decision policy \<noteq> Allow) \<and>
     (pr_decision policy = Allow \<longrightarrow> grant_reason request policy)"

lemma returns_lift_db: "returns (\<lambda>_. True) (lift_db p)"
  by simp

lemma returns_step [simp]: "returns P (ask_env f) \<longleftrightarrow> (\<forall>i. P (f i))"
  by (simp add: ask_env_def free_step_def)

lemma returns_try_any:
  assumes "\<And>x. returns P (k x)" and "\<And>e. P (Inl e)"
  shows "returns P (try_prog p k)"
  by (rule returns_try [where Q = "\<lambda>_. True"]) (use assms in auto)

lemma returns_bind_any:
  assumes "\<And>x. returns P (k x)"
  shows "returns P (bind_prog p k)"
  by (rule returns_bind [where Q = "\<lambda>_. True"]) (use assms in auto)

definition base_policy :: "ExecutionService \<Rightarrow> ToolRequest \<Rightarrow> PolicyResult \<Rightarrow> bool" where
  "base_policy svc request policy \<longleftrightarrow>
     (if pr_decision (evaluate (ex_policy svc) request) = Deny then policy = evaluate (ex_policy svc) request
      else policy = outside_validity_result \<or> by_bundle request policy)"

lemma central_policy_base:
  "central_policy svc request envelope now = (p, m) \<Longrightarrow> p = outside_validity_result \<or> by_bundle request p"
  by (auto simp: central_policy_def Let_def split: if_splits)

definition asked_policy :: "PolicyResult \<Rightarrow> PolicyResult \<Rightarrow> bool" where
  "asked_policy policy q \<longleftrightarrow> q = policy \<or> pr_decision policy = Ask \<and> (\<exists>e. q = exception_result e)"

lemma final_policy_ok:
  assumes "base_policy svc request policy" and "asked_policy policy q"
  shows "policy_ok svc request (final_policy request full q)"
proof (cases "pr_decision (evaluate (ex_policy svc) request) = Deny")
  case True
  with assms show ?thesis
    by (auto simp: base_policy_def asked_policy_def final_policy_def policy_ok_def grant_reason_def)
next
  case False
  then have "q = outside_validity_result \<or> by_bundle request q \<or> (\<exists>e. q = exception_result e)"
    using assms by (auto simp: base_policy_def asked_policy_def)
  with False show ?thesis
    by (auto simp: final_policy_def policy_ok_def grant_reason_def Let_def web_destination_result_def
        outside_validity_result_def full_access_result_def split: if_splits)
qed

lemma evaluate_policy_returns:
  "returns (\<lambda>x. \<forall>policy metadata. x = Inr (policy, metadata) \<longrightarrow> policy_ok svc request policy) (evaluate_policy svc request uri)"
  unfolding evaluate_policy_def Let_def
proof (rule returns_try [where Q = "\<lambda>x. \<forall>p m. x = Inr (p, m) \<longrightarrow> base_policy svc request p"], goal_cases)
  case 1
  show ?case
    by (auto simp: base_policy_def intro!: returns_try_any returns_bind_any split: option.splits)
      (metis central_policy_base)
next
  case (2 x)
  obtain policy metadata where x: "x = (policy, metadata)" by (cases x)
  with 2 have base: "base_policy svc request policy" by simp
  show ?case unfolding x prod.case
  proof (rule returns_try [where Q = "\<lambda>y. \<forall>q. y = Inr q \<longrightarrow> asked_policy policy q"], goal_cases)
    case 1
    show ?case by (auto simp: asked_policy_def intro!: returns_try_any returns_bind_any split: option.splits)
  next
    case (2 q)
    then have "policy_ok svc request (final_policy request full q)" for full using final_policy_ok [OF base] by simp
    then show ?case by (intro returns_try_any) simp_all
  qed simp
qed simp

definition prepared_ok :: "ExecutionService \<Rightarrow> PreparedToolCall \<Rightarrow> bool" where
  "prepared_ok svc p \<longleftrightarrow> policy_ok svc (pt_request p) (pt_policy p)"

lemma with_read_returns: "returns P p \<Longrightarrow> returns P (with_read ow p)"
  unfolding with_read_def
  by (rule returns_bind_any, rule returns_bind [where Q = P]) (auto intro: returns_bind_any)

lemma preflight_returns:
  "returns (\<lambda>x. \<forall>p. x = Inr p \<longrightarrow> prepared_ok svc p \<and> tr_tool (pt_request p) = sub_tool input)
     (preflight_for_turn svc session_id turn_id input)"
  unfolding preflight_for_turn_def
  by (auto simp: Let_def prepared_ok_def intro!: returns_try_any returns_bind_any with_read_returns
      returns_try [OF evaluate_policy_returns] split: sum.splits)

lemma full_access_stays [stays]: "tools.safe (\<lambda>_ h. h = g) (full_access_for_request svc r) g"
  unfolding full_access_for_request_def full_access_locked_reason_def
  by (auto intro!: stays split: option.splits)

lemma check_file_protection_stays [stays]: "tools.safe (\<lambda>_ h. h = g) (check_file_protection r) g"
  unfolding check_file_protection_def by (intro stays)

lemma evaluate_policy_stays [stays]: "tools.safe (\<lambda>_ h. h = g) (evaluate_policy svc r uri) g"
  unfolding evaluate_policy_def Let_def by (auto intro!: stays split: option.splits prod.splits)

lemma with_read_stays [stays]:
  assumes "at_rest g" and "tools.safe (\<lambda>_ h. h = g\<lparr>g_read := Some ow\<rparr>) p (g\<lparr>g_read := Some ow\<rparr>)"
  shows "tools.safe (\<lambda>_ h. h = g) (with_read ow p) g"
  by (rule with_read_safe [OF assms]) (use assms(1) in \<open>auto simp: reading_def at_rest_def release_ghost_def\<close>)

lemma preflight_stays:
  assumes "at_rest g"
  shows "tools.safe (\<lambda>x h. h = g \<and> (\<forall>p. x = Inr p \<longrightarrow> prepared_ok svc p \<and> tr_tool (pt_request p) = sub_tool input))
    (preflight_for_turn svc session_id turn_id input) g"
proof (rule tools.safe_returns [OF _ preflight_returns])
  show "tools.safe (\<lambda>_ h. h = g) (preflight_for_turn svc session_id turn_id input) g"
    unfolding preflight_for_turn_def
    by (auto simp: Let_def assms intro!: stays split: sum.splits prod.splits)
qed

section \<open>Creating calls and approvals\<close>

definition claimed :: "Ghost \<Rightarrow> Ghost \<Rightarrow> bool" where
  "claimed g h \<longleftrightarrow> (\<exists>c. h = g\<lparr>g_claim := c\<rparr>)"

lemma claimed_refl [simp]: "claimed g g"
  by (simp add: claimed_def exI [of _ "g_claim g"])

lemma claimed_update [simp]: "claimed g (g\<lparr>g_claim := c\<rparr>)"
  by (auto simp: claimed_def)

lemma claimed_trans: "claimed g h \<Longrightarrow> claimed h i \<Longrightarrow> claimed g i"
  by (auto simp: claimed_def)

lemma at_rest_claimed: "at_rest g \<Longrightarrow> claimed g h \<Longrightarrow> at_rest h"
  by (auto simp: claimed_def)

lemma stored_call_facts [simp]:
  "tc_request (stored_call call) = (tc_request call)\<lparr>tr_created_at := tc_created_at call\<rparr>"
  "pr_decision (tc_policy (stored_call call)) = pr_decision (tc_policy call)"
  by (simp_all add: stored_call_def stored_policy_def)

lemma scoped_safe:
  assumes "tools.safe Q p g" and "\<And>e. Q (Inl e) g"
  shows "tools.safe Q (try_prog (get_session s) (\<lambda>session. try_prog (Ret (f session)) (\<lambda>_. p))) g"
  by (rule tools.safe_try [OF get_session_stays]) (use assms in \<open>auto split: sum.splits\<close>)

lemma create_tool_call_safe:
  assumes "g_claim g = No_Claim"
    and "requires_exact_public_url_approval (tr_tool request) \<longrightarrow> pr_decision policy \<noteq> Allow"
  shows "tools.safe (\<lambda>x h. claimed g h \<and> (\<forall>call. x = Inr call \<longrightarrow>
      tc_request call = request \<and> h = g\<lparr>g_claim := call_claim request (pr_decision policy)\<rparr>))
    (create_tool_call request policy metadata status) g"
proof -
  let ?call = "\<lambda>i. \<lparr>tc_request = request, tc_policy = policy,
      tc_simulated_policy = pm_simulated_policy metadata, tc_central_policy_applied = pm_central_policy_applied metadata,
      tc_team_configuration_sequence = pm_team_configuration_sequence metadata, tc_status = status, tc_result = None,
      tc_error = None, tc_created_at = si_now i, tc_updated_at = si_now i\<rparr>"
  let ?Q = "\<lambda>x h. claimed g h \<and> (\<forall>call. x = Inr call \<longrightarrow>
      tc_request call = request \<and> h = g\<lparr>g_claim := call_claim request (pr_decision policy)\<rparr>)"
  let ?g = "g\<lparr>g_claim := call_claim request (pr_decision policy)\<rparr>"
  have new: "tool_move g w ?g (w\<lparr>tw_calls := tw_calls w @ [stored_call (?call i)]\<rparr>)"
    if "find_row call_id (tr_id request) (tw_calls w) = None" for i :: StepInput and w
    using move_insert_call [OF assms(1), of request w "stored_call (?call i)"] find_row_NoneD [OF that] assms(2)
    by (auto simp: call_facts_def call_id_def image_iff)
  show ?thesis
    unfolding create_tool_call_def Let_def
  proof (rule scoped_safe, rule safe_write, goal_cases)
    case (1 i w)
    show ?case
      using new [of w i] move_stay [of g w]
      by (cases "find_row call_id (tr_id request) (tw_calls w)") (auto intro: exI [of _ g] exI [of _ ?g])
  qed simp_all
qed

lemma insert_approval_safe:
  assumes claim: "g_claim g = Fresh r Ask"
    and a: "\<And>i. apr_tool_call_id (a i) = tr_id r" "\<And>i. apr_scope (a i) = tr_scope r"
    and c: "(\<forall>i. apr_status (a i) = Approval_Pending) \<and> c = No_Claim \<or>
      (\<forall>i. apr_status (a i) = Approval_Approved) \<and> c = Run_Call r \<and> \<not> requires_exact_public_url_approval (tr_tool r)"
  shows "tools.safe (\<lambda>x h. claimed g h \<and> (\<forall>v. x = Inr v \<longrightarrow> h = g\<lparr>g_claim := c\<rparr>)) (db_write (\<lambda>i w. insert_approval (a i) w)) g"
proof (rule safe_write, goal_cases)
  case (1 i w)
  let ?g = "g\<lparr>g_claim := c\<rparr>"
  have "tool_move g w ?g (w\<lparr>tw_approvals := tw_approvals w @ [a i]\<rparr>)"
    if "find_row apr_id (apr_id (a i)) (tw_approvals w) = None"
    by (rule move_insert_approval [OF claim]) (use a c find_row_NoneD [OF that] in auto)
  then show ?case
    using move_stay [of g w] unfolding insert_approval_def by (auto intro: exI [of _ g] exI [of _ ?g])
qed simp

lemma create_approval_safe:
  assumes "g_claim g = Fresh (tc_request call) Ask"
  shows "tools.safe (\<lambda>_ h. claimed g h) (create_approval call) g"
  unfolding create_approval_def
  by (rule tools.safe_mono [OF insert_approval_safe [OF assms, where c = No_Claim]]) (simp_all add: call_id_def)

lemma create_automatic_approval_safe:
  assumes "g_claim g = Fresh (tc_request call) Ask" and "\<not> requires_exact_public_url_approval (tr_tool (tc_request call))"
  shows "tools.safe (\<lambda>x h. claimed g h \<and> (\<forall>a. x = Inr a \<longrightarrow> may_run h call)) (create_automatic_approval call) g"
  unfolding create_automatic_approval_def
  by (rule tools.safe_mono [OF insert_approval_safe [OF assms(1), where c = "Run_Call (tc_request call)"]])
    (use assms(2) in \<open>simp_all add: call_id_def may_run_def\<close>)

lemma get_tool_call_claim:
  assumes "g_claim g = Run_Call r" and "c = tr_id r"
  shows "tools.safe (\<lambda>x h. h = g \<and> (\<forall>call. x = Inr call \<longrightarrow> may_run h call)) (get_tool_call c) g"
  unfolding get_tool_call_def
proof (rule safe_query, goal_cases)
  case (1 w)
  then have rows: "rows_ok w" and "justified w r" using assms(1) by (simp_all add: tool_inv_def tool_own_def)
  then obtain r' p where row: "(r', p) \<in> set (call_facts w)" "same_work r r'" by (auto simp: justified_def)
  have "same_work r (tc_request call)" if "find_row call_id c (tw_calls w) = Some call" for call
  proof -
    have "(tc_request call, tc_policy call) \<in> set (call_facts w)" "tr_id (tc_request call) = tr_id r'"
      using find_row_SomeD [OF that] assms(2) same_work_id [OF row(2)] by (auto simp: call_facts_def call_id_def)
    with call_unique(1) [OF rows this(1) row(1)] row(2) show ?thesis by simp
  qed
  then show ?case
    using assms(1) move_stay [of g w] by (cases "find_row call_id c (tw_calls w)") (auto simp: ok_or_def may_run_def)
qed simp

lemma finish_tool_call_claim:
  assumes "g_claim g = Run_Call r" and "c = tr_id r"
  shows "tools.safe (\<lambda>x h. h = g \<and> (\<forall>call. x = Inr call \<longrightarrow> may_run h call)) (finish_tool_call c status result error) g"
  unfolding finish_tool_call_def
proof (rule tools.safe_try [OF get_tool_call_stays], goal_cases)
  case (1 x h)
  show ?case unfolding 1(1)
  proof (rule tools.safe_try [where Q = "\<lambda>_ h. h = g"], goal_cases)
    case 1
    show ?case by (rule quiet_write_stays) (simp_all add: core_calls call_facts_def call_facts_update)
  next
    case (2 y h')
    then show ?case using get_tool_call_claim [OF assms] by simp
  qed simp
qed simp

text \<open>After the decision has been written the handler owns the call, or knows of the rejection.\<close>

definition decided_claim :: "Id \<Rightarrow> bool \<Rightarrow> Ghost \<Rightarrow> bool" where
  "decided_claim aid approved h \<longleftrightarrow> (if approved then \<exists>r. g_claim h = Granted aid r else g_claim h = Turned_Down aid)"

lemma decide_write_safe:
  fixes scope :: Scope
  assumes "g_claim g = No_Claim"
  shows "tools.safe (\<lambda>x h. claimed g h \<and> (\<forall>u. x = Inr u \<longrightarrow> decided_claim aid approved h)) (db_write (\<lambda>i w.
       let pending = (\<lambda>a. apr_id a = aid \<and> apr_status a = Approval_Pending) in
       if \<not> list_ex pending (tw_approvals w)
       then (w, Err (SE_InvalidState ''approval was resolved concurrently''))
       else (w\<lparr>tw_approvals := update_where pending
                 (\<lambda>a. a\<lparr>apr_status := (if approved then Approval_Approved else Approval_Rejected),
                       apr_approval_scope := ascope, apr_decided_at := Some (si_now i),
                       apr_decided_by := Some (sc_actor_id scope)\<rparr>) (tw_approvals w),
               tw_history := Ev_Resolved aid approved (sc_actor_id scope) # tw_history w\<rparr>, Ok ()))) g"
proof (rule safe_write, goal_cases)
  case (1 i w)
  have pend: "(\<lambda>a. apr_id a = aid \<and> apr_status a = Approval_Pending) = pending_row aid" by (simp add: fun_eq_iff pending_row_def)
  show ?case
  proof (cases "list_ex (pending_row aid) (tw_approvals w)")
    case True
    then obtain x where x: "x \<in> set (tw_approvals w)" "pending_row aid x" by (auto simp: list_ex_iff)
    from 1(1) x(1) obtain r p where "(r, p) \<in> set (call_facts w)" "tr_id r = apr_tool_call_id x" "pr_decision p = Ask"
      unfolding tool_inv_def rows_ok_def by blast
    from move_decide [OF assms x this refl, of approved scope ascope "si_now i"] True show ?thesis
      unfolding pend Let_def
      by (auto simp: decide_world_def decide_rows_def decide_def [abs_def] claimed_def decided_claim_def)
  qed (use move_stay [of g w] in \<open>auto simp: pend\<close>)
qed simp

lemma get_approval_decided:
  assumes h: "decided_claim aid approved h"
  shows "tools.safe (\<lambda>x h'. claimed h h' \<and> (\<forall>a. x = Inr a \<longrightarrow>
      (if approved then apr_status a = Approval_Approved \<and> (\<exists>r. g_claim h' = Run_Call r \<and> apr_tool_call_id a = tr_id r)
       else apr_status a = Approval_Rejected)))
    (get_approval aid) h"
  unfolding get_approval_def
proof (rule safe_query, goal_cases)
  case (1 w)
  have rows: "rows_ok w" and claim: "claim_ok (g_claim h) w" using 1 by (simp_all add: tool_inv_def tool_own_def)
  show ?case
  proof (cases "find_row apr_id aid (tw_approvals w)")
    case (Some y)
    note y = find_row_SomeD [OF Some]
    show ?thesis
    proof (cases approved)
      case True
      with h obtain r where r: "g_claim h = Granted aid r" by (auto simp: decided_claim_def)
      with claim obtain x where x: "x \<in> set (tw_approvals w)" "apr_id x = aid" "apr_tool_call_id x = tr_id r"
        "apr_status x = Approval_Approved" by auto
      have "y = x" using approval_unique [OF rows, of y x] x y by simp
      moreover have "tool_move h w (h\<lparr>g_claim := Run_Call r\<rparr>) w" by (rule move_learn) (use r in \<open>auto simp: tool_own_def\<close>)
      ultimately show ?thesis
        using True x Some by (auto simp: ok_or_def intro!: exI [of _ "h\<lparr>g_claim := Run_Call r\<rparr>"])
    next
      case False
      with h claim obtain x where x: "x \<in> set (tw_approvals w)" "apr_id x = aid" "apr_status x = Approval_Rejected"
        by (auto simp: decided_claim_def)
      have "y = x" using approval_unique [OF rows, of y x] x y by simp
      with False x Some move_stay [of h w] show ?thesis by (auto simp: ok_or_def)
    qed
  qed (use move_stay [of h w] in \<open>auto simp: ok_or_def\<close>)
qed simp

lemma resolve_approval_safe:
  assumes "g_claim g = No_Claim"
  shows "tools.safe (\<lambda>x h. claimed g h \<and> (\<forall>a. x = Inr a \<longrightarrow>
      (if approved then apr_status a = Approval_Approved \<and> (\<exists>r. g_claim h = Run_Call r \<and> apr_tool_call_id a = tr_id r)
       else apr_status a = Approval_Rejected)))
    (resolve_approval aid scope approved ascope) g"
  unfolding resolve_approval_def
proof (rule tools.safe_try [OF get_approval_stays], goal_cases)
  case (1 current g1)
  show ?case
    unfolding 1(1)
  proof (intro if_stays, goal_cases)
    case 3
    show ?case
    proof (rule tools.safe_try [OF decide_write_safe [OF assms]], goal_cases)
      case (1 u h)
      then show ?case by (intro tools.safe_mono [OF get_approval_decided]) (auto intro: claimed_trans)
    qed auto
  qed simp_all
qed simp

lemma authorize_write_safe:
  fixes request :: ToolRequest
  assumes claim: "g_claim g = Fresh r d" and ident: "tr_id request = tr_id r"
    and web: "requires_exact_public_url_approval (tr_tool r) \<longrightarrow> pr_decision policy \<noteq> Allow"
  defines "c \<equiv> (if pr_decision policy = Allow then Run_Call (r\<lparr>tr_arguments := tr_arguments request\<rparr>) else No_Claim)"
  shows "tools.safe (\<lambda>x h. claimed g h \<and> (\<forall>u. x = Inr u \<longrightarrow> h = g\<lparr>g_claim := c\<rparr>)) (db_write (\<lambda>i w.
       let admitted = (\<lambda>c. call_id c = tr_id request \<and> tc_status c = Call_Running \<and>
             pr_policy_id (tc_policy c) = ''code-mode-admission'' \<and> has_running_parent (tw_calls w) c) in
       if sequence_too_large (pm_team_configuration_sequence metadata)
       then (w, Err (SE_InvalidData ''configuration sequence too large''))
       else if \<not> list_ex admitted (tw_calls w)
       then (w, Err (SE_InvalidData ''Code Mode admission already resolved''))
       else (w\<lparr>tw_calls := update_where admitted
               (\<lambda>c. c\<lparr>tc_request := (tc_request c)\<lparr>tr_arguments := tr_arguments request\<rparr>,
                     tc_policy := stored_policy policy,
                     tc_simulated_policy := pm_simulated_policy metadata,
                     tc_central_policy_applied := pm_central_policy_applied metadata,
                     tc_team_configuration_sequence := pm_team_configuration_sequence metadata,
                     tc_status := status, tc_updated_at := si_now i\<rparr>) (tw_calls w)\<rparr>, Ok ()))) g"
proof (rule safe_write, goal_cases)
  case (1 i w)
  let ?P = "\<lambda>c. call_id c = tr_id request \<and> tc_status c = Call_Running \<and>
             pr_policy_id (tc_policy c) = ''code-mode-admission'' \<and> has_running_parent (tw_calls w) c"
  let ?f = "\<lambda>c. c\<lparr>tc_request := (tc_request c)\<lparr>tr_arguments := tr_arguments request\<rparr>,
                     tc_policy := stored_policy policy,
                     tc_simulated_policy := pm_simulated_policy metadata,
                     tc_central_policy_applied := pm_central_policy_applied metadata,
                     tc_team_configuration_sequence := pm_team_configuration_sequence metadata,
                     tc_status := status, tc_updated_at := si_now i\<rparr>"
  let ?g = "g\<lparr>g_claim := c\<rparr>"
  have rows: "rows_ok w" using 1(1) by (simp add: tool_inv_def)
  have "tool_move g w ?g (w\<lparr>tw_calls := update_where ?P ?f (tw_calls w)\<rparr>)" if "list_ex ?P (tw_calls w)"
  proof (rule move_authorize [OF claim _ refl])
    show "call_facts (w\<lparr>tw_calls := update_where ?P ?f (tw_calls w)\<rparr>) =
        map (readmit (tr_id r) (tr_arguments request) (stored_policy policy)) (call_facts w)"
      by (rule call_facts_admit [OF rows that]) (simp_all add: ident)
  qed (use web in \<open>simp_all add: c_def stored_policy_def\<close>)
  then show ?case using move_stay [of g w] by (auto simp: Let_def intro: exI [of _ g] exI [of _ ?g])
qed simp

lemma authorize_safe:
  fixes request :: ToolRequest
  assumes claim: "g_claim g = Fresh r d" and ident: "tr_id request = tr_id r"
    and web: "requires_exact_public_url_approval (tr_tool r) \<longrightarrow> pr_decision policy \<noteq> Allow"
  shows "tools.safe (\<lambda>x h. claimed g h \<and> (\<forall>call. x = Inr call \<longrightarrow> pr_decision policy = Allow \<longrightarrow> may_run h call))
    (authorize_code_mode_call request policy metadata status) g"
  unfolding authorize_code_mode_call_def
proof (rule tools.safe_try [OF get_tool_call_stays], goal_cases)
  case (1 current g1)
  let ?c = "if pr_decision policy = Allow then Run_Call (r\<lparr>tr_arguments := tr_arguments request\<rparr>) else No_Claim"
  have read: "tools.safe (\<lambda>x h. claimed g h \<and> (\<forall>call. x = Inr call \<longrightarrow> pr_decision policy = Allow \<longrightarrow> may_run h call))
      (get_tool_call (tr_id request)) (g\<lparr>g_claim := ?c\<rparr>)"
  proof (cases "pr_decision policy = Allow")
    case True
    then show ?thesis using ident
      by (intro tools.safe_mono [OF get_tool_call_claim [where r = "r\<lparr>tr_arguments := tr_arguments request\<rparr>"]]) auto
  next
    case False
    then show ?thesis by (intro tools.safe_mono [OF get_tool_call_stays]) simp
  qed
  show ?case
  proof (cases "ensure_actor_scope (tr_scope (tc_request current)) (tr_scope request)")
    case (Inr u)
    show ?thesis unfolding 1(1) Inr try_ret sum.case
    proof (rule if_stays, goal_cases)
      case 2
      show ?case by (rule tools.safe_try [OF authorize_write_safe [OF claim ident web]]) (use read in auto)
    qed simp
  qed (simp add: 1(1))
qed simp

section \<open>Submission\<close>

text \<open>A client starts and ends without guards; what it owns when it ends is dropped.\<close>

abbreviation client :: "('a handler) \<Rightarrow> bool" where
  "client p \<equiv> \<forall>g. at_rest g \<longrightarrow> g_claim g = No_Claim \<longrightarrow> tools.safe (\<lambda>_ h. at_rest h) p g"

lemma submit_prepared_safe:
  assumes "at_rest g" and "g_claim g = No_Claim" and "prepared_ok svc prepared"
  shows "tools.safe (\<lambda>_ h. at_rest h) (submit_prepared svc prepared) g"
proof -
  let ?r = "pt_request prepared" and ?p = "pt_policy prepared"
  have web: "requires_exact_public_url_approval (tr_tool ?r) \<longrightarrow> pr_decision ?p \<noteq> Allow"
    using assms(3) by (simp add: prepared_ok_def policy_ok_def)
  have create: "tools.safe (\<lambda>x h. claimed g h \<and> (\<forall>call. x = Inr call \<longrightarrow>
      tc_request call = ?r \<and> h = g\<lparr>g_claim := call_claim ?r (pr_decision ?p)\<rparr>))
    (lift_db (create_tool_call ?r ?p (pt_metadata prepared) status)) g" for status
    by (rule lift_db_safe [OF create_tool_call_safe [OF assms(2) web]]) auto
  note rest = at_rest_claimed [OF assms(1)]
  show ?thesis
  proof (cases "pr_decision ?p")
    case Allow
    show ?thesis unfolding submit_prepared_def Let_def Allow PolicyDecision.case
      by (rule tools.safe_try [OF create [unfolded Allow]])
        (auto simp: call_claim_def may_run_def assms(1) rest intro!: execute_safe)
  next
    case Ask
    have approve: "tools.safe (\<lambda>_ h. at_rest h) (lift_db (create_approval call)) (g\<lparr>g_claim := call_claim ?r Ask\<rparr>)"
      if "tc_request call = ?r" for call
      by (rule lift_db_safe [OF create_approval_safe])
        (use that assms(1) in \<open>auto simp: call_claim_def intro: at_rest_claimed [of "g\<lparr>g_claim := Fresh ?r Ask\<rparr>"]\<close>)
    show ?thesis unfolding submit_prepared_def Let_def Ask PolicyDecision.case
      by (rule tools.safe_try [OF create [unfolded Ask]]) (auto simp: rest intro!: tools.safe_try [OF approve])
  next
    case Deny
    show ?thesis unfolding submit_prepared_def Let_def Deny PolicyDecision.case
      by (rule tools.safe_try [OF create [unfolded Deny]]) (auto simp: rest assms(1))
  qed
qed

lemma submit_automatic_safe:
  assumes "at_rest g" and "g_claim g = No_Claim" and "prepared_ok svc prepared"
  shows "tools.safe (\<lambda>_ h. at_rest h) (submit_prepared_with_automatic_approval svc prepared) g"
proof -
  let ?r = "pt_request prepared" and ?p = "pt_policy prepared"
  note rest = at_rest_claimed [OF assms(1)]
  show ?thesis
  proof (cases "requires_exact_public_url_approval (tr_tool ?r) \<or> pr_decision ?p \<noteq> Ask")
    case False
    then have web: "\<not> requires_exact_public_url_approval (tr_tool ?r)" and ask: "pr_decision ?p = Ask" by auto
    have create: "tools.safe (\<lambda>x h. claimed g h \<and> (\<forall>call. x = Inr call \<longrightarrow>
        tc_request call = ?r \<and> h = g\<lparr>g_claim := call_claim ?r Ask\<rparr>))
      (lift_db (create_tool_call ?r ?p (pt_metadata prepared) Call_Running)) g"
      by (rule lift_db_safe [OF create_tool_call_safe [OF assms(2)]]) (use web ask in auto)
    have approve: "tools.safe (\<lambda>x h. at_rest h \<and> (\<forall>a. x = Inr a \<longrightarrow> may_run h call))
        (lift_db (create_automatic_approval call)) (g\<lparr>g_claim := call_claim ?r Ask\<rparr>)" if "tc_request call = ?r" for call
      by (rule lift_db_safe [OF create_automatic_approval_safe])
        (use that web assms(1) in \<open>auto simp: call_claim_def intro: at_rest_claimed [of "g\<lparr>g_claim := Fresh ?r Ask\<rparr>"]\<close>)
    show ?thesis unfolding submit_prepared_with_automatic_approval_def using web ask
      by (auto simp: rest intro!: tools.safe_try [OF create] tools.safe_try [OF approve] execute_safe)
  qed (auto simp: submit_prepared_with_automatic_approval_def intro: submit_prepared_safe [OF assms])
qed

lemma submit_for_turn_safe:
  assumes "at_rest g" and "g_claim g = No_Claim"
  shows "tools.safe (\<lambda>_ h. at_rest h) (submit_for_turn svc session_id turn_id input) g"
  unfolding submit_for_turn_def
  by (rule tools.safe_try [OF preflight_stays [OF assms(1)]]) (auto intro: submit_prepared_safe simp: assms)

lemma finish_manual_turn_stays [stays]: "tools.safe (\<lambda>_ h. h = g) (finish_manual_turn scope turn_id outcome) g"
  unfolding finish_manual_turn_def by (auto intro!: stays split: ToolCallOutcome.splits)

lemma try_rest:
  assumes "tools.safe (\<lambda>_ h. at_rest h) p g" and "\<And>x h. at_rest h \<Longrightarrow> tools.safe (\<lambda>_ h'. h' = h) (k x) h"
  shows "tools.safe (\<lambda>_ h. at_rest h) (try_prog p k) g"
proof (rule tools.safe_try [OF assms(1)])
  fix x h assume "at_rest h"
  then show "tools.safe (\<lambda>_ h. at_rest h) (k x) h" by (intro tools.safe_mono [OF assms(2)]) auto
qed

lemma stays_then:
  assumes "tools.safe (\<lambda>_ h. h = g) p g" and "\<And>x. tools.safe Q (k x) g" and "\<And>e. Q (Inl e) g"
  shows "tools.safe Q (try_prog p k) g"
  by (rule tools.safe_try [OF assms(1)]) (use assms(2,3) in auto)

lemma submit_client: "client (submit svc session_id input)"
proof (intro allI impI)
  fix g assume g: "at_rest g" "g_claim g = No_Claim"
  have last: "tools.safe (\<lambda>_ h. at_rest h) (try_prog (submit_for_turn svc session_id turn_id input) (\<lambda>outcome.
      try_prog (finish_manual_turn scope turn_id outcome) (\<lambda>_. Ret (Ok outcome)))) g" for scope turn_id
    by (rule try_rest [OF submit_for_turn_safe [OF g]]) (intro stays)
  show "tools.safe (\<lambda>_ h. at_rest h) (submit svc session_id input) g"
    unfolding submit_def
    by (intro stays_then [OF lift_db_stays [OF get_session_stays]] if_stays
        stays_then [OF lift_db_stays [OF create_turn_stays]] stays_then [OF lift_db_stays [OF update_turn_stays]] last)
      (simp_all add: g)
qed

lemma execute_service_tool_client: "client (execute_service_tool svc session_id turn_id input)"
  unfolding execute_service_tool_def Let_def
proof (intro allI impI, rule tools.safe_try [OF preflight_stays], goal_cases)
  case (2 g p h)
  then show ?case
    by (intro tools.safe_bind [OF get_session_preferences_stays])
      (auto intro: submit_automatic_safe submit_prepared_safe)
qed auto

section \<open>Deciding an approval\<close>

lemma resolve_client: "client (resolve svc aid input)"
proof (intro allI impI)
  fix g assume g: "at_rest g" "g_claim g = No_Claim"
  note rest = at_rest_claimed [OF g(1)]
  let ?ok = "\<lambda>x h. claimed g h \<and> (\<forall>a. x = Inr a \<longrightarrow>
      (if ra_approved input then apr_status a = Approval_Approved \<and> (\<exists>r. g_claim h = Run_Call r \<and> apr_tool_call_id a = tr_id r)
       else apr_status a = Approval_Rejected))"
  have decide: "tools.safe ?ok (lift_db (resolve_approval aid (ra_scope input) (ra_approved input) (ra_approval_scope input))) g"
    by (rule lift_db_safe [OF resolve_approval_safe [OF g(2)]]) auto
  have run: "tools.safe (\<lambda>_ h. at_rest h) (try_prog (lift_db (finish_tool_call (call_id call) Call_Running None None)) (\<lambda>call.
        try_prog (execute svc call) (\<lambda>outcome.
        if manual
        then try_prog (finish_manual_turn (apr_scope approval) turn_id outcome) (\<lambda>_.
             case outcome of
               Outcome_Completed c \<Rightarrow> bind_prog (discard_media_step (call_id c)) (\<lambda>_. Ret (Ok outcome))
             | _ \<Rightarrow> Ret (Ok outcome))
        else Ret (Ok outcome)))) h"
    if h: "at_rest h" "may_run h call" for h call manual approval turn_id
  proof -
    from h(2) obtain r where r: "g_claim h = Run_Call r" "call_id call = tr_id r"
      using same_work_id by (auto simp: may_run_def call_id_def)
    have fin: "tools.safe (\<lambda>x h'. h' = h \<and> (\<forall>call. x = Inr call \<longrightarrow> may_run h' call))
        (lift_db (finish_tool_call (call_id call) Call_Running None None)) h"
      by (rule lift_db_safe [OF finish_tool_call_claim [OF r]]) auto
    show ?thesis
      by (rule tools.safe_try [OF fin])
        (auto simp: h(1) intro!: try_rest [OF execute_safe] stays split: ToolCallOutcome.splits)
  qed
  show "tools.safe (\<lambda>_ h. at_rest h) (resolve svc aid input) g"
    unfolding resolve_def
  proof (rule if_stays, simp add: g, rule tools.safe_try [OF decide], goal_cases)
    case (1 approval h)
    then have h: "at_rest h" using rest by blast
    show ?case
    proof (cases "ra_approved input")
      case True
      with 1(1) obtain r where r: "apr_status approval = Approval_Approved" "g_claim h = Run_Call r" "apr_tool_call_id approval = tr_id r"
        by auto
      show ?thesis
      proof (rule tools.safe_try [OF lift_db_safe [OF get_tool_call_claim [OF r(2,3)], where
            R = "\<lambda>x h'. h' = h \<and> (\<forall>call. x = Inr call \<longrightarrow> may_run h' call)"]], goal_cases)
        case (3 call h')
        then have "h' = h" "may_run h call" by auto
        with h r(1) run show ?case
          by (auto simp: Let_def intro!: stays_then [OF lift_db_stays [OF read_turn_stays]] stays_then [where p = "if _ then _ else _"] stays)
      qed (use h in auto)
    next
      case False
      with 1(1) have r: "apr_status approval = Approval_Rejected" by auto
      show ?thesis
        by (rule tools.safe_mono [where Q = "\<lambda>_ h'. h' = h"])
          (auto simp: Let_def r h intro!: stays)
    qed
  qed (use rest in auto)
qed

section \<open>Code Mode\<close>

lemma publish_stays [stays]: "tools.safe (\<lambda>_ h. h = g) publish_event g"
  unfolding publish_event_def by (intro stays)

lemma publish_events_stays [stays]: "tools.safe (\<lambda>_ h. h = g) (publish_events calls) g"
  by (induction calls) (auto intro!: stays)

lemma ensure_not_cancelled_stays [stays]: "tools.safe (\<lambda>_ h. h = g) ensure_not_cancelled g"
  unfolding ensure_not_cancelled_def by (intro stays)

lemma submit_without_approval_safe:
  assumes rest: "at_rest g" and claim: "g_claim g = Fresh r d" "c = tr_id r"
    and ok: "prepared_ok svc prepared" "tr_tool (pt_request prepared) = tr_tool r"
  shows "tools.safe (\<lambda>_ h. at_rest h) (submit_prepared_without_approval svc prepared c) g"
proof -
  let ?policy = "if pr_decision (pt_policy prepared) = Ask
            then (pt_policy prepared)\<lparr>pr_decision := Deny, pr_requires_approval := False,
                   pr_reason := ''This tool needs approval; call it directly outside Code Mode''\<rparr>
            else pt_policy prepared"
  let ?request = "(pt_request prepared)\<lparr>tr_id := c\<rparr>"
  have web: "requires_exact_public_url_approval (tr_tool r) \<longrightarrow> pr_decision ?policy \<noteq> Allow"
    using ok by (simp add: prepared_ok_def policy_ok_def)
  have auth: "tools.safe (\<lambda>x h. claimed g h \<and> (\<forall>call. x = Inr call \<longrightarrow> pr_decision ?policy = Allow \<longrightarrow> may_run h call))
      (lift_db (authorize_code_mode_call ?request ?policy (pt_metadata prepared) status)) g" for status
    by (rule lift_db_safe [OF authorize_safe [OF claim(1) _ web]]) (use claim(2) in auto)
  show ?thesis
    unfolding submit_prepared_without_approval_def Let_def
    by (rule tools.safe_try [OF auth]) (auto intro!: execute_safe at_rest_claimed [OF rest])
qed

definition admitted_prepared :: "ExecutionService \<Rightarrow> string \<Rightarrow> Ghost \<Rightarrow> 'e + PreparedToolCall \<Rightarrow> Ghost \<Rightarrow> bool" where
  "admitted_prepared svc tool g x h \<longleftrightarrow>
     h = g \<and> (\<forall>p. x = Inr p \<longrightarrow> prepared_ok svc p \<and> tr_tool (pt_request p) = tool)"

lemma preflight_text:
  assumes "at_rest g"
  shows "tools.safe (admitted_prepared svc tool g)
    (lift_text f (preflight_for_turn svc s t \<lparr>sub_scope = scope, sub_tool = tool, sub_arguments = a\<rparr>)) g"
  by (rule lift_text_safe [OF preflight_stays [OF assms]]) (auto simp: admitted_prepared_def)

lemma code_mode_child_admitted_safe:
  assumes rest: "at_rest g" and claim: "g_claim g = Fresh r d" "c = tr_id r" "tr_tool r = tool"
  shows "tools.safe (\<lambda>_ h. at_rest h) (code_mode_child_admitted svc cx parent tool arguments c) g"
proof -
  have submit: "tools.safe (\<lambda>_ h. at_rest h)
      (lift_text execution_error_text (submit_prepared_without_approval svc (with_parent p parent) c)) g"
    if "prepared_ok svc p" "tr_tool (pt_request p) = tool" for p
    by (rule lift_text_safe [OF submit_without_approval_safe [OF rest claim(1,2)]])
      (use that claim(3) in \<open>auto simp: with_parent_def prepared_ok_def policy_ok_def grant_reason_def by_bundle_def evaluate_def\<close>)
  have hook: "tools.safe (admitted_prepared svc tool g) (if b then try_prog (ask_env si_hook) (\<lambda>arguments.
         lift_text execution_error_text (preflight_for_turn svc (cx_session_id cx) (cx_turn_id cx)
           \<lparr>sub_scope = cx_scope cx, sub_tool = tool, sub_arguments = arguments\<rparr>))
       else Ret (Ok p)) g" if "prepared_ok svc p" "tr_tool (pt_request p) = tool" for p b
    by (rule if_stays, rule stays_then [OF ask_stays preflight_text [OF rest]]) (use that in \<open>auto simp: admitted_prepared_def\<close>)
  have last: "tools.safe (\<lambda>_ h. at_rest h) (try_prog ensure_not_cancelled (\<lambda>_.
     try_prog (lift_text execution_error_text (submit_prepared_without_approval svc (with_parent p parent) c)) (\<lambda>outcome.
     try_prog publish_event (\<lambda>_.
     case outcome of
       Outcome_AwaitingApproval _ _ \<Rightarrow> Ret (Err ''Unexpected approval in Code Mode'')
     | Outcome_Completed call \<Rightarrow>
         bind_prog (ask_env si_hook) (\<lambda>_. Ret (Ok (case tc_result call of Some v \<Rightarrow> v | None \<Rightarrow> JNull)))
     | Outcome_Denied call \<Rightarrow> bind_prog (ask_env si_hook) (\<lambda>_. Ret (Err (pr_reason (tc_policy call))))
     | Outcome_Failed call \<Rightarrow>
         bind_prog (ask_env si_hook) (\<lambda>_. Ret (Err (case tc_error call of Some e \<Rightarrow> e | None \<Rightarrow> ''Tool failed''))))))) g"
    if "prepared_ok svc p" "tr_tool (pt_request p) = tool" for p
    by (rule stays_then [OF ensure_not_cancelled_stays try_rest [OF submit [OF that]]])
      (auto simp: rest intro!: stays split: ToolCallOutcome.splits)
  show ?thesis
    unfolding code_mode_child_admitted_def
  proof (rule stays_then [OF ensure_not_cancelled_stays], rule tools.safe_try [OF preflight_text [OF rest]], goal_cases)
    case (1 u p h)
    then have p: "h = g" "prepared_ok svc p" "tr_tool (pt_request p) = tool" by (auto simp: admitted_prepared_def)
    show ?case unfolding p(1)
      by (rule tools.safe_try [OF hook [OF p(2,3)]]) (auto simp: admitted_prepared_def rest intro: last)
  qed (auto simp: rest admitted_prepared_def)
qed

lemma code_mode_child_client: "client (code_mode_child svc cx parent tool arguments)"
proof (intro allI impI)
  fix g assume g: "at_rest g" "g_claim g = No_Claim"
  have create: "tools.safe (\<lambda>x h. claimed g h \<and> (\<forall>call. x = Inr call \<longrightarrow>
      tc_request call = request \<and> h = g\<lparr>g_claim := Fresh request Deny\<rparr>))
    (lift_text storage_error_text (create_tool_call request code_mode_admission_policy m status)) g" for request m status
    by (rule lift_text_safe [OF create_tool_call_safe [OF g(2)]])
      (auto simp: code_mode_admission_policy_def call_claim_def)
  have report: "tools.safe (\<lambda>_ h. at_rest h) (try_prog (lift_text storage_error_text (get_tool_call c)) (\<lambda>current.
         if unfinished_call current
         then try_prog (lift_text storage_error_text (finish_tool_call c Call_Failed None (Some error))) (\<lambda>_.
              try_prog publish_event (\<lambda>_. Ret (Err error)))
         else Ret (Err error))) h" if "at_rest h" for h c error
    by (rule tools.safe_mono [where Q = "\<lambda>_ h'. h' = h"]) (auto simp: that intro!: stays)
  show "tools.safe (\<lambda>_ h. at_rest h) (code_mode_child svc cx parent tool arguments) g"
    unfolding code_mode_child_def
  proof (rule stays_then [OF ensure_not_cancelled_stays], intro if_stays, goal_cases)
    case (3 u)
    show ?case
    proof (rule tools.safe_bind [OF ask_stays], goal_cases)
      case (1 x g')
      obtain i now where x: "x = (i, now)" by (cases x)
      show ?case unfolding 1(1) x prod.case
      proof (rule tools.safe_try [OF create], goal_cases)
        case (1 admitted h)
        then have h: "at_rest h" "g_claim h = Fresh (tc_request admitted) Deny" "tr_tool (tc_request admitted) = tool"
          using g(1) by auto
        show ?case
          by (rule stays_then [OF publish_stays],
              rule tools.safe_bind [OF code_mode_child_admitted_safe [OF h(1,2) call_id_def h(3)]])
            (auto simp: h(1) report split: sum.splits)
      qed (use at_rest_claimed [OF g(1)] in auto)
    qed
  qed (simp_all add: g)
qed

lemma code_mode_supervise_client: "client (code_mode_supervise cx code)"
proof (intro allI impI)
  fix g assume g: "at_rest g" "g_claim g = No_Claim"
  have create: "tools.safe (\<lambda>_ h. at_rest h)
      (lift_text storage_error_text (create_tool_call request code_mode_parent_policy m status)) g"
    if "tr_tool request = ''execute''" for request m status
    by (rule lift_text_safe [OF create_tool_call_safe [OF g(2)]])
      (use that at_rest_claimed [OF g(1)] in \<open>auto simp: requires_exact_public_url_approval_def\<close>)
  show "tools.safe (\<lambda>_ h. at_rest h) (code_mode_supervise cx code) g"
    unfolding code_mode_supervise_def Let_def
  proof (rule stays_then [OF ensure_not_cancelled_stays], rule tools.safe_bind [OF ask_stays], goal_cases)
    case (1 u x g')
    obtain i now where x: "x = (i, now)" by (cases x)
    show ?case unfolding 1(1) x prod.case
      by (rule try_rest [OF create]) (auto intro!: stays split: prod.splits)
  qed (simp add: g)
qed

end
