(* ===== verification/Tool_Demo.thy ===== *)
theory Tool_Demo
  imports Tool_Clients
begin

text \<open>
  A concrete run of the tool requests: a Work session with two turns, a file protection that was changed
  between them, a patch of the second turn that the policy asks about, and the approval of it.  The
  properties of \<open>Tool_Safety\<close> are applied to this run.
\<close>

section \<open>The run\<close>

definition tool_demo_scope :: Scope where
  "tool_demo_scope = \<lparr>sc_organization_id = ''o'', sc_team_id = ''t'', sc_actor_id = ''a'', sc_goal_id = None, sc_task_id = None\<rparr>"

definition tool_demo_turn :: "Id \<Rightarrow> Timestamp \<Rightarrow> Turn" where
  "tool_demo_turn k at =
     \<lparr>tn_id = k, tn_session_id = ''s'', tn_scope = tool_demo_scope, tn_status = CallingModel, tn_checkpoint = None,
      tn_error_code = None, tn_started_at = at, tn_updated_at = at, tn_completed_at = None, tn_tool_profile = None\<rparr>"

definition tool_demo_world :: ToolWorld where
  "tool_demo_world =
     \<lparr>tw_sessions = [\<lparr>ss_id = ''s'', ss_mode = Mode_Work, ss_work_reason = None, ss_scope = tool_demo_scope,
        ss_workspace_uri = ''w'', ss_title = '''', ss_model = '''', ss_status = Session_Active,
        ss_created_at = 0, ss_updated_at = 0\<rparr>],
      tw_preferences = [], tw_turns = [tool_demo_turn ''t1'' 1, tool_demo_turn ''t2'' 3], tw_calls = [],
      tw_approvals = [], tw_configurations = (\<lambda>_. None), tw_exceptions = [],
      tw_protection = [\<lparr>pw_owner = (''o'', ''t'', ''a''), pw_revision = 1, pw_changed_at = 2,
        pw_rules = [\<lparr>fr_id = ''f'', fr_path = ''p'', fr_canonical_path = None, fr_device = None, fr_inode = None,
          fr_kind = ''file'', fr_created_at = 2\<rparr>]\<rparr>],
      tw_actor_sources = [], tw_team_sources = [], tw_readers = [], tw_writers = [],
      tw_media = TransientMediaCache_default, tw_history = []\<rparr>"

definition tool_demo_service :: ExecutionService where
  "tool_demo_service =
     \<lparr>ex_policy = PolicyBundle_default, ex_device_id = ''d'', ex_host_execution = True, ex_sha256 = (\<lambda>s. s),
      ex_validate = (\<lambda>_ _. Inr ()), ex_normalize = (\<lambda>_ a. Inr a)\<rparr>"

definition tool_demo_input :: "nat \<Rightarrow> StepInput" where
  "tool_demo_input k =
     \<lparr>si_thread = k, si_db = DbOk, si_now = 5, si_instant = 0, si_id = ''c'', si_cancelled = False,
      si_publish = None, si_hook = Inr JNull, si_result = Inr (JNull, None)\<rparr>"

definition tool_demo_submit :: "(StepInput, ToolWorld, unit) prog" where
  "tool_demo_submit = forget (submit_for_turn tool_demo_service ''s'' ''t2''
     \<lparr>sub_scope = tool_demo_scope, sub_tool = ''apply_patch'', sub_arguments = JNull\<rparr>)"

definition tool_demo_resolve :: "(StepInput, ToolWorld, unit) prog" where
  "tool_demo_resolve = forget (resolve tool_demo_service ''c''
     \<lparr>ra_scope = tool_demo_scope, ra_approved = True, ra_approval_scope = Scope_Once\<rparr>)"

definition tool_demo_call :: ToolCall where
  "tool_demo_call =
     \<lparr>tc_request =
        \<lparr>tr_parent_tool_call_id = None, tr_id = ''c'', tr_scope = tool_demo_scope, tr_session_id = ''s'',
         tr_turn_id = ''t2'', tr_tool = ''apply_patch'', tr_arguments = JNull, tr_created_at = 5\<rparr>,
      tc_policy =
        \<lparr>pr_decision = Ask, pr_policy_id = ''builtin-safe-defaults'', pr_policy_version = ''1'',
         pr_reason = ''writes require approval'', pr_requires_approval = True\<rparr>,
      tc_simulated_policy = None, tc_central_policy_applied = False, tc_team_configuration_sequence = None,
      tc_status = Call_Running, tc_result = None, tc_error = None, tc_created_at = 5, tc_updated_at = 5\<rparr>"

text \<open>The patch waits for approval after fifteen steps; fifteen steps of the approval later the tool is
  about to start.\<close>

definition tool_demo_waiting :: ToolWorld where
  "tool_demo_waiting = fst (run_alone tool_demo_submit (replicate 15 (tool_demo_input 0)) tool_demo_world)"

definition tool_demo_ready :: "(ToolWorld \<times> (StepInput, ToolWorld, unit) prog) option" where
  "tool_demo_ready = steps_alone tool_demo_resolve (replicate 15 (tool_demo_input 1)) tool_demo_waiting"

definition tool_demo_running :: "(ToolWorld \<times> (StepInput, ToolWorld, unit) prog) option" where
  "tool_demo_running = steps_alone tool_demo_resolve (replicate 16 (tool_demo_input 1)) tool_demo_waiting"

lemma tool_demo_submit_ends:
  "snd (run_alone tool_demo_submit (replicate 15 (tool_demo_input 0)) tool_demo_world) = Some ()"
  by code_simp

lemma tool_demo_ready_history:
  "map_option (\<lambda>s. tw_history (fst s)) tool_demo_ready = Some [Ev_Resolved ''c'' True ''a'']"
  by code_simp

lemma tool_demo_running_history:
  "map_option (\<lambda>s. tw_history (fst s)) tool_demo_running =
     Some [Ev_Dispatched tool_demo_call, Ev_Resolved ''c'' True ''a'']"
  by code_simp

lemma tool_demo_running_step:
  "tool_demo_running = Option.bind tool_demo_ready (\<lambda>(w, p). steps_alone p [tool_demo_input 1] w)"
proof -
  have "replicate 16 (tool_demo_input 1) = replicate 15 (tool_demo_input 1) @ [tool_demo_input 1]"
    by (simp add: eval_nat_numeral)
  then show ?thesis by (simp add: tool_demo_running_def tool_demo_ready_def steps_alone_append)
qed

end
