(* ===== verification/Tool_Safety.thy ===== *)
theory Tool_Safety
  imports Tool_Demo
begin

text \<open>
  The properties of concurrent tool execution.  The system starts with empty tables of calls and approvals
  and any sessions, turns, protections and policies; every request may arrive at any time, its steps are
  interleaved in any way, any handler may be dropped (a restart of the daemon drops all of them), the
  database may fail at every statement, and the rest of the daemon may change what it owns.
\<close>

section \<open>The system\<close>

definition tool_clients :: "ExecutionService \<Rightarrow> Timestamp \<Rightarrow> (StepInput, ToolWorld, unit) prog set" where
  "tool_clients svc max_utc =
     (\<Union>s i. {forget (submit svc s i)}) \<union> (\<Union>s t i. {forget (submit_for_turn svc s t i)}) \<union>
     (\<Union>s t i. {forget (execute_service_tool svc s t i)}) \<union> (\<Union>a i. {forget (resolve svc a i)}) \<union>
     (\<Union>cx p t a. {forget (code_mode_child svc cx p t a)}) \<union> (\<Union>cx c. {forget (code_mode_supervise cx c)}) \<union>
     (\<Union>s r rs. {forget (replace_file_protection max_utc s r rs)}) \<union>
     (\<Union>s u. {forget (update_session_preferences s u)}) \<union> {forget interrupt_code_mode_calls}"

definition tool_start :: "ToolWorld \<Rightarrow> bool" where
  "tool_start w \<longleftrightarrow> tw_calls w = [] \<and> tw_approvals w = [] \<and> tw_history w = [] \<and> tw_readers w = [] \<and> tw_writers w = []"

abbreviation tool_step :: "ExecutionService \<Rightarrow> Timestamp \<Rightarrow> ToolWorld \<times> (StepInput, ToolWorld, unit) prog list \<Rightarrow>
    ToolWorld \<times> (StepInput, ToolWorld, unit) prog list \<Rightarrow> bool" where
  "tool_step svc max_utc \<equiv> sys_step si_thread (tool_clients svc max_utc) tool_env drop_guards"

abbreviation tool_reach :: "ExecutionService \<Rightarrow> Timestamp \<Rightarrow> ToolWorld \<times> (StepInput, ToolWorld, unit) prog list \<Rightarrow>
    ToolWorld \<times> (StepInput, ToolWorld, unit) prog list \<Rightarrow> bool" where
  "tool_reach svc max_utc \<equiv> reachable si_thread (tool_clients svc max_utc) tool_env drop_guards"

lemma forget_safe:
  assumes "client p"
  shows "tools.safe tools.finished (forget p) (idle_ghost k)"
  unfolding forget_def
proof (rule tools.safe_bind)
  show "tools.safe (\<lambda>_ h. at_rest h) p (idle_ghost k)" using assms by (simp add: idle_ghost_def at_rest_def)
qed (simp add: at_rest_finished)

lemma interrupt_client: "client interrupt_code_mode_calls"
  by (intro allI impI, rule tools.safe_mono [OF interrupt_code_mode_calls_stays]) simp

lemma tool_clients_safe:
  assumes "p \<in> tool_clients svc max_utc"
  shows "tools.safe tools.finished p (idle_ghost k)"
proof -
  have "client (submit_for_turn svc s t i)" for s t i using submit_for_turn_safe by blast
  moreover have "client (replace_file_protection max_utc s r rs)" for s r rs using replace_file_protection_safe by blast
  moreover have "client (update_session_preferences s u)" for s u using update_session_preferences_safe by blast
  moreover note submit_client execute_service_tool_client resolve_client code_mode_child_client
    code_mode_supervise_client interrupt_client
  ultimately show ?thesis using assms unfolding tool_clients_def by (auto intro!: forget_safe)
qed

lemma tool_start_inv:
  assumes "tool_start w"
  shows "tools.sys_inv (w, [])"
proof (rule tools.sys_inv_start)
  show "tool_inv w"
    using assms by (simp add: tool_start_def tool_inv_def rows_ok_def web_ok_def history_ok_def gates_ok_def call_facts_def)
  show "\<not> guard_holder w k" for k using assms by (simp add: tool_start_def guard_holder_def)
qed

lemma tool_reach_inv:
  assumes "tool_start w0" and "tool_reach svc max_utc (w0, []) s"
  shows "tools.sys_inv s"
  using tools.sys_inv_reachable [OF assms(2) tool_start_inv [OF assms(1)]] tool_clients_safe by blast

lemma tool_reach_later:
  assumes "tool_start w0" and "tool_reach svc max_utc (w0, []) s" and "tool_reach svc max_utc s s'"
  shows "tool_later (fst s) (fst s')"
  using tools.sys_inv_reachable [OF assms(3) tool_reach_inv [OF assms(1,2)]] tool_clients_safe by blast

lemma tool_start_ok:
  assumes "tool_start w0" and "tool_reach svc max_utc (w0, []) s" and "tool_step svc max_utc s s'"
    and "tw_history (fst s') = Ev_Dispatched call # tw_history (fst s)"
  shows "start_ok (fst s) call"
proof -
  have inv: "tools.sys_inv s" by (rule tool_reach_inv [OF assms(1,2)])
  from tools.step_is_move [OF assms(3) inv] show ?thesis
  proof (elim disjE exE conjE)
    assume "tool_env (fst s) (fst s')"
    with assms(4) show ?thesis by (simp add: tool_env_def core_def)
  next
    fix g g' assume "tool_inv (fst s)" "tool_own g (fst s)" "tool_move g (fst s) g' (fst s')"
    with assms(4) show ?thesis by (simp add: tool_move_def)
  qed (use assms(4) in simp)
qed

lemma tool_clients_mem:
  "forget (submit_for_turn svc s t i) \<in> tool_clients svc max_utc"
  "forget (resolve svc a r) \<in> tool_clients svc max_utc"
  unfolding tool_clients_def by (simp_all only: Un_iff UN_iff) blast+

text \<open>The run of \<open>Tool_Demo\<close> in the system.\<close>

lemma tool_demo_start: "tool_start tool_demo_world"
  by (simp add: tool_start_def tool_demo_world_def)

lemma tool_demo_reach:
  "tool_reach tool_demo_service 9 (tool_demo_world, []) (fst (the tool_demo_ready), [Ret (), snd (the tool_demo_ready)])" (is ?ready)
  "tool_step tool_demo_service 9 (fst (the tool_demo_ready), [Ret (), snd (the tool_demo_ready)])
     (fst (the tool_demo_running), [Ret (), snd (the tool_demo_running)])" (is ?step)
  "tw_history (fst (the tool_demo_ready)) = [Ev_Resolved ''c'' True ''a'']" (is ?before)
  "tw_history (fst (the tool_demo_running)) = [Ev_Dispatched tool_demo_call, Ev_Resolved ''c'' True ''a'']" (is ?after)
proof -
  have mem: "tool_demo_submit \<in> tool_clients tool_demo_service 9" "tool_demo_resolve \<in> tool_clients tool_demo_service 9"
    unfolding tool_demo_submit_def tool_demo_resolve_def by (rule tool_clients_mem)+
  have thread: "si_thread (tool_demo_input k) = k" for k by (simp add: tool_demo_input_def)
  obtain w p where ready: "tool_demo_ready = Some (w, p)" and before: "tw_history w = [Ev_Resolved ''c'' True ''a'']"
    using tool_demo_ready_history by auto
  obtain w' p' where running: "tool_demo_running = Some (w', p')"
    and after: "tw_history w' = [Ev_Dispatched tool_demo_call, Ev_Resolved ''c'' True ''a'']"
    using tool_demo_running_history by auto
  have "tool_reach tool_demo_service 9 (tool_demo_world, []) (tool_demo_waiting, [Ret ()])"
    using reach_request [OF reachable.here mem(1) _ tool_demo_submit_ends, where tid = si_thread and env = tool_env and release = drop_guards and ps = "[]"] thread
    unfolding tool_demo_waiting_def [symmetric] by (simp)
  then have "tool_reach tool_demo_service 9 (tool_demo_world, []) (tool_demo_waiting, [Ret (), tool_demo_resolve])"
    using mem(2) by (auto intro: reachable.more sys_step.arrive [where ps = "[Ret ()]", simplified])
  from reach_steps_alone [OF this, where k = 1 and ins = "replicate 15 (tool_demo_input 1)" and w' = w and p' = p] thread ready [unfolded tool_demo_ready_def]
  show ?ready by (simp add: ready)
  have "steps_alone p [tool_demo_input 1] w = Some (w', p')"
    using tool_demo_running_step unfolding ready running by (simp only: Option.bind.simps prod.case)
  from sys_step_alone [OF _ _ this, where k = 1 and ps = "[Ret (), p]" and tid = si_thread] thread show ?step by (simp add: ready running)
  show ?before by (simp add: ready before)
  show ?after by (simp add: running after)
qed

section \<open>Properties\<close>

text \<open>C3: Whatever requests arrive and however they interleave, a tool call is started at most once, and
  only as it was recorded: the policy allowed it, or the policy asked and the approval of exactly this call
  was given; a tool that opens a public address was approved by a person's decision.\<close>

theorem tool_calls_authorised_once:
  assumes "tool_start w0" and "tool_reach svc max_utc (w0, []) (w, ps)"
  shows "distinct (map call_id (dispatched (tw_history w))) \<and>
    (\<forall>call \<in> set (dispatched (tw_history w)). \<exists>row \<in> set (tw_calls w).
       same_work (tc_request call) (tc_request row) \<and>
       (pr_decision (tc_policy row) = Allow \<and> \<not> requires_exact_public_url_approval (tr_tool (tc_request call)) \<or>
        pr_decision (tc_policy row) = Ask \<and>
        (\<exists>a \<in> set (tw_approvals w). apr_tool_call_id a = call_id call \<and> apr_status a = Approval_Approved \<and>
           (requires_exact_public_url_approval (tr_tool (tc_request call)) \<longrightarrow>
              (\<exists>person. Ev_Resolved (apr_id a) True person \<in> set (tw_history w))))))"
proof -
  have inv: "tool_inv w" using tool_reach_inv [OF assms] by (simp add: tools.sys_inv_def)
  show ?thesis
  proof (intro conjI ballI)
    show "distinct (map call_id (dispatched (tw_history w)))" using inv by (simp add: tool_inv_def history_ok_def)
    fix call assume "call \<in> set (dispatched (tw_history w))"
    with inv have "justified w (tc_request call)" by (simp add: tool_inv_def history_ok_def)
    then obtain r p where r: "(r, p) \<in> set (call_facts w)" "same_work (tc_request call) r"
      "pr_decision p = Allow \<or> pr_decision p = Ask \<and> approved_call (tw_approvals w) (call_id call)"
      by (auto simp: justified_def call_id_def)
    then obtain row where row: "row \<in> set (tw_calls w)" "tc_request row = r" "tc_policy row = p" by (auto simp: call_facts_def)
    have web: "pr_decision p \<noteq> Allow \<and> (\<forall>a \<in> set (tw_approvals w). apr_tool_call_id a = call_id call \<and> apr_status a = Approval_Approved \<longrightarrow>
        (\<exists>d. Ev_Resolved (apr_id a) True d \<in> set (tw_history w)))"
      if "requires_exact_public_url_approval (tr_tool (tc_request call))"
      using inv r(1) that same_work_fields [OF r(2)] unfolding tool_inv_def web_ok_def by (fastforce simp: call_id_def)
    show "\<exists>row \<in> set (tw_calls w).
       same_work (tc_request call) (tc_request row) \<and>
       (pr_decision (tc_policy row) = Allow \<and> \<not> requires_exact_public_url_approval (tr_tool (tc_request call)) \<or>
        pr_decision (tc_policy row) = Ask \<and>
        (\<exists>a \<in> set (tw_approvals w). apr_tool_call_id a = call_id call \<and> apr_status a = Approval_Approved \<and>
           (requires_exact_public_url_approval (tr_tool (tc_request call)) \<longrightarrow>
              (\<exists>person. Ev_Resolved (apr_id a) True person \<in> set (tw_history w)))))"
      by (rule bexI [OF _ row(1)]) (use r(2,3) row(2,3) web in \<open>auto simp: approved_call_def\<close>)
  qed
qed

lemma tool_calls_authorised_once_witness:
  "\<exists>w ps. tool_reach tool_demo_service 9 (tool_demo_world, []) (w, ps) \<and> dispatched (tw_history w) = [tool_demo_call] \<and>
     (\<exists>row \<in> set (tw_calls w). same_work (tc_request tool_demo_call) (tc_request row) \<and> pr_decision (tc_policy row) \<noteq> Deny)"
proof -
  have reach: "tool_reach tool_demo_service 9 (tool_demo_world, []) (fst (the tool_demo_running), [Ret (), snd (the tool_demo_running)])"
    using tool_demo_reach(1,2) by (rule reachable.more)
  from tool_calls_authorised_once [OF tool_demo_start reach] tool_demo_reach(4)
  have "\<exists>row \<in> set (tw_calls (fst (the tool_demo_running))).
      same_work (tc_request tool_demo_call) (tc_request row) \<and> pr_decision (tc_policy row) \<noteq> Deny" by fastforce
  with reach tool_demo_reach(4) show ?thesis by (intro exI conjI) auto
qed

text \<open>C6: An approval is decided at most once, by the recorded person, and a decided approval never
  changes again.\<close>

theorem approval_decided_once:
  assumes "tool_start w0" and "tool_reach svc max_utc (w0, []) (w, ps)" and "tool_reach svc max_utc (w, ps) (w', ps')"
  shows "distinct (resolved (tw_history w)) \<and>
    (\<forall>a b d. Ev_Resolved a b d \<in> set (tw_history w) \<longrightarrow> decided_as (tw_approvals w) a b d) \<and>
    {a \<in> set (tw_approvals w). apr_status a \<noteq> Approval_Pending} \<subseteq> set (tw_approvals w')"
proof -
  have "tool_inv w" using tool_reach_inv [OF assms(1,2)] by (simp add: tools.sys_inv_def)
  moreover have "tool_later w w'" using tool_reach_later [OF assms] by simp
  ultimately show ?thesis by (auto simp: tool_inv_def history_ok_def tool_later_def)
qed

lemma approval_decided_once_witness:
  "\<exists>w ps. tool_reach tool_demo_service 9 (tool_demo_world, []) (w, ps) \<and> decided_as (tw_approvals w) ''c'' True ''a''"
proof -
  have "Ev_Resolved ''c'' True ''a'' \<in> set (tw_history (fst (the tool_demo_ready)))" by (simp add: tool_demo_reach(3))
  with approval_decided_once [OF tool_demo_start tool_demo_reach(1) reachable.here]
  have "decided_as (tw_approvals (fst (the tool_demo_ready))) ''c'' True ''a''" by blast
  with tool_demo_reach(1) show ?thesis by blast
qed

text \<open>C7: A tool starts only under the file protection that is in force at that moment: its turn started
  after the last change of the account's protection, and while rules are active only the tools that enforce
  them start; a call that the session's full access allowed starts only while that choice is in force.\<close>

theorem tool_start_protected:
  assumes "tool_start w0" and "tool_reach svc max_utc (w0, []) (w, ps)"
    and "tool_step svc max_utc (w, ps) (w', ps')" and "tw_history w' = Ev_Dispatched call # tw_history w"
  shows "protection_allows w (tc_request call) \<and>
    (pr_policy_id (tc_policy call) = ''session-full-access'' \<and> tr_tool (tc_request call) \<noteq> ''pdf_view'' \<longrightarrow>
       full_choice w (tr_session_id (tc_request call)))"
  using tool_start_ok [OF assms(1-3)] assms(4) by (simp add: start_ok_def)

lemma tool_start_protected_witness:
  "\<exists>w ps. tool_reach tool_demo_service 9 (tool_demo_world, []) (w, ps) \<and> protection_allows w (tc_request tool_demo_call)"
proof -
  from tool_start_protected [OF tool_demo_start tool_demo_reach(1,2)] tool_demo_reach(3,4)
  have "protection_allows (fst (the tool_demo_ready)) (tc_request tool_demo_call)" by simp
  with tool_demo_reach(1) show ?thesis by blast
qed

text \<open>C4: Once a file protection has been changed after the start of a turn, no tool of that turn is ever
  started for that account again.\<close>

theorem protection_barrier:
  assumes "tool_start w0" and "tool_reach svc max_utc (w0, []) (w, ps)"
    and "find_row pw_owner ow (tw_protection w) = Some p" and "find_row tn_id turn_id (tw_turns w) = Some turn"
    and "tn_started_at turn \<le> pw_changed_at p"
    and "tool_reach svc max_utc (w, ps) (w1, ps1)" and "tool_step svc max_utc (w1, ps1) (w2, ps2)"
    and "tw_history w2 = Ev_Dispatched call # tw_history w1" and "scope_owner (tr_scope (tc_request call)) = ow"
  shows "tr_turn_id (tc_request call) \<noteq> turn_id"
proof
  assume turn: "tr_turn_id (tc_request call) = turn_id"
  have "tool_later w w1" using tool_reach_later [OF assms(1,2,6)] by simp
  then obtain p1 t1 where "find_row pw_owner ow (tw_protection w1) = Some p1" "pw_changed_at p \<le> pw_changed_at p1"
    "find_row tn_id turn_id (tw_turns w1) = Some t1" "tn_started_at t1 = tn_started_at turn"
    using assms(3,4) unfolding tool_later_def rows_kept_def by blast
  moreover have "protection_allows w1 (tc_request call)"
    using tool_start_ok [OF assms(1) reachable_trans [OF assms(2,6)] assms(7)] assms(8) by (simp add: start_ok_def)
  ultimately show False using assms(5,9) turn by (auto simp: protection_allows_def)
qed

lemma protection_barrier_witness:
  "\<exists>s s'. tool_step tool_demo_service 9 s s' \<and> tw_history (fst s') = Ev_Dispatched tool_demo_call # tw_history (fst s) \<and>
     tr_turn_id (tc_request tool_demo_call) \<noteq> ''t1''"
proof -
  have "tr_turn_id (tc_request tool_demo_call) \<noteq> ''t1''"
  proof (rule protection_barrier [OF tool_demo_start reachable.here _ _ _ tool_demo_reach(1,2)])
    show "find_row pw_owner (''o'', ''t'', ''a'') (tw_protection tool_demo_world) = Some (hd (tw_protection tool_demo_world))"
      by (simp add: tool_demo_world_def find_row_def)
    show "find_row tn_id ''t1'' (tw_turns tool_demo_world) = Some (tool_demo_turn ''t1'' 1)"
      by (simp add: tool_demo_world_def tool_demo_turn_def find_row_def)
    show "tn_started_at (tool_demo_turn ''t1'' 1) \<le> pw_changed_at (hd (tw_protection tool_demo_world))"
      by (simp add: tool_demo_world_def tool_demo_turn_def)
    show "scope_owner (tr_scope (tc_request tool_demo_call)) = (''o'', ''t'', ''a'')"
      by (simp add: tool_demo_call_def tool_demo_scope_def scope_owner_def)
  qed (simp add: tool_demo_reach)
  with tool_demo_reach(2-4) show ?thesis by (intro exI conjI) auto
qed



text \<open>C8: Whatever the database answers while a request is judged, a denial of the daemon's own policy is
  the result, unchanged: no team configuration, no exception and no full access overrides it; and a tool
  that opens a public address is never simply allowed.\<close>

theorem local_denial_is_final:
  "returns (\<lambda>result. case result of
       Inl _ \<Rightarrow> True
     | Inr (policy, _) \<Rightarrow>
         if pr_decision (evaluate (ex_policy svc) request) = Deny then policy = evaluate (ex_policy svc) request
         else if requires_exact_public_url_approval (tr_tool request) then pr_decision policy \<noteq> Allow
         else True)
     (evaluate_policy svc request workspace_uri)"
  by (rule returns_mono [OF evaluate_policy_returns]) (auto simp: policy_ok_def split: sum.splits)

text \<open>A replacement of the file protection succeeds only from the expected revision; it moves the
  cutoff past every turn, input, goal and task of the account and past the previous cutoff, and never
  behind the clock.\<close>

theorem protection_cutoff_covers_work:
  assumes "protection_update max_utc ow expected_revision rules now w = Inr row"
  shows "pw_rules row = rules \<and> pw_revision row = uint expected_revision + 1 \<and> now \<le> pw_changed_at row \<and>
    (\<forall>t \<in> set (work_sources w ow). t < pw_changed_at row) \<and>
    (\<forall>p. find_row pw_owner ow (tw_protection w) = Some p \<longrightarrow>
       pw_changed_at p < pw_changed_at row \<and> pw_revision p = uint expected_revision)"
proof (intro conjI allI impI ballI)
  note bound = protection_update_bound [OF assms]
  from assms obtain t where t: "raise_cutoff max_utc (map_option pw_changed_at (find_row pw_owner ow (tw_protection w))) now = Inr t"
    "raise_cutoff max_utc (latest_source w ow) t = Inr (pw_changed_at row)"
    by (auto simp: protection_update_def Let_def and_then_def split: sum.splits if_splits)
  show "now \<le> pw_changed_at row" using raise_cutoff_bound [OF t(1)] raise_cutoff_bound [OF t(2)] by simp
  show "pw_rules row = rules" by (rule bound(2))
  show "x < pw_changed_at row" if "x \<in> set (work_sources w ow)" for x using bound(4) that by blast
  show "pw_revision row = uint expected_revision + 1"
    using assms by (auto simp: protection_update_def Let_def and_then_def split: sum.splits if_splits)
  show "pw_changed_at p < pw_changed_at row" "pw_revision p = uint expected_revision"
    if "find_row pw_owner ow (tw_protection w) = Some p" for p
    using bound(3) [OF that] assms that by (auto simp: protection_update_def Let_def split: if_splits)
qed

lemma protection_cutoff_covers_work_witness:
  "\<exists>row. protection_update 9 (''o'', ''t'', ''a'') 1 [] 2 tool_demo_world = Inr row \<and> pw_revision row = 2 \<and>
     (\<forall>t \<in> set (work_sources tool_demo_world (''o'', ''t'', ''a'')). t < pw_changed_at row)"
proof -
  have "is_ok (protection_update 9 (''o'', ''t'', ''a'') 1 [] 2 tool_demo_world)" by code_simp
  then obtain row where row: "protection_update 9 (''o'', ''t'', ''a'') 1 [] 2 tool_demo_world = Inr row"
    by (auto simp: is_ok_def split: sum.splits)
  with protection_cutoff_covers_work [OF row] show ?thesis by auto
qed

section \<open>The status of a turn\<close>

text \<open>The update of a turn reads the row, refuses a terminal turn and then writes without a condition: a
  turn that another handler cancels between the two is taken out of its terminal state.\<close>

definition tool_demo_status :: "ToolWorld \<Rightarrow> TurnStatus option" where
  "tool_demo_status w = map_option tn_status (find_row tn_id ''t2'' (tw_turns w))"

lemma terminal_turn_overwritten:
  "(case steps_alone (update_turn tool_demo_scope ''t2'' RunningTool None None) [tool_demo_input 0] tool_demo_world of
      None \<Rightarrow> False
    | Some (w1, rest) \<Rightarrow>
        let w2 = fst (run_alone (update_turn tool_demo_scope ''t2'' Cancelled None None) (replicate 3 (tool_demo_input 1)) w1);
            w3 = fst (run_alone rest (replicate 2 (tool_demo_input 0)) w2) in
        tool_demo_status w2 = Some Cancelled \<and> tool_demo_status w3 = Some RunningTool)"
  by code_simp

end
