(* ===== verification/Kept_World.thy ===== *)
theory Kept_World
  imports Interleaving
begin

text \<open>
  Systems whose handlers own nothing: every atomic step of every handler keeps the invariant of the world
  by itself, in whatever state the other handlers have left it, and moves the world forward in a preorder.
  This is the interface of a store whose operations are transactions.
\<close>

locale kept_world =
  fixes inv :: "'w \<Rightarrow> bool"
    and later :: "'w \<Rightarrow> 'w \<Rightarrow> bool"
    and env :: "'w \<Rightarrow> 'w \<Rightarrow> bool"
  assumes later_refl: "inv w \<Longrightarrow> later w w"
    and later_trans: "later w w' \<Longrightarrow> later w' w'' \<Longrightarrow> later w w''"
    and env_kept: "inv w \<Longrightarrow> env w w' \<Longrightarrow> inv w' \<and> later w w'"
begin

definition step_ok :: "'w \<Rightarrow> 'w \<Rightarrow> bool" where
  "step_ok w w' \<longleftrightarrow> (inv w \<longrightarrow> inv w' \<and> later w w')"

lemma step_ok_refl [simp]: "step_ok w w"
  by (simp add: step_ok_def later_refl)

lemma step_ok_trans: "step_ok w w' \<Longrightarrow> step_ok w' w'' \<Longrightarrow> step_ok w w''"
  using later_trans by (auto simp: step_ok_def)

primrec kept :: "('i, 'w, 'a) prog \<Rightarrow> bool" where
  "kept (Ret x) \<longleftrightarrow> True"
| "kept (Step g e c) \<longleftrightarrow> (\<forall>i w. step_ok w (e i w) \<and> kept (c i w))"

lemma kept_bind: "kept p \<Longrightarrow> (\<And>x. kept (k x)) \<Longrightarrow> kept (bind_prog p k)"
  by (induction p) auto

lemma kept_try: "kept p \<Longrightarrow> (\<And>x. kept (k x)) \<Longrightarrow> kept (try_prog p k)"
  unfolding try_prog_def by (rule kept_bind) (auto split: sum.splits)

lemma kept_ret: "kept (Ret x)"
  by simp

lemma kept_if: "kept p \<Longrightarrow> kept q \<Longrightarrow> kept (if c then p else q)"
  by simp

lemma kept_forget: "kept p \<Longrightarrow> kept (forget p)"
  unfolding forget_def by (rule kept_bind) auto

definition sys_kept :: "'w \<times> ('i, 'w, unit) prog list \<Rightarrow> bool" where
  "sys_kept s \<longleftrightarrow> inv (fst s) \<and> (\<forall>p \<in> set (snd s). kept p)"

lemma sys_kept_step:
  assumes "sys_step tid clients env (\<lambda>_ w. w) s s'" and "sys_kept s" and "\<forall>p \<in> clients. kept p"
  shows "sys_kept s' \<and> later (fst s) (fst s')"
  using assms(1)
proof (cases rule: sys_step.cases)
  case (arrive p w ps)
  with assms(2,3) show ?thesis by (auto simp: sys_kept_def later_refl)
next
  case (run k ps g e c w i)
  then have "kept (Step g e c)" using assms(2) by (metis nth_mem snd_conv sys_kept_def)
  then have "step_ok w (e i w)" and "kept (c i w)" by auto
  with run assms(2) show ?thesis
    by (auto simp: sys_kept_def step_ok_def dest: set_update_subset_insert [THEN subsetD])
next
  case (drop k ps w)
  with assms(2) show ?thesis
    by (auto simp: sys_kept_def later_refl dest: set_update_subset_insert [THEN subsetD])
next
  case (other w w' ps)
  with assms(2) env_kept show ?thesis by (auto simp: sys_kept_def)
qed

lemma sys_kept_reachable:
  assumes "reachable tid clients env (\<lambda>_ w. w) s s'" and "sys_kept s" and "\<forall>p \<in> clients. kept p"
  shows "sys_kept s' \<and> later (fst s) (fst s')"
  using assms(1)
proof (induction rule: reachable.induct)
  case here
  with assms(2) show ?case by (simp add: sys_kept_def later_refl)
next
  case (more s' s'')
  with sys_kept_step [OF more.hyps(2) _ assms(3)] later_trans show ?case by blast
qed

end

end
