(* ===== verification/Sql_Steps.thy ===== *)
theory Sql_Steps
  imports Kept_World Turn_Changes
begin

text \<open>
  Statements and transactions of a store as atomic steps.  A statement succeeds, fails without an effect, or
  takes effect although the caller sees an error; a transaction that fails is rolled back.  The handler gets
  the error of the store in its own error type.
\<close>

section \<open>Steps\<close>

definition any_time :: "'w \<Rightarrow> bool" where
  "any_time w = True"

definition sql_result :: "(StorageError \<Rightarrow> 'e) \<Rightarrow> DbOutcome \<Rightarrow> StorageError + 'a \<Rightarrow> 'e + 'a" where
  "sql_result fault outcome r =
     (case r of
        Inl e \<Rightarrow> Err (fault e)
      | Inr x \<Rightarrow> (case outcome of DbOk \<Rightarrow> Ok x | DbRejected e \<Rightarrow> Err (fault e) | DbUnconfirmed e \<Rightarrow> Err (fault e)))"

definition sql_query :: "(StorageError \<Rightarrow> 'e) \<Rightarrow> ('i \<Rightarrow> DbOutcome) \<Rightarrow> ('w \<Rightarrow> StorageError + 'a) \<Rightarrow> ('i, 'w, 'e + 'a) prog" where
  "sql_query fault db f = Step any_time (\<lambda>i w. w) (\<lambda>i w. Ret (sql_result fault (db i) (f w)))"

definition committed :: "DbOutcome \<Rightarrow> 'w \<Rightarrow> StorageError + 'w \<times> 'a \<Rightarrow> 'w" where
  "committed outcome w r =
     (case outcome of
        DbRejected e \<Rightarrow> w
      | _ \<Rightarrow> (case r of Inl e \<Rightarrow> w | Inr (w', _) \<Rightarrow> w'))"

definition sql_tx :: "(StorageError \<Rightarrow> 'e) \<Rightarrow> ('i \<Rightarrow> DbOutcome) \<Rightarrow> ('i \<Rightarrow> 'w \<Rightarrow> StorageError + 'w \<times> 'a) \<Rightarrow>
    ('i, 'w, 'e + 'a) prog" where
  "sql_tx fault db f = Step any_time (\<lambda>i w. committed (db i) w (f i w))
     (\<lambda>i w. Ret (sql_result fault (db i) (and_then (f i w) (\<lambda>(_, x). Ok x))))"

text \<open>What the environment provides, such as the clock.\<close>

definition sql_ask :: "('i \<Rightarrow> 'a) \<Rightarrow> ('i, 'w, 'e + 'a) prog" where
  "sql_ask f = Step any_time (\<lambda>i w. w) (\<lambda>i w. Ret (Ok (f i)))"

section \<open>Stores that are kept\<close>

context kept_world
begin

lemma kept_tx:
  assumes "\<And>i w w' x. inv w \<Longrightarrow> f i w = Ok (w', x) \<Longrightarrow> inv w' \<and> later w w'"
  shows "kept (sql_tx fault db f)"
  using assms by (auto simp: sql_tx_def step_ok_def committed_def later_refl split: DbOutcome.splits sum.splits)

lemma kept_query: "kept (sql_query fault db f)"
  by (simp add: sql_query_def)

lemma kept_ask: "kept (sql_ask f)"
  by (simp add: sql_ask_def)

end

section \<open>Conditions of statements\<close>

lemma and_then_Ok: "and_then r k = Ok y \<longleftrightarrow> (\<exists>x. r = Ok x \<and> k x = Ok y)"
  by (simp add: and_then_def split: sum.split)

lemma if_Err_Ok: "(if c then Err e else r) = Ok y \<longleftrightarrow> \<not> c \<and> r = Ok y"
  by simp

lemma ok_or_Ok: "ok_or x e = Ok y \<longleftrightarrow> x = Some y"
  by (simp add: ok_or_def split: option.split)

end
