(* ===== verification/Task_Store.thy ===== *)
theory Task_Store
  imports Sql_Steps Sql_Rows
begin

text \<open>
  Durable tasks and team budgets, \<open>crates/storage/src/lib.rs\<close>.  A durable task is work that a worker
  leases, checkpoints and finishes; its maximal cost is reserved in the budget of its team when it is
  created, and every cost that it reports moves from the reservation to the consumption of the budget.

  A statement or transaction is one atomic step of the shared tables (\<open>Sql_Steps\<close>).  The columns of a budget are integers of the database; a sum that
  leaves 64 bits becomes a real number there and is refused when the row is read.
\<close>

section \<open>Data\<close>

datatype DurableTaskStatus =
    Durable_Queued | Durable_Leased | Durable_Running | Durable_Paused | Durable_Succeeded | Durable_Failed | Durable_Cancelled

record CreateDurableTask =
  cd_scope :: Scope
  cd_kind :: string
  cd_payload :: json
  cd_idempotency_key :: string
  cd_max_attempts :: u32
  cd_max_runtime_seconds :: u64
  cd_max_cost_micros :: u64
  cd_max_runner_cost_micros :: u64

record DurableTask =
  dt_id :: Id
  dt_scope :: Scope
  dt_kind :: string
  dt_payload :: json
  dt_idempotency_key :: string
  dt_status :: DurableTaskStatus
  dt_attempt :: u32
  dt_max_attempts :: u32
  dt_max_runtime_seconds :: u64
  dt_max_cost_micros :: u64
  dt_consumed_cost_micros :: u64
  dt_max_runner_cost_micros :: u64
  dt_consumed_runner_cost_micros :: u64
  dt_lease_owner :: "string option"
  dt_lease_token :: "string option"
  dt_lease_expires_at :: "Timestamp option"
  dt_checkpoint :: "json option"
  dt_result :: "json option"
  dt_error :: "string option"
  dt_cancel_requested :: bool
  dt_created_at :: Timestamp
  dt_started_at :: "Timestamp option"
  dt_updated_at :: Timestamp
  dt_completed_at :: "Timestamp option"

record TeamBudget =
  bud_id :: Id
  bud_scope :: Scope
  bud_period_start :: Timestamp
  bud_period_end :: Timestamp
  bud_model_limit_micros :: u64
  bud_runner_limit_micros :: u64
  bud_model_consumed_micros :: u64
  bud_runner_consumed_micros :: u64
  bud_model_reserved_micros :: u64
  bud_runner_reserved_micros :: u64
  bud_hard_limit :: bool
  bud_created_at :: Timestamp
  bud_updated_at :: Timestamp

record CreateTeamBudget =
  cb_scope :: Scope
  cb_period_start :: Timestamp
  cb_period_end :: Timestamp
  cb_model_limit_micros :: u64
  cb_runner_limit_micros :: u64
  cb_hard_limit :: bool

record ConsumeTeamBudget =
  cn_scope :: Scope
  cn_model_micros :: u64
  cn_runner_micros :: u64
  cn_idempotency_key :: string

text \<open>The rows of \<open>team_budgets\<close>, \<open>team_budget_reservations\<close> and \<open>team_budget_consumptions\<close>.\<close>

record BudgetRow =
  tb_id :: Id
  tb_organization_id :: Id
  tb_team_id :: Id
  tb_actor_id :: Id
  tb_period_start :: Timestamp
  tb_period_end :: Timestamp
  tb_model_limit :: int
  tb_runner_limit :: int
  tb_model_consumed :: int
  tb_runner_consumed :: int
  tb_model_reserved :: int
  tb_runner_reserved :: int
  tb_hard_limit :: bool
  tb_created_at :: Timestamp
  tb_updated_at :: Timestamp

datatype ReservationStatus = Res_Active | Res_Settled | Res_Released

record ReservationRow =
  br_task_id :: Id
  br_budget_id :: Id
  br_remaining :: int
  br_runner_remaining :: int
  br_settled :: int
  br_runner_settled :: int
  br_status :: ReservationStatus
  br_updated_at :: Timestamp

record ConsumptionRow =
  bc_budget_id :: Id
  bc_idempotency_key :: string
  bc_model :: int
  bc_runner :: int

text \<open>The tables.  Of the capacity of a team only the number of concurrent agents matters here.\<close>

record TaskWorld =
  kw_tasks :: "DurableTask list"
  kw_budgets :: "BudgetRow list"
  kw_reservations :: "ReservationRow list"
  kw_consumptions :: "ConsumptionRow list"
  kw_enabled :: "Id \<times> Id \<Rightarrow> bool option"
  kw_concurrency :: "Id \<times> Id \<Rightarrow> u32 option"

text \<open>The input of a step: the outcome of the statement, two readings of the clock, the identifier that
  would be generated and the choice of the database among rows of one rank.\<close>

record TaskInput =
  ki_thread :: nat
  ki_db :: DbOutcome
  ki_clock :: Timestamp
  ki_now :: Timestamp
  ki_id :: Id
  ki_choice :: nat

datatype TaskFault = Task_Error StorageError | Task_Panic

type_synonym 'a task_prog = "(TaskInput, TaskWorld, TaskFault + 'a) prog"

section \<open>Statements and transactions\<close>

abbreviation task_query :: "(TaskWorld \<Rightarrow> StorageError + 'a) \<Rightarrow> 'a task_prog" where
  "task_query \<equiv> sql_query Task_Error ki_db"

abbreviation task_tx :: "(TaskInput \<Rightarrow> TaskWorld \<Rightarrow> StorageError + TaskWorld \<times> 'a) \<Rightarrow> 'a task_prog" where
  "task_tx \<equiv> sql_tx Task_Error ki_db"

abbreviation task_clock :: "Timestamp task_prog" where
  "task_clock \<equiv> sql_ask ki_now"

abbreviation refuse :: "StorageError \<Rightarrow> 'a task_prog" where
  "refuse e \<equiv> Ret (Err (Task_Error e))"

definition too_large :: "u64 \<Rightarrow> bool" where
  "too_large v \<longleftrightarrow> 2 ^ 63 \<le> uint v"

definition team_of :: "Scope \<Rightarrow> Id \<times> Id" where
  "team_of scope = (sc_organization_id scope, sc_team_id scope)"

section \<open>Reading tasks\<close>

definition find_task :: "Id \<Rightarrow> TaskWorld \<Rightarrow> StorageError + DurableTask" where
  "find_task task_id w = ok_or (find_row dt_id task_id (kw_tasks w)) SE_NotFound"

definition get_durable_task :: "Scope \<Rightarrow> Id \<Rightarrow> DurableTask task_prog" where
  "get_durable_task scope task_id = task_query (\<lambda>w.
     and_then (find_task task_id w) (\<lambda>task.
     and_then (ensure_team_scope (dt_scope task) scope) (\<lambda>_. Ok task)))"

definition task_turn_id :: "DurableTask \<Rightarrow> string option" where
  "task_turn_id task = Option.bind (Option.bind (dt_checkpoint task) (\<lambda>v. jget v ''turn_id'')) as_str"

definition find_paused_durable_task_for_turn :: "Scope \<Rightarrow> Id \<Rightarrow> DurableTask option task_prog" where
  "find_paused_durable_task_for_turn scope turn_id = task_query (\<lambda>w.
     Ok (find (\<lambda>t. task_turn_id t = Some turn_id)
       (filter (\<lambda>t. team_of (dt_scope t) = team_of scope \<and> dt_status t = Durable_Paused) (kw_tasks w))))"

definition find_durable_task_for_turn :: "Scope \<Rightarrow> Id \<Rightarrow> DurableTask option task_prog" where
  "find_durable_task_for_turn scope turn_id = task_query (\<lambda>w.
     Ok (find (\<lambda>t. task_turn_id t = Some turn_id) (filter (\<lambda>t. team_of (dt_scope t) = team_of scope) (kw_tasks w))))"

definition task_terminal :: "DurableTaskStatus \<Rightarrow> bool" where
  "task_terminal s \<longleftrightarrow> s \<in> {Durable_Succeeded, Durable_Failed, Durable_Cancelled}"

definition task_held :: "DurableTaskStatus \<Rightarrow> bool" where
  "task_held s \<longleftrightarrow> s \<in> {Durable_Leased, Durable_Running}"

definition clear_lease :: "DurableTask \<Rightarrow> DurableTask" where
  "clear_lease t = t\<lparr>dt_lease_owner := None, dt_lease_token := None, dt_lease_expires_at := None\<rparr>"

section \<open>Budgets\<close>

definition unsigned_column :: "string \<Rightarrow> int \<Rightarrow> StorageError + u64" where
  "unsigned_column column v =
     (if v < 0 then Err (SE_InvalidData (''negative stored budget value: '' @ column))
      else if 2 ^ 63 \<le> v then Err (SE_Database ''mismatched types'')
      else Ok (word_of_int v))"

definition row_to_team_budget :: "BudgetRow \<Rightarrow> StorageError + TeamBudget" where
  "row_to_team_budget b =
     and_then (unsigned_column ''model_limit_micros'' (tb_model_limit b)) (\<lambda>model_limit.
     and_then (unsigned_column ''runner_limit_micros'' (tb_runner_limit b)) (\<lambda>runner_limit.
     and_then (unsigned_column ''model_consumed_micros'' (tb_model_consumed b)) (\<lambda>model_consumed.
     and_then (unsigned_column ''runner_consumed_micros'' (tb_runner_consumed b)) (\<lambda>runner_consumed.
     and_then (unsigned_column ''model_reserved_micros'' (tb_model_reserved b)) (\<lambda>model_reserved.
     and_then (unsigned_column ''runner_reserved_micros'' (tb_runner_reserved b)) (\<lambda>runner_reserved.
     Ok \<lparr>bud_id = tb_id b,
         bud_scope = \<lparr>sc_organization_id = tb_organization_id b, sc_team_id = tb_team_id b,
           sc_actor_id = tb_actor_id b, sc_goal_id = None, sc_task_id = None\<rparr>,
         bud_period_start = tb_period_start b, bud_period_end = tb_period_end b,
         bud_model_limit_micros = model_limit, bud_runner_limit_micros = runner_limit,
         bud_model_consumed_micros = model_consumed, bud_runner_consumed_micros = runner_consumed,
         bud_model_reserved_micros = model_reserved, bud_runner_reserved_micros = runner_reserved,
         bud_hard_limit = tb_hard_limit b, bud_created_at = tb_created_at b, bud_updated_at = tb_updated_at b\<rparr>))))))"

definition budget_team :: "BudgetRow \<Rightarrow> Id \<times> Id" where
  "budget_team b = (tb_organization_id b, tb_team_id b)"

text \<open>The budget in force, the latest by its start.\<close>

definition active_budget :: "Scope \<Rightarrow> Timestamp \<Rightarrow> nat \<Rightarrow> BudgetRow list \<Rightarrow> BudgetRow option" where
  "active_budget scope now choice budgets =
     first_by (\<lambda>b. - tb_period_start b) choice
       (filter (\<lambda>b. budget_team b = team_of scope \<and> tb_period_start b \<le> now \<and> now < tb_period_end b) budgets)"

definition create_team_budget :: "CreateTeamBudget \<Rightarrow> TeamBudget task_prog" where
  "create_team_budget input =
     (if cb_period_end input \<le> cb_period_start input \<or> too_large (cb_model_limit_micros input) \<or>
         too_large (cb_runner_limit_micros input)
      then refuse (SE_InvalidData ''invalid Team budget period or limit'')
      else
      try_prog (task_query (\<lambda>w. Ok (length (filter (\<lambda>b. budget_team b = team_of (cb_scope input) \<and>
          tb_period_start b < cb_period_end input \<and> cb_period_start input < tb_period_end b) (kw_budgets w))))) (\<lambda>overlaps.
      if overlaps \<noteq> 0 then refuse (SE_InvalidState ''Team budget periods cannot overlap'')
      else task_tx (\<lambda>i w.
        let row = \<lparr>tb_id = ki_id i, tb_organization_id = sc_organization_id (cb_scope input),
              tb_team_id = sc_team_id (cb_scope input), tb_actor_id = sc_actor_id (cb_scope input),
              tb_period_start = cb_period_start input, tb_period_end = cb_period_end input,
              tb_model_limit = uint (cb_model_limit_micros input), tb_runner_limit = uint (cb_runner_limit_micros input),
              tb_model_consumed = 0, tb_runner_consumed = 0, tb_model_reserved = 0, tb_runner_reserved = 0,
              tb_hard_limit = cb_hard_limit input, tb_created_at = ki_now i, tb_updated_at = ki_now i\<rparr> in
        if find_row tb_id (tb_id row) (kw_budgets w) \<noteq> None
        then Err (SE_Database ''UNIQUE constraint failed: team_budgets.id'')
        else if list_ex (\<lambda>b. tb_team_id b = tb_team_id row \<and> tb_period_start b = tb_period_start row \<and>
                 tb_period_end b = tb_period_end row) (kw_budgets w)
        then Err (SE_Database ''UNIQUE constraint failed: team_budgets.team_id'')
        else Ok (w\<lparr>kw_budgets := kw_budgets w @ [row]\<rparr>,
          \<lparr>bud_id = ki_id i, bud_scope = cb_scope input, bud_period_start = cb_period_start input,
           bud_period_end = cb_period_end input, bud_model_limit_micros = cb_model_limit_micros input,
           bud_runner_limit_micros = cb_runner_limit_micros input, bud_model_consumed_micros = 0,
           bud_runner_consumed_micros = 0, bud_model_reserved_micros = 0, bud_runner_reserved_micros = 0,
           bud_hard_limit = cb_hard_limit input, bud_created_at = ki_now i, bud_updated_at = ki_now i\<rparr>))))"

text \<open>Whether the limits leave room for more.\<close>

definition budget_fits :: "int \<Rightarrow> int \<Rightarrow> BudgetRow \<Rightarrow> bool" where
  "budget_fits model runner b \<longleftrightarrow>
     tb_model_consumed b + tb_model_reserved b + model \<le> tb_model_limit b \<and>
     tb_runner_consumed b + tb_runner_reserved b + runner \<le> tb_runner_limit b"

definition record_consumption :: "ConsumeTeamBudget \<Rightarrow> TeamBudget \<Rightarrow> TaskInput \<Rightarrow> TaskWorld \<Rightarrow>
    StorageError + TaskWorld \<times> TeamBudget" where
  "record_consumption input budget i w =
     (let model = uint (cn_model_micros input); runner = uint (cn_runner_micros input);
          charged = (\<lambda>b. tb_id b = bud_id budget \<and> (bud_hard_limit budget \<longrightarrow> budget_fits model runner b));
          budgets = update_where charged (\<lambda>b. b\<lparr>tb_model_consumed := tb_model_consumed b + model,
            tb_runner_consumed := tb_runner_consumed b + runner, tb_actor_id := sc_actor_id (cn_scope input),
            tb_updated_at := ki_now i\<rparr>) (kw_budgets w) in
      if \<not> list_ex charged (kw_budgets w) then Err (SE_InvalidState ''Team hard budget limit exceeded'')
      else
        and_then (ok_or (find_row tb_id (bud_id budget) budgets) SE_NotFound) (\<lambda>row.
        and_then (row_to_team_budget row) (\<lambda>updated.
        Ok (w\<lparr>kw_budgets := budgets, kw_consumptions := kw_consumptions w @
             [\<lparr>bc_budget_id = bud_id budget, bc_idempotency_key = cn_idempotency_key input,
               bc_model = model, bc_runner = runner\<rparr>]\<rparr>, updated))))"

definition consume_once :: "ConsumeTeamBudget \<Rightarrow> TeamBudget \<Rightarrow> TaskInput \<Rightarrow> TaskWorld \<Rightarrow> StorageError + TaskWorld \<times> TeamBudget" where
  "consume_once input budget i w =
     (case find (\<lambda>c. bc_budget_id c = bud_id budget \<and> bc_idempotency_key c = cn_idempotency_key input)
             (kw_consumptions w) of
        Some existing \<Rightarrow>
          if bc_model existing \<noteq> uint (cn_model_micros input) \<or> bc_runner existing \<noteq> uint (cn_runner_micros input)
          then Err (SE_InvalidState ''idempotency key reused with different consumption'')
          else Ok (w, budget)
      | None \<Rightarrow> record_consumption input budget i w)"

definition consume_budget :: "ConsumeTeamBudget \<Rightarrow> TaskInput \<Rightarrow> TaskWorld \<Rightarrow> StorageError + TaskWorld \<times> TeamBudget" where
  "consume_budget input i w =
     and_then (ok_or (active_budget (cn_scope input) (ki_now i) (ki_choice i) (kw_budgets w)) SE_NotFound) (\<lambda>row.
     and_then (row_to_team_budget row) (\<lambda>budget. consume_once input budget i w))"

definition consume_team_budget :: "ConsumeTeamBudget \<Rightarrow> TeamBudget task_prog" where
  "consume_team_budget input =
     (if blank (cn_idempotency_key input) \<or> 200 < length (cn_idempotency_key input) \<or>
         too_large (cn_model_micros input) \<or> too_large (cn_runner_micros input)
      then refuse (SE_InvalidData ''invalid budget consumption'')
      else task_tx (consume_budget input))"

text \<open>What a task has spent moves from its reservation to the consumption of the budget; the end of the
  task releases the rest.\<close>

definition settle_durable_budget :: "Id \<Rightarrow> u64 \<Rightarrow> u64 \<Rightarrow> bool \<Rightarrow> Timestamp \<Rightarrow> TaskWorld \<Rightarrow> StorageError + TaskWorld" where
  "settle_durable_budget task_id model_delta runner_delta ends now w =
     (case find (\<lambda>r. br_task_id r = task_id \<and> br_status r = Res_Active) (kw_reservations w) of
        None \<Rightarrow> Ok w
      | Some row \<Rightarrow>
          if br_remaining row < 0 then Err (SE_InvalidData ''negative budget reservation'')
          else if br_runner_remaining row < 0 then Err (SE_InvalidData ''negative runner budget reservation'')
          else if br_remaining row < uint model_delta \<or> br_runner_remaining row < uint runner_delta
          then Err (SE_InvalidState ''task consumption exceeds its Team budget reservation'')
          else if too_large model_delta then Err (SE_InvalidData ''cost is too large'')
          else if too_large runner_delta then Err (SE_InvalidData ''runner cost is too large'')
          else
          let model_released = (if ends then br_remaining row else uint model_delta);
              runner_released = (if ends then br_runner_remaining row else uint runner_delta);
              covers = (\<lambda>b. tb_id b = br_budget_id row \<and> model_released \<le> tb_model_reserved b \<and>
                            runner_released \<le> tb_runner_reserved b) in
          if \<not> list_ex covers (kw_budgets w)
          then Err (SE_InvalidState ''Team budget reservation changed concurrently'')
          else Ok (w\<lparr>kw_budgets := update_where covers
                (\<lambda>b. b\<lparr>tb_model_consumed := tb_model_consumed b + uint model_delta,
                      tb_runner_consumed := tb_runner_consumed b + uint runner_delta,
                      tb_model_reserved := tb_model_reserved b - model_released,
                      tb_runner_reserved := tb_runner_reserved b - runner_released, tb_updated_at := now\<rparr>) (kw_budgets w),
              kw_reservations := update_where (\<lambda>r. br_task_id r = task_id \<and> br_status r = Res_Active)
                (\<lambda>r. r\<lparr>br_remaining := (if ends then 0 else br_remaining r - uint model_delta),
                      br_runner_remaining := (if ends then 0 else br_runner_remaining r - uint runner_delta),
                      br_settled := br_settled r + uint model_delta,
                      br_runner_settled := br_runner_settled r + uint runner_delta,
                      br_status := (if ends then Res_Settled else br_status r), br_updated_at := now\<rparr>)
                (kw_reservations w)\<rparr>))"

end
