(* ===== verification/Durable_Task.thy ===== *)
theory Durable_Task
  imports Task_Store
begin

text \<open>
  The operations on durable tasks, \<open>crates/storage/src/lib.rs\<close>: creation with its reservation, leases,
  checkpoints, completion, failure with retry, pauses, cancellation and the switch of a team.
\<close>

section \<open>Creation\<close>

definition same_work_order :: "CreateDurableTask \<Rightarrow> DurableTask \<Rightarrow> bool" where
  "same_work_order input task \<longleftrightarrow>
     dt_kind task = cd_kind input \<and> dt_payload task = cd_payload input \<and>
     dt_max_attempts task = cd_max_attempts input \<and> dt_max_runtime_seconds task = cd_max_runtime_seconds input \<and>
     dt_max_cost_micros task = cd_max_cost_micros input \<and>
     dt_max_runner_cost_micros task = cd_max_runner_cost_micros input"

definition queued_task :: "CreateDurableTask \<Rightarrow> Id \<Rightarrow> Timestamp \<Rightarrow> DurableTask" where
  "queued_task input new_id now =
     \<lparr>dt_id = new_id, dt_scope = cd_scope input, dt_kind = cd_kind input, dt_payload = cd_payload input,
      dt_idempotency_key = cd_idempotency_key input, dt_status = Durable_Queued, dt_attempt = 0,
      dt_max_attempts = cd_max_attempts input, dt_max_runtime_seconds = cd_max_runtime_seconds input,
      dt_max_cost_micros = cd_max_cost_micros input, dt_consumed_cost_micros = 0,
      dt_max_runner_cost_micros = cd_max_runner_cost_micros input, dt_consumed_runner_cost_micros = 0,
      dt_lease_owner = None, dt_lease_token = None, dt_lease_expires_at = None, dt_checkpoint = None,
      dt_result = None, dt_error = None, dt_cancel_requested = False, dt_created_at = now, dt_started_at = None,
      dt_updated_at = now, dt_completed_at = None\<rparr>"

text \<open>The reservation of the maximal cost of a new task in the budget in force, if there is one.\<close>

definition reserve_budget :: "CreateDurableTask \<Rightarrow> Id \<Rightarrow> Timestamp \<Rightarrow> nat \<Rightarrow> TaskWorld \<Rightarrow> StorageError + TaskWorld" where
  "reserve_budget input new_id now choice w =
     (let max_cost = uint (cd_max_cost_micros input); max_runner_cost = uint (cd_max_runner_cost_micros input) in
      if \<not> (max_cost > 0 \<or> max_runner_cost > 0) then Ok w
      else case active_budget (cd_scope input) now choice (kw_budgets w) of
        None \<Rightarrow> Ok w
      | Some budget \<Rightarrow>
          let reserved = (\<lambda>b. tb_id b = tb_id budget \<and> (tb_hard_limit budget \<longrightarrow> budget_fits max_cost max_runner_cost b)) in
          if \<not> list_ex reserved (kw_budgets w)
          then Err (SE_InvalidState ''Team model budget cannot reserve task maximum'')
          else if find_row br_task_id new_id (kw_reservations w) \<noteq> None
          then Err (SE_Database ''UNIQUE constraint failed: team_budget_reservations.durable_task_id'')
          else Ok (w\<lparr>kw_budgets := update_where reserved
                 (\<lambda>b. b\<lparr>tb_model_reserved := tb_model_reserved b + max_cost,
                       tb_runner_reserved := tb_runner_reserved b + max_runner_cost, tb_updated_at := now\<rparr>) (kw_budgets w),
               kw_reservations := kw_reservations w @
                 [\<lparr>br_task_id = new_id, br_budget_id = tb_id budget, br_remaining = max_cost,
                   br_runner_remaining = max_runner_cost, br_settled = 0, br_runner_settled = 0,
                   br_status = Res_Active, br_updated_at = now\<rparr>]\<rparr>))"

text \<open>The transaction gives the task that has the key already, or the identifier of a new one.\<close>

definition insert_durable_task :: "CreateDurableTask \<Rightarrow> TaskInput \<Rightarrow> TaskWorld \<Rightarrow>
    StorageError + TaskWorld \<times> (DurableTask + Id)" where
  "insert_durable_task input i w =
     (if too_large (cd_max_runtime_seconds input) then Err (SE_InvalidData ''runtime limit is too large'')
      else case find (\<lambda>t. team_of (dt_scope t) = team_of (cd_scope input) \<and>
                 dt_idempotency_key t = cd_idempotency_key input) (kw_tasks w) of
        Some task \<Rightarrow>
          if \<not> same_work_order input task
          then Err (SE_InvalidState ''idempotency key was already used for different work'')
          else Ok (w, Inl task)
      | None \<Rightarrow>
          if find_row dt_id (ki_id i) (kw_tasks w) \<noteq> None
          then Err (SE_Database ''UNIQUE constraint failed: durable_tasks.id'')
          else
            and_then (reserve_budget input (ki_id i) (ki_now i) (ki_choice i)
                (w\<lparr>kw_tasks := kw_tasks w @ [queued_task input (ki_id i) (ki_now i)]\<rparr>)) (\<lambda>w'.
            Ok (w', Inr (ki_id i))))"

definition create_durable_task :: "CreateDurableTask \<Rightarrow> DurableTask task_prog" where
  "create_durable_task input =
     (if blank (cd_kind input) \<or> blank (cd_idempotency_key input) \<or> cd_max_attempts input = 0 \<or>
         cd_max_runtime_seconds input = 0
      then refuse (SE_InvalidData ''kind, idempotency key and positive execution limits are required'')
      else if too_large (cd_max_cost_micros input) then refuse (SE_InvalidData ''cost limit is too large'')
      else if too_large (cd_max_runner_cost_micros input) then refuse (SE_InvalidData ''runner cost limit is too large'')
      else
      try_prog (task_tx (insert_durable_task input)) (\<lambda>r.
      case r of Inl task \<Rightarrow> Ret (Ok task) | Inr new_id \<Rightarrow> get_durable_task (cd_scope input) new_id))"

section \<open>Leases\<close>

text \<open>\<open>now + Duration::seconds(..)\<close> panics beyond the last time \<open>max_utc\<close> of the clock library.\<close>

definition lease_end :: "Timestamp \<Rightarrow> Timestamp \<Rightarrow> u64 \<Rightarrow> TaskFault + Timestamp" where
  "lease_end max_utc now lease_seconds =
     (if too_large lease_seconds then Err (Task_Error (SE_InvalidData ''lease is too large''))
      else let ends = now + uint lease_seconds * 10 ^ 9 in if ends \<le> max_utc then Ok ends else Err Task_Panic)"

text \<open>What may be leased: an enabled team with a free place, and a task that is queued, or whose lease has
  expired, with attempts, cost and time left.  The elapsed time is day arithmetic in floating point of the
  database, a parameter.\<close>

definition leases_running :: "Id \<times> Id \<Rightarrow> Timestamp \<Rightarrow> DurableTask list \<Rightarrow> nat" where
  "leases_running team now tasks =
     length (filter (\<lambda>t. team_of (dt_scope t) = team \<and> task_held (dt_status t) \<and>
       (case dt_lease_expires_at t of None \<Rightarrow> False | Some e \<Rightarrow> now \<le> e)) tasks)"

definition leasable :: "(Timestamp \<Rightarrow> Timestamp \<Rightarrow> u64 \<Rightarrow> bool) \<Rightarrow> string option \<Rightarrow> Timestamp \<Rightarrow> TaskWorld \<Rightarrow>
    DurableTask \<Rightarrow> bool" where
  "leasable elapsed_below kind now w t \<longleftrightarrow>
     (kind = None \<or> kind = Some (dt_kind t)) \<and>
     (case kw_enabled w (team_of (dt_scope t)) of None \<Rightarrow> True | Some enabled \<Rightarrow> enabled) \<and>
     \<not> dt_cancel_requested t \<and> dt_attempt t < dt_max_attempts t \<and>
     dt_consumed_cost_micros t \<le> dt_max_cost_micros t \<and>
     (dt_status t = Durable_Queued \<or>
      task_held (dt_status t) \<and> (case dt_lease_expires_at t of None \<Rightarrow> False | Some e \<Rightarrow> e < now)) \<and>
     (case dt_started_at t of None \<Rightarrow> True | Some s \<Rightarrow> elapsed_below now s (dt_max_runtime_seconds t)) \<and>
     (case kw_concurrency w (team_of (dt_scope t)) of
        None \<Rightarrow> True | Some n \<Rightarrow> leases_running (team_of (dt_scope t)) now (kw_tasks w) < unat n)"

definition lease_row :: "string \<Rightarrow> string \<Rightarrow> Timestamp \<Rightarrow> Timestamp \<Rightarrow> DurableTask \<Rightarrow> DurableTask" where
  "lease_row worker token expires now t =
     t\<lparr>dt_status := Durable_Leased, dt_attempt := dt_attempt t + 1, dt_lease_owner := Some worker,
       dt_lease_token := Some token, dt_lease_expires_at := Some expires,
       dt_started_at := (case dt_started_at t of None \<Rightarrow> Some now | Some s \<Rightarrow> Some s), dt_updated_at := now\<rparr>"

definition lease_next :: "(Timestamp \<Rightarrow> Timestamp \<Rightarrow> u64 \<Rightarrow> bool) \<Rightarrow> string \<Rightarrow> string option \<Rightarrow> Timestamp \<Rightarrow> Timestamp \<Rightarrow>
    TaskInput \<Rightarrow> TaskWorld \<Rightarrow> StorageError + TaskWorld \<times> DurableTask option" where
  "lease_next elapsed_below worker kind now expires i w =
     (case first_by dt_created_at (ki_choice i) (filter (leasable elapsed_below kind now w) (kw_tasks w)) of
        None \<Rightarrow> Ok (w, None)
      | Some t \<Rightarrow>
          Ok (w\<lparr>kw_tasks := update_where (\<lambda>d. dt_id d = dt_id t) (lease_row worker (ki_id i) expires now) (kw_tasks w)\<rparr>,
              Some (lease_row worker (ki_id i) expires now t)))"

definition lease_durable_task_kind :: "Timestamp \<Rightarrow> (Timestamp \<Rightarrow> Timestamp \<Rightarrow> u64 \<Rightarrow> bool) \<Rightarrow> string \<Rightarrow> u64 \<Rightarrow>
    string option \<Rightarrow> DurableTask option task_prog" where
  "lease_durable_task_kind max_utc elapsed_below worker lease_seconds kind =
     (if blank worker \<or> lease_seconds = 0 then refuse (SE_InvalidData ''worker and positive lease are required'')
      else
      try_prog task_clock (\<lambda>now.
      try_prog (Ret (lease_end max_utc now lease_seconds)) (\<lambda>expires.
      task_tx (lease_next elapsed_below worker kind now expires))))"

definition lease_durable_task :: "Timestamp \<Rightarrow> (Timestamp \<Rightarrow> Timestamp \<Rightarrow> u64 \<Rightarrow> bool) \<Rightarrow> string \<Rightarrow> u64 \<Rightarrow>
    DurableTask option task_prog" where
  "lease_durable_task max_utc elapsed_below worker lease_seconds =
     lease_durable_task_kind max_utc elapsed_below worker lease_seconds None"

text \<open>\<open>num_seconds\<close> of a duration truncates towards zero.\<close>

definition num_seconds :: "int \<Rightarrow> int" where
  "num_seconds d = (if 0 \<le> d then d div 10 ^ 9 else - ((- d) div 10 ^ 9))"

definition runtime_over :: "Timestamp \<Rightarrow> DurableTask \<Rightarrow> bool" where
  "runtime_over now t =
     (case dt_started_at t of
        None \<Rightarrow> False
      | Some started \<Rightarrow> min (uint (dt_max_runtime_seconds t)) (2 ^ 63 - 1) \<le> num_seconds (now - started))"

definition renew_durable_task_lease :: "Timestamp \<Rightarrow> Id \<Rightarrow> string \<Rightarrow> u64 \<Rightarrow> DurableTask task_prog" where
  "renew_durable_task_lease max_utc task_id lease_token lease_seconds =
     try_prog (task_query (find_task task_id)) (\<lambda>current.
     try_prog task_clock (\<lambda>now.
     if dt_lease_token current \<noteq> Some lease_token \<or> \<not> task_held (dt_status current) \<or> dt_cancel_requested current \<or>
        runtime_over now current
     then refuse (SE_InvalidState ''task lease cannot be renewed'')
     else
     try_prog (Ret (lease_end max_utc now lease_seconds)) (\<lambda>expires.
     try_prog (task_tx (\<lambda>i w.
       let renewed = (\<lambda>t. dt_id t = task_id \<and> dt_lease_token t = Some lease_token \<and> \<not> dt_cancel_requested t) in
       if \<not> list_ex renewed (kw_tasks w) then Err (SE_InvalidState ''task lease changed'')
       else Ok (w\<lparr>kw_tasks := update_where renewed
              (\<lambda>t. t\<lparr>dt_lease_expires_at := Some expires, dt_updated_at := now\<rparr>) (kw_tasks w)\<rparr>, ()))) (\<lambda>_.
     task_query (find_task task_id)))))"

section \<open>Progress of a leased task\<close>

record LeasedTaskUpdate =
  lu_status :: DurableTaskStatus
  lu_checkpoint :: "json option"
  lu_result :: "json option"
  lu_model_cost_micros :: "u64 option"
  lu_runner_cost_micros :: "u64 option"

definition or_else :: "'a option \<Rightarrow> 'a option \<Rightarrow> 'a option" where
  "or_else a b = (case a of None \<Rightarrow> b | Some x \<Rightarrow> Some x)"

definition unwrap_or :: "'a option \<Rightarrow> 'a \<Rightarrow> 'a" where
  "unwrap_or a d = (case a of None \<Rightarrow> d | Some x \<Rightarrow> x)"

definition live_lease :: "string \<Rightarrow> Timestamp \<Rightarrow> DurableTask \<Rightarrow> bool" where
  "live_lease lease_token now t \<longleftrightarrow>
     dt_lease_token t = Some lease_token \<and> task_held (dt_status t) \<and>
     (case dt_lease_expires_at t of None \<Rightarrow> False | Some e \<Rightarrow> now < e)"

text \<open>The rows after an update of one task inside a transaction, and the row that is read back.\<close>

definition write_task :: "Id \<Rightarrow> string \<Rightarrow> (DurableTask \<Rightarrow> DurableTask) \<Rightarrow> string \<Rightarrow> TaskWorld \<Rightarrow>
    StorageError + TaskWorld \<times> DurableTask" where
  "write_task task_id lease_token f changed w =
     (let own = (\<lambda>t. dt_id t = task_id \<and> dt_lease_token t = Some lease_token);
          w' = w\<lparr>kw_tasks := update_where own f (kw_tasks w)\<rparr> in
      if \<not> list_ex own (kw_tasks w) then Err (SE_InvalidState changed)
      else and_then (find_task task_id w') (\<lambda>t. Ok (w', t)))"

definition leased_update :: "Id \<Rightarrow> string \<Rightarrow> LeasedTaskUpdate \<Rightarrow> TaskInput \<Rightarrow> TaskWorld \<Rightarrow>
    StorageError + TaskWorld \<times> DurableTask" where
  "leased_update task_id lease_token update i w =
     and_then (find_task task_id w) (\<lambda>current.
     if \<not> live_lease lease_token (ki_clock i) current \<or> dt_cancel_requested current
     then Err (SE_InvalidState ''active task lease is required'')
     else
     let cost = unwrap_or (lu_model_cost_micros update) (dt_consumed_cost_micros current);
         runner_cost = unwrap_or (lu_runner_cost_micros update) (dt_consumed_runner_cost_micros current) in
     if cost < dt_consumed_cost_micros current \<or> dt_max_cost_micros current < cost
     then Err (SE_InvalidState ''task cost budget was exceeded or decreased'')
     else if runner_cost < dt_consumed_runner_cost_micros current \<or> dt_max_runner_cost_micros current < runner_cost
     then Err (SE_InvalidState ''task runner cost budget was exceeded or decreased'')
     else
     let ends = (lu_status update = Durable_Succeeded); now = ki_now i in
     and_then (settle_durable_budget task_id (cost - dt_consumed_cost_micros current)
         (runner_cost - dt_consumed_runner_cost_micros current) ends now w) (\<lambda>w.
     if too_large cost then Err (SE_InvalidData ''cost is too large'')
     else if too_large runner_cost then Err (SE_InvalidData ''runner cost is too large'')
     else write_task task_id lease_token
       (\<lambda>t. (if ends then clear_lease t else t)\<lparr>dt_status := lu_status update,
            dt_checkpoint := or_else (lu_checkpoint update) (dt_checkpoint t),
            dt_result := or_else (lu_result update) (dt_result t), dt_consumed_cost_micros := cost,
            dt_consumed_runner_cost_micros := runner_cost, dt_updated_at := now,
            dt_completed_at := (if ends then Some now else dt_completed_at t)\<rparr>) ''task lease changed'' w))"

definition update_leased_task :: "Id \<Rightarrow> string \<Rightarrow> LeasedTaskUpdate \<Rightarrow> DurableTask task_prog" where
  "update_leased_task task_id lease_token update = task_tx (leased_update task_id lease_token update)"

definition start_durable_task :: "Id \<Rightarrow> string \<Rightarrow> DurableTask task_prog" where
  "start_durable_task task_id lease_token = update_leased_task task_id lease_token
     \<lparr>lu_status = Durable_Running, lu_checkpoint = None, lu_result = None, lu_model_cost_micros = None,
      lu_runner_cost_micros = None\<rparr>"

definition checkpoint_durable_task :: "Id \<Rightarrow> string \<Rightarrow> json \<Rightarrow> u64 \<Rightarrow> DurableTask task_prog" where
  "checkpoint_durable_task task_id lease_token checkpoint cost = update_leased_task task_id lease_token
     \<lparr>lu_status = Durable_Running, lu_checkpoint = Some checkpoint, lu_result = None,
      lu_model_cost_micros = Some cost, lu_runner_cost_micros = None\<rparr>"

definition checkpoint_durable_task_costs :: "Id \<Rightarrow> string \<Rightarrow> json \<Rightarrow> u64 \<Rightarrow> u64 \<Rightarrow> DurableTask task_prog" where
  "checkpoint_durable_task_costs task_id lease_token checkpoint cost runner_cost = update_leased_task task_id lease_token
     \<lparr>lu_status = Durable_Running, lu_checkpoint = Some checkpoint, lu_result = None,
      lu_model_cost_micros = Some cost, lu_runner_cost_micros = Some runner_cost\<rparr>"

definition complete_durable_task :: "Id \<Rightarrow> string \<Rightarrow> json \<Rightarrow> u64 \<Rightarrow> DurableTask task_prog" where
  "complete_durable_task task_id lease_token result cost = update_leased_task task_id lease_token
     \<lparr>lu_status = Durable_Succeeded, lu_checkpoint = None, lu_result = Some result,
      lu_model_cost_micros = Some cost, lu_runner_cost_micros = None\<rparr>"

definition complete_durable_task_costs :: "Id \<Rightarrow> string \<Rightarrow> json \<Rightarrow> u64 \<Rightarrow> u64 \<Rightarrow> DurableTask task_prog" where
  "complete_durable_task_costs task_id lease_token result cost runner_cost = update_leased_task task_id lease_token
     \<lparr>lu_status = Durable_Succeeded, lu_checkpoint = None, lu_result = Some result,
      lu_model_cost_micros = Some cost, lu_runner_cost_micros = Some runner_cost\<rparr>"

definition fail_leased :: "Id \<Rightarrow> string \<Rightarrow> string \<Rightarrow> bool \<Rightarrow> u64 \<Rightarrow> u64 option \<Rightarrow> TaskInput \<Rightarrow> TaskWorld \<Rightarrow>
    StorageError + TaskWorld \<times> DurableTask" where
  "fail_leased task_id lease_token error retryable cost consumed_runner i w =
     and_then (find_task task_id w) (\<lambda>current.
     if dt_lease_token current \<noteq> Some lease_token \<or> \<not> task_held (dt_status current)
     then Err (SE_InvalidState ''active task lease is required'')
     else if cost < dt_consumed_cost_micros current \<or> dt_max_cost_micros current < cost
     then Err (SE_InvalidState ''task cost budget was exceeded or decreased'')
     else
     let runner_cost = unwrap_or consumed_runner (dt_consumed_runner_cost_micros current) in
     if runner_cost < dt_consumed_runner_cost_micros current \<or> dt_max_runner_cost_micros current < runner_cost
     then Err (SE_InvalidState ''task runner cost budget was exceeded or decreased'')
     else
     let retry = (retryable \<and> dt_attempt current < dt_max_attempts current \<and> \<not> dt_cancel_requested current);
         now = ki_now i in
     and_then (settle_durable_budget task_id (cost - dt_consumed_cost_micros current)
         (runner_cost - dt_consumed_runner_cost_micros current) (\<not> retry) now w) (\<lambda>w.
     if too_large cost then Err (SE_InvalidData ''cost is too large'')
     else if too_large runner_cost then Err (SE_InvalidData ''runner cost is too large'')
     else
     let w' = w\<lparr>kw_tasks := update_where (\<lambda>t. dt_id t = task_id \<and> dt_lease_token t = Some lease_token)
           (\<lambda>t. (clear_lease t)\<lparr>dt_status := (if retry then Durable_Queued else Durable_Failed), dt_error := Some error,
                 dt_consumed_cost_micros := cost, dt_consumed_runner_cost_micros := runner_cost,
                 dt_updated_at := now, dt_completed_at := (if retry then None else Some now)\<rparr>) (kw_tasks w)\<rparr> in
     and_then (find_task task_id w') (\<lambda>t. Ok (w', t))))"

definition fail_durable_task_costs_inner :: "Id \<Rightarrow> string \<Rightarrow> string \<Rightarrow> bool \<Rightarrow> u64 \<Rightarrow> u64 option \<Rightarrow> DurableTask task_prog" where
  "fail_durable_task_costs_inner task_id lease_token error retryable cost consumed_runner =
     task_tx (fail_leased task_id lease_token error retryable cost consumed_runner)"

definition fail_durable_task :: "Id \<Rightarrow> string \<Rightarrow> string \<Rightarrow> bool \<Rightarrow> u64 \<Rightarrow> DurableTask task_prog" where
  "fail_durable_task task_id lease_token error retryable cost =
     fail_durable_task_costs_inner task_id lease_token error retryable cost None"

definition fail_durable_task_costs :: "Id \<Rightarrow> string \<Rightarrow> string \<Rightarrow> bool \<Rightarrow> u64 \<Rightarrow> u64 \<Rightarrow> DurableTask task_prog" where
  "fail_durable_task_costs task_id lease_token error retryable cost runner_cost =
     fail_durable_task_costs_inner task_id lease_token error retryable cost (Some runner_cost)"

section \<open>Pauses and cancellation\<close>

definition reconcile_paused :: "Scope \<Rightarrow> Id \<Rightarrow> Id \<Rightarrow> bool \<Rightarrow> json option \<Rightarrow> string option \<Rightarrow> TaskInput \<Rightarrow> TaskWorld \<Rightarrow>
    StorageError + TaskWorld \<times> DurableTask" where
  "reconcile_paused scope task_id turn_id succeeded result error i w =
     and_then (find_task task_id w) (\<lambda>current.
     and_then (ensure_team_scope (dt_scope current) scope) (\<lambda>_.
     if dt_status current \<noteq> Durable_Paused \<or> task_turn_id current \<noteq> Some turn_id
     then Err (SE_InvalidState ''paused durable task is not linked to this turn'')
     else
     and_then (settle_durable_budget task_id 0 0 True (ki_now i) w) (\<lambda>w.
     let paused = (\<lambda>t. dt_id t = task_id \<and> dt_status t = Durable_Paused);
         w' = w\<lparr>kw_tasks := update_where paused
           (\<lambda>t. t\<lparr>dt_status := (if succeeded then Durable_Succeeded else Durable_Failed), dt_result := result,
                 dt_error := error, dt_updated_at := ki_now i, dt_completed_at := Some (ki_now i)\<rparr>) (kw_tasks w)\<rparr> in
     if \<not> list_ex paused (kw_tasks w)
     then Err (SE_InvalidState ''paused durable task changed during reconciliation'')
     else and_then (find_task task_id w') (\<lambda>t. Ok (w', t)))))"

definition reconcile_paused_durable_task :: "Scope \<Rightarrow> Id \<Rightarrow> Id \<Rightarrow> bool \<Rightarrow> json option \<Rightarrow> string option \<Rightarrow> DurableTask task_prog" where
  "reconcile_paused_durable_task scope task_id turn_id succeeded result error =
     task_tx (reconcile_paused scope task_id turn_id succeeded result error)"

fun status_change_allowed :: "DurableTaskStatus \<Rightarrow> DurableTaskStatus \<Rightarrow> bool" where
  "status_change_allowed Durable_Queued Durable_Paused = True"
| "status_change_allowed Durable_Leased Durable_Paused = True"
| "status_change_allowed Durable_Running Durable_Paused = True"
| "status_change_allowed Durable_Paused Durable_Queued = True"
| "status_change_allowed _ Durable_Cancelled = True"
| "status_change_allowed _ _ = False"

definition change_status :: "Scope \<Rightarrow> Id \<Rightarrow> DurableTaskStatus \<Rightarrow> TaskInput \<Rightarrow> TaskWorld \<Rightarrow> StorageError + TaskWorld \<times> DurableTask" where
  "change_status scope task_id status i w =
     and_then (find_task task_id w) (\<lambda>current.
     and_then (ensure_team_scope (dt_scope current) scope) (\<lambda>_.
     if \<not> status_change_allowed (dt_status current) status \<or> task_terminal (dt_status current)
     then Err (SE_InvalidState ''invalid durable task transition'')
     else
     let ends = (status = Durable_Cancelled); now = ki_now i in
     and_then (if ends then settle_durable_budget task_id 0 0 True now w else Ok w) (\<lambda>w.
     let w' = w\<lparr>kw_tasks := update_where (\<lambda>t. dt_id t = task_id)
           (\<lambda>t. (clear_lease t)\<lparr>dt_status := status, dt_cancel_requested := ends, dt_updated_at := now,
                 dt_completed_at := (if ends then Some now else None)\<rparr>) (kw_tasks w)\<rparr> in
     and_then (find_task task_id w') (\<lambda>t. Ok (w', t)))))"

definition set_durable_task_status :: "Scope \<Rightarrow> Id \<Rightarrow> DurableTaskStatus \<Rightarrow> DurableTask task_prog" where
  "set_durable_task_status scope task_id status = task_tx (change_status scope task_id status)"

definition request_cancellation :: "Scope \<Rightarrow> Id \<Rightarrow> TaskInput \<Rightarrow> TaskWorld \<Rightarrow> StorageError + TaskWorld \<times> DurableTask" where
  "request_cancellation scope task_id i w =
     and_then (find_task task_id w) (\<lambda>current.
     and_then (ensure_team_scope (dt_scope current) scope) (\<lambda>_.
     if task_terminal (dt_status current) then Ok (w, current)
     else
     let active = task_held (dt_status current); now = ki_now i in
     and_then (if active then Ok w else settle_durable_budget task_id 0 0 True now w) (\<lambda>w.
     let requested = (\<lambda>t. dt_id t = task_id \<and> \<not> dt_cancel_requested t \<and> dt_status t = dt_status current \<and>
           unwrap_or (dt_lease_token t) '''' = unwrap_or (dt_lease_token current) '''');
         w' = w\<lparr>kw_tasks := update_where requested
           (\<lambda>t. (if active then t else clear_lease t)\<lparr>
                 dt_status := (if active then dt_status current else Durable_Cancelled), dt_cancel_requested := True,
                 dt_updated_at := now, dt_completed_at := (if active then dt_completed_at t else Some now)\<rparr>) (kw_tasks w)\<rparr> in
     and_then (find_task task_id w') (\<lambda>t. Ok (w', t)))))"

definition request_durable_task_cancellation :: "Scope \<Rightarrow> Id \<Rightarrow> DurableTask task_prog" where
  "request_durable_task_cancellation scope task_id = task_tx (request_cancellation scope task_id)"

definition acknowledge_cancellation :: "Id \<Rightarrow> string \<Rightarrow> json \<Rightarrow> u64 \<Rightarrow> TaskInput \<Rightarrow> TaskWorld \<Rightarrow>
    StorageError + TaskWorld \<times> DurableTask" where
  "acknowledge_cancellation task_id lease_token result cost i w =
     and_then (find_task task_id w) (\<lambda>current.
     if \<not> live_lease lease_token (ki_clock i) current \<or> \<not> dt_cancel_requested current \<or>
        cost < dt_consumed_cost_micros current \<or> dt_max_cost_micros current < cost
     then Err (SE_InvalidState ''active cancellation lease and valid cost are required'')
     else
     and_then (settle_durable_budget task_id (cost - dt_consumed_cost_micros current) 0 True (ki_now i) w) (\<lambda>w.
     if too_large cost then Err (SE_InvalidData ''cost limit is too large'')
     else
     let own = (\<lambda>t. dt_id t = task_id \<and> dt_lease_token t = Some lease_token \<and> dt_cancel_requested t);
         w' = w\<lparr>kw_tasks := update_where own
           (\<lambda>t. (clear_lease t)\<lparr>dt_status := Durable_Cancelled, dt_result := Some result, dt_consumed_cost_micros := cost,
                 dt_updated_at := ki_now i, dt_completed_at := Some (ki_now i)\<rparr>) (kw_tasks w)\<rparr> in
     if \<not> list_ex own (kw_tasks w) then Err (SE_InvalidState ''cancellation lease changed'')
     else and_then (find_task task_id w') (\<lambda>t. Ok (w', t))))"

definition acknowledge_durable_task_cancellation :: "Id \<Rightarrow> string \<Rightarrow> json \<Rightarrow> u64 \<Rightarrow> DurableTask task_prog" where
  "acknowledge_durable_task_cancellation task_id lease_token result cost =
     task_tx (acknowledge_cancellation task_id lease_token result cost)"

section \<open>The switch of a team\<close>

text \<open>Whether the task of a reservation is one of the team.\<close>

definition reserved_by_team :: "TaskWorld \<Rightarrow> Id \<times> Id \<Rightarrow> ReservationRow \<Rightarrow> bool" where
  "reserved_by_team w team r \<longleftrightarrow>
     list_ex (\<lambda>d. dt_id d = br_task_id r \<and> team_of (dt_scope d) = team) (kw_tasks w)"

definition release_team :: "Id \<times> Id \<Rightarrow> Timestamp \<Rightarrow> TaskWorld \<Rightarrow> TaskWorld" where
  "release_team team now w =
     (let freed = (\<lambda>b r. br_budget_id r = tb_id b \<and> br_status r = Res_Active \<and> reserved_by_team w team r);
          open_task = (\<lambda>d. team_of (dt_scope d) = team \<and> \<not> task_terminal (dt_status d)) in
      w\<lparr>kw_budgets := update_where (\<lambda>b. budget_team b = team)
          (\<lambda>b. b\<lparr>tb_model_reserved := tb_model_reserved b - sum_rows br_remaining (filter (freed b) (kw_reservations w)),
                tb_runner_reserved := tb_runner_reserved b -
                  sum_rows br_runner_remaining (filter (freed b) (kw_reservations w)), tb_updated_at := now\<rparr>) (kw_budgets w),
        kw_reservations := update_where
          (\<lambda>r. br_status r = Res_Active \<and> list_ex (\<lambda>d. dt_id d = br_task_id r \<and> open_task d) (kw_tasks w))
          (\<lambda>r. r\<lparr>br_remaining := 0, br_runner_remaining := 0, br_status := Res_Released, br_updated_at := now\<rparr>)
          (kw_reservations w),
        kw_tasks := update_where open_task
          (\<lambda>t. (clear_lease t)\<lparr>dt_status := Durable_Cancelled, dt_cancel_requested := True, dt_updated_at := now,
                dt_completed_at := Some now\<rparr>) (kw_tasks w)\<rparr>)"

definition set_team_durable_tasks_enabled :: "Scope \<Rightarrow> bool \<Rightarrow> unit task_prog" where
  "set_team_durable_tasks_enabled scope enabled = task_tx (\<lambda>i w.
     let w = w\<lparr>kw_enabled := (kw_enabled w)(team_of scope \<mapsto> enabled)\<rparr> in
     Ok (if enabled then w else release_team (team_of scope) (ki_now i) w, ()))"

end
