(* ===== verification/Task_Ledger.thy ===== *)
theory Task_Ledger
  imports Durable_Task
begin

text \<open>
  The books of durable tasks.  What a budget has reserved is the sum of what its open reservations still
  hold, what it has consumed is the sum of what its tasks have spent and of the direct consumptions, and a
  reservation holds exactly what its task may still spend.  Every transaction keeps the books.
\<close>

section \<open>Money\<close>

text \<open>The two currencies: model cost and runner cost.\<close>

datatype Money = Model_Money | Runner_Money

fun m_limit :: "Money \<Rightarrow> BudgetRow \<Rightarrow> int" where
  "m_limit Model_Money b = tb_model_limit b"
| "m_limit Runner_Money b = tb_runner_limit b"

fun m_consumed :: "Money \<Rightarrow> BudgetRow \<Rightarrow> int" where
  "m_consumed Model_Money b = tb_model_consumed b"
| "m_consumed Runner_Money b = tb_runner_consumed b"

fun m_reserved :: "Money \<Rightarrow> BudgetRow \<Rightarrow> int" where
  "m_reserved Model_Money b = tb_model_reserved b"
| "m_reserved Runner_Money b = tb_runner_reserved b"

fun m_remaining :: "Money \<Rightarrow> ReservationRow \<Rightarrow> int" where
  "m_remaining Model_Money r = br_remaining r"
| "m_remaining Runner_Money r = br_runner_remaining r"

fun m_settled :: "Money \<Rightarrow> ReservationRow \<Rightarrow> int" where
  "m_settled Model_Money r = br_settled r"
| "m_settled Runner_Money r = br_runner_settled r"

fun m_charged :: "Money \<Rightarrow> ConsumptionRow \<Rightarrow> int" where
  "m_charged Model_Money c = bc_model c"
| "m_charged Runner_Money c = bc_runner c"

fun m_spent :: "Money \<Rightarrow> DurableTask \<Rightarrow> int" where
  "m_spent Model_Money t = uint (dt_consumed_cost_micros t)"
| "m_spent Runner_Money t = uint (dt_consumed_runner_cost_micros t)"

fun m_max :: "Money \<Rightarrow> DurableTask \<Rightarrow> int" where
  "m_max Model_Money t = uint (dt_max_cost_micros t)"
| "m_max Runner_Money t = uint (dt_max_runner_cost_micros t)"

fun m_pick :: "Money \<Rightarrow> int \<Rightarrow> int \<Rightarrow> int" where
  "m_pick Model_Money model runner = model"
| "m_pick Runner_Money model runner = runner"

lemma all_money: "(\<forall>m. P m) \<longleftrightarrow> P Model_Money \<and> P Runner_Money"
  by (metis Money.exhaust)

lemma m_spent_nonneg [simp]: "0 \<le> m_spent m t" and m_max_nonneg [simp]: "0 \<le> m_max m t"
  by (cases m; simp)+

section \<open>The invariant\<close>

definition reserved_in :: "Money \<Rightarrow> TaskWorld \<Rightarrow> Id \<Rightarrow> int" where
  "reserved_in m w k = sum_rows (\<lambda>r. if br_budget_id r = k then m_remaining m r else 0) (kw_reservations w)"

definition settled_in :: "Money \<Rightarrow> TaskWorld \<Rightarrow> Id \<Rightarrow> int" where
  "settled_in m w k = sum_rows (\<lambda>r. if br_budget_id r = k then m_settled m r else 0) (kw_reservations w)"

definition charged_in :: "Money \<Rightarrow> TaskWorld \<Rightarrow> Id \<Rightarrow> int" where
  "charged_in m w k = sum_rows (\<lambda>c. if bc_budget_id c = k then m_charged m c else 0) (kw_consumptions w)"

definition budget_ok :: "TaskWorld \<Rightarrow> BudgetRow \<Rightarrow> bool" where
  "budget_ok w b \<longleftrightarrow>
     (\<forall>m. m_reserved m b = reserved_in m w (tb_id b) \<and>
          m_consumed m b = settled_in m w (tb_id b) + charged_in m w (tb_id b) \<and>
          0 \<le> m_limit m b \<and> (tb_hard_limit b \<longrightarrow> m_consumed m b + m_reserved m b \<le> m_limit m b))"

definition task_ok :: "DurableTask \<Rightarrow> bool" where
  "task_ok t \<longleftrightarrow>
     (\<forall>m. m_spent m t \<le> m_max m t \<and> m_max m t < 2 ^ 63) \<and> dt_attempt t \<le> dt_max_attempts t \<and>
     (dt_lease_token t \<noteq> None \<longleftrightarrow> task_held (dt_status t)) \<and>
     (dt_cancel_requested t \<longrightarrow> dt_status t \<notin> {Durable_Queued, Durable_Paused})"

definition reservation_ok :: "TaskWorld \<Rightarrow> ReservationRow \<Rightarrow> bool" where
  "reservation_ok w r \<longleftrightarrow>
     (\<exists>t b. find_row dt_id (br_task_id r) (kw_tasks w) = Some t \<and> find_row tb_id (br_budget_id r) (kw_budgets w) = Some b \<and>
        budget_team b = team_of (dt_scope t) \<and> (br_status r = Res_Active \<longleftrightarrow> \<not> task_terminal (dt_status t)) \<and>
        (\<forall>m. m_settled m r = m_spent m t \<and>
             m_remaining m r = (if task_terminal (dt_status t) then 0 else m_max m t - m_spent m t)))"

definition consumption_ok :: "TaskWorld \<Rightarrow> ConsumptionRow \<Rightarrow> bool" where
  "consumption_ok w c \<longleftrightarrow> find_row tb_id (bc_budget_id c) (kw_budgets w) \<noteq> None \<and> (\<forall>m. 0 \<le> m_charged m c)"

definition task_key :: "DurableTask \<Rightarrow> (Id \<times> Id) \<times> string" where
  "task_key t = (team_of (dt_scope t), dt_idempotency_key t)"

definition keys_ok :: "TaskWorld \<Rightarrow> bool" where
  "keys_ok w \<longleftrightarrow>
     distinct (map dt_id (kw_tasks w)) \<and> distinct (map task_key (kw_tasks w)) \<and> distinct (map tb_id (kw_budgets w)) \<and>
     distinct (map br_task_id (kw_reservations w)) \<and>
     distinct (map (\<lambda>c. (bc_budget_id c, bc_idempotency_key c)) (kw_consumptions w))"

definition task_inv :: "TaskWorld \<Rightarrow> bool" where
  "task_inv w \<longleftrightarrow>
     keys_ok w \<and> (\<forall>t \<in> set (kw_tasks w). task_ok t) \<and> (\<forall>r \<in> set (kw_reservations w). reservation_ok w r) \<and>
     (\<forall>c \<in> set (kw_consumptions w). consumption_ok w c) \<and> (\<forall>b \<in> set (kw_budgets w). budget_ok w b)"

text \<open>What only grows: a task keeps what was ordered, spends and tries more and more, and does not change
  any more when it is finished; consumptions stay.\<close>

definition same_order :: "DurableTask \<Rightarrow> DurableTask \<Rightarrow> bool" where
  "same_order t t' \<longleftrightarrow>
     dt_id t' = dt_id t \<and> dt_scope t' = dt_scope t \<and> dt_kind t' = dt_kind t \<and> dt_payload t' = dt_payload t \<and>
     dt_idempotency_key t' = dt_idempotency_key t \<and> dt_max_attempts t' = dt_max_attempts t \<and>
     dt_max_runtime_seconds t' = dt_max_runtime_seconds t \<and> (\<forall>m. m_max m t' = m_max m t)"

definition task_moved :: "DurableTask \<Rightarrow> DurableTask \<Rightarrow> bool" where
  "task_moved t t' \<longleftrightarrow>
     same_order t t' \<and> dt_attempt t \<le> dt_attempt t' \<and> (\<forall>m. m_spent m t \<le> m_spent m t') \<and>
     (task_terminal (dt_status t) \<longrightarrow> t' = t)"

definition task_later :: "TaskWorld \<Rightarrow> TaskWorld \<Rightarrow> bool" where
  "task_later w w' \<longleftrightarrow>
     (\<forall>t \<in> set (kw_tasks w). \<exists>t' \<in> set (kw_tasks w'). task_moved t t') \<and>
     set (kw_consumptions w) \<subseteq> set (kw_consumptions w')"

definition task_env :: "TaskWorld \<Rightarrow> TaskWorld \<Rightarrow> bool" where
  "task_env w w' \<longleftrightarrow> w' = w\<lparr>kw_concurrency := kw_concurrency w'\<rparr>"

lemma task_moved_refl [simp]: "task_moved t t"
  by (simp add: task_moved_def same_order_def)

lemma task_moved_trans: "task_moved t t' \<Longrightarrow> task_moved t' t'' \<Longrightarrow> task_moved t t''"
  unfolding task_moved_def same_order_def by (metis order_trans)

lemma task_later_refl [simp]: "task_later w w"
  unfolding task_later_def by (blast intro: task_moved_refl)

lemma task_later_trans: "task_later w w' \<Longrightarrow> task_later w' w'' \<Longrightarrow> task_later w w''"
  unfolding task_later_def by (meson subset_trans task_moved_trans)

text \<open>The invariant and the order do not depend on the switches of the teams.\<close>

lemma task_inv_switches [simp]:
  "task_inv (w\<lparr>kw_enabled := e\<rparr>) \<longleftrightarrow> task_inv w" "task_inv (w\<lparr>kw_concurrency := n\<rparr>) \<longleftrightarrow> task_inv w"
  by (simp_all add: task_inv_def keys_ok_def reservation_ok_def consumption_ok_def budget_ok_def reserved_in_def
      settled_in_def charged_in_def)

lemma task_later_switches [simp]:
  "task_later w (w\<lparr>kw_enabled := e\<rparr>)" "task_later w (w\<lparr>kw_concurrency := n\<rparr>)"
  by (auto simp: task_later_def intro: task_moved_refl)

interpretation books: kept_world task_inv task_later task_env
proof
  show "task_inv w' \<and> task_later w w'" if "task_inv w" and "task_env w w'" for w w'
  proof -
    from that(2) have "w' = w\<lparr>kw_concurrency := kw_concurrency w'\<rparr>" by (simp add: task_env_def)
    with that(1) show ?thesis by (metis task_inv_switches(2) task_later_switches(2))
  qed
qed (auto intro: task_later_trans)

section \<open>Facts of the invariant\<close>

lemma uint_minus: "b \<le> a \<Longrightarrow> uint (a - b) = uint a - uint b" for a b :: u64
  by (simp add: uint_sub_if' word_le_def)

lemma inv_distinct:
  assumes "task_inv w"
  shows "distinct (map dt_id (kw_tasks w))" "distinct (map task_key (kw_tasks w))" "distinct (map tb_id (kw_budgets w))"
    "distinct (map br_task_id (kw_reservations w))"
    "distinct (map (\<lambda>c. (bc_budget_id c, bc_idempotency_key c)) (kw_consumptions w))"
  using assms by (simp_all add: task_inv_def keys_ok_def)

lemma inv_task: "task_inv w \<Longrightarrow> t \<in> set (kw_tasks w) \<Longrightarrow> task_ok t"
  by (simp add: task_inv_def)

lemma inv_reservation: "task_inv w \<Longrightarrow> r \<in> set (kw_reservations w) \<Longrightarrow> reservation_ok w r"
  by (simp add: task_inv_def)

lemma inv_budget: "task_inv w \<Longrightarrow> b \<in> set (kw_budgets w) \<Longrightarrow> budget_ok w b"
  by (simp add: task_inv_def)

lemma inv_remaining:
  assumes "task_inv w" and "r \<in> set (kw_reservations w)"
  shows "0 \<le> m_remaining m r" and "0 \<le> m_settled m r"
proof -
  from inv_reservation [OF assms] obtain t where t: "t \<in> set (kw_tasks w)" "m_settled m r = m_spent m t"
    "m_remaining m r = (if task_terminal (dt_status t) then 0 else m_max m t - m_spent m t)"
    by (auto simp: reservation_ok_def dest: find_row_SomeD)
  moreover have "m_spent m t \<le> m_max m t" using inv_task [OF assms(1) t(1)] by (simp add: task_ok_def)
  ultimately show "0 \<le> m_remaining m r" "0 \<le> m_settled m r" by simp_all
qed

lemma update_where_key:
  assumes "distinct (map key rows)" and "r \<in> set rows" and "p r" and "\<And>x. x \<in> set rows \<Longrightarrow> p x \<Longrightarrow> key x = key r"
  shows "update_where p f rows = update_where (\<lambda>x. key x = key r) f rows"
  unfolding update_where_def
proof (rule map_cong [OF refl])
  fix x assume "x \<in> set rows"
  then show "(if p x then f x else x) = (if key x = key r then f x else x)"
    using assms by (metis distinct_map inj_on_contraD)
qed

section \<open>Settlements\<close>

text \<open>The books after a settlement, without the checks that the invariant makes superfluous.\<close>

definition settled :: "Id \<Rightarrow> (Money \<Rightarrow> int) \<Rightarrow> bool \<Rightarrow> Timestamp \<Rightarrow> TaskWorld \<Rightarrow> TaskWorld" where
  "settled task_id delta ends now w =
     (case find_row br_task_id task_id (kw_reservations w) of
        None \<Rightarrow> w
      | Some r \<Rightarrow>
          let released = (\<lambda>m. if ends then m_remaining m r else delta m) in
          w\<lparr>kw_budgets := update_where (\<lambda>b. tb_id b = br_budget_id r)
               (\<lambda>b. b\<lparr>tb_model_consumed := tb_model_consumed b + delta Model_Money,
                     tb_runner_consumed := tb_runner_consumed b + delta Runner_Money,
                     tb_model_reserved := tb_model_reserved b - released Model_Money,
                     tb_runner_reserved := tb_runner_reserved b - released Runner_Money, tb_updated_at := now\<rparr>) (kw_budgets w),
             kw_reservations := update_where (\<lambda>x. br_task_id x = br_task_id r)
               (\<lambda>x. x\<lparr>br_remaining := (if ends then 0 else br_remaining x - delta Model_Money),
                     br_runner_remaining := (if ends then 0 else br_runner_remaining x - delta Runner_Money),
                     br_settled := br_settled x + delta Model_Money,
                     br_runner_settled := br_runner_settled x + delta Runner_Money,
                     br_status := (if ends then Res_Settled else br_status x), br_updated_at := now\<rparr>) (kw_reservations w)\<rparr>)"

lemma settle_exact:
  assumes inv: "task_inv w" and t: "find_row dt_id task_id (kw_tasks w) = Some t" "\<not> task_terminal (dt_status t)"
    and fits: "\<forall>m. m_pick m (uint md) (uint rd) \<le> m_max m t - m_spent m t"
  shows "settle_durable_budget task_id md rd ends now w = Ok (settled task_id (\<lambda>m. m_pick m (uint md) (uint rd)) ends now w)"
proof (cases "find_row br_task_id task_id (kw_reservations w)")
  case None
  then have "find (\<lambda>r. br_task_id r = task_id \<and> br_status r = Res_Active) (kw_reservations w) = None"
    by (auto simp: find_None_iff find_row_def)
  with None show ?thesis by (simp add: settle_durable_budget_def settled_def)
next
  case (Some r)
  then have r: "r \<in> set (kw_reservations w)" "br_task_id r = task_id" by (auto dest: find_row_SomeD)
  from inv_reservation [OF inv r(1)] t r(2) obtain b where b: "find_row tb_id (br_budget_id r) (kw_budgets w) = Some b"
    and active: "br_status r = Res_Active" and rem: "\<And>m. m_remaining m r = m_max m t - m_spent m t"
    by (auto simp: reservation_ok_def)
  from b have bmem: "b \<in> set (kw_budgets w)" "tb_id b = br_budget_id r" by (auto dest: find_row_SomeD)
  have same: "x = r" if "x \<in> set (kw_reservations w)" "br_task_id x = br_task_id r" for x
    using inv_distinct(4) [OF inv] r(1) that by (metis distinct_map inj_on_contraD)
  have found: "find (\<lambda>r. br_task_id r = task_id \<and> br_status r = Res_Active) (kw_reservations w) = Some r"
    using Some r(2) active same by (auto simp: find_row_def find_Some_iff)
  have room: "m_remaining m r \<le> m_reserved m b" for m
  proof -
    have "m_remaining m r \<le> reserved_in m w (br_budget_id r)"
      unfolding reserved_in_def
      using sum_rows_mem_le [OF r(1), of "\<lambda>x. if br_budget_id x = br_budget_id r then m_remaining m x else 0"]
        inv_remaining(1) [OF inv] by simp
    then show ?thesis using inv_budget [OF inv bmem(1)] bmem(2) by (simp add: budget_ok_def)
  qed
  have small: "m_max m t < 2 ^ 63" for m
    using inv_task [OF inv, of t] t(1) by (auto simp: task_ok_def dest: find_row_SomeD)
  have le: "m_pick m (uint md) (uint rd) \<le> m_remaining m r" for m using fits rem by simp
  have spent: "0 \<le> m_spent m t" for m by simp
  note le [of Model_Money] le [of Runner_Money] rem [of Model_Money] rem [of Runner_Money] small [of Model_Money]
    small [of Runner_Money] spent [of Model_Money] spent [of Runner_Money] room [of Model_Money] room [of Runner_Money]
  note bounds = this [unfolded m_pick.simps m_remaining.simps m_reserved.simps]
  have nonneg: "0 \<le> uint md" "0 \<le> uint rd" by simp_all
  have large: "\<not> too_large md" "\<not> too_large rd" unfolding too_large_def not_le using bounds unfolding m_spent.simps by linarith+
  define rm where "rm = (if ends then br_remaining r else uint md)"
  define rr where "rr = (if ends then br_runner_remaining r else uint rd)"
  let ?covers = "\<lambda>b. tb_id b = br_budget_id r \<and> rm \<le> tb_model_reserved b \<and> rr \<le> tb_runner_reserved b"
  have cover: "?covers b" using bounds bmem(2) by (auto simp: rm_def rr_def)
  have budgets: "update_where ?covers f (kw_budgets w) = update_where (\<lambda>b. tb_id b = br_budget_id r) f (kw_budgets w)" for f
    using update_where_key [OF inv_distinct(3) [OF inv] bmem(1), of ?covers f] cover bmem(2) by simp
  have reservations: "update_where (\<lambda>x. br_task_id x = task_id \<and> br_status x = Res_Active) f (kw_reservations w) =
      update_where (\<lambda>x. br_task_id x = br_task_id r) f (kw_reservations w)" for f
    using update_where_key [OF inv_distinct(4) [OF inv] r(1), of "\<lambda>x. br_task_id x = task_id \<and> br_status x = Res_Active" f]
      r(2) active by simp
  have ex: "list_ex ?covers (kw_budgets w)" using cover bmem(1) by (auto simp: list_ex_iff)
  have checks: "\<not> br_remaining r < 0" "\<not> br_runner_remaining r < 0"
    "\<not> (br_remaining r < uint md \<or> br_runner_remaining r < uint rd)"
    using bounds nonneg by linarith+
  show ?thesis
    unfolding settle_durable_budget_def found option.case Let_def
    using large ex checks unfolding rm_def rr_def
    by (simp add: settled_def Some Let_def budgets [unfolded rm_def rr_def] reservations)
qed

section \<open>Updates of one task\<close>

lemma same_order_simps:
  assumes "same_order t t'"
  shows "dt_id t' = dt_id t" "dt_scope t' = dt_scope t" "task_key t' = task_key t" "m_max m t' = m_max m t"
  using assms by (auto simp: same_order_def task_key_def)

lemma find_task_update:
  assumes "\<And>x. same_order x (f x)"
  shows "find_row dt_id k (update_where p f tasks) = map_option (\<lambda>t. if p t then f t else t) (find_row dt_id k tasks)"
  by (rule find_row_update) (use assms same_order_simps(1) in blast)

lemma keys_task_update:
  assumes "\<And>x. same_order x (f x)"
  shows "map dt_id (update_where p f tasks) = map dt_id tasks" "map task_key (update_where p f tasks) = map task_key tasks"
  by (rule map_update_where, use assms same_order_simps in blast)+

lemma task_rows_later:
  assumes "\<And>t. t \<in> set tasks \<Longrightarrow> p t \<Longrightarrow> task_moved t (f t)"
  shows "\<forall>t \<in> set tasks. \<exists>t' \<in> set (update_where p f tasks). task_moved t t'"
proof
  fix t assume t: "t \<in> set tasks"
  then have "(if p t then f t else t) \<in> set (update_where p f tasks)" unfolding set_update_where by (rule imageI)
  with t assms show "\<exists>t' \<in> set (update_where p f tasks). task_moved t t'" by (metis task_moved_refl)
qed

text \<open>A task changes and the books follow: what it has spent in addition is settled, and its end releases
  the rest.\<close>

lemma settled_inv:
  assumes inv: "task_inv w" and t: "find_row dt_id task_id (kw_tasks w) = Some t" "\<not> task_terminal (dt_status t)"
    and order: "\<And>x. same_order x (f x)" and ok: "task_ok (f t)"
    and spent: "\<And>m. m_spent m (f t) = m_spent m t + delta m"
    and ends: "task_terminal (dt_status (f t)) \<longleftrightarrow> ends"
  shows "task_inv ((settled task_id delta ends now w)\<lparr>kw_tasks := update_where (\<lambda>x. dt_id x = task_id) f (kw_tasks w)\<rparr>)"
    (is "task_inv ?w")
proof -
  have tmem: "t \<in> set (kw_tasks w)" "dt_id t = task_id" using t(1) by (auto dest: find_row_SomeD)
  have tasks: "kw_tasks ?w = update_where (\<lambda>x. dt_id x = task_id) f (kw_tasks w)" by simp
  have consumptions: "kw_consumptions ?w = kw_consumptions w" by (simp add: settled_def Let_def split: option.split)
  have find: "find_row dt_id k (kw_tasks ?w) = (if k = task_id then Some (f t) else find_row dt_id k (kw_tasks w))" for k
  proof -
    have "find_row dt_id k (kw_tasks ?w) = map_option (\<lambda>t. if dt_id t = task_id then f t else t) (find_row dt_id k (kw_tasks w))"
      unfolding tasks by (rule find_task_update [OF order])
    then show ?thesis using t(1) by (cases "find_row dt_id k (kw_tasks w)") (auto dest: find_row_SomeD)
  qed
  have ids: "map tb_id (kw_budgets ?w) = map tb_id (kw_budgets w)"
    "map br_task_id (kw_reservations ?w) = map br_task_id (kw_reservations w)"
    by (auto simp: settled_def Let_def intro!: map_update_where split: option.split)
  have budgets: "\<exists>b'. find_row tb_id k (kw_budgets ?w) = Some b' \<and> budget_team b' = budget_team b"
    if "find_row tb_id k (kw_budgets w) = Some b" for k b
  proof (cases "find_row br_task_id task_id (kw_reservations w)")
    case (Some r)
    then show ?thesis by (simp add: settled_def Let_def find_row_update that budget_team_def)
  qed (simp add: settled_def that)
  have keys: "keys_ok ?w"
    using inv unfolding task_inv_def keys_ok_def ids consumptions tasks keys_task_update [OF order] by simp
  have all_tasks: "\<forall>x \<in> set (kw_tasks ?w). task_ok x"
  proof
    fix x assume "x \<in> set (kw_tasks ?w)"
    then obtain y where y: "y \<in> set (kw_tasks w)" "x = (if dt_id y = task_id then f y else y)"
      unfolding tasks set_update_where by auto
    moreover have "y = t" if "dt_id y = task_id"
      using that y(1) tmem inv_distinct(1) [OF inv] by (metis distinct_map inj_on_contraD)
    ultimately show "task_ok x" using ok inv_task [OF inv] by auto
  qed
  have all_consumptions: "\<forall>c \<in> set (kw_consumptions ?w). consumption_ok ?w c"
  proof
    fix c assume "c \<in> set (kw_consumptions ?w)"
    then have "consumption_ok w c" using inv by (simp add: consumptions task_inv_def)
    then show "consumption_ok ?w c" using budgets unfolding consumption_ok_def by fastforce
  qed
  have kept: "reservation_ok ?w r" if "r \<in> set (kw_reservations w)" "br_task_id r \<noteq> task_id" for r
  proof -
    from inv_reservation [OF inv that(1)] obtain u b where
      u: "find_row dt_id (br_task_id r) (kw_tasks w) = Some u" "find_row tb_id (br_budget_id r) (kw_budgets w) = Some b"
      and rest: "budget_team b = team_of (dt_scope u)" "br_status r = Res_Active \<longleftrightarrow> \<not> task_terminal (dt_status u)"
        "\<forall>m. m_settled m r = m_spent m u \<and> m_remaining m r = (if task_terminal (dt_status u) then 0 else m_max m u - m_spent m u)"
      by (auto simp: reservation_ok_def)
    from budgets [OF u(2)] obtain b' where "find_row tb_id (br_budget_id r) (kw_budgets ?w) = Some b'" "budget_team b' = budget_team b"
      by blast
    with find [of "br_task_id r"] that(2) u(1) rest show ?thesis unfolding reservation_ok_def by auto
  qed
  show ?thesis
  proof (cases "find_row br_task_id task_id (kw_reservations w)")
    case None
    then have w: "kw_reservations ?w = kw_reservations w" "kw_budgets ?w = kw_budgets w" by (simp_all add: settled_def)
    have "reservation_ok ?w r" if "r \<in> set (kw_reservations ?w)" for r
      using that None kept [of r] unfolding w(1) by (metis find_row_NoneD image_eqI)
    moreover have "budget_ok ?w b" if "b \<in> set (kw_budgets ?w)" for b
      using inv_budget [OF inv, of b] that unfolding budget_ok_def reserved_in_def settled_in_def charged_in_def w consumptions by blast
    ultimately show ?thesis using keys all_tasks all_consumptions unfolding task_inv_def by blast
  next
    case (Some r)
    then have r: "r \<in> set (kw_reservations w)" "br_task_id r = task_id" by (auto dest: find_row_SomeD)
    from inv_reservation [OF inv r(1)] t r(2) obtain b where b: "find_row tb_id (br_budget_id r) (kw_budgets w) = Some b"
      and team: "budget_team b = team_of (dt_scope t)" and active: "br_status r = Res_Active"
      and rem: "\<And>m. m_remaining m r = m_max m t - m_spent m t" and set: "\<And>m. m_settled m r = m_spent m t"
      by (auto simp: reservation_ok_def)
    define rel where "rel = (\<lambda>m. if ends then m_remaining m r else delta m)"
    define g where "g = (\<lambda>x :: ReservationRow. x\<lparr>br_remaining := (if ends then 0 else br_remaining x - delta Model_Money),
                     br_runner_remaining := (if ends then 0 else br_runner_remaining x - delta Runner_Money),
                     br_settled := br_settled x + delta Model_Money,
                     br_runner_settled := br_runner_settled x + delta Runner_Money,
                     br_status := (if ends then Res_Settled else br_status x), br_updated_at := now\<rparr>)"
    define h where "h = (\<lambda>b :: BudgetRow. b\<lparr>tb_model_consumed := tb_model_consumed b + delta Model_Money,
                     tb_runner_consumed := tb_runner_consumed b + delta Runner_Money,
                     tb_model_reserved := tb_model_reserved b - rel Model_Money,
                     tb_runner_reserved := tb_runner_reserved b - rel Runner_Money, tb_updated_at := now\<rparr>)"
    have w: "kw_reservations ?w = update_where (\<lambda>x. br_task_id x = br_task_id r) g (kw_reservations w)"
      "kw_budgets ?w = update_where (\<lambda>b. tb_id b = br_budget_id r) h (kw_budgets w)"
      by (simp_all add: settled_def Some Let_def g_def h_def rel_def)
    have g: "br_task_id (g x) = br_task_id x" "br_budget_id (g x) = br_budget_id x"
      "m_remaining m (g x) = (if ends then 0 else m_remaining m x - delta m)" "m_settled m (g x) = m_settled m x + delta m"
      "br_status (g x) = (if ends then Res_Settled else br_status x)" for m x
      by (cases m; simp add: g_def)+
    have h: "tb_id (h b) = tb_id b" "m_reserved m (h b) = m_reserved m b - rel m" "m_consumed m (h b) = m_consumed m b + delta m"
      "m_limit m (h b) = m_limit m b" "tb_hard_limit (h b) = tb_hard_limit b" for m b
      by (cases m; simp add: h_def)+
    have res: "reserved_in m ?w k = reserved_in m w k - (if br_budget_id r = k then rel m else 0)" for m k
      unfolding reserved_in_def w(1)
      by (subst sum_rows_update_one [OF inv_distinct(4) [OF inv] r(1)]) (simp add: g rel_def)
    have settl: "settled_in m ?w k = settled_in m w k + (if br_budget_id r = k then delta m else 0)" for m k
      unfolding settled_in_def w(1)
      by (subst sum_rows_update_one [OF inv_distinct(4) [OF inv] r(1)]) (simp add: g)
    have le: "delta m \<le> rel m" for m
    proof -
      have "m_spent m (f t) \<le> m_max m (f t)" using ok by (simp add: task_ok_def)
      then show ?thesis using spent [of m] rem [of m] same_order_simps(4) [OF order, of m t] by (simp add: rel_def)
    qed
    have "budget_ok ?w b'" if b': "b' \<in> set (kw_budgets ?w)" for b'
    proof -
      from b' obtain c where c: "c \<in> set (kw_budgets w)" "b' = (if tb_id c = br_budget_id r then h c else c)"
        unfolding w(2) set_update_where by auto
      show ?thesis unfolding budget_ok_def
      proof (intro allI)
        fix m
        have charged: "charged_in m ?w k = charged_in m w k" for k by (simp add: charged_in_def consumptions)
        have "m_reserved m c = reserved_in m w (tb_id c) \<and> m_consumed m c = settled_in m w (tb_id c) + charged_in m w (tb_id c) \<and>
            0 \<le> m_limit m c \<and> (tb_hard_limit c \<longrightarrow> m_consumed m c + m_reserved m c \<le> m_limit m c)"
          using inv_budget [OF inv c(1)] unfolding budget_ok_def by blast
        then show "m_reserved m b' = reserved_in m ?w (tb_id b') \<and>
            m_consumed m b' = settled_in m ?w (tb_id b') + charged_in m ?w (tb_id b') \<and>
            0 \<le> m_limit m b' \<and> (tb_hard_limit b' \<longrightarrow> m_consumed m b' + m_reserved m b' \<le> m_limit m b')"
          unfolding res settl charged c(2) using le [of m]
          by (cases "tb_id c = br_budget_id r") (auto simp: h)
      qed
    qed
    moreover have "reservation_ok ?w x" if x: "x \<in> set (kw_reservations ?w)" for x
    proof -
      from x obtain y where y: "y \<in> set (kw_reservations w)" "x = (if br_task_id y = br_task_id r then g y else y)"
        unfolding w(1) set_update_where by auto
      show ?thesis
      proof (cases "br_task_id y = task_id")
        case True
        then have "y = r" using y(1) r inv_distinct(4) [OF inv] by (metis distinct_map inj_on_contraD)
        then have x': "x = g r" using y(2) by simp
        from budgets [OF b] obtain b' where "find_row tb_id (br_budget_id r) (kw_budgets ?w) = Some b'" "budget_team b' = budget_team b"
          by blast
        with find [of task_id] team show ?thesis
          unfolding reservation_ok_def x' g r(2)
          using ends active rem set spent same_order_simps(2) [OF order, of t] same_order_simps(4) [OF order, of _ t] by auto
      next
        case False
        with y r(2) kept [of y] show ?thesis by simp
      qed
    qed
    ultimately show ?thesis using keys all_tasks all_consumptions unfolding task_inv_def by blast
  qed
qed

end
