(* ===== verification/Task_Books.thy ===== *)
theory Task_Books
  imports Task_Ledger
begin

text \<open>
  Every operation on durable tasks and budgets keeps the books and moves the tasks forward.
\<close>

named_theorems books_kept "the programs that keep the books"

section \<open>Transactions\<close>

lemmas tx_kept = books.kept_tx [where fault = Task_Error and db = ki_db]
lemmas query_kept [books_kept] = books.kept_query [where fault = Task_Error and db = ki_db]
lemmas clock_kept [books_kept] = books.kept_ask [where f = ki_now]

lemma get_kept [books_kept]: "books.kept (get_durable_task scope k)"
  by (simp add: get_durable_task_def query_kept)

section \<open>One task\<close>

lemma find_task_Ok: "find_task k w = Ok t \<longleftrightarrow> find_row dt_id k (kw_tasks w) = Some t"
  by (simp add: find_task_def ok_or_def split: option.split)

lemma found_task:
  assumes "task_inv w" and "find_row dt_id k (kw_tasks w) = Some t"
  shows "t \<in> set (kw_tasks w)" and "dt_id t = k" and "task_ok t"
  using assms inv_task by (auto dest: find_row_SomeD)

text \<open>An update of the rows of one task, whatever else its condition asks of the row.\<close>

lemma update_task_where:
  assumes "task_inv w" and "find_row dt_id k (kw_tasks w) = Some t" and "p t" and "\<And>x. p x \<Longrightarrow> dt_id x = k"
  shows "update_where p f (kw_tasks w) = update_where (\<lambda>x. dt_id x = k) f (kw_tasks w)"
  using update_where_key [OF inv_distinct(1) [OF assms(1)] found_task(1) [OF assms(1,2)], of p f] assms(3,4)
    found_task(2) [OF assms(1,2)] by simp

lemma task_update_later:
  assumes "task_inv w" and "find_row dt_id k (kw_tasks w) = Some t" and "task_moved t (f t)"
    and "kw_tasks w' = update_where (\<lambda>x. dt_id x = k) f (kw_tasks w)" and "kw_consumptions w' = kw_consumptions w"
  shows "task_later w w'"
proof -
  have "x = t" if "x \<in> set (kw_tasks w)" "dt_id x = k" for x
    using that found_task [OF assms(1,2)] inv_distinct(1) [OF assms(1)] by (metis distinct_map inj_on_contraD)
  then show ?thesis
    unfolding task_later_def assms(4,5) using assms(3) by (auto intro!: task_rows_later)
qed

lemma books_of_tasks [simp]:
  "budget_ok (w\<lparr>kw_tasks := ts\<rparr>) b \<longleftrightarrow> budget_ok w b" "consumption_ok (w\<lparr>kw_tasks := ts\<rparr>) c \<longleftrightarrow> consumption_ok w c"
  by (simp_all add: consumption_ok_def budget_ok_def reserved_in_def settled_in_def charged_in_def)

lemma task_only_inv:
  assumes inv: "task_inv w" and t: "find_row dt_id k (kw_tasks w) = Some t"
    and order: "\<And>x. same_order x (f x)" and ok: "task_ok (f t)" and spent: "\<And>m. m_spent m (f t) = m_spent m t"
    and open_task: "task_terminal (dt_status (f t)) \<longleftrightarrow> task_terminal (dt_status t)"
  shows "task_inv (w\<lparr>kw_tasks := update_where (\<lambda>x. dt_id x = k) f (kw_tasks w)\<rparr>)" (is "task_inv ?w")
proof -
  note tm = found_task [OF inv t]
  have find: "find_row dt_id j (kw_tasks ?w) = (if j = k then Some (f t) else find_row dt_id j (kw_tasks w))" for j
    using find_task_update [OF order, of j "\<lambda>x. dt_id x = k" "kw_tasks w"] t
    by (cases "find_row dt_id j (kw_tasks w)") (auto dest: find_row_SomeD)
  have "task_ok x" if x: "x \<in> set (kw_tasks ?w)" for x
  proof -
    from x obtain y where y: "y \<in> set (kw_tasks w)" "x = (if dt_id y = k then f y else y)" by (auto simp: set_update_where)
    moreover have "y = t" if "dt_id y = k"
      using that y(1) tm inv_distinct(1) [OF inv] by (metis distinct_map inj_on_contraD)
    ultimately show ?thesis using ok inv_task [OF inv] by auto
  qed
  moreover have "reservation_ok ?w r" if "r \<in> set (kw_reservations w)" for r
    using inv_reservation [OF inv that] t spent open_task same_order_simps(2) [OF order, of t] same_order_simps(4) [OF order, of _ t]
    unfolding reservation_ok_def find by (cases "br_task_id r = k") auto
  moreover have "keys_ok ?w" using inv keys_task_update [OF order] by (simp add: task_inv_def keys_ok_def)
  ultimately show ?thesis
    using inv unfolding task_inv_def by simp
qed

text \<open>A settlement with the update of its task.\<close>

lemma settle_task:
  assumes inv: "task_inv w" and t: "find_row dt_id k (kw_tasks w) = Some t" "\<not> task_terminal (dt_status t)"
    and order: "\<And>x. same_order x (f x)" and ok: "task_ok (f t)"
    and spent: "\<And>m. m_spent m (f t) = m_spent m t + m_pick m (uint md) (uint rd)"
    and ends: "task_terminal (dt_status (f t)) \<longleftrightarrow> ends"
    and tries: "dt_attempt t \<le> dt_attempt (f t)"
  obtains w1 where "settle_durable_budget k md rd ends now w = Ok w1" and "kw_tasks w1 = kw_tasks w"
    and "task_inv (w1\<lparr>kw_tasks := update_where (\<lambda>x. dt_id x = k) f (kw_tasks w)\<rparr>)"
    and "task_later w (w1\<lparr>kw_tasks := update_where (\<lambda>x. dt_id x = k) f (kw_tasks w)\<rparr>)"
proof -
  let ?delta = "\<lambda>m. m_pick m (uint md) (uint rd)"
  let ?w = "settled k ?delta ends now w"
  have "m_pick m (uint md) (uint rd) \<le> m_max m t - m_spent m t" for m
    using ok spent [of m] same_order_simps(4) [OF order, of m t] unfolding task_ok_def by (metis diff_le_eq add.commute le_diff_eq)
  then have "settle_durable_budget k md rd ends now w = Ok ?w" using settle_exact [OF inv t] by blast
  moreover have tasks: "kw_tasks ?w = kw_tasks w" "kw_consumptions ?w = kw_consumptions w"
    by (simp_all add: settled_def Let_def split: option.split)
  moreover have "task_inv (?w\<lparr>kw_tasks := update_where (\<lambda>x. dt_id x = k) f (kw_tasks w)\<rparr>)"
    by (rule settled_inv [OF inv t order ok spent ends])
  moreover have "0 \<le> ?delta m" for m by (cases m) auto
  then have "task_moved t (f t)" using order t(2) tries spent by (simp add: task_moved_def)
  then have "task_later w (?w\<lparr>kw_tasks := update_where (\<lambda>x. dt_id x = k) f (kw_tasks w)\<rparr>)"
    by (rule task_update_later [OF inv t(1)]) (simp_all add: tasks)
  ultimately show thesis using that by blast
qed

section \<open>Progress of a leased task\<close>

lemma updated_task:
  assumes "task_inv w" and "find_row dt_id k (kw_tasks w) = Some t" and "\<And>x. same_order x (f x)"
    and "kw_tasks w' = update_where (\<lambda>x. dt_id x = k) f (kw_tasks w)"
  shows "find_task k w' = Ok (f t)"
  using find_task_update [OF assms(3), of k "\<lambda>x. dt_id x = k" "kw_tasks w"] assms(2) found_task(2) [OF assms(1,2)]
  by (simp add: find_task_Ok assms(4))

lemma task_limits:
  assumes "task_ok t"
  shows "uint (dt_max_cost_micros t) < 2 ^ 63" "uint (dt_max_runner_cost_micros t) < 2 ^ 63"
    "dt_consumed_cost_micros t \<le> dt_max_cost_micros t" "dt_consumed_runner_cost_micros t \<le> dt_max_runner_cost_micros t"
  using assms by (simp_all add: task_ok_def all_money word_le_def)

lemma not_too_large: "cost \<le> m \<Longrightarrow> uint m < 2 ^ 63 \<Longrightarrow> \<not> too_large cost"
  by (simp add: too_large_def word_le_def)

lemma write_task_Ok:
  assumes inv: "task_inv w" and t: "find_row dt_id k (kw_tasks w) = Some t" and token: "dt_lease_token t = Some token"
    and order: "\<And>x. same_order x (f x)" and w1: "kw_tasks w1 = kw_tasks w"
  shows "write_task k token f changed w1 = Ok (w1\<lparr>kw_tasks := update_where (\<lambda>x. dt_id x = k) f (kw_tasks w)\<rparr>, f t)"
proof -
  note tm = found_task [OF inv t]
  let ?own = "\<lambda>x. dt_id x = k \<and> dt_lease_token x = Some token"
  have "update_where ?own f (kw_tasks w) = update_where (\<lambda>x. dt_id x = k) f (kw_tasks w)"
    by (rule update_task_where [OF inv t]) (use tm token in auto)
  moreover have "list_ex ?own (kw_tasks w)" using tm token by (auto simp: list_ex_iff)
  moreover have "find_task k (w1\<lparr>kw_tasks := update_where (\<lambda>x. dt_id x = k) f (kw_tasks w)\<rparr>) = Ok (f t)"
    by (rule updated_task [OF inv t order]) simp
  ultimately show ?thesis by (simp add: write_task_def Let_def w1 and_then_def)
qed

definition update_costs_ok :: "LeasedTaskUpdate \<Rightarrow> DurableTask \<Rightarrow> bool" where
  "update_costs_ok u t \<longleftrightarrow>
     (let cost = unwrap_or (lu_model_cost_micros u) (dt_consumed_cost_micros t);
          runner_cost = unwrap_or (lu_runner_cost_micros u) (dt_consumed_runner_cost_micros t) in
      dt_consumed_cost_micros t \<le> cost \<and> cost \<le> dt_max_cost_micros t \<and>
      dt_consumed_runner_cost_micros t \<le> runner_cost \<and> runner_cost \<le> dt_max_runner_cost_micros t)"

text \<open>A live lease and costs within the limits are enough: the settlement cannot fail.\<close>

lemma leased_update_Ok:
  assumes inv: "task_inv w" and t: "find_row dt_id k (kw_tasks w) = Some t"
    and live: "live_lease token (ki_clock i) t" "\<not> dt_cancel_requested t" and costs: "update_costs_ok u t"
    and status: "lu_status u \<in> {Durable_Running, Durable_Succeeded}"
  obtains w' t' where "leased_update k token u i w = Ok (w', t')" and "task_inv w'" and "task_later w w'"
    and "find_row dt_id k (kw_tasks w') = Some t'" and "dt_status t' = lu_status u"
proof -
  define cost where "cost = unwrap_or (lu_model_cost_micros u) (dt_consumed_cost_micros t)"
  define rcost where "rcost = unwrap_or (lu_runner_cost_micros u) (dt_consumed_runner_cost_micros t)"
  define ends where "ends = (lu_status u = Durable_Succeeded)"
  define f where "f = (\<lambda>x. (if ends then clear_lease x else x)\<lparr>dt_status := lu_status u,
            dt_checkpoint := or_else (lu_checkpoint u) (dt_checkpoint x),
            dt_result := or_else (lu_result u) (dt_result x), dt_consumed_cost_micros := cost,
            dt_consumed_runner_cost_micros := rcost, dt_updated_at := ki_now i,
            dt_completed_at := (if ends then Some (ki_now i) else dt_completed_at x)\<rparr>)"
  note tm = found_task [OF inv t]
  have c: "dt_consumed_cost_micros t \<le> cost" "cost \<le> dt_max_cost_micros t"
    "dt_consumed_runner_cost_micros t \<le> rcost" "rcost \<le> dt_max_runner_cost_micros t"
    using costs by (simp_all add: update_costs_ok_def Let_def cost_def rcost_def)
  have c': "\<not> cost < dt_consumed_cost_micros t" "\<not> dt_max_cost_micros t < cost"
    "\<not> rcost < dt_consumed_runner_cost_micros t" "\<not> dt_max_runner_cost_micros t < rcost" using c by (simp_all add: not_less)
  have token: "dt_lease_token t = Some token" and held: "task_held (dt_status t)" using live(1) by (simp_all add: live_lease_def)
  have order: "same_order x (f x)" for x by (simp add: same_order_def all_money f_def clear_lease_def)
  have ok: "task_ok (f t)"
    using tm(3) c live(2) token status by (auto simp: task_ok_def all_money f_def ends_def clear_lease_def task_held_def word_le_def)
  have spent: "m_spent m (f t) = m_spent m t +
      m_pick m (uint (cost - dt_consumed_cost_micros t)) (uint (rcost - dt_consumed_runner_cost_micros t))" for m
    using c by (cases m) (simp_all add: f_def uint_minus)
  have ends: "task_terminal (dt_status (f t)) \<longleftrightarrow> ends" using status by (auto simp: f_def ends_def task_terminal_def)
  have open_task: "\<not> task_terminal (dt_status t)" using held by (auto simp: task_held_def task_terminal_def)
  obtain w1 where w1: "settle_durable_budget k (cost - dt_consumed_cost_micros t) (rcost - dt_consumed_runner_cost_micros t)
        ends (ki_now i) w = Ok w1" "kw_tasks w1 = kw_tasks w"
      "task_inv (w1\<lparr>kw_tasks := update_where (\<lambda>x. dt_id x = k) f (kw_tasks w)\<rparr>)"
      "task_later w (w1\<lparr>kw_tasks := update_where (\<lambda>x. dt_id x = k) f (kw_tasks w)\<rparr>)"
    by (rule settle_task [OF inv t open_task order ok spent ends, of "ki_now i"]) (simp_all add: f_def clear_lease_def)
  have "leased_update k token u i w = write_task k token f ''task lease changed'' w1"
    using t live c' w1(1) task_limits [OF tm(3)] not_too_large [OF c(2)] not_too_large [OF c(4)]
    by (simp add: leased_update_def find_task_def ok_or_def and_then_def Let_def cost_def [symmetric]
        rcost_def [symmetric] ends_def [symmetric] f_def)
  with write_task_Ok [OF inv t token order w1(2)]
  have result: "leased_update k token u i w = Ok (w1\<lparr>kw_tasks := update_where (\<lambda>x. dt_id x = k) f (kw_tasks w)\<rparr>, f t)" by simp
  have "find_row dt_id k (kw_tasks (w1\<lparr>kw_tasks := update_where (\<lambda>x. dt_id x = k) f (kw_tasks w)\<rparr>)) = Some (f t)"
    using updated_task [OF inv t order, of "w1\<lparr>kw_tasks := update_where (\<lambda>x. dt_id x = k) f (kw_tasks w)\<rparr>"] by (simp add: find_task_Ok)
  from that [OF result w1(3,4) this] show thesis by (simp add: f_def)
qed

text \<open>And they are necessary.\<close>

lemma leased_update_needs:
  assumes "leased_update k token u i w = Ok r"
  obtains t where "find_row dt_id k (kw_tasks w) = Some t" and "live_lease token (ki_clock i) t"
    and "\<not> dt_cancel_requested t" and "update_costs_ok u t"
proof -
  from assms obtain t where "find_row dt_id k (kw_tasks w) = Some t" "live_lease token (ki_clock i) t" "\<not> dt_cancel_requested t"
    "update_costs_ok u t"
    by (auto simp: leased_update_def and_then_Ok find_task_Ok Let_def update_costs_ok_def not_less split: if_splits)
  then show thesis by (rule that)
qed

lemma update_leased_kept [books_kept]:
  assumes "lu_status u \<in> {Durable_Running, Durable_Succeeded}"
  shows "books.kept (update_leased_task k token u)"
  unfolding update_leased_task_def
proof (rule tx_kept)
  fix i w w' x assume inv: "task_inv w" and ok: "leased_update k token u i w = Ok (w', x)"
  obtain t where "find_row dt_id k (kw_tasks w) = Some t" "live_lease token (ki_clock i) t" "\<not> dt_cancel_requested t"
    "update_costs_ok u t" by (rule leased_update_needs [OF ok])
  from leased_update_Ok [OF inv this assms] ok show "task_inv w' \<and> task_later w w'" by auto
qed

lemma progress_kept [books_kept]:
  "books.kept (start_durable_task k token)" "books.kept (checkpoint_durable_task k token v c)"
  "books.kept (checkpoint_durable_task_costs k token v c d)" "books.kept (complete_durable_task k token v c)"
  "books.kept (complete_durable_task_costs k token v c d)"
  unfolding start_durable_task_def checkpoint_durable_task_def checkpoint_durable_task_costs_def
    complete_durable_task_def complete_durable_task_costs_def
  by (simp_all add: update_leased_kept)

section \<open>The other ends of a task\<close>

lemma settled_update:
  assumes inv: "task_inv w" and t: "find_row dt_id k (kw_tasks w) = Some t" "\<not> task_terminal (dt_status t)"
    and settle: "settle_durable_budget k md rd ends now w = Ok w1"
    and p: "p t" "\<And>x. p x \<Longrightarrow> dt_id x = k"
    and order: "\<And>x. same_order x (f x)" and ok: "task_ok (f t)"
    and spent: "\<And>m. m_spent m (f t) = m_spent m t + m_pick m (uint md) (uint rd)"
    and ends: "task_terminal (dt_status (f t)) \<longleftrightarrow> ends"
    and tries: "dt_attempt t \<le> dt_attempt (f t)"
  shows "task_inv (w1\<lparr>kw_tasks := update_where p f (kw_tasks w1)\<rparr>) \<and>
    task_later w (w1\<lparr>kw_tasks := update_where p f (kw_tasks w1)\<rparr>)"
proof -
  obtain w2 where "settle_durable_budget k md rd ends now w = Ok w2" "kw_tasks w2 = kw_tasks w"
      "task_inv (w2\<lparr>kw_tasks := update_where (\<lambda>x. dt_id x = k) f (kw_tasks w)\<rparr>)"
      "task_later w (w2\<lparr>kw_tasks := update_where (\<lambda>x. dt_id x = k) f (kw_tasks w)\<rparr>)"
    by (rule settle_task [OF inv t order ok spent ends tries, of now])
  with settle update_task_where [OF inv t(1), of p f, OF p] show ?thesis by simp
qed

lemma task_only_update:
  assumes inv: "task_inv w" and t: "find_row dt_id k (kw_tasks w) = Some t"
    and p: "p t" "\<And>x. p x \<Longrightarrow> dt_id x = k"
    and order: "\<And>x. same_order x (f x)" and ok: "task_ok (f t)"
    and spent: "\<And>m. m_spent m (f t) = m_spent m t"
    and open_task: "\<not> task_terminal (dt_status t)" "\<not> task_terminal (dt_status (f t))"
    and tries: "dt_attempt t \<le> dt_attempt (f t)"
  shows "task_inv (w\<lparr>kw_tasks := update_where p f (kw_tasks w)\<rparr>) \<and>
    task_later w (w\<lparr>kw_tasks := update_where p f (kw_tasks w)\<rparr>)"
proof
  note same = update_task_where [OF inv t, of p f, OF p]
  have "task_inv (w\<lparr>kw_tasks := update_where (\<lambda>x. dt_id x = k) f (kw_tasks w)\<rparr>)"
    by (rule task_only_inv [OF inv t order ok spent]) (use open_task in simp)
  with same show "task_inv (w\<lparr>kw_tasks := update_where p f (kw_tasks w)\<rparr>)" by simp
  have "task_moved t (f t)" using order open_task tries spent by (simp add: task_moved_def)
  then show "task_later w (w\<lparr>kw_tasks := update_where p f (kw_tasks w)\<rparr>)"
    by (rule task_update_later [OF inv t]) (simp_all add: same)
qed

lemma order_of_clear [simp]: "same_order (clear_lease x) y \<longleftrightarrow> same_order x y"
  by (simp add: same_order_def clear_lease_def all_money)

lemma clear_lease_simps [simp]:
  "dt_status (clear_lease x) = dt_status x" "dt_lease_token (clear_lease x) = None"
  "dt_consumed_cost_micros (clear_lease x) = dt_consumed_cost_micros x"
  "dt_consumed_runner_cost_micros (clear_lease x) = dt_consumed_runner_cost_micros x"
  "dt_cancel_requested (clear_lease x) = dt_cancel_requested x" "dt_attempt (clear_lease x) = dt_attempt x"
  "dt_max_attempts (clear_lease x) = dt_max_attempts x" "dt_id (clear_lease x) = dt_id x"
  "dt_max_cost_micros (clear_lease x) = dt_max_cost_micros x"
  "dt_max_runner_cost_micros (clear_lease x) = dt_max_runner_cost_micros x"
  "dt_scope (clear_lease x) = dt_scope x" "dt_kind (clear_lease x) = dt_kind x" "dt_payload (clear_lease x) = dt_payload x"
  "dt_idempotency_key (clear_lease x) = dt_idempotency_key x"
  "dt_max_runtime_seconds (clear_lease x) = dt_max_runtime_seconds x"
  by (simp_all add: clear_lease_def)

lemmas status_facts = task_held_def task_terminal_def

lemma fail_kept: "books.kept (fail_durable_task_costs_inner k token error retryable cost runner)"
  unfolding fail_durable_task_costs_inner_def
proof (rule tx_kept)
  fix i w w' x assume inv: "task_inv w" and "fail_leased k token error retryable cost runner i w = Ok (w', x)"
  then obtain t w1 where t: "find_row dt_id k (kw_tasks w) = Some t" "dt_lease_token t = Some token" "task_held (dt_status t)"
    and c: "dt_consumed_cost_micros t \<le> cost" "cost \<le> dt_max_cost_micros t"
      "dt_consumed_runner_cost_micros t \<le> unwrap_or runner (dt_consumed_runner_cost_micros t)"
      "unwrap_or runner (dt_consumed_runner_cost_micros t) \<le> dt_max_runner_cost_micros t"
    and settle: "settle_durable_budget k (cost - dt_consumed_cost_micros t)
        (unwrap_or runner (dt_consumed_runner_cost_micros t) - dt_consumed_runner_cost_micros t)
        (\<not> (retryable \<and> dt_attempt t < dt_max_attempts t \<and> \<not> dt_cancel_requested t)) (ki_now i) w = Ok w1"
    and w': "w' = w1\<lparr>kw_tasks := update_where (\<lambda>x. dt_id x = k \<and> dt_lease_token x = Some token)
           (\<lambda>x. (clear_lease x)\<lparr>dt_status := (if retryable \<and> dt_attempt t < dt_max_attempts t \<and> \<not> dt_cancel_requested t
                  then Durable_Queued else Durable_Failed), dt_error := Some error,
                 dt_consumed_cost_micros := cost,
                 dt_consumed_runner_cost_micros := unwrap_or runner (dt_consumed_runner_cost_micros t),
                 dt_updated_at := ki_now i,
                 dt_completed_at := (if retryable \<and> dt_attempt t < dt_max_attempts t \<and> \<not> dt_cancel_requested t
                  then None else Some (ki_now i))\<rparr>) (kw_tasks w1)\<rparr>"
    unfolding fail_leased_def and_then_Ok find_task_Ok Let_def if_Err_Ok by auto
  note tm = found_task [OF inv t(1)]
  show "task_inv w' \<and> task_later w w'"
    unfolding w'
  proof (rule settled_update [OF inv t(1) _ settle], goal_cases)
    case (6 m)
    then show ?case using c by (cases m) (simp_all add: uint_minus)
  qed (use t tm c in \<open>auto simp: status_facts same_order_def all_money task_ok_def word_le_def\<close>)
qed

lemma failure_kept [books_kept]:
  "books.kept (fail_durable_task k token error retryable cost)"
  "books.kept (fail_durable_task_costs k token error retryable cost runner_cost)"
  unfolding fail_durable_task_def fail_durable_task_costs_def by (rule fail_kept)+

lemma reconcile_kept [books_kept]: "books.kept (reconcile_paused_durable_task scope k turn succeeded result error)"
  unfolding reconcile_paused_durable_task_def
proof (rule tx_kept)
  fix i w w' x assume inv: "task_inv w" and "reconcile_paused scope k turn succeeded result error i w = Ok (w', x)"
  then obtain t w1 where t: "find_row dt_id k (kw_tasks w) = Some t" "dt_status t = Durable_Paused"
    and settle: "settle_durable_budget k 0 0 True (ki_now i) w = Ok w1"
    and w': "w' = w1\<lparr>kw_tasks := update_where (\<lambda>t. dt_id t = k \<and> dt_status t = Durable_Paused)
           (\<lambda>t. t\<lparr>dt_status := (if succeeded then Durable_Succeeded else Durable_Failed), dt_result := result,
                 dt_error := error, dt_updated_at := ki_now i, dt_completed_at := Some (ki_now i)\<rparr>) (kw_tasks w1)\<rparr>"
    unfolding reconcile_paused_def and_then_Ok find_task_Ok Let_def if_Err_Ok by auto
  note tm = found_task [OF inv t(1)]
  show "task_inv w' \<and> task_later w w'"
    unfolding w'
  proof (rule settled_update [OF inv t(1) _ settle], goal_cases)
    case (6 m)
    then show ?case by (cases m) simp_all
  qed (use t tm in \<open>auto simp: status_facts same_order_def all_money task_ok_def\<close>)
qed

lemma allowed_change:
  "status_change_allowed s s' \<and> \<not> task_terminal s \<Longrightarrow>
     s' = Durable_Cancelled \<or> s' = Durable_Paused \<or> s' = Durable_Queued"
  by (cases s; cases s') simp_all

lemma status_kept [books_kept]: "books.kept (set_durable_task_status scope k status)"
  unfolding set_durable_task_status_def
proof (rule tx_kept)
  fix i w w' x assume inv: "task_inv w" and ok: "change_status scope k status i w = Ok (w', x)"
  let ?f = "\<lambda>t. (clear_lease t)\<lparr>dt_status := status, dt_cancel_requested := (status = Durable_Cancelled),
        dt_updated_at := ki_now i, dt_completed_at := (if status = Durable_Cancelled then Some (ki_now i) else None)\<rparr>"
  from ok obtain t w1 where t: "find_row dt_id k (kw_tasks w) = Some t" "status_change_allowed (dt_status t) status"
      "\<not> task_terminal (dt_status t)"
    and settle: "(if status = Durable_Cancelled then settle_durable_budget k 0 0 True (ki_now i) w else Ok w) = Ok w1"
    and w': "w' = w1\<lparr>kw_tasks := update_where (\<lambda>t. dt_id t = k) ?f (kw_tasks w1)\<rparr>"
    unfolding change_status_def and_then_Ok find_task_Ok Let_def if_Err_Ok by auto
  note tm = found_task [OF inv t(1)]
  from allowed_change t(2,3) have status: "status = Durable_Cancelled \<or> status = Durable_Paused \<or> status = Durable_Queued" by blast
  show "task_inv w' \<and> task_later w w'"
  proof (cases "status = Durable_Cancelled")
    case True
    with settle have settle: "settle_durable_budget k 0 0 True (ki_now i) w = Ok w1" by simp
    show ?thesis unfolding w'
    proof (rule settled_update [OF inv t(1,3) settle], goal_cases)
      case (5 m)
      then show ?case by (cases m) simp_all
    qed (use tm True in \<open>auto simp: status_facts same_order_def all_money task_ok_def\<close>)
  next
    case False
    with settle have "w1 = w" by simp
    show ?thesis unfolding w' \<open>w1 = w\<close>
    proof (rule task_only_update [OF inv t(1)], goal_cases)
      case (5 m)
      then show ?case by (cases m) simp_all
    qed (use t tm False status in \<open>auto simp: status_facts same_order_def all_money task_ok_def\<close>)
  qed
qed

lemma request_kept [books_kept]: "books.kept (request_durable_task_cancellation scope k)"
  unfolding request_durable_task_cancellation_def
proof (rule tx_kept)
  fix i w w' x assume inv: "task_inv w" and ok: "request_cancellation scope k i w = Ok (w', x)"
  from ok obtain t where t: "find_row dt_id k (kw_tasks w) = Some t"
    unfolding request_cancellation_def and_then_Ok find_task_Ok by blast
  note tm = found_task [OF inv t]
  let ?active = "task_held (dt_status t)"
  let ?p = "\<lambda>x. dt_id x = k \<and> \<not> dt_cancel_requested x \<and> dt_status x = dt_status t \<and>
        unwrap_or (dt_lease_token x) [] = unwrap_or (dt_lease_token t) []"
  let ?f = "\<lambda>x. (if ?active then x else clear_lease x)\<lparr>
        dt_status := (if ?active then dt_status t else Durable_Cancelled), dt_cancel_requested := True,
        dt_updated_at := ki_now i, dt_completed_at := (if ?active then dt_completed_at x else Some (ki_now i))\<rparr>"
  show "task_inv w' \<and> task_later w w'"
  proof (cases "task_terminal (dt_status t)")
    case True
    with ok t inv show ?thesis by (simp add: request_cancellation_def find_task_def ok_or_def and_then_Ok)
  next
    case False
    with ok t obtain w1 where settle: "(if ?active then Ok w else settle_durable_budget k 0 0 True (ki_now i) w) = Ok w1"
      and w': "w' = w1\<lparr>kw_tasks := update_where ?p ?f (kw_tasks w1)\<rparr>"
      unfolding request_cancellation_def and_then_Ok find_task_Ok Let_def by auto
    show ?thesis
    proof (cases ?active)
      case True
      with settle have "w1 = w" by simp
      show ?thesis
      proof (cases "dt_cancel_requested t")
        case True
        have none: "\<not> ?p x" if "x \<in> set (kw_tasks w)" for x
          using that tm True inv_distinct(1) [OF inv] by (metis distinct_map inj_on_contraD)
        have "update_where ?p ?f (kw_tasks w) = kw_tasks w"
          unfolding update_where_def
        proof (rule map_idI)
          fix x assume "x \<in> set (kw_tasks w)"
          from none [OF this] show "(if ?p x then ?f x else x) = x" by (simp only: if_False)
        qed
        then have "w' = w" unfolding w' \<open>w1 = w\<close> by simp
        with inv show ?thesis by simp
      next
        case False
        show ?thesis unfolding w' \<open>w1 = w\<close>
        proof (rule task_only_update [OF inv t], goal_cases)
          case (5 m)
          then show ?case using True by (cases m) simp_all
        qed (use tm True False in \<open>auto simp: status_facts same_order_def all_money task_ok_def\<close>)
      qed
    next
      case inactive: False
      then have settle: "settle_durable_budget k 0 0 True (ki_now i) w = Ok w1" using settle by simp
      have "\<not> dt_cancel_requested t" using tm(3) False inactive by (cases "dt_status t") (auto simp: task_ok_def status_facts)
      with tm False inactive show ?thesis unfolding w'
      proof (intro settled_update [OF inv t False settle], goal_cases)
        case (5 m)
        then show ?case by (cases m) simp_all
      qed (auto simp: status_facts same_order_def all_money task_ok_def)
    qed
  qed
qed

lemma acknowledge_kept [books_kept]: "books.kept (acknowledge_durable_task_cancellation k token result cost)"
  unfolding acknowledge_durable_task_cancellation_def
proof (rule tx_kept)
  fix i w w' x assume inv: "task_inv w" and ok: "acknowledge_cancellation k token result cost i w = Ok (w', x)"
  from ok obtain t w1 where t: "find_row dt_id k (kw_tasks w) = Some t" "live_lease token (ki_clock i) t" "dt_cancel_requested t"
    and c: "\<not> cost < dt_consumed_cost_micros t" "\<not> dt_max_cost_micros t < cost"
    and settle: "settle_durable_budget k (cost - dt_consumed_cost_micros t) 0 True (ki_now i) w = Ok w1"
    and w': "w' = w1\<lparr>kw_tasks := update_where (\<lambda>t. dt_id t = k \<and> dt_lease_token t = Some token \<and> dt_cancel_requested t)
           (\<lambda>t. (clear_lease t)\<lparr>dt_status := Durable_Cancelled, dt_result := Some result, dt_consumed_cost_micros := cost,
                 dt_updated_at := ki_now i, dt_completed_at := Some (ki_now i)\<rparr>) (kw_tasks w1)\<rparr>"
    unfolding acknowledge_cancellation_def and_then_Ok find_task_Ok Let_def if_Err_Ok by auto
  note tm = found_task [OF inv t(1)]
  from t(2) have token: "dt_lease_token t = Some token" "task_held (dt_status t)" by (simp_all add: live_lease_def)
  show "task_inv w' \<and> task_later w w'"
    unfolding w'
  proof (rule settled_update [OF inv t(1) _ settle], goal_cases)
    case (6 m)
    then show ?case using c by (cases m) (simp_all add: uint_minus not_less)
  qed (use t tm c token in \<open>auto simp: status_facts same_order_def all_money task_ok_def word_le_def not_less\<close>)
qed

section \<open>Leases\<close>

lemma renew_kept [books_kept]: "books.kept (renew_durable_task_lease max_utc k token seconds)"
proof -
  have renew: "books.kept (task_tx (\<lambda>i w.
       let renewed = (\<lambda>t. dt_id t = k \<and> dt_lease_token t = Some token \<and> \<not> dt_cancel_requested t) in
       if \<not> list_ex renewed (kw_tasks w) then Err (SE_InvalidState ''task lease changed'')
       else Ok (w\<lparr>kw_tasks := update_where renewed
              (\<lambda>t. t\<lparr>dt_lease_expires_at := Some expires, dt_updated_at := now\<rparr>) (kw_tasks w)\<rparr>, ())))" for expires now
  proof (rule tx_kept)
    let ?p = "\<lambda>t. dt_id t = k \<and> dt_lease_token t = Some token \<and> \<not> dt_cancel_requested t"
    let ?f = "\<lambda>t. t\<lparr>dt_lease_expires_at := Some expires, dt_updated_at := now\<rparr>"
    fix i w w' and x :: unit
    assume inv: "task_inv w" and "(let renewed = ?p in
       if \<not> list_ex renewed (kw_tasks w) then Err (SE_InvalidState ''task lease changed'')
       else Ok (w\<lparr>kw_tasks := update_where renewed ?f (kw_tasks w)\<rparr>, ())) = Ok (w', x)"
    then obtain t where t: "t \<in> set (kw_tasks w)" "?p t" and w': "w' = w\<lparr>kw_tasks := update_where ?p ?f (kw_tasks w)\<rparr>"
      unfolding Let_def if_Err_Ok by (auto simp: list_ex_iff)
    from find_row_mem [OF inv_distinct(1) [OF inv] t(1)] t(2) have find: "find_row dt_id k (kw_tasks w) = Some t" by simp
    note tm = found_task [OF inv find]
    have "task_held (dt_status t)" using tm(3) t(2) by (auto simp: task_ok_def)
    then show "task_inv w' \<and> task_later w w'"
      unfolding w'
    proof (intro task_only_update [OF inv find], goal_cases)
      case (5 m)
      then show ?case by (cases m) simp_all
    qed (use t(2) tm in \<open>auto simp: status_facts same_order_def all_money task_ok_def\<close>)
  qed
  show ?thesis
    unfolding renew_durable_task_lease_def
    by (intro books.kept_try query_kept clock_kept) (auto intro!: books.kept_try renew query_kept)
qed

lemma next_attempt: "a < m \<Longrightarrow> a + 1 \<le> m \<and> a \<le> a + 1" for a m :: u32
  by unat_arith

lemma leasable_open: "leasable elapsed kind now w t \<Longrightarrow> \<not> task_terminal (dt_status t) \<and> \<not> dt_cancel_requested t \<and>
    dt_attempt t < dt_max_attempts t"
  by (auto simp: leasable_def status_facts)

lemma lease_kept [books_kept]: "books.kept (lease_durable_task_kind max_utc elapsed worker seconds kind)"
proof -
  have lease: "books.kept (task_tx (lease_next elapsed worker kind now expires))" for now expires
  proof (rule tx_kept)
    fix i w w' x assume inv: "task_inv w" and ok: "lease_next elapsed worker kind now expires i w = Ok (w', x)"
    show "task_inv w' \<and> task_later w w'"
    proof (cases "first_by dt_created_at (ki_choice i) (filter (leasable elapsed kind now w) (kw_tasks w))")
      case None
      with ok inv show ?thesis by (simp add: lease_next_def)
    next
      case (Some t)
      with first_by_mem [OF Some] ok have t: "t \<in> set (kw_tasks w)" "leasable elapsed kind now w t"
        and w': "w' = w\<lparr>kw_tasks := update_where (\<lambda>d. dt_id d = dt_id t) (lease_row worker (ki_id i) expires now) (kw_tasks w)\<rparr>"
        by (auto simp: lease_next_def)
      note find = find_row_mem [OF inv_distinct(1) [OF inv] t(1)]
      note tm = found_task [OF inv find] and open_task = leasable_open [OF t(2)]
      have next_try: "dt_attempt t + 1 \<le> dt_max_attempts t" "dt_attempt t \<le> dt_attempt t + 1"
        using next_attempt [of "dt_attempt t" "dt_max_attempts t"] open_task by simp_all
      show ?thesis
        unfolding w'
      proof (rule task_only_update [OF inv find], goal_cases)
        case (5 m)
        then show ?case by (cases m) (simp_all add: lease_row_def)
      qed (use tm open_task next_try in \<open>auto simp: lease_row_def status_facts same_order_def all_money task_ok_def\<close>)
    qed
  qed
  show ?thesis
    unfolding lease_durable_task_kind_def
    by (auto intro!: books.kept_try clock_kept lease)
qed

section \<open>Budgets\<close>

lemma find_row_append_old: "find_row key k rows = Some r \<Longrightarrow> find_row key k (rows @ [x]) = Some r"
  by (simp add: find_row_append)

lemma unused_budget:
  assumes "task_inv w" and "find_row tb_id k (kw_budgets w) = None"
  shows "reserved_in m w k = 0" "settled_in m w k = 0" "charged_in m w k = 0"
proof -
  have "br_budget_id r \<noteq> k" if "r \<in> set (kw_reservations w)" for r
    using inv_reservation [OF assms(1) that] assms(2) by (auto simp: reservation_ok_def)
  then show "reserved_in m w k = 0" "settled_in m w k = 0"
    unfolding reserved_in_def settled_in_def by (auto intro: sum_rows_zero)
  have "bc_budget_id c \<noteq> k" if "c \<in> set (kw_consumptions w)" for c
    using assms that by (auto simp: task_inv_def consumption_ok_def)
  then show "charged_in m w k = 0" unfolding charged_in_def by (auto intro: sum_rows_zero)
qed

lemma create_budget_kept [books_kept]: "books.kept (create_team_budget input)"
proof -
  have new: "task_inv (w\<lparr>kw_budgets := kw_budgets w @ [row]\<rparr>) \<and> task_later w (w\<lparr>kw_budgets := kw_budgets w @ [row]\<rparr>)"
    if inv: "task_inv w" and fresh: "find_row tb_id (tb_id row) (kw_budgets w) = None"
      and empty: "tb_model_consumed row = 0" "tb_runner_consumed row = 0" "tb_model_reserved row = 0"
        "tb_runner_reserved row = 0" "0 \<le> tb_model_limit row" "0 \<le> tb_runner_limit row" for w row
  proof -
    let ?w = "w\<lparr>kw_budgets := kw_budgets w @ [row]\<rparr>"
    have "budget_ok ?w b \<longleftrightarrow> budget_ok w b" for b
      by (simp add: budget_ok_def reserved_in_def settled_in_def charged_in_def)
    moreover have "budget_ok w row" using empty by (simp add: budget_ok_def all_money unused_budget [OF inv fresh])
    moreover have "reservation_ok ?w r" if "reservation_ok w r" for r
      using that find_row_append_old by (fastforce simp: reservation_ok_def)
    moreover have "consumption_ok ?w c" if "consumption_ok w c" for c
      using that by (auto simp: consumption_ok_def find_row_append split: option.split)
    moreover have "keys_ok ?w" using inv find_row_NoneD [OF fresh] by (auto simp: task_inv_def keys_ok_def)
    ultimately have "task_inv ?w" using inv unfolding task_inv_def by simp
    moreover have "task_later w ?w" using task_later_refl [of w] unfolding task_later_def by simp
    ultimately show ?thesis by simp
  qed
  show ?thesis
    unfolding create_team_budget_def
    by (auto intro!: books.kept_try query_kept tx_kept new [THEN conjunct1] new [THEN conjunct2] simp: Let_def split: if_splits)
qed

end
