(* ===== verification/Task_Budgets.thy ===== *)
theory Task_Budgets
  imports Task_Books
begin

text \<open>
  The operations that open, charge and close the accounts: a direct consumption, the creation of a task with
  its reservation, and the switch that cancels all work of a team.
\<close>

section \<open>One budget\<close>

lemma same_budget:
  assumes "task_inv w" and "b \<in> set (kw_budgets w)" and "x \<in> set (kw_budgets w)" and "tb_id x = tb_id b"
  shows "x = b"
  using assms inv_distinct(3) by (metis distinct_map inj_on_contraD)

lemma update_budget_where:
  assumes "task_inv w" and "b \<in> set (kw_budgets w)" and "p b" and "\<And>x. p x \<Longrightarrow> tb_id x = tb_id b"
  shows "update_where p h (kw_budgets w) = update_where (\<lambda>x. tb_id x = tb_id b) h (kw_budgets w)"
  using update_where_key [OF inv_distinct(3) [OF assms(1)] assms(2), of p h] assms(3,4) by blast

text \<open>The books balance after one budget has moved as much as the rows that refer to it.\<close>

lemma one_budget_ok:
  assumes inv: "task_inv w" and b: "b \<in> set (kw_budgets w)"
    and rows: "kw_budgets w' = update_where (\<lambda>x. tb_id x = tb_id b) h (kw_budgets w)"
    and kept: "tb_id (h b) = tb_id b" "tb_hard_limit (h b) = tb_hard_limit b" "\<And>m. m_limit m (h b) = m_limit m b"
    and moved: "\<And>m. m_consumed m (h b) = m_consumed m b + used m" "\<And>m. m_reserved m (h b) = m_reserved m b + held m"
    and held: "\<And>m k. reserved_in m w' k = reserved_in m w k + (if k = tb_id b then held m else 0)"
    and used: "\<And>m k. settled_in m w' k + charged_in m w' k =
                   settled_in m w k + charged_in m w k + (if k = tb_id b then used m else 0)"
    and room: "\<And>m. tb_hard_limit b \<Longrightarrow> m_consumed m b + m_reserved m b + used m + held m \<le> m_limit m b"
  shows "\<forall>x \<in> set (kw_budgets w'). budget_ok w' x"
proof
  fix x assume "x \<in> set (kw_budgets w')"
  then obtain y where y: "y \<in> set (kw_budgets w)" "x = (if tb_id y = tb_id b then h y else y)"
    unfolding rows set_update_where by auto
  show "budget_ok w' x"
  proof (cases "tb_id y = tb_id b")
    case True
    with y same_budget [OF inv b y(1)] have "x = h b" by simp
    show ?thesis
      unfolding budget_ok_def \<open>x = h b\<close>
    proof (intro allI)
      fix m
      from inv_budget [OF inv b] have "m_reserved m b = reserved_in m w (tb_id b)" "0 \<le> m_limit m b"
        "m_consumed m b = settled_in m w (tb_id b) + charged_in m w (tb_id b)" by (simp_all add: budget_ok_def)
      then show "m_reserved m (h b) = reserved_in m w' (tb_id (h b)) \<and>
          m_consumed m (h b) = settled_in m w' (tb_id (h b)) + charged_in m w' (tb_id (h b)) \<and>
          0 \<le> m_limit m (h b) \<and> (tb_hard_limit (h b) \<longrightarrow> m_consumed m (h b) + m_reserved m (h b) \<le> m_limit m (h b))"
        unfolding kept moved held using used [of m "tb_id b"] room [of m] by auto
    qed
  next
    case False
    then have eqs: "reserved_in m w' (tb_id y) = reserved_in m w (tb_id y)"
      "settled_in m w' (tb_id y) + charged_in m w' (tb_id y) = settled_in m w (tb_id y) + charged_in m w (tb_id y)" for m
      using held used by simp_all
    from False y(2) have "x = y" by simp
    from inv_budget [OF inv y(1)] show ?thesis unfolding budget_ok_def \<open>x = y\<close> eqs .
  qed
qed

lemma budget_rows:
  assumes "\<And>x. tb_id (h x) = tb_id x"
  shows "map tb_id (update_where p h rows) = map tb_id rows"
    and "find_row tb_id k (update_where p h rows) = map_option (\<lambda>x. if p x then h x else x) (find_row tb_id k rows)"
  using assms by (simp_all add: map_update_where find_row_update)

lemma reservation_budgets:
  assumes "reservation_ok w r" and "\<And>x. tb_id (h x) = tb_id x \<and> budget_team (h x) = budget_team x"
    and "kw_budgets w' = update_where p h (kw_budgets w)"
    and "\<And>k t. find_row dt_id k (kw_tasks w) = Some t \<Longrightarrow> find_row dt_id k (kw_tasks w') = Some t"
  shows "reservation_ok w' r"
proof -
  from assms(1) obtain t b where t: "find_row dt_id (br_task_id r) (kw_tasks w) = Some t"
    and b: "find_row tb_id (br_budget_id r) (kw_budgets w) = Some b"
    and rest: "budget_team b = team_of (dt_scope t)" "br_status r = Res_Active \<longleftrightarrow> \<not> task_terminal (dt_status t)"
      "\<forall>m. m_settled m r = m_spent m t \<and> m_remaining m r = (if task_terminal (dt_status t) then 0 else m_max m t - m_spent m t)"
    by (auto simp: reservation_ok_def)
  moreover have "find_row tb_id (br_budget_id r) (kw_budgets w') = Some (if p b then h b else b)"
    using b assms(2) by (simp add: assms(3) budget_rows)
  ultimately show ?thesis using assms(2,4) unfolding reservation_ok_def by auto
qed

lemma consumption_budgets:
  assumes "consumption_ok w c" and "\<And>x. tb_id (h x) = tb_id x" and "kw_budgets w' = update_where p h (kw_budgets w)"
  shows "consumption_ok w' c"
  using assms by (auto simp: consumption_ok_def budget_rows)

lemma active_budget_mem:
  "active_budget scope now choice bs = Some b \<Longrightarrow> b \<in> set bs \<and> budget_team b = team_of scope"
  unfolding active_budget_def by (drule first_by_mem) simp

lemma row_to_team_budget_keys: "row_to_team_budget b = Ok budget \<Longrightarrow> bud_id budget = tb_id b \<and> bud_hard_limit budget = tb_hard_limit b"
  unfolding row_to_team_budget_def and_then_Ok by auto

lemma budget_fits_money:
  "budget_fits model runner b \<longleftrightarrow> (\<forall>m. m_consumed m b + m_reserved m b + m_pick m model runner \<le> m_limit m b)"
  by (simp add: budget_fits_def all_money)

section \<open>Direct consumption\<close>

lemma consume_inv:
  assumes inv: "task_inv w" and b: "b \<in> set (kw_budgets w)" and fits: "tb_hard_limit b \<longrightarrow> budget_fits model runner b"
    and amounts: "0 \<le> model" "0 \<le> runner"
    and fresh: "find (\<lambda>c. bc_budget_id c = tb_id b \<and> bc_idempotency_key c = key) (kw_consumptions w) = None"
  shows "task_inv (w\<lparr>kw_budgets := update_where (\<lambda>x. tb_id x = tb_id b)
           (\<lambda>x. x\<lparr>tb_model_consumed := tb_model_consumed x + model, tb_runner_consumed := tb_runner_consumed x + runner,
                 tb_actor_id := actor, tb_updated_at := now\<rparr>) (kw_budgets w),
         kw_consumptions := kw_consumptions w @
           [\<lparr>bc_budget_id = tb_id b, bc_idempotency_key = key, bc_model = model, bc_runner = runner\<rparr>]\<rparr>)"
    (is "task_inv (w\<lparr>kw_budgets := update_where ?p ?h _, kw_consumptions := _ @ [?c]\<rparr>)")
proof -
  let ?w = "w\<lparr>kw_budgets := update_where ?p ?h (kw_budgets w), kw_consumptions := kw_consumptions w @ [?c]\<rparr>"
  have rows: "kw_budgets ?w = update_where ?p ?h (kw_budgets w)" by simp
  have h: "tb_id (?h x) = tb_id x \<and> budget_team (?h x) = budget_team x" for x by (simp add: budget_team_def)
  have "keys_ok ?w"
    using inv fresh by (auto simp: task_inv_def keys_ok_def map_update_where find_None_iff image_iff)
  moreover have "reservation_ok ?w r" if "r \<in> set (kw_reservations w)" for r
    by (rule reservation_budgets [OF inv_reservation [OF inv that] h rows]) simp
  moreover have old: "consumption_ok ?w c" if "consumption_ok w c" for c
    by (rule consumption_budgets [OF that _ rows]) simp
  moreover have "consumption_ok ?w ?c"
    using amounts find_row_mem [OF inv_distinct(3) [OF inv] b]
    by (simp add: consumption_ok_def budget_rows all_money)
  moreover have "\<forall>x \<in> set (kw_budgets ?w). budget_ok ?w x"
  proof (rule one_budget_ok [OF inv b rows, where used = "\<lambda>m. m_pick m model runner" and held = "\<lambda>_. 0"], goal_cases)
    case (3 m) then show ?case by (cases m) simp_all
  next
    case (4 m) then show ?case by (cases m) simp_all
  next
    case (5 m) then show ?case by (cases m) simp_all
  next
    case (7 m k) then show ?case by (cases m) (simp_all add: settled_in_def charged_in_def)
  qed (use fits in \<open>auto simp: reserved_in_def budget_fits_money\<close>)
  ultimately show ?thesis using inv by (auto simp: task_inv_def)
qed

lemma record_consumption_kept:
  assumes inv: "task_inv w" and b: "row \<in> set (kw_budgets w)" and budget: "row_to_team_budget row = Ok budget"
    and fresh: "find (\<lambda>c. bc_budget_id c = bud_id budget \<and> bc_idempotency_key c = cn_idempotency_key input) (kw_consumptions w) = None"
    and ok: "record_consumption input budget i w = Ok (w', x)"
  shows "task_inv w' \<and> task_later w w'"
proof -
  let ?model = "uint (cn_model_micros input)" and ?runner = "uint (cn_runner_micros input)"
  let ?p = "\<lambda>b. tb_id b = bud_id budget \<and> (bud_hard_limit budget \<longrightarrow> budget_fits ?model ?runner b)"
  let ?h = "\<lambda>b. b\<lparr>tb_model_consumed := tb_model_consumed b + ?model, tb_runner_consumed := tb_runner_consumed b + ?runner,
        tb_actor_id := sc_actor_id (cn_scope input), tb_updated_at := ki_now i\<rparr>"
  note keys = row_to_team_budget_keys [OF budget]
  from ok have ex: "list_ex ?p (kw_budgets w)"
    and w': "w' = w\<lparr>kw_budgets := update_where ?p ?h (kw_budgets w), kw_consumptions := kw_consumptions w @
         [\<lparr>bc_budget_id = bud_id budget, bc_idempotency_key = cn_idempotency_key input, bc_model = ?model, bc_runner = ?runner\<rparr>]\<rparr>"
    unfolding record_consumption_def Let_def if_Err_Ok and_then_Ok
    by (elim conjE exE; simp only: sum.inject prod.inject not_not)+
  from ex obtain y where y: "y \<in> set (kw_budgets w)" "?p y" by (auto simp: list_ex_iff)
  with same_budget [OF inv b y(1)] keys have p: "?p row" by metis
  then have fits: "tb_hard_limit row \<longrightarrow> budget_fits ?model ?runner row" using keys by simp
  have upd: "update_where ?p ?h (kw_budgets w) = update_where (\<lambda>x. tb_id x = tb_id row) ?h (kw_budgets w)"
    by (rule update_budget_where [OF inv b]) (use p in blast, use keys in simp)
  from consume_inv [OF inv b fits, of "cn_idempotency_key input" "ki_now i" "sc_actor_id (cn_scope input)"] fresh
  have "task_inv w'" unfolding w' upd unfolding keys [THEN conjunct1] by simp
  moreover have "task_later w w'" using task_later_refl [of w] unfolding w' task_later_def by (simp add: subset_insertI)
  ultimately show ?thesis ..
qed

lemma consume_kept [books_kept]: "books.kept (consume_team_budget input)"
proof -
  have "books.kept (task_tx (consume_budget input))"
  proof (rule tx_kept)
    fix i w w' x assume inv: "task_inv w" and ok: "consume_budget input i w = Ok (w', x)"
    then obtain row budget where row: "active_budget (cn_scope input) (ki_now i) (ki_choice i) (kw_budgets w) = Some row"
      and budget: "row_to_team_budget row = Ok budget" and once: "consume_once input budget i w = Ok (w', x)"
      unfolding consume_budget_def and_then_Ok ok_or_def by (auto split: option.splits)
    from active_budget_mem [OF row] have b: "row \<in> set (kw_budgets w)" by simp
    from once inv show "task_inv w' \<and> task_later w w'"
      unfolding consume_once_def
      by (auto split: option.splits if_splits dest: record_consumption_kept [OF inv b budget])
  qed
  then show ?thesis by (simp add: consume_team_budget_def)
qed

section \<open>Creation\<close>

lemma find_task_append:
  "find_row dt_id k (kw_tasks w) = Some u \<Longrightarrow> find_row dt_id k (kw_tasks w @ [t]) = Some u"
  by (rule find_row_append_old)

lemma new_task_inv:
  assumes inv: "task_inv w" and fresh: "find_row dt_id (dt_id t) (kw_tasks w) = None"
    and key: "find (\<lambda>u. team_of (dt_scope u) = team_of (dt_scope t) \<and> dt_idempotency_key u = dt_idempotency_key t) (kw_tasks w) = None"
    and ok: "task_ok t"
  shows "task_inv (w\<lparr>kw_tasks := kw_tasks w @ [t]\<rparr>)" (is "task_inv ?w")
    and "task_later w (w\<lparr>kw_tasks := kw_tasks w @ [t]\<rparr>)"
proof -
  have "reservation_ok ?w r" if "r \<in> set (kw_reservations w)" for r
    using inv_reservation [OF inv that] find_task_append unfolding reservation_ok_def by fastforce
  moreover have "keys_ok ?w"
    using inv find_row_NoneD [OF fresh] key by (auto simp: task_inv_def keys_ok_def task_key_def find_None_iff)
  ultimately show "task_inv ?w" using inv ok by (auto simp: task_inv_def)
  show "task_later w ?w" by (auto simp: task_later_def intro: task_moved_refl)
qed

lemma reserve_inv:
  assumes inv: "task_inv w" and t: "find_row dt_id k (kw_tasks w) = Some t" "\<not> task_terminal (dt_status t)"
    and unspent: "\<And>m. m_spent m t = 0" and b: "b \<in> set (kw_budgets w)" "budget_team b = team_of (dt_scope t)"
    and amounts: "\<And>m. m_pick m model runner = m_max m t"
    and fits: "tb_hard_limit b \<longrightarrow> budget_fits model runner b"
    and fresh: "find_row br_task_id k (kw_reservations w) = None"
  shows "task_inv (w\<lparr>kw_budgets := update_where (\<lambda>x. tb_id x = tb_id b)
           (\<lambda>x. x\<lparr>tb_model_reserved := tb_model_reserved x + model, tb_runner_reserved := tb_runner_reserved x + runner,
                 tb_updated_at := now\<rparr>) (kw_budgets w),
         kw_reservations := kw_reservations w @
           [\<lparr>br_task_id = k, br_budget_id = tb_id b, br_remaining = model, br_runner_remaining = runner, br_settled = 0,
             br_runner_settled = 0, br_status = Res_Active, br_updated_at = now\<rparr>]\<rparr>)"
    (is "task_inv (w\<lparr>kw_budgets := update_where ?p ?h _, kw_reservations := _ @ [?r]\<rparr>)")
proof -
  let ?w = "w\<lparr>kw_budgets := update_where ?p ?h (kw_budgets w), kw_reservations := kw_reservations w @ [?r]\<rparr>"
  have rows: "kw_budgets ?w = update_where ?p ?h (kw_budgets w)" by simp
  have h: "tb_id (?h x) = tb_id x \<and> budget_team (?h x) = budget_team x" for x by (simp add: budget_team_def)
  have "keys_ok ?w"
    using inv find_row_NoneD [OF fresh] by (auto simp: task_inv_def keys_ok_def map_update_where)
  moreover have "reservation_ok ?w r" if "reservation_ok w r" for r
    by (rule reservation_budgets [OF that h rows]) simp
  moreover have "reservation_ok ?w ?r"
  proof -
    have "m_settled m ?r = m_spent m t \<and> m_remaining m ?r = m_max m t - m_spent m t" for m
      using amounts [of m] unspent [of m] by (cases m) simp_all
    moreover have "find_row tb_id (tb_id b) (kw_budgets ?w) = Some (?h b)"
      using find_row_mem [OF inv_distinct(3) [OF inv] b(1)] by (simp add: budget_rows)
    ultimately show ?thesis using t b(2) unfolding reservation_ok_def by (auto simp: budget_team_def)
  qed
  moreover have "consumption_ok ?w c" if "consumption_ok w c" for c
    by (rule consumption_budgets [OF that _ rows]) simp
  moreover have "\<forall>x \<in> set (kw_budgets ?w). budget_ok ?w x"
  proof (rule one_budget_ok [OF inv b(1) rows, where used = "\<lambda>_. 0" and held = "\<lambda>m. m_pick m model runner"], goal_cases)
    case (3 m) then show ?case by (cases m) simp_all
  next
    case (4 m) then show ?case by (cases m) simp_all
  next
    case (5 m) then show ?case by (cases m) simp_all
  next
    case (6 m k) then show ?case by (cases m) (simp_all add: reserved_in_def)
  next
    case (7 m k) then show ?case by (cases m) (simp_all add: settled_in_def charged_in_def)
  qed (use fits in \<open>auto simp: budget_fits_money\<close>)
  ultimately show ?thesis using inv by (auto simp: task_inv_def)
qed

lemma reserve_kept:
  assumes inv: "task_inv w" and t: "find_row dt_id k (kw_tasks w) = Some t" "\<not> task_terminal (dt_status t)"
    and unspent: "\<And>m. m_spent m t = 0"
    and order: "dt_scope t = cd_scope input" "dt_max_cost_micros t = cd_max_cost_micros input"
      "dt_max_runner_cost_micros t = cd_max_runner_cost_micros input"
    and ok: "reserve_budget input k now choice w = Ok w'"
  shows "task_inv w' \<and> task_later w w'"
proof (cases "w' = w")
  case False
  let ?model = "uint (cd_max_cost_micros input)" and ?runner = "uint (cd_max_runner_cost_micros input)"
  from ok False obtain b where active: "active_budget (cd_scope input) now choice (kw_budgets w) = Some b"
    unfolding reserve_budget_def Let_def by (auto split: if_splits option.splits)
  let ?p = "\<lambda>x. tb_id x = tb_id b \<and> (tb_hard_limit b \<longrightarrow> budget_fits ?model ?runner x)"
  let ?h = "\<lambda>x. x\<lparr>tb_model_reserved := tb_model_reserved x + ?model, tb_runner_reserved := tb_runner_reserved x + ?runner,
                 tb_updated_at := now\<rparr>"
  from active_budget_mem [OF active] have b: "b \<in> set (kw_budgets w)" "budget_team b = team_of (dt_scope t)"
    by (simp_all add: order)
  from ok False have ex: "list_ex ?p (kw_budgets w)" and fresh: "find_row br_task_id k (kw_reservations w) = None"
    and w': "w' = w\<lparr>kw_budgets := update_where ?p ?h (kw_budgets w),
         kw_reservations := kw_reservations w @
           [\<lparr>br_task_id = k, br_budget_id = tb_id b, br_remaining = ?model, br_runner_remaining = ?runner, br_settled = 0,
             br_runner_settled = 0, br_status = Res_Active, br_updated_at = now\<rparr>]\<rparr>"
    unfolding reserve_budget_def Let_def active option.case by (auto split: if_splits)
  from ex obtain y where y: "y \<in> set (kw_budgets w)" "?p y" by (auto simp: list_ex_iff)
  with same_budget [OF inv b(1) y(1)] have p: "?p b" by metis
  have upd: "update_where ?p ?h (kw_budgets w) = update_where (\<lambda>x. tb_id x = tb_id b) ?h (kw_budgets w)"
    by (rule update_budget_where [OF inv b(1)]) (use p in blast, blast)
  have "m_pick m ?model ?runner = m_max m t" for m by (cases m) (simp_all add: order)
  from reserve_inv [OF inv t unspent b this _ fresh, of now] p have "task_inv w'" unfolding w' upd by blast
  moreover have "task_later w w'" using task_later_refl [of w] unfolding w' task_later_def by simp
  ultimately show ?thesis ..
qed (simp add: inv)

lemma insert_kept:
  assumes inv: "task_inv w" and limits: "\<not> too_large (cd_max_cost_micros input)" "\<not> too_large (cd_max_runner_cost_micros input)"
    and ok: "insert_durable_task input i w = Ok (w', x)"
  shows "task_inv w' \<and> task_later w w'"
proof (cases "find (\<lambda>t. team_of (dt_scope t) = team_of (cd_scope input) \<and>
                 dt_idempotency_key t = cd_idempotency_key input) (kw_tasks w)")
  case (Some t)
  with ok inv show ?thesis by (auto simp: insert_durable_task_def split: if_splits)
next
  case None
  let ?t = "queued_task input (ki_id i) (ki_now i)"
  let ?w = "w\<lparr>kw_tasks := kw_tasks w @ [?t]\<rparr>"
  from ok None have fresh: "find_row dt_id (ki_id i) (kw_tasks w) = None"
    and reserved: "reserve_budget input (ki_id i) (ki_now i) (ki_choice i) ?w = Ok w'"
    by (auto simp: insert_durable_task_def split: if_splits)
  have t: "dt_id ?t = ki_id i" "dt_scope ?t = cd_scope input" "dt_idempotency_key ?t = cd_idempotency_key input"
    "dt_status ?t = Durable_Queued" "dt_max_cost_micros ?t = cd_max_cost_micros input"
    "dt_max_runner_cost_micros ?t = cd_max_runner_cost_micros input" by (simp_all add: queued_task_def)
  have unspent: "m_spent m ?t = 0" for m by (cases m) (simp_all add: queued_task_def)
  have "task_ok ?t" using limits by (auto simp: task_ok_def all_money queued_task_def status_facts too_large_def)
  with new_task_inv [OF inv, of ?t] fresh None have w: "task_inv ?w" "task_later w ?w" by (simp_all add: t)
  have find: "find_row dt_id (ki_id i) (kw_tasks ?w) = Some ?t" using fresh by (simp add: find_row_append t)
  from reserve_kept [OF w(1) find _ unspent t(2,5,6) reserved] w(2) show ?thesis
    by (auto simp: t status_facts intro: task_later_trans)
qed

lemma create_kept [books_kept]: "books.kept (create_durable_task input)"
proof (cases "too_large (cd_max_cost_micros input) \<or> too_large (cd_max_runner_cost_micros input)")
  case False
  then have "books.kept (task_tx (insert_durable_task input))"
    by (intro tx_kept) (use insert_kept in blast)
  then show ?thesis
    unfolding create_durable_task_def
    by (auto intro!: books.kept_try get_kept split: sum.split)
qed (auto simp: create_durable_task_def)

section \<open>The switch of a team\<close>

text \<open>The task of a reservation decides what the conditions over the table of tasks say.\<close>

lemma reservation_task:
  assumes inv: "task_inv w" and r: "r \<in> set (kw_reservations w)"
  obtains t b where "find_row dt_id (br_task_id r) (kw_tasks w) = Some t" and "find_row tb_id (br_budget_id r) (kw_budgets w) = Some b"
    and "budget_team b = team_of (dt_scope t)" and "br_status r = Res_Active \<longleftrightarrow> \<not> task_terminal (dt_status t)"
    and "\<And>m. m_settled m r = m_spent m t"
    and "\<And>m. m_remaining m r = (if task_terminal (dt_status t) then 0 else m_max m t - m_spent m t)"
    and "\<And>P. list_ex (\<lambda>d. dt_id d = br_task_id r \<and> P d) (kw_tasks w) \<longleftrightarrow> P t"
proof -
  from inv_reservation [OF inv r] obtain t b where t: "find_row dt_id (br_task_id r) (kw_tasks w) = Some t"
    and rest: "find_row tb_id (br_budget_id r) (kw_budgets w) = Some b" "budget_team b = team_of (dt_scope t)"
      "br_status r = Res_Active \<longleftrightarrow> \<not> task_terminal (dt_status t)"
      "\<And>m. m_settled m r = m_spent m t"
      "\<And>m. m_remaining m r = (if task_terminal (dt_status t) then 0 else m_max m t - m_spent m t)"
    by (auto simp: reservation_ok_def)
  have "list_ex (\<lambda>d. dt_id d = br_task_id r \<and> P d) (kw_tasks w) \<longleftrightarrow> P t" for P
    using found_task [OF inv t] inv_distinct(1) [OF inv] unfolding list_ex_iff by (metis distinct_map inj_on_contraD)
  with t rest show thesis by (rule that)
qed

definition cancelled :: "Timestamp \<Rightarrow> DurableTask \<Rightarrow> DurableTask" where
  "cancelled now t =
     (clear_lease t)\<lparr>dt_status := Durable_Cancelled, dt_cancel_requested := True, dt_updated_at := now,
        dt_completed_at := Some now\<rparr>"

lemma cancelled_facts:
  "same_order t (cancelled now t)" "m_spent m (cancelled now t) = m_spent m t" "dt_status (cancelled now t) = Durable_Cancelled"
  "task_ok t \<Longrightarrow> task_ok (cancelled now t)" "\<not> task_terminal (dt_status t) \<Longrightarrow> task_moved t (cancelled now t)"
  by (auto simp: cancelled_def same_order_def all_money task_ok_def task_moved_def status_facts) (cases m; simp)

lemma money_columns: "m_remaining Model_Money = br_remaining" "m_remaining Runner_Money = br_runner_remaining"
  by (simp_all add: fun_eq_iff)

definition released :: "Timestamp \<Rightarrow> ReservationRow \<Rightarrow> ReservationRow" where
  "released now r = r\<lparr>br_remaining := 0, br_runner_remaining := 0, br_status := Res_Released, br_updated_at := now\<rparr>"

lemma released_facts:
  "br_task_id (released now r) = br_task_id r" "br_budget_id (released now r) = br_budget_id r"
  "br_status (released now r) = Res_Released" "m_remaining m (released now r) = 0" "m_settled m (released now r) = m_settled m r"
  by (cases m; simp add: released_def)+

definition freed_by :: "TaskWorld \<Rightarrow> Id \<times> Id \<Rightarrow> BudgetRow \<Rightarrow> ReservationRow \<Rightarrow> bool" where
  "freed_by w team b r \<longleftrightarrow> br_budget_id r = tb_id b \<and> br_status r = Res_Active \<and> reserved_by_team w team r"

definition freed_budget :: "TaskWorld \<Rightarrow> Id \<times> Id \<Rightarrow> Timestamp \<Rightarrow> BudgetRow \<Rightarrow> BudgetRow" where
  "freed_budget w team now b =
     b\<lparr>tb_model_reserved := tb_model_reserved b - sum_rows br_remaining (filter (freed_by w team b) (kw_reservations w)),
       tb_runner_reserved := tb_runner_reserved b - sum_rows br_runner_remaining (filter (freed_by w team b) (kw_reservations w)),
       tb_updated_at := now\<rparr>"

lemma freed_budget_facts:
  "tb_id (freed_budget w team now b) = tb_id b" "budget_team (freed_budget w team now b) = budget_team b"
  "tb_hard_limit (freed_budget w team now b) = tb_hard_limit b" "m_limit m (freed_budget w team now b) = m_limit m b"
  "m_consumed m (freed_budget w team now b) = m_consumed m b"
  "m_reserved m (freed_budget w team now b) =
     m_reserved m b - sum_rows (m_remaining m) (filter (freed_by w team b) (kw_reservations w))"
  by (cases m; simp add: freed_budget_def budget_team_def money_columns)+

definition open_in :: "Id \<times> Id \<Rightarrow> DurableTask \<Rightarrow> bool" where
  "open_in team t \<longleftrightarrow> team_of (dt_scope t) = team \<and> \<not> task_terminal (dt_status t)"

definition held_open :: "TaskWorld \<Rightarrow> Id \<times> Id \<Rightarrow> ReservationRow \<Rightarrow> bool" where
  "held_open w team r \<longleftrightarrow>
     br_status r = Res_Active \<and> list_ex (\<lambda>d. dt_id d = br_task_id r \<and> open_in team d) (kw_tasks w)"

lemma release_rows:
  "kw_tasks (release_team team now w) = update_where (open_in team) (cancelled now) (kw_tasks w)"
  "kw_reservations (release_team team now w) = update_where (held_open w team) (released now) (kw_reservations w)"
  "kw_budgets (release_team team now w) = update_where (\<lambda>b. budget_team b = team) (freed_budget w team now) (kw_budgets w)"
  "kw_consumptions (release_team team now w) = kw_consumptions w"
  by (simp_all add: release_team_def Let_def open_in_def [abs_def] held_open_def [abs_def] released_def [abs_def]
      freed_by_def [abs_def] freed_budget_def [abs_def] cancelled_def [abs_def])

text \<open>What a budget has reserved belongs to its own team, so the switch frees all of it or nothing.\<close>

lemma freed_reservation:
  assumes inv: "task_inv w" and b: "b \<in> set (kw_budgets w)" and r: "r \<in> set (kw_reservations w)" "br_budget_id r = tb_id b"
  shows "(if held_open w team r then 0 else m_remaining m r) = (if budget_team b = team then 0 else m_remaining m r)"
    and "budget_team b = team \<Longrightarrow> (if freed_by w team b r then m_remaining m r else 0) = m_remaining m r"
proof -
  obtain t b' where t: "find_row tb_id (br_budget_id r) (kw_budgets w) = Some b'"
    "budget_team b' = team_of (dt_scope t)" "br_status r = Res_Active \<longleftrightarrow> \<not> task_terminal (dt_status t)"
    "m_remaining m r = (if task_terminal (dt_status t) then 0 else m_max m t - m_spent m t)"
    "\<And>P. list_ex (\<lambda>d. dt_id d = br_task_id r \<and> P d) (kw_tasks w) \<longleftrightarrow> P t"
    by (rule reservation_task [OF inv r(1)]) (rule that)
  have "b' = b" using t(1) find_row_mem [OF inv_distinct(3) [OF inv] b] r(2) by simp
  with t r(2) show "(if held_open w team r then 0 else m_remaining m r) = (if budget_team b = team then 0 else m_remaining m r)"
    "budget_team b = team \<Longrightarrow> (if freed_by w team b r then m_remaining m r else 0) = m_remaining m r"
    by (auto simp: held_open_def open_in_def freed_by_def reserved_by_team_def)
qed

lemma released_sums:
  assumes inv: "task_inv w" and b: "b \<in> set (kw_budgets w)"
  shows "reserved_in m (release_team team now w) (tb_id b) = (if budget_team b = team then 0 else reserved_in m w (tb_id b))"
    and "budget_team b = team \<Longrightarrow>
      sum_rows (m_remaining m) (filter (freed_by w team b) (kw_reservations w)) = reserved_in m w (tb_id b)"
proof -
  have "reserved_in m (release_team team now w) (tb_id b) =
      sum_rows (\<lambda>r. if br_budget_id r = tb_id b then if held_open w team r then 0 else m_remaining m r else 0) (kw_reservations w)"
    unfolding reserved_in_def release_rows sum_rows_map by (rule sum_rows_cong) (simp add: released_facts)
  also have "\<dots> = sum_rows (\<lambda>r. if br_budget_id r = tb_id b then if budget_team b = team then 0 else m_remaining m r else 0) (kw_reservations w)"
    by (rule sum_rows_cong) (use freed_reservation(1) [OF assms] in auto)
  also have "\<dots> = (if budget_team b = team then 0 else reserved_in m w (tb_id b))"
    unfolding reserved_in_def by (cases "budget_team b = team") (auto intro: sum_rows_zero sum_rows_cong)
  finally show "reserved_in m (release_team team now w) (tb_id b) = (if budget_team b = team then 0 else reserved_in m w (tb_id b))" .
  show "sum_rows (m_remaining m) (filter (freed_by w team b) (kw_reservations w)) = reserved_in m w (tb_id b)" if "budget_team b = team"
    unfolding reserved_in_def sum_rows_filter
    by (rule sum_rows_cong) (use freed_reservation(2) [OF assms _ _ that] in \<open>auto simp: freed_by_def\<close>)
qed

lemma freed_budget_ok:
  assumes inv: "task_inv w" and b: "b \<in> set (kw_budgets w)"
  shows "budget_ok (release_team team now w) (if budget_team b = team then freed_budget w team now b else b)"
proof -
  let ?w = "release_team team now w"
  have same: "settled_in m ?w k = settled_in m w k" "charged_in m ?w k = charged_in m w k" for m k
    unfolding settled_in_def charged_in_def release_rows sum_rows_map by (auto intro!: sum_rows_cong simp: released_facts)
  have "0 \<le> reserved_in m w (tb_id b)" for m
    unfolding reserved_in_def using inv_remaining(1) [OF inv] by (auto intro!: sum_rows_nonneg)
  then have nonneg: "0 \<le> m_reserved m b" for m using inv_budget [OF inv b] by (simp add: budget_ok_def)
  show ?thesis
  proof (cases "budget_team b = team")
    case True
    have "m_reserved m (freed_budget w team now b) = reserved_in m ?w (tb_id b)" "reserved_in m ?w (tb_id b) = 0" for m
      using inv_budget [OF inv b] True released_sums [OF assms] by (simp_all add: budget_ok_def freed_budget_facts)
    moreover have "m_consumed m b \<le> m_limit m b" if "tb_hard_limit b" for m
      using inv_budget [OF inv b] nonneg [of m] that by (auto simp: budget_ok_def dest: spec [of _ m])
    ultimately show ?thesis using inv_budget [OF inv b] True by (simp add: budget_ok_def freed_budget_facts same)
  next
    case False
    have "budget_ok ?w b \<longleftrightarrow> budget_ok w b" by (simp only: budget_ok_def same released_sums(1) [OF assms] False if_False)
    with inv_budget [OF inv b] False show ?thesis by simp
  qed
qed

lemma release_inv:
  assumes inv: "task_inv w"
  shows "task_inv (release_team team now w)" (is "task_inv ?w") and "task_later w (release_team team now w)"
proof -
  have find: "find_row dt_id k (kw_tasks ?w) = map_option (\<lambda>t. if open_in team t then cancelled now t else t) (find_row dt_id k (kw_tasks w))" for k
    unfolding release_rows by (rule find_task_update) (rule cancelled_facts)
  have find_b: "find_row tb_id k (kw_budgets ?w) =
      map_option (\<lambda>b. if budget_team b = team then freed_budget w team now b else b) (find_row tb_id k (kw_budgets w))" for k
    unfolding release_rows by (rule budget_rows) (rule freed_budget_facts)
  have "keys_ok ?w"
    using inv unfolding task_inv_def keys_ok_def release_rows keys_task_update [OF cancelled_facts(1)]
    by (simp add: map_update_where released_facts freed_budget_facts)
  moreover have "reservation_ok ?w (if held_open w team r then released now r else r)" if r: "r \<in> set (kw_reservations w)" for r
  proof -
    obtain t b where t: "find_row dt_id (br_task_id r) (kw_tasks w) = Some t" "find_row tb_id (br_budget_id r) (kw_budgets w) = Some b"
      "budget_team b = team_of (dt_scope t)" "br_status r = Res_Active \<longleftrightarrow> \<not> task_terminal (dt_status t)"
      "\<And>m. m_settled m r = m_spent m t" "\<And>m. m_remaining m r = (if task_terminal (dt_status t) then 0 else m_max m t - m_spent m t)"
      "\<And>P. list_ex (\<lambda>d. dt_id d = br_task_id r \<and> P d) (kw_tasks w) \<longleftrightarrow> P t" by (rule reservation_task [OF inv r]) (rule that)
    have "held_open w team r \<longleftrightarrow> open_in team t" using t(4,7) by (auto simp: held_open_def open_in_def)
    moreover have "dt_scope (cancelled now t) = dt_scope t" using same_order_simps(2) [OF cancelled_facts(1)] .
    ultimately show ?thesis
      using t(1-6) unfolding reservation_ok_def
      by (cases "open_in team t") (auto simp: find find_b released_facts freed_budget_facts cancelled_facts status_facts)
  qed
  then have "\<forall>r \<in> set (kw_reservations ?w). reservation_ok ?w r" unfolding release_rows(2) set_update_where by blast
  moreover have "\<forall>x \<in> set (kw_budgets ?w). budget_ok ?w x"
    unfolding release_rows(3) set_update_where using freed_budget_ok [OF inv] by blast
  moreover have "\<forall>x \<in> set (kw_tasks ?w). task_ok x"
    unfolding release_rows set_update_where using inv_task [OF inv] cancelled_facts(4) by auto
  moreover have "\<forall>c \<in> set (kw_consumptions ?w). consumption_ok ?w c"
    using inv unfolding release_rows(4) by (auto simp: task_inv_def consumption_ok_def find_b)
  ultimately show "task_inv ?w" by (simp add: task_inv_def)
  show "task_later w ?w"
    unfolding task_later_def release_rows
    by (intro conjI task_rows_later cancelled_facts(5) subset_refl) (simp add: open_in_def)
qed

lemma enabled_kept [books_kept]: "books.kept (set_team_durable_tasks_enabled scope enabled)"
  unfolding set_team_durable_tasks_enabled_def
proof (rule tx_kept, goal_cases)
  case (1 i w w' x)
  let ?w = "w\<lparr>kw_enabled := (kw_enabled w)(team_of scope \<mapsto> enabled)\<rparr>"
  from 1 have w: "task_inv ?w" "task_later w ?w" by simp_all
  with release_inv [OF w(1), of "team_of scope" "ki_now i"] 1(2) task_later_trans [OF w(2)] show ?case
    by (cases enabled) (auto simp: Let_def)
qed

end
