(* ===== verification/Task_Safety.thy ===== *)
theory Task_Safety
  imports Task_Budgets
begin

text \<open>
  The properties of durable tasks and team budgets.  The system starts with empty tables; any operation may
  arrive at any time, the transactions of the operations interleave in any way, any handler may be dropped,
  every statement may fail or take effect without an answer, and the capacity of a team may change.
\<close>

section \<open>The system\<close>

inductive_set task_clients ::
    "Timestamp \<Rightarrow> (Timestamp \<Rightarrow> Timestamp \<Rightarrow> u64 \<Rightarrow> bool) \<Rightarrow> (TaskInput, TaskWorld, unit) prog set"
  for max_utc :: Timestamp and elapsed_below :: "Timestamp \<Rightarrow> Timestamp \<Rightarrow> u64 \<Rightarrow> bool" where
  "forget (create_team_budget b) \<in> task_clients max_utc elapsed_below"
| "forget (consume_team_budget c) \<in> task_clients max_utc elapsed_below"
| "forget (create_durable_task input) \<in> task_clients max_utc elapsed_below"
| "forget (get_durable_task s k) \<in> task_clients max_utc elapsed_below"
| "forget (find_paused_durable_task_for_turn s t) \<in> task_clients max_utc elapsed_below"
| "forget (find_durable_task_for_turn s t) \<in> task_clients max_utc elapsed_below"
| "forget (lease_durable_task max_utc elapsed_below v n) \<in> task_clients max_utc elapsed_below"
| "forget (lease_durable_task_kind max_utc elapsed_below v n f) \<in> task_clients max_utc elapsed_below"
| "forget (renew_durable_task_lease max_utc k l n) \<in> task_clients max_utc elapsed_below"
| "forget (start_durable_task k l) \<in> task_clients max_utc elapsed_below"
| "forget (checkpoint_durable_task k l v c) \<in> task_clients max_utc elapsed_below"
| "forget (checkpoint_durable_task_costs k l v c d) \<in> task_clients max_utc elapsed_below"
| "forget (complete_durable_task k l v c) \<in> task_clients max_utc elapsed_below"
| "forget (complete_durable_task_costs k l v c d) \<in> task_clients max_utc elapsed_below"
| "forget (fail_durable_task k l e r c) \<in> task_clients max_utc elapsed_below"
| "forget (fail_durable_task_costs k l e r c d) \<in> task_clients max_utc elapsed_below"
| "forget (reconcile_paused_durable_task s k t b v e) \<in> task_clients max_utc elapsed_below"
| "forget (set_durable_task_status s k t) \<in> task_clients max_utc elapsed_below"
| "forget (request_durable_task_cancellation s k) \<in> task_clients max_utc elapsed_below"
| "forget (acknowledge_durable_task_cancellation k l v c) \<in> task_clients max_utc elapsed_below"
| "forget (set_team_durable_tasks_enabled s b) \<in> task_clients max_utc elapsed_below"

definition task_start :: "TaskWorld \<Rightarrow> bool" where
  "task_start w \<longleftrightarrow> kw_tasks w = [] \<and> kw_budgets w = [] \<and> kw_reservations w = [] \<and> kw_consumptions w = []"

abbreviation task_reach :: "Timestamp \<Rightarrow> (Timestamp \<Rightarrow> Timestamp \<Rightarrow> u64 \<Rightarrow> bool) \<Rightarrow>
    TaskWorld \<times> (TaskInput, TaskWorld, unit) prog list \<Rightarrow> TaskWorld \<times> (TaskInput, TaskWorld, unit) prog list \<Rightarrow> bool" where
  "task_reach max_utc elapsed_below \<equiv>
     reachable ki_thread (task_clients max_utc elapsed_below) task_env (\<lambda>_ w. w)"

lemma task_clients_kept: "\<forall>p \<in> task_clients max_utc elapsed_below. books.kept p"
proof
  fix p assume "p \<in> task_clients max_utc elapsed_below"
  then show "books.kept p"
    by (induction; intro books.kept_forget; simp add: books_kept lease_durable_task_def find_paused_durable_task_for_turn_def find_durable_task_for_turn_def)
qed

lemma task_reach_inv:
  assumes "task_start w0" and "task_reach max_utc elapsed_below (w0, []) s"
  shows "books.sys_kept s" and "task_inv (fst s)"
proof -
  have "books.sys_kept (w0, [])"
    using assms(1) by (simp add: books.sys_kept_def task_start_def task_inv_def keys_ok_def)
  from books.sys_kept_reachable [OF assms(2) this task_clients_kept] show "books.sys_kept s" by simp
  then show "task_inv (fst s)" by (simp add: books.sys_kept_def)
qed

lemma task_reach_later:
  assumes "task_start w0" and "task_reach max_utc elapsed_below (w0, []) s" and "task_reach max_utc elapsed_below s s'"
  shows "task_later (fst s) (fst s')"
  using books.sys_kept_reachable [OF assms(3) task_reach_inv(1) [OF assms(1,2)] task_clients_kept] by simp

section \<open>A run\<close>

text \<open>A team with a hard budget orders a task of at most 60 and 5; a worker leases it, reports 20 and 1 at
  a checkpoint and completes it at 30 and 2.\<close>

definition task_demo_scope :: Scope where
  "task_demo_scope = \<lparr>sc_organization_id = ''o'', sc_team_id = ''t'', sc_actor_id = ''a'', sc_goal_id = None, sc_task_id = None\<rparr>"

definition task_demo_world :: TaskWorld where
  "task_demo_world =
     \<lparr>kw_tasks = [], kw_budgets = [], kw_reservations = [], kw_consumptions = [], kw_enabled = (\<lambda>_. None),
      kw_concurrency = (\<lambda>_. None)\<rparr>"

definition task_demo_input :: "nat \<Rightarrow> string \<Rightarrow> TaskInput" where
  "task_demo_input k new_id =
     \<lparr>ki_thread = k, ki_db = DbOk, ki_clock = 5, ki_now = 5, ki_id = new_id, ki_choice = 0\<rparr>"

definition task_demo_budget :: "(TaskInput, TaskWorld, unit) prog" where
  "task_demo_budget = forget (create_team_budget
     \<lparr>cb_scope = task_demo_scope, cb_period_start = 0, cb_period_end = 10, cb_model_limit_micros = 100,
      cb_runner_limit_micros = 10, cb_hard_limit = True\<rparr>)"

definition task_demo_order :: CreateDurableTask where
  "task_demo_order =
     \<lparr>cd_scope = task_demo_scope, cd_kind = ''k'', cd_payload = JNull, cd_idempotency_key = ''i'', cd_max_attempts = 2,
      cd_max_runtime_seconds = 9, cd_max_cost_micros = 60, cd_max_runner_cost_micros = 5\<rparr>"

definition task_demo_elapsed :: "Timestamp \<Rightarrow> Timestamp \<Rightarrow> u64 \<Rightarrow> bool" where
  "task_demo_elapsed now started limit = True"

definition task_demo_create :: "(TaskInput, TaskWorld, unit) prog" where
  "task_demo_create = forget (create_durable_task task_demo_order)"

definition task_demo_lease :: "(TaskInput, TaskWorld, unit) prog" where
  "task_demo_lease = forget (lease_durable_task_kind (10 ^ 12) task_demo_elapsed ''v'' 9 None)"

definition task_demo_checkpoint :: "(TaskInput, TaskWorld, unit) prog" where
  "task_demo_checkpoint = forget (checkpoint_durable_task_costs ''k1'' ''l1'' JNull 20 1)"

definition task_demo_complete :: "(TaskInput, TaskWorld, unit) prog" where
  "task_demo_complete = forget (complete_durable_task_costs ''k1'' ''l1'' JNull 30 2)"

definition task_demo_after :: "(TaskInput, TaskWorld, unit) prog \<Rightarrow> nat \<Rightarrow> string \<Rightarrow> TaskWorld \<Rightarrow> TaskWorld" where
  "task_demo_after p k new_id w = fst (run_alone p [task_demo_input k new_id, task_demo_input k new_id] w)"

definition task_demo_ordered :: TaskWorld where
  "task_demo_ordered = task_demo_after task_demo_create 1 ''k1'' (task_demo_after task_demo_budget 0 ''b1'' task_demo_world)"

definition task_demo_leased :: TaskWorld where
  "task_demo_leased = task_demo_after task_demo_lease 2 ''l1'' task_demo_ordered"

definition task_demo_halfway :: TaskWorld where
  "task_demo_halfway = task_demo_after task_demo_checkpoint 3 [] task_demo_leased"

definition task_demo_finished :: TaskWorld where
  "task_demo_finished = task_demo_after task_demo_complete 4 [] task_demo_halfway"

definition task_demo_consumption :: "u64 \<Rightarrow> ConsumeTeamBudget" where
  "task_demo_consumption amount =
     \<lparr>cn_scope = task_demo_scope, cn_model_micros = amount, cn_runner_micros = 0, cn_idempotency_key = ''j''\<rparr>"

definition task_demo_consume :: "(TaskInput, TaskWorld, unit) prog" where
  "task_demo_consume = forget (consume_team_budget (task_demo_consumption 7))"

definition task_demo_charged :: TaskWorld where
  "task_demo_charged = task_demo_after task_demo_consume 5 [] task_demo_finished"

definition task_demo_team_budget :: TeamBudget where
  "task_demo_team_budget =
     \<lparr>bud_id = ''b1'', bud_scope = task_demo_scope, bud_period_start = 0, bud_period_end = 10,
      bud_model_limit_micros = 100, bud_runner_limit_micros = 10, bud_model_consumed_micros = 37,
      bud_runner_consumed_micros = 2, bud_model_reserved_micros = 0, bud_runner_reserved_micros = 0,
      bud_hard_limit = True, bud_created_at = 5, bud_updated_at = 5\<rparr>"

lemma task_demo_step:
  assumes "task_reach max_utc elapsed_below s (w, ps)" and "p \<in> task_clients max_utc elapsed_below"
    and "snd (run_alone p [task_demo_input (length ps) j, task_demo_input (length ps) j] w) = Some ()"
  shows "task_reach max_utc elapsed_below s (task_demo_after p (length ps) j w, ps @ [Ret ()])"
  unfolding task_demo_after_def
  by (rule reach_request [OF assms(1,2) _ assms(3)]) (simp add: task_demo_input_def)

lemma task_demo_ends:
  "snd (run_alone task_demo_budget [task_demo_input 0 ''b1'', task_demo_input 0 ''b1''] task_demo_world) = Some ()"
  "snd (run_alone task_demo_create [task_demo_input 1 ''k1'', task_demo_input 1 ''k1'']
     (task_demo_after task_demo_budget 0 ''b1'' task_demo_world)) = Some ()"
  "snd (run_alone task_demo_lease [task_demo_input 2 ''l1'', task_demo_input 2 ''l1''] task_demo_ordered) = Some ()"
  "snd (run_alone task_demo_checkpoint [task_demo_input 3 [], task_demo_input 3 []] task_demo_leased) = Some ()"
  "snd (run_alone task_demo_complete [task_demo_input 4 [], task_demo_input 4 []] task_demo_halfway) = Some ()"
  "snd (run_alone task_demo_consume [task_demo_input 5 [], task_demo_input 5 []] task_demo_finished) = Some ()"
  by code_simp+

lemma task_demo_start: "task_start task_demo_world"
  by (simp add: task_start_def task_demo_world_def)

definition task_demo_done :: "nat \<Rightarrow> (TaskInput, TaskWorld, unit) prog list" where
  "task_demo_done n = replicate n (Ret ())"

lemma task_demo_reach:
  "task_reach (10 ^ 12) task_demo_elapsed (task_demo_world, []) (task_demo_ordered, task_demo_done 2)" (is ?ordered)
  "task_reach (10 ^ 12) task_demo_elapsed (task_demo_world, []) (task_demo_leased, task_demo_done 3)" (is ?leased)
  "task_reach (10 ^ 12) task_demo_elapsed (task_demo_leased, task_demo_done 3) (task_demo_halfway, task_demo_done 4)" (is ?halfway)
  "task_reach (10 ^ 12) task_demo_elapsed (task_demo_halfway, task_demo_done 4) (task_demo_finished, task_demo_done 5)" (is ?finished)
  "task_reach (10 ^ 12) task_demo_elapsed (task_demo_ordered, task_demo_done 2) (task_demo_leased, task_demo_done 3)" (is ?lease)
  "task_reach (10 ^ 12) task_demo_elapsed (task_demo_finished, task_demo_done 5) (task_demo_charged, task_demo_done 6)" (is ?charged)
proof -
  have len: "length (task_demo_done n) = n" and more: "task_demo_done n @ [Ret ()] = task_demo_done (Suc n)" for n
    by (simp_all add: task_demo_done_def replicate_append_same)
  have step: "task_reach (10 ^ 12) task_demo_elapsed s (task_demo_after (forget q) n j w, task_demo_done (Suc n))"
    if "task_reach (10 ^ 12) task_demo_elapsed s (w, task_demo_done n)"
      and "forget q \<in> task_clients (10 ^ 12) task_demo_elapsed"
      and "snd (run_alone (forget q) [task_demo_input n j, task_demo_input n j] w) = Some ()" for s w n q j
    using task_demo_step [OF that(1,2), of j] that(3) by (simp only: len more)
  have "task_reach (10 ^ 12) task_demo_elapsed (task_demo_world, []) (task_demo_world, task_demo_done 0)"
    by (simp add: task_demo_done_def reachable.here)
  from step [OF this _ task_demo_ends(1) [unfolded task_demo_budget_def]]
  have budget: "task_reach (10 ^ 12) task_demo_elapsed (task_demo_world, [])
      (task_demo_after task_demo_budget 0 ''b1'' task_demo_world, task_demo_done 1)"
    by (simp add: task_clients.intros task_demo_budget_def)
  from step [OF this _ task_demo_ends(2) [unfolded task_demo_create_def]]
  show ordered: ?ordered by (simp add: task_clients.intros task_demo_create_def task_demo_ordered_def numeral_2_eq_2)
  from step [OF this _ task_demo_ends(3) [unfolded task_demo_lease_def]]
  show ?leased by (simp add: task_clients.intros task_demo_lease_def task_demo_leased_def)
  from step [OF reachable.here _ task_demo_ends(3) [unfolded task_demo_lease_def]]
  show ?lease by (simp add: task_clients.intros task_demo_lease_def task_demo_leased_def)
  from step [OF reachable.here _ task_demo_ends(4) [unfolded task_demo_checkpoint_def]]
  show ?halfway by (simp add: task_clients.intros task_demo_checkpoint_def task_demo_halfway_def)
  from step [OF reachable.here _ task_demo_ends(5) [unfolded task_demo_complete_def]]
  show ?finished by (simp add: task_clients.intros task_demo_complete_def task_demo_finished_def)
  from step [OF reachable.here _ task_demo_ends(6) [unfolded task_demo_consume_def]]
  show ?charged by (simp add: task_clients.intros task_demo_consume_def task_demo_charged_def)
qed

lemma task_demo_rows:
  "map (\<lambda>b. (tb_model_consumed b, tb_model_reserved b)) (kw_budgets task_demo_halfway) = [(20, 40)]"
  "map (\<lambda>r. (br_settled r, br_remaining r)) (kw_reservations task_demo_halfway) = [(20, 40)]"
  "map (\<lambda>t. (dt_id t, dt_status t)) (kw_tasks task_demo_finished) = [(''k1'', Durable_Succeeded)]"
  by code_simp+

section \<open>Properties\<close>



text \<open>C12: A reservation holds exactly what its task may still spend, nothing once the task is finished, and
  is active exactly while the task is not finished; a task never spends more than was reserved for it.\<close>

theorem reservation_covers_task:
  assumes "task_start w0" and "task_reach max_utc elapsed_below (w0, []) (w, ps)" and "r \<in> set (kw_reservations w)"
  shows "\<exists>t. find_row dt_id (br_task_id r) (kw_tasks w) = Some t \<and> m_settled m r = m_spent m t \<and> m_spent m t \<le> m_max m t \<and>
    m_remaining m r = (if task_terminal (dt_status t) then 0 else m_max m t - m_spent m t) \<and>
    (br_status r = Res_Active \<longleftrightarrow> \<not> task_terminal (dt_status t))"
proof -
  have inv: "task_inv w" using task_reach_inv [OF assms(1,2)] by simp
  obtain t where t: "find_row dt_id (br_task_id r) (kw_tasks w) = Some t" "br_status r = Res_Active \<longleftrightarrow> \<not> task_terminal (dt_status t)"
    "m_settled m r = m_spent m t" "m_remaining m r = (if task_terminal (dt_status t) then 0 else m_max m t - m_spent m t)"
    by (rule reservation_task [OF inv assms(3)]) (rule that)
  moreover have "m_spent m t \<le> m_max m t" using found_task(3) [OF inv t(1)] by (simp add: task_ok_def)
  ultimately show ?thesis by blast
qed

lemma reservation_covers_task_witness:
  "\<exists>r t. r \<in> set (kw_reservations task_demo_halfway) \<and> find_row dt_id (br_task_id r) (kw_tasks task_demo_halfway) = Some t \<and>
     m_spent Model_Money t = 20"
proof -
  obtain r where r: "r \<in> set (kw_reservations task_demo_halfway)" "br_settled r = 20" using task_demo_rows(2) by auto
  have "task_reach (10 ^ 12) task_demo_elapsed (task_demo_world, []) (task_demo_halfway, task_demo_done 4)"
    by (rule reachable_trans [OF task_demo_reach(2,3)])
  from reservation_covers_task [OF task_demo_start this r(1), of Model_Money] r show ?thesis by auto
qed

text \<open>C13: Every stored task is well formed: its identifier is its own and the idempotency key is its own within
  the team, it has spent at most its maxima, which fit the columns of the database, it was tried at most as
  often as allowed, it has a lease exactly while it is leased or running, and a task with a requested
  cancellation is neither queued nor paused.\<close>

theorem task_rows_well_formed:
  assumes "task_start w0" and "task_reach max_utc elapsed_below (w0, []) (w, ps)"
  shows "distinct (map dt_id (kw_tasks w)) \<and>
    distinct (map (\<lambda>t. (team_of (dt_scope t), dt_idempotency_key t)) (kw_tasks w)) \<and>
    (\<forall>t \<in> set (kw_tasks w).
       dt_consumed_cost_micros t \<le> dt_max_cost_micros t \<and> \<not> too_large (dt_max_cost_micros t) \<and>
       dt_consumed_runner_cost_micros t \<le> dt_max_runner_cost_micros t \<and> \<not> too_large (dt_max_runner_cost_micros t) \<and>
       dt_attempt t \<le> dt_max_attempts t \<and> (dt_lease_token t \<noteq> None \<longleftrightarrow> dt_status t \<in> {Durable_Leased, Durable_Running}) \<and>
       (dt_cancel_requested t \<longrightarrow> dt_status t \<notin> {Durable_Queued, Durable_Paused}))"
proof -
  have inv: "task_inv w" using task_reach_inv [OF assms] by simp
  have "dt_consumed_cost_micros t \<le> dt_max_cost_micros t \<and> \<not> too_large (dt_max_cost_micros t) \<and>
       dt_consumed_runner_cost_micros t \<le> dt_max_runner_cost_micros t \<and> \<not> too_large (dt_max_runner_cost_micros t) \<and>
       dt_attempt t \<le> dt_max_attempts t \<and> (dt_lease_token t \<noteq> None \<longleftrightarrow> dt_status t \<in> {Durable_Leased, Durable_Running}) \<and>
       (dt_cancel_requested t \<longrightarrow> dt_status t \<notin> {Durable_Queued, Durable_Paused})" if "t \<in> set (kw_tasks w)" for t
    using inv_task [OF inv that] task_limits [OF inv_task [OF inv that]] by (simp add: task_ok_def too_large_def task_held_def)
  then show ?thesis using inv_distinct(1,2) [OF inv] by (auto simp: task_key_def [abs_def])
qed

lemma task_rows_well_formed_witness:
  "\<exists>t \<in> set (kw_tasks task_demo_finished). dt_id t = ''k1'' \<and> dt_lease_token t = None"
proof -
  have reach: "task_reach (10 ^ 12) task_demo_elapsed (task_demo_world, []) (task_demo_finished, task_demo_done 5)"
    by (rule reachable_trans [OF reachable_trans [OF task_demo_reach(2,3)] task_demo_reach(4)])
  obtain t where "t \<in> set (kw_tasks task_demo_finished)" "dt_id t = ''k1''" "dt_status t = Durable_Succeeded"
    using task_demo_rows(3) by auto
  with task_rows_well_formed [OF task_demo_start reach] show ?thesis by fastforce
qed

text \<open>C10: A finished task is final: once a task has succeeded, failed or been cancelled, no operation changes
  any column of it again.\<close>

theorem finished_task_is_final:
  assumes "task_start w0" and "task_reach max_utc elapsed_below (w0, []) (w, ps)"
    and "t \<in> set (kw_tasks w)" and "task_terminal (dt_status t)"
    and "task_reach max_utc elapsed_below (w, ps) (w', ps')"
  shows "t \<in> set (kw_tasks w')"
  using task_reach_later [OF assms(1,2,5)] assms(3,4) by (auto simp: task_later_def task_moved_def)

lemma finished_task_is_final_witness:
  "\<exists>t. dt_id t = ''k1'' \<and> dt_status t = Durable_Succeeded \<and> t \<in> set (kw_tasks task_demo_finished)"
proof -
  have reach: "task_reach (10 ^ 12) task_demo_elapsed (task_demo_world, []) (task_demo_finished, task_demo_done 5)"
    by (rule reachable_trans [OF reachable_trans [OF task_demo_reach(2,3)] task_demo_reach(4)])
  obtain t where t: "t \<in> set (kw_tasks task_demo_finished)" "dt_id t = ''k1''" "dt_status t = Durable_Succeeded"
    using task_demo_rows(3) by auto
  from finished_task_is_final [OF task_demo_start reach t(1) _ reachable.here] t show ?thesis by (auto simp: task_terminal_def)
qed



text \<open>C14: An order that is sent again never makes a second task or a second reservation: as long as the tables
  live it finds the task that it made, in whatever state that is.\<close>

theorem repeated_order_finds_task:
  assumes "task_start w0" and "task_reach max_utc elapsed_below (w0, []) (w, ps)" and "t \<in> set (kw_tasks w)"
    and "team_of (dt_scope t) = team_of (cd_scope input)" and "dt_idempotency_key t = cd_idempotency_key input"
    and "same_work_order input t" and "\<not> too_large (cd_max_runtime_seconds input)"
    and "task_reach max_utc elapsed_below (w, ps) (w', ps')"
  shows "\<exists>t'. insert_durable_task input i w' = Ok (w', Inl t') \<and> dt_id t' = dt_id t"
proof -
  have inv: "task_inv w'" using task_reach_inv [OF assms(1) reachable_trans [OF assms(2,8)]] by simp
  from task_reach_later [OF assms(1,2,8)] assms(3) obtain t' where t': "t' \<in> set (kw_tasks w')" "same_order t t'"
    by (auto simp: task_later_def task_moved_def)
  then have key: "team_of (dt_scope t') = team_of (cd_scope input)" "dt_idempotency_key t' = cd_idempotency_key input"
    and order: "same_work_order input t'"
    using assms(4-6) by (auto simp: same_order_def same_work_order_def all_money word_uint_eq_iff)
  have "find (\<lambda>u. team_of (dt_scope u) = team_of (cd_scope input) \<and> dt_idempotency_key u = cd_idempotency_key input) (kw_tasks w') = Some t'"
    using find_row_mem [OF inv_distinct(2) [OF inv] t'(1)] key by (simp add: find_row_def task_key_def)
  with order assms(7) t'(2) show ?thesis by (simp add: insert_durable_task_def same_order_def)
qed

lemma repeated_order_finds_task_witness:
  "\<exists>t'. insert_durable_task task_demo_order (task_demo_input 7 ''k2'') task_demo_finished = Ok (task_demo_finished, Inl t') \<and>
     dt_id t' = ''k1''"
proof -
  let ?t = "queued_task task_demo_order ''k1'' 5"
  have "kw_tasks task_demo_ordered = [?t]" by code_simp
  then have t: "?t \<in> set (kw_tasks task_demo_ordered)" by simp
  have "task_reach (10 ^ 12) task_demo_elapsed (task_demo_ordered, task_demo_done 2) (task_demo_finished, task_demo_done 5)"
    by (rule reachable_trans [OF reachable_trans [OF task_demo_reach(5,3)] task_demo_reach(4)])
  from repeated_order_finds_task [OF task_demo_start task_demo_reach(1) t _ _ _ _ this, of task_demo_order]
  show ?thesis by (simp add: queued_task_def same_work_order_def too_large_def task_demo_order_def)
qed

text \<open>A direct consumption is charged once: whatever happens in between, sent again with its key it changes
  nothing and gives the budget, or it is refused when its amounts differ.\<close>

theorem consumption_charged_once:
  assumes "task_start w0" and "task_reach max_utc elapsed_below (w0, []) (w, ps)" and "c \<in> set (kw_consumptions w)"
    and "bc_budget_id c = bud_id budget" and "bc_idempotency_key c = cn_idempotency_key input"
    and "task_reach max_utc elapsed_below (w, ps) (w', ps')"
  shows "consume_once input budget i w' =
    (if bc_model c = uint (cn_model_micros input) \<and> bc_runner c = uint (cn_runner_micros input) then Ok (w', budget)
     else Err (SE_InvalidState ''idempotency key reused with different consumption''))"
proof -
  have inv: "task_inv w'" using task_reach_inv [OF assms(1) reachable_trans [OF assms(2,6)]] by simp
  have c: "c \<in> set (kw_consumptions w')" using task_reach_later [OF assms(1,2,6)] assms(3) by (auto simp: task_later_def)
  have "find (\<lambda>c. bc_budget_id c = bud_id budget \<and> bc_idempotency_key c = cn_idempotency_key input) (kw_consumptions w') = Some c"
    using find_row_mem [OF inv_distinct(5) [OF inv] c] assms(4,5) by (simp add: find_row_def)
  then show ?thesis by (simp add: consume_once_def)
qed

lemma consumption_charged_once_witness:
  "consume_once (task_demo_consumption 7) task_demo_team_budget (task_demo_input 9 ''x'') task_demo_charged =
     Ok (task_demo_charged, task_demo_team_budget) \<and>
   consume_once (task_demo_consumption 8) task_demo_team_budget (task_demo_input 9 ''x'') task_demo_charged =
     Err (SE_InvalidState ''idempotency key reused with different consumption'')"
proof -
  let ?c = "\<lparr>bc_budget_id = ''b1'', bc_idempotency_key = ''j'', bc_model = 7, bc_runner = 0\<rparr>"
  have "kw_consumptions task_demo_charged = [?c]" by code_simp
  then have c: "?c \<in> set (kw_consumptions task_demo_charged)" by simp
  have "task_reach (10 ^ 12) task_demo_elapsed (task_demo_world, []) (task_demo_charged, task_demo_done 6)"
    by (rule reachable_trans [OF reachable_trans [OF reachable_trans [OF task_demo_reach(2,3)] task_demo_reach(4)] task_demo_reach(6)])
  note once = consumption_charged_once [OF task_demo_start this c _ _ reachable.here]
  show ?thesis
    using once [of task_demo_team_budget "task_demo_consumption 7"] once [of task_demo_team_budget "task_demo_consumption 8"]
    by (simp add: task_demo_team_budget_def task_demo_consumption_def)
qed



end
