(* ===== verification/Turn_Queue.thy ===== *)
theory Turn_Queue
  imports Sql_Steps Sql_Rows Session_Rows
begin

text \<open>
  The prompt queue of a session, \<open>crates/storage/src/lib.rs\<close>.  A prompt of an idle session opens a turn at
  once; a prompt that arrives while a turn runs becomes a turn input, which is consumed into the running
  turn, or into a turn of its own when the session is idle again, or cancelled.  Questions of a turn pause
  it until a person answers.

  A table is the list of its rows, with the values that were sealed.  The revision of a row is a signed
  64-bit column.
\<close>

section \<open>Data\<close>

record Message =
  ms_id :: Id
  ms_session_id :: Id
  ms_turn_id :: Id
  ms_role :: string
  ms_content :: json
  ms_created_at :: Timestamp

datatype TurnInputMode = Input_Steer | Input_Queue

datatype TurnInputStatus = Input_Pending | Input_Processing | Input_Consumed | Input_Cancelled

record TurnInput =
  ti_id :: Id
  ti_session_id :: Id
  ti_target_turn_id :: Id
  ti_resulting_turn_id :: "Id option"
  ti_scope :: Scope
  ti_mode :: TurnInputMode
  ti_content :: json
  ti_status :: TurnInputStatus
  ti_idempotency_key :: string
  ti_created_at :: Timestamp
  ti_updated_at :: Timestamp
  ti_consumed_at :: "Timestamp option"
  ti_cancelled_at :: "Timestamp option"
  ti_revision :: int

record CreateTurnInput =
  ci_scope :: Scope
  ci_target_turn_id :: Id
  ci_mode :: TurnInputMode
  ci_content :: json
  ci_idempotency_key :: string

record QuestionOption =
  qo_label :: string
  qo_description :: string

record QuestionPrompt =
  qp_id :: string
  qp_header :: string
  qp_question :: string
  qp_options :: "QuestionOption list"

record QuestionAnswer =
  qa_question_id :: string
  qa_answer :: string

datatype QuestionStatus = Question_Pending | Question_Answered | Question_Expired | Question_Cancelled

record QuestionRequest =
  qr_id :: Id
  qr_session_id :: Id
  qr_turn_id :: Id
  qr_item_id :: Id
  qr_questions :: "QuestionPrompt list"
  qr_allow_other :: bool
  qr_requested_by :: Id
  qr_requested_at :: Timestamp
  qr_expires_at :: "Timestamp option"
  qr_status :: QuestionStatus
  qr_answers :: "QuestionAnswer list"
  qr_answered_by :: "Id option"
  qr_answered_at :: "Timestamp option"
  qr_revision :: int

text \<open>A row of \<open>question_requests\<close>, and what is used of a row of \<open>attachments\<close>.\<close>

record QuestionRow =
  qq_id :: Id
  qq_item_id :: Id
  qq_scope :: Scope
  qq_session_id :: Id
  qq_turn_id :: Id
  qq_questions :: "QuestionPrompt list"
  qq_allow_other :: bool
  qq_status :: QuestionStatus
  qq_answers :: "QuestionAnswer list option"
  qq_requested_at :: Timestamp
  qq_expires_at :: "Timestamp option"
  qq_answered_at :: "Timestamp option"
  qq_answered_by :: "Id option"
  qq_revision :: int

record AttachmentRow =
  ar_id :: Id
  ar_scope :: Scope
  ar_session_id :: Id
  ar_turn_id :: "Id option"

text \<open>The tables; \<open>qw_delivered\<close> records for every consumed input the message that it became.\<close>

record QueueWorld =
  qw_sessions :: "Session list"
  qw_turns :: "Turn list"
  qw_inputs :: "TurnInput list"
  qw_messages :: "Message list"
  qw_attachments :: "AttachmentRow list"
  qw_questions :: "QuestionRow list"
  qw_delivered :: "(Id \<times> Id) list"

text \<open>The input of a step: the outcome of the statement, two readings of the clock and the identifiers that
  would be generated.\<close>

record QueueInput =
  qi_thread :: nat
  qi_db :: DbOutcome
  qi_clock :: Timestamp
  qi_now :: Timestamp
  qi_id :: Id
  qi_message_id :: Id

type_synonym 'a queue_prog = "(QueueInput, QueueWorld, StorageError + 'a) prog"

abbreviation queue_query :: "(QueueWorld \<Rightarrow> StorageError + 'a) \<Rightarrow> 'a queue_prog" where
  "queue_query \<equiv> sql_query (\<lambda>e. e) qi_db"

abbreviation queue_tx :: "(QueueInput \<Rightarrow> QueueWorld \<Rightarrow> StorageError + QueueWorld \<times> 'a) \<Rightarrow> 'a queue_prog" where
  "queue_tx \<equiv> sql_tx (\<lambda>e. e) qi_db"

section \<open>Rows\<close>

definition stored_revision :: "string \<Rightarrow> int \<Rightarrow> StorageError + int" where
  "stored_revision message v =
     (if v < 0 then Err (SE_InvalidData message)
      else if 2 ^ 63 \<le> v then Err (SE_Database ''mismatched types'')
      else Ok v)"

definition row_to_turn_input :: "TurnInput \<Rightarrow> StorageError + TurnInput" where
  "row_to_turn_input row =
     and_then (stored_revision ''turn input revision is outside u64'' (ti_revision row)) (\<lambda>_. Ok row)"

definition row_to_question_request :: "QuestionRow \<Rightarrow> StorageError + QuestionRequest" where
  "row_to_question_request row =
     and_then (stored_revision ''negative question revision'' (qq_revision row)) (\<lambda>revision.
     Ok \<lparr>qr_id = qq_id row, qr_session_id = qq_session_id row, qr_turn_id = qq_turn_id row,
         qr_item_id = qq_item_id row, qr_questions = qq_questions row, qr_allow_other = qq_allow_other row,
         qr_requested_by = sc_actor_id (qq_scope row), qr_requested_at = qq_requested_at row,
         qr_expires_at = qq_expires_at row, qr_status = qq_status row,
         qr_answers = (case qq_answers row of None \<Rightarrow> [] | Some answers \<Rightarrow> answers),
         qr_answered_by = qq_answered_by row, qr_answered_at = qq_answered_at row, qr_revision = revision\<rparr>)"

definition owned_by :: "Scope \<Rightarrow> Scope \<Rightarrow> bool" where
  "owned_by scope actual \<longleftrightarrow>
     sc_organization_id actual = sc_organization_id scope \<and> sc_team_id actual = sc_team_id scope \<and>
     sc_actor_id actual = sc_actor_id scope"

definition queue_session :: "Id \<Rightarrow> Session queue_prog" where
  "queue_session session_id = queue_query (\<lambda>w.
     case find_row ss_id session_id (qw_sessions w) of
       None \<Rightarrow> Err SE_NotFound
     | Some session \<Rightarrow> if ss_status session \<noteq> Session_Deleted then Ok session else Err SE_NotFound)"

definition queue_turn :: "Scope \<Rightarrow> Id \<Rightarrow> Turn queue_prog" where
  "queue_turn scope turn_id = queue_query (\<lambda>w.
     and_then (ok_or (find_row tn_id turn_id (qw_turns w)) SE_NotFound) (\<lambda>turn.
     and_then (ensure_actor_scope (tn_scope turn) scope) (\<lambda>_. Ok turn)))"

definition active_turn :: "Id \<Rightarrow> Turn list \<Rightarrow> bool" where
  "active_turn session_id turns \<longleftrightarrow> list_ex (\<lambda>t. tn_session_id t = session_id \<and> \<not> is_terminal (tn_status t)) turns"

definition waiting_input :: "TurnInput \<Rightarrow> bool" where
  "waiting_input r \<longleftrightarrow> ti_status r \<in> {Input_Pending, Input_Processing}"

definition new_turn :: "Id \<Rightarrow> Id \<Rightarrow> Scope \<Rightarrow> Timestamp \<Rightarrow> Turn" where
  "new_turn turn_id session_id scope now =
     \<lparr>tn_id = turn_id, tn_session_id = session_id, tn_scope = scope, tn_status = Idle, tn_checkpoint = None,
      tn_error_code = None, tn_started_at = now, tn_updated_at = now, tn_completed_at = None,
      tn_tool_profile = None\<rparr>"

definition insert_turn :: "Turn \<Rightarrow> QueueWorld \<Rightarrow> StorageError + QueueWorld" where
  "insert_turn turn w =
     (if find_row tn_id (tn_id turn) (qw_turns w) \<noteq> None then Err (SE_Database ''UNIQUE constraint failed: turns.id'')
      else Ok (w\<lparr>qw_turns := qw_turns w @ [turn]\<rparr>))"

definition insert_message :: "Message \<Rightarrow> QueueWorld \<Rightarrow> StorageError + QueueWorld" where
  "insert_message message w =
     (if find_row ms_id (ms_id message) (qw_messages w) \<noteq> None
      then Err (SE_Database ''UNIQUE constraint failed: messages.id'')
      else Ok (w\<lparr>qw_messages := qw_messages w @ [message]\<rparr>))"

section \<open>Prompts of an idle session\<close>

definition attach_one :: "Scope \<Rightarrow> Id \<Rightarrow> Id \<Rightarrow> QueueWorld \<Rightarrow> Id \<Rightarrow> StorageError + QueueWorld" where
  "attach_one scope session_id turn_id w attachment_id =
     (let draft = (\<lambda>a. ar_id a = attachment_id \<and> owned_by scope (ar_scope a) \<and> ar_session_id a = session_id \<and>
                       ar_turn_id a = None) in
      if \<not> list_ex draft (qw_attachments w)
      then Err (SE_InvalidState (''attachment '' @ attachment_id @ '' is unavailable''))
      else Ok (w\<lparr>qw_attachments := update_where draft (\<lambda>a. a\<lparr>ar_turn_id := Some turn_id\<rparr>) (qw_attachments w)\<rparr>))"

definition open_turn :: "Scope \<Rightarrow> Id \<Rightarrow> string \<Rightarrow> json \<Rightarrow> Id list \<Rightarrow> QueueInput \<Rightarrow> QueueWorld \<Rightarrow>
    StorageError + QueueWorld \<times> Turn \<times> Message" where
  "open_turn scope session_id role content attachment_ids i w =
     (let now = qi_now i; turn = new_turn (qi_id i) session_id scope now;
          message = \<lparr>ms_id = qi_message_id i, ms_session_id = session_id, ms_turn_id = qi_id i, ms_role = role,
                     ms_content = content, ms_created_at = now\<rparr>;
          active_session = (\<lambda>s. ss_id s = session_id \<and> owned_by scope (ss_scope s) \<and> ss_status s = Session_Active) in
      if \<not> list_ex active_session (qw_sessions w) \<or> active_turn session_id (qw_turns w) \<or>
         list_ex (\<lambda>r. ti_session_id r = session_id \<and> waiting_input r) (qw_inputs w)
      then Err (SE_InvalidState ''session is not active or already has active or queued input'')
      else
        and_then (insert_turn turn w) (\<lambda>w.
        and_then (insert_message message w) (\<lambda>w.
        and_then (try_fold (attach_one scope session_id (qi_id i)) w attachment_ids) (\<lambda>w.
        if \<not> list_ex active_session (qw_sessions w) then Err (SE_InvalidState ''session is not active'')
        else Ok (w\<lparr>qw_sessions := update_where active_session (\<lambda>s. s\<lparr>ss_updated_at := now\<rparr>) (qw_sessions w)\<rparr>,
                 turn, message)))))"

definition create_turn_with_message_and_attachments_if_idle :: "Scope \<Rightarrow> Id \<Rightarrow> string \<Rightarrow> json \<Rightarrow> Id list \<Rightarrow>
    (Turn \<times> Message) queue_prog" where
  "create_turn_with_message_and_attachments_if_idle scope session_id role content attachment_ids =
     (if role \<noteq> ''user'' \<and> role \<noteq> ''system''
      then Ret (Err (SE_InvalidData ''turn message role must be user or system''))
      else
      try_prog (queue_session session_id) (\<lambda>session.
      try_prog (Ret (ensure_actor_session_scope session scope)) (\<lambda>_.
      if ss_status session \<noteq> Session_Active then Ret (Err (SE_InvalidState ''session is not active''))
      else if 8 < length attachment_ids
      then Ret (Err (SE_InvalidData ''a turn can contain at most eight attachments''))
      else if \<not> distinct attachment_ids then Ret (Err (SE_InvalidData ''attachment IDs must be unique''))
      else queue_tx (open_turn scope session_id role content attachment_ids))))"

definition create_turn_with_user_message_and_attachments_if_idle :: "Scope \<Rightarrow> Id \<Rightarrow> json \<Rightarrow> Id list \<Rightarrow>
    (Turn \<times> Message) queue_prog" where
  "create_turn_with_user_message_and_attachments_if_idle scope session_id content attachment_ids =
     create_turn_with_message_and_attachments_if_idle scope session_id ''user'' content attachment_ids"

definition create_turn_with_user_message_if_idle :: "Scope \<Rightarrow> Id \<Rightarrow> json \<Rightarrow> (Turn \<times> Message) queue_prog" where
  "create_turn_with_user_message_if_idle scope session_id content =
     create_turn_with_user_message_and_attachments_if_idle scope session_id content []"

definition create_turn_with_system_message_if_idle :: "Scope \<Rightarrow> Id \<Rightarrow> json \<Rightarrow> (Turn \<times> Message) queue_prog" where
  "create_turn_with_system_message_if_idle scope session_id content =
     create_turn_with_message_and_attachments_if_idle scope session_id ''system'' content []"

section \<open>Turn inputs\<close>

definition valid_input_key :: "string \<Rightarrow> bool" where
  "valid_input_key key \<longleftrightarrow>
     key \<noteq> [] \<and> length key \<le> 128 \<and>
     list_all (\<lambda>c. is_ascii_alphanumeric c \<or> c = CHR 0x2D \<or> c = CHR 0x5F \<or> c = CHR 0x2E) key"

definition pending_input :: "Id \<Rightarrow> CreateTurnInput \<Rightarrow> QueueInput \<Rightarrow> TurnInput" where
  "pending_input session_id input i =
     \<lparr>ti_id = qi_id i, ti_session_id = session_id, ti_target_turn_id = ci_target_turn_id input,
      ti_resulting_turn_id = None, ti_scope = ci_scope input, ti_mode = ci_mode input, ti_content = ci_content input,
      ti_status = Input_Pending, ti_idempotency_key = ci_idempotency_key input, ti_created_at = qi_now i,
      ti_updated_at = qi_now i, ti_consumed_at = None, ti_cancelled_at = None, ti_revision = 1\<rparr>"

definition input_key :: "TurnInput \<Rightarrow> (Id \<times> Id) \<times> string" where
  "input_key r = ((sc_organization_id (ti_scope r), sc_team_id (ti_scope r)), ti_idempotency_key r)"

text \<open>The unique columns and the partial unique index \<open>turn_inputs_one_active_steer\<close>.\<close>

definition input_conflict :: "TurnInput \<Rightarrow> TurnInput \<Rightarrow> bool" where
  "input_conflict new r \<longleftrightarrow>
     ti_id r = ti_id new \<or> input_key r = input_key new \<or>
     (ti_mode new = Input_Steer \<and> ti_mode r = Input_Steer \<and> waiting_input new \<and> waiting_input r \<and>
      ti_target_turn_id r = ti_target_turn_id new)"

text \<open>\<open>INSERT OR IGNORE\<close>: the number of inserted rows, with the row.\<close>

definition insert_input :: "Id \<Rightarrow> CreateTurnInput \<Rightarrow> QueueInput \<Rightarrow> QueueWorld \<Rightarrow> StorageError + QueueWorld \<times> bool \<times> TurnInput" where
  "insert_input session_id input i w =
     (let row = pending_input session_id input i in
      if list_ex (input_conflict row) (qw_inputs w) then Ok (w, False, row)
      else Ok (w\<lparr>qw_inputs := qw_inputs w @ [row]\<rparr>, True, row))"

definition same_prompt :: "TurnInput \<Rightarrow> TurnInput \<Rightarrow> bool" where
  "same_prompt existing new \<longleftrightarrow>
     sc_actor_id (ti_scope existing) = sc_actor_id (ti_scope new) \<and> ti_session_id existing = ti_session_id new \<and>
     ti_target_turn_id existing = ti_target_turn_id new \<and> ti_mode existing = ti_mode new \<and>
     ti_content existing = ti_content new"

definition existing_input :: "TurnInput \<Rightarrow> QueueWorld \<Rightarrow> StorageError + TurnInput" where
  "existing_input new w =
     (case find (\<lambda>r. input_key r = input_key new) (qw_inputs w) of
        None \<Rightarrow> Err (SE_InvalidState ''a steering input is already pending for this turn'')
      | Some row \<Rightarrow>
          and_then (row_to_turn_input row) (\<lambda>existing.
          if same_prompt existing new then Ok existing
          else Err (SE_InvalidState ''turn input idempotency key was reused'')))"

definition create_turn_input :: "Id \<Rightarrow> CreateTurnInput \<Rightarrow> TurnInput queue_prog" where
  "create_turn_input session_id input =
     try_prog (queue_session session_id) (\<lambda>session.
     try_prog (Ret (ensure_actor_session_scope session (ci_scope input))) (\<lambda>_.
     if ss_status session \<noteq> Session_Active then Ret (Err (SE_InvalidState ''session is not active''))
     else
     try_prog (queue_turn (ci_scope input) (ci_target_turn_id input)) (\<lambda>target.
     if tn_session_id target \<noteq> session_id
     then Ret (Err (SE_InvalidState ''target turn belongs to a different session''))
     else if is_terminal (tn_status target) then Ret (Err (SE_InvalidState ''target turn is already terminal''))
     else
     (case map_option trim (as_str (ci_content input)) of
        None \<Rightarrow> Ret (Err (SE_InvalidData ''turn input must be text''))
      | Some content \<Rightarrow>
          if content = [] then Ret (Err (SE_InvalidData ''turn input must be text''))
          else if 100000 < int (chars_count content) then Ret (Err (SE_InvalidData ''turn input is too large''))
          else if \<not> valid_input_key (ci_idempotency_key input)
          then Ret (Err (SE_InvalidData ''invalid turn input idempotency key''))
          else
          try_prog (queue_tx (insert_input session_id input)) (\<lambda>(inserted, row).
          if inserted then Ret (Ok row) else queue_query (existing_input row))))))"

definition older_input :: "TurnInput \<Rightarrow> TurnInput \<Rightarrow> bool" where
  "older_input a b \<longleftrightarrow> ti_created_at a < ti_created_at b \<or> (ti_created_at a = ti_created_at b \<and> str_less (ti_id a) (ti_id b))"

definition list_pending_turn_inputs :: "Scope \<Rightarrow> Id \<Rightarrow> TurnInput list queue_prog" where
  "list_pending_turn_inputs scope session_id =
     try_prog (queue_session session_id) (\<lambda>session.
     try_prog (Ret (ensure_actor_session_scope session scope)) (\<lambda>_.
     queue_query (\<lambda>w.
       let rows = sort_by older_input (filter (\<lambda>r. ti_session_id r = session_id \<and> waiting_input r) (qw_inputs w)) in
       if 1000 < length rows then Err (SE_InvalidData ''session has more than 1000 pending Turn inputs'')
       else try_map (\<lambda>row.
         and_then (row_to_turn_input row) (\<lambda>input.
         and_then (ensure_actor_scope (ti_scope input) scope) (\<lambda>_. Ok input))) rows)))"

definition get_turn_input :: "Scope \<Rightarrow> Id \<Rightarrow> TurnInput queue_prog" where
  "get_turn_input scope input_id = queue_query (\<lambda>w.
     and_then (ok_or (find_row ti_id input_id (qw_inputs w)) SE_NotFound) (\<lambda>row.
     and_then (row_to_turn_input row) (\<lambda>input.
     and_then (ensure_actor_scope (ti_scope input) scope) (\<lambda>_. Ok input))))"

definition cancelled_input :: "Timestamp \<Rightarrow> TurnInput \<Rightarrow> TurnInput" where
  "cancelled_input now r =
     r\<lparr>ti_status := Input_Cancelled, ti_updated_at := now, ti_cancelled_at := Some now, ti_revision := ti_revision r + 1\<rparr>"

definition cancel_turn_input :: "Scope \<Rightarrow> Id \<Rightarrow> TurnInput queue_prog" where
  "cancel_turn_input scope input_id =
     try_prog (get_turn_input scope input_id) (\<lambda>current.
     if ti_status current = Input_Cancelled then Ret (Ok current)
     else if ti_status current \<noteq> Input_Pending
     then Ret (Err (SE_InvalidState ''turn input can no longer be cancelled''))
     else
     try_prog (queue_tx (\<lambda>i w.
       let pending = (\<lambda>r. ti_id r = input_id \<and> ti_status r = Input_Pending) in
       if \<not> list_ex pending (qw_inputs w) then Err (SE_InvalidState ''turn input changed concurrently'')
       else Ok (w\<lparr>qw_inputs := update_where pending (cancelled_input (qi_now i)) (qw_inputs w)\<rparr>, ()))) (\<lambda>_.
     get_turn_input scope input_id))"

text \<open>An undo cancels what still waits behind its turn, unless a worker has taken one of them already.\<close>

definition cancel_queue :: "Id \<Rightarrow> QueueInput \<Rightarrow> QueueWorld \<Rightarrow> StorageError + QueueWorld \<times> TurnInput list" where
  "cancel_queue turn_id i w =
     (let pending = (\<lambda>r. ti_target_turn_id r = turn_id \<and> ti_status r = Input_Pending);
          inputs = update_where pending (cancelled_input (qi_now i)) (qw_inputs w) in
      if list_ex (\<lambda>r. ti_target_turn_id r = turn_id \<and> ti_status r = Input_Processing) inputs
      then Err (SE_InvalidState ''a queued Turn input is already being consumed'')
      else
        and_then (try_map row_to_turn_input (map (cancelled_input (qi_now i)) (filter pending (qw_inputs w)))) (\<lambda>cancelled.
        Ok (w\<lparr>qw_inputs := inputs\<rparr>, cancelled)))"

definition cancel_turn_inputs_for_undo :: "Scope \<Rightarrow> Id \<Rightarrow> TurnInput list queue_prog" where
  "cancel_turn_inputs_for_undo scope turn_id =
     try_prog (queue_turn scope turn_id) (\<lambda>turn.
     try_prog (queue_session (tn_session_id turn)) (\<lambda>session.
     try_prog (Ret (ensure_actor_session_scope session scope)) (\<lambda>_.
     try_prog (queue_tx (cancel_queue turn_id)) (\<lambda>cancelled.
     try_prog (Ret (try_map (\<lambda>input. ensure_actor_scope (ti_scope input) scope) cancelled)) (\<lambda>_.
     Ret (Ok cancelled))))))"

section \<open>Consumption\<close>

definition moved_input :: "TurnInputStatus \<Rightarrow> Timestamp \<Rightarrow> TurnInput \<Rightarrow> TurnInput" where
  "moved_input status now r = r\<lparr>ti_status := status, ti_updated_at := now, ti_revision := ti_revision r + 1\<rparr>"

text \<open>A claim that was not followed by a turn within a minute is given up.\<close>

definition give_up_stale :: "Timestamp \<Rightarrow> QueueInput \<Rightarrow> QueueWorld \<Rightarrow> StorageError + QueueWorld \<times> unit" where
  "give_up_stale stale_before i w =
     Ok (w\<lparr>qw_inputs := update_where
          (\<lambda>r. ti_status r = Input_Processing \<and> ti_resulting_turn_id r = None \<and> ti_updated_at r < stale_before)
          (moved_input Input_Pending (qi_now i)) (qw_inputs w)\<rparr>, ())"

text \<open>An input is ready when its session is active and idle and its target has ended; steering comes first,
  then the oldest.\<close>

definition ready_input :: "QueueWorld \<Rightarrow> TurnInput \<Rightarrow> bool" where
  "ready_input w r \<longleftrightarrow>
     ti_status r = Input_Pending \<and>
     (case find_row ss_id (ti_session_id r) (qw_sessions w) of None \<Rightarrow> False | Some s \<Rightarrow> ss_status s = Session_Active) \<and>
     (case find_row tn_id (ti_target_turn_id r) (qw_turns w) of None \<Rightarrow> False | Some t \<Rightarrow> is_terminal (tn_status t)) \<and>
     \<not> active_turn (ti_session_id r) (qw_turns w)"

definition served_before :: "TurnInput \<Rightarrow> TurnInput \<Rightarrow> bool" where
  "served_before a b \<longleftrightarrow>
     (ti_mode a = Input_Steer \<and> ti_mode b \<noteq> Input_Steer) \<or>
     ((ti_mode a = Input_Steer \<longleftrightarrow> ti_mode b = Input_Steer) \<and> older_input a b)"

definition next_input :: "TurnInput list \<Rightarrow> TurnInput option" where
  "next_input rows = best_row served_before rows"

definition claim_input :: "QueueInput \<Rightarrow> QueueWorld \<Rightarrow> StorageError + QueueWorld \<times> TurnInput option" where
  "claim_input i w =
     (case next_input (filter (ready_input w) (qw_inputs w)) of
        None \<Rightarrow> Ok (w, None)
      | Some r \<Rightarrow>
          Ok (w\<lparr>qw_inputs := update_where (\<lambda>x. ti_id x = ti_id r) (moved_input Input_Processing (qi_now i)) (qw_inputs w)\<rparr>,
              Some (moved_input Input_Processing (qi_now i) r)))"

definition claim_next_ready_turn_input :: "TurnInput option queue_prog" where
  "claim_next_ready_turn_input =
     try_prog (sql_ask qi_clock) (\<lambda>now.
     try_prog (queue_tx (give_up_stale (now - 60 * 10 ^ 9))) (\<lambda>_.
     try_prog (queue_tx claim_input) (\<lambda>row.
     case row of None \<Rightarrow> Ret (Ok None) | Some row \<Rightarrow> Ret (and_then (row_to_turn_input row) (\<lambda>input. Ok (Some input))))))"

definition requeue_turn_input :: "Id \<Rightarrow> unit queue_prog" where
  "requeue_turn_input input_id = queue_tx (\<lambda>i w.
     Ok (w\<lparr>qw_inputs := update_where
          (\<lambda>r. ti_id r = input_id \<and> ti_status r = Input_Processing \<and> ti_resulting_turn_id r = None)
          (moved_input Input_Pending (qi_now i)) (qw_inputs w)\<rparr>, ()))"

definition consumed_input :: "Id \<Rightarrow> Timestamp \<Rightarrow> TurnInput \<Rightarrow> TurnInput" where
  "consumed_input turn_id now r =
     r\<lparr>ti_status := Input_Consumed, ti_resulting_turn_id := Some turn_id, ti_updated_at := now,
       ti_consumed_at := Some now, ti_revision := ti_revision r + 1\<rparr>"

definition input_message :: "TurnInput \<Rightarrow> Id \<Rightarrow> QueueInput \<Rightarrow> Message" where
  "input_message input turn_id i =
     \<lparr>ms_id = qi_message_id i, ms_session_id = ti_session_id input, ms_turn_id = turn_id, ms_role = ''user'',
      ms_content = ti_content input, ms_created_at = qi_now i\<rparr>"

text \<open>The row changes under a condition; the session is touched.\<close>

definition settle_input :: "(TurnInput \<Rightarrow> bool) \<Rightarrow> Id \<Rightarrow> TurnInput \<Rightarrow> string \<Rightarrow> QueueInput \<Rightarrow> QueueWorld \<Rightarrow>
    StorageError + QueueWorld \<times> TurnInput" where
  "settle_input still turn_id input changed i w =
     (if \<not> list_ex still (qw_inputs w) then Err (SE_InvalidState changed)
      else Ok (w\<lparr>qw_inputs := update_where still (consumed_input turn_id (qi_now i)) (qw_inputs w),
                qw_sessions := update_where (\<lambda>s. ss_id s = ti_session_id input) (\<lambda>s. s\<lparr>ss_updated_at := qi_now i\<rparr>)
                  (qw_sessions w),
                qw_delivered := qw_delivered w @ [(ti_id input, qi_message_id i)]\<rparr>,
              consumed_input turn_id (qi_now i) input))"

definition consume_active :: "Id \<Rightarrow> Id \<Rightarrow> QueueInput \<Rightarrow> QueueWorld \<Rightarrow> StorageError + QueueWorld \<times> TurnInput \<times> Message" where
  "consume_active input_id turn_id i w =
     and_then (ok_or (find (\<lambda>r. ti_id r = input_id \<and> ti_status r = Input_Pending) (qw_inputs w))
         (SE_InvalidState ''turn input is not pending'')) (\<lambda>row.
     and_then (row_to_turn_input row) (\<lambda>input.
     if ti_target_turn_id input \<noteq> turn_id then Err (SE_InvalidState ''turn input targets a different active Turn'')
     else
     and_then (ok_or (find_row tn_id turn_id (qw_turns w)) SE_NotFound) (\<lambda>turn.
     and_then (ensure_actor_scope (tn_scope turn) (ti_scope input)) (\<lambda>_.
     if tn_session_id turn \<noteq> ti_session_id input \<or> is_terminal (tn_status turn)
     then Err (SE_InvalidState ''target Turn is no longer active'')
     else
     let message = input_message input turn_id i in
     and_then (insert_message message w) (\<lambda>w.
     and_then (settle_input (\<lambda>r. ti_id r = ti_id input \<and> ti_status r = Input_Pending \<and>
         list_ex (\<lambda>t. tn_id t = turn_id \<and> \<not> is_terminal (tn_status t)) (qw_turns w)) turn_id input
         ''turn input or active Turn changed concurrently'' i w) (\<lambda>(w, input).
     Ok (w, input, message)))))))"

definition consume_turn_input_into_active_turn :: "Id \<Rightarrow> Id \<Rightarrow> (TurnInput \<times> Message) queue_prog" where
  "consume_turn_input_into_active_turn input_id turn_id = queue_tx (consume_active input_id turn_id)"

definition consume_new :: "Id \<Rightarrow> QueueInput \<Rightarrow> QueueWorld \<Rightarrow> StorageError + QueueWorld \<times> TurnInput \<times> Turn \<times> Message" where
  "consume_new input_id i w =
     and_then (ok_or (find (\<lambda>r. ti_id r = input_id \<and> ti_status r = Input_Processing) (qw_inputs w))
         (SE_InvalidState ''turn input is not processing'')) (\<lambda>row.
     and_then (row_to_turn_input row) (\<lambda>input.
     and_then (ok_or (find_row ss_id (ti_session_id input) (qw_sessions w)) SE_NotFound) (\<lambda>session.
     and_then (ensure_actor_session_scope session (ti_scope input)) (\<lambda>_.
     if ss_status session \<noteq> Session_Active then Err (SE_InvalidState ''session is not active'')
     else if active_turn (ti_session_id input) (qw_turns w)
     then Err (SE_InvalidState ''session has another active turn'')
     else
     let turn = new_turn (qi_id i) (ti_session_id input) (ti_scope input) (qi_now i);
         message = input_message input (qi_id i) i in
     and_then (insert_turn turn w) (\<lambda>w.
     and_then (insert_message message w) (\<lambda>w.
     and_then (settle_input (\<lambda>r. ti_id r = ti_id input \<and> ti_status r = Input_Processing) (qi_id i) input
         ''turn input changed concurrently'' i w) (\<lambda>(w, input).
     Ok (w, input, turn, message))))))))"

definition consume_turn_input_into_turn :: "Id \<Rightarrow> (TurnInput \<times> Turn \<times> Message) queue_prog" where
  "consume_turn_input_into_turn input_id = queue_tx (consume_new input_id)"

end
