(* ===== verification/Turn_Questions.thy ===== *)
theory Turn_Questions
  imports Turn_Queue
begin

text \<open>
  Questions of a turn and the pauses of a turn, \<open>crates/storage/src/lib.rs\<close>: a question is asked, with or
  without a pause of its turn, answered once, reopened when the turn could not go on, or cancelled; a paused
  turn is claimed, confirmed and restored.  The end of a session cancels what is open in it.
\<close>

section \<open>Questions\<close>

definition invalid_question :: "Scope \<Rightarrow> QuestionRequest \<Rightarrow> Turn \<Rightarrow> bool" where
  "invalid_question scope request turn \<longleftrightarrow>
     tn_session_id turn \<noteq> qr_session_id request \<or> qr_requested_by request \<noteq> sc_actor_id scope \<or>
     qr_status request \<noteq> Question_Pending \<or> qr_revision request \<noteq> 1"

definition question_row :: "Scope \<Rightarrow> QuestionRequest \<Rightarrow> QuestionRow" where
  "question_row scope request =
     \<lparr>qq_id = qr_id request, qq_item_id = qr_item_id request, qq_scope = scope, qq_session_id = qr_session_id request,
      qq_turn_id = qr_turn_id request, qq_questions = qr_questions request, qq_allow_other = qr_allow_other request,
      qq_status = Question_Pending, qq_answers = None, qq_requested_at = qr_requested_at request,
      qq_expires_at = qr_expires_at request, qq_answered_at = None, qq_answered_by = None, qq_revision = 1\<rparr>"

definition insert_question :: "QuestionRow \<Rightarrow> QueueWorld \<Rightarrow> StorageError + QueueWorld" where
  "insert_question row w =
     (if find_row qq_id (qq_id row) (qw_questions w) \<noteq> None
      then Err (SE_Database ''UNIQUE constraint failed: question_requests.id'')
      else if find_row qq_item_id (qq_item_id row) (qw_questions w) \<noteq> None
      then Err (SE_Database ''UNIQUE constraint failed: question_requests.item_id'')
      else Ok (w\<lparr>qw_questions := qw_questions w @ [row]\<rparr>))"

definition get_question_request :: "Scope \<Rightarrow> Id \<Rightarrow> QuestionRequest queue_prog" where
  "get_question_request scope question_id = queue_query (\<lambda>w.
     and_then (ok_or (find_row qq_id question_id (qw_questions w)) SE_NotFound) (\<lambda>row.
     and_then (row_to_question_request row) (\<lambda>request.
     and_then (ensure_actor_scope (qq_scope row) scope) (\<lambda>_. Ok request))))"

definition create_question_request :: "Scope \<Rightarrow> QuestionRequest \<Rightarrow> QuestionRequest queue_prog" where
  "create_question_request scope request =
     try_prog (queue_session (qr_session_id request)) (\<lambda>session.
     try_prog (Ret (ensure_actor_session_scope session scope)) (\<lambda>_.
     try_prog (queue_turn scope (qr_turn_id request)) (\<lambda>turn.
     if invalid_question scope request turn then Ret (Err (SE_InvalidState ''invalid new question request''))
     else
     try_prog (queue_tx (\<lambda>i w. and_then (insert_question (question_row scope request) w) (\<lambda>w. Ok (w, ())))) (\<lambda>_.
     get_question_request scope (qr_id request)))))"

text \<open>The question is stored only together with the pause of the turn that asks it.\<close>

definition pause_turn :: "Scope \<Rightarrow> QuestionRequest \<Rightarrow> json \<Rightarrow> string \<Rightarrow> QueueInput \<Rightarrow> QueueWorld \<Rightarrow>
    StorageError + QueueWorld \<times> Turn \<times> QuestionRequest" where
  "pause_turn scope request checkpoint error_code i w =
     and_then (insert_question (question_row scope request) w) (\<lambda>w.
     let asking = (\<lambda>t. tn_id t = qr_turn_id request \<and> tn_session_id t = qr_session_id request \<and>
           owned_by scope (tn_scope t) \<and> tn_status t = CallingModel);
         paused = (\<lambda>t. t\<lparr>tn_status := AwaitingInput, tn_checkpoint := Some checkpoint, tn_error_code := Some error_code,
           tn_updated_at := qi_now i, tn_completed_at := None\<rparr>) in
     case find asking (qw_turns w) of
       None \<Rightarrow> Err (SE_InvalidState ''turn changed before its question could be persisted'')
     | Some t \<Rightarrow>
         and_then (ensure_actor_scope (tn_scope (paused t)) scope) (\<lambda>_.
         Ok (w\<lparr>qw_turns := update_where asking paused (qw_turns w)\<rparr>, paused t, request)))"

definition create_question_and_pause_turn :: "Scope \<Rightarrow> QuestionRequest \<Rightarrow> json \<Rightarrow> string \<Rightarrow> (Turn \<times> QuestionRequest) queue_prog" where
  "create_question_and_pause_turn scope request checkpoint error_code =
     try_prog (queue_session (qr_session_id request)) (\<lambda>session.
     try_prog (Ret (ensure_actor_session_scope session scope)) (\<lambda>_.
     try_prog (queue_turn scope (qr_turn_id request)) (\<lambda>turn.
     if invalid_question scope request turn then Ret (Err (SE_InvalidState ''invalid new question request''))
     else queue_tx (pause_turn scope request checkpoint error_code))))"

definition older_question :: "QuestionRow \<Rightarrow> QuestionRow \<Rightarrow> bool" where
  "older_question a b \<longleftrightarrow>
     qq_requested_at a < qq_requested_at b \<or> (qq_requested_at a = qq_requested_at b \<and> str_less (qq_id a) (qq_id b))"

definition list_pending_session_question_requests :: "Scope \<Rightarrow> Id \<Rightarrow> QuestionRequest list queue_prog" where
  "list_pending_session_question_requests scope session_id =
     try_prog (queue_session session_id) (\<lambda>session.
     try_prog (Ret (ensure_actor_session_scope session scope)) (\<lambda>_.
     queue_query (\<lambda>w.
       let rows = sort_by older_question
             (filter (\<lambda>q. qq_session_id q = session_id \<and> qq_status q = Question_Pending) (qw_questions w)) in
       if 1000 < length rows then Err (SE_InvalidData ''session has more than 1000 pending questions'')
       else try_map (\<lambda>row. and_then (ensure_actor_scope (qq_scope row) scope) (\<lambda>_. row_to_question_request row)) rows)))"

definition resumable :: "string \<Rightarrow> QueueWorld \<Rightarrow> QuestionRow \<Rightarrow> bool" where
  "resumable error_code w q \<longleftrightarrow>
     qq_status q \<in> {Question_Pending, Question_Answered} \<and>
     list_ex (\<lambda>t. tn_id t = qq_turn_id q \<and> tn_error_code t = Some error_code \<and>
       tn_status t \<in> {AwaitingInput, PreparingContext}) (qw_turns w)"

definition list_questions_for_resumable_turns :: "string \<Rightarrow> (Scope \<times> QuestionRequest) list queue_prog" where
  "list_questions_for_resumable_turns error_code = queue_query (\<lambda>w.
     let rows = sort_by older_question (filter (resumable error_code w) (qw_questions w)) in
     if 1000 < length rows then Err (SE_InvalidData ''more than 1000 resume questions require reconciliation'')
     else try_map (\<lambda>row. and_then (row_to_question_request row) (\<lambda>request. Ok (qq_scope row, request))) rows)"

definition answered_question :: "QuestionAnswer list \<Rightarrow> Id \<Rightarrow> Timestamp \<Rightarrow> QuestionRow \<Rightarrow> QuestionRow" where
  "answered_question answers answered_by now q =
     q\<lparr>qq_status := Question_Answered, qq_answers := Some answers, qq_answered_at := Some now,
       qq_answered_by := Some answered_by, qq_revision := qq_revision q + 1\<rparr>"

definition resolve_question_request_as :: "Scope \<Rightarrow> Id \<Rightarrow> QuestionAnswer list \<Rightarrow> Id \<Rightarrow> QuestionRequest queue_prog" where
  "resolve_question_request_as scope question_id answers answered_by =
     try_prog (get_question_request scope question_id) (\<lambda>current.
     if qr_status current \<noteq> Question_Pending then Ret (Err (SE_InvalidState ''question is no longer pending''))
     else
     try_prog (queue_tx (\<lambda>i w.
       let pending = (\<lambda>q. qq_id q = question_id \<and> qq_status q = Question_Pending \<and> qq_revision q = qr_revision current) in
       if \<not> list_ex pending (qw_questions w) then Err (SE_InvalidState ''question was answered concurrently'')
       else Ok (w\<lparr>qw_questions := update_where pending (answered_question answers answered_by (qi_now i)) (qw_questions w)\<rparr>,
                ()))) (\<lambda>_.
     get_question_request scope question_id))"

definition resolve_question_request :: "Scope \<Rightarrow> Id \<Rightarrow> QuestionAnswer list \<Rightarrow> QuestionRequest queue_prog" where
  "resolve_question_request scope question_id answers =
     resolve_question_request_as scope question_id answers (sc_actor_id scope)"

definition resolve_question_request_automatically :: "Scope \<Rightarrow> Id \<Rightarrow> QuestionAnswer list \<Rightarrow> QuestionRequest queue_prog" where
  "resolve_question_request_automatically scope question_id answers =
     resolve_question_request_as scope question_id answers ''system:auto-resolution''"

definition large_revision :: "u64 \<Rightarrow> bool" where
  "large_revision v \<longleftrightarrow> 2 ^ 63 \<le> uint v"

text \<open>A statement that may change no row gives \<open>None\<close>.\<close>

definition if_changed :: "bool \<Rightarrow> 'a queue_prog \<Rightarrow> 'a option queue_prog" where
  "if_changed changed p = (if changed then try_prog p (\<lambda>x. Ret (Ok (Some x))) else Ret (Ok None))"

definition reopened_question :: "QuestionRow \<Rightarrow> QuestionRow" where
  "reopened_question q =
     q\<lparr>qq_status := Question_Pending, qq_answers := None, qq_answered_at := None, qq_answered_by := None,
       qq_revision := qq_revision q + 1\<rparr>"

definition reopen_answered_question_request :: "Scope \<Rightarrow> Id \<Rightarrow> u64 \<Rightarrow> string option \<Rightarrow> QuestionRequest option queue_prog" where
  "reopen_answered_question_request scope question_id expected_revision turn_error_code =
     try_prog (get_question_request scope question_id) (\<lambda>_.
     if large_revision expected_revision
     then Ret (Err (SE_InvalidData ''question revision exceeds SQLite range''))
     else
     try_prog (queue_tx (\<lambda>i w.
       let answered = (\<lambda>q. qq_id q = question_id \<and> owned_by scope (qq_scope q) \<and> qq_status q = Question_Answered \<and>
             qq_revision q = uint expected_revision \<and>
             list_ex (\<lambda>t. tn_id t = qq_turn_id q \<and> tn_status t = AwaitingInput \<and> tn_error_code t = turn_error_code) (qw_turns w)) in
       Ok (w\<lparr>qw_questions := update_where answered reopened_question (qw_questions w)\<rparr>,
           list_ex answered (qw_questions w)))) (\<lambda>changed.
     if_changed changed (get_question_request scope question_id)))"

section \<open>Pauses\<close>

definition fail_active :: "Scope \<Rightarrow> Id \<Rightarrow> json option \<Rightarrow> string \<Rightarrow> QueueInput \<Rightarrow> QueueWorld \<Rightarrow>
    StorageError + QueueWorld \<times> Turn option" where
  "fail_active scope turn_id checkpoint error_code i w =
     (let running = (\<lambda>t. tn_id t = turn_id \<and> owned_by scope (tn_scope t) \<and>
            tn_status t \<in> {Idle, PreparingContext, CallingModel, RunningTool});
          failed = (\<lambda>t. t\<lparr>tn_status := Failed, tn_checkpoint := checkpoint, tn_error_code := Some error_code,
            tn_updated_at := qi_now i, tn_completed_at := Some (qi_now i)\<rparr>) in
      case find running (qw_turns w) of
        None \<Rightarrow> Ok (w, None)
      | Some t \<Rightarrow>
          and_then (ensure_actor_scope (tn_scope (failed t)) scope) (\<lambda>_.
          Ok (w\<lparr>qw_turns := update_where running failed (qw_turns w)\<rparr>, Some (failed t))))"

definition fail_turn_if_active :: "Scope \<Rightarrow> Id \<Rightarrow> json option \<Rightarrow> string \<Rightarrow> Turn option queue_prog" where
  "fail_turn_if_active scope turn_id checkpoint error_code =
     try_prog (queue_turn scope turn_id) (\<lambda>_. queue_tx (fail_active scope turn_id checkpoint error_code))"

text \<open>The question that was answered at a revision.\<close>

definition answered_at :: "Id \<Rightarrow> u64 \<Rightarrow> Id \<Rightarrow> QueueWorld \<Rightarrow> bool" where
  "answered_at question_id revision turn_id w \<longleftrightarrow>
     list_ex (\<lambda>q. qq_id q = question_id \<and> qq_turn_id q = turn_id \<and> qq_status q = Question_Answered \<and>
       qq_revision q = uint revision) (qw_questions w)"

definition move_turn :: "(QueueWorld \<Rightarrow> Turn \<Rightarrow> bool) \<Rightarrow> (Timestamp \<Rightarrow> Turn \<Rightarrow> Turn) \<Rightarrow> QueueInput \<Rightarrow> QueueWorld \<Rightarrow>
    StorageError + QueueWorld \<times> bool" where
  "move_turn still f i w =
     Ok (w\<lparr>qw_turns := update_where (still w) (f (qi_now i)) (qw_turns w)\<rparr>, list_ex (still w) (qw_turns w))"

definition claim_awaiting_turn_resume :: "Scope \<Rightarrow> Id \<Rightarrow> string \<Rightarrow> Id \<Rightarrow> u64 \<Rightarrow> Turn option queue_prog" where
  "claim_awaiting_turn_resume scope turn_id error_code question_id question_revision =
     try_prog (queue_turn scope turn_id) (\<lambda>_.
     if large_revision question_revision then Ret (Err (SE_InvalidData ''question revision exceeds SQLite range''))
     else
     try_prog (queue_tx (move_turn
       (\<lambda>w t. tn_id t = turn_id \<and> owned_by scope (tn_scope t) \<and> tn_status t = AwaitingInput \<and>
          tn_error_code t = Some error_code \<and> answered_at question_id question_revision turn_id w)
       (\<lambda>now t. t\<lparr>tn_status := PreparingContext, tn_updated_at := now\<rparr>))) (\<lambda>changed.
     if_changed changed (queue_turn scope turn_id)))"

definition restore_preparing_turn_resume :: "Scope \<Rightarrow> Id \<Rightarrow> string \<Rightarrow> Turn option queue_prog" where
  "restore_preparing_turn_resume scope turn_id error_code =
     try_prog (queue_turn scope turn_id) (\<lambda>_.
     try_prog (queue_tx (move_turn
       (\<lambda>w t. tn_id t = turn_id \<and> owned_by scope (tn_scope t) \<and> tn_status t = PreparingContext \<and>
          tn_error_code t = Some error_code)
       (\<lambda>now t. t\<lparr>tn_status := AwaitingInput, tn_updated_at := now\<rparr>))) (\<lambda>changed.
     if_changed changed (queue_turn scope turn_id)))"

definition confirm_preparing_turn_resume :: "Scope \<Rightarrow> Id \<Rightarrow> string \<Rightarrow> Id \<Rightarrow> u64 \<Rightarrow> Turn option queue_prog" where
  "confirm_preparing_turn_resume scope turn_id error_code question_id question_revision =
     try_prog (queue_turn scope turn_id) (\<lambda>_.
     if large_revision question_revision then Ret (Err (SE_InvalidData ''question revision exceeds SQLite range''))
     else
     try_prog (queue_tx (move_turn
       (\<lambda>w t. tn_id t = turn_id \<and> owned_by scope (tn_scope t) \<and> tn_status t = PreparingContext \<and>
          tn_error_code t = Some error_code \<and> answered_at question_id question_revision turn_id w)
       (\<lambda>now t. t\<lparr>tn_updated_at := now\<rparr>))) (\<lambda>changed.
     if_changed changed (queue_turn scope turn_id)))"

definition cancelled_question :: "QuestionRow \<Rightarrow> QuestionRow" where
  "cancelled_question q = q\<lparr>qq_status := Question_Cancelled, qq_revision := qq_revision q + 1\<rparr>"

definition cancel_paused :: "Scope \<Rightarrow> Id \<Rightarrow> string \<Rightarrow> QueueInput \<Rightarrow> QueueWorld \<Rightarrow>
    StorageError + QueueWorld \<times> (Turn \<times> QuestionRequest list) option" where
  "cancel_paused scope turn_id error_code i w =
     (let paused = (\<lambda>t. tn_id t = turn_id \<and> owned_by scope (tn_scope t) \<and> tn_status t \<in> {AwaitingInput, PreparingContext} \<and>
            tn_error_code t = Some error_code);
          ended = (\<lambda>t. t\<lparr>tn_status := Cancelled, tn_error_code := None, tn_updated_at := qi_now i,
            tn_completed_at := Some (qi_now i)\<rparr>);
          pending = (\<lambda>q. qq_turn_id q = turn_id \<and> owned_by scope (qq_scope q) \<and> qq_status q = Question_Pending) in
      case find paused (qw_turns w) of
        None \<Rightarrow> Ok (w, None)
      | Some t \<Rightarrow>
          and_then (ensure_actor_scope (tn_scope (ended t)) scope) (\<lambda>_.
          and_then (try_map row_to_question_request (map cancelled_question (filter pending (qw_questions w)))) (\<lambda>cancelled.
          Ok (w\<lparr>qw_turns := update_where paused ended (qw_turns w),
                qw_questions := update_where pending cancelled_question (qw_questions w)\<rparr>, Some (ended t, cancelled)))))"

definition cancel_paused_turn_and_pending_questions :: "Scope \<Rightarrow> Id \<Rightarrow> string \<Rightarrow>
    (Turn \<times> QuestionRequest list) option queue_prog" where
  "cancel_paused_turn_and_pending_questions scope turn_id error_code =
     try_prog (queue_turn scope turn_id) (\<lambda>_. queue_tx (cancel_paused scope turn_id error_code))"

section \<open>The end of a session\<close>

definition stored_session :: "Id \<Rightarrow> Session queue_prog" where
  "stored_session session_id = queue_query (\<lambda>w. ok_or (find_row ss_id session_id (qw_sessions w)) SE_NotFound)"

definition end_session :: "Scope \<Rightarrow> Id \<Rightarrow> SessionStatus \<Rightarrow> Timestamp \<Rightarrow> QueueInput \<Rightarrow> QueueWorld \<Rightarrow>
    StorageError + QueueWorld \<times> unit" where
  "end_session scope session_id status now i w =
     (let closable = (\<lambda>s. ss_id s = session_id \<and> owned_by scope (ss_scope s) \<and> ss_status s \<noteq> Session_Deleted) in
      if \<not> list_ex closable (qw_sessions w) then Err (SE_InvalidState ''session changed concurrently'')
      else Ok (w\<lparr>qw_turns := update_where (\<lambda>t. tn_session_id t = session_id \<and> \<not> is_terminal (tn_status t))
             (\<lambda>t. t\<lparr>tn_status := Cancelled, tn_error_code := Some ''session_closed'', tn_updated_at := now,
                   tn_completed_at := Some now\<rparr>) (qw_turns w),
           qw_questions := update_where (\<lambda>q. qq_session_id q = session_id \<and> qq_status q = Question_Pending)
             cancelled_question (qw_questions w),
           qw_inputs := update_where (\<lambda>r. ti_session_id r = session_id \<and> waiting_input r) (cancelled_input now) (qw_inputs w),
           qw_sessions := update_where closable (\<lambda>s. s\<lparr>ss_status := status, ss_updated_at := now\<rparr>) (qw_sessions w)\<rparr>, ()))"

definition close_session :: "Scope \<Rightarrow> Id \<Rightarrow> SessionStatus \<Rightarrow> Session queue_prog" where
  "close_session scope session_id status =
     (if status = Session_Active then Ret (Err (SE_InvalidState ''session may only be archived or deleted''))
      else
      try_prog (stored_session session_id) (\<lambda>current.
      try_prog (Ret (ensure_actor_session_scope current scope)) (\<lambda>_.
      if ss_status current = Session_Deleted then Ret (Ok current)
      else if ss_status current = Session_Archived \<and> status = Session_Archived then Ret (Ok current)
      else
      try_prog (sql_ask qi_now) (\<lambda>now.
      try_prog (queue_tx (end_session scope session_id status now)) (\<lambda>_.
      stored_session session_id)))))"

definition restore_session :: "Scope \<Rightarrow> Id \<Rightarrow> Session queue_prog" where
  "restore_session scope session_id =
     try_prog (stored_session session_id) (\<lambda>current.
     try_prog (Ret (ensure_actor_session_scope current scope)) (\<lambda>_.
     case ss_status current of
       Session_Active \<Rightarrow> Ret (Ok current)
     | Session_Deleted \<Rightarrow> Ret (Err SE_NotFound)
     | Session_Archived \<Rightarrow>
         try_prog (queue_tx (\<lambda>i w.
           let archived = (\<lambda>s. ss_id s = session_id \<and> owned_by scope (ss_scope s) \<and> ss_status s = Session_Archived) in
           if \<not> list_ex archived (qw_sessions w) then Err (SE_InvalidState ''session changed concurrently'')
           else Ok (w\<lparr>qw_sessions := update_where archived (\<lambda>s. s\<lparr>ss_status := Session_Active, ss_updated_at := qi_now i\<rparr>)
                  (qw_sessions w)\<rparr>, ()))) (\<lambda>_.
         queue_session session_id)))"

end
