(* ===== verification/Turn_Messages.thy ===== *)
theory Turn_Messages
  imports Turn_Queue
begin

text \<open>
  The messages of a session, \<open>crates/storage/src/lib.rs\<close>.  A message is appended and stays as it is; only a
  reasoning summary grows while it is streamed.  A compaction or an undo of the conversation is a message
  too: it is appended only when the conversation it was made from is still the whole conversation.
\<close>

section \<open>Appending\<close>

definition touched_session :: "Id \<Rightarrow> Timestamp \<Rightarrow> QueueWorld \<Rightarrow> QueueWorld" where
  "touched_session session_id now w =
     w\<lparr>qw_sessions := update_where (\<lambda>s. ss_id s = session_id) (\<lambda>s. s\<lparr>ss_updated_at := now\<rparr>) (qw_sessions w)\<rparr>"

definition append_turn_message_with_id :: "Scope \<Rightarrow> Id \<Rightarrow> Id \<Rightarrow> Id \<Rightarrow> string \<Rightarrow> json \<Rightarrow> Message queue_prog" where
  "append_turn_message_with_id scope session_id turn_id message_id role content =
     try_prog (queue_session session_id) (\<lambda>session.
     if sc_organization_id (ss_scope session) \<noteq> sc_organization_id scope \<or> sc_team_id (ss_scope session) \<noteq> sc_team_id scope
     then Ret (Err SE_ScopeMismatch)
     else if ss_status session \<noteq> Session_Active then Ret (Err (SE_InvalidState ''session is not active''))
     else
     try_prog (sql_ask qi_now) (\<lambda>now.
     let message = \<lparr>ms_id = message_id, ms_session_id = session_id, ms_turn_id = turn_id, ms_role = role,
                    ms_content = content, ms_created_at = now\<rparr> in
     try_prog (queue_tx (\<lambda>i w. and_then (insert_message message w) (\<lambda>w. Ok (w, ())))) (\<lambda>_.
     try_prog (queue_tx (\<lambda>i w. Ok (touched_session session_id now w, ()))) (\<lambda>_.
     Ret (Ok message)))))"

definition append_turn_message :: "Scope \<Rightarrow> Id \<Rightarrow> Id \<Rightarrow> string \<Rightarrow> json \<Rightarrow> Message queue_prog" where
  "append_turn_message scope session_id turn_id role content =
     try_prog (sql_ask qi_message_id) (\<lambda>message_id.
     append_turn_message_with_id scope session_id turn_id message_id role content)"

definition append_message :: "Scope \<Rightarrow> Id \<Rightarrow> string \<Rightarrow> json \<Rightarrow> Message queue_prog" where
  "append_message scope session_id role content =
     try_prog (sql_ask qi_id) (\<lambda>turn_id. append_turn_message scope session_id turn_id role content)"

section \<open>Compaction and undo\<close>

definition newer_message :: "Message \<Rightarrow> Message \<Rightarrow> bool" where
  "newer_message a b \<longleftrightarrow>
     ms_created_at b < ms_created_at a \<or> (ms_created_at a = ms_created_at b \<and> str_less (ms_id b) (ms_id a))"

definition latest_message :: "Message list \<Rightarrow> Id option" where
  "latest_message messages = map_option ms_id (best_row newer_message messages)"

text \<open>The conversation must be the one that was read: as many messages, and the same last one.\<close>

definition append_state :: "Id \<Rightarrow> u64 \<Rightarrow> Id option \<Rightarrow> (Id \<Rightarrow> Message) \<Rightarrow> QueueInput \<Rightarrow> QueueWorld \<Rightarrow>
    StorageError + QueueWorld \<times> Message" where
  "append_state session_id expected_count expected_latest message i w =
     (let messages = filter (\<lambda>m. ms_session_id m = session_id) (qw_messages w) in
      if int (length messages) \<noteq> uint expected_count \<or> latest_message messages \<noteq> expected_latest
      then Err (SE_InvalidState ''conversation changed while compaction was being prepared'')
      else
        and_then (insert_message (message (qi_message_id i)) w) (\<lambda>w.
        Ok (touched_session session_id (ms_created_at (message (qi_message_id i))) w, message (qi_message_id i))))"

definition append_context_state :: "Scope \<Rightarrow> Id \<Rightarrow> Id \<Rightarrow> u64 \<Rightarrow> Id option \<Rightarrow> string \<Rightarrow> json \<Rightarrow> Message queue_prog" where
  "append_context_state scope session_id turn_id expected_count expected_latest role content =
     try_prog (queue_session session_id) (\<lambda>session.
     try_prog (Ret (ensure_actor_session_scope session scope)) (\<lambda>_.
     if ss_status session \<noteq> Session_Active then Ret (Err (SE_InvalidState ''session is not active''))
     else
     try_prog (queue_turn scope turn_id) (\<lambda>turn.
     if tn_session_id turn \<noteq> session_id \<or> \<not> is_terminal (tn_status turn)
     then Ret (Err (SE_InvalidState ''context compaction requires a terminal Turn in the same Session''))
     else
     try_prog (sql_ask qi_now) (\<lambda>now.
     queue_tx (append_state session_id expected_count expected_latest
       (\<lambda>message_id. \<lparr>ms_id = message_id, ms_session_id = session_id, ms_turn_id = turn_id, ms_role = role,
          ms_content = content, ms_created_at = now\<rparr>))))))"

definition append_context_compaction :: "Scope \<Rightarrow> Id \<Rightarrow> Id \<Rightarrow> u64 \<Rightarrow> Id option \<Rightarrow> json \<Rightarrow> Message queue_prog" where
  "append_context_compaction scope session_id turn_id expected_count expected_latest content =
     append_context_state scope session_id turn_id expected_count expected_latest ''context_compaction_state'' content"

definition append_conversation_undo :: "Scope \<Rightarrow> Id \<Rightarrow> Id \<Rightarrow> u64 \<Rightarrow> Id option \<Rightarrow> json \<Rightarrow> Message queue_prog" where
  "append_conversation_undo scope session_id turn_id expected_count expected_latest content =
     append_context_state scope session_id turn_id expected_count expected_latest ''conversation_undo_state'' content"

section \<open>Reasoning summaries\<close>

definition MAX_DELTA_BYTES :: nat where
  "MAX_DELTA_BYTES = 8 * 1024"

definition MAX_SUMMARY_BYTES :: nat where
  "MAX_SUMMARY_BYTES = 64 * 1024"

definition invalid_delta :: "string \<Rightarrow> bool" where
  "invalid_delta delta \<longleftrightarrow>
     delta = [] \<or> MAX_DELTA_BYTES < length delta \<or>
     has_control (filter (\<lambda>c. c \<noteq> CHR 0x0A \<and> c \<noteq> CHR 0x0D \<and> c \<noteq> CHR 0x09) delta)"

definition streaming_summary :: "Id \<Rightarrow> Id \<Rightarrow> Id \<Rightarrow> Message \<Rightarrow> bool" where
  "streaming_summary session_id turn_id item_id m \<longleftrightarrow>
     ms_id m = item_id \<and> ms_session_id m = session_id \<and> ms_turn_id m = turn_id \<and>
     ms_role m = ''reasoning_summary_streaming''"

definition append_reasoning_summary_delta :: "Scope \<Rightarrow> Id \<Rightarrow> Id \<Rightarrow> Id \<Rightarrow> string \<Rightarrow> Message option queue_prog" where
  "append_reasoning_summary_delta scope session_id turn_id item_id delta =
     (if invalid_delta delta
      then Ret (Err (SE_InvalidData ''reasoning summary delta must be non-empty, bounded text''))
      else
      try_prog (queue_session session_id) (\<lambda>session.
      try_prog (Ret (ensure_actor_session_scope session scope)) (\<lambda>_.
      if ss_status session \<noteq> Session_Active then Ret (Err (SE_InvalidState ''session is not active''))
      else
      try_prog (queue_query (\<lambda>w. Ok (find_row ms_id item_id (qw_messages w)))) (\<lambda>existing.
      case existing of
        None \<Rightarrow>
          try_prog (append_turn_message_with_id scope session_id turn_id item_id ''reasoning_summary_streaming'' (JStr delta))
            (\<lambda>message. Ret (Ok (Some message)))
      | Some message \<Rightarrow>
          if \<not> streaming_summary session_id turn_id item_id message
          then Ret (Err (SE_InvalidData ''reasoning summary identity collides with another message''))
          else
          (case as_str (ms_content message) of
             None \<Rightarrow> Ret (Err (SE_InvalidData ''reasoning summary content is not text''))
           | Some text \<Rightarrow>
               if MAX_SUMMARY_BYTES < length text + length delta then Ret (Ok None)
               else
               let message = message\<lparr>ms_content := JStr (text @ delta)\<rparr> in
               try_prog (queue_tx (\<lambda>i w.
                 if \<not> list_ex (streaming_summary session_id turn_id item_id) (qw_messages w)
                 then Err (SE_InvalidData ''reasoning summary changed concurrently'')
                 else Ok (w\<lparr>qw_messages := update_where (streaming_summary session_id turn_id item_id)
                        (\<lambda>m. m\<lparr>ms_content := ms_content message\<rparr>) (qw_messages w)\<rparr>, ()))) (\<lambda>_.
               Ret (Ok (Some message))))))))"

definition complete_reasoning_summary :: "Scope \<Rightarrow> Id \<Rightarrow> Id \<Rightarrow> Id \<Rightarrow> bool queue_prog" where
  "complete_reasoning_summary scope session_id turn_id item_id =
     try_prog (queue_session session_id) (\<lambda>session.
     try_prog (Ret (ensure_actor_session_scope session scope)) (\<lambda>_.
     queue_tx (\<lambda>i w.
       Ok (w\<lparr>qw_messages := update_where (streaming_summary session_id turn_id item_id)
              (\<lambda>m. m\<lparr>ms_role := ''reasoning_summary''\<rparr>) (qw_messages w)\<rparr>,
           list_ex (streaming_summary session_id turn_id item_id) (qw_messages w)))))"

definition earlier_message :: "Message \<Rightarrow> Message \<Rightarrow> bool" where
  "earlier_message a b \<longleftrightarrow> newer_message b a"

definition list_messages :: "Scope \<Rightarrow> Id \<Rightarrow> Message list queue_prog" where
  "list_messages scope session_id =
     try_prog (queue_session session_id) (\<lambda>session.
     try_prog (Ret (ensure_actor_session_scope session scope)) (\<lambda>_.
     queue_query (\<lambda>w. Ok (sort_by earlier_message (filter (\<lambda>m. ms_session_id m = session_id) (qw_messages w))))))"

end
