(* ===== verification/Queue_Books.thy ===== *)
theory Queue_Books
  imports Turn_Questions Turn_Messages
begin

text \<open>
  The books of the prompt queue: a consumed input has become exactly one message, rows change only with
  their revision, messages stay.  Every operation keeps this, whatever runs in between.
\<close>

section \<open>Rows\<close>

definition turn_keys :: "QueueWorld \<Rightarrow> (Id \<times> Id) set" where
  "turn_keys w = (\<lambda>t. (tn_id t, tn_session_id t)) ` set (qw_turns w)"

text \<open>What a consumed input has become, and that no other input has become anything.\<close>

definition delivery_of :: "QueueWorld \<Rightarrow> TurnInput \<Rightarrow> Message \<Rightarrow> bool" where
  "delivery_of w r m \<longleftrightarrow>
     m \<in> set (qw_messages w) \<and> (ti_id r, ms_id m) \<in> set (qw_delivered w) \<and> ms_session_id m = ti_session_id r \<and>
     ti_resulting_turn_id r = Some (ms_turn_id m) \<and> ms_role m = ''user'' \<and> ms_content m = ti_content r \<and>
     (ms_turn_id m, ti_session_id r) \<in> turn_keys w"

definition delivered_ok :: "QueueWorld \<Rightarrow> TurnInput \<Rightarrow> bool" where
  "delivered_ok w r \<longleftrightarrow>
     (if ti_status r = Input_Consumed then \<exists>m. delivery_of w r m
      else ti_resulting_turn_id r = None \<and> ti_id r \<notin> fst ` set (qw_delivered w))"

definition input_ok :: "TurnInput \<Rightarrow> bool" where
  "input_ok r \<longleftrightarrow>
     0 < ti_revision r \<and> (ti_consumed_at r \<noteq> None \<longleftrightarrow> ti_status r = Input_Consumed) \<and>
     (ti_cancelled_at r \<noteq> None \<longleftrightarrow> ti_status r = Input_Cancelled)"

definition question_ok :: "QuestionRow \<Rightarrow> bool" where
  "question_ok q \<longleftrightarrow>
     0 < qq_revision q \<and> qq_status q \<noteq> Question_Expired \<and> (qq_answers q \<noteq> None \<longleftrightarrow> qq_status q = Question_Answered) \<and>
     (qq_answered_at q \<noteq> None \<longleftrightarrow> qq_status q = Question_Answered) \<and>
     (qq_answered_by q \<noteq> None \<longleftrightarrow> qq_status q = Question_Answered)"

definition waiting_steer :: "TurnInput \<Rightarrow> bool" where
  "waiting_steer r \<longleftrightarrow> ti_mode r = Input_Steer \<and> waiting_input r"

definition keys_unique :: "QueueWorld \<Rightarrow> bool" where
  "keys_unique w \<longleftrightarrow>
     distinct (map ti_id (qw_inputs w)) \<and> distinct (map input_key (qw_inputs w)) \<and>
     inj_on ti_target_turn_id {r \<in> set (qw_inputs w). waiting_steer r} \<and>
     distinct (map ms_id (qw_messages w)) \<and>
     distinct (map qq_id (qw_questions w)) \<and> distinct (map qq_item_id (qw_questions w)) \<and>
     distinct (map fst (qw_delivered w)) \<and> distinct (map snd (qw_delivered w)) \<and>
     fst ` set (qw_delivered w) \<subseteq> ti_id ` set (qw_inputs w) \<and> snd ` set (qw_delivered w) \<subseteq> ms_id ` set (qw_messages w)"

definition queue_inv :: "QueueWorld \<Rightarrow> bool" where
  "queue_inv w \<longleftrightarrow>
     keys_unique w \<and> (\<forall>r \<in> set (qw_inputs w). input_ok r \<and> delivered_ok w r) \<and> (\<forall>q \<in> set (qw_questions w). question_ok q)"

section \<open>Progress\<close>

definition same_input :: "TurnInput \<Rightarrow> TurnInput \<Rightarrow> bool" where
  "same_input r r' \<longleftrightarrow>
     ti_id r' = ti_id r \<and> ti_session_id r' = ti_session_id r \<and> ti_target_turn_id r' = ti_target_turn_id r \<and>
     ti_scope r' = ti_scope r \<and> ti_mode r' = ti_mode r \<and> ti_content r' = ti_content r \<and>
     ti_idempotency_key r' = ti_idempotency_key r \<and> ti_created_at r' = ti_created_at r"

definition input_moved :: "TurnInput \<Rightarrow> TurnInput \<Rightarrow> bool" where
  "input_moved r r' \<longleftrightarrow> r' = r \<or> (same_input r r' \<and> waiting_input r \<and> ti_revision r < ti_revision r')"

definition same_question :: "QuestionRow \<Rightarrow> QuestionRow \<Rightarrow> bool" where
  "same_question q q' \<longleftrightarrow>
     qq_id q' = qq_id q \<and> qq_item_id q' = qq_item_id q \<and> qq_scope q' = qq_scope q \<and> qq_session_id q' = qq_session_id q \<and>
     qq_turn_id q' = qq_turn_id q \<and> qq_questions q' = qq_questions q \<and> qq_allow_other q' = qq_allow_other q \<and>
     qq_requested_at q' = qq_requested_at q \<and> qq_expires_at q' = qq_expires_at q"

definition question_moved :: "QuestionRow \<Rightarrow> QuestionRow \<Rightarrow> bool" where
  "question_moved q q' \<longleftrightarrow>
     q' = q \<or> (same_question q q' \<and> qq_status q \<in> {Question_Pending, Question_Answered} \<and> qq_revision q < qq_revision q')"

text \<open>Only a summary that is streamed changes.\<close>

definition message_moved :: "Message \<Rightarrow> Message \<Rightarrow> bool" where
  "message_moved m m' \<longleftrightarrow>
     m' = m \<or>
     (ms_role m = ''reasoning_summary_streaming'' \<and> ms_role m' \<in> {''reasoning_summary_streaming'', ''reasoning_summary''} \<and>
      ms_id m' = ms_id m \<and> ms_session_id m' = ms_session_id m \<and> ms_turn_id m' = ms_turn_id m \<and>
      ms_created_at m' = ms_created_at m)"

definition rows_later :: "('r \<Rightarrow> 'r \<Rightarrow> bool) \<Rightarrow> 'r list \<Rightarrow> 'r list \<Rightarrow> bool" where
  "rows_later moved rows rows' \<longleftrightarrow> (\<forall>r \<in> set rows. \<exists>r' \<in> set rows'. moved r r')"

definition queue_later :: "QueueWorld \<Rightarrow> QueueWorld \<Rightarrow> bool" where
  "queue_later w w' \<longleftrightarrow>
     rows_later input_moved (qw_inputs w) (qw_inputs w') \<and> rows_later question_moved (qw_questions w) (qw_questions w') \<and>
     length (qw_messages w) \<le> length (qw_messages w') \<and>
     (\<forall>k < length (qw_messages w). message_moved (qw_messages w ! k) (qw_messages w' ! k)) \<and>
     set (qw_delivered w) \<subseteq> set (qw_delivered w')"

text \<open>The rest of the program changes sessions, turns and attachments, and removes no turn.\<close>

definition queue_env :: "QueueWorld \<Rightarrow> QueueWorld \<Rightarrow> bool" where
  "queue_env w w' \<longleftrightarrow>
     turn_keys w \<subseteq> turn_keys w' \<and> qw_inputs w' = qw_inputs w \<and> qw_messages w' = qw_messages w \<and>
     qw_questions w' = qw_questions w \<and> qw_delivered w' = qw_delivered w"

lemma input_moved_refl [simp]: "input_moved r r" and question_moved_refl [simp]: "question_moved q q"
  and message_moved_refl [simp]: "message_moved m m"
  by (simp_all add: input_moved_def question_moved_def message_moved_def)

lemma input_moved_trans: "input_moved r r' \<Longrightarrow> input_moved r' r'' \<Longrightarrow> input_moved r r''"
  by (auto simp: input_moved_def same_input_def)

lemma question_moved_trans: "question_moved q q' \<Longrightarrow> question_moved q' q'' \<Longrightarrow> question_moved q q''"
  by (auto simp: question_moved_def same_question_def)

lemma message_moved_trans: "message_moved m m' \<Longrightarrow> message_moved m' m'' \<Longrightarrow> message_moved m m''"
  by (auto simp: message_moved_def)

lemma rows_later_same [simp]: "(\<And>r. moved r r) \<Longrightarrow> rows_later moved rows rows"
  by (auto simp: rows_later_def)

lemma rows_later_append [simp]: "(\<And>r. moved r r) \<Longrightarrow> rows_later moved rows (rows @ rows')"
  by (auto simp: rows_later_def)

lemma rows_later_map: "(\<And>r. moved r (f r)) \<Longrightarrow> rows_later moved rows (map f rows)"
  by (auto simp: rows_later_def)

lemma rows_later_update:
  assumes "\<And>r. moved r r" and "\<And>r. r \<in> set rows \<Longrightarrow> p r \<Longrightarrow> moved r (f r)"
  shows "rows_later moved rows (update_where p f rows)"
  unfolding rows_later_def set_update_where using assms by (auto intro!: rev_image_eqI)

lemma rows_later_trans:
  assumes "\<And>r r' r''. moved r r' \<Longrightarrow> moved r' r'' \<Longrightarrow> moved r r''" and "rows_later moved a b" and "rows_later moved b c"
  shows "rows_later moved a c"
  using assms unfolding rows_later_def by meson

lemma queue_later_refl [simp]: "queue_later w w"
  by (simp add: queue_later_def)

lemma queue_later_trans:
  assumes "queue_later w w'" and "queue_later w' w''"
  shows "queue_later w w''"
  unfolding queue_later_def
proof (intro conjI allI impI)
  show "rows_later input_moved (qw_inputs w) (qw_inputs w'')"
    by (rule rows_later_trans [of input_moved]) (use assms input_moved_trans in \<open>auto simp: queue_later_def\<close>)
next
  show "rows_later question_moved (qw_questions w) (qw_questions w'')"
    by (rule rows_later_trans [of question_moved]) (use assms question_moved_trans in \<open>auto simp: queue_later_def\<close>)
next
  fix k assume "k < length (qw_messages w)"
  moreover from this assms(1) have "k < length (qw_messages w')" by (simp add: queue_later_def)
  ultimately show "message_moved (qw_messages w ! k) (qw_messages w'' ! k)"
    using assms unfolding queue_later_def by (meson message_moved_trans)
qed (use assms in \<open>auto simp: queue_later_def\<close>)

section \<open>The interface\<close>

lemma delivery_mono:
  assumes "delivery_of w r m" and "set (qw_messages w) \<subseteq> set (qw_messages w')" and "set (qw_delivered w) \<subseteq> set (qw_delivered w')"
    and "turn_keys w \<subseteq> turn_keys w'"
  shows "delivery_of w' r m"
  using assms unfolding delivery_of_def by blast

lemma delivered_mono:
  assumes "turn_keys w \<subseteq> turn_keys w'" and "set (qw_messages w) \<subseteq> set (qw_messages w')" and "qw_delivered w' = qw_delivered w"
    and "delivered_ok w r"
  shows "delivered_ok w' r"
  using assms delivery_mono [of w r _ w'] unfolding delivered_ok_def by (auto split: if_splits)

lemma key_tables [simp]:
  "turn_keys (w\<lparr>qw_inputs := rs\<rparr>) = turn_keys w" "turn_keys (w\<lparr>qw_questions := qs\<rparr>) = turn_keys w"
  "turn_keys (w\<lparr>qw_messages := ms\<rparr>) = turn_keys w" "turn_keys (w\<lparr>qw_delivered := ds\<rparr>) = turn_keys w"
  "turn_keys (w\<lparr>qw_sessions := ss\<rparr>) = turn_keys w" "turn_keys (w\<lparr>qw_attachments := as\<rparr>) = turn_keys w"
  by (simp_all add: turn_keys_def)

lemma delivery_tables [simp]:
  "delivery_of (w\<lparr>qw_inputs := rs\<rparr>) = delivery_of w" "delivery_of (w\<lparr>qw_questions := qs\<rparr>) = delivery_of w"
  by (simp_all add: delivery_of_def fun_eq_iff)

lemma delivered_tables [simp]:
  "delivered_ok (w\<lparr>qw_inputs := rs\<rparr>) = delivered_ok w" "delivered_ok (w\<lparr>qw_questions := qs\<rparr>) = delivered_ok w"
  by (simp_all add: delivered_ok_def fun_eq_iff)

lemma queue_env_kept: "queue_inv w \<Longrightarrow> queue_env w w' \<Longrightarrow> queue_inv w' \<and> queue_later w w'"
  using delivered_mono [of w w'] by (auto simp: queue_env_def queue_inv_def keys_unique_def queue_later_def)

interpretation queue: kept_world queue_inv queue_later queue_env
  by unfold_locales (use queue_later_trans queue_env_kept in auto)

lemmas queue_tx_kept = queue.kept_tx [where fault = "\<lambda>e. e" and db = qi_db]
lemmas queue_query_kept = queue.kept_query [where fault = "\<lambda>e. e" and db = qi_db]

text \<open>Sessions, attachments and turns.\<close>

lemma other_tables_kept:
  assumes "queue_inv w" and "queue_env w w'"
  shows "queue_inv w'" "queue_later w w'"
  using queue_env_kept [OF assms] by simp_all

lemma env_tables [simp]:
  "queue_env w (w\<lparr>qw_sessions := ss\<rparr>)" "queue_env w (w\<lparr>qw_attachments := as\<rparr>)"
  by (simp_all add: queue_env_def turn_keys_def)

lemma env_turns:
  assumes "\<And>t. p t \<Longrightarrow> tn_id (f t) = tn_id t \<and> tn_session_id (f t) = tn_session_id t"
  shows "queue_env w (w\<lparr>qw_turns := update_where p f (qw_turns w)\<rparr>)"
  using image_update_where [of "qw_turns w" p "\<lambda>t. (tn_id t, tn_session_id t)" f] assms
  by (simp add: queue_env_def turn_keys_def)

lemma input_keys:
  assumes "queue_inv w"
  shows "distinct (map ti_id (qw_inputs w))" "distinct (map input_key (qw_inputs w))"
    "inj_on ti_target_turn_id {r \<in> set (qw_inputs w). waiting_steer r}"
    "r \<in> set (qw_inputs w) \<Longrightarrow> input_ok r" "r \<in> set (qw_inputs w) \<Longrightarrow> delivered_ok w r"
  using assms by (auto simp: queue_inv_def keys_unique_def)

lemma message_keys:
  assumes "queue_inv w"
  shows "distinct (map ms_id (qw_messages w))" "distinct (map fst (qw_delivered w))" "distinct (map snd (qw_delivered w))"
    "fst ` set (qw_delivered w) \<subseteq> ti_id ` set (qw_inputs w)" "snd ` set (qw_delivered w) \<subseteq> ms_id ` set (qw_messages w)"
  using assms by (auto simp: queue_inv_def keys_unique_def)

lemma same_input_keys: "same_input r r' \<Longrightarrow> ti_id r' = ti_id r \<and> input_key r' = input_key r \<and> ti_mode r' = ti_mode r \<and>
    ti_target_turn_id r' = ti_target_turn_id r"
  by (simp add: same_input_def input_key_def)

section \<open>Inputs\<close>

text \<open>A step of an input that does not consume it.\<close>

definition input_step :: "TurnInput \<Rightarrow> TurnInput \<Rightarrow> bool" where
  "input_step r r' \<longleftrightarrow>
     same_input r r' \<and> waiting_input r \<and> ti_status r' \<noteq> Input_Consumed \<and> ti_resulting_turn_id r' = ti_resulting_turn_id r \<and>
     ti_consumed_at r' = ti_consumed_at r \<and> (ti_cancelled_at r' \<noteq> None \<longleftrightarrow> ti_status r' = Input_Cancelled) \<and>
     ti_revision r' = ti_revision r + 1"

lemma cancelled_step: "waiting_input r \<Longrightarrow> input_step r (cancelled_input now r)"
  by (simp add: input_step_def cancelled_input_def same_input_def)

lemma moved_step:
  "waiting_input r \<Longrightarrow> input_ok r \<Longrightarrow> status \<in> {Input_Pending, Input_Processing} \<Longrightarrow> input_step r (moved_input status now r)"
  by (auto simp: input_step_def moved_input_def same_input_def input_ok_def waiting_input_def)

lemma input_step_moved: "input_step r r' \<Longrightarrow> input_moved r r'"
  by (simp add: input_step_def input_moved_def)

lemma steers_unique:
  assumes "inj_on ti_target_turn_id {r \<in> rows. waiting_steer r}"
    and "\<And>r. r \<in> rows \<Longrightarrow> g r = r \<or> (same_input r (g r) \<and> waiting_input r)"
  shows "inj_on ti_target_turn_id {r \<in> g ` rows. waiting_steer r}"
proof (rule inj_onI)
  have "waiting_steer r \<and> ti_target_turn_id (g r) = ti_target_turn_id r" if "r \<in> rows" "waiting_steer (g r)" for r
    using assms(2) [OF that(1)] that(2) by (auto simp: waiting_steer_def same_input_def)
  moreover fix a b assume "a \<in> {r \<in> g ` rows. waiting_steer r}" "b \<in> {r \<in> g ` rows. waiting_steer r}"
    "ti_target_turn_id a = ti_target_turn_id b"
  ultimately obtain x y where "a = g x" "b = g y" "x \<in> {r \<in> rows. waiting_steer r}" "y \<in> {r \<in> rows. waiting_steer r}"
    "ti_target_turn_id x = ti_target_turn_id y" by auto
  with assms(1) show "a = b" by (auto dest: inj_onD)
qed

lemma inputs_updated:
  assumes "\<And>r. queue_inv w \<Longrightarrow> r \<in> set (qw_inputs w) \<Longrightarrow> p r \<Longrightarrow> input_step r (f r)"
  shows "queue.step_ok w (w\<lparr>qw_inputs := update_where p f (qw_inputs w)\<rparr>)" (is "queue.step_ok w ?w")
  unfolding queue.step_ok_def
proof
  assume inv: "queue_inv w"
  let ?g = "\<lambda>r. if p r then f r else r"
  note keys = input_keys [OF inv] and step = assms [OF inv]
  have same: "same_input r (f r)" if "r \<in> set (qw_inputs w)" "p r" for r using step [OF that] by (simp add: input_step_def)
  have maps: "map ti_id (qw_inputs ?w) = map ti_id (qw_inputs w)" "map input_key (qw_inputs ?w) = map input_key (qw_inputs w)"
    using same by (auto intro!: map_update_where dest: same_input_keys)
  have "inj_on ti_target_turn_id {r \<in> ?g ` set (qw_inputs w). waiting_steer r}"
    by (rule steers_unique [OF keys(3)]) (use step in \<open>auto simp: input_step_def\<close>)
  moreover have "ti_id ` set (qw_inputs ?w) = ti_id ` set (qw_inputs w)"
    using image_update_where [of "qw_inputs w" p ti_id f] same by (simp add: same_input_def)
  ultimately have "keys_unique ?w"
    using inv maps by (simp add: queue_inv_def keys_unique_def) (simp add: set_update_where)
  moreover have "input_ok (?g r) \<and> delivered_ok ?w (?g r)" if r: "r \<in> set (qw_inputs w)" for r
  proof (cases "p r")
    case True
    note st = step [OF r True, unfolded input_step_def same_input_def]
    then have "ti_resulting_turn_id r = None \<and> ti_id r \<notin> fst ` set (qw_delivered w)"
      using keys(5) [OF r] by (cases "ti_status r") (simp_all add: delivered_ok_def waiting_input_def)
    with st have "delivered_ok ?w (f r)" by (simp add: delivered_ok_def)
    moreover have "input_ok (f r)" using st keys(4) [OF r] by (auto simp: input_ok_def waiting_input_def)
    ultimately show ?thesis using True by simp
  next
    case False
    with keys(4,5) [OF r] show ?thesis by (simp add: delivered_ok_def delivery_of_def)
  qed
  then have "\<forall>r \<in> ?g ` set (qw_inputs w). input_ok r \<and> delivered_ok ?w r" unfolding ball_simps by blast
  then have "\<forall>r \<in> set (qw_inputs ?w). input_ok r \<and> delivered_ok ?w r" by (simp add: set_update_where)
  ultimately have "queue_inv ?w" using inv by (simp add: queue_inv_def)
  moreover have "rows_later input_moved (qw_inputs w) (qw_inputs ?w)"
    using step input_step_moved by (simp add: rows_later_update)
  then have "queue_later w ?w" by (simp add: queue_later_def)
  ultimately show "queue_inv ?w \<and> queue_later w ?w" ..
qed

lemma input_inserted:
  assumes "insert_input session_id input i w = Ok (w', x)"
  shows "queue.step_ok w w'"
proof -
  let ?r = "pending_input session_id input i"
  show ?thesis
  proof (cases "list_ex (input_conflict ?r) (qw_inputs w)")
    case True
    with assms show ?thesis by (simp add: insert_input_def)
  next
    case False
    with assms have w': "w' = w\<lparr>qw_inputs := qw_inputs w @ [?r]\<rparr>" by (auto simp: insert_input_def Let_def)
    have free: "\<not> input_conflict ?r r" if "r \<in> set (qw_inputs w)" for r using False that by (auto simp: list_ex_iff)
    show ?thesis unfolding queue.step_ok_def w'
    proof
      assume inv: "queue_inv w"
      have new: "ti_id ?r \<notin> ti_id ` set (qw_inputs w)" "input_key ?r \<notin> input_key ` set (qw_inputs w)"
        using free by (simp_all add: input_conflict_def image_iff) metis+
      moreover have "inj_on ti_target_turn_id {r. (r = ?r \<or> r \<in> set (qw_inputs w)) \<and> waiting_steer r}"
        using input_keys(3) [OF inv] free unfolding inj_on_def input_conflict_def waiting_steer_def by fastforce
      moreover have "ti_id ?r \<notin> fst ` set (qw_delivered w)" using new(1) message_keys(4) [OF inv] by blast
      then have "input_ok ?r" "delivered_ok w ?r" by (simp_all add: pending_input_def input_ok_def delivered_ok_def)
      ultimately show "queue_inv (w\<lparr>qw_inputs := qw_inputs w @ [?r]\<rparr>) \<and> queue_later w (w\<lparr>qw_inputs := qw_inputs w @ [?r]\<rparr>)"
        using inv by (auto simp: queue_inv_def keys_unique_def queue_later_def intro: rev_bexI)
    qed
  qed
qed

section \<open>Messages\<close>

lemma message_appended:
  assumes "insert_message m w = Ok w'"
  shows "queue.step_ok w w'" and "w' = w\<lparr>qw_messages := qw_messages w @ [m]\<rparr>" and "ms_id m \<notin> ms_id ` set (qw_messages w)"
proof -
  show w': "w' = w\<lparr>qw_messages := qw_messages w @ [m]\<rparr>" and new: "ms_id m \<notin> ms_id ` set (qw_messages w)"
    using assms find_row_image [of ms_id "ms_id m" "qw_messages w"] by (auto simp: insert_message_def split: if_splits)
  show "queue.step_ok w w'"
    unfolding queue.step_ok_def w'
  proof
    assume inv: "queue_inv w"
    let ?w = "w\<lparr>qw_messages := qw_messages w @ [m]\<rparr>"
    have "delivered_ok ?w r" if "r \<in> set (qw_inputs w)" for r
      by (rule delivered_mono [OF _ _ _ input_keys(5) [OF inv that]]) (auto simp: turn_keys_def)
    then show "queue_inv ?w \<and> queue_later w ?w"
      using inv new by (auto simp: queue_inv_def keys_unique_def queue_later_def nth_append)
  qed
qed

text \<open>A change of a streamed summary.\<close>

lemma messages_updated:
  assumes "\<And>m. p m \<Longrightarrow> message_moved m (f m) \<and> ms_role m = ''reasoning_summary_streaming''"
  shows "queue.step_ok w (w\<lparr>qw_messages := update_where p f (qw_messages w)\<rparr>)" (is "queue.step_ok w ?w")
  unfolding queue.step_ok_def
proof
  assume inv: "queue_inv w"
  have "map ms_id (qw_messages ?w) = map ms_id (qw_messages w)"
    using map_update_where [of "qw_messages w" p ms_id f] assms by (simp add: message_moved_def) metis
  moreover have "delivered_ok ?w r" if r: "r \<in> set (qw_inputs w)" for r
  proof -
    have "delivery_of ?w r m" if "delivery_of w r m" for m
    proof -
      have "\<not> p m" using assms [of m] that by (auto simp: delivery_of_def)
      with that show ?thesis by (auto simp: delivery_of_def set_update_where)
    qed
    with input_keys(5) [OF inv r] show ?thesis unfolding delivered_ok_def by (auto split: if_splits)
  qed
  moreover have "ms_id ` set (qw_messages ?w) = ms_id ` set (qw_messages w)"
    using image_update_where [of "qw_messages w" p ms_id f] assms by (simp add: message_moved_def) metis
  ultimately have "queue_inv ?w" using inv by (simp add: queue_inv_def keys_unique_def)
  moreover have "queue_later w ?w" using assms by (auto simp: queue_later_def update_where_def)
  ultimately show "queue_inv ?w \<and> queue_later w ?w" ..
qed

section \<open>Questions\<close>

definition question_step :: "QuestionRow \<Rightarrow> QuestionRow \<Rightarrow> bool" where
  "question_step q q' \<longleftrightarrow>
     same_question q q' \<and> qq_status q \<in> {Question_Pending, Question_Answered} \<and> question_ok q' \<and>
     qq_revision q' = qq_revision q + 1"

lemma question_steps:
  "qq_status q = Question_Pending \<Longrightarrow> question_ok q \<Longrightarrow> question_step q (answered_question answers who now q)"
  "qq_status q = Question_Answered \<Longrightarrow> question_ok q \<Longrightarrow> question_step q (reopened_question q)"
  "qq_status q = Question_Pending \<Longrightarrow> question_ok q \<Longrightarrow> question_step q (cancelled_question q)"
  by (auto simp: question_step_def same_question_def question_ok_def answered_question_def reopened_question_def
      cancelled_question_def)

lemma questions_updated:
  assumes "\<And>q. p q \<Longrightarrow> question_ok q \<Longrightarrow> question_step q (f q)"
  shows "queue.step_ok w (w\<lparr>qw_questions := update_where p f (qw_questions w)\<rparr>)" (is "queue.step_ok w ?w")
  unfolding queue.step_ok_def
proof
  assume inv: "queue_inv w"
  have ok: "question_ok q" if "q \<in> set (qw_questions w)" for q using inv that by (simp add: queue_inv_def)
  have "map qq_id (qw_questions ?w) = map qq_id (qw_questions w)" "map qq_item_id (qw_questions ?w) = map qq_item_id (qw_questions w)"
    using assms ok by (auto intro!: map_update_where simp: question_step_def same_question_def)
  moreover have "question_ok q" if "q \<in> set (qw_questions ?w)" for q
    using that ok assms by (auto simp: set_update_where question_step_def)
  ultimately have "queue_inv ?w" using inv by (simp add: queue_inv_def keys_unique_def)
  moreover have "rows_later question_moved (qw_questions w) (qw_questions ?w)"
    using assms ok by (auto intro!: rows_later_update simp: question_step_def question_moved_def)
  then have "queue_later w ?w" by (simp add: queue_later_def)
  ultimately show "queue_inv ?w \<and> queue_later w ?w" ..
qed

lemma question_inserted:
  assumes "insert_question (question_row scope request) w = Ok w'"
  shows "queue.step_ok w w'" and "w' = w\<lparr>qw_questions := qw_questions w @ [question_row scope request]\<rparr>"
proof -
  let ?q = "question_row scope request"
  show w': "w' = w\<lparr>qw_questions := qw_questions w @ [?q]\<rparr>" using assms by (simp add: insert_question_def split: if_splits)
  have new: "qq_id ?q \<notin> qq_id ` set (qw_questions w)" "qq_item_id ?q \<notin> qq_item_id ` set (qw_questions w)"
    using assms find_row_image [of qq_id "qq_id ?q" "qw_questions w"] find_row_image [of qq_item_id "qq_item_id ?q" "qw_questions w"]
    by (auto simp: insert_question_def split: if_splits)
  moreover have "question_ok ?q" by (simp add: question_row_def question_ok_def)
  ultimately show "queue.step_ok w w'"
    unfolding queue.step_ok_def w' by (auto simp: queue_inv_def keys_unique_def queue_later_def intro: rev_bexI)
qed

section \<open>Consumption\<close>

lemma input_consumed:
  assumes inv: "queue_inv w" and r: "r \<in> set (qw_inputs w)" "waiting_input r"
    and message: "insert_message (input_message r turn_id i) w = Ok w1" and turn: "(turn_id, ti_session_id r) \<in> turn_keys w"
    and settle: "settle_input still turn_id r changed i w1 = Ok (w2, x)" and still: "\<And>x. still x \<Longrightarrow> ti_id x = ti_id r"
  shows "queue_inv w2 \<and> queue_later w w2"
proof -
  let ?m = "input_message r turn_id i"
  let ?f = "consumed_input turn_id (qi_now i)"
  let ?g = "\<lambda>x. if x = r then ?f x else x"
  note keys = input_keys [OF inv] and mkeys = message_keys [OF inv]
  have w1: "w1 = w\<lparr>qw_messages := qw_messages w @ [?m]\<rparr>" and new: "ms_id ?m \<notin> ms_id ` set (qw_messages w)"
    using message_appended(2,3) [OF message] by auto
  have ok: "input_ok r" "ti_resulting_turn_id r = None" "ti_id r \<notin> fst ` set (qw_delivered w)"
    using keys(4,5) [OF r(1)] r(2) by (simp_all add: delivered_ok_def waiting_input_def split: if_splits)
  have found: "still y \<longleftrightarrow> y = r" if "y \<in> set (qw_inputs w)" for y
  proof
    show "y = r" if "still y" using still [OF that] keys(1) \<open>y \<in> set (qw_inputs w)\<close> r(1) by (metis distinct_map inj_onD)
    show "still y" if "y = r"
    proof -
      from settle obtain z where z: "z \<in> set (qw_inputs w)" "still z" by (auto simp: settle_input_def w1 list_ex_iff split: if_splits)
      with still [OF z(2)] keys(1) r(1) have "z = r" by (metis distinct_map inj_onD)
      with z(2) that show ?thesis by simp
    qed
  qed
  have inputs: "update_where still ?f (qw_inputs w) = map ?g (qw_inputs w)"
    unfolding update_where_def using found by (intro map_cong) auto
  obtain ss where w2: "w2 = w\<lparr>qw_messages := qw_messages w @ [?m], qw_inputs := map ?g (qw_inputs w), qw_sessions := ss,
      qw_delivered := qw_delivered w @ [(ti_id r, ms_id ?m)]\<rparr>"
    using settle by (auto simp: settle_input_def w1 inputs input_message_def split: if_splits)
  have same: "same_input y (?g y)" for y by (simp add: same_input_def consumed_input_def)
  have tables: "qw_inputs w2 = map ?g (qw_inputs w)" "qw_messages w2 = qw_messages w @ [?m]" "qw_questions w2 = qw_questions w"
    "qw_delivered w2 = qw_delivered w @ [(ti_id r, ms_id ?m)]" by (simp_all add: w2)
  have maps: "map ti_id (qw_inputs w2) = map ti_id (qw_inputs w)" "map input_key (qw_inputs w2) = map input_key (qw_inputs w)"
    using same_input_keys [OF same] by (simp_all add: tables(1))
  have ids: "ti_id ` set (qw_inputs w2) = ti_id ` set (qw_inputs w)" using maps(1) by (metis list.set_map)
  have "inj_on ti_target_turn_id {r \<in> ?g ` set (qw_inputs w). waiting_steer r}"
    by (rule steers_unique [OF keys(3)]) (use same r in \<open>auto split: if_splits\<close>)
  then have steers: "inj_on ti_target_turn_id {r \<in> set (qw_inputs w2). waiting_steer r}" unfolding tables(1) list.set_map .
  have "ms_id ?m \<notin> snd ` set (qw_delivered w)" using new mkeys(5) by blast
  then have "keys_unique w2"
    using inv new ok(3) r(1) steers unfolding keys_unique_def maps ids tables(2-4)
    by (simp add: queue_inv_def keys_unique_def subset_insertI2)
  moreover have "input_ok (?g y) \<and> delivered_ok w2 (?g y)" if y: "y \<in> set (qw_inputs w)" for y
  proof (cases "y = r")
    case True
    have "delivery_of w2 (?f r) ?m"
      using turn by (simp add: delivery_of_def w2 input_message_def consumed_input_def turn_keys_def)
    then show ?thesis
      using True ok(1) r(2) by (auto simp: delivered_ok_def consumed_input_def input_ok_def waiting_input_def)
  next
    case False
    then have "ti_id y \<noteq> ti_id r" using keys(1) y r(1) by (metis distinct_map inj_onD)
    moreover have "delivery_of w2 y m" if "delivery_of w y m" for m
      by (rule delivery_mono [OF that]) (auto simp: w2 turn_keys_def)
    ultimately show ?thesis
      using False keys(4,5) [OF y] unfolding delivered_ok_def tables(4) by (auto split: if_splits)
  qed
  then have "\<forall>y \<in> set (qw_inputs w2). input_ok y \<and> delivered_ok w2 y" unfolding tables(1) list.set_map ball_simps by blast
  ultimately have "queue_inv w2" using inv by (simp add: queue_inv_def tables(3))
  moreover have "input_moved y (?g y)" for y
    using same [of y] r(2) by (auto simp: input_moved_def consumed_input_def)
  then have "queue_later w w2"
    using rows_later_map [of input_moved ?g "qw_inputs w"] by (auto simp: queue_later_def tables nth_append)
  ultimately show ?thesis ..
qed

lemma row_to_turn_input_Ok: "row_to_turn_input row = Ok input \<longleftrightarrow> input = row \<and> 0 \<le> ti_revision row \<and> ti_revision row < 2 ^ 63"
  by (auto simp: row_to_turn_input_def stored_revision_def and_then_def)

lemma find_mem: "find p xs = Some x \<Longrightarrow> x \<in> set xs \<and> p x"
  by (auto simp: find_Some_iff)

lemma consume_active_later:
  assumes "consume_active input_id turn_id i w = Ok (w', x)"
  shows "queue.step_ok w w'"
  unfolding queue.step_ok_def
proof
  assume inv: "queue_inv w"
  from assms obtain r t w1 y where r: "find (\<lambda>r. ti_id r = input_id \<and> ti_status r = Input_Pending) (qw_inputs w) = Some r"
    and t: "find_row tn_id turn_id (qw_turns w) = Some t" "tn_session_id t = ti_session_id r"
    and m: "insert_message (input_message r turn_id i) w = Ok w1"
    and s: "settle_input (\<lambda>x. ti_id x = ti_id r \<and> ti_status x = Input_Pending \<and>
         list_ex (\<lambda>t. tn_id t = turn_id \<and> \<not> is_terminal (tn_status t)) (qw_turns w1)) turn_id r
         ''turn input or active Turn changed concurrently'' i w1 = Ok (w', y)"
    by (auto simp: consume_active_def and_then_Ok ok_or_Ok row_to_turn_input_Ok Let_def split: if_splits)
  show "queue_inv w' \<and> queue_later w w'"
  proof (rule input_consumed [OF inv _ _ m _ s])
    show "r \<in> set (qw_inputs w)" "waiting_input r" using find_mem [OF r] by (auto simp: waiting_input_def)
    show "(turn_id, ti_session_id r) \<in> turn_keys w" using find_row_SomeD [OF t(1)] t(2) by (auto simp: turn_keys_def)
  qed simp
qed

lemma turn_inserted:
  assumes "insert_turn t w = Ok w'"
  shows "queue_env w w'" and "w' = w\<lparr>qw_turns := qw_turns w @ [t]\<rparr>"
  using assms by (auto simp: insert_turn_def queue_env_def turn_keys_def split: if_splits)

lemma consume_new_later:
  assumes "consume_new input_id i w = Ok (w', x)"
  shows "queue.step_ok w w'"
  unfolding queue.step_ok_def
proof
  assume inv: "queue_inv w"
  from assms obtain r w1 w2 y where r: "find (\<lambda>r. ti_id r = input_id \<and> ti_status r = Input_Processing) (qw_inputs w) = Some r"
    and t: "insert_turn (new_turn (qi_id i) (ti_session_id r) (ti_scope r) (qi_now i)) w = Ok w1"
    and m: "insert_message (input_message r (qi_id i) i) w1 = Ok w2"
    and s: "settle_input (\<lambda>x. ti_id x = ti_id r \<and> ti_status x = Input_Processing) (qi_id i) r
         ''turn input changed concurrently'' i w2 = Ok (w', y)"
    by (auto simp: consume_new_def and_then_Ok ok_or_Ok row_to_turn_input_Ok Let_def split: if_splits)
  note t' = turn_inserted [OF t]
  have "queue_inv w' \<and> queue_later w1 w'"
  proof (rule input_consumed [OF other_tables_kept(1) [OF inv t'(1)] _ _ m _ s])
    show "r \<in> set (qw_inputs w1)" "waiting_input r" using find_mem [OF r] t'(2) by (auto simp: waiting_input_def)
    show "(qi_id i, ti_session_id r) \<in> turn_keys w1" by (simp add: t'(2) turn_keys_def new_turn_def)
  qed simp
  with other_tables_kept(2) [OF inv t'(1)] show "queue_inv w' \<and> queue_later w w'" using queue_later_trans by blast
qed

section \<open>Operations\<close>

named_theorems queue_kept "the programs that keep the books of the queue"

lemma tx_step: "(\<And>i w w' x. f i w = Ok (w', x) \<Longrightarrow> queue.step_ok w w') \<Longrightarrow> queue.kept (queue_tx f)"
  by (rule queue_tx_kept) (simp add: queue.step_ok_def)

lemmas [queue_kept] = queue_query_kept queue.kept_ask

lemma env_step: "queue_env w w' \<Longrightarrow> queue.step_ok w w'"
  using queue_env_kept by (simp add: queue.step_ok_def)

lemma queue_reads [queue_kept]:
  "queue.kept (queue_session session_id)" "queue.kept (queue_turn scope turn_id)" "queue.kept (get_turn_input scope input_id)"
  "queue.kept (get_question_request scope question_id)" "queue.kept (stored_session session_id)"
  by (simp_all add: queue_session_def queue_turn_def get_turn_input_def get_question_request_def stored_session_def queue_query_kept)

lemmas queue_intros = queue.kept_try queue.kept_if queue.kept_ret

text \<open>The turn of an idle session.\<close>

lemma attached_env: "try_fold (attach_one scope session_id turn_id) w ids = Ok w' \<Longrightarrow> queue_env w w'"
proof (induction ids arbitrary: w)
  case (Cons k ids)
  then obtain w1 where "attach_one scope session_id turn_id w k = Ok w1" "queue_env w1 w'" by (auto split: sum.splits)
  then show ?case by (auto simp: attach_one_def Let_def queue_env_def turn_keys_def split: if_splits)
qed (simp add: queue_env_def)

lemma open_turn_later:
  assumes "open_turn scope session_id role content ids i w = Ok (w', x)"
  shows "queue.step_ok w w'"
proof -
  from assms obtain t m w1 w2 w3 ss where t: "insert_turn t w = Ok w1" and m: "insert_message m w1 = Ok w2"
    and a: "try_fold (attach_one scope session_id (qi_id i)) w2 ids = Ok w3" and w': "w' = w3\<lparr>qw_sessions := ss\<rparr>"
    by (auto simp: open_turn_def and_then_Ok Let_def split: if_splits)
  show ?thesis
    unfolding w' by (rule queue.step_ok_trans [OF queue.step_ok_trans [OF queue.step_ok_trans]])
      (use env_step [OF turn_inserted(1) [OF t]] message_appended(1) [OF m] env_step [OF attached_env [OF a]]
        env_step [OF env_tables(1)] in blast)+
qed

lemma create_turn_kept [queue_kept]:
  "queue.kept (create_turn_with_message_and_attachments_if_idle scope session_id role content ids)"
  unfolding create_turn_with_message_and_attachments_if_idle_def by (intro queue_intros queue_kept tx_step) (rule open_turn_later)

lemma create_turns_kept [queue_kept]:
  "queue.kept (create_turn_with_user_message_and_attachments_if_idle scope session_id content ids)"
  "queue.kept (create_turn_with_user_message_if_idle scope session_id content)"
  "queue.kept (create_turn_with_system_message_if_idle scope session_id content)"
  by (simp_all add: create_turn_with_user_message_and_attachments_if_idle_def create_turn_with_user_message_if_idle_def
      create_turn_with_system_message_if_idle_def create_turn_kept)

text \<open>Turn inputs.\<close>

lemma create_turn_input_kept [queue_kept]: "queue.kept (create_turn_input session_id input)"
  unfolding create_turn_input_def
  by (auto intro!: queue_intros queue_kept tx_step input_inserted split: option.split)

lemma list_pending_kept [queue_kept]: "queue.kept (list_pending_turn_inputs scope session_id)"
  unfolding list_pending_turn_inputs_def by (intro queue_intros queue_kept)

lemma cancel_input_later:
  assumes "\<And>r. p r \<Longrightarrow> waiting_input r"
  shows "queue.step_ok w (w\<lparr>qw_inputs := update_where p (cancelled_input now) (qw_inputs w)\<rparr>)"
  by (rule inputs_updated) (use assms cancelled_step in blast)

lemma cancel_turn_input_kept [queue_kept]: "queue.kept (cancel_turn_input scope input_id)"
  unfolding cancel_turn_input_def
  by (intro queue_intros queue_kept tx_step)
    (auto simp: Let_def waiting_input_def split: if_splits intro: cancel_input_later)

lemma cancel_queue_later: "cancel_queue turn_id i w = Ok (w', x) \<Longrightarrow> queue.step_ok w w'"
  by (auto simp: cancel_queue_def Let_def and_then_Ok waiting_input_def split: if_splits intro: cancel_input_later)

lemma cancel_undo_kept [queue_kept]: "queue.kept (cancel_turn_inputs_for_undo scope turn_id)"
  unfolding cancel_turn_inputs_for_undo_def by (intro queue_intros queue_kept tx_step) (rule cancel_queue_later)

lemma move_input_later:
  assumes "\<And>r. r \<in> set (qw_inputs w) \<Longrightarrow> queue_inv w \<Longrightarrow> p r \<Longrightarrow> waiting_input r" and "status \<in> {Input_Pending, Input_Processing}"
  shows "queue.step_ok w (w\<lparr>qw_inputs := update_where p (moved_input status now) (qw_inputs w)\<rparr>)"
  by (rule inputs_updated) (rule moved_step, use assms input_keys(4) in auto)

lemma claim_later:
  assumes "claim_input i w = Ok (w', x)"
  shows "queue.step_ok w w'"
proof (cases "next_input (filter (ready_input w) (qw_inputs w))")
  case None
  with assms show ?thesis by (simp add: claim_input_def)
next
  case (Some r)
  have r: "r \<in> set (qw_inputs w)" "ti_status r = Input_Pending"
    using best_row_mem [OF Some [unfolded next_input_def]] by (auto simp: ready_input_def)
  have "w' = w\<lparr>qw_inputs := update_where (\<lambda>x. ti_id x = ti_id r) (moved_input Input_Processing (qi_now i)) (qw_inputs w)\<rparr>"
    using assms Some by (auto simp: claim_input_def)
  moreover have "queue.step_ok w \<dots>"
  proof (rule move_input_later)
    show "waiting_input y" if "y \<in> set (qw_inputs w)" "queue_inv w" "ti_id y = ti_id r" for y
    proof -
      have "y = r" using input_keys(1) [OF that(2)] that(1,3) r(1) by (metis distinct_map inj_onD)
      with r(2) show ?thesis by (simp add: waiting_input_def)
    qed
  qed simp
  ultimately show ?thesis by simp
qed

lemma claim_kept [queue_kept]: "queue.kept claim_next_ready_turn_input" and requeue_kept [queue_kept]: "queue.kept (requeue_turn_input input_id)"
proof -
  have "queue.step_ok w w'" if "give_up_stale before i w = Ok (w', x)" for before i w w' x
    using that by (auto simp: give_up_stale_def waiting_input_def intro: move_input_later)
  then show "queue.kept claim_next_ready_turn_input"
    unfolding claim_next_ready_turn_input_def by (auto intro!: queue_intros queue_kept tx_step intro: claim_later split: option.split)
  show "queue.kept (requeue_turn_input input_id)"
    unfolding requeue_turn_input_def
    by (rule tx_step) (auto simp: waiting_input_def intro: move_input_later)
qed

lemma consume_inputs_kept [queue_kept]:
  "queue.kept (consume_turn_input_into_active_turn input_id turn_id)" "queue.kept (consume_turn_input_into_turn input_id)"
  unfolding consume_turn_input_into_active_turn_def consume_turn_input_into_turn_def
  by (intro tx_step, erule consume_active_later consume_new_later)+

text \<open>Messages.\<close>

lemma touch_later: "queue.step_ok w (touched_session session_id now w)"
  unfolding touched_session_def by (rule env_step [OF env_tables(1)])

lemma append_with_id_kept [queue_kept]:
  "queue.kept (append_turn_message_with_id scope session_id turn_id message_id role content)"
  unfolding append_turn_message_with_id_def Let_def
  by (intro queue_intros queue_kept tx_step) (auto simp: and_then_Ok intro: message_appended(1) touch_later)

lemma append_kept [queue_kept]:
  "queue.kept (append_turn_message scope session_id turn_id role content)" "queue.kept (append_message scope session_id role content)"
  unfolding append_message_def append_turn_message_def by (intro queue_intros queue_kept)+

lemma append_state_later: "append_state session_id count latest message i w = Ok (w', x) \<Longrightarrow> queue.step_ok w w'"
  unfolding append_state_def Let_def
  by (auto simp: and_then_Ok split: if_splits intro: queue.step_ok_trans [OF message_appended(1) touch_later])

lemma context_state_kept [queue_kept]: "queue.kept (append_context_state scope session_id turn_id count latest role content)"
  unfolding append_context_state_def by (intro queue_intros queue_kept tx_step) (rule append_state_later)

lemma conversation_kept [queue_kept]:
  "queue.kept (append_context_compaction scope session_id turn_id count latest content)"
  "queue.kept (append_conversation_undo scope session_id turn_id count latest content)"
  by (simp_all add: append_context_compaction_def append_conversation_undo_def context_state_kept)

lemma summary_later:
  assumes "\<And>m. ms_role m = ''reasoning_summary_streaming'' \<Longrightarrow> message_moved m (f m)"
  shows "queue.step_ok w (w\<lparr>qw_messages := update_where (streaming_summary session_id turn_id item_id) f (qw_messages w)\<rparr>)"
  by (rule messages_updated) (use assms in \<open>auto simp: streaming_summary_def\<close>)

lemma summary_kept [queue_kept]:
  "queue.kept (append_reasoning_summary_delta scope session_id turn_id item_id delta)"
  "queue.kept (complete_reasoning_summary scope session_id turn_id item_id)"
  "queue.kept (list_messages scope session_id)"
proof -
  show "queue.kept (append_reasoning_summary_delta scope session_id turn_id item_id delta)"
    unfolding append_reasoning_summary_delta_def Let_def
    by (auto intro!: queue_intros queue_kept tx_step split: option.split if_splits intro!: summary_later simp: message_moved_def)
  show "queue.kept (complete_reasoning_summary scope session_id turn_id item_id)"
    unfolding complete_reasoning_summary_def
    by (intro queue_intros queue_kept tx_step) (auto intro!: summary_later simp: message_moved_def)
  show "queue.kept (list_messages scope session_id)" unfolding list_messages_def by (intro queue_intros queue_kept)
qed

text \<open>Questions and pauses.\<close>

lemma create_question_kept [queue_kept]: "queue.kept (create_question_request scope request)"
  unfolding create_question_request_def
  by (intro queue_intros queue_kept tx_step) (auto simp: and_then_Ok intro: question_inserted(1))

lemma pause_later:
  assumes "pause_turn scope request checkpoint error_code i w = Ok (w', x)"
  shows "queue.step_ok w w'"
proof -
  from assms obtain w1 p f where q: "insert_question (question_row scope request) w = Ok w1"
    and w': "w' = w1\<lparr>qw_turns := update_where p f (qw_turns w1)\<rparr>"
    and f: "\<And>t. p t \<Longrightarrow> tn_id (f t) = tn_id t \<and> tn_session_id (f t) = tn_session_id t"
    by (auto simp: pause_turn_def and_then_Ok Let_def split: option.splits)
  show ?thesis unfolding w' by (rule queue.step_ok_trans [OF question_inserted(1) [OF q] env_step [OF env_turns [OF f]]])
qed

lemma pause_kept [queue_kept]: "queue.kept (create_question_and_pause_turn scope request checkpoint error_code)"
  unfolding create_question_and_pause_turn_def by (intro queue_intros queue_kept tx_step) (rule pause_later)

lemma list_questions_kept [queue_kept]:
  "queue.kept (list_pending_session_question_requests scope session_id)" "queue.kept (list_questions_for_resumable_turns error_code)"
  unfolding list_pending_session_question_requests_def list_questions_for_resumable_turns_def by (intro queue_intros queue_kept)+

lemma resolve_as_kept [queue_kept]: "queue.kept (resolve_question_request_as scope question_id answers who)"
  unfolding resolve_question_request_as_def
  by (intro queue_intros queue_kept tx_step) (auto simp: Let_def split: if_splits intro!: questions_updated intro: question_steps)

lemma resolve_kept [queue_kept]:
  "queue.kept (resolve_question_request scope question_id answers)"
  "queue.kept (resolve_question_request_automatically scope question_id answers)"
  by (simp_all add: resolve_question_request_def resolve_question_request_automatically_def resolve_as_kept)

lemma if_changed_kept [queue_kept]: "queue.kept p \<Longrightarrow> queue.kept (if_changed changed p)"
  unfolding if_changed_def by (intro queue_intros queue_kept)

lemma reopen_kept [queue_kept]: "queue.kept (reopen_answered_question_request scope question_id revision error_code)"
  unfolding reopen_answered_question_request_def
  by (intro queue_intros queue_kept tx_step) (auto simp: Let_def intro!: questions_updated intro: question_steps)

lemma turns_later:
  assumes "\<And>t. tn_id (f t) = tn_id t \<and> tn_session_id (f t) = tn_session_id t"
  shows "queue.step_ok w (w\<lparr>qw_turns := update_where p f (qw_turns w)\<rparr>)"
  by (rule env_step [OF env_turns [OF assms]])

lemma fail_later: "fail_active scope turn_id checkpoint error_code i w = Ok (w', x) \<Longrightarrow> queue.step_ok w w'"
  unfolding fail_active_def Let_def
  by (auto simp: and_then_Ok split: option.splits intro!: turns_later)

lemma fail_turn_kept [queue_kept]: "queue.kept (fail_turn_if_active scope turn_id checkpoint error_code)"
  unfolding fail_turn_if_active_def by (intro queue_intros queue_kept tx_step) (rule fail_later)

lemma move_turn_kept:
  assumes "\<And>now t. tn_id (f now t) = tn_id t \<and> tn_session_id (f now t) = tn_session_id t"
  shows "queue.kept (queue_tx (move_turn still f))"
  by (rule tx_step) (auto simp: move_turn_def assms intro!: turns_later)

lemma resume_kept [queue_kept]:
  "queue.kept (claim_awaiting_turn_resume scope turn_id error_code question_id revision)"
  "queue.kept (restore_preparing_turn_resume scope turn_id error_code)"
  "queue.kept (confirm_preparing_turn_resume scope turn_id error_code question_id revision)"
  unfolding claim_awaiting_turn_resume_def restore_preparing_turn_resume_def confirm_preparing_turn_resume_def
  by (intro queue_intros queue_kept move_turn_kept; simp)+

lemma cancel_paused_later:
  assumes "cancel_paused scope turn_id error_code i w = Ok (w', x)"
  shows "queue.step_ok w w'"
proof (cases "w' = w")
  case False
  with assms obtain p f q where w': "w' = w\<lparr>qw_turns := update_where p f (qw_turns w),
      qw_questions := update_where q cancelled_question (qw_questions w)\<rparr>"
    and f: "\<And>t. tn_id (f t) = tn_id t \<and> tn_session_id (f t) = tn_session_id t" and q: "\<And>r. q r \<Longrightarrow> qq_status r = Question_Pending"
    by (auto simp: cancel_paused_def and_then_Ok Let_def split: option.splits)
  show ?thesis
    using queue.step_ok_trans [OF turns_later [OF f] questions_updated [of q cancelled_question]] q question_steps(3)
    by (auto simp: w')
qed simp

lemma cancel_paused_kept [queue_kept]: "queue.kept (cancel_paused_turn_and_pending_questions scope turn_id error_code)"
  unfolding cancel_paused_turn_and_pending_questions_def by (intro queue_intros queue_kept tx_step) (rule cancel_paused_later)

text \<open>The end of a session.\<close>

lemma end_session_later:
  assumes "end_session scope session_id status now i w = Ok (w', x)"
  shows "queue.step_ok w w'"
proof -
  from assms obtain ss f p q r where w': "w' = w\<lparr>qw_turns := update_where p f (qw_turns w),
      qw_questions := update_where q cancelled_question (qw_questions w),
      qw_inputs := update_where r (cancelled_input now) (qw_inputs w), qw_sessions := ss\<rparr>"
    and f: "\<And>t. tn_id (f t) = tn_id t \<and> tn_session_id (f t) = tn_session_id t" and q: "\<And>x. q x \<Longrightarrow> qq_status x = Question_Pending"
    and r: "\<And>x. r x \<Longrightarrow> waiting_input x"
    by (auto simp: end_session_def Let_def split: if_splits)
  let ?w = "w\<lparr>qw_turns := update_where p f (qw_turns w), qw_questions := update_where q cancelled_question (qw_questions w)\<rparr>"
  have "queue.step_ok w ?w"
    using queue.step_ok_trans [OF turns_later [OF f] questions_updated [of q cancelled_question]] q question_steps(3) by auto
  moreover have "queue.step_ok ?w (?w\<lparr>qw_inputs := update_where r (cancelled_input now) (qw_inputs w)\<rparr>)"
    using cancel_input_later [of r ?w now] r by simp
  ultimately show ?thesis
    unfolding w' by (blast intro: queue.step_ok_trans env_step [OF env_tables(1)])
qed

lemma close_kept [queue_kept]: "queue.kept (close_session scope session_id status)"
  unfolding close_session_def by (intro queue_intros queue_kept tx_step) (rule end_session_later)

lemma restore_kept [queue_kept]: "queue.kept (restore_session scope session_id)"
  unfolding restore_session_def
  by (auto intro!: queue_intros queue_kept tx_step env_step [OF env_tables(1)] simp: Let_def split: SessionStatus.split if_splits)

end
