(* ===== verification/Queue_Safety.thy ===== *)
theory Queue_Safety
  imports Queue_Books
begin

text \<open>
  The properties of the prompt queue, the messages and the questions.  The system starts without inputs,
  messages and questions, with any sessions, turns and attachments; any operation may arrive at any time,
  the steps of the operations interleave in any way, any handler may be dropped, every statement may fail or
  take effect without an answer, and the rest of the program changes sessions, turns and attachments.
\<close>

section \<open>The system\<close>

inductive_set queue_clients :: "(QueueInput, QueueWorld, unit) prog set" where
  "forget (create_turn_with_user_message_if_idle s k c) \<in> queue_clients"
| "forget (create_turn_with_user_message_and_attachments_if_idle s k c as) \<in> queue_clients"
| "forget (create_turn_with_system_message_if_idle s k c) \<in> queue_clients"
| "forget (create_turn_input k input) \<in> queue_clients"
| "forget (list_pending_turn_inputs s k) \<in> queue_clients"
| "forget (get_turn_input s k) \<in> queue_clients"
| "forget (cancel_turn_input s k) \<in> queue_clients"
| "forget (cancel_turn_inputs_for_undo s t) \<in> queue_clients"
| "forget (claim_next_ready_turn_input) \<in> queue_clients"
| "forget (requeue_turn_input k) \<in> queue_clients"
| "forget (consume_turn_input_into_active_turn k t) \<in> queue_clients"
| "forget (consume_turn_input_into_turn k) \<in> queue_clients"
| "forget (append_message s k r c) \<in> queue_clients"
| "forget (append_turn_message s k t r c) \<in> queue_clients"
| "forget (append_turn_message_with_id s k t m r c) \<in> queue_clients"
| "forget (append_context_compaction s k t n l c) \<in> queue_clients"
| "forget (append_conversation_undo s k t n l c) \<in> queue_clients"
| "forget (append_reasoning_summary_delta s k t m d) \<in> queue_clients"
| "forget (complete_reasoning_summary s k t m) \<in> queue_clients"
| "forget (list_messages s k) \<in> queue_clients"
| "forget (create_question_request s q) \<in> queue_clients"
| "forget (create_question_and_pause_turn s q c e) \<in> queue_clients"
| "forget (get_question_request s k) \<in> queue_clients"
| "forget (list_pending_session_question_requests s k) \<in> queue_clients"
| "forget (list_questions_for_resumable_turns e) \<in> queue_clients"
| "forget (resolve_question_request s k a) \<in> queue_clients"
| "forget (resolve_question_request_automatically s k a) \<in> queue_clients"
| "forget (reopen_answered_question_request s k v e) \<in> queue_clients"
| "forget (fail_turn_if_active s t c e) \<in> queue_clients"
| "forget (claim_awaiting_turn_resume s t e k v) \<in> queue_clients"
| "forget (restore_preparing_turn_resume s t e) \<in> queue_clients"
| "forget (confirm_preparing_turn_resume s t e k v) \<in> queue_clients"
| "forget (cancel_paused_turn_and_pending_questions s t e) \<in> queue_clients"
| "forget (close_session s k st) \<in> queue_clients"
| "forget (restore_session s k) \<in> queue_clients"

definition queue_start :: "QueueWorld \<Rightarrow> bool" where
  "queue_start w \<longleftrightarrow> qw_inputs w = [] \<and> qw_messages w = [] \<and> qw_questions w = [] \<and> qw_delivered w = []"

abbreviation queue_reach :: "QueueWorld \<times> (QueueInput, QueueWorld, unit) prog list \<Rightarrow>
    QueueWorld \<times> (QueueInput, QueueWorld, unit) prog list \<Rightarrow> bool" where
  "queue_reach \<equiv> reachable qi_thread queue_clients queue_env (\<lambda>_ w. w)"

lemma queue_clients_kept: "\<forall>p \<in> queue_clients. queue.kept p"
proof
  fix p assume "p \<in> queue_clients"
  then show "queue.kept p" by (induction; intro queue.kept_forget; simp add: queue_kept)
qed

lemma queue_reach_inv:
  assumes "queue_start w0" and "queue_reach (w0, []) s"
  shows "queue.sys_kept s" and "queue_inv (fst s)"
proof -
  have "queue.sys_kept (w0, [])"
    using assms(1) by (simp add: queue.sys_kept_def queue_start_def queue_inv_def keys_unique_def)
  from queue.sys_kept_reachable [OF assms(2) this queue_clients_kept] show "queue.sys_kept s" by simp
  then show "queue_inv (fst s)" by (simp add: queue.sys_kept_def)
qed

lemma queue_reach_later:
  assumes "queue_start w0" and "queue_reach (w0, []) s" and "queue_reach s s'"
  shows "queue_later (fst s) (fst s')"
  using queue.sys_kept_reachable [OF assms(3) queue_reach_inv(1) [OF assms(1,2)] queue_clients_kept] by simp

section \<open>A run\<close>

text \<open>A prompt opens a turn; two more prompts arrive while it runs; the one that steers is consumed into the
  turn; the turn asks a question, which is answered; the turn fails.\<close>

definition queue_demo_scope :: Scope where
  "queue_demo_scope = \<lparr>sc_organization_id = ''o'', sc_team_id = ''t'', sc_actor_id = ''a'', sc_goal_id = None, sc_task_id = None\<rparr>"

definition queue_demo_world :: QueueWorld where
  "queue_demo_world =
     \<lparr>qw_sessions = [\<lparr>ss_id = ''s1'', ss_mode = Mode_Chat, ss_work_reason = None, ss_scope = queue_demo_scope,
        ss_workspace_uri = ''w'', ss_title = ''n'', ss_model = ''m'', ss_status = Session_Active, ss_created_at = 1,
        ss_updated_at = 1\<rparr>],
      qw_turns = [], qw_inputs = [], qw_messages = [], qw_attachments = [], qw_questions = [], qw_delivered = []\<rparr>"

definition queue_demo_input :: "nat \<Rightarrow> string \<Rightarrow> string \<Rightarrow> QueueInput" where
  "queue_demo_input k new_id message_id =
     \<lparr>qi_thread = k, qi_db = DbOk, qi_clock = 5, qi_now = 5, qi_id = new_id, qi_message_id = message_id\<rparr>"

definition queue_demo_prompt :: "TurnInputMode \<Rightarrow> string \<Rightarrow> CreateTurnInput" where
  "queue_demo_prompt mode key =
     \<lparr>ci_scope = queue_demo_scope, ci_target_turn_id = ''t1'', ci_mode = mode, ci_content = JStr ''more'', ci_idempotency_key = key\<rparr>"

definition queue_demo_question :: QuestionRequest where
  "queue_demo_question =
     \<lparr>qr_id = ''q1'', qr_session_id = ''s1'', qr_turn_id = ''t1'', qr_item_id = ''e1'', qr_questions = [], qr_allow_other = True,
      qr_requested_by = ''a'', qr_requested_at = 5, qr_expires_at = None, qr_status = Question_Pending, qr_answers = [],
      qr_answered_by = None, qr_answered_at = None, qr_revision = 1\<rparr>"

definition queue_demo_programs :: "(QueueInput, QueueWorld, unit) prog list" where
  "queue_demo_programs =
     [forget (create_turn_with_user_message_if_idle queue_demo_scope ''s1'' (JStr ''hi'')),
      forget (create_turn_input ''s1'' (queue_demo_prompt Input_Queue ''k1'')),
      forget (create_turn_input ''s1'' (queue_demo_prompt Input_Steer ''k2'')),
      forget (consume_turn_input_into_active_turn ''i2'' ''t1''),
      forget (create_question_request queue_demo_scope queue_demo_question),
      forget (resolve_question_request queue_demo_scope ''q1'' []),
      forget (fail_turn_if_active queue_demo_scope ''t1'' None ''stopped'')]"

definition queue_demo_ids :: "(string \<times> string) list" where
  "queue_demo_ids = [(''t1'', ''m1''), (''i1'', []), (''i2'', []), ([], ''m2''), ([], []), ([], []), ([], [])]"

definition queue_demo_inputs :: "nat \<Rightarrow> QueueInput list" where
  "queue_demo_inputs k = replicate 6 (queue_demo_input k (fst (queue_demo_ids ! k)) (snd (queue_demo_ids ! k)))"

primrec queue_demo :: "nat \<Rightarrow> QueueWorld" where
  "queue_demo 0 = queue_demo_world"
| "queue_demo (Suc k) = fst (run_alone (queue_demo_programs ! k) (queue_demo_inputs k) (queue_demo k))"

definition queue_demo_done :: "nat \<Rightarrow> (QueueInput, QueueWorld, unit) prog list" where
  "queue_demo_done n = replicate n (Ret ())"

lemma queue_demo_start: "queue_start (queue_demo 0)"
  by (simp add: queue_start_def queue_demo_world_def)

lemma queue_demo_ends:
  "list_all (\<lambda>k. snd (run_alone (queue_demo_programs ! k) (queue_demo_inputs k) (queue_demo k)) = Some ()) [0..<7]"
  by code_simp

lemma queue_demo_step:
  assumes "k < 7"
  shows "queue_reach (queue_demo k, queue_demo_done k) (queue_demo (Suc k), queue_demo_done (Suc k))"
proof -
  have "\<forall>p \<in> set queue_demo_programs. p \<in> queue_clients" by (simp add: queue_demo_programs_def queue_clients.intros)
  moreover have "queue_demo_programs ! k \<in> set queue_demo_programs"
    using assms by (intro nth_mem) (simp add: queue_demo_programs_def)
  ultimately have client: "queue_demo_programs ! k \<in> queue_clients" by blast
  have own: "\<forall>i \<in> set (queue_demo_inputs k). qi_thread i = length (queue_demo_done k)"
    by (simp add: queue_demo_inputs_def queue_demo_input_def queue_demo_done_def)
  have ends: "snd (run_alone (queue_demo_programs ! k) (queue_demo_inputs k) (queue_demo k)) = Some ()"
    using queue_demo_ends assms by (simp add: list_all_iff)
  have "queue_demo_done (Suc k) = queue_demo_done k @ [Ret ()]"
    unfolding queue_demo_done_def by (simp only: replicate_Suc replicate_append_same)
  then show ?thesis using reach_request [OF reachable.here client own ends] by (simp only: queue_demo.simps)
qed

lemma queue_demo_reach:
  assumes "j \<le> k" and "k \<le> 7"
  shows "queue_reach (queue_demo j, queue_demo_done j) (queue_demo k, queue_demo_done k)"
  using assms
proof (induction k rule: dec_induct)
  case (step n)
  then show ?case using reachable_trans [OF step.IH queue_demo_step [of n]] by simp
qed (simp add: reachable.here)

lemma queue_demo_run: "k \<le> 7 \<Longrightarrow> queue_reach (queue_demo 0, []) (queue_demo k, queue_demo_done k)"
  using queue_demo_reach [of 0 k] by (simp add: queue_demo_done_def)

text \<open>The prompt that waits, and the one that was consumed.\<close>

definition queue_demo_waiting :: TurnInput where
  "queue_demo_waiting = pending_input ''s1'' (queue_demo_prompt Input_Queue ''k1'') (queue_demo_input 1 ''i1'' [])"

definition queue_demo_consumed :: TurnInput where
  "queue_demo_consumed =
     consumed_input ''t1'' 5 (pending_input ''s1'' (queue_demo_prompt Input_Steer ''k2'') (queue_demo_input 2 ''i2'' []))"

lemma queue_demo_rows:
  "qw_inputs (queue_demo 2) = [queue_demo_waiting]" "qw_inputs (queue_demo 4) = [queue_demo_waiting, queue_demo_consumed]"
  "qw_inputs (queue_demo 7) = [queue_demo_waiting, queue_demo_consumed]"
  by code_simp+

section \<open>Properties\<close>

text \<open>C16: Every prompt is delivered exactly once: a turn input is consumed exactly when it has become a message, no
  input becomes two messages, no message comes from two inputs, and the message is a user message of the
  session of the input and of the turn the input resulted in, with its content.\<close>

theorem input_delivered_once:
  assumes "queue_start w0" and "queue_reach (w0, []) (w, ps)"
  shows "distinct (map fst (qw_delivered w)) \<and> distinct (map snd (qw_delivered w)) \<and> distinct (map ms_id (qw_messages w)) \<and>
    (\<forall>r \<in> set (qw_inputs w).
       (ti_status r = Input_Consumed \<longleftrightarrow> ti_id r \<in> fst ` set (qw_delivered w)) \<and>
       (\<forall>k. (ti_id r, k) \<in> set (qw_delivered w) \<longrightarrow>
          (\<exists>m \<in> set (qw_messages w). ms_id m = k \<and> ms_session_id m = ti_session_id r \<and>
             ti_resulting_turn_id r = Some (ms_turn_id m) \<and> ms_role m = ''user'' \<and> ms_content m = ti_content r)))"
proof -
  have inv: "queue_inv w" using queue_reach_inv [OF assms] by simp
  have "(ti_status r = Input_Consumed \<longleftrightarrow> ti_id r \<in> fst ` set (qw_delivered w)) \<and>
      ((ti_id r, k) \<in> set (qw_delivered w) \<longrightarrow> (\<exists>m. delivery_of w r m \<and> ms_id m = k))" if "r \<in> set (qw_inputs w)" for r k
  proof (cases "ti_status r = Input_Consumed")
    case True
    with input_keys(5) [OF inv that] obtain m where m: "delivery_of w r m" by (auto simp: delivered_ok_def)
    then have "(ti_id r, ms_id m) \<in> set (qw_delivered w)" by (simp add: delivery_of_def)
    with m True message_keys(2) [OF inv] show ?thesis by (metis eq_key_imp_eq_value fst_conv image_eqI)
  next
    case False
    with input_keys(5) [OF inv that] show ?thesis by (auto simp: delivered_ok_def intro: rev_image_eqI)
  qed
  then show ?thesis using message_keys [OF inv] by (auto simp: delivery_of_def)
qed

lemma input_delivered_once_witness:
  "\<exists>m \<in> set (qw_messages (queue_demo 4)). ms_id m = ''m2'' \<and> ms_role m = ''user'' \<and> ms_content m = JStr ''more''"
proof -
  have "qw_delivered (queue_demo 4) = [(''i2'', ''m2'')]" and row: "ti_id queue_demo_consumed = ''i2''" "ti_content queue_demo_consumed = JStr ''more''"
    by code_simp+
  then have "(ti_id queue_demo_consumed, ''m2'') \<in> set (qw_delivered (queue_demo 4))" by simp
  moreover have "queue_demo_consumed \<in> set (qw_inputs (queue_demo 4))" by (simp add: queue_demo_rows)
  moreover note input_delivered_once [OF queue_demo_start queue_demo_run [of 4]]
  ultimately show ?thesis using row by fastforce
qed

text \<open>C19: The revision identifies the content of a row: turn inputs and questions never disappear, their revisions
  never go back, a row that is read again with the revision it had is the same in every column, and a consumed
  or cancelled input and a cancelled question never change again.\<close>

theorem revision_identifies_row:
  assumes "queue_start w0" and "queue_reach (w0, []) (w, ps)" and "queue_reach (w, ps) (w', ps')"
  shows "(\<forall>r \<in> set (qw_inputs w). \<exists>r' \<in> set (qw_inputs w'). ti_id r' = ti_id r \<and> ti_revision r \<le> ti_revision r' \<and>
       (ti_revision r' = ti_revision r \<or> \<not> waiting_input r \<longrightarrow> r' = r)) \<and>
    (\<forall>q \<in> set (qw_questions w). \<exists>q' \<in> set (qw_questions w'). qq_id q' = qq_id q \<and> qq_revision q \<le> qq_revision q' \<and>
       (qq_revision q' = qq_revision q \<or> qq_status q = Question_Cancelled \<longrightarrow> q' = q))"
proof -
  have later: "queue_later w w'" using queue_reach_later [OF assms] by simp
  have "ti_id r' = ti_id r \<and> ti_revision r \<le> ti_revision r' \<and> (ti_revision r' = ti_revision r \<or> \<not> waiting_input r \<longrightarrow> r' = r)"
    if "input_moved r r'" for r r' using that by (auto simp: input_moved_def same_input_def)
  moreover have "qq_id q' = qq_id q \<and> qq_revision q \<le> qq_revision q' \<and>
      (qq_revision q' = qq_revision q \<or> qq_status q = Question_Cancelled \<longrightarrow> q' = q)"
    if "question_moved q q'" for q q' using that by (auto simp: question_moved_def same_question_def)
  ultimately show ?thesis using later unfolding queue_later_def rows_later_def by meson
qed

lemma revision_identifies_row_witness:
  "\<exists>r \<in> set (qw_inputs (queue_demo 7)). ti_id r = ''i2'' \<and> ti_status r = Input_Consumed"
proof -
  have row: "ti_id queue_demo_consumed = ''i2''" "ti_status queue_demo_consumed = Input_Consumed" by code_simp+
  moreover have "queue_demo_consumed \<in> set (qw_inputs (queue_demo 4))" by (simp add: queue_demo_rows)
  moreover from row(2) have "\<not> waiting_input queue_demo_consumed" by (simp add: waiting_input_def)
  moreover note revision_identifies_row [OF queue_demo_start queue_demo_run [of 4] queue_demo_reach [of 4 7]]
  ultimately show ?thesis by fastforce
qed

text \<open>C21: The transcript is append-only: the messages that are stored keep their place and their identity, and
  unless they are reasoning summaries that are still streamed, every column.\<close>

theorem transcript_append_only:
  assumes "queue_start w0" and "queue_reach (w0, []) (w, ps)" and "queue_reach (w, ps) (w', ps')"
  shows "length (qw_messages w) \<le> length (qw_messages w') \<and>
    (\<forall>k < length (qw_messages w).
       ms_id (qw_messages w' ! k) = ms_id (qw_messages w ! k) \<and> ms_turn_id (qw_messages w' ! k) = ms_turn_id (qw_messages w ! k) \<and>
       (ms_role (qw_messages w ! k) \<noteq> ''reasoning_summary_streaming'' \<longrightarrow> qw_messages w' ! k = qw_messages w ! k))"
proof -
  have "queue_later w w'" using queue_reach_later [OF assms] by simp
  then show ?thesis unfolding queue_later_def message_moved_def by metis
qed

lemma transcript_append_only_witness: "qw_messages (queue_demo 7) ! 0 = qw_messages (queue_demo 1) ! 0"
proof -
  have "length (qw_messages (queue_demo 1)) = 1" "ms_role (qw_messages (queue_demo 1) ! 0) = ''user''" by code_simp+
  with transcript_append_only [OF queue_demo_start queue_demo_run [of 1] queue_demo_reach [of 1 7]] show ?thesis by simp
qed

text \<open>C23: A prompt that is sent again never becomes a second turn input: whatever happens in between, its key finds
  the input that it made, in whatever state that is, and nothing changes.\<close>

theorem prompt_sent_again_finds_input:
  assumes "queue_start w0" and "queue_reach (w0, []) (w, ps)" and "r \<in> set (qw_inputs w)"
    and "input_key r = input_key (pending_input session_id input i)" and "same_prompt r (pending_input session_id input i)"
    and "queue_reach (w, ps) (w', ps')"
  shows "insert_input session_id input i w' = Ok (w', False, pending_input session_id input i) \<and>
    (\<exists>r' \<in> set (qw_inputs w'). ti_id r' = ti_id r \<and>
       existing_input (pending_input session_id input i) w' = row_to_turn_input r')"
proof -
  let ?new = "pending_input session_id input i"
  have inv: "queue_inv w'" using queue_reach_inv [OF assms(1) reachable_trans [OF assms(2,6)]] by simp
  obtain r' where r': "r' \<in> set (qw_inputs w')" "input_moved r r'"
    using queue_reach_later [OF assms(1,2,6)] assms(3) by (auto simp: queue_later_def rows_later_def)
  then have key: "ti_id r' = ti_id r" "input_key r' = input_key ?new" and same: "same_prompt r' ?new"
    using assms(4,5) by (auto simp: input_moved_def same_input_def input_key_def same_prompt_def)
  have "input_conflict ?new r'" by (simp add: input_conflict_def key(2))
  with r'(1) have "insert_input session_id input i w' = Ok (w', False, ?new)"
    by (auto simp: insert_input_def Let_def list_ex_iff)
  moreover have "find (\<lambda>r. input_key r = input_key ?new) (qw_inputs w') = Some r'"
    using find_row_mem [OF input_keys(2) [OF inv] r'(1)] key(2) by (simp add: find_row_def)
  with same have "existing_input ?new w' = row_to_turn_input r'"
    by (auto simp: existing_input_def row_to_turn_input_def and_then_def split: sum.split)
  ultimately show ?thesis using r'(1) key(1) by blast
qed

lemma prompt_sent_again_finds_input_witness:
  "\<exists>r' \<in> set (qw_inputs (queue_demo 7)). ti_id r' = ''i1'' \<and>
     existing_input (pending_input ''s1'' (queue_demo_prompt Input_Queue ''k1'') (queue_demo_input 9 ''i9'' [])) (queue_demo 7) =
     row_to_turn_input r'"
proof -
  have r: "queue_demo_waiting \<in> set (qw_inputs (queue_demo 2))" and "ti_id queue_demo_waiting = ''i1''"
    by (simp_all add: queue_demo_rows(1)) (simp add: queue_demo_waiting_def pending_input_def queue_demo_input_def)
  moreover from prompt_sent_again_finds_input [OF queue_demo_start queue_demo_run [of 2] r _ _ queue_demo_reach [of 2 7],
      of "''s1''" "queue_demo_prompt Input_Queue ''k1''" "queue_demo_input 9 ''i9'' []"]
  have "\<exists>r' \<in> set (qw_inputs (queue_demo 7)). ti_id r' = ti_id queue_demo_waiting \<and>
     existing_input (pending_input ''s1'' (queue_demo_prompt Input_Queue ''k1'') (queue_demo_input 9 ''i9'' [])) (queue_demo 7) =
     row_to_turn_input r'"
    by (simp add: queue_demo_waiting_def pending_input_def input_key_def same_prompt_def)
  ultimately show ?thesis by simp
qed

lemma served_before_order:
  "served_before a b \<Longrightarrow> \<not> served_before b a" "\<not> served_before a b \<Longrightarrow> \<not> served_before b c \<Longrightarrow> \<not> served_before a c"
  using str_less_trans [of "ti_id a" "ti_id b" "ti_id a"] str_less_linear [of "ti_id a" "ti_id b"]
    str_less_linear [of "ti_id b" "ti_id c"] str_less_trans [of "ti_id a" "ti_id c" "ti_id b"]
    str_less_trans [of "ti_id b" "ti_id a" "ti_id c"] str_less_trans [of "ti_id c" "ti_id b" "ti_id a"]
  by (auto simp: served_before_def older_input_def)

text \<open>C22: The queue is served in its order: a claim takes a ready input, one that no ready input is to be served
  before, and changes only its row; it takes none exactly when none is ready.\<close>

theorem claim_serves_in_order:
  assumes "queue_start w0" and "queue_reach (w0, []) (w, ps)"
  shows "(\<exists>r \<in> set (qw_inputs w). ready_input w r \<and> (\<forall>y \<in> set (qw_inputs w). ready_input w y \<longrightarrow> \<not> served_before y r) \<and>
      claim_input i w = Ok (w\<lparr>qw_inputs := map (\<lambda>y. if y = r then moved_input Input_Processing (qi_now i) r else y) (qw_inputs w)\<rparr>,
        Some (moved_input Input_Processing (qi_now i) r))) \<or>
    ((\<forall>r \<in> set (qw_inputs w). \<not> ready_input w r) \<and> claim_input i w = Ok (w, None))"
proof (cases "next_input (filter (ready_input w) (qw_inputs w))")
  case None
  then have "\<forall>r \<in> set (qw_inputs w). \<not> ready_input w r" by (simp add: next_input_def filter_empty_conv)
  with None show ?thesis by (simp add: claim_input_def)
next
  case (Some r)
  note best = Some [unfolded next_input_def]
  have r: "r \<in> set (qw_inputs w)" "ready_input w r" using best_row_mem [OF best] by auto
  have first: "\<not> served_before y r" if "y \<in> set (qw_inputs w)" "ready_input w y" for y
    by (rule best_row_first [OF served_before_order best]) (use that in auto)
  have ids: "distinct (map ti_id (qw_inputs w))" using input_keys(1) [OF queue_reach_inv(2) [OF assms]] by simp
  have "ti_id y = ti_id r \<longleftrightarrow> y = r" if "y \<in> set (qw_inputs w)" for y
    using ids that r(1) by (metis distinct_map inj_onD)
  then have "update_where (\<lambda>y. ti_id y = ti_id r) (moved_input Input_Processing (qi_now i)) (qw_inputs w) =
      map (\<lambda>y. if y = r then moved_input Input_Processing (qi_now i) r else y) (qw_inputs w)"
    unfolding update_where_def by (intro map_cong) auto
  with Some r first show ?thesis by (auto simp: claim_input_def)
qed

lemma claim_serves_in_order_witness:
  "\<exists>r \<in> set (qw_inputs (queue_demo 7)). ready_input (queue_demo 7) r \<and>
     (\<exists>w. claim_input (queue_demo_input 8 [] []) (queue_demo 7) = Ok (w, Some (moved_input Input_Processing 5 r)))"
proof -
  have "queue_demo_waiting \<in> set (qw_inputs (queue_demo 7))" by (simp add: queue_demo_rows)
  moreover have "ready_input (queue_demo 7) queue_demo_waiting" by code_simp
  ultimately have "\<not> (\<forall>r \<in> set (qw_inputs (queue_demo 7)). \<not> ready_input (queue_demo 7) r)" by blast
  moreover have "qi_now (queue_demo_input 8 [] []) = 5" by (simp add: queue_demo_input_def)
  ultimately show ?thesis
    using claim_serves_in_order [OF queue_demo_start queue_demo_run [of 7], of "queue_demo_input 8 [] []"] by auto
qed

lemma superseded:
  assumes "queue_start w0" and "queue_reach (w0, []) (w, ps)" and "q \<in> set (qw_questions w)" and "uint v < qq_revision q"
    and "queue_reach (w, ps) (w', ps')"
  shows "\<not> answered_at (qq_id q) v turn_id w'"
proof -
  have inv: "queue_inv w'" using queue_reach_inv [OF assms(1) reachable_trans [OF assms(2,5)]] by simp
  obtain q' where q': "q' \<in> set (qw_questions w')" "question_moved q q'"
    using queue_reach_later [OF assms(1,2,5)] assms(3) by (auto simp: queue_later_def rows_later_def)
  have "x = q'" if "x \<in> set (qw_questions w')" "qq_id x = qq_id q" for x
  proof -
    have "distinct (map qq_id (qw_questions w'))" using inv by (simp add: queue_inv_def keys_unique_def)
    moreover have "qq_id q' = qq_id q" using q'(2) by (auto simp: question_moved_def same_question_def)
    ultimately show ?thesis using that q'(1) by (metis distinct_map inj_onD)
  qed
  moreover have "uint v < qq_revision q'" using q'(2) assms(4) by (auto simp: question_moved_def)
  ultimately show ?thesis by (fastforce simp: answered_at_def list_ex_iff)
qed

lemma refused_resume:
  assumes "\<And>i. f i w = Ok (w, False)"
  shows "\<exists>x. run_alone (try_prog (queue_turn scope turn_id) (\<lambda>_. if large then Ret (Err e)
      else try_prog (queue_tx f) (\<lambda>changed. if_changed changed p))) [i, j] w = (w, Some x) \<and> (\<forall>t. x \<noteq> Ok (Some t))"
  using assms
  by (auto simp: try_prog_def queue_turn_def sql_query_def sql_tx_def any_time_def sql_result_def committed_def if_changed_def
      split: sum.split DbOutcome.split)

text \<open>C17: An answer that was superseded never resumes a turn: once the question has a later revision, because it was
  reopened, a claim or a confirmation with the older revision finds nothing and changes nothing.\<close>

theorem superseded_answer_never_resumes:
  assumes "queue_start w0" and "queue_reach (w0, []) (w, ps)" and "q \<in> set (qw_questions w)" and "uint v < qq_revision q"
    and "queue_reach (w, ps) (w', ps')"
    and "p \<in> {claim_awaiting_turn_resume scope turn_id error_code (qq_id q) v, confirm_preparing_turn_resume scope turn_id error_code (qq_id q) v}"
  shows "\<exists>x. run_alone p [i, j] w' = (w', Some x) \<and> (\<forall>t. x \<noteq> Ok (Some t))"
proof -
  let ?ready = "\<lambda>status w t. tn_id t = turn_id \<and> owned_by scope (tn_scope t) \<and> tn_status t = status \<and>
      tn_error_code t = Some error_code \<and> answered_at (qq_id q) v turn_id w"
  have "move_turn (?ready status) f k w' = Ok (w', False)" for status f k
    using superseded [OF assms(1-5)] by (simp add: move_turn_def update_where_def list_ex_iff)
  then have "\<exists>x. run_alone (try_prog (queue_turn scope turn_id) (\<lambda>_. if large then Ret (Err e)
      else try_prog (queue_tx (move_turn (?ready status) f)) (\<lambda>changed. if_changed changed p))) [i, j] w' = (w', Some x) \<and>
      (\<forall>t. x \<noteq> Ok (Some t))" for large e status f and p :: "Turn queue_prog"
    by (rule refused_resume)
  note still = this
  from assms(6) show ?thesis unfolding claim_awaiting_turn_resume_def confirm_preparing_turn_resume_def
    by (elim insertE emptyE) (simp_all only: still)
qed

lemma superseded_answer_never_resumes_witness:
  "\<exists>x. run_alone (claim_awaiting_turn_resume queue_demo_scope ''t1'' ''stopped'' ''q1'' 1)
       [queue_demo_input 9 [] [], queue_demo_input 9 [] []] (queue_demo 7) = (queue_demo 7, Some x) \<and> (\<forall>t. x \<noteq> Ok (Some t))"
proof -
  let ?q = "answered_question [] ''a'' 5 (question_row queue_demo_scope queue_demo_question)"
  have "qw_questions (queue_demo 7) = [?q]" and q: "qq_id ?q = ''q1''" "qq_revision ?q = 2" by code_simp+
  then have "?q \<in> set (qw_questions (queue_demo 7))" by simp
  note never = superseded_answer_never_resumes [OF queue_demo_start queue_demo_run [of 7] this _ queue_demo_reach [of 7 7], of 1,
      unfolded q, OF _ _ _ _ insertI1]
  show ?thesis by (rule never) simp_all
qed

text \<open>C18: A compaction or an undo of the conversation covers the whole conversation: when it is accepted for the
  number of messages and the last message that were read, the session has exactly the messages it had then.\<close>

theorem compaction_covers_conversation:
  assumes "queue_start w0" and "queue_reach (w0, []) (w, ps)" and "queue_reach (w, ps) (w', ps')"
    and "uint count = int (length (filter (\<lambda>m. ms_session_id m = session_id) (qw_messages w)))"
    and "append_state session_id count expected_latest message i w' = Ok (w'', m)"
  shows "map ms_id (filter (\<lambda>m. ms_session_id m = session_id) (qw_messages w')) =
      map ms_id (filter (\<lambda>m. ms_session_id m = session_id) (qw_messages w)) \<and>
    qw_messages w'' = qw_messages w' @ [m]"
proof -
  let ?own = "filter (\<lambda>m. ms_session_id m = session_id)"
  let ?n = "length (qw_messages w)"
  have later: "queue_later w w'" using queue_reach_later [OF assms(1-3)] by simp
  have "list_all2 message_moved (qw_messages w) (take ?n (qw_messages w'))"
    using later by (simp add: queue_later_def list_all2_conv_all_nth)
  then have same: "map ms_id (?own (take ?n (qw_messages w'))) = map ms_id (?own (qw_messages w))"
    by (induction rule: list_all2_induct) (auto simp: message_moved_def)
  have split: "qw_messages w' = take ?n (qw_messages w') @ drop ?n (qw_messages w')" by simp
  have "int (length (?own (qw_messages w'))) = uint count" using assms(5) by (simp add: append_state_def Let_def split: if_splits)
  then have "length (?own (take ?n (qw_messages w') @ drop ?n (qw_messages w'))) = length (?own (qw_messages w))" using assms(4) by simp
  moreover have "length (?own (take ?n (qw_messages w'))) = length (?own (qw_messages w))" using same by (metis length_map)
  ultimately have "?own (drop ?n (qw_messages w')) = []" by (simp only: filter_append length_append) simp
  then have "?own (qw_messages w') = ?own (take ?n (qw_messages w'))" using split by (metis append_Nil2 filter_append)
  with same have "map ms_id (?own (qw_messages w')) = map ms_id (?own (qw_messages w))" by simp
  moreover from assms(5) obtain w1 where "insert_message m w' = Ok w1" "w'' = touched_session session_id (ms_created_at m) w1"
    by (auto simp: append_state_def Let_def and_then_Ok split: if_splits)
  then have "qw_messages w'' = qw_messages w' @ [m]" using message_appended(2) [of m w' w1] by (simp add: touched_session_def)
  ultimately show ?thesis by simp
qed

definition queue_demo_marker :: "Id \<Rightarrow> Message" where
  "queue_demo_marker k =
     \<lparr>ms_id = k, ms_session_id = ''s1'', ms_turn_id = ''t1'', ms_role = ''context_compaction_state'', ms_content = JNull,
      ms_created_at = 5\<rparr>"

lemma compaction_covers_conversation_witness:
  "\<exists>w m. append_state ''s1'' 2 (Some ''m2'') queue_demo_marker (queue_demo_input 9 [] ''m9'') (queue_demo 7) = Ok (w, m) \<and>
     qw_messages w = qw_messages (queue_demo 7) @ [m] \<and>
     map ms_id (filter (\<lambda>m. ms_session_id m = ''s1'') (qw_messages (queue_demo 7))) =
     map ms_id (filter (\<lambda>m. ms_session_id m = ''s1'') (qw_messages (queue_demo 4)))"
proof -
  have "is_ok (append_state ''s1'' 2 (Some ''m2'') queue_demo_marker (queue_demo_input 9 [] ''m9'') (queue_demo 7))" by code_simp
  then obtain w m where ok: "append_state ''s1'' 2 (Some ''m2'') queue_demo_marker (queue_demo_input 9 [] ''m9'') (queue_demo 7) = Ok (w, m)"
    by (auto simp: is_ok_def split: sum.splits)
  have "length (filter (\<lambda>m. ms_session_id m = ''s1'') (qw_messages (queue_demo 4))) = 2" by code_simp
  then have "uint (2 :: u64) = int (length (filter (\<lambda>m. ms_session_id m = ''s1'') (qw_messages (queue_demo 4))))" by simp
  from compaction_covers_conversation [OF queue_demo_start queue_demo_run [of 4] queue_demo_reach [of 4 7] this ok]
  have "map ms_id (filter (\<lambda>m. ms_session_id m = ''s1'') (qw_messages (queue_demo 7))) =
      map ms_id (filter (\<lambda>m. ms_session_id m = ''s1'') (qw_messages (queue_demo 4))) \<and> qw_messages w = qw_messages (queue_demo 7) @ [m]"
    by simp
  with ok show ?thesis by blast
qed

lemma end_session_Ok:
  assumes "find_row ss_id session_id (qw_sessions w) = Some s" and "ss_status s \<noteq> Session_Deleted" and "owned_by scope (ss_scope s)"
  obtains w' where "end_session scope session_id status now i w = Ok (w', ())"
    and "find_row ss_id session_id (qw_sessions w') = Some (s\<lparr>ss_status := status, ss_updated_at := now\<rparr>)"
    and "qw_turns w' = update_where (\<lambda>t. tn_session_id t = session_id \<and> \<not> is_terminal (tn_status t))
             (\<lambda>t. t\<lparr>tn_status := Cancelled, tn_error_code := Some ''session_closed'', tn_updated_at := now,
                   tn_completed_at := Some now\<rparr>) (qw_turns w)"
    and "qw_questions w' = update_where (\<lambda>q. qq_session_id q = session_id \<and> qq_status q = Question_Pending)
             cancelled_question (qw_questions w)"
    and "qw_inputs w' = update_where (\<lambda>r. ti_session_id r = session_id \<and> waiting_input r) (cancelled_input now) (qw_inputs w)"
    and "qw_messages w' = qw_messages w"
proof -
  let ?closable = "\<lambda>s. ss_id s = session_id \<and> owned_by scope (ss_scope s) \<and> ss_status s \<noteq> Session_Deleted"
  have s: "s \<in> set (qw_sessions w)" "ss_id s = session_id" using find_row_SomeD [OF assms(1)] by simp_all
  then have "list_ex ?closable (qw_sessions w)" using assms(2,3) by (auto simp: list_ex_iff)
  moreover have "find_row ss_id session_id (update_where ?closable (\<lambda>s. s\<lparr>ss_status := status, ss_updated_at := now\<rparr>) (qw_sessions w)) =
      Some (s\<lparr>ss_status := status, ss_updated_at := now\<rparr>)"
    using assms s by (simp add: find_row_update)
  ultimately show thesis using that by (simp add: end_session_def Let_def)
qed

text \<open>C20: Closing a session ends everything that is open in it: no turn of the session stays active, no input waits and
  no question is pending, all in one transaction with the new status; inputs, questions and turns of other
  sessions, finished ones, and the transcript stay as they are.\<close>

theorem close_session_ends_everything:
  assumes "find_row ss_id session_id (qw_sessions w) = Some s" and "ss_status s = Session_Active" and "owned_by scope (ss_scope s)"
    and "status \<noteq> Session_Active" and "\<forall>i \<in> {a, b, c, d}. qi_db i = DbOk"
  shows "\<exists>w'. run_alone (close_session scope session_id status) [a, b, c, d] w =
      (w', Some (Ok (s\<lparr>ss_status := status, ss_updated_at := qi_now b\<rparr>))) \<and>
    \<not> active_turn session_id (qw_turns w') \<and>
    (\<forall>r \<in> set (qw_inputs w'). ti_session_id r = session_id \<longrightarrow> \<not> waiting_input r) \<and>
    (\<forall>q \<in> set (qw_questions w'). qq_session_id q = session_id \<longrightarrow> qq_status q \<noteq> Question_Pending) \<and>
    (\<forall>t \<in> set (qw_turns w). tn_session_id t \<noteq> session_id \<or> is_terminal (tn_status t) \<longrightarrow> t \<in> set (qw_turns w')) \<and>
    (\<forall>r \<in> set (qw_inputs w). ti_session_id r \<noteq> session_id \<or> \<not> waiting_input r \<longrightarrow> r \<in> set (qw_inputs w')) \<and>
    (\<forall>q \<in> set (qw_questions w). qq_session_id q \<noteq> session_id \<or> qq_status q \<noteq> Question_Pending \<longrightarrow> q \<in> set (qw_questions w')) \<and>
    qw_messages w' = qw_messages w"
proof -
  have open_session: "ss_status s \<noteq> Session_Deleted" using assms(2) by simp
  obtain w' where e: "end_session scope session_id status (qi_now b) c w = Ok (w', ())"
    and found: "find_row ss_id session_id (qw_sessions w') = Some (s\<lparr>ss_status := status, ss_updated_at := qi_now b\<rparr>)"
    and rows: "qw_turns w' = update_where (\<lambda>t. tn_session_id t = session_id \<and> \<not> is_terminal (tn_status t))
             (\<lambda>t. t\<lparr>tn_status := Cancelled, tn_error_code := Some ''session_closed'', tn_updated_at := qi_now b,
                   tn_completed_at := Some (qi_now b)\<rparr>) (qw_turns w)"
      "qw_questions w' = update_where (\<lambda>q. qq_session_id q = session_id \<and> qq_status q = Question_Pending)
             cancelled_question (qw_questions w)"
      "qw_inputs w' = update_where (\<lambda>r. ti_session_id r = session_id \<and> waiting_input r) (cancelled_input (qi_now b)) (qw_inputs w)"
      "qw_messages w' = qw_messages w"
    by (rule end_session_Ok [OF assms(1) open_session assms(3)])
  have "ensure_actor_session_scope s scope = Ok ()"
    using assms(3) by (simp add: owned_by_def ensure_actor_session_scope_def ensure_actor_scope_def ensure_team_scope_def and_then_def)
  then have "run_alone (close_session scope session_id status) [a, b, c, d] w =
      (w', Some (Ok (s\<lparr>ss_status := status, ss_updated_at := qi_now b\<rparr>)))"
    using assms(1,2,4,5) e found
    by (simp add: close_session_def try_prog_def stored_session_def sql_query_def sql_ask_def sql_tx_def any_time_def sql_result_def
        committed_def and_then_def ok_or_def)
  moreover have "tn_session_id t \<noteq> session_id \<or> is_terminal (tn_status t)" if "t \<in> set (qw_turns w')" for t
    using updated_row [OF that [unfolded rows(1)]] by (elim disjE bexE conjE) (simp_all add: is_terminal_def)
  then have "\<not> active_turn session_id (qw_turns w')" by (auto simp: active_turn_def list_ex_iff)
  moreover have "\<not> waiting_input r" if "r \<in> set (qw_inputs w')" "ti_session_id r = session_id" for r
    using updated_row [OF that(1) [unfolded rows(3)]] that(2)
    by (elim disjE bexE conjE) (simp_all add: cancelled_input_def waiting_input_def)
  moreover have "qq_status q \<noteq> Question_Pending" if "q \<in> set (qw_questions w')" "qq_session_id q = session_id" for q
    using updated_row [OF that(1) [unfolded rows(2)]] that(2) by (elim disjE bexE conjE) (simp_all add: cancelled_question_def)
  moreover have "t \<in> set (qw_turns w')" if "t \<in> set (qw_turns w)" "tn_session_id t \<noteq> session_id \<or> is_terminal (tn_status t)" for t
    unfolding rows(1) by (rule update_where_kept) (use that in auto)
  moreover have "r \<in> set (qw_inputs w')" if "r \<in> set (qw_inputs w)" "ti_session_id r \<noteq> session_id \<or> \<not> waiting_input r" for r
    unfolding rows(3) by (rule update_where_kept) (use that in auto)
  moreover have "q \<in> set (qw_questions w')"
    if "q \<in> set (qw_questions w)" "qq_session_id q \<noteq> session_id \<or> qq_status q \<noteq> Question_Pending" for q
    unfolding rows(2) by (rule update_where_kept) (use that in auto)
  ultimately show ?thesis using rows(4) by blast
qed

lemma close_session_ends_everything_witness:
  "\<exists>w. fst (run_alone (close_session queue_demo_scope ''s1'' Session_Archived) (replicate 4 (queue_demo_input 9 [] [])) (queue_demo 4)) = w \<and>
     (\<forall>r \<in> set (qw_inputs w). ti_session_id r = ''s1'' \<longrightarrow> \<not> waiting_input r) \<and> queue_demo_consumed \<in> set (qw_inputs w)"
proof -
  define s where "s = hd (qw_sessions (queue_demo 4))"
  let ?i = "queue_demo_input 9 [] []"
  have "length (qw_sessions (queue_demo 4)) = 1" and s: "ss_id s = ''s1''" "ss_status s = Session_Active" "ss_scope s = queue_demo_scope"
    unfolding s_def by code_simp+
  then have "qw_sessions (queue_demo 4) = [s]" unfolding s_def by (cases "qw_sessions (queue_demo 4)") auto
  then have f: "find_row ss_id ''s1'' (qw_sessions (queue_demo 4)) = Some s" using s(1) by (simp add: find_row_def)
  have "queue_demo_consumed \<in> set (qw_inputs (queue_demo 4))" by (simp add: queue_demo_rows)
  moreover have "\<not> waiting_input queue_demo_consumed" by code_simp
  moreover have "replicate 4 ?i = [?i, ?i, ?i, ?i]" by (simp add: numeral_eq_Suc)
  moreover note close_session_ends_everything [OF f s(2), of queue_demo_scope Session_Archived ?i ?i ?i ?i]
  ultimately show ?thesis using s(3) by (simp add: owned_by_def queue_demo_input_def) (metis fst_conv)
qed

end
