(* ===== verification/Spec2Isabelle.thy ===== *)
theory Spec2Isabelle
  imports Agent_Safety Model_Gateway Policy_Trust Audit_Chain Turn_Undo Tool_Safety Task_Safety Queue_Safety
begin

text \<open>
  A verification library for s-code, a coding agent written in Rust (\<open>crates/\<close>).

  \<^bold>\<open>The program.\<close>  A daemon runs coding agents for an organisation.  The agent runner
  (\<open>crates/agent-core\<close>) drives a turn: it takes step requests from a queue, calls a model through the
  gateway (\<open>crates/model-gateway\<close>), executes the tool calls of the answer in waves that respect their
  resource claims, and records every operation in a journal from which a checkpoint is made.  Before
  a model call the history is compacted; a request that overflows the model's context is packed by
  the context engine (\<open>crates/context-engine\<close>).  A tool call goes through the execution service
  (\<open>crates/execution\<close>): it is judged by policy bundles and signed envelopes from a central service
  (\<open>crates/policy\<close>), by the file protections of the account and the permissions of the session, it may
  wait for an approval, and it is recorded in the database (\<open>crates/storage\<close>).  Handlers of the daemon do
  this concurrently.  The edit tool changes files of the workspace (\<open>crates/tool-runtime\<close>) and records
  what an undo needs.  Events are redacted, chained and shipped to a central audit service
  (\<open>crates/audit\<close>).

  \<^bold>\<open>The theories.\<close>
  \<^item> \<open>SC_Prelude\<close>, \<open>Json_Value\<close>, \<open>Rust_Path\<close>, \<open>Protocol_Types\<close>: machine integers, results,
    strings as UTF-8 bytes, \<open>serde_json\<close> values with ordered objects, \<open>Path::components\<close> and the shared
    protocol records.  A \<open>Result\<close> is a sum with the error on the left.
  \<^item> \<open>Step_Queue\<close>: \<open>agent-core/src/step/request.rs\<close> and \<open>queue.rs\<close>.  The locale of \<open>Wave_Source\<close>
    states what a source of batches promises; the queue and the tool schedule interpret it.
  \<^item> \<open>Tool_Schedule\<close>: \<open>agent-core/src/tool/resource.rs\<close> and \<open>scheduler.rs\<close>: claims, conflicts, waves.
  \<^item> \<open>Turn_Machine\<close>, \<open>Agent_Journal\<close>: the turn state machine and the journal with its replay and the
    checkpoint decoder.  The locale of \<open>Sequenced_Log\<close> states what a replayed log promises; the
    journal and the audit chain interpret it.
  \<^item> \<open>Tool_History\<close>, \<open>Context_Pack\<close>, \<open>Model_Call\<close>: history compaction, context packing, the
    retry loop around the provider and the recovery from a context overflow.
  \<^item> \<open>Agent_Runner\<close>, \<open>Agent_Safety\<close>: the complete run loop \<open>run_inner\<close> with all its early returns, and
    its invariant.  What the environment does in one pass of the loop (arriving step requests,
    cancellation, timers, the provider's answers, the executor's results) is the argument
    \<open>PassInput\<close>; the theorems hold for every sequence of inputs.
  \<^item> \<open>Model_Gateway\<close>: requests, events and the governed router with its fallbacks.
  \<^item> \<open>Policy_Bundle\<close>, \<open>Policy_Trust\<close>: rules, layering, rollout; the trust store and the five signed
    envelopes.  The locale of \<open>Signed_Channel\<close> states what a monotone channel promises; each envelope
    interprets it.
  \<^item> \<open>Redaction\<close>, \<open>Audit_Chain\<close>: redaction of texts and values; the hash chain, the central batches,
    their encrypted content, receipts and signatures.
  \<^item> \<open>Sensitive_Paths\<close>, \<open>File_Edit\<close>, \<open>Patch_Format\<close>: the lexical guard of workspace paths
    (\<open>platform-runtime/src/sensitive_paths.rs\<close>, \<open>tool-runtime/src/lib.rs\<close>), the edits of one file and the
    patch format (\<open>execution/src/editing.rs\<close>, \<open>execution/src/lib.rs\<close>).
  \<^item> \<open>Sensitive_Codec\<close>, \<open>Turn_Changes\<close>: sealing of columns and the table of file changes of a turn
    (\<open>storage/src/lib.rs\<close>).  The locale of \<open>Keyed_State\<close> states what a state with independent keys
    promises; files and the table interpret it.
  \<^item> \<open>Workspace_Edit\<close>, \<open>Edit_Service\<close>, \<open>Turn_Undo\<close>: reading, replacing and restoring files, the edit
    tool and the undo of a turn, with every failure of the file system and the database as an input.
  \<^item> \<open>Interleaving\<close>: handlers as programs of atomic steps that share a world, the system of all
    interleavings, and the locale that lifts what each handler does to the whole system.
  \<^item> \<open>Media_Cache\<close>: the bounded cache of rendered pages (\<open>execution/src/lib.rs\<close>).
  \<^item> \<open>Tool_Store\<close>, \<open>Call_Store\<close>: the tables and gates that decide whether a tool may run, one step per
    statement (\<open>storage/src/lib.rs\<close>, \<open>storage/src/protection.rs\<close>).
  \<^item> \<open>Tool_Service\<close>: the execution service (\<open>execution/src/lib.rs\<close>) and the executor and Code Mode of the
    daemon (\<open>daemon/src/lib.rs\<close>, \<open>daemon/src/code_mode.rs\<close>).
  \<^item> \<open>Tool_Guard\<close>, \<open>Tool_Steps\<close>, \<open>Tool_Handlers\<close>, \<open>Tool_Programs\<close>, \<open>Tool_Clients\<close>: the invariant of the
    tables, what a handler owns while it runs, the interpretation of the locale, and the proof that every
    operation keeps it; \<open>Tool_Demo\<close>, \<open>Tool_Safety\<close>: a concrete run and the properties of the system.
  \<^item> \<open>Sql_Rows\<close>, \<open>Session_Rows\<close>, \<open>Kept_World\<close>, \<open>Sql_Steps\<close>: the statements on tables and their sums,
    the sessions, the locale of a store whose operations are transactions, which lifts what every
    transaction keeps to all interleavings, and statements and transactions as steps that may fail.
  \<^item> \<open>Task_Store\<close>, \<open>Durable_Task\<close>: durable tasks, their leases, and the budgets of the teams
    (\<open>storage/src/lib.rs\<close>).  \<open>Task_Ledger\<close> states the books of the budgets as an invariant and interprets
    the locale; \<open>Task_Books\<close> and \<open>Task_Budgets\<close> show that every operation keeps them; \<open>Task_Safety\<close> has
    the system, a concrete run and the properties.
  \<^item> \<open>Turn_Queue\<close>, \<open>Turn_Messages\<close>, \<open>Turn_Questions\<close>: the prompts, messages and questions of a session
    and the pauses of a turn (\<open>storage/src/lib.rs\<close>).  A prompt of an idle session opens a turn; a prompt
    that arrives while a turn runs is a turn input, which is consumed into the turn or into one of its own,
    or cancelled.  \<open>Queue_Books\<close> states the invariant of the tables, interprets the locale and shows that
    every operation keeps them; \<open>Queue_Safety\<close> has the system, a concrete run and the properties.

  \<^bold>\<open>What is shown.\<close>  A run returns after at most one pass more than the model-call limit, without
  panics and within its limits (so \<open>max_model_calls + 1\<close> is enough fuel for the loop); every tool call
  is executed and answered exactly once; conflicting calls keep their order; batches, drains and
  cancellations of the queue are exact; the journal replays and a run's checkpoint is accepted;
  retries and packed contexts stay within their bounds; fallbacks are governed; local denies win;
  signed envelopes cannot be rolled back; credentials are hidden; the audit chain is tamper evident
  and encrypted content can be replayed.  Edits replace what they name, a printed patch is parsed back,
  and an undo restores every file after any history of faults.  In every interleaving of requests, with
  dropped handlers and failing statements, a tool is started at most once and only when its policy or an
  approval allows it, never against the file protection in force; approvals are decided once; and the
  gates of the accounts never block all handlers.  In every interleaving of the operations on durable
  tasks the books of the budgets balance to the micro unit, hard budgets are never exceeded, finished
  tasks stay as they are, and orders and consumptions that are sent again count once.  In every
  interleaving of the operations on the prompt queue a prompt becomes one message, is served in order and
  counts once when it is sent again; the transcript only grows, a compaction covers all of it, a revision
  identifies the row, an answer that was superseded never resumes a turn, and the end of a session ends
  everything that is open in it.

  \<^bold>\<open>Parameters.\<close>  Cryptography, base64, the serialisers, the identifier generator, the model
  providers, the day arithmetic of the database, the last time of the clock, the validation of the arguments of a tool and the effect of a tool are arguments of the
  definitions; where a property relies on one of their laws it is a hypothesis.  The database executes a
  statement, or a transaction, atomically; it may fail before or after its effect.

  \<^bold>\<open>Not modelled.\<close>  Observer notifications (they do not feed back into a run), the HTTP providers of
  the gateway, the workspace index of the context engine, the tables of goals, team tasks and
  connectors, and the crates that are input and output around this core: the HTTP handlers of the daemon,
  the command line interface, processes and sandboxes, connectors and transports.
\<close>

section \<open>Properties across components\<close>

text \<open>C40: Every result of a run can be resumed.  When the run loop returns a result, the checkpoint made
  of it is accepted by the checkpoint decoder, unchanged, provided the stored value decodes to that
  checkpoint: the journal that the runner keeps is the one the decoder replays.\<close>

theorem run_checkpoint_accepted:
  assumes "max_tool_calls (ar_limits ar) \<noteq> u32_max" and "unat (max_model_calls (ar_limits ar)) < fuel"
    and "run_inner lib ar request ingress now inputs fuel = Return (Ok r)"
    and "checkpoint_from_value v = Ok (AgentCheckpoint_new r)" and "jget v ''schema_version'' \<noteq> None"
  shows "AgentCheckpoint_decode result_from_value checkpoint_from_value v = Ok (AgentCheckpoint_new r)"
proof -
  from run_inner_returns [OF assms(1,2), of lib request ingress now inputs] assms(3)
  have "result_ok r" by (simp add: run_end_def)
  with assms(4,5) show ?thesis
    by (auto simp: AgentCheckpoint_decode_def AgentCheckpoint_new_def result_ok_def)
qed

lemma cancelled_run_returns:
  assumes "pass_inv ar CallingModel 0 s" and "in_cancelled (inputs 0)"
  shows "\<exists>r. run_loop lib ar inputs 0 (Suc fuel) s = Return (Ok r)"
proof -
  let ?s = "materialize_cancelled_steps (drain_external_steps (in_steps (inputs 0)) s)"
  have "run_inv ar CallingModel ?s" using assms(1) by (simp add: pass_inv_def)
  then obtain r where "(finish Cancelled Run_Cancelled ?s :: RunState flow) = Return (Ok r)"
    using finish_result [of ar CallingModel ?s Cancelled Run_Cancelled] by auto
  with assms(2) show ?thesis by (simp add: run_step_def cancel_run_def Let_def)
qed

theorem run_checkpoint_accepted_witness:
  "\<exists>r. AgentCheckpoint_decode (\<lambda>_. Err ''no'') (\<lambda>_. Ok (AgentCheckpoint_new r))
         (jobj [(''schema_version'', jnat32 1)]) = Ok (AgentCheckpoint_new r) \<and>
       run_inner demo_library demo_runner demo_run_request False 0
         (\<lambda>_. demo_input\<lparr>in_cancelled := True\<rparr>) 49 = Return (Ok r)"
proof -
  let ?inputs = "\<lambda>_ :: nat. demo_input\<lparr>in_cancelled := True\<rparr>"
  let ?v = "jobj [(''schema_version'', jnat32 1)]"
  obtain s0 where s0: "start_run demo_library demo_runner demo_run_request False 0 = Next s0"
    "pass_inv demo_runner CallingModel 0 s0"
    using demo_run_starts by blast
  from cancelled_run_returns [OF s0(2), of ?inputs demo_library 48] obtain r
    where "run_loop demo_library demo_runner ?inputs 0 49 s0 = Return (Ok r)" by (auto simp: eval_nat_numeral)
  with s0(1) have r: "run_inner demo_library demo_runner demo_run_request False 0 ?inputs 49 = Return (Ok r)"
    by (simp add: run_inner_def)
  have "AgentCheckpoint_decode (\<lambda>_. Err ''no'') (\<lambda>_. Ok (AgentCheckpoint_new r)) ?v = Ok (AgentCheckpoint_new r)"
    by (rule run_checkpoint_accepted [OF _ _ r]) (simp_all add: AgentRunner_new_def TurnLimits_default_def jget_jobj)
  with r show ?thesis by blast
qed

end
